(* ===== verification/Rust_Prelude.thy ===== *)
theory Rust_Prelude
  imports Main "HOL-Library.Sublist"
begin

text \<open>
  The part of the Rust language and standard library that the modelled components
  share: results with an error message, the \<^verbatim>\<open>str\<close> operations the sources use, and
  the generic lemmas the component theories rely on.

  Text is a \<^typ>\<open>string\<close>, one \<^typ>\<open>char\<close> per byte. On ASCII text this is exact: a
  Rust \<^verbatim>\<open>char\<close> is one byte, \<^verbatim>\<open>len()\<close> counts characters, and
  \<^verbatim>\<open>char::is_whitespace\<close>, \<^verbatim>\<open>to_lowercase\<close> and \<^verbatim>\<open>to_uppercase\<close> are their ASCII
  versions. Bytes above 127 are ordinary characters without case; the non-ASCII white
  space and case pairs of Unicode are outside the model.
\<close>

section \<open>Collections of facts\<close>

named_theorems str_len "length bounds of the string operations"
named_theorems str_iff "characterisations of the string predicates"

section \<open>Results\<close>

text \<open>\<^verbatim>\<open>Result<T, String>\<close>: the error message on the left.\<close>

type_synonym 'a res = "string + 'a"

definition bind_res :: "'a res \<Rightarrow> ('a \<Rightarrow> 'b res) \<Rightarrow> 'b res" where
  "bind_res r f = (case r of Inl e \<Rightarrow> Inl e | Inr x \<Rightarrow> f x)"

lemma bind_res_simps [simp]:
  "bind_res (Inl e) f = Inl e"
  "bind_res (Inr x) f = f x"
  by (simp_all add: bind_res_def)

lemma bind_res_Inr_iff [simp]:
  "bind_res r f = Inr y \<longleftrightarrow> (\<exists>x. r = Inr x \<and> f x = Inr y)"
  by (cases r) simp_all

section \<open>Characters\<close>

abbreviation sq :: char where "sq \<equiv> CHR 0x27"
abbreviation dq :: char where "dq \<equiv> CHR 0x22"
abbreviation bsl :: char where "bsl \<equiv> CHR 0x5C"
abbreviation newline :: char where "newline \<equiv> CHR 0x0A"
abbreviation cret :: char where "cret \<equiv> CHR 0x0D"

definition is_ascii_digit :: "char \<Rightarrow> bool" where
  "is_ascii_digit c \<longleftrightarrow> 48 \<le> (of_char c :: nat) \<and> (of_char c :: nat) \<le> 57"

definition is_ascii_uppercase :: "char \<Rightarrow> bool" where
  "is_ascii_uppercase c \<longleftrightarrow> 65 \<le> (of_char c :: nat) \<and> (of_char c :: nat) \<le> 90"

definition is_ascii_lowercase :: "char \<Rightarrow> bool" where
  "is_ascii_lowercase c \<longleftrightarrow> 97 \<le> (of_char c :: nat) \<and> (of_char c :: nat) \<le> 122"

definition is_ascii_alphabetic :: "char \<Rightarrow> bool" where
  "is_ascii_alphabetic c \<longleftrightarrow> is_ascii_uppercase c \<or> is_ascii_lowercase c"

definition is_ascii_alphanumeric :: "char \<Rightarrow> bool" where
  "is_ascii_alphanumeric c \<longleftrightarrow> is_ascii_alphabetic c \<or> is_ascii_digit c"

definition is_whitespace :: "char \<Rightarrow> bool" where
  "is_whitespace c \<longleftrightarrow>
     (9 \<le> (of_char c :: nat) \<and> (of_char c :: nat) \<le> 13) \<or> (of_char c :: nat) = 32"

definition is_control :: "char \<Rightarrow> bool" where
  "is_control c \<longleftrightarrow> (of_char c :: nat) < 32 \<or> (of_char c :: nat) = 127"

definition to_lower_char :: "char \<Rightarrow> char" where
  "to_lower_char c = (if is_ascii_uppercase c then char_of ((of_char c :: nat) + 32) else c)"

definition to_upper_char :: "char \<Rightarrow> char" where
  "to_upper_char c = (if is_ascii_lowercase c then char_of ((of_char c :: nat) - 32) else c)"

lemmas char_class_defs =
  is_ascii_digit_def is_ascii_uppercase_def is_ascii_lowercase_def is_ascii_alphabetic_def
  is_ascii_alphanumeric_def is_whitespace_def is_control_def

section \<open>String operations\<close>

fun starts_with :: "'a list \<Rightarrow> 'a list \<Rightarrow> bool" where
  "starts_with s [] = True"
| "starts_with [] (x # p) = False"
| "starts_with (y # s) (x # p) = (x = y \<and> starts_with s p)"

definition ends_with :: "'a list \<Rightarrow> 'a list \<Rightarrow> bool" where
  "ends_with s p = starts_with (rev s) (rev p)"

fun strip_prefix :: "'a list \<Rightarrow> 'a list \<Rightarrow> 'a list option" where
  "strip_prefix s [] = Some s"
| "strip_prefix [] (x # p) = None"
| "strip_prefix (y # s) (x # p) = (if x = y then strip_prefix s p else None)"

fun contains_str :: "'a list \<Rightarrow> 'a list \<Rightarrow> bool" where
  "contains_str [] p = (p = [])"
| "contains_str (c # s) p = (starts_with (c # s) p \<or> contains_str s p)"

text \<open>\<^verbatim>\<open>str::split\<close> on a class of characters: the empty string gives one empty piece.\<close>

fun split_pred :: "('a \<Rightarrow> bool) \<Rightarrow> 'a list \<Rightarrow> 'a list list" where
  "split_pred P [] = [[]]"
| "split_pred P (c # s) =
     (if P c then [] # split_pred P s
      else (case split_pred P s of [] \<Rightarrow> [[c]] | w # ws \<Rightarrow> (c # w) # ws))"

text \<open>\<^verbatim>\<open>str::split_once\<close> at the first occurrence of a character.\<close>

fun split_once :: "'a \<Rightarrow> 'a list \<Rightarrow> ('a list \<times> 'a list) option" where
  "split_once d [] = None"
| "split_once d (c # s) =
     (if c = d then Some ([], s)
      else (case split_once d s of None \<Rightarrow> None | Some (a, b) \<Rightarrow> Some (c # a, b)))"

fun find_idx :: "('a \<Rightarrow> bool) \<Rightarrow> 'a list \<Rightarrow> nat option" where
  "find_idx P [] = None"
| "find_idx P (c # s) = (if P c then Some 0 else map_option Suc (find_idx P s))"

definition rfind_idx :: "('a \<Rightarrow> bool) \<Rightarrow> 'a list \<Rightarrow> nat option" where
  "rfind_idx P s = map_option (\<lambda>k. length s - Suc k) (find_idx P (rev s))"

fun join_with :: "'a list \<Rightarrow> 'a list list \<Rightarrow> 'a list" where
  "join_with sep [] = []"
| "join_with sep [w] = w"
| "join_with sep (w # v # ws) = w @ sep @ join_with sep (v # ws)"

definition trim_end_pred :: "('a \<Rightarrow> bool) \<Rightarrow> 'a list \<Rightarrow> 'a list" where
  "trim_end_pred P s = rev (dropWhile P (rev s))"

definition trim :: "string \<Rightarrow> string" where
  "trim s = trim_end_pred is_whitespace (dropWhile is_whitespace s)"

definition to_lowercase :: "string \<Rightarrow> string" where
  "to_lowercase = map to_lower_char"

definition to_uppercase :: "string \<Rightarrow> string" where
  "to_uppercase = map to_upper_char"

definition eq_ignore_ascii_case :: "string \<Rightarrow> string \<Rightarrow> bool" where
  "eq_ignore_ascii_case s t \<longleftrightarrow> to_lowercase s = to_lowercase t"

definition replace_char :: "char \<Rightarrow> char \<Rightarrow> string \<Rightarrow> string" where
  "replace_char a b = map (\<lambda>c. if c = a then b else c)"

text \<open>\<^verbatim>\<open>str::replace\<close> with a non-empty pattern: left to right, without overlaps.\<close>

function replace_str :: "'a list \<Rightarrow> 'a list \<Rightarrow> 'a list \<Rightarrow> 'a list" where
  "replace_str p r s =
     (if p = [] then s
      else (case s of
              [] \<Rightarrow> []
            | c # s' \<Rightarrow>
                (case strip_prefix s p of
                   Some rest \<Rightarrow> r @ replace_str p r (drop (length p) s)
                 | None \<Rightarrow> c # replace_str p r s')))"
  by pat_completeness auto
termination
  by (relation "measure (\<lambda>(p, r, s). length s)") auto

declare replace_str.simps [simp del]

section \<open>Facts about the string operations\<close>

lemma starts_with_iff [str_iff]: "starts_with s p \<longleftrightarrow> prefix p s"
  by (induction s p rule: starts_with.induct) auto

lemma starts_with_append [simp]: "starts_with (p @ s) p"
  by (simp add: str_iff)

lemma starts_with_length [str_len]: "starts_with s p \<Longrightarrow> length p \<le> length s"
  by (simp add: str_iff prefix_length_le)

lemma starts_with_trans: "starts_with s p \<Longrightarrow> starts_with p q \<Longrightarrow> starts_with s q"
  by (auto simp: str_iff)

lemma ends_with_iff [str_iff]: "ends_with s p \<longleftrightarrow> suffix p s"
  by (simp add: ends_with_def starts_with_iff suffix_to_prefix)

lemma strip_prefix_Some [str_iff]: "strip_prefix s p = Some r \<longleftrightarrow> s = p @ r"
  by (induction s p rule: strip_prefix.induct) auto

lemma strip_prefix_None [str_iff]: "strip_prefix s p = None \<longleftrightarrow> \<not> starts_with s p"
  by (induction s p rule: strip_prefix.induct) auto

lemma contains_str_iff [str_iff]: "contains_str s p \<longleftrightarrow> sublist p s"
  by (induction s p rule: contains_str.induct)
    (auto simp: starts_with_iff sublist_Cons_right)

lemma split_pred_nonempty [simp]: "split_pred P s \<noteq> []"
  by (induction P s rule: split_pred.induct) (auto split: list.splits)

lemma split_pred_no_sep: "w \<in> set (split_pred P s) \<Longrightarrow> c \<in> set w \<Longrightarrow> \<not> P c"
  by (induction P s arbitrary: w rule: split_pred.induct)
    (fastforce split: if_splits list.splits)+

lemma split_once_Some:
  "split_once d s = Some (a, b) \<Longrightarrow> s = a @ d # b \<and> d \<notin> set a"
proof (induction s arbitrary: a)
  case (Cons c s)
  then show ?case by (auto split: if_splits option.splits)
qed simp

lemma find_idx_Some:
  "find_idx P s = Some k \<longleftrightarrow> k < length s \<and> P (s ! k) \<and> (\<forall>i < k. \<not> P (s ! i))"
proof (induction P s arbitrary: k rule: find_idx.induct)
  case (2 P c s)
  then show ?case
    by (cases k) (auto simp: less_Suc_eq_0_disj)
qed simp

lemma find_idx_None: "find_idx P s = None \<longleftrightarrow> (\<forall>c \<in> set s. \<not> P c)"
  by (induction P s rule: find_idx.induct) auto

lemma length_join_with [str_len]:
  "ws \<noteq> [] \<Longrightarrow>
     length (join_with sep ws) = sum_list (map length ws) + (length ws - 1) * length sep"
  by (induction sep ws rule: join_with.induct) auto

lemma length_trim_end_pred [str_len]: "length (trim_end_pred P s) \<le> length s"
  unfolding trim_end_pred_def using length_dropWhile_le [of P "rev s"] by simp

lemma length_trim [str_len]: "length (trim s) \<le> length s"
  unfolding trim_def
  using length_trim_end_pred [of is_whitespace "dropWhile is_whitespace s"]
    length_dropWhile_le [of is_whitespace s] by linarith

lemma length_to_lowercase [simp]: "length (to_lowercase s) = length s"
  by (simp add: to_lowercase_def)

lemma length_replace_char [simp]: "length (replace_char a b s) = length s"
  by (simp add: replace_char_def)

lemma eq_ignore_ascii_case_refl [simp]: "eq_ignore_ascii_case s s"
  by (simp add: eq_ignore_ascii_case_def)

lemma takeWhile_dropWhile_Nil [simp]: "takeWhile P (dropWhile P xs) = []"
  by (induction xs) auto

lemma split_pred_append:
  "P d \<Longrightarrow> split_pred P (a @ d # b) = split_pred P a @ split_pred P b"
  by (induction P a rule: split_pred.induct) (auto split: list.splits)

lemma split_pred_id: "list_all (\<lambda>c. \<not> P c) s \<Longrightarrow> split_pred P s = [s]"
  by (induction P s rule: split_pred.induct) auto

lemma to_lower_char_classes [simp]:
  "is_whitespace (to_lower_char c) = is_whitespace c"
  "to_lower_char (to_lower_char c) = to_lower_char c"
  by (auto simp: to_lower_char_def char_class_defs of_char_of)

lemma to_lowercase_idem [simp]: "to_lowercase (to_lowercase s) = to_lowercase s"
  by (simp add: to_lowercase_def)

lemma to_lowercase_simps [simp]:
  "to_lowercase [] = []"
  "to_lowercase (c # s) = to_lower_char c # to_lowercase s"
  "to_lowercase (s @ t) = to_lowercase s @ to_lowercase t"
  "to_lowercase (rev s) = rev (to_lowercase s)"
  "to_lowercase (take n s) = take n (to_lowercase s)"
  "to_lowercase (drop n s) = drop n (to_lowercase s)"
  by (simp_all add: to_lowercase_def rev_map take_map drop_map)

lemma dropWhile_lower:
  "to_lowercase (dropWhile is_whitespace s) = dropWhile is_whitespace (to_lowercase s)"
  by (induction s) auto

lemma trim_lower: "to_lowercase (trim s) = trim (to_lowercase s)"
  by (simp add: trim_def trim_end_pred_def dropWhile_lower)

lemma trim_append_solid:
  assumes "\<not> is_whitespace d" and "c \<noteq> []" and "\<not> is_whitespace (hd c)"
  shows "\<exists>x. trim (a @ d # c) = x @ d # trim c"
proof -
  obtain x where x: "dropWhile is_whitespace (a @ d # c) = x @ d # c"
  proof (cases "list_all is_whitespace a")
    case True
    with assms(1) have "dropWhile is_whitespace (a @ d # c) = [] @ d # c"
      by (induction a) auto
    then show ?thesis by (rule that)
  next
    case False
    then obtain b where "b \<in> set a" "\<not> is_whitespace b" by (auto simp: list_all_iff)
    then have "dropWhile is_whitespace (a @ d # c) = dropWhile is_whitespace a @ d # c"
      by (rule dropWhile_append1)
    then show ?thesis by (rule that)
  qed
  have "dropWhile is_whitespace c = c" using assms(2,3) by (cases c) auto
  moreover have "hd c \<in> set (rev c)" using assms(2) by simp
  then have "dropWhile is_whitespace (rev c @ d # rev x) =
      dropWhile is_whitespace (rev c) @ d # rev x"
    using assms(3) by (intro dropWhile_append1)
  ultimately show ?thesis using x by (auto simp: trim_def trim_end_pred_def)
qed

lemma replace_str_absent: "\<not> contains_str s p \<Longrightarrow> replace_str p r s = s"
proof (induction s)
  case Nil
  then show ?case by (simp add: replace_str.simps)
next
  case (Cons c s)
  then have "strip_prefix (c # s) p = None" "p \<noteq> []" by (auto simp: strip_prefix_None)
  with Cons show ?case by (simp add: replace_str.simps [of p r "c # s"])
qed

lemma replace_str_present:
  "contains_str s p \<Longrightarrow> p \<noteq> [] \<Longrightarrow> set r \<subseteq> set (replace_str p r s)"
proof (induction s)
  case (Cons c s)
  show ?case
  proof (cases "strip_prefix (c # s) p")
    case None
    with Cons.prems have "contains_str s p" by (auto simp: strip_prefix_None)
    with Cons None show ?thesis by (auto simp: replace_str.simps [of p r "c # s"])
  next
    case (Some rest)
    with Cons.prems show ?thesis by (auto simp: replace_str.simps [of p r "c # s"])
  qed
qed simp

section \<open>Unsigned integers from text\<close>

definition digit_val :: "char \<Rightarrow> nat" where
  "digit_val c = of_char c - 48"

definition digits_val :: "string \<Rightarrow> nat" where
  "digits_val s = foldl (\<lambda>n c. 10 * n + digit_val c) 0 s"

text \<open>
  \<^verbatim>\<open>str::parse\<close> for an unsigned type of the given width: an optional plus sign and at least
  one decimal digit; anything else, and a value that does not fit, is an error.
\<close>

definition parse_unsigned :: "nat \<Rightarrow> string \<Rightarrow> nat option" where
  "parse_unsigned bits s =
     (let ds = (case s of c # r \<Rightarrow> if c = CHR ''+'' then r else s | [] \<Rightarrow> [])
      in if ds \<noteq> [] \<and> list_all is_ascii_digit ds \<and> digits_val ds < 2 ^ bits
         then Some (digits_val ds) else None)"

lemma parse_unsigned_bound: "parse_unsigned bits s = Some n \<Longrightarrow> n < 2 ^ bits"
  by (auto simp: parse_unsigned_def Let_def split: if_splits)

text \<open>The same for a signed type: an optional sign.\<close>

definition parse_signed :: "nat \<Rightarrow> string \<Rightarrow> int option" where
  "parse_signed bits s =
     (let neg = (s \<noteq> [] \<and> hd s = CHR ''-'');
          ds = (if s \<noteq> [] \<and> (hd s = CHR ''-'' \<or> hd s = CHR ''+'') then tl s else s);
          v = (if neg then - int (digits_val ds) else int (digits_val ds))
      in if ds \<noteq> [] \<and> list_all is_ascii_digit ds \<and> - (2 ^ (bits - 1)) \<le> v \<and> v < 2 ^ (bits - 1)
         then Some v else None)"

definition parse_bool :: "string \<Rightarrow> bool option" where
  "parse_bool s = (if s = ''true'' then Some True else if s = ''false'' then Some False else None)"

section \<open>Lines of text\<close>

abbreviation LF :: char where "LF \<equiv> CHR 0x0A"
abbreviation CR :: char where "CR \<equiv> CHR 0x0D"

text \<open>
  \<^verbatim>\<open>str::lines\<close>: a terminated line loses its newline and one carriage return before it. The
  two characters are arguments, so that text can be bytes or code points.
\<close>

definition strip_end :: "'a \<Rightarrow> 'a list \<Rightarrow> 'a list" where
  "strip_end c s = (if s \<noteq> [] \<and> last s = c then butlast s else s)"

definition split_lines :: "'a \<Rightarrow> 'a \<Rightarrow> 'a list \<Rightarrow> 'a list list" where
  "split_lines lf cr s =
     (let ps = split_pred (\<lambda>c. c = lf) s
      in map (strip_end cr) (butlast ps) @ (if last ps = [] then [] else [last ps]))"

abbreviation str_lines :: "string \<Rightarrow> string list" where
  "str_lines \<equiv> split_lines LF CR"

lemma dropWhile_none: "list_all (\<lambda>c. \<not> P c) s \<Longrightarrow> dropWhile P s = s"
  by (cases s) simp_all

text \<open>Lines without line feeds, printed with one after each.\<close>

definition end_lines :: "'a \<Rightarrow> 'a list list \<Rightarrow> 'a list" where
  "end_lines lf ls = concat (map (\<lambda>l. l @ [lf]) ls)"

abbreviation unlines :: "string list \<Rightarrow> string" where
  "unlines \<equiv> end_lines LF"

definition plain_for :: "'a \<Rightarrow> 'a \<Rightarrow> 'a list \<Rightarrow> bool" where
  "plain_for lf cr l \<longleftrightarrow> lf \<notin> set l \<and> (l = [] \<or> last l \<noteq> cr)"

abbreviation plain_line :: "string \<Rightarrow> bool" where
  "plain_line \<equiv> plain_for LF CR"

lemma split_end_lines:
  "list_all (\<lambda>l. lf \<notin> set l) ls \<Longrightarrow> split_pred (\<lambda>c. c = lf) (end_lines lf ls @ s) = ls @ split_pred (\<lambda>c. c = lf) s"
proof (induction ls)
  case (Cons l ls)
  then have "split_pred (\<lambda>c. c = lf) (l @ lf # end_lines lf ls @ s) = l # split_pred (\<lambda>c. c = lf) (end_lines lf ls @ s)"
    by (subst split_pred_append) (auto simp: list_all_iff intro: split_pred_id)
  with Cons show ?case by (simp add: end_lines_def)
qed (simp add: end_lines_def)

lemma strip_end_plain: "list_all (plain_for lf cr) ls \<Longrightarrow> map (strip_end cr) ls = ls"
  by (intro map_idI) (auto simp: list_all_iff plain_for_def strip_end_def)

text \<open>The last line may lack its terminator.\<close>

lemma split_lines_open:
  assumes "list_all (plain_for lf cr) ls" and "lf \<notin> set l" "l \<noteq> []"
  shows "split_lines lf cr (end_lines lf ls @ l) = ls @ [l]"
proof -
  have "list_all (\<lambda>l. lf \<notin> set l) ls" using assms(1) by (auto simp: list_all_iff plain_for_def)
  moreover have "split_pred (\<lambda>c. c = lf) l = [l]" using assms(2) by (intro split_pred_id) (auto simp: list_all_iff)
  ultimately show ?thesis
    using assms(1,3) by (simp add: split_lines_def Let_def split_end_lines strip_end_plain butlast_append)
qed

lemma split_lines_end_lines:
  assumes "list_all (plain_for lf cr) ls"
  shows "split_lines lf cr (end_lines lf ls) = ls"
proof -
  have "list_all (\<lambda>l. lf \<notin> set l) ls" using assms by (auto simp: list_all_iff plain_for_def)
  from split_end_lines [OF this, of "[]"] show ?thesis
    using assms by (simp add: split_lines_def Let_def strip_end_plain)
qed

lemmas str_lines_unlines = split_lines_end_lines [of LF CR]

section \<open>Texts with pieces replaced\<close>

text \<open>Text as gaps with the given pieces between them.\<close>

fun weave :: "'a list list \<Rightarrow> 'a list list \<Rightarrow> 'a list" where
  "weave (g # gs) (x # xs) = g @ x @ weave gs xs"
| "weave gs [] = concat gs"
| "weave [] xs = concat xs"

lemma dropWhile_hd: "s = [] \<or> \<not> P (hd s) \<Longrightarrow> dropWhile P s = s"
  by (cases s) simp_all

lemma trim_fixed:
  "s \<noteq> [] \<Longrightarrow> \<not> is_whitespace (hd s) \<Longrightarrow> \<not> is_whitespace (last s) \<Longrightarrow> trim s = s"
  by (simp add: trim_def trim_end_pred_def dropWhile_hd hd_rev)

section \<open>Loops that only add\<close>

text \<open>What a loop has seen once is not lost when no step lowers the measure of its state.\<close>

lemma fold_grows:
  fixes m :: "'s \<Rightarrow> nat"
  assumes "\<And>x st. m st \<le> m (f x st)"
  shows "m st \<le> m (fold f xs st)"
proof (induction xs arbitrary: st)
  case (Cons x xs)
  show ?case using assms [of st x] Cons [of "f x st"] by simp
qed simp

lemma fold_reaches:
  fixes m :: "'s \<Rightarrow> nat"
  assumes "\<And>x st. m st \<le> m (f x st)" "x \<in> set xs" "\<And>st. k \<le> m (f x st)"
  shows "k \<le> m (fold f xs st)"
proof -
  from assms(2) obtain as bs where "xs = as @ x # bs" by (meson split_list)
  then show ?thesis using assms(3) fold_grows [of m f, OF assms(1)] by (auto intro: order_trans)
qed

lemma fold_keeps:
  assumes "\<And>x st. P st \<Longrightarrow> P (f x st)" "P st"
  shows "P (fold f xs st)"
  using assms(2) by (induction xs arbitrary: st) (auto intro: assms(1))

end
