(* ===== verification/Guard_Lexer.thy ===== *)
theory Guard_Lexer
  imports Rust_Prelude
begin

text \<open>
  The lexer of the shell guard (\<^verbatim>\<open>tokenize\<close> in
  \<^verbatim>\<open>src/crates/oh-my-grok-build/src/bin/safe_shell_guard.rs\<close>). The \<^verbatim>\<open>for\<close> loop over
  the characters is \<open>lex_loop\<close>, its body \<open>lex_step\<close>, its four local variables the
  record \<open>lex_state\<close>. The compile-time constant \<^verbatim>\<open>IS_WINDOWS\<close> is the argument
  \<open>win\<close>, so the theorems hold for both builds.
\<close>

section \<open>Tokens\<close>

datatype QuoteKind = Single | Double

record Token =
  tvalue :: string
  quoted :: "QuoteKind option"

definition word_token :: "string \<Rightarrow> Token" where
  "word_token v = \<lparr>tvalue = v, quoted = None\<rparr>"

definition quoted_token :: "QuoteKind \<Rightarrow> string \<Rightarrow> Token" where
  "quoted_token k v = \<lparr>tvalue = v, quoted = Some k\<rparr>"

definition SHELL_METACHARS :: "char list" where
  "SHELL_METACHARS =
     [CHR '';'', CHR ''&'', CHR ''|'', CHR ''>'', CHR ''<'', CHR ''('', CHR '')'',
      CHR ''{'', CHR ''}'', CHR ''!'', newline, cret]"

section \<open>The loop\<close>

record lex_state =
  lx_tokens :: "Token list"
  lx_current :: string
  lx_quote :: "char option"
  lx_escape :: bool

definition lex_init :: lex_state where
  "lex_init = \<lparr>lx_tokens = [], lx_current = [], lx_quote = None, lx_escape = False\<rparr>"

definition push_char :: "char \<Rightarrow> lex_state \<Rightarrow> lex_state" where
  "push_char c st = st\<lparr>lx_current := lx_current st @ [c]\<rparr>"

text \<open>\<^verbatim>\<open>if !current.is_empty() { tokens.push(..); current = String::new() }\<close>\<close>

definition flush_word :: "lex_state \<Rightarrow> lex_state" where
  "flush_word st =
     (if lx_current st = [] then st
      else st\<lparr>lx_tokens := lx_tokens st @ [word_token (lx_current st)], lx_current := []\<rparr>)"

definition close_quote :: "char \<Rightarrow> lex_state \<Rightarrow> lex_state" where
  "close_quote q st =
     st\<lparr>lx_quote := None,
        lx_tokens := lx_tokens st @
          [quoted_token (if q = sq then Single else Double) (lx_current st)],
        lx_current := []\<rparr>"

definition dq_expansion_reason :: "char \<Rightarrow> char option \<Rightarrow> string" where
  "dq_expansion_reason ch nxt =
     (if ch = CHR ''`'' then ''Blocked command substitution (backtick) inside double quotes''
      else if ch = CHR ''%'' then ''Blocked Windows variable expansion inside double quotes''
      else if nxt = Some (CHR ''('') then ''Blocked command substitution inside double quotes''
      else if nxt = Some (CHR ''{'') then ''Blocked parameter expansion inside double quotes''
      else ''Blocked variable expansion inside double quotes'')"

definition bare_expansion_reason :: "bool \<Rightarrow> char \<Rightarrow> char option \<Rightarrow> string" where
  "bare_expansion_reason win ch nxt =
     (if ch = CHR ''`'' then ''Blocked command substitution (backtick)''
      else if win \<and> ch = CHR ''%'' then ''Blocked Windows variable expansion''
      else if nxt = Some (CHR ''('') then ''Blocked command substitution''
      else if nxt = Some (CHR ''{'') then ''Blocked parameter expansion''
      else ''Blocked variable expansion'')"

definition is_expansion :: "bool \<Rightarrow> char \<Rightarrow> bool" where
  "is_expansion win ch \<longleftrightarrow> ch = CHR ''$'' \<or> ch = CHR ''`'' \<or> (win \<and> ch = CHR ''%'')"

definition dq_escapable :: "char option \<Rightarrow> bool" where
  "dq_escapable nxt \<longleftrightarrow>
     nxt = Some (CHR ''$'') \<or> nxt = Some (CHR ''`'') \<or> nxt = Some dq \<or> nxt = Some bsl
     \<or> nxt = Some newline"

definition lex_backslash :: "bool \<Rightarrow> char option \<Rightarrow> lex_state \<Rightarrow> lex_state" where
  "lex_backslash win nxt st =
     (if win then push_char bsl st
      else if lx_quote st = Some dq
      then (if dq_escapable nxt then st\<lparr>lx_escape := True\<rparr> else push_char bsl st)
      else st\<lparr>lx_escape := True\<rparr>)"

definition lex_quoted :: "bool \<Rightarrow> char \<Rightarrow> char \<Rightarrow> char option \<Rightarrow> lex_state \<Rightarrow> lex_state res" where
  "lex_quoted win q ch nxt st =
     (if ch = q then Inr (close_quote q st)
      else if q = dq \<and> is_expansion win ch then Inl (dq_expansion_reason ch nxt)
      else Inr (push_char ch st))"

definition lex_bare :: "bool \<Rightarrow> char \<Rightarrow> char option \<Rightarrow> lex_state \<Rightarrow> lex_state res" where
  "lex_bare win ch nxt st =
     (if ch = dq \<or> ch = sq then Inr ((flush_word st)\<lparr>lx_quote := Some ch\<rparr>)
      else if ch \<in> set SHELL_METACHARS
      then Inl (''Blocked shell metacharacter '' @ [sq, ch, sq])
      else if is_whitespace ch then Inr (flush_word st)
      else if is_expansion win ch then Inl (bare_expansion_reason win ch nxt)
      else Inr (push_char ch st))"

definition lex_step :: "bool \<Rightarrow> char \<Rightarrow> char option \<Rightarrow> lex_state \<Rightarrow> lex_state res" where
  "lex_step win ch nxt st =
     (if lx_escape st then Inr ((push_char ch st)\<lparr>lx_escape := False\<rparr>)
      else if win \<and> lx_quote st = None \<and> ch = CHR ''^''
      then Inl ''Blocked Windows escape character''
      else if ch = bsl \<and> lx_quote st \<noteq> Some sq then Inr (lex_backslash win nxt st)
      else (case lx_quote st of
              Some q \<Rightarrow> lex_quoted win q ch nxt st
            | None \<Rightarrow> lex_bare win ch nxt st))"

definition peek :: "'a list \<Rightarrow> 'a option" where
  "peek s = (case s of [] \<Rightarrow> None | c # _ \<Rightarrow> Some c)"

fun lex_loop :: "bool \<Rightarrow> string \<Rightarrow> lex_state \<Rightarrow> lex_state res" where
  "lex_loop win [] st = Inr st"
| "lex_loop win (ch # rest) st =
     bind_res (lex_step win ch (peek rest) st) (lex_loop win rest)"

definition lex_finish :: "lex_state \<Rightarrow> Token list res" where
  "lex_finish st =
     (if lx_quote st \<noteq> None then Inl ''Unterminated quoted string''
      else if lx_escape st then Inl ''Trailing backslash escape''
      else Inr (lx_tokens (flush_word st)))"

definition tokenize :: "bool \<Rightarrow> string \<Rightarrow> Token list res" where
  "tokenize win command = bind_res (lex_loop win command lex_init) lex_finish"

section \<open>Sizes\<close>

text \<open>
  The weight of a token list: every token counts its characters and one for itself. The
  evaluator re-lexes token values; that its recursion ends rests on lexing never
  producing more weight than it reads.
\<close>

definition tok_weight :: "Token list \<Rightarrow> nat" where
  "tok_weight ts = sum_list (map (\<lambda>t. Suc (length (tvalue t))) ts)"

lemma tok_weight_simps [simp]:
  "tok_weight [] = 0"
  "tok_weight (t # ts) = Suc (length (tvalue t)) + tok_weight ts"
  "tok_weight (ts @ us) = tok_weight ts + tok_weight us"
  by (simp_all add: tok_weight_def)

lemma token_sel [simp]:
  "tvalue (word_token v) = v" "quoted (word_token v) = None"
  "tvalue (quoted_token k v) = v" "quoted (quoted_token k v) = Some k"
  by (simp_all add: word_token_def quoted_token_def)

definition lex_weight :: "lex_state \<Rightarrow> nat" where
  "lex_weight st = tok_weight (lx_tokens st) + length (lx_current st)"

lemmas lex_ops =
  push_char_def flush_word_def close_quote_def lex_backslash_def lex_quoted_def lex_bare_def

lemma lex_step_weight:
  "lex_step win ch nxt st = Inr st' \<Longrightarrow> lex_weight st' \<le> Suc (lex_weight st)"
  by (auto simp: lex_step_def lex_ops lex_weight_def split: if_splits option.splits)

lemma lex_loop_weight:
  "lex_loop win s st = Inr st' \<Longrightarrow> lex_weight st' \<le> length s + lex_weight st"
proof (induction win s st rule: lex_loop.induct)
  case (2 win ch rest st)
  then obtain st1 where st1: "lex_step win ch (peek rest) st = Inr st1"
    and "lex_loop win rest st1 = Inr st'" by auto
  with "2.IH" have "lex_weight st' \<le> length rest + lex_weight st1" by blast
  with lex_step_weight [OF st1] show ?case by simp
qed simp

lemma tokenize_weight:
  assumes "tokenize win s = Inr ts"
  shows "tok_weight ts \<le> Suc (length s)"
proof -
  from assms obtain st where st: "lex_loop win s lex_init = Inr st"
    and fin: "lex_finish st = Inr ts" by (auto simp: tokenize_def)
  from lex_loop_weight [OF st] have "lex_weight st \<le> length s"
    by (simp add: lex_weight_def lex_init_def)
  moreover from fin have "tok_weight ts \<le> Suc (lex_weight st)"
    by (auto simp: lex_finish_def flush_word_def lex_weight_def split: if_splits)
  ultimately show ?thesis by simp
qed

section \<open>Quoting modes\<close>

text \<open>
  The specification of quoting, without any token: every character is read in a mode,
  the open quote (if any) and whether it is escaped. A command is accepted exactly when
  no character is active in its mode and the last mode is closed.
\<close>

type_synonym mode = "char option \<times> bool"

definition next_mode :: "bool \<Rightarrow> char \<Rightarrow> char option \<Rightarrow> mode \<Rightarrow> mode" where
  "next_mode win ch nxt m =
     (case m of (q, esc) \<Rightarrow>
        if esc then (q, False)
        else if ch = bsl \<and> q \<noteq> Some sq
        then (q, \<not> win \<and> (q = Some dq \<longrightarrow> dq_escapable nxt))
        else (case q of
                Some c \<Rightarrow> (if ch = c then None else q, False)
              | None \<Rightarrow> (if ch = dq \<or> ch = sq then Some ch else None, False)))"

definition active :: "bool \<Rightarrow> char \<Rightarrow> mode \<Rightarrow> bool" where
  "active win ch m =
     (case m of (q, esc) \<Rightarrow>
        \<not> esc \<and>
        (case q of
           None \<Rightarrow> ch \<in> set SHELL_METACHARS \<or> is_expansion win ch \<or> (win \<and> ch = CHR ''^'')
         | Some c \<Rightarrow> c = dq \<and> is_expansion win ch))"

fun modes :: "bool \<Rightarrow> string \<Rightarrow> mode \<Rightarrow> (char \<times> mode) list" where
  "modes win [] m = []"
| "modes win (ch # rest) m = (ch, m) # modes win rest (next_mode win ch (peek rest) m)"

fun final_mode :: "bool \<Rightarrow> string \<Rightarrow> mode \<Rightarrow> mode" where
  "final_mode win [] m = m"
| "final_mode win (ch # rest) m = final_mode win rest (next_mode win ch (peek rest) m)"

definition lex_mode :: "lex_state \<Rightarrow> mode" where
  "lex_mode st = (lx_quote st, lx_escape st)"

text \<open>A quote mode only ever holds one of the two quote characters.\<close>

definition quote_ok :: "mode \<Rightarrow> bool" where
  "quote_ok m \<longleftrightarrow> fst m \<in> {None, Some sq, Some dq}"

lemma quote_ok_next: "quote_ok m \<Longrightarrow> quote_ok (next_mode win ch nxt m)"
  by (cases m) (auto simp: quote_ok_def next_mode_def split: option.splits)

lemma special_chars_distinct [simp]:
  "\<not> is_expansion win dq" "\<not> is_expansion win sq" "\<not> is_expansion win bsl"
  "dq \<notin> set SHELL_METACHARS" "sq \<notin> set SHELL_METACHARS" "bsl \<notin> set SHELL_METACHARS"
  "CHR ''^'' \<notin> set SHELL_METACHARS"
  by (simp_all add: is_expansion_def SHELL_METACHARS_def)

lemma expansion_not_whitespace: "is_expansion win ch \<Longrightarrow> \<not> is_whitespace ch"
  by (auto simp: is_expansion_def is_whitespace_def)

lemma lex_step_Inr_iff:
  "(\<exists>st'. lex_step win ch nxt st = Inr st') \<longleftrightarrow> \<not> active win ch (lex_mode st)"
  by (cases "lx_quote st")
    (auto simp: lex_step_def lex_quoted_def lex_bare_def active_def lex_mode_def
       dest: expansion_not_whitespace)

lemma lex_step_mode:
  assumes "lex_step win ch nxt st = Inr st'" and "quote_ok (lex_mode st)"
  shows "lex_mode st' = next_mode win ch nxt (lex_mode st)"
  using assms
  by (cases "lx_quote st")
    (auto simp: lex_step_def lex_ops lex_mode_def next_mode_def quote_ok_def split: if_splits)

lemma lex_loop_Inr_iff:
  assumes "quote_ok (lex_mode st)"
  shows "(\<exists>st'. lex_loop win s st = Inr st') \<longleftrightarrow>
           list_all (\<lambda>(ch, m). \<not> active win ch m) (modes win s (lex_mode st))"
  using assms
proof (induction win s st rule: lex_loop.induct)
  case (2 win ch rest st)
  show ?case
  proof (cases "active win ch (lex_mode st)")
    case True
    then have "\<not> (\<exists>st'. lex_step win ch (peek rest) st = Inr st')"
      by (simp add: lex_step_Inr_iff)
    with True show ?thesis by auto
  next
    case False
    then obtain st1 where st1: "lex_step win ch (peek rest) st = Inr st1"
      using lex_step_Inr_iff by blast
    note mode1 = lex_step_mode [OF st1 "2.prems"]
    then have "quote_ok (lex_mode st1)" using "2.prems" quote_ok_next by simp
    with "2.IH" [of st1] st1 mode1 False show ?thesis by simp
  qed
qed simp

lemma lex_loop_mode:
  assumes "lex_loop win s st = Inr st'" and "quote_ok (lex_mode st)"
  shows "lex_mode st' = final_mode win s (lex_mode st)"
  using assms
proof (induction win s st rule: lex_loop.induct)
  case (2 win ch rest st)
  then obtain st1 where st1: "lex_step win ch (peek rest) st = Inr st1"
    and rest: "lex_loop win rest st1 = Inr st'" by auto
  note mode1 = lex_step_mode [OF st1 "2.prems"(2)]
  then have "quote_ok (lex_mode st1)" using "2.prems"(2) quote_ok_next by simp
  with "2.IH" [OF rest] mode1 show ?case by simp
qed simp

lemma lex_init_mode [simp]: "lex_mode lex_init = (None, False)"
  by (simp add: lex_mode_def lex_init_def)

lemma lex_finish_Inr_iff: "(\<exists>ts. lex_finish st = Inr ts) \<longleftrightarrow> lex_mode st = (None, False)"
  by (auto simp: lex_finish_def lex_mode_def)

text \<open>
  C17. A command is tokenised exactly when no character of it is active where the shell's
  quoting rules read it (no metacharacter and no expansion outside quotes, no expansion
  inside double quotes) and every quote and escape is closed at its end.
\<close>

theorem tokenize_accepts_iff:
  "(\<exists>ts. tokenize win s = Inr ts) \<longleftrightarrow>
     list_all (\<lambda>(ch, m). \<not> active win ch m) (modes win s (None, False))
     \<and> final_mode win s (None, False) = (None, False)"
proof (cases "\<exists>st. lex_loop win s lex_init = Inr st")
  case True
  then obtain st where st: "lex_loop win s lex_init = Inr st" by blast
  have ok: "quote_ok (lex_mode lex_init)" by (simp add: quote_ok_def)
  from lex_loop_mode [OF st ok]
  have "(\<exists>ts. lex_finish st = Inr ts) \<longleftrightarrow> final_mode win s (None, False) = (None, False)"
    by (simp add: lex_finish_Inr_iff)
  with lex_loop_Inr_iff [OF ok, of win s] st show ?thesis by (simp add: tokenize_def)
next
  case False
  have "quote_ok (lex_mode lex_init)" by (simp add: quote_ok_def)
  from lex_loop_Inr_iff [OF this, of win s] False show ?thesis by (simp add: tokenize_def)
qed

section \<open>Words and quotes survive\<close>

text \<open>Unquoted tokens are never empty; only a quoted string can be.\<close>

definition words_nonempty :: "Token list \<Rightarrow> bool" where
  "words_nonempty ts \<longleftrightarrow> list_all (\<lambda>t. quoted t \<noteq> None \<or> tvalue t \<noteq> []) ts"

lemma lex_step_words:
  "lex_step win ch nxt st = Inr st' \<Longrightarrow> words_nonempty (lx_tokens st) \<Longrightarrow>
     words_nonempty (lx_tokens st')"
  by (auto simp: lex_step_def lex_ops words_nonempty_def split: if_splits option.splits)

lemma lex_loop_words:
  "lex_loop win s st = Inr st' \<Longrightarrow> words_nonempty (lx_tokens st) \<Longrightarrow>
     words_nonempty (lx_tokens st')"
  by (induction win s st rule: lex_loop.induct) (auto dest: lex_step_words)

lemma tokenize_words_nonempty: "tokenize win s = Inr ts \<Longrightarrow> words_nonempty ts"
proof -
  assume "tokenize win s = Inr ts"
  then obtain st where st: "lex_loop win s lex_init = Inr st" and fin: "lex_finish st = Inr ts"
    by (auto simp: tokenize_def)
  have "words_nonempty (lx_tokens lex_init)" by (simp add: words_nonempty_def lex_init_def)
  then have "words_nonempty (lx_tokens st)" by (rule lex_loop_words [OF st])
  with fin show ?thesis
    by (auto simp: lex_finish_def flush_word_def words_nonempty_def split: if_splits)
qed

definition plain_char :: "bool \<Rightarrow> char \<Rightarrow> bool" where
  "plain_char win c \<longleftrightarrow>
     c \<noteq> dq \<and> c \<noteq> sq \<and> c \<noteq> bsl \<and> c \<notin> set SHELL_METACHARS \<and> \<not> is_whitespace c
     \<and> \<not> is_expansion win c \<and> (win \<longrightarrow> c \<noteq> CHR ''^'')"

definition plain_word :: "bool \<Rightarrow> string \<Rightarrow> bool" where
  "plain_word win w \<longleftrightarrow> w \<noteq> [] \<and> list_all (plain_char win) w"

definition bare_state :: "Token list \<Rightarrow> string \<Rightarrow> lex_state" where
  "bare_state ts cur = \<lparr>lx_tokens = ts, lx_current = cur, lx_quote = None, lx_escape = False\<rparr>"

lemma lex_step_plain:
  "plain_char win c \<Longrightarrow> lex_step win c nxt (bare_state ts cur) = Inr (bare_state ts (cur @ [c]))"
  by (auto simp: lex_step_def lex_bare_def plain_char_def bare_state_def push_char_def)

lemma lex_loop_plain:
  "list_all (plain_char win) w \<Longrightarrow>
     lex_loop win (w @ rest) (bare_state ts cur) = lex_loop win rest (bare_state ts (cur @ w))"
  by (induction w arbitrary: cur) (auto simp: lex_step_plain)

lemma lex_step_space:
  "cur \<noteq> [] \<Longrightarrow> lex_step win (CHR '' '') nxt (bare_state ts cur) =
     Inr (bare_state (ts @ [word_token cur]) [])"
  by (simp add: lex_step_def lex_bare_def bare_state_def flush_word_def SHELL_METACHARS_def
      is_whitespace_def)

lemma lex_finish_bare:
  "cur \<noteq> [] \<Longrightarrow> lex_finish (bare_state ts cur) = Inr (ts @ [word_token cur])"
  by (simp add: lex_finish_def bare_state_def flush_word_def)

lemma lex_join_words:
  assumes "ws \<noteq> []" and "list_all (plain_word win) ws"
  shows "bind_res (lex_loop win (join_with '' '' ws) (bare_state ts [])) lex_finish
           = Inr (ts @ map word_token ws)"
  using assms
proof (induction "'' '' :: string" ws arbitrary: ts rule: join_with.induct)
  case (2 w)
  then show ?case
    using lex_loop_plain [of win w "[]" ts "[]"] by (simp add: plain_word_def lex_finish_bare)
next
  case (3 w v ws)
  then have w: "list_all (plain_char win) w" "w \<noteq> []" by (auto simp: plain_word_def)
  then show ?case
    using "3.hyps" [of "ts @ [word_token w]"] "3.prems"
    by (simp add: lex_loop_plain lex_step_space)
qed simp

text \<open>
  Lexing undoes printing: a command line made of plain words joined by single blanks
  is tokenised into exactly those words, unquoted and in order.
\<close>

theorem tokenize_join_words:
  assumes "list_all (plain_word win) ws"
  shows "tokenize win (join_with '' '' ws) = Inr (map word_token ws)"
proof (cases "ws = []")
  case True
  then show ?thesis by (simp add: tokenize_def lex_init_def lex_finish_def flush_word_def)
next
  case False
  with lex_join_words [OF _ assms, of "[]"] show ?thesis
    by (simp add: tokenize_def lex_init_def bare_state_def)
qed

theorem tokenize_join_words_witness:
  "list_all (plain_word False) [''git'', ''status''] \<and>
   tokenize False ''git status'' = Inr [word_token ''git'', word_token ''status'']"
proof -
  have h: "list_all (plain_word False) [''git'', ''status'']"
    by code_simp
  from tokenize_join_words [OF h] h show ?thesis by simp
qed

lemma lex_loop_single_quoted:
  "sq \<notin> set w \<Longrightarrow>
     lex_loop win (w @ rest) (st\<lparr>lx_quote := Some sq, lx_escape := False\<rparr>) =
     lex_loop win rest (st\<lparr>lx_quote := Some sq, lx_escape := False, lx_current := lx_current st @ w\<rparr>)"
proof (induction w arbitrary: st)
  case (Cons c w)
  have "lex_step win c (peek (w @ rest)) (st\<lparr>lx_quote := Some sq, lx_escape := False\<rparr>) =
    Inr ((st\<lparr>lx_current := lx_current st @ [c]\<rparr>)\<lparr>lx_quote := Some sq, lx_escape := False\<rparr>)"
    using Cons.prems by (auto simp: lex_step_def lex_quoted_def push_char_def)
  with Cons show ?case by simp
qed simp

text \<open>
  Single quotes hide every character but themselves: the quoted string is one token
  whose value is the text between the quotes.
\<close>

theorem tokenize_single_quoted:
  assumes "sq \<notin> set w"
  shows "tokenize win (sq # w @ [sq]) = Inr [quoted_token Single w]"
proof -
  have open_quote: "lex_step win sq (peek (w @ [sq])) lex_init =
    Inr (lex_init\<lparr>lx_quote := Some sq, lx_escape := False\<rparr>)"
    by (simp add: lex_step_def lex_bare_def lex_init_def flush_word_def)
  show ?thesis
    using open_quote lex_loop_single_quoted [OF assms, of win "[sq]" lex_init]
    by (simp add: tokenize_def lex_step_def lex_quoted_def close_quote_def lex_finish_def
        flush_word_def lex_init_def)
qed

theorem tokenize_single_quoted_witness:
  "sq \<notin> set ''rm $HOME; ls'' \<and>
   tokenize False (sq # ''rm $HOME; ls'' @ [sq]) = Inr [quoted_token Single ''rm $HOME; ls'']"
proof -
  have h: "sq \<notin> set ''rm $HOME; ls''" by simp
  with tokenize_single_quoted [OF h] show ?thesis by blast
qed

end
