(* ===== verification/Guard_Names.thy ===== *)
theory Guard_Names
  imports Guard_Lexer
begin

text \<open>
  Names in the shell guard (\<^verbatim>\<open>safe_shell_guard.rs\<close>): the command and variable tables,
  the base name of a command word (\<^verbatim>\<open>get_base_name\<close> with its extension and version
  stripping), and environment assignments. The lemmas say what the spellings of one
  command have in common and what an accepted assignment looks like.
\<close>

section \<open>Tables\<close>

definition DANGEROUS_COMMANDS :: "string list" where
  "DANGEROUS_COMMANDS =
     [''mkfs'', ''fdisk'', ''diskpart'', ''format'', ''shutdown'', ''reboot'', ''halt'',
      ''poweroff'', ''init'', ''telinit'', ''wipe'', ''shred'', ''cryptsetup'', ''lvremove'',
      ''vgremove'', ''pvremove'', ''mkswap'', ''swapoff'', ''usermod'', ''groupmod'']"

definition UNANALYZABLE_COMMANDS :: "string list" where
  "UNANALYZABLE_COMMANDS =
     [''python'', ''python2'', ''python3'', ''pythonw'', ''py'', ''pyw'', ''perl'', ''ruby'',
      ''node'', ''nodejs'', ''deno'', ''bun'', ''php'', ''lua'', ''micropython'', ''pypy'',
      ''pypy3'', ''ssh'', ''scp'', ''sftp'', ''chroot'', ''systemd-run'', ''systemd-nspawn'',
      ''script'', ''screen'', ''tmux'', ''expect'', ''powershell'', ''pwsh'',
      ''powershell.exe'', ''pwsh.exe'', ''eval'', ''exec'', ''awk'', ''gawk'', ''nawk'',
      ''mawk'', ''tclsh'', ''wish'', ''osascript'', ''npx'', ''busybox'', ''docker'',
      ''podman'', ''nerdctl'', ''buildah'', ''crictl'', ''unshare'', ''nsenter'', ''pkexec'',
      ''run0'', ''runas'', ''su'', ''runuser'', ''sg'', ''ionice'', ''taskset'', ''flock'',
      ''chrt'', ''numactl'', ''chronic'', ''crontab'', ''at'', ''batch'', ''reg'', ''reg.exe'',
      ''schtasks'', ''sc'', ''icacls'', ''takeown'', ''wscript'', ''cscript'', ''mshta'']"

definition WINDOWS_CMD_LAUNCHERS :: "string list" where
  "WINDOWS_CMD_LAUNCHERS =
     [''start'', ''call'', ''runas'']"

definition UNSAFE_ENV_KEYS :: "string list" where
  "UNSAFE_ENV_KEYS =
     [''LD_PRELOAD'', ''LD_LIBRARY_PATH'', ''LD_AUDIT'', ''LD_PROFILE'', ''LD_PRELOAD_32'',
      ''LD_PRELOAD_64'', ''DYLD_INSERT_LIBRARIES'', ''DYLD_LIBRARY_PATH'',
      ''DYLD_FRAMEWORK_PATH'', ''PYTHONPATH'', ''NODE_OPTIONS'', ''GITSIDELOAD'', ''ENV'',
      ''BASH_ENV'', ''PROMPT_COMMAND'', ''GIT_SSH_COMMAND'', ''GIT_SSH'', ''GIT_EDITOR'',
      ''GIT_SEQUENCE_EDITOR'', ''GIT_PAGER'', ''GIT_CONFIG_COUNT'', ''GIT_CONFIG_GLOBAL'',
      ''GIT_CONFIG_SYSTEM'', ''GIT_ATTR_GLOBAL'', ''GIT_ATTR_SYSTEM'', ''EMAIL'']"

definition NORMALIZABLE_STEMS :: "string list" where
  "NORMALIZABLE_STEMS =
     [''python'', ''python2'', ''python3'', ''pythonw'', ''py'', ''pyw'', ''perl'', ''ruby'',
      ''node'', ''nodejs'', ''deno'', ''bun'', ''php'', ''lua'', ''micropython'', ''pypy'',
      ''pypy3'', ''bash'', ''sh'', ''dash'', ''zsh'', ''ksh'', ''csh'', ''tcsh'', ''fish'',
      ''awk'', ''gawk'', ''nawk'', ''mawk'', ''tclsh'', ''wish'', ''osascript'', ''busybox'',
      ''docker'', ''podman'', ''nerdctl'', ''buildah'', ''crictl'', ''unshare'', ''nsenter'',
      ''pkexec'', ''run0'']"

definition WIN_EXEC_EXTS :: "string list" where
  "WIN_EXEC_EXTS =
     [''.exe'', ''.com'', ''.bat'', ''.cmd'', ''.ps1'', ''.vbs'', ''.js'', ''.wsf'', ''.msc'',
      ''.cpl'', ''.scr'', ''.pif'']"

definition SCRIPT_EXTS :: "string list" where
  "SCRIPT_EXTS =
     [''.bat'', ''.cmd'', ''.ps1'', ''.vbs'', ''.js'', ''.wsf'', ''.py'', ''.pyw'', ''.pl'',
      ''.rb'', ''.sh'', ''.hta'', ''.scr'', ''.pif'', ''.cpl'', ''.msc'']"

section \<open>Decisions\<close>

datatype Decision = Allow | Deny string

section \<open>Executable extensions\<close>

definition has_ext :: "string \<Rightarrow> string \<Rightarrow> bool" where
  "has_ext s ext \<longleftrightarrow>
     length ext \<le> length s \<and> eq_ignore_ascii_case (drop (length s - length ext) s) ext"

definition win_exec_ext :: "string \<Rightarrow> string option" where
  "win_exec_ext s = find (has_ext s) WIN_EXEC_EXTS"

definition script_ext :: "string \<Rightarrow> string option" where
  "script_ext s = find (has_ext s) SCRIPT_EXTS"

definition strip_win_exec_ext :: "string \<Rightarrow> string" where
  "strip_win_exec_ext s =
     (case win_exec_ext s of Some ext \<Rightarrow> take (length s - length ext) s | None \<Rightarrow> s)"

section \<open>Base names\<close>

definition version_char :: "char \<Rightarrow> bool" where
  "version_char c \<longleftrightarrow> is_ascii_digit c \<or> c = CHR ''.''"

text \<open>The scan from the end stops at the first character that is neither digit nor dot.\<close>

definition version_suffix_start :: "string \<Rightarrow> nat option" where
  "version_suffix_start s =
     (let suffix = rev (takeWhile version_char (rev s));
          pos = length s - length suffix;
          parts = split_pred (\<lambda>c. c = CHR ''.'') suffix
      in if s = [] \<or> pos = length s then None
         else if \<not> is_ascii_digit (hd suffix) \<or> contains_str suffix ''..'' then None
         else if list_ex (\<lambda>p. p = []) parts \<or> \<not> list_all (list_all is_ascii_digit) parts
         then None
         else if pos = 0 then None
         else Some pos)"

lemma version_suffix_start_less: "version_suffix_start s = Some pos \<Longrightarrow> pos < length s"
  by (auto simp: version_suffix_start_def Let_def split: if_splits)

function normalize_base_name :: "string \<Rightarrow> string" where
  "normalize_base_name base =
     (case version_suffix_start base of
        Some start \<Rightarrow>
          (if take start base \<in> set NORMALIZABLE_STEMS
           then normalize_base_name (take start base) else base)
      | None \<Rightarrow> base)"
  by pat_completeness auto
termination
  by (relation "measure length") (auto dest: version_suffix_start_less)

declare normalize_base_name.simps [simp del]

definition is_sep :: "char \<Rightarrow> bool" where
  "is_sep c \<longleftrightarrow> c = CHR ''/'' \<or> c = bsl"

definition last_component :: "string \<Rightarrow> string" where
  "last_component s = last (split_pred is_sep s)"

definition get_base_name :: "string \<Rightarrow> string" where
  "get_base_name cmd =
     normalize_base_name (to_lowercase (last_component (strip_win_exec_ext (trim cmd))))"

section \<open>Environment assignments\<close>

fun assignment_tail :: "string \<Rightarrow> string option" where
  "assignment_tail [] = None"
| "assignment_tail (c # s) =
     (if c = CHR ''='' then Some []
      else if \<not> is_ascii_alphanumeric c \<and> c \<noteq> CHR ''_'' then None
      else map_option (Cons c) (assignment_tail s))"

definition assignment_key :: "string \<Rightarrow> string option" where
  "assignment_key s =
     (case s of
        [] \<Rightarrow> None
      | c # rest \<Rightarrow>
          (if \<not> is_ascii_alphabetic c \<and> c \<noteq> CHR ''_'' then None
           else map_option (Cons c) (assignment_tail rest)))"

definition is_assignment :: "Token \<Rightarrow> bool" where
  "is_assignment token \<longleftrightarrow> quoted token = None \<and> assignment_key (tvalue token) \<noteq> None"

definition is_unsafe_env_key :: "string \<Rightarrow> bool" where
  "is_unsafe_env_key key =
     (let upper = to_uppercase key
      in upper \<in> set UNSAFE_ENV_KEYS
         \<or> starts_with upper ''LD_''
         \<or> starts_with upper ''DYLD_''
         \<or> starts_with upper ''GIT_CONFIG_KEY_''
         \<or> starts_with upper ''GIT_CONFIG_VALUE_'')"

definition has_unsafe_env_assignment :: "Token \<Rightarrow> string option" where
  "has_unsafe_env_assignment token =
     (if quoted token \<noteq> None then None
      else (case assignment_key (tvalue token) of
              None \<Rightarrow> None
            | Some k \<Rightarrow> (if is_unsafe_env_key k then Some k else None)))"

definition is_valid_env_identifier :: "string \<Rightarrow> bool" where
  "is_valid_env_identifier s =
     (case s of
        [] \<Rightarrow> False
      | c # rest \<Rightarrow>
          (is_ascii_alphabetic c \<or> c = CHR ''_'')
          \<and> list_all (\<lambda>c. is_ascii_alphanumeric c \<or> c = CHR ''_'') rest)"

definition EXPORT_LIKE :: "string list" where
  "EXPORT_LIKE = [''export'', ''setenv'', ''declare'', ''typeset'', ''local'', ''readonly'']"

fun export_scan :: "string \<Rightarrow> string list \<Rightarrow> bool \<Rightarrow> Decision option" where
  "export_scan base [] saw_first = None"
| "export_scan base (v # vs) saw_first =
     (if starts_with v ''-'' \<or> starts_with v ''+'' then export_scan base vs saw_first
      else if base = ''setenv'' \<and> saw_first then export_scan base vs saw_first
      else (case assignment_key v of
              Some key \<Rightarrow>
                (if is_valid_env_identifier key \<and> is_unsafe_env_key key
                 then Some (Deny (''Blocked unsafe environment variable: '' @ key))
                 else export_scan base vs True)
            | None \<Rightarrow>
                (if is_valid_env_identifier v \<and> is_unsafe_env_key v
                 then Some (Deny (''Blocked unsafe environment variable: '' @ v))
                 else export_scan base vs True)))"

definition check_export_like :: "Token list \<Rightarrow> nat \<Rightarrow> string \<Rightarrow> Decision option" where
  "check_export_like tokens i base =
     (if base \<notin> set EXPORT_LIKE then None
      else export_scan base (map tvalue (drop (i + 1) tokens)) False)"

definition has_bare_tilde :: "Token \<Rightarrow> bool" where
  "has_bare_tilde token \<longleftrightarrow> quoted token = None \<and> CHR ''~'' \<in> set (tvalue token)"

section \<open>Assignments are identifiers before an equals sign\<close>

lemma assignment_tail_Some:
  "assignment_tail s = Some k \<longleftrightarrow>
     (\<exists>v. s = k @ CHR ''='' # v) \<and>
     list_all (\<lambda>c. is_ascii_alphanumeric c \<or> c = CHR ''_'') k"
proof (induction s arbitrary: k)
  case (Cons c s)
  have "\<not> is_ascii_alphanumeric (CHR ''='')" by (simp add: char_class_defs)
  with Cons show ?case by (cases k) auto
qed simp

lemma assignment_key_Some:
  "assignment_key s = Some k \<longleftrightarrow>
     (\<exists>v. s = k @ CHR ''='' # v) \<and> is_valid_env_identifier k"
proof (cases s)
  case (Cons c rest)
  have "\<not> is_ascii_alphabetic (CHR ''='')" by (simp add: char_class_defs)
  with Cons show ?thesis
    by (cases k) (auto simp: assignment_key_def is_valid_env_identifier_def assignment_tail_Some)
qed (simp add: assignment_key_def)

section \<open>The base name of a command\<close>

lemma rev_takeWhile_split: "rev (dropWhile P (rev s)) @ rev (takeWhile P (rev s)) = s"
  by (metis rev_append rev_rev_ident takeWhile_dropWhile_id)

lemma version_suffix_stem:
  assumes "version_suffix_start s = Some pos"
  shows "take pos s = rev (dropWhile version_char (rev s))"
proof -
  from assms have "pos = length s - length (takeWhile version_char (rev s))"
    by (auto simp: version_suffix_start_def Let_def split: if_splits)
  with rev_takeWhile_split [of version_char s] show ?thesis
    by (metis append_eq_conv_conj length_append length_rev diff_add_inverse2)
qed

lemma version_suffix_once:
  assumes "version_suffix_start s = Some pos"
  shows "version_suffix_start (take pos s) = None"
proof -
  show ?thesis
    by (simp add: version_suffix_stem [OF assms] version_suffix_start_def)
qed

text \<open>The normalisation loop runs at most once: a second pass changes nothing.\<close>

lemma normalize_base_name_idem: "normalize_base_name (normalize_base_name b) = normalize_base_name b"
proof (cases "version_suffix_start b")
  case None
  then show ?thesis by (simp add: normalize_base_name.simps)
next
  case (Some pos)
  note once = version_suffix_once [OF Some]
  show ?thesis
    by (cases "take pos b \<in> set NORMALIZABLE_STEMS")
      (simp_all add: normalize_base_name.simps Some once)
qed

lemma exts_no_sep: "ext \<in> set WIN_EXEC_EXTS \<Longrightarrow> CHR ''/'' \<notin> set (to_lowercase ext)"
  by (auto simp: WIN_EXEC_EXTS_def to_lower_char_def is_ascii_uppercase_def)

lemma has_ext_lower:
  assumes "to_lowercase s = to_lowercase t"
  shows "has_ext s ext = has_ext t ext"
proof -
  from assms have "length s = length t" by (metis length_to_lowercase)
  with assms show ?thesis by (simp add: has_ext_def eq_ignore_ascii_case_def)
qed

lemma has_ext_tail:
  assumes "CHR ''/'' \<notin> set (to_lowercase ext)"
  shows "has_ext (x @ CHR ''/'' # c) ext = has_ext c ext"
proof (cases "length ext \<le> length c")
  case True
  then show ?thesis by (simp add: has_ext_def Suc_diff_le)
next
  case False
  have "to_lower_char (CHR ''/'') = CHR ''/''" by (simp add: to_lower_char_def is_ascii_uppercase_def)
  with False have "CHR ''/'' \<in> set (to_lowercase
      (drop (length (x @ CHR ''/'' # c) - length ext) (x @ CHR ''/'' # c)))"
    by auto
  with assms have "\<not> has_ext (x @ CHR ''/'' # c) ext"
    unfolding has_ext_def eq_ignore_ascii_case_def by metis
  with False show ?thesis by (simp add: has_ext_def)
qed

lemma find_cong_pred: "(\<And>x. x \<in> set xs \<Longrightarrow> P x = Q x) \<Longrightarrow> find P xs = find Q xs"
  by (induction xs) auto

lemma strip_ext_tail:
  "strip_win_exec_ext (x @ CHR ''/'' # c) = x @ CHR ''/'' # strip_win_exec_ext c"
proof -
  have "find (has_ext (x @ CHR ''/'' # c)) WIN_EXEC_EXTS = find (has_ext c) WIN_EXEC_EXTS"
    by (rule find_cong_pred) (simp add: has_ext_tail exts_no_sep)
  then have same: "win_exec_ext (x @ CHR ''/'' # c) = win_exec_ext c"
    by (simp add: win_exec_ext_def)
  have "length ext \<le> length c" if "win_exec_ext c = Some ext" for ext
    using that by (auto simp: win_exec_ext_def find_Some_iff has_ext_def)
  then show ?thesis
    by (auto simp: strip_win_exec_ext_def same Suc_diff_le split: option.splits)
qed

lemma last_component_tail: "last_component (x @ CHR ''/'' # c) = last_component c"
  by (simp add: last_component_def is_sep_def split_pred_append)

lemma is_sep_lower [simp]: "is_sep (to_lower_char c) = is_sep c"
proof (cases "is_ascii_uppercase c")
  case True
  then have "c \<noteq> CHR ''/''" "c \<noteq> bsl" by (auto simp: is_ascii_uppercase_def)
  moreover have "to_lower_char c \<noteq> CHR ''/''" "to_lower_char c \<noteq> bsl"
    using True by (auto simp: to_lower_char_def is_ascii_uppercase_def char_of_eq_iff
        take_bit_eq_mod)
  ultimately show ?thesis by (simp add: is_sep_def)
qed (simp add: to_lower_char_def)

lemma split_sep_lower:
  "split_pred is_sep (to_lowercase s) = map to_lowercase (split_pred is_sep s)"
  by (induction s) (auto split: list.splits)

lemma last_component_lower: "to_lowercase (last_component s) = last_component (to_lowercase s)"
  by (simp add: last_component_def split_sep_lower last_map)

lemma strip_ext_lower: "to_lowercase (strip_win_exec_ext s) = strip_win_exec_ext (to_lowercase s)"
proof -
  have "win_exec_ext (to_lowercase s) = win_exec_ext s"
    unfolding win_exec_ext_def by (rule find_cong_pred) (rule has_ext_lower [OF to_lowercase_idem])
  then show ?thesis by (simp add: strip_win_exec_ext_def split: option.splits)
qed

lemma get_base_name_lower: "get_base_name (to_lowercase cmd) = get_base_name cmd"
  by (simp add: get_base_name_def last_component_lower strip_ext_lower trim_lower)

text \<open>
  The spelling of a command does not hide it: its base name is the same in every
  letter case and behind every directory, so the command tables see one name.
\<close>

theorem get_base_name_spelling:
  assumes "cmd \<noteq> []" and "\<not> is_whitespace (hd cmd)" and "to_lowercase cmd' = to_lowercase cmd"
  shows "get_base_name (dir @ CHR ''/'' # cmd') = get_base_name cmd"
proof -
  have cmd': "cmd' \<noteq> []" "\<not> is_whitespace (hd cmd')"
    using assms by (cases cmd; cases cmd'; force dest: arg_cong [where f = is_whitespace])+
  have "\<not> is_whitespace (CHR ''/'')" by (simp add: is_whitespace_def)
  from trim_append_solid [OF this cmd', of dir]
  obtain x where "trim (dir @ CHR ''/'' # cmd') = x @ CHR ''/'' # trim cmd'" by blast
  then have "get_base_name (dir @ CHR ''/'' # cmd') = get_base_name cmd'"
    by (simp add: get_base_name_def strip_ext_tail last_component_tail)
  also have "\<dots> = get_base_name cmd"
    using get_base_name_lower [of cmd] get_base_name_lower [of cmd'] assms(3) by simp
  finally show ?thesis .
qed

theorem get_base_name_spelling_witness:
  "get_base_name (''/usr/bin'' @ CHR ''/'' # ''Python3.11'') = get_base_name ''python3.11''
   \<and> get_base_name ''python3.11'' = ''python''"
proof
  show "get_base_name (''/usr/bin'' @ CHR ''/'' # ''Python3.11'') = get_base_name ''python3.11''"
    by (rule get_base_name_spelling) code_simp+
  show "get_base_name ''python3.11'' = ''python''" by code_simp
qed

end
