(* ===== verification/Guard_Git.thy ===== *)
theory Guard_Git
  imports Guard_Names
begin

text \<open>
  The git rules of the shell guard (\<^verbatim>\<open>check_git\<close> and its helpers). The two nested
  \<^verbatim>\<open>while\<close> loops walk forward over the words after \<^verbatim>\<open>git\<close>: \<open>git_global\<close> over the
  global options up to the subcommand, \<open>git_rest\<close> over its arguments. The theorem gives
  the accepted command lines as a grammar.
\<close>

section \<open>Tables and tests\<close>

definition GIT_ALLOWED_SUBCOMMANDS :: "string list" where
  "GIT_ALLOWED_SUBCOMMANDS =
     [''add'', ''branch'', ''checkout'', ''clone'', ''commit'', ''config'', ''diff'',
      ''fetch'', ''init'', ''log'', ''merge'', ''mv'', ''pull'', ''push'', ''rebase'',
      ''remote'', ''reset'', ''restore'', ''rev-parse'', ''rm'', ''show'', ''stash'',
      ''status'', ''switch'', ''tag'', ''worktree'']"

definition GIT_GLOBAL_OPTS_WITH_VALUES :: "string list" where
  "GIT_GLOBAL_OPTS_WITH_VALUES =
     [''-C'', ''--work-tree'', ''--git-dir'', ''--namespace'', ''--super-prefix'',
      ''--exec-path'']"

definition GIT_CONFIG_EXEC_KEYS :: "string list" where
  "GIT_CONFIG_EXEC_KEYS =
     [''core.pager'', ''core.editor'', ''core.hooksPath'', ''core.fsmonitor'',
      ''core.preloadIndex'', ''core.excludesFile'', ''core.worktree'', ''core.sshCommand'',
      ''core.ssh'', ''gpg.program'', ''init.templateDir'', ''diff.external'', ''merge.tool'']"

definition is_dangerous_git_config_key :: "string \<Rightarrow> bool" where
  "is_dangerous_git_config_key key =
     (let lower = to_lowercase key;
          parts = split_pred (\<lambda>c. c = CHR ''.'') lower
      in starts_with lower ''alias.''
         \<or> list_ex (\<lambda>k. eq_ignore_ascii_case lower k) GIT_CONFIG_EXEC_KEYS
         \<or> (3 \<le> length parts \<and> hd parts = ''filter''
             \<and> last parts \<in> {''clean'', ''smudge'', ''process''})
         \<or> hd parts = ''include'' \<or> starts_with (hd parts) ''includeif'')"

definition is_git_alias_value :: "string \<Rightarrow> bool" where
  "is_git_alias_value v \<longleftrightarrow>
     starts_with v ''!'' \<or> (CHR ''!'' \<in> set v \<and> contains_str v ''alias.'')"

definition has_drive_colon :: "bool \<Rightarrow> string \<Rightarrow> bool" where
  "has_drive_colon win s \<longleftrightarrow> win \<and> 2 \<le> length s \<and> s ! 1 = CHR '':''"

definition is_dangerous_git_url :: "bool \<Rightarrow> string \<Rightarrow> bool" where
  "is_dangerous_git_url win v =
     (let lower = to_lowercase v
      in if starts_with lower ''ext::'' \<or> starts_with lower ''remote-ext::'' then True
         else if starts_with lower ''/'' \<or> starts_with lower ''./''
           \<or> starts_with lower ''../'' \<or> has_drive_colon win lower then False
         else contains_str lower ''::'' \<and> \<not> contains_str lower ''://'')"

definition git_option_deny_reason :: "string \<Rightarrow> string \<Rightarrow> string option" where
  "git_option_deny_reason sub u =
     (if starts_with u ''--config'' \<or> u = ''-c''
      then Some ''git -c/--config can run arbitrary commands''
      else if sub = ''rebase'' \<and> (u = ''-x'' \<or> u = ''--exec'' \<or> starts_with u ''--exec='')
      then Some ''git rebase --exec runs arbitrary commands''
      else if sub = ''rebase'' \<and> (u = ''-i'' \<or> u = ''--interactive'')
      then Some ''git rebase -i requires an interactive terminal''
      else if (sub = ''clone'' \<or> sub = ''init'')
        \<and> (u = ''--template'' \<or> starts_with u ''--template='')
      then Some ''git --template can run arbitrary hooks''
      else if (sub = ''clone'' \<or> sub = ''fetch'' \<or> sub = ''pull'')
        \<and> (u = ''--upload-pack'' \<or> starts_with u ''--upload-pack='')
      then Some ''git --upload-pack can run arbitrary commands''
      else if (sub = ''clone'' \<or> sub = ''push'' \<or> sub = ''fetch'')
        \<and> (u = ''--receive-pack'' \<or> starts_with u ''--receive-pack='')
      then Some ''git --receive-pack can run arbitrary commands''
      else None)"

section \<open>The two scans\<close>

definition git_alias_reason :: string where
  "git_alias_reason =
     ''git aliases with '' @ [sq] @ ''!'' @ [sq] @ '' execute arbitrary commands''"

fun git_rest :: "bool \<Rightarrow> string \<Rightarrow> string list \<Rightarrow> string list \<Rightarrow> Decision" where
  "git_rest win sub config_non_options [] =
     (if sub = ''config'' \<and> 2 \<le> length config_non_options
         \<and> is_dangerous_git_config_key (config_non_options ! 0)
      then Deny ''git config key can run arbitrary commands'' else Allow)"
| "git_rest win sub config_non_options (u # us) =
     (if is_git_alias_value u then Deny git_alias_reason
      else (case git_option_deny_reason sub u of
              Some reason \<Rightarrow> Deny reason
            | None \<Rightarrow>
                (if starts_with u ''-'' then git_rest win sub config_non_options us
                 else if is_dangerous_git_url win u then Deny ''Blocked dangerous git URL''
                 else git_rest win sub
                        (if sub = ''config'' then config_non_options @ [u]
                         else config_non_options) us)))"

fun git_global :: "bool \<Rightarrow> string list \<Rightarrow> Decision" where
  "git_global win [] = Allow"
| "git_global win (v # vs) =
     (if starts_with v ''--config'' \<or> v = ''-c''
      then Deny ''git -c/--config can run arbitrary commands''
      else if is_git_alias_value v then Deny git_alias_reason
      else if v \<in> set GIT_GLOBAL_OPTS_WITH_VALUES
      then (case vs of [] \<Rightarrow> Allow | _ # vs' \<Rightarrow> git_global win vs')
      else if (case split_once (CHR ''='') v of
                 Some (name, _) \<Rightarrow> name \<in> set GIT_GLOBAL_OPTS_WITH_VALUES | None \<Rightarrow> False)
      then git_global win vs
      else if starts_with v ''-'' then git_global win vs
      else if v \<notin> set GIT_ALLOWED_SUBCOMMANDS then Deny (''Blocked git subcommand: '' @ v)
      else git_rest win v [] vs)"

definition check_git :: "bool \<Rightarrow> Token list \<Rightarrow> nat \<Rightarrow> Decision" where
  "check_git win tokens start = git_global win (map tvalue (drop (start + 1) tokens))"

section \<open>What the scans accept\<close>

definition git_arg_ok :: "bool \<Rightarrow> string \<Rightarrow> string \<Rightarrow> bool" where
  "git_arg_ok win sub u \<longleftrightarrow>
     \<not> is_git_alias_value u \<and> git_option_deny_reason sub u = None
     \<and> (if starts_with u ''-'' then True else \<not> is_dangerous_git_url win u)"

definition sets_exec_config :: "string \<Rightarrow> string list \<Rightarrow> bool" where
  "sets_exec_config sub words \<longleftrightarrow>
     sub = ''config'' \<and> 2 \<le> length words \<and> is_dangerous_git_config_key (words ! 0)"

abbreviation non_options :: "string list \<Rightarrow> string list" where
  "non_options us \<equiv> filter (\<lambda>u. \<not> starts_with u ''-'') us"

lemma git_rest_Allow:
  "git_rest win sub acc us = Allow \<longleftrightarrow>
     list_all (git_arg_ok win sub) us \<and>
     \<not> sets_exec_config sub (acc @ (if sub = ''config'' then non_options us else []))"
proof (induction win sub acc us rule: git_rest.induct)
  case (1 win sub acc)
  then show ?case by (simp add: sets_exec_config_def)
next
  case (2 win sub acc u us)
  then show ?case
    by (cases "starts_with u ''-''"; cases "sub = ''config''")
      (simp_all add: git_arg_ok_def split: option.splits)
qed

text \<open>Global options: a flag, or an option of the table with its value.\<close>

inductive git_globals :: "string list \<Rightarrow> bool" where
  git_no_option: "git_globals []"
| git_value_option: "v \<in> set GIT_GLOBAL_OPTS_WITH_VALUES \<Longrightarrow> git_globals vs \<Longrightarrow>
     git_globals (v # x # vs)"
| git_flag: "starts_with v ''-'' \<Longrightarrow> v \<notin> set GIT_GLOBAL_OPTS_WITH_VALUES \<Longrightarrow>
     \<not> starts_with v ''--config'' \<Longrightarrow> v \<noteq> ''-c'' \<Longrightarrow> \<not> is_git_alias_value v \<Longrightarrow>
     git_globals vs \<Longrightarrow> git_globals (v # vs)"

definition git_command :: "bool \<Rightarrow> string list \<Rightarrow> bool" where
  "git_command win vs \<longleftrightarrow>
     vs = [] \<or> (\<exists>v \<in> set GIT_GLOBAL_OPTS_WITH_VALUES. vs = [v]) \<or>
     (\<exists>sub us. vs = sub # us \<and> sub \<in> set GIT_ALLOWED_SUBCOMMANDS
        \<and> list_all (git_arg_ok win sub) us \<and> \<not> sets_exec_config sub (non_options us))"

lemma value_opts_shape:
  "list_all (\<lambda>v. starts_with v ''-'' \<and> \<not> starts_with v ''--config'' \<and> v \<noteq> ''-c''
     \<and> \<not> is_git_alias_value v) GIT_GLOBAL_OPTS_WITH_VALUES"
  by code_simp

lemma value_optD:
  assumes "v \<in> set GIT_GLOBAL_OPTS_WITH_VALUES"
  shows "starts_with v ''-''" "\<not> starts_with v ''--config''" "v \<noteq> ''-c''"
    "\<not> is_git_alias_value v"
  using value_opts_shape assms by (auto simp: list_all_iff)

lemma subcommands_shape:
  "list_all (\<lambda>v. \<not> starts_with v ''-'' \<and> \<not> is_git_alias_value v
     \<and> split_once (CHR ''='') v = None) GIT_ALLOWED_SUBCOMMANDS"
  by code_simp

lemma subcommandD:
  assumes "v \<in> set GIT_ALLOWED_SUBCOMMANDS"
  shows "\<not> starts_with v ''-''" "\<not> is_git_alias_value v" "split_once (CHR ''='') v = None"
  using subcommands_shape assms by (auto simp: list_all_iff)

lemma subcommand_not_config_opt:
  "v \<in> set GIT_ALLOWED_SUBCOMMANDS \<Longrightarrow> \<not> starts_with v ''--config'' \<and> v \<noteq> ''-c''
     \<and> v \<notin> set GIT_GLOBAL_OPTS_WITH_VALUES"
  using subcommandD(1) [of v] value_optD(1) [of v] by (cases v) auto

lemma assigned_value_opt:
  assumes "split_once (CHR ''='') v = Some (name, x)" and "name \<in> set GIT_GLOBAL_OPTS_WITH_VALUES"
  shows "starts_with v ''-''"
proof -
  from assms(1) have "v = name @ CHR ''='' # x" by (auto dest: split_once_Some)
  with value_optD(1) [OF assms(2)] show ?thesis by (cases name) auto
qed

lemma git_command_starts:
  "sub \<in> set GIT_ALLOWED_SUBCOMMANDS \<Longrightarrow>
     git_command win (sub # us) \<longleftrightarrow>
       list_all (git_arg_ok win sub) us \<and> \<not> sets_exec_config sub (non_options us)"
  using subcommand_not_config_opt by (auto simp: git_command_def)

lemma git_rest_command:
  "sub \<in> set GIT_ALLOWED_SUBCOMMANDS \<Longrightarrow>
     git_rest win sub [] us = Allow \<longleftrightarrow> git_command win (sub # us)"
  by (auto simp: git_command_starts git_rest_Allow sets_exec_config_def)

lemma git_global_sound:
  "git_global win vs = Allow \<Longrightarrow> \<exists>pre rest. vs = pre @ rest \<and> git_globals pre \<and> git_command win rest"
proof (induction win vs rule: git_global.induct)
  case (1 win)
  then show ?case by (auto intro: git_no_option simp: git_command_def)
next
  case (2 win v vs)
  let ?assigned = "case split_once (CHR ''='') v of
      Some (name, _) \<Rightarrow> name \<in> set GIT_GLOBAL_OPTS_WITH_VALUES | None \<Rightarrow> False"
  from "2.prems" have safe: "\<not> starts_with v ''--config''" "v \<noteq> ''-c''" "\<not> is_git_alias_value v"
    by (auto split: if_splits)
  consider (opt) "v \<in> set GIT_GLOBAL_OPTS_WITH_VALUES"
    | (flag) "v \<notin> set GIT_GLOBAL_OPTS_WITH_VALUES" "starts_with v ''-''"
    | (sub) "v \<notin> set GIT_GLOBAL_OPTS_WITH_VALUES" "\<not> starts_with v ''-''"
    by blast
  then show ?case
  proof cases
    case opt
    show ?thesis
    proof (cases vs)
      case Nil
      with opt have "git_command win (v # vs)" by (auto simp: git_command_def)
      then show ?thesis using git_no_option by (metis append_Nil)
    next
      case (Cons x vs')
      with "2.prems" safe opt have "git_global win vs' = Allow" by simp
      with "2.IH"(1) [OF _ safe(3) opt Cons] safe obtain pre rest
        where "vs' = pre @ rest" "git_globals pre" "git_command win rest" by auto
      with opt Cons git_value_option [OF opt] show ?thesis by (metis append_Cons)
    qed
  next
    case flag
    with "2.prems" safe have "git_global win vs = Allow" by (auto split: if_splits)
    moreover have "\<exists>pre rest. vs = pre @ rest \<and> git_globals pre \<and> git_command win rest"
      using "2.IH"(2,3) safe flag calculation by (cases ?assigned) auto
    ultimately show ?thesis
      using git_flag [OF flag(2,1) safe] by (metis append_Cons)
  next
    case sub
    then have "\<not> ?assigned" by (auto split: option.splits dest: assigned_value_opt)
    with "2.prems" safe sub have "v \<in> set GIT_ALLOWED_SUBCOMMANDS" "git_rest win v [] vs = Allow"
      by (auto split: if_splits)
    then have "git_command win (v # vs)" by (simp add: git_rest_command)
    then show ?thesis using git_no_option by (metis append_Nil)
  qed
qed

lemma git_global_command:
  assumes "git_command win rest"
  shows "git_global win rest = Allow"
proof -
  from assms consider "rest = []" | v where "v \<in> set GIT_GLOBAL_OPTS_WITH_VALUES" "rest = [v]"
    | sub us where "rest = sub # us" "sub \<in> set GIT_ALLOWED_SUBCOMMANDS"
    by (auto simp: git_command_def)
  then show ?thesis
  proof cases
    case 2
    then show ?thesis using value_optD [OF 2(1)] by simp
  next
    case 3
    with assms have "git_rest win sub [] us = Allow" by (simp add: git_rest_command)
    with 3 subcommandD [OF 3(2)] subcommand_not_config_opt [OF 3(2)] show ?thesis by simp
  qed simp
qed

lemma git_global_complete:
  "git_globals pre \<Longrightarrow> git_command win rest \<Longrightarrow> git_global win (pre @ rest) = Allow"
  by (induction rule: git_globals.induct)
    (auto simp: git_global_command value_optD split: option.splits)

text \<open>
  C19. The git command lines the guard allows are exactly these: safe global options, then
  nothing or an allow-listed subcommand none of whose arguments is a shell alias, an option
  that runs commands for this subcommand, or a remote-helper URL, and that does not set a
  configuration key git would execute.
\<close>

theorem check_git_allow_iff:
  "check_git win tokens start = Allow \<longleftrightarrow>
     (\<exists>pre rest. map tvalue (drop (start + 1) tokens) = pre @ rest
        \<and> git_globals pre \<and> git_command win rest)"
  unfolding check_git_def
  using git_global_sound git_global_complete by metis

end
