(* ===== verification/Guard_Targets.thy ===== *)
theory Guard_Targets
  imports Guard_Names
begin

text \<open>
  Destructive operands in the shell guard: path normalisation (\<^verbatim>\<open>normalize_target\<close>), the
  targets \<^verbatim>\<open>rm -rf\<close> must not touch (\<^verbatim>\<open>is_dangerous_rm_target\<close>,
  \<^verbatim>\<open>is_broad_glob_target\<close>), and the argument scans \<^verbatim>\<open>check_rm\<close>, \<^verbatim>\<open>check_find\<close>,
  \<^verbatim>\<open>check_systemctl\<close> and the \<^verbatim>\<open>dd\<close>, \<^verbatim>\<open>del\<close> and \<^verbatim>\<open>rd\<close> branches of
  \<^verbatim>\<open>evaluate_tokens\<close>.
\<close>

section \<open>The process environment\<close>

text \<open>
  What the guard reads of its process: whether it is the Windows build
  (\<^verbatim>\<open>cfg!(windows)\<close>) and the environment variables (\<^verbatim>\<open>std::env::var\<close>).
\<close>

record os_env =
  is_windows :: bool
  env_var :: "string \<Rightarrow> string option"

definition MAIN_SEPARATOR :: "os_env \<Rightarrow> char" where
  "MAIN_SEPARATOR env = (if is_windows env then bsl else CHR ''/'')"

definition first_var :: "os_env \<Rightarrow> string \<Rightarrow> string \<Rightarrow> string option" where
  "first_var env a b = (case env_var env a of Some v \<Rightarrow> Some v | None \<Rightarrow> env_var env b)"

definition home_var :: "os_env \<Rightarrow> string" where
  "home_var env = (case first_var env ''HOME'' ''USERPROFILE'' of Some h \<Rightarrow> h | None \<Rightarrow> [])"

section \<open>Path normalisation\<close>

definition starts_sep :: "string \<Rightarrow> bool" where
  "starts_sep s \<longleftrightarrow> starts_with s ''/'' \<or> starts_with s [bsl]"

definition ends_sep :: "string \<Rightarrow> bool" where
  "ends_sep s \<longleftrightarrow> ends_with s ''/'' \<or> ends_with s [bsl]"

definition has_drive :: "string \<Rightarrow> bool" where
  "has_drive s \<longleftrightarrow> 2 \<le> length s \<and> is_ascii_alphabetic (s ! 0) \<and> s ! 1 = CHR '':''"

text \<open>The drive, whether the path is rooted, and what is left to split.\<close>

definition split_root :: "bool \<Rightarrow> string \<Rightarrow> string option \<times> bool \<times> string" where
  "split_root win s =
     (let (drive, root, rest) =
            (if win \<and> has_drive s
             then (if starts_sep (drop 2 s) then (Some (take 2 s), True, drop 3 s)
                   else (Some (take 2 s), False, drop 2 s))
             else (None, False, s))
      in if starts_sep rest then (drive, True, drop 1 rest) else (drive, root, rest))"

definition norm_push :: "bool \<Rightarrow> string list \<Rightarrow> string \<Rightarrow> string list" where
  "norm_push anchored stack part =
     (if part = [] \<or> part = ''.'' then stack
      else if part = ''..''
      then (if stack \<noteq> [] \<and> last stack \<noteq> ''..'' then butlast stack
            else if \<not> anchored then stack @ [''..''] else stack)
      else stack @ [part])"

definition norm_stack :: "bool \<Rightarrow> string list \<Rightarrow> string list" where
  "norm_stack anchored parts = foldl (norm_push anchored) [] parts"

definition normalize_target :: "os_env \<Rightarrow> string \<Rightarrow> string" where
  "normalize_target env s =
     (let sep = MAIN_SEPARATOR env;
          (drive, root, rest) = split_root (is_windows env) s;
          trailing_sep = (rest \<noteq> [] \<and> ends_sep rest);
          stack = norm_stack (root \<or> drive \<noteq> None) (split_pred is_sep rest);
          out = (case drive of Some d \<Rightarrow> d | None \<Rightarrow> []) @ (if root then [sep] else [])
                @ join_with [sep] stack;
          out = (if out = [] \<or> (drive \<noteq> None \<and> \<not> root \<and> stack = []) then out @ ''.'' else out)
      in if trailing_sep \<and> \<not> ends_with out [sep] then out @ [sep] else out)"

definition is_absolute_target :: "os_env \<Rightarrow> string \<Rightarrow> bool" where
  "is_absolute_target env s =
     (if is_windows env
      then starts_sep s \<or> (3 \<le> length s \<and> has_drive s \<and> is_sep (s ! 2))
      else starts_with s ''/'')"

section \<open>Dangerous operands of rm\<close>

definition is_drive_root :: "string \<Rightarrow> bool" where
  "is_drive_root s \<longleftrightarrow> length s = 3 \<and> has_drive s \<and> is_sep (s ! 2)"

definition is_wild :: "char \<Rightarrow> bool" where
  "is_wild c \<longleftrightarrow> c = CHR ''*'' \<or> c = CHR ''?'' \<or> c = CHR ''[''"

definition starts_wild :: "string \<Rightarrow> bool" where
  "starts_wild s = (case s of [] \<Rightarrow> False | c # _ \<Rightarrow> is_wild c)"

definition is_broad_glob_target :: "os_env \<Rightarrow> string \<Rightarrow> string \<Rightarrow> bool" where
  "is_broad_glob_target env target home =
     (case find_idx is_wild target of
        None \<Rightarrow> False
      | Some first_wild \<Rightarrow>
          (let (dir, base) =
                 (case rfind_idx is_sep (take (Suc first_wild) target) of
                    Some e \<Rightarrow> (take (Suc e) target, drop (Suc e) target)
                  | None \<Rightarrow> ([], target));
               norm_dir = normalize_target env dir;
               is_root = (norm_dir = ''/'' \<or> norm_dir = [bsl] \<or> is_drive_root norm_dir);
               clean_dir = trim_end_pred is_sep norm_dir;
               in_cwd = (clean_dir = [] \<or> clean_dir = ''.'');
               in_home = (home \<noteq> [] \<and> to_lowercase clean_dir =
                 to_lowercase (trim_end_pred is_sep (normalize_target env home)))
           in if (case strip_prefix base ''.'' of Some rest \<Rightarrow> starts_wild rest | None \<Rightarrow> False)
              then True
              else (in_cwd \<or> in_home \<or> is_root) \<and> starts_wild base))"

definition under_system_root :: "os_env \<Rightarrow> string \<Rightarrow> bool" where
  "under_system_root env normalized =
     (is_windows env \<and>
      (case first_var env ''SystemRoot'' ''windir'' of
         None \<Rightarrow> False
       | Some system_root \<Rightarrow>
           (let sys = to_lowercase system_root;
                sys_with_sep = (if ends_with sys [bsl] then sys else sys @ [bsl]);
                norm_lower = to_lowercase normalized
            in norm_lower = sys \<or> starts_with norm_lower sys_with_sep)))"

definition has_dotdot :: "string \<Rightarrow> bool" where
  "has_dotdot s \<longleftrightarrow> ''..'' \<in> set (split_pred is_sep s)"

definition is_home_tilde :: "string \<Rightarrow> bool" where
  "is_home_tilde target \<longleftrightarrow> target = ''~'' \<or> target = ''~/'' \<or> starts_with target ''~/''
     \<or> starts_with target (CHR ''~'' # [bsl])"

text \<open>\<^verbatim>\<open>~\<close> and \<^verbatim>\<open>~/..\<close> become the home directory, \<^verbatim>\<open>$HOME\<close> is replaced when it is set.\<close>

definition expand_home :: "string \<Rightarrow> string \<Rightarrow> string" where
  "expand_home home target =
     (let target = (if is_home_tilde target then home @ drop 1 target else target)
      in if home \<noteq> [] then replace_str ''$HOME'' home target else target)"

definition is_dangerous_rm_target :: "os_env \<Rightarrow> string \<Rightarrow> bool" where
  "is_dangerous_rm_target env arg =
     (if has_dotdot arg then True
      else if starts_with arg ''.*'' then True
      else if \<not> is_home_tilde arg \<and> starts_with arg ''~'' then True
      else
        (let home = home_var env;
             target = expand_home home arg;
             normalized = normalize_target env target;
             segs = filter (\<lambda>s. s \<noteq> []) (split_pred is_sep normalized)
         in if CHR ''$'' \<in> set target then True
            else if normalized = [] \<or> normalized = ''.'' then True
            else if normalized = [MAIN_SEPARATOR env] \<or> normalized = ''/'' \<or> normalized = [bsl]
            then True
            else if is_drive_root normalized then True
            else if home \<noteq> [] \<and> eq_ignore_ascii_case (trim_end_pred is_sep normalized)
                 (trim_end_pred is_sep (normalize_target env home)) then True
            else if under_system_root env normalized then True
            else if CHR ''*'' \<notin> set target \<and> is_absolute_target env normalized
                 \<and> length segs \<le> 2 then True
            else if has_dotdot normalized then True
            else is_broad_glob_target env target home))"

section \<open>Argument scans\<close>

record rm_state =
  rm_recursive :: bool
  rm_force :: bool
  rm_no_preserve_root :: bool
  rm_double_dash :: bool

definition rm_init :: rm_state where
  "rm_init = \<lparr>rm_recursive = False, rm_force = False, rm_no_preserve_root = False,
              rm_double_dash = False\<rparr>"

definition rm_long :: "string \<Rightarrow> rm_state \<Rightarrow> rm_state" where
  "rm_long name st =
     st\<lparr>rm_recursive := rm_recursive st \<or> name \<in> {''recursive'', ''r'', ''remove'', ''R''},
        rm_force := rm_force st \<or> name \<in> {''force'', ''f''},
        rm_no_preserve_root :=
          (if name = ''preserve-root'' then False
           else if name = ''no-preserve-root'' then True else rm_no_preserve_root st)\<rparr>"

definition rm_short :: "string \<Rightarrow> rm_state \<Rightarrow> rm_state" where
  "rm_short letters st =
     st\<lparr>rm_recursive := rm_recursive st \<or> CHR ''r'' \<in> set letters \<or> CHR ''R'' \<in> set letters,
        rm_force := rm_force st \<or> CHR ''f'' \<in> set letters\<rparr>"

text \<open>One round of the argument loop; \<open>None\<close> when the argument is an operand.\<close>

definition rm_option :: "string \<Rightarrow> rm_state \<Rightarrow> rm_state option" where
  "rm_option arg st =
     (if \<not> rm_double_dash st \<and> arg = ''--'' then Some (st\<lparr>rm_double_dash := True\<rparr>)
      else if \<not> rm_double_dash st \<and> starts_with arg ''-''
      then Some (case strip_prefix arg ''--'' of
                   Some name \<Rightarrow> rm_long name st
                 | None \<Rightarrow> rm_short (drop 1 arg) st)
      else None)"

definition rm_armed :: "rm_state \<Rightarrow> bool" where
  "rm_armed st \<longleftrightarrow> rm_recursive st \<and> (rm_force st \<or> rm_no_preserve_root st)"

fun rm_scan :: "os_env \<Rightarrow> string list \<Rightarrow> rm_state \<Rightarrow> Decision" where
  "rm_scan env [] st = Allow"
| "rm_scan env (arg # args) st =
     (case rm_option arg st of
        Some st' \<Rightarrow> rm_scan env args st'
      | None \<Rightarrow>
          (if rm_armed st \<and> is_dangerous_rm_target env arg
           then Deny ''Blocked rm -rf on a dangerous target''
           else rm_scan env args st))"

definition check_rm :: "os_env \<Rightarrow> Token list \<Rightarrow> nat \<Rightarrow> Decision" where
  "check_rm env tokens rm_index = rm_scan env (map tvalue (drop (rm_index + 1) tokens)) rm_init"

definition check_find :: "Token list \<Rightarrow> nat \<Rightarrow> Decision" where
  "check_find tokens i =
     (if list_ex (\<lambda>t. tvalue t \<in> {''-exec'', ''-execdir'', ''-ok'', ''-okdir'', ''-delete''})
           (drop i tokens)
      then Deny ''Blocked dangerous find action'' else Allow)"

definition DANGEROUS_SYSTEMCTL_VERBS :: "string list" where
  "DANGEROUS_SYSTEMCTL_VERBS =
     [''poweroff'', ''reboot'', ''halt'', ''shutdown'', ''kexec'', ''suspend'', ''hibernate'',
      ''hybrid-sleep'', ''suspend-then-hibernate'', ''emergency'', ''rescue'']"

definition systemctl_value_long :: "string list" where
  "systemctl_value_long =
     [''host'', ''machine'', ''property'', ''type'', ''lines'', ''output'', ''prefix'', ''state'',
      ''root'', ''image'', ''image-policy'', ''drop-in'', ''name'', ''uid'', ''gid'', ''setenv'']"

definition systemctl_value_short :: "char list" where
  "systemctl_value_short = ''HMptnoPE''"

definition systemctl_needs_value :: "string \<Rightarrow> bool" where
  "systemctl_needs_value v =
     (case strip_prefix v ''--'' of
        Some rest \<Rightarrow> CHR ''='' \<notin> set rest \<and> rest \<in> set systemctl_value_long
      | None \<Rightarrow>
          (case find_idx (\<lambda>c. c \<in> set systemctl_value_short) (drop 1 v) of
             Some k \<Rightarrow> Suc k = length (drop 1 v)
           | None \<Rightarrow> False))"

fun systemctl_scan :: "string list \<Rightarrow> Decision" where
  "systemctl_scan [] = Allow"
| "systemctl_scan (v # vs) =
     (if v = ''--'' then systemctl_scan vs
      else if starts_with v ''--'' \<or> (starts_with v ''-'' \<and> 1 < length v)
      then (if systemctl_needs_value v
            then (case vs of
                    [] \<Rightarrow> Deny ''systemctl option requires value''
                  | _ # vs' \<Rightarrow> systemctl_scan vs')
            else systemctl_scan vs)
      else if v \<in> set DANGEROUS_SYSTEMCTL_VERBS then Deny (''Blocked systemctl '' @ v)
      else Allow)"

definition check_systemctl :: "Token list \<Rightarrow> nat \<Rightarrow> Decision" where
  "check_systemctl tokens i = systemctl_scan (map tvalue (drop (i + 1) tokens))"

definition dd_writes_device :: "string \<Rightarrow> bool" where
  "dd_writes_device a =
     (let lower = to_lowercase a
      in (case strip_prefix lower ''of='' of
            Some path \<Rightarrow>
              (let norm = replace_char bsl (CHR ''/'') path
               in starts_with norm ''/dev/'' \<or> starts_with norm ''//./'' \<or> starts_with norm ''//?/'')
          | None \<Rightarrow> False)
         \<or> contains_str lower ''of=/dev/'')"

definition check_dd :: "Token list \<Rightarrow> nat \<Rightarrow> Decision" where
  "check_dd tokens i =
     (if list_ex (\<lambda>t. dd_writes_device (tvalue t)) (drop i tokens)
      then Deny ''Blocked dd writing to a raw device'' else Allow)"

definition has_slash_flag :: "string \<Rightarrow> string \<Rightarrow> bool" where
  "has_slash_flag letters a \<longleftrightarrow>
     2 \<le> length a \<and> starts_with a ''/'' \<and> a ! 1 \<in> set letters"

definition check_del :: "Token list \<Rightarrow> nat \<Rightarrow> Decision" where
  "check_del tokens i =
     (if list_ex (\<lambda>t. has_slash_flag ''fFsSqQaA'' (tvalue t)) (drop i tokens)
      then Deny ''Blocked destructive Windows delete'' else Allow)"

definition check_rd :: "Token list \<Rightarrow> nat \<Rightarrow> Decision" where
  "check_rd tokens i =
     (if list_ex (\<lambda>t. has_slash_flag ''sSqQ'' (tvalue t)) (drop i tokens)
      then Deny ''Blocked destructive Windows rd/rmdir'' else Allow)"

section \<open>Normalisation on Unix\<close>

definition solid :: "string \<Rightarrow> bool" where
  "solid p \<longleftrightarrow> p \<noteq> [] \<and> p \<noteq> ''.'' \<and> list_all (\<lambda>c. \<not> is_sep c) p"

text \<open>A normal stack: parent steps only in front, and none when the path is anchored.\<close>

definition normal_stack :: "bool \<Rightarrow> string list \<Rightarrow> bool" where
  "normal_stack anchored stack \<longleftrightarrow>
     list_all solid stack \<and>
     (\<exists>k cs. stack = replicate k ''..'' @ cs \<and> ''..'' \<notin> set cs \<and> (anchored \<longrightarrow> k = 0))"

lemma normal_stack_push:
  assumes "normal_stack anchored stack" and "list_all (\<lambda>c. \<not> is_sep c) part"
  shows "normal_stack anchored (norm_push anchored stack part)"
proof -
  from assms(1) obtain k cs where st: "stack = replicate k ''..'' @ cs"
    and cs: "''..'' \<notin> set cs" and k: "anchored \<longrightarrow> k = 0" and sol: "list_all solid stack"
    unfolding normal_stack_def by blast
  show ?thesis
  proof (cases "part = ''..''")
    case dots: True
    show ?thesis
    proof (cases cs rule: rev_cases)
      case Nil
      have "normal_stack anchored (stack @ [''..''])" if "\<not> anchored"
        unfolding normal_stack_def
      proof (intro conjI exI)
        show "list_all solid (stack @ [''..''])" using sol by (simp add: solid_def is_sep_def)
        show "stack @ [''..''] = replicate (Suc k) ''..'' @ []"
          using st Nil by (simp add: replicate_append_same)
      qed (use that in simp_all)
      moreover have "stack \<noteq> [] \<Longrightarrow> last stack = ''..''" using st Nil by (cases k) auto
      ultimately show ?thesis using dots assms(1) by (auto simp: norm_push_def)
    next
      case (snoc ds d)
      then have "butlast stack = replicate k ''..'' @ ds" "last stack \<noteq> ''..''" "stack \<noteq> []"
        using st cs by (auto simp: butlast_append)
      then show ?thesis using dots snoc cs k sol st
        by (auto simp: norm_push_def normal_stack_def)
    qed
  next
    case False
    have "solid part" if "part \<noteq> []" "part \<noteq> ''.''" using that assms(2) by (simp add: solid_def)
    then show ?thesis using False st cs k sol
      by (fastforce simp: norm_push_def normal_stack_def)
  qed
qed

lemma normal_stack_foldl:
  assumes "normal_stack anchored stack" and "list_all (list_all (\<lambda>c. \<not> is_sep c)) parts"
  shows "normal_stack anchored (foldl (norm_push anchored) stack parts)"
  using assms by (induction parts arbitrary: stack) (auto intro: normal_stack_push)

lemma split_sep_solid: "list_all (list_all (\<lambda>c. \<not> is_sep c)) (split_pred is_sep s)"
  using split_pred_no_sep [of _ is_sep s] by (fastforce simp: list_all_iff)

lemma norm_stack_normal: "normal_stack anchored (norm_stack anchored (split_pred is_sep s))"
proof -
  have "normal_stack anchored []" by (simp add: normal_stack_def)
  then show ?thesis unfolding norm_stack_def by (rule normal_stack_foldl [OF _ split_sep_solid])
qed

lemma foldl_push_dots: "foldl (norm_push False) (replicate n ''..'') (replicate k ''..'') = replicate (n + k) ''..''"
proof (induction k arbitrary: n)
  case (Suc k)
  have "norm_push False (replicate n ''..'') ''..'' = replicate (Suc n) ''..''"
    by (cases n) (auto simp: norm_push_def replicate_append_same)
  with Suc [of "Suc n"] show ?case by simp
qed simp

lemma foldl_push_solid:
  "list_all solid cs \<Longrightarrow> ''..'' \<notin> set cs \<Longrightarrow> foldl (norm_push anchored) stack cs = stack @ cs"
  by (induction cs arbitrary: stack) (auto simp: norm_push_def solid_def)

lemma norm_stack_fixed: "normal_stack anchored stack \<Longrightarrow> norm_stack anchored stack = stack"
proof -
  assume "normal_stack anchored stack"
  then obtain k cs where st: "stack = replicate k ''..'' @ cs" "''..'' \<notin> set cs"
    "anchored \<longrightarrow> k = 0" and "list_all solid stack"
    unfolding normal_stack_def by blast
  then have sol: "list_all solid cs" by simp
  have "foldl (norm_push anchored) [] (replicate k ''..'') = replicate k ''..''"
  proof (cases k)
    case (Suc m)
    with st(3) have "\<not> anchored" by auto
    then show ?thesis using foldl_push_dots [of 0 k] by simp
  qed simp
  with st sol show ?thesis by (simp add: norm_stack_def foldl_push_solid)
qed

lemma norm_stack_trailing [simp]: "norm_stack anchored (parts @ [[]]) = norm_stack anchored parts"
  by (simp add: norm_stack_def norm_push_def)

lemma split_join_solid:
  "list_all solid stack \<Longrightarrow> stack \<noteq> [] \<Longrightarrow>
     split_pred is_sep (join_with ''/'' stack @ t) =
       butlast stack @ split_pred is_sep (last stack @ t)"
proof (induction "''/''" stack rule: join_with.induct)
  case (3 w v ws)
  have "is_sep (CHR ''/'')" by (simp add: is_sep_def)
  moreover have "split_pred is_sep w = [w]" using 3(2) by (intro split_pred_id) (simp add: solid_def)
  ultimately show ?case using 3 by (simp add: split_pred_append)
qed simp_all

lemma split_join_parts:
  assumes "list_all solid stack" and "stack \<noteq> []" and "t \<in> {[], ''/''}"
  shows "split_pred is_sep (join_with ''/'' stack @ t) = stack @ (if t = [] then [] else [[]])"
proof -
  have "solid (last stack)" using assms(1,2) by (auto simp: list_all_iff)
  then have one: "split_pred is_sep (last stack) = [last stack]"
    by (intro split_pred_id) (simp add: solid_def)
  have sep: "is_sep (CHR ''/'')" by (simp add: is_sep_def)
  have "split_pred is_sep (last stack @ t) = last stack # (if t = [] then [] else [[]])"
    using assms(3) one split_pred_append [of is_sep "CHR ''/''" "last stack" "[]", OF sep] by auto
  with split_join_solid [OF assms(1,2), of t] assms(2) show ?thesis
    by (metis append.assoc append_Cons append_Nil append_butlast_last_id)
qed

lemma join_solid_last:
  "list_all solid stack \<Longrightarrow> stack \<noteq> [] \<Longrightarrow>
     \<exists>r c. join_with ''/'' stack = r @ [c] \<and> \<not> is_sep c"
proof (induction "''/''" stack rule: join_with.induct)
  case (2 w)
  then show ?case by (cases w rule: rev_cases) (auto simp: solid_def)
next
  case (3 w v ws)
  then obtain r c where "join_with ''/'' (v # ws) = r @ [c]" "\<not> is_sep c" by auto
  then show ?case by auto
qed simp

lemma join_solid_ends:
  assumes "list_all solid stack" and "stack \<noteq> []"
  shows "join_with ''/'' stack \<noteq> []" "\<not> starts_sep (join_with ''/'' stack @ t)"
    "\<not> ends_sep (join_with ''/'' stack)"
proof -
  have "\<exists>c r. join_with ''/'' stack = c # r \<and> \<not> is_sep c"
    using assms by (cases stack; cases "tl stack") (auto simp: solid_def neq_Nil_conv)
  then show "join_with ''/'' stack \<noteq> []" "\<not> starts_sep (join_with ''/'' stack @ t)"
    by (auto simp: starts_sep_def is_sep_def)
  from join_solid_last [OF assms] show "\<not> ends_sep (join_with ''/'' stack)"
    by (auto simp: ends_sep_def is_sep_def ends_with_def)
qed

text \<open>The printed form of a rooted or relative stack, with or without a trailing slash.\<close>

definition print_path :: "bool \<Rightarrow> string list \<Rightarrow> bool \<Rightarrow> string" where
  "print_path root stack trailing =
     (let out = (if root then ''/'' else []) @ join_with ''/'' stack;
          out = (if out = [] then ''.'' else out)
      in if trailing \<and> \<not> ends_with out ''/'' then out @ ''/'' else out)"

lemma normalize_target_unix:
  assumes "\<not> is_windows env"
  shows "normalize_target env s =
    (let root = starts_sep s; rest = (if root then drop 1 s else s)
     in print_path root (norm_stack root (split_pred is_sep rest)) (rest \<noteq> [] \<and> ends_sep rest))"
  using assms
  by (simp add: normalize_target_def print_path_def MAIN_SEPARATOR_def split_root_def Let_def)

lemma print_path_normal:
  assumes "\<not> is_windows env" and "normal_stack root stack"
  shows "normalize_target env (print_path root stack trailing) = print_path root stack trailing"
proof (cases "stack = []")
  case True
  then show ?thesis
    by (cases root; cases trailing)
      (simp_all add: normalize_target_unix [OF assms(1)] print_path_def norm_stack_def norm_push_def
        starts_sep_def ends_sep_def ends_with_def is_sep_def)
next
  case False
  let ?j = "join_with ''/'' stack" and ?t = "if trailing then ''/'' else []"
  have sol: "list_all solid stack" using assms(2) by (simp add: normal_stack_def)
  note ends = join_solid_ends [OF sol False]
  obtain r c where "?j = r @ [c]" "\<not> is_sep c" using join_solid_last [OF sol False] by blast
  then have p: "print_path root stack trailing = (if root then ''/'' else []) @ ?j @ ?t"
    by (auto simp: print_path_def Let_def ends_with_def is_sep_def)
  have parts: "split_pred is_sep (?j @ ?t) = stack @ (if trailing then [[]] else [])"
    using split_join_parts [OF sol False, of ?t] by simp
  have "norm_stack root (split_pred is_sep (?j @ ?t)) = stack"
    using norm_stack_fixed [OF assms(2)] parts by simp
  moreover have "ends_sep (?j @ ?t) = trailing"
    using ends(3) by (simp add: ends_sep_def ends_with_def)
  moreover have "starts_sep ((if root then ''/'' else []) @ ?j @ ?t) = root"
    using ends(2) by (simp add: starts_sep_def)
  ultimately show ?thesis
    using p ends(1) by (cases root) (simp_all add: normalize_target_unix [OF assms(1)])
qed

lemma print_path_rooted:
  assumes "normal_stack True stack"
  shows "\<not> has_dotdot (print_path True stack trailing)"
proof (cases "stack = []")
  case True
  then show ?thesis
    by (cases trailing) (simp_all add: print_path_def has_dotdot_def ends_with_def is_sep_def)
next
  case False
  let ?t = "if trailing then ''/'' else []"
  have sol: "list_all solid stack" and dots: "''..'' \<notin> set stack"
    using assms by (auto simp: normal_stack_def)
  obtain r c where "join_with ''/'' stack = r @ [c]" "\<not> is_sep c"
    using join_solid_last [OF sol False] by blast
  then have "print_path True stack trailing = CHR ''/'' # join_with ''/'' stack @ ?t"
    by (auto simp: print_path_def Let_def ends_with_def is_sep_def)
  moreover have "is_sep (CHR ''/'')" by (simp add: is_sep_def)
  ultimately show ?thesis
    using split_join_parts [OF sol False, of ?t] dots by (simp add: has_dotdot_def)
qed

text \<open>
  On Unix, normalisation is final and cannot be escaped: normalising twice changes
  nothing more, and a rooted path is left without any parent step, so a target such as
  \<^verbatim>\<open>/tmp/../..\<close> is judged as the directory it names.
\<close>

theorem normalize_target_canonical:
  assumes "\<not> is_windows env"
  shows "normalize_target env (normalize_target env s) = normalize_target env s
    \<and> (starts_sep s \<longrightarrow> \<not> has_dotdot (normalize_target env s))"
proof -
  let ?rest = "if starts_sep s then drop 1 s else s"
  let ?stack = "norm_stack (starts_sep s) (split_pred is_sep ?rest)"
  have eq: "normalize_target env s = print_path (starts_sep s) ?stack (?rest \<noteq> [] \<and> ends_sep ?rest)"
    by (simp add: normalize_target_unix [OF assms] Let_def)
  have normal: "normal_stack (starts_sep s) ?stack" by (rule norm_stack_normal)
  have "\<not> has_dotdot (print_path (starts_sep s) ?stack t)" if "starts_sep s" for t
    using print_path_rooted [of ?stack t] normal that by simp
  then show ?thesis unfolding eq print_path_normal [OF assms normal] by blast
qed

definition unix_env :: "string \<Rightarrow> os_env" where
  "unix_env home = \<lparr>is_windows = False, env_var = [''HOME'' \<mapsto> home]\<rparr>"

theorem normalize_target_canonical_witness:
  "normalize_target (unix_env ''/home/u'') ''/tmp//x/../../..'' = ''/''
   \<and> \<not> has_dotdot (normalize_target (unix_env ''/home/u'') ''/tmp//x/../../..'')"
proof
  show "normalize_target (unix_env ''/home/u'') ''/tmp//x/../../..'' = ''/''" by code_simp
  have "\<not> is_windows (unix_env ''/home/u'')" by (simp add: unix_env_def)
  note normalize_target_canonical [OF this, of "''/tmp//x/../../..''"]
  moreover have "starts_sep ''/tmp//x/../../..''" by code_simp
  ultimately show "\<not> has_dotdot (normalize_target (unix_env ''/home/u'') ''/tmp//x/../../..'')"
    by blast
qed

section \<open>What the rm scan refuses\<close>

fun rm_after :: "string list \<Rightarrow> rm_state \<Rightarrow> rm_state" where
  "rm_after [] st = st"
| "rm_after (arg # args) st =
     rm_after args (case rm_option arg st of Some st' \<Rightarrow> st' | None \<Rightarrow> st)"

definition rm_victim :: "os_env \<Rightarrow> rm_state \<Rightarrow> string \<Rightarrow> bool" where
  "rm_victim env st arg \<longleftrightarrow>
     rm_option arg st = None \<and> rm_armed st \<and> is_dangerous_rm_target env arg"

lemma rm_scan_Allow:
  "rm_scan env args st = Allow \<longleftrightarrow>
     \<not> (\<exists>pre arg post. args = pre @ arg # post \<and> rm_victim env (rm_after pre st) arg)"
proof (induction args arbitrary: st)
  case (Cons a args)
  have "(\<exists>pre arg post. a # args = pre @ arg # post \<and> rm_victim env (rm_after pre st) arg)
    \<longleftrightarrow> rm_victim env st a \<or> (\<exists>pre arg post. args = pre @ arg # post \<and>
          rm_victim env (rm_after (a # pre) st) arg)"
    by (metis (no_types, lifting) append_Cons append_Nil list.inject neq_Nil_conv rm_after.simps(1))
  with Cons show ?case by (auto simp: rm_victim_def split: option.splits)
qed simp


section \<open>Targets that are always dangerous\<close>

lemma expand_home_plain:
  "\<not> starts_with s ''~'' \<Longrightarrow> \<not> contains_str s ''$HOME'' \<Longrightarrow> expand_home home s = s"
proof -
  assume "\<not> starts_with s ''~''" and absent: "\<not> contains_str s ''$HOME''"
  then have "\<not> is_home_tilde s" by (cases s) (auto simp: is_home_tilde_def)
  with absent show ?thesis by (simp add: expand_home_def replace_str_absent)
qed

lemma home_target_dangerous:
  assumes "\<not> has_dotdot arg" and "\<not> starts_with arg ''.*''"
    and "is_home_tilde arg \<or> \<not> starts_with arg ''~''"
    and "expand_home (home_var env) arg = replace_str ''$HOME'' (home_var env) (home_var env)"
    and "home_var env \<noteq> []"
  shows "is_dangerous_rm_target env arg"
proof (cases "contains_str (home_var env) ''$HOME''")
  case True
  then have "CHR ''$'' \<in> set (home_var env)"
    by (auto simp: contains_str_iff dest: set_mono_sublist)
  with replace_str_present [OF True] assms show ?thesis
    by (auto simp: is_dangerous_rm_target_def Let_def)
next
  case False
  then have "expand_home (home_var env) arg = home_var env"
    using assms(4) replace_str_absent by metis
  with assms show ?thesis by (auto simp: is_dangerous_rm_target_def Let_def)
qed

lemma tilde_dangerous: "is_dangerous_rm_target env ''~''"
proof (cases "home_var env = []")
  case True
  then show ?thesis
    by (simp add: is_dangerous_rm_target_def Let_def expand_home_def is_home_tilde_def has_dotdot_def
        is_sep_def normalize_target_def split_root_def has_drive_def starts_sep_def norm_stack_def
        norm_push_def)
next
  case False
  then show ?thesis
    by (intro home_target_dangerous)
      (simp_all add: has_dotdot_def is_sep_def is_home_tilde_def expand_home_def)
qed

lemma home_variable_dangerous: "is_dangerous_rm_target env ''$HOME''"
proof (cases "contains_str (home_var env) ''$HOME''")
  case True
  then have dollar: "CHR ''$'' \<in> set (home_var env)" "home_var env \<noteq> []"
    by (auto simp: contains_str_iff dest: set_mono_sublist)
  have "contains_str ''$HOME'' ''$HOME''" by simp
  from replace_str_present [OF this, of "home_var env"] dollar
  have "CHR ''$'' \<in> set (expand_home (home_var env) ''$HOME'')"
    by (auto simp: expand_home_def is_home_tilde_def)
  then show ?thesis
    by (simp add: is_dangerous_rm_target_def Let_def has_dotdot_def is_sep_def is_home_tilde_def)
next
  case False
  have "replace_str ''$HOME'' (home_var env) ''$HOME'' = home_var env"
    by (simp add: replace_str.simps)
  then show ?thesis
    using False home_target_dangerous [of "''$HOME''" env]
    by (cases "home_var env = []")
      (simp_all add: is_dangerous_rm_target_def Let_def has_dotdot_def is_sep_def is_home_tilde_def
        expand_home_def replace_str_absent)
qed

lemmas fixed_target_defs =
  is_dangerous_rm_target_def has_dotdot_def is_sep_def is_home_tilde_def normalize_target_def
  split_root_def has_drive_def starts_sep_def ends_sep_def ends_with_def norm_stack_def
  norm_push_def MAIN_SEPARATOR_def

lemma root_dangerous: "is_dangerous_rm_target env ''/''"
  by (simp add: expand_home_plain fixed_target_defs Let_def)

lemma here_dangerous: "is_dangerous_rm_target env ''.''" "is_dangerous_rm_target env ''..''"
  by (simp_all add: expand_home_plain fixed_target_defs Let_def)

lemma broad_glob_star:
  "is_broad_glob_target env ''*'' home" "is_broad_glob_target env ''/*'' home"
  by (auto simp: is_broad_glob_target_def is_wild_def rfind_idx_def starts_wild_def
      fixed_target_defs Let_def trim_end_pred_def is_drive_root_def)

lemma star_dangerous: "is_dangerous_rm_target env ''*''" "is_dangerous_rm_target env ''/*''"
  using broad_glob_star
  by (auto simp: is_dangerous_rm_target_def Let_def expand_home_plain has_dotdot_def is_sep_def
      is_home_tilde_def)

lemma dot_glob_dangerous: "is_dangerous_rm_target env ''.*''"
  by (simp add: is_dangerous_rm_target_def)

text \<open>
  In every environment, Unix or Windows and whatever \<^verbatim>\<open>HOME\<close> is, the root, the home
  directory (as \<^verbatim>\<open>~\<close> or \<^verbatim>\<open>$HOME\<close>), the current and the parent directory and the globs
  \<^verbatim>\<open>*\<close>, \<^verbatim>\<open>/*\<close> and \<^verbatim>\<open>.*\<close> are dangerous targets.
\<close>

theorem root_and_home_dangerous:
  "list_all (is_dangerous_rm_target env)
     [''/'', ''~'', ''$HOME'', ''.'', ''..'', ''*'', ''/*'', ''.*'']"
  by (simp add: root_dangerous tilde_dangerous home_variable_dangerous here_dangerous
      star_dangerous dot_glob_dangerous)

end
