(* ===== verification/Guard_Paths.thy ===== *)
theory Guard_Paths
  imports Guard_Targets "HOL-Library.Word"
begin

text \<open>
  Trusted folders in the shell guard: which scripts may be sourced and which project hooks
  may run (\<^verbatim>\<open>trusted_folders\<close>, \<^verbatim>\<open>is_path_trusted\<close>, \<^verbatim>\<open>check_source\<close>,
  \<^verbatim>\<open>check_project_hook\<close>). The file system, the working directory and the JSON parser are
  not code of the repository: they are the fields of \<open>host\<close>, an argument of every
  definition that uses them, and the theorems hold for every host.
\<close>

unbundle bit_operations_syntax

section \<open>The host\<close>

record metadata =
  md_is_file :: bool
  md_is_symlink :: bool
  md_mode :: "32 word"
  md_file_attributes :: "32 word"
  md_len :: nat

record host =
  h_env :: os_env
  h_current_dir :: "string option"  \<comment> \<open>\<^verbatim>\<open>std::env::current_dir\<close>\<close>
  h_canonicalize :: "string \<Rightarrow> string option"  \<comment> \<open>\<^verbatim>\<open>dunce::canonicalize\<close>\<close>
  h_simplified :: "string \<Rightarrow> string"  \<comment> \<open>\<^verbatim>\<open>dunce::simplified\<close>\<close>
  h_components :: "string \<Rightarrow> string list"  \<comment> \<open>\<^verbatim>\<open>Path::components\<close> of the platform\<close>
  h_join :: "string \<Rightarrow> string \<Rightarrow> string"  \<comment> \<open>\<^verbatim>\<open>Path::join\<close> of the platform\<close>
  h_symlink_metadata :: "string \<Rightarrow> metadata option"  \<comment> \<open>\<^verbatim>\<open>std::fs::symlink_metadata\<close>\<close>
  h_read_to_string :: "string \<Rightarrow> string option"  \<comment> \<open>\<^verbatim>\<open>std::fs::read_to_string\<close>\<close>
  h_json_array :: "string \<Rightarrow> string option list option"
    \<comment> \<open>\<^verbatim>\<open>serde_json\<close>: the elements of a JSON array, \<open>Some\<close> for the strings\<close>

abbreviation host_windows :: "host \<Rightarrow> bool" where
  "host_windows h \<equiv> is_windows (h_env h)"

section \<open>Trusted folders\<close>

definition HOOK_DIR_MARKERS :: "string list" where
  "HOOK_DIR_MARKERS = [''.grok/hooks'', ''.omgb/hooks'']"

definition MAX_TRUSTED_FOLDERS_BYTES :: nat where
  "MAX_TRUSTED_FOLDERS_BYTES = 1024 * 1024"

definition home_dir :: "host \<Rightarrow> string option" where
  "home_dir h = first_var (h_env h) ''HOME'' ''USERPROFILE''"

definition omg_dir :: "host \<Rightarrow> string option" where
  "omg_dir h = map_option (\<lambda>d. h_join h d ''.omgb'') (home_dir h)"

definition is_absolute_path :: "bool \<Rightarrow> string \<Rightarrow> bool" where
  "is_absolute_path win p \<longleftrightarrow>
     starts_with p ''/'' \<or> (win \<and> 2 < length p \<and> p ! 1 = CHR '':'')"

definition slashes :: "string \<Rightarrow> string" where
  "slashes = replace_char bsl (CHR ''/'')"

definition with_slash :: "string \<Rightarrow> string" where
  "with_slash s = (if ends_with s ''/'' then s else s @ ''/'')"

definition normalize_folder_path :: "host \<Rightarrow> string \<Rightarrow> string option" where
  "normalize_folder_path h s =
     (let p = trim_end_pred (\<lambda>c. c = CHR ''/'') (slashes s)
      in if p = [] then None
         else if \<not> is_absolute_path (host_windows h) p then None
         else (let resolved = (case h_canonicalize h p of Some r \<Rightarrow> r | None \<Rightarrow> p)
               in Some (to_lowercase (with_slash (slashes resolved)))))"

definition normalize_folders :: "host \<Rightarrow> string list \<Rightarrow> string list" where
  "normalize_folders h = List.map_filter (normalize_folder_path h)"

text \<open>The masks are octal in the source: \<^verbatim>\<open>0o777\<close> is 511, \<^verbatim>\<open>0o077\<close> is 63.\<close>

definition metadata_is_secure :: "bool \<Rightarrow> metadata \<Rightarrow> bool" where
  "metadata_is_secure win meta =
     (if \<not> md_is_file meta \<or> md_is_symlink meta then False
      else if \<not> win then (md_mode meta AND 511) AND 63 = 0
      else md_file_attributes meta AND 0x400 = 0)"

definition trusted_folders :: "host \<Rightarrow> string list" where
  "trusted_folders h =
     (case env_var (h_env h) ''OMGB_TRUSTED_FOLDERS'' of
        Some raw \<Rightarrow> normalize_folders h (split_pred (\<lambda>c. c = CHR '';'') raw)
      | None \<Rightarrow>
          (case map_option (\<lambda>d. h_join h d ''trusted_folders.json'') (omg_dir h) of
             None \<Rightarrow> []
           | Some path \<Rightarrow>
               (case h_symlink_metadata h path of
                  None \<Rightarrow> []
                | Some meta \<Rightarrow>
                    (if \<not> metadata_is_secure (host_windows h) meta then []
                     else if MAX_TRUSTED_FOLDERS_BYTES < md_len meta then []
                     else (case h_read_to_string h path of
                             None \<Rightarrow> []
                           | Some raw \<Rightarrow>
                               (case h_json_array h raw of
                                  None \<Rightarrow> []
                                | Some arr \<Rightarrow>
                                    normalize_folders h (List.map_filter (\<lambda>v. v) arr)))))))"

definition current_dir :: "host \<Rightarrow> string" where
  "current_dir h = (case h_current_dir h of Some d \<Rightarrow> d | None \<Rightarrow> [])"

section \<open>Path trust\<close>

fun common_len :: "'a list \<Rightarrow> 'a list \<Rightarrow> nat" where
  "common_len (x # xs) (y # ys) = (if x = y then Suc (common_len xs ys) else 0)"
| "common_len _ _ = 0"

definition is_symlink :: "host \<Rightarrow> string \<Rightarrow> bool" where
  "is_symlink h p =
     (case h_symlink_metadata h p of Some meta \<Rightarrow> md_is_symlink meta | None \<Rightarrow> False)"

fun symlink_scan :: "host \<Rightarrow> nat \<Rightarrow> nat \<Rightarrow> string \<Rightarrow> string list \<Rightarrow> bool" where
  "symlink_scan h skip i pre [] = False"
| "symlink_scan h skip i pre (cmp # cmps) =
     (let pre' = h_join h pre cmp
      in if i < skip then symlink_scan h skip (Suc i) pre' cmps
         else is_symlink h pre' \<or> symlink_scan h skip (Suc i) pre' cmps)"

definition has_symlink_in_tail :: "host \<Rightarrow> string \<Rightarrow> string \<Rightarrow> bool" where
  "has_symlink_in_tail h base path =
     (let base_comps = h_components h (h_simplified h base);
          path_comps = h_components h (h_simplified h path);
          common = common_len base_comps path_comps;
          skip = (if common < length base_comps then 0 else common)
      in symlink_scan h skip 0 [] path_comps)"

definition canonical_cwd :: "host \<Rightarrow> string \<Rightarrow> string" where
  "canonical_cwd h cwd = (case h_canonicalize h cwd of Some p \<Rightarrow> p | None \<Rightarrow> h_simplified h cwd)"

definition joined_path :: "host \<Rightarrow> string \<Rightarrow> string \<Rightarrow> string" where
  "joined_path h cwd p =
     (if is_absolute_path (host_windows h) p then p else h_join h (canonical_cwd h cwd) p)"

definition real_norm :: "host \<Rightarrow> string \<Rightarrow> string \<Rightarrow> string" where
  "real_norm h cwd p =
     (let joined = joined_path h cwd p;
          real = (case h_canonicalize h joined of Some r \<Rightarrow> r | None \<Rightarrow> h_simplified h joined)
      in with_slash (to_lowercase (slashes real)))"

definition is_path_trusted :: "host \<Rightarrow> string \<Rightarrow> string \<Rightarrow> string list \<Rightarrow> bool" where
  "is_path_trusted h cwd p trusted =
     (if \<not> list_ex (starts_with (real_norm h cwd p)) trusted then False
      else \<not> has_symlink_in_tail h (canonical_cwd h cwd) (joined_path h cwd p))"

definition is_project_hook_command :: "string \<Rightarrow> bool" where
  "is_project_hook_command cmd = list_ex (contains_str (slashes cmd)) HOOK_DIR_MARKERS"

definition SOURCE_EXTS :: "string list" where
  "SOURCE_EXTS =
     [[], ''sh'', ''bash'', ''zsh'', ''ksh'', ''csh'', ''tcsh'', ''fish'', ''env'', ''profile'',
      ''bashrc'', ''zshrc'', ''bash_profile'', ''bash_login'', ''bash_logout'', ''zlogout'',
      ''zprofile'']"

definition is_shell_source_ext :: "string \<Rightarrow> bool" where
  "is_shell_source_ext path =
     (let lower = to_lowercase path
      in case rfind_idx (\<lambda>c. c = CHR ''.'') lower of
           Some idx \<Rightarrow> drop (Suc idx) lower \<in> set SOURCE_EXTS
         | None \<Rightarrow> True)"

definition check_source :: "host \<Rightarrow> Token list \<Rightarrow> nat \<Rightarrow> Decision" where
  "check_source h tokens i =
     (if length tokens \<le> i + 1 then Deny ''Blocked sourced script (no path)''
      else if \<not> is_shell_source_ext (tvalue (tokens ! (i + 1)))
      then Deny ''Blocked sourced script (non-shell extension)''
      else if is_path_trusted h (current_dir h) (tvalue (tokens ! (i + 1))) (trusted_folders h)
      then Allow
      else Deny ''Blocked sourced script (not under a trusted folder)'')"

definition check_project_hook :: "host \<Rightarrow> string \<Rightarrow> Decision" where
  "check_project_hook h cmd =
     (if is_path_trusted h (current_dir h) cmd (trusted_folders h) then Allow
      else Deny ''Blocked project hook (not under a trusted folder)'')"

section \<open>Trust follows path components\<close>

abbreviation slash_parts :: "string \<Rightarrow> string list" where
  "slash_parts s \<equiv> split_pred (\<lambda>c. c = CHR ''/'') s"

text \<open>
  \<open>path_below t p\<close>: the components of the folder \<open>t\<close>, written with its final slash, are
  the first components of \<open>p\<close>.
\<close>

definition path_below :: "string \<Rightarrow> string \<Rightarrow> bool" where
  "path_below t p \<longleftrightarrow> prefix (butlast (slash_parts t)) (slash_parts p)"

lemma ends_slash_snoc: "ends_with t ''/'' \<longleftrightarrow> (\<exists>t'. t = t' @ ''/'')"
  by (auto simp: ends_with_iff suffix_def)

lemma starts_with_below:
  assumes "ends_with t ''/''" and "starts_with p t"
  shows "path_below t p"
proof -
  from assms obtain t' r where "t = t' @ ''/''" "p = t @ r"
    by (auto simp: ends_slash_snoc starts_with_iff prefix_def)
  then show ?thesis by (simp add: path_below_def split_pred_append butlast_append)
qed

lemma with_slash_ends: "ends_with (with_slash s) ''/''"
  by (auto simp: with_slash_def ends_slash_snoc)

lemma to_lowercase_ends_slash: "ends_with s ''/'' \<Longrightarrow> ends_with (to_lowercase s) ''/''"
  by (auto simp: ends_slash_snoc to_lower_char_def is_ascii_uppercase_def)

lemma normalize_folders_ends:
  "t \<in> set (normalize_folders h raws) \<Longrightarrow> ends_with t ''/''"
  by (auto simp: normalize_folders_def List.map_filter_def normalize_folder_path_def Let_def
      to_lowercase_ends_slash with_slash_ends split: if_splits option.splits)

lemma trusted_folders_shape:
  "trusted_folders h = [] \<or> (\<exists>raws. trusted_folders h = normalize_folders h raws)"
  unfolding trusted_folders_def by (auto split: option.split)

lemma trusted_folders_ends: "t \<in> set (trusted_folders h) \<Longrightarrow> ends_with t ''/''"
  using trusted_folders_shape [of h] by (auto dest: normalize_folders_ends)

lemma is_path_trusted_below:
  assumes "is_path_trusted h cwd p (trusted_folders h)"
  shows "\<exists>t \<in> set (trusted_folders h). path_below t (real_norm h cwd p)"
  using assms
  by (auto simp: is_path_trusted_def list_ex_iff dest: trusted_folders_ends starts_with_below
      split: if_splits)

text \<open>
  A script is sourced and a project hook is run only from inside a trusted folder: the
  resolved path has that folder's components as its first components (a sibling that only
  shares the spelling does not count), and no component after the working directory is a
  symbolic link.
\<close>

theorem source_and_hook_trusted:
  assumes "check_source h tokens i = Allow \<and> p = tvalue (tokens ! (i + 1))
    \<or> check_project_hook h p = Allow"
  shows "(\<exists>t \<in> set (trusted_folders h). path_below t (real_norm h (current_dir h) p))
    \<and> \<not> has_symlink_in_tail h (canonical_cwd h (current_dir h)) (joined_path h (current_dir h) p)"
proof -
  from assms have "is_path_trusted h (current_dir h) p (trusted_folders h)"
    by (auto simp: check_source_def check_project_hook_def split: if_splits)
  then show ?thesis using is_path_trusted_below
    by (auto simp: is_path_trusted_def split: if_splits)
qed

text \<open>
  Without the \<^verbatim>\<open>OMGB_TRUSTED_FOLDERS\<close> variable, folders are trusted only from a
  \<^verbatim>\<open>trusted_folders.json\<close> of the home directory that is a regular file, no symbolic
  link, at most one mebibyte long and, on Unix, closed to group and others.
\<close>

theorem trusted_folders_secure:
  assumes "env_var (h_env h) ''OMGB_TRUSTED_FOLDERS'' = None" and "trusted_folders h \<noteq> []"
  shows "\<exists>d meta. omg_dir h = Some d
    \<and> h_symlink_metadata h (h_join h d ''trusted_folders.json'') = Some meta
    \<and> md_is_file meta \<and> \<not> md_is_symlink meta \<and> md_len meta \<le> 1048576
    \<and> (if host_windows h then True else (md_mode meta AND 511) AND 63 = 0)"
  using assms
  by (auto simp: trusted_folders_def metadata_is_secure_def MAX_TRUSTED_FOLDERS_BYTES_def
      split: option.splits if_splits)

section \<open>A concrete host\<close>

fun unix_components :: "string \<Rightarrow> string list" where
  "unix_components p =
     (if starts_with p ''/'' then [''/''] else []) @
     filter (\<lambda>s. s \<noteq> [] \<and> s \<noteq> ''.'') (slash_parts p)"

definition unix_join :: "string \<Rightarrow> string \<Rightarrow> string" where
  "unix_join a b =
     (if starts_with b ''/'' \<or> a = [] then b else if ends_with a ''/'' then a @ b else a @ ''/'' @ b)"

definition secure_file :: metadata where
  "secure_file = \<lparr>md_is_file = True, md_is_symlink = False, md_mode = 384,
                  md_file_attributes = 0, md_len = 20\<rparr>"

definition demo_host :: host where
  "demo_host =
     \<lparr>h_env = unix_env ''/home/u'', h_current_dir = Some ''/work'', h_canonicalize = (\<lambda>_. None),
      h_simplified = (\<lambda>p. p), h_components = unix_components, h_join = unix_join,
      h_symlink_metadata =
        (\<lambda>p. if p = ''/home/u/.omgb/trusted_folders.json'' then Some secure_file else None),
      h_read_to_string = (\<lambda>_. Some ''x''), h_json_array = (\<lambda>_. Some [Some ''/work/ok'', None])\<rparr>"

lemma secure_file_secure: "metadata_is_secure False secure_file"
  by (simp add: metadata_is_secure_def secure_file_def)

lemma demo_host_sel:
  "env_var (h_env demo_host) ''OMGB_TRUSTED_FOLDERS'' = None" "\<not> host_windows demo_host"
  "h_symlink_metadata demo_host ''/home/u/.omgb/trusted_folders.json'' = Some secure_file"
  "h_read_to_string demo_host p = Some ''x''"
  "h_json_array demo_host r = Some [Some ''/work/ok'', None]"
  "current_dir demo_host = ''/work''"
  by (simp_all add: demo_host_def unix_env_def current_dir_def)

lemma demo_trusted: "trusted_folders demo_host = [''/work/ok/'']"
proof -
  have "omg_dir demo_host = Some ''/home/u/.omgb''" by code_simp
  moreover have "h_join demo_host ''/home/u/.omgb'' ''trusted_folders.json'' =
    ''/home/u/.omgb/trusted_folders.json''" by code_simp
  moreover have "normalize_folders demo_host [''/work/ok''] = [''/work/ok/'']" by code_simp
  ultimately show ?thesis
    by (simp add: trusted_folders_def demo_host_sel secure_file_secure MAX_TRUSTED_FOLDERS_BYTES_def
        List.map_filter_def) (simp add: secure_file_def)
qed

theorem source_and_hook_trusted_witness:
  "check_source demo_host [word_token ''source'', word_token ''ok/env.sh''] 0 = Allow
   \<and> check_source demo_host [word_token ''source'', word_token ''ok-evil/env.sh''] 0 \<noteq> Allow
   \<and> (\<exists>t \<in> set (trusted_folders demo_host).
        path_below t (real_norm demo_host (current_dir demo_host) ''ok/env.sh''))"
proof (intro conjI)
  have "is_path_trusted demo_host ''/work'' ''ok/env.sh'' [''/work/ok/'']" by code_simp
  moreover have "is_shell_source_ext ''ok/env.sh''" by code_simp
  ultimately
  show allow: "check_source demo_host [word_token ''source'', word_token ''ok/env.sh''] 0 = Allow"
    by (simp add: check_source_def demo_trusted demo_host_sel)
  have "\<not> is_path_trusted demo_host ''/work'' ''ok-evil/env.sh'' [''/work/ok/'']" by code_simp
  then show "check_source demo_host [word_token ''source'', word_token ''ok-evil/env.sh''] 0 \<noteq> Allow"
    by (simp add: check_source_def demo_trusted demo_host_sel)
  show "\<exists>t \<in> set (trusted_folders demo_host).
      path_below t (real_norm demo_host (current_dir demo_host) ''ok/env.sh'')"
    using source_and_hook_trusted [of demo_host "[word_token ''source'', word_token ''ok/env.sh'']"
        0 "''ok/env.sh''"] allow by simp
qed

theorem trusted_folders_secure_witness:
  "\<exists>d meta. omg_dir demo_host = Some d
    \<and> h_symlink_metadata demo_host (h_join demo_host d ''trusted_folders.json'') = Some meta
    \<and> md_is_file meta \<and> \<not> md_is_symlink meta \<and> md_len meta \<le> 1048576
    \<and> (if host_windows demo_host then True else (md_mode meta AND 511) AND 63 = 0)"
  by (rule trusted_folders_secure) (simp_all add: demo_host_sel demo_trusted)

end
