(* ===== verification/Guard_Prefix.thy ===== *)
theory Guard_Prefix
  imports Guard_Names
begin

text \<open>
  Command prefixes in the shell guard: the wrappers \<^verbatim>\<open>nice\<close>, \<^verbatim>\<open>env\<close>, \<^verbatim>\<open>sudo\<close>,
  \<^verbatim>\<open>bash -c\<close>, \<^verbatim>\<open>xargs\<close> and so on (\<^verbatim>\<open>skip_prefix\<close> and the \<^verbatim>\<open>parse_*\<close> functions).
  A parser gets the tokens and the index of the wrapper. Its \<^verbatim>\<open>while\<close> loop is a
  recursion over the tokens from index \<open>j\<close> on, with \<open>j\<close> carried along, so that
  \<^verbatim>\<open>j + 1 >= tokens.len()\<close> is an empty tail.

  Several parsers end in a call of \<^verbatim>\<open>evaluate\<close> or \<^verbatim>\<open>evaluate_tokens\<close>, always as the
  result \<^verbatim>\<open>Stop(evaluate_tokens(ts, k))\<close>. That call is the constructor \<open>Reeval ts k\<close>;
  the evaluator carries it out.
\<close>

section \<open>Outcomes\<close>

datatype PrefixOutcome = Stop Decision | Continue nat | Reeval "Token list" nat

abbreviation deny :: "string \<Rightarrow> PrefixOutcome" where
  "deny reason \<equiv> Stop (Deny reason)"

text \<open>\<^verbatim>\<open>Stop(evaluate(v))\<close>: lex the string again, then evaluate from its first token.\<close>

definition re_evaluate :: "bool \<Rightarrow> string \<Rightarrow> PrefixOutcome" where
  "re_evaluate win v = (case tokenize win v of Inr ts \<Rightarrow> Reeval ts 0 | Inl e \<Rightarrow> deny e)"

text \<open>\<^verbatim>\<open>v.starts_with(p) && v.len() > p.len()\<close>: an option with its value attached.\<close>

definition attached :: "string \<Rightarrow> string \<Rightarrow> bool" where
  "attached p v \<longleftrightarrow> starts_with v p \<and> length p < length v"

section \<open>Wrappers with options\<close>

fun nice_scan :: "Token list \<Rightarrow> nat \<Rightarrow> PrefixOutcome" where
  "nice_scan [] j = Continue j"
| "nice_scan (t # ts) j =
     (let v = tvalue t
      in if v = ''-n'' \<or> v = ''--adjustment''
         then (case ts of [] \<Rightarrow> deny ''nice option requires value''
               | _ # ts' \<Rightarrow> nice_scan ts' (j + 2))
         else if starts_with v ''--adjustment='' then nice_scan ts (j + 1)
         else if attached ''-n'' v then nice_scan ts (j + 1)
         else if v = ''--'' then Continue (j + 1)
         else if starts_with v ''-'' then nice_scan ts (j + 1)
         else Continue j)"

definition parse_nice :: "Token list \<Rightarrow> nat \<Rightarrow> PrefixOutcome" where
  "parse_nice tokens i = nice_scan (drop (i + 1) tokens) (i + 1)"

definition time_no_arg :: "string list" where
  "time_no_arg =
     [''-a'', ''-p'', ''-q'', ''-v'', ''--portability'', ''--quiet'', ''--verbose'', ''--help'',
      ''--version'']"

fun time_scan :: "Token list \<Rightarrow> nat \<Rightarrow> PrefixOutcome" where
  "time_scan [] j = deny ''time missing command''"
| "time_scan (t # ts) j =
     (let v = tvalue t
      in if v \<in> {''-o'', ''--output'', ''-f'', ''--format''}
         then (case ts of [] \<Rightarrow> deny ''time option requires value''
               | _ # ts' \<Rightarrow> time_scan ts' (j + 2))
         else if starts_with v ''--output='' \<or> starts_with v ''--format='' then time_scan ts (j + 1)
         else if attached ''-o'' v \<or> attached ''-f'' v then time_scan ts (j + 1)
         else if v \<in> set time_no_arg then time_scan ts (j + 1)
         else if v = ''--'' then Continue (j + 1)
         else if starts_with v ''-'' then deny ''Blocked unknown time option''
         else Continue j)"

definition parse_time :: "Token list \<Rightarrow> nat \<Rightarrow> PrefixOutcome" where
  "parse_time tokens i = time_scan (drop (i + 1) tokens) (i + 1)"

fun command_scan :: "Token list \<Rightarrow> nat \<Rightarrow> PrefixOutcome" where
  "command_scan [] j = deny ''command missing command name''"
| "command_scan (t # ts) j =
     (let v = tvalue t
      in if v \<in> {''-v'', ''-V'', ''--describe''} then Stop Allow
         else if v \<in> {''-p'', ''--path-search'', ''--help'', ''--version''}
         then command_scan ts (j + 1)
         else if v = ''--'' then Continue (j + 1)
         else if starts_with v ''-'' then deny ''Blocked unknown command option''
         else Continue j)"

definition parse_command_prefix :: "Token list \<Rightarrow> nat \<Rightarrow> PrefixOutcome" where
  "parse_command_prefix tokens i = command_scan (drop (i + 1) tokens) (i + 1)"

definition parse_builtin :: "Token list \<Rightarrow> nat \<Rightarrow> PrefixOutcome" where
  "parse_builtin tokens i =
     (if length tokens \<le> i + 1 then deny ''builtin missing builtin name'' else Continue (i + 1))"

text \<open>
  \<^verbatim>\<open>env -S\<close>: the string is lexed and the remaining tokens follow it. The argument list
  starts at the option itself.
\<close>

definition env_split_resume :: "bool \<Rightarrow> string \<Rightarrow> Token list \<Rightarrow> PrefixOutcome" where
  "env_split_resume win v remaining =
     (case tokenize win v of Inr inner \<Rightarrow> Reeval (inner @ remaining) 0 | Inl e \<Rightarrow> deny e)"

definition get_env_split_string_arg :: "bool \<Rightarrow> Token \<Rightarrow> Token list \<Rightarrow> PrefixOutcome option" where
  "get_env_split_string_arg win t ts =
     (let v = tvalue t
      in if v = ''-S'' \<or> v = ''--split-string''
         then (case ts of
                 [] \<Rightarrow> Some (deny ''env -S/--split-string requires a command string'')
               | u # ts' \<Rightarrow> Some (env_split_resume win (tvalue u) ts'))
         else (case strip_prefix v ''--split-string='' of
                 Some rest \<Rightarrow>
                   (if rest = []
                    then (case ts of
                            [] \<Rightarrow> Some (deny ''env --split-string requires a command string'')
                          | u # ts' \<Rightarrow> Some (env_split_resume win (tvalue u) ts'))
                    else Some (env_split_resume win rest ts))
               | None \<Rightarrow>
                   (if attached ''-S'' v then Some (env_split_resume win (drop 2 v) ts) else None)))"

definition env_no_arg :: "string list" where
  "env_no_arg =
     [''-i'', ''-v'', ''--ignore-environment'', ''--debug'', ''--help'', ''--version'']"

fun env_arg_scan :: "bool \<Rightarrow> Token list \<Rightarrow> nat \<Rightarrow> PrefixOutcome" where
  "env_arg_scan win [] j = Continue j"
| "env_arg_scan win (t # ts) j =
     (let v = tvalue t
      in if is_assignment t
         then (case has_unsafe_env_assignment t of
                 Some key \<Rightarrow> deny (''Blocked unsafe env set: '' @ key)
               | None \<Rightarrow> env_arg_scan win ts (j + 1))
         else if v = ''-u'' \<or> v = ''--unset''
         then (case ts of [] \<Rightarrow> deny ''env option requires value''
               | _ # ts' \<Rightarrow> env_arg_scan win ts' (j + 2))
         else if starts_with v ''--unset='' then env_arg_scan win ts (j + 1)
         else if attached ''-u'' v then env_arg_scan win ts (j + 1)
         else (case get_env_split_string_arg win t ts of
                 Some split \<Rightarrow> split
               | None \<Rightarrow>
                   (if v \<in> set env_no_arg then env_arg_scan win ts (j + 1)
                    else if starts_with v ''-'' \<and> v \<noteq> ''--''
                    then deny ''Blocked unknown env option''
                    else if v = ''--'' then Continue (j + 1)
                    else Continue j)))"

definition parse_env :: "bool \<Rightarrow> Token list \<Rightarrow> nat \<Rightarrow> PrefixOutcome" where
  "parse_env win tokens i = env_arg_scan win (drop (i + 1) tokens) (i + 1)"

definition timeout_no_arg :: "string list" where
  "timeout_no_arg =
     [''--preserve-status'', ''--foreground'', ''-v'', ''--verbose'', ''--help'', ''--version'']"

text \<open>After the options: the duration is skipped and a command has to follow.\<close>

fun timeout_finish :: "Token list \<Rightarrow> nat \<Rightarrow> PrefixOutcome" where
  "timeout_finish [] j = deny ''timeout missing duration''"
| "timeout_finish [_] j = deny ''timeout missing command''"
| "timeout_finish (_ # _ # _) j = Continue (j + 1)"

fun timeout_scan :: "Token list \<Rightarrow> nat \<Rightarrow> PrefixOutcome" where
  "timeout_scan [] j = timeout_finish [] j"
| "timeout_scan (t # ts) j =
     (let v = tvalue t
      in if v \<in> {''-s'', ''--signal'', ''-k'', ''--kill-after''}
         then (case ts of [] \<Rightarrow> deny ''timeout option requires value''
               | _ # ts' \<Rightarrow> timeout_scan ts' (j + 2))
         else if starts_with v ''--signal='' \<or> starts_with v ''--kill-after=''
         then timeout_scan ts (j + 1)
         else if attached ''-s'' v \<or> attached ''-k'' v then timeout_scan ts (j + 1)
         else if v \<in> set timeout_no_arg then timeout_scan ts (j + 1)
         else if v = ''--'' then timeout_finish ts (j + 1)
         else if starts_with v ''-'' then deny ''Blocked unknown timeout option''
         else timeout_finish (t # ts) j)"

definition parse_timeout :: "Token list \<Rightarrow> nat \<Rightarrow> PrefixOutcome" where
  "parse_timeout tokens i = timeout_scan (drop (i + 1) tokens) (i + 1)"

fun stdbuf_scan :: "Token list \<Rightarrow> nat \<Rightarrow> PrefixOutcome" where
  "stdbuf_scan [] j = Continue j"
| "stdbuf_scan (t # ts) j =
     (let v = tvalue t
      in if v \<in> {''-i'', ''-o'', ''-e'', ''--input'', ''--output'', ''--error''}
         then (case ts of [] \<Rightarrow> deny ''stdbuf option requires value''
               | _ # ts' \<Rightarrow> stdbuf_scan ts' (j + 2))
         else if starts_with v ''--input='' \<or> starts_with v ''--output='' \<or> starts_with v ''--error=''
         then stdbuf_scan ts (j + 1)
         else if attached ''-i'' v \<or> attached ''-o'' v \<or> attached ''-e'' v
         then stdbuf_scan ts (j + 1)
         else if v \<in> {''--help'', ''--version''} then stdbuf_scan ts (j + 1)
         else if starts_with v ''-'' \<and> v \<noteq> ''--'' then deny ''Blocked unknown stdbuf option''
         else if v = ''--'' then Continue (j + 1)
         else Continue j)"

definition parse_stdbuf :: "Token list \<Rightarrow> nat \<Rightarrow> PrefixOutcome" where
  "parse_stdbuf tokens i = stdbuf_scan (drop (i + 1) tokens) (i + 1)"

section \<open>sudo and doas\<close>

definition sudo_value_short :: "char list" where
  "sudo_value_short = ''ugprthCRUDcT''"

definition sudo_value_long :: "string list" where
  "sudo_value_long =
     [''user'', ''group'', ''prompt'', ''role'', ''type'', ''close-from'', ''other-user'', ''chdir'',
      ''chroot'', ''timeout'', ''askpass'', ''host'', ''group-plugin'', ''user-plugin'']"

text \<open>Whether the option's value is the next token.\<close>

definition sudo_value_in_next :: "string \<Rightarrow> bool" where
  "sudo_value_in_next v =
     (if starts_with v ''--''
      then CHR ''='' \<notin> set v \<and> drop 2 v \<in> set sudo_value_long
      else (case find_idx (\<lambda>c. c \<in> set sudo_value_short) (drop 1 v) of
              Some k \<Rightarrow> Suc k = length (drop 1 v)
            | None \<Rightarrow> False))"

definition sudo_no_command :: "Token list \<Rightarrow> nat \<Rightarrow> string \<Rightarrow> PrefixOutcome" where
  "sudo_no_command tokens i kind =
     (if length tokens = i + 2
         \<and> tvalue (tokens ! (i + 1)) \<in> {''--help'', ''-h'', ''--version'', ''-V''}
      then Stop Allow
      else deny (kind @ '' requires an explicit command''))"

fun sudo_scan :: "Token list \<Rightarrow> nat \<Rightarrow> string \<Rightarrow> Token list \<Rightarrow> nat \<Rightarrow> PrefixOutcome" where
  "sudo_scan tokens i kind [] j = sudo_no_command tokens i kind"
| "sudo_scan tokens i kind (t # ts) j =
     (let v = tvalue t
      in if v = ''--'' then Continue (j + 1)
         else if v = ''-h'' \<and> ts = [] then Stop Allow
         else if v = ''-e'' \<or> v = ''--edit'' \<or> starts_with v ''--edit=''
         then deny (kind @ '' -e/--edit is not allowed'')
         else if starts_with v ''--'' \<or> attached ''-'' v
         then (if sudo_value_in_next v
               then (case ts of [] \<Rightarrow> deny (kind @ '' option requires value'')
                     | _ # ts' \<Rightarrow> sudo_scan tokens i kind ts' (j + 2))
               else sudo_scan tokens i kind ts (j + 1))
         else Continue j)"

definition parse_sudo_doas :: "Token list \<Rightarrow> nat \<Rightarrow> string \<Rightarrow> PrefixOutcome" where
  "parse_sudo_doas tokens i kind = sudo_scan tokens i kind (drop (i + 1) tokens) (i + 1)"

section \<open>Interpreters and launchers\<close>

fun interpreter_scan :: "bool \<Rightarrow> Token list \<Rightarrow> string \<Rightarrow> Token list \<Rightarrow> nat \<Rightarrow> PrefixOutcome" where
  "interpreter_scan win tokens flag [] j = deny ''Blocked interpreter without -c command string''"
| "interpreter_scan win tokens flag (t # ts) j =
     (let v = tvalue t
      in if v = flag
         then (case ts of
                 [] \<Rightarrow> deny ''Interpreter missing command string''
               | cmd # extra \<Rightarrow>
                   (if quoted cmd \<noteq> None \<or> extra = [] then re_evaluate win (tvalue cmd)
                    else Reeval tokens (j + 1)))
         else if v = ''--'' then deny ''Blocked interpreter without -c command string''
         else if attached ''-'' v then interpreter_scan win tokens flag ts (j + 1)
         else deny ''Blocked interpreter without -c command string'')"

definition parse_interpreter :: "bool \<Rightarrow> Token list \<Rightarrow> nat \<Rightarrow> string \<Rightarrow> PrefixOutcome" where
  "parse_interpreter win tokens i flag =
     interpreter_scan win tokens flag (drop (i + 1) tokens) (i + 1)"

fun first_command_from :: "Token list \<Rightarrow> nat \<Rightarrow> (nat \<times> string) option" where
  "first_command_from [] k = None"
| "first_command_from (t # ts) k =
     (let v = tvalue t
      in if attached ''/'' v then first_command_from ts (k + 1)
         else if get_base_name v = [] then first_command_from ts (k + 1)
         else Some (k, get_base_name v))"

definition first_command_token :: "Token list \<Rightarrow> nat \<Rightarrow> (nat \<times> string) option" where
  "first_command_token tokens start = first_command_from (drop start tokens) start"

definition cmd_tail :: "bool \<Rightarrow> Token list \<Rightarrow> PrefixOutcome" where
  "cmd_tail win ts =
     (case tokenize win (join_with '' '' (map tvalue ts)) of
        Inl e \<Rightarrow> deny e
      | Inr inner \<Rightarrow>
          (case first_command_token inner 0 of
             Some (idx, base) \<Rightarrow>
               (if base \<in> set WINDOWS_CMD_LAUNCHERS
                then deny (''Blocked unanalyzable command: '' @ base)
                else Reeval inner idx)
           | None \<Rightarrow> Reeval inner (length inner)))"

fun cmd_scan :: "bool \<Rightarrow> Token list \<Rightarrow> nat \<Rightarrow> PrefixOutcome" where
  "cmd_scan win [] j = deny ''Blocked cmd without /c or /k command string''"
| "cmd_scan win (t # ts) j =
     (let v = tvalue t
      in if to_lowercase v = ''/c'' \<or> to_lowercase v = ''/k''
         then (if ts = [] then deny ''cmd missing command string'' else cmd_tail win ts)
         else if attached ''/'' v then cmd_scan win ts (j + 1)
         else deny ''Blocked cmd without /c or /k command string'')"

definition parse_cmd :: "bool \<Rightarrow> Token list \<Rightarrow> nat \<Rightarrow> PrefixOutcome" where
  "parse_cmd win tokens i = cmd_scan win (drop (i + 1) tokens) (i + 1)"

definition wsl_value_opts :: "string list" where
  "wsl_value_opts = [''-d'', ''-u'', ''--distribution'', ''--user'', ''--shell'', ''--cd'']"

fun wsl_scan :: "bool \<Rightarrow> Token list \<Rightarrow> Token list \<Rightarrow> nat \<Rightarrow> PrefixOutcome" where
  "wsl_scan win tokens [] j = deny ''Blocked wsl without command''"
| "wsl_scan win tokens (t # ts) j =
     (let v = tvalue t
      in if v = ''--''
         then (case ts of
                 [u] \<Rightarrow> (if quoted u \<noteq> None then re_evaluate win (tvalue u) else Continue (j + 1))
               | _ \<Rightarrow> Continue (j + 1))
         else if v = ''-e'' \<or> v = ''--exec''
         then (case ts of
                 [] \<Rightarrow> deny ''wsl -e/--exec requires command''
               | u # extra \<Rightarrow>
                   (if extra = [] \<and> quoted u \<noteq> None then re_evaluate win (tvalue u)
                    else Reeval tokens (j + 1)))
         else if v \<in> set wsl_value_opts
         then (case ts of [] \<Rightarrow> deny ''wsl option requires value''
               | _ # ts' \<Rightarrow> wsl_scan win tokens ts' (j + 2))
         else if starts_with v ''--'' \<and> CHR ''='' \<in> set v then wsl_scan win tokens ts (j + 1)
         else if attached ''-'' v then wsl_scan win tokens ts (j + 1)
         else if ts = [] \<and> quoted t \<noteq> None then re_evaluate win v
         else Reeval tokens j)"

definition parse_wsl :: "bool \<Rightarrow> Token list \<Rightarrow> nat \<Rightarrow> PrefixOutcome" where
  "parse_wsl win tokens i = wsl_scan win tokens (drop (i + 1) tokens) (i + 1)"

fun busybox_scan :: "Token list \<Rightarrow> Token list \<Rightarrow> nat \<Rightarrow> PrefixOutcome" where
  "busybox_scan tokens [] j = deny ''Busybox applet not specified''"
| "busybox_scan tokens (t # ts) j =
     (if starts_with (tvalue t) ''-'' then busybox_scan tokens ts (j + 1) else Reeval tokens j)"

definition parse_busybox :: "Token list \<Rightarrow> nat \<Rightarrow> PrefixOutcome" where
  "parse_busybox tokens i = busybox_scan tokens (drop (i + 1) tokens) (i + 1)"

section \<open>xargs\<close>

definition xargs_value_opts :: "string list" where
  "xargs_value_opts =
     [''-L'', ''-P'', ''-n'', ''-s'', ''-E'', ''-a'', ''-d'', ''--arg-file'', ''--delimiter'',
      ''--max-args'', ''--max-chars'', ''--max-lines'', ''--max-procs'']"

definition xargs_no_arg :: "string list" where
  "xargs_no_arg =
     [''-0'', ''--null'', ''-p'', ''--interactive'', ''-r'', ''--no-run-if-empty'', ''-t'',
      ''--verbose'', ''-x'', ''--exit'', ''--help'', ''--version'', ''-S'', ''--show-limits'', ''-e'',
      ''--eof'']"

definition tilde_reason :: string where
  "tilde_reason = ''Blocked tilde expansion in xargs option value''"

definition xargs_finish :: "Token list \<Rightarrow> bool \<Rightarrow> Token list \<Rightarrow> nat \<Rightarrow> PrefixOutcome" where
  "xargs_finish tokens saw_replace ts j =
     (if saw_replace
      then deny (''Blocked xargs argument replacement (-I/-i/--replace); cannot verify '' @
                 ''substituted arguments'')
      else (case ts of
              [] \<Rightarrow> Stop Allow
            | t # _ \<Rightarrow>
                (let cmd_base = get_base_name (tvalue t)
                 in if cmd_base \<in> set DANGEROUS_COMMANDS \<or> cmd_base \<in> set UNANALYZABLE_COMMANDS
                    then deny (''Blocked xargs with dangerous/unanalyzable command: '' @ cmd_base)
                    else if cmd_base \<noteq> ''echo''
                    then deny (''Blocked xargs with unanalyzed command: '' @ cmd_base)
                    else Reeval tokens j)))"

fun xargs_scan :: "Token list \<Rightarrow> bool \<Rightarrow> Token list \<Rightarrow> nat \<Rightarrow> PrefixOutcome" where
  "xargs_scan tokens saw_replace [] j = xargs_finish tokens saw_replace [] j"
| "xargs_scan tokens saw_replace (t # ts) j =
     (let v = tvalue t
      in if v = ''--'' then xargs_scan tokens saw_replace ts (j + 1)
         else if v = ''-I'' \<or> v = ''-i'' \<or> v = ''--replace''
         then (case ts of
                 [] \<Rightarrow> deny ''xargs replacement option requires value''
               | u # ts' \<Rightarrow> (if has_bare_tilde u then deny tilde_reason
                              else xargs_scan tokens True ts' (j + 2)))
         else (case strip_prefix v ''--replace='' of
           Some rest \<Rightarrow>
             (if CHR ''~'' \<in> set rest then deny tilde_reason else xargs_scan tokens True ts (j + 1))
         | None \<Rightarrow>
             (if attached ''-I'' v \<or> attached ''-i'' v then xargs_scan tokens True ts (j + 1)
              else if v = ''-e'' \<or> v = ''--eof'' \<or> attached ''-e'' v \<or> starts_with v ''--eof=''
              then xargs_scan tokens saw_replace ts (j + 1)
              else if v \<in> set xargs_no_arg then xargs_scan tokens saw_replace ts (j + 1)
              else if v \<in> set xargs_value_opts
              then (case ts of
                      [] \<Rightarrow> deny ''xargs option requires value''
                    | u # ts' \<Rightarrow> (if has_bare_tilde u then deny tilde_reason
                                   else xargs_scan tokens saw_replace ts' (j + 2)))
              else if starts_with v ''--''
              then (case split_once (CHR ''='') v of
                      Some (_, val) \<Rightarrow>
                        (if CHR ''~'' \<in> set val then deny tilde_reason
                         else xargs_scan tokens saw_replace ts (j + 1))
                    | None \<Rightarrow> xargs_scan tokens saw_replace ts (j + 1))
              else if attached ''-'' v then deny ''Blocked unknown xargs option''
              else xargs_finish tokens saw_replace (t # ts) j)))"

definition parse_xargs :: "Token list \<Rightarrow> nat \<Rightarrow> PrefixOutcome" where
  "parse_xargs tokens i = xargs_scan tokens False (drop (i + 1) tokens) (i + 1)"

section \<open>Dispatch\<close>

definition SHELLS :: "string list" where
  "SHELLS = [''bash'', ''sh'', ''dash'', ''zsh'', ''ksh'', ''csh'', ''tcsh'', ''fish'']"

definition skip_prefix :: "bool \<Rightarrow> Token list \<Rightarrow> nat \<Rightarrow> PrefixOutcome" where
  "skip_prefix win tokens i =
     (if length tokens \<le> i then Continue i
      else let base = get_base_name (tvalue (tokens ! i))
      in if base = ''nohup'' \<or> base = ''setsid'' then Continue (i + 1)
         else if base = ''nice'' then parse_nice tokens i
         else if base = ''time'' then parse_time tokens i
         else if base = ''env'' then parse_env win tokens i
         else if base = ''timeout'' then parse_timeout tokens i
         else if base = ''stdbuf'' then parse_stdbuf tokens i
         else if base = ''command'' then parse_command_prefix tokens i
         else if base = ''builtin'' then parse_builtin tokens i
         else if base = ''sudo'' \<or> base = ''doas'' then parse_sudo_doas tokens i base
         else if base \<in> set SHELLS then parse_interpreter win tokens i ''-c''
         else if base = ''cmd'' then parse_cmd win tokens i
         else if base = ''wsl'' then parse_wsl win tokens i
         else if base = ''busybox'' then parse_busybox tokens i
         else if base = ''xargs'' then parse_xargs tokens i
         else Continue i)"

section \<open>The contract of the parsers\<close>

text \<open>The weight of what is left to evaluate from index \<open>i\<close> on.\<close>

definition weight_from :: "Token list \<Rightarrow> nat \<Rightarrow> nat" where
  "weight_from ts i = tok_weight (drop i ts)"

text \<open>
  Every prefix parser moves forward: it either decides, or continues strictly behind the
  wrapper and within the tokens, or hands the evaluator strictly less to do.
\<close>

locale prefix_parser =
  fixes parse :: "Token list \<Rightarrow> nat \<Rightarrow> PrefixOutcome"
  assumes advances: "i < length ts \<Longrightarrow> parse ts i = Continue j \<Longrightarrow> i < j \<and> j \<le> length ts"
    and shrinks: "i < length ts \<Longrightarrow> parse ts i = Reeval us k \<Longrightarrow> weight_from us k < weight_from ts i"
begin

lemma forward:
  assumes "i < length ts"
  shows "(case parse ts i of
      Stop _ \<Rightarrow> True
    | Continue j \<Rightarrow> i < j \<and> j \<le> length ts
    | Reeval us k \<Rightarrow> weight_from us k < weight_from ts i)"
  using advances [OF assms] shrinks [OF assms] by (simp split: PrefixOutcome.split)

end

text \<open>The same for a loop that is at index \<open>j\<close> with the tokens \<open>ts\<close> left.\<close>

definition within :: "Token list \<Rightarrow> nat \<Rightarrow> PrefixOutcome \<Rightarrow> bool" where
  "within ts j r =
     (case r of
        Stop _ \<Rightarrow> True
      | Continue k \<Rightarrow> j \<le> k \<and> k \<le> j + length ts
      | Reeval us k \<Rightarrow> weight_from us k \<le> tok_weight ts)"

lemma within_simps [simp]:
  "within ts j (Stop d)"
  "within ts j (Continue k) \<longleftrightarrow> j \<le> k \<and> k \<le> j + length ts"
  "within ts j (Reeval us k) \<longleftrightarrow> weight_from us k \<le> tok_weight ts"
  by (simp_all add: within_def)

lemma within_Cons [intro]: "within ts (Suc j) r \<Longrightarrow> within (t # ts) j r"
  by (auto simp: within_def split: PrefixOutcome.splits)

lemma within_Cons2 [intro]: "within ts (Suc (Suc j)) r \<Longrightarrow> within (t # u # ts) j r"
  by (auto simp: within_def split: PrefixOutcome.splits)

lemma drop_Cons_next: "t # ts = drop j tokens \<Longrightarrow> ts = drop (Suc j) tokens"
  by (metis drop_Suc list.sel(3) tl_drop)

lemma weight_tail: "i < length (ts :: Token list) \<Longrightarrow> tok_weight (drop (Suc i) ts) < weight_from ts i"
  by (simp add: weight_from_def Cons_nth_drop_Suc [symmetric])

lemma within_parser:
  assumes "\<And>i ts. i < length (ts :: Token list) \<Longrightarrow> within (drop (Suc i) ts) (Suc i) (parse ts i)"
  shows "prefix_parser parse"
proof
  fix i and ts :: "Token list" and j
  assume i: "i < length ts"
  show "i < j \<and> j \<le> length ts" if "parse ts i = Continue j"
    using assms [OF i] that i by auto
  show "weight_from us k < weight_from ts i" if "parse ts i = Reeval us k" for us k
    using assms [OF i] that weight_tail [OF i] by simp
qed

lemma re_evaluate_within:
  "length v \<le> n \<Longrightarrow> Suc n \<le> tok_weight ts \<Longrightarrow> within ts j (re_evaluate win v)"
  using tokenize_weight [of win v]
  by (fastforce simp: re_evaluate_def weight_from_def split: sum.splits)

lemma env_split_resume_within:
  "Suc (length v) + tok_weight remaining \<le> tok_weight ts \<Longrightarrow>
     within ts j (env_split_resume win v remaining)"
  using tokenize_weight [of win v]
  by (fastforce simp: env_split_resume_def weight_from_def split: sum.splits)

text \<open>
  One induction serves every loop: a step either stops or goes on behind one or two tokens.
  \<open>Q\<close> says what the loop knows about its position.
\<close>

lemma scan_induct [consumes 1, case_names pos empty step]:
  assumes "Q ts j"
    and pos: "\<And>t ts j. Q (t # ts) j \<Longrightarrow> Q ts (Suc j)"
    and empty: "\<And>j. Q [] j \<Longrightarrow> within [] j (scan [] j)"
    and step: "\<And>t ts j. Q (t # ts) j \<Longrightarrow> within (t # ts) j (scan ts (j + 1)) \<Longrightarrow>
      (\<And>u us. ts = u # us \<Longrightarrow> within (t # ts) j (scan us (j + 2))) \<Longrightarrow>
      within (t # ts) j (scan (t # ts) j)"
  shows "within ts j (scan ts j)"
  using assms(1)
proof (induction ts arbitrary: j rule: length_induct)
  case (1 ts)
  show ?case
  proof (cases ts)
    case Nil
    with "1.prems" show ?thesis by (simp add: empty)
  next
    case (Cons t us)
    have one: "within (t # us) j (scan us (j + 1))"
      using "1.IH" "1.prems" Cons pos by auto
    have two: "within (t # us) j (scan vs (j + 2))" if "us = u # vs" for u vs
      using "1.IH" "1.prems" Cons pos [of t us j] pos [of u vs "Suc j"] that by auto
    from step [OF _ one two] "1.prems" Cons show ?thesis by simp
  qed
qed

lemma within_if: "within ts j a \<Longrightarrow> within ts j b \<Longrightarrow> within ts j (if c then a else b)"
  by simp

lemma within_list:
  "(us = [] \<Longrightarrow> within ts j a) \<Longrightarrow> (\<And>v vs. us = v # vs \<Longrightarrow> within ts j (f v vs)) \<Longrightarrow>
     within ts j (case us of [] \<Rightarrow> a | v # vs \<Rightarrow> f v vs)"
  by (simp split: list.split)

lemma within_option:
  "(x = None \<Longrightarrow> within ts j a) \<Longrightarrow> (\<And>v. x = Some v \<Longrightarrow> within ts j (f v)) \<Longrightarrow>
     within ts j (case x of None \<Rightarrow> a | Some v \<Rightarrow> f v)"
  by (simp split: option.split)

lemmas within_intros = within_if within_list within_option

lemma nice_scan_within: "within ts j (nice_scan ts j)"
proof (rule scan_induct [of "\<lambda>_ _. True" _ _ nice_scan])
  fix t ts j
  assume "within (t # ts) j (nice_scan ts (j + 1))"
    and "\<And>u us. ts = u # us \<Longrightarrow> within (t # ts) j (nice_scan us (j + 2))"
  then show "within (t # ts) j (nice_scan (t # ts) j)"
    unfolding nice_scan.simps Let_def by (intro within_intros) (assumption | simp)+
qed simp_all

lemma time_scan_within: "within ts j (time_scan ts j)"
proof (rule scan_induct [of "\<lambda>_ _. True" _ _ time_scan])
  fix t ts j
  assume "within (t # ts) j (time_scan ts (j + 1))"
    and "\<And>u us. ts = u # us \<Longrightarrow> within (t # ts) j (time_scan us (j + 2))"
  then show "within (t # ts) j (time_scan (t # ts) j)"
    unfolding time_scan.simps Let_def by (intro within_intros) (assumption | simp)+
qed simp_all

lemma command_scan_within: "within ts j (command_scan ts j)"
proof (rule scan_induct [of "\<lambda>_ _. True" _ _ command_scan])
  fix t ts j
  assume "within (t # ts) j (command_scan ts (j + 1))"
  then show "within (t # ts) j (command_scan (t # ts) j)"
    unfolding command_scan.simps Let_def by (intro within_intros) (assumption | simp)+
qed simp_all

lemma timeout_finish_within: "within ts j (timeout_finish ts j)"
  by (induction ts j rule: timeout_finish.induct) auto

lemma timeout_scan_within: "within ts j (timeout_scan ts j)"
proof (rule scan_induct [of "\<lambda>_ _. True" _ _ timeout_scan])
  fix t ts j
  assume "within (t # ts) j (timeout_scan ts (j + 1))"
    and "\<And>u us. ts = u # us \<Longrightarrow> within (t # ts) j (timeout_scan us (j + 2))"
  moreover have "within (t # ts) j (timeout_finish ts (j + 1))"
    using timeout_finish_within [of ts "j + 1"] by auto
  ultimately show "within (t # ts) j (timeout_scan (t # ts) j)"
    using timeout_finish_within [of "t # ts" j]
    unfolding timeout_scan.simps Let_def by (intro within_intros) (assumption | simp)+
qed simp_all

lemma stdbuf_scan_within: "within ts j (stdbuf_scan ts j)"
proof (rule scan_induct [of "\<lambda>_ _. True" _ _ stdbuf_scan])
  fix t ts j
  assume "within (t # ts) j (stdbuf_scan ts (j + 1))"
    and "\<And>u us. ts = u # us \<Longrightarrow> within (t # ts) j (stdbuf_scan us (j + 2))"
  then show "within (t # ts) j (stdbuf_scan (t # ts) j)"
    unfolding stdbuf_scan.simps Let_def by (intro within_intros) (assumption | simp)+
qed simp_all

lemma sudo_scan_within: "within ts j (sudo_scan tokens i kind ts j)"
proof (rule scan_induct [of "\<lambda>_ _. True" _ _ "sudo_scan tokens i kind"])
  fix t ts j
  assume "within (t # ts) j (sudo_scan tokens i kind ts (j + 1))"
    and "\<And>u us. ts = u # us \<Longrightarrow> within (t # ts) j (sudo_scan tokens i kind us (j + 2))"
  then show "within (t # ts) j (sudo_scan tokens i kind (t # ts) j)"
    unfolding sudo_scan.simps Let_def by (intro within_intros) (assumption | simp)+
qed (simp_all add: sudo_no_command_def)

lemma get_env_split_within:
  assumes "get_env_split_string_arg win t ts = Some r"
  shows "within (t # ts) j r"
proof -
  have next_word: "within (t # u # us) j (env_split_resume win (tvalue u) us)" for u us
    by (rule env_split_resume_within) simp
  have same_word: "within (t # ts) j (env_split_resume win v ts)"
    if "length v \<le> length (tvalue t)" for v
    using that by (intro env_split_resume_within) simp
  show ?thesis
  proof (cases "strip_prefix (tvalue t) ''--split-string=''")
    case None
    with assms next_word same_word [of "drop 2 (tvalue t)"] show ?thesis
      unfolding get_env_split_string_arg_def Let_def by (simp split: if_splits list.splits) force+
  next
    case (Some rest)
    then have "length rest \<le> length (tvalue t)" by (simp add: strip_prefix_Some)
    with assms next_word same_word [of rest] Some show ?thesis
      unfolding get_env_split_string_arg_def Let_def by (simp split: if_splits list.splits) force+
  qed
qed

lemma env_scan_within: "within ts j (env_arg_scan win ts j)"
proof (rule scan_induct [of "\<lambda>_ _. True" _ _ "env_arg_scan win"])
  fix t ts j
  assume "within (t # ts) j (env_arg_scan win ts (j + 1))"
    and "\<And>u us. ts = u # us \<Longrightarrow> within (t # ts) j (env_arg_scan win us (j + 2))"
  then show "within (t # ts) j (env_arg_scan win (t # ts) j)"
    unfolding env_arg_scan.simps Let_def
    by (intro within_intros) (assumption | erule get_env_split_within | simp)+
qed simp_all

definition at_pos :: "Token list \<Rightarrow> Token list \<Rightarrow> nat \<Rightarrow> bool" where
  "at_pos tokens ts j \<longleftrightarrow> ts = drop j tokens"

lemma at_pos_next: "at_pos tokens (t # ts) j \<Longrightarrow> at_pos tokens ts (Suc j)"
  unfolding at_pos_def by (rule drop_Cons_next)

lemma re_evaluate_next: "within (t # u # us) j (re_evaluate win (tvalue u))"
  by (rule re_evaluate_within [OF order_refl]) simp

lemma re_evaluate_here: "within (t # us) j (re_evaluate win (tvalue t))"
  by (rule re_evaluate_within [OF order_refl]) simp

lemma weight_at_pos: "at_pos tokens ts j \<Longrightarrow> weight_from tokens j = tok_weight ts"
  by (simp add: at_pos_def weight_from_def)

lemma reeval_next: "at_pos tokens (t # ts) j \<Longrightarrow> within (t # ts) j (Reeval tokens (j + 1))"
  using at_pos_next [THEN weight_at_pos, of tokens t ts j] by simp

lemma reeval_here: "at_pos tokens ts j \<Longrightarrow> within ts j (Reeval tokens j)"
  by (simp add: weight_at_pos)

lemma interpreter_scan_within:
  "at_pos tokens ts j \<Longrightarrow> within ts j (interpreter_scan win tokens flag ts j)"
proof (rule scan_induct [of "at_pos tokens" _ _ "interpreter_scan win tokens flag"])
  fix t ts j
  assume "at_pos tokens (t # ts) j" and "within (t # ts) j (interpreter_scan win tokens flag ts (j + 1))"
  then show "within (t # ts) j (interpreter_scan win tokens flag (t # ts) j)"
    unfolding interpreter_scan.simps Let_def
    by (intro within_intros) (assumption | erule reeval_next | simp add: re_evaluate_next)+
qed (simp_all add: at_pos_next)

lemma cmd_tail_within:
  assumes "ts \<noteq> []"
  shows "within ts j (cmd_tail win ts)"
proof -
  let ?s = "join_with '' '' (map tvalue ts)"
  have len: "Suc (length ?s) = tok_weight ts"
    using assms by (simp add: length_join_with tok_weight_def o_def sum_list_Suc)
  have "weight_from inner k \<le> tok_weight ts" if "tokenize win ?s = Inr inner" for inner k
  proof -
    have "tok_weight (take k inner @ drop k inner) \<le> tok_weight ts"
      using tokenize_weight [OF that] len by (simp del: tok_weight_simps)
    then show ?thesis by (simp add: weight_from_def del: append_take_drop_id)
  qed
  then show ?thesis by (auto simp: cmd_tail_def split: sum.split option.split)
qed

lemma cmd_scan_within: "within ts j (cmd_scan win ts j)"
proof (rule scan_induct [of "\<lambda>_ _. True" _ _ "cmd_scan win"])
  fix t ts j
  assume "within (t # ts) j (cmd_scan win ts (j + 1))"
  moreover have "within (t # ts) j (if ts = [] then deny r else cmd_tail win ts)" for r
    using cmd_tail_within [of ts "Suc j" win] by (cases "ts = []") auto
  ultimately show "within (t # ts) j (cmd_scan win (t # ts) j)"
    unfolding cmd_scan.simps Let_def by (simp del: if_split)
qed simp_all

lemma wsl_scan_within: "at_pos tokens ts j \<Longrightarrow> within ts j (wsl_scan win tokens ts j)"
proof (rule scan_induct [of "at_pos tokens" _ _ "wsl_scan win tokens"])
  fix t ts j
  assume "at_pos tokens (t # ts) j" and "within (t # ts) j (wsl_scan win tokens ts (j + 1))"
    and "\<And>u us. ts = u # us \<Longrightarrow> within (t # ts) j (wsl_scan win tokens us (j + 2))"
  then show "within (t # ts) j (wsl_scan win tokens (t # ts) j)"
    unfolding wsl_scan.simps Let_def
    by (intro within_intros)
      (assumption | erule reeval_next | erule reeval_here
        | simp add: re_evaluate_next re_evaluate_here)+
qed (simp_all add: at_pos_next)

lemma busybox_scan_within: "at_pos tokens ts j \<Longrightarrow> within ts j (busybox_scan tokens ts j)"
proof (rule scan_induct [of "at_pos tokens" _ _ "busybox_scan tokens"])
  fix t ts j
  assume "at_pos tokens (t # ts) j" and "within (t # ts) j (busybox_scan tokens ts (j + 1))"
  then show "within (t # ts) j (busybox_scan tokens (t # ts) j)"
    unfolding busybox_scan.simps by (intro within_intros) (assumption | erule reeval_here)+
qed (simp_all add: at_pos_next)

lemma xargs_finish_within: "at_pos tokens ts j \<Longrightarrow> within ts j (xargs_finish tokens r ts j)"
  unfolding xargs_finish_def Let_def
  by (intro within_intros) (assumption | erule reeval_here | simp)+

lemma within_split_once:
  "within ts j a \<Longrightarrow> (\<And>v. within ts j (f v)) \<Longrightarrow>
     within ts j (case x of None \<Rightarrow> a | Some (_, v) \<Rightarrow> f v)"
  by (simp split: option.split)

lemma xargs_scan_within:
  "at_pos tokens ts j \<Longrightarrow> within ts j (xargs_scan tokens r ts j)"
proof (induction ts arbitrary: j r rule: length_induct)
  case (1 ts)
  show ?case
  proof (cases ts)
    case Nil
    with xargs_finish_within [OF "1.prems"] show ?thesis by simp
  next
    case (Cons t us)
    with "1.prems" have here: "at_pos tokens (t # us) j" by simp
    have one: "within (t # us) j (xargs_scan tokens r' us (j + 1))" for r'
      using "1.IH" Cons at_pos_next [OF here] by auto
    have two: "within (t # us) j (xargs_scan tokens r' vs (j + 2))" if "us = u # vs" for r' u vs
      using "1.IH" Cons that at_pos_next [OF here] at_pos_next [of tokens u vs "Suc j"] by auto
    show ?thesis
      unfolding Cons xargs_scan.simps Let_def
      by (intro within_intros within_split_once)
        (assumption | rule one two xargs_finish_within here | simp)+
  qed
qed

section \<open>The parsers keep the contract\<close>

interpretation nice_p: prefix_parser parse_nice
  by (rule within_parser) (simp add: parse_nice_def nice_scan_within)

interpretation time_p: prefix_parser parse_time
  by (rule within_parser) (simp add: parse_time_def time_scan_within)

interpretation command_p: prefix_parser parse_command_prefix
  by (rule within_parser) (simp add: parse_command_prefix_def command_scan_within)

interpretation builtin_p: prefix_parser parse_builtin
  by (rule within_parser) (auto simp: parse_builtin_def)

interpretation env_p: prefix_parser "parse_env win" for win
  by (rule within_parser) (simp add: parse_env_def env_scan_within)

interpretation timeout_p: prefix_parser parse_timeout
  by (rule within_parser) (simp add: parse_timeout_def timeout_scan_within)

interpretation stdbuf_p: prefix_parser parse_stdbuf
  by (rule within_parser) (simp add: parse_stdbuf_def stdbuf_scan_within)

interpretation sudo_p: prefix_parser "\<lambda>ts i. parse_sudo_doas ts i kind" for kind
  by (rule within_parser) (simp add: parse_sudo_doas_def sudo_scan_within)

interpretation interpreter_p: prefix_parser "\<lambda>ts i. parse_interpreter win ts i flag" for win flag
  by (rule within_parser) (simp add: parse_interpreter_def interpreter_scan_within at_pos_def)

interpretation cmd_p: prefix_parser "parse_cmd win" for win
  by (rule within_parser) (simp add: parse_cmd_def cmd_scan_within)

interpretation wsl_p: prefix_parser "parse_wsl win" for win
  by (rule within_parser) (simp add: parse_wsl_def wsl_scan_within at_pos_def)

interpretation busybox_p: prefix_parser parse_busybox
  by (rule within_parser) (simp add: parse_busybox_def busybox_scan_within at_pos_def)

interpretation xargs_p: prefix_parser parse_xargs
  by (rule within_parser) (simp add: parse_xargs_def xargs_scan_within at_pos_def)

lemmas parsers_advance =
  nice_p.advances time_p.advances command_p.advances builtin_p.advances env_p.advances
  timeout_p.advances stdbuf_p.advances sudo_p.advances interpreter_p.advances cmd_p.advances
  wsl_p.advances busybox_p.advances xargs_p.advances

lemmas parsers_shrink =
  nice_p.shrinks time_p.shrinks command_p.shrinks builtin_p.shrinks env_p.shrinks
  timeout_p.shrinks stdbuf_p.shrinks sudo_p.shrinks interpreter_p.shrinks cmd_p.shrinks
  wsl_p.shrinks busybox_p.shrinks xargs_p.shrinks

text \<open>The dispatcher: no prefix at all is \<open>Continue i\<close>, everything else moves forward.\<close>

lemma skip_prefix_Continue:
  assumes "skip_prefix win ts i = Continue j" and "j \<noteq> i"
  shows "i < j \<and> j \<le> length ts"
proof -
  have i: "i < length ts"
    using assms by (cases "i < length ts") (simp_all add: skip_prefix_def)
  show ?thesis
  proof (rule ccontr)
    assume no: "\<not> ?thesis"
    with assms i show False
      unfolding skip_prefix_def Let_def
      by (auto simp: Suc_le_eq dest!: parsers_advance [OF i] simp del: One_nat_def
          split: if_split_asm)
  qed
qed

lemma skip_prefix_Reeval:
  assumes "skip_prefix win ts i = Reeval us k"
  shows "i < length ts \<and> weight_from us k < weight_from ts i"
proof -
  from assms have "i < length ts"
    by (cases "i < length ts") (simp_all add: skip_prefix_def)
  then show ?thesis
    using assms unfolding skip_prefix_def Let_def
    by (auto dest!: parsers_shrink [OF \<open>i < length ts\<close>] split: if_split_asm)
qed

end
