(* ===== verification/Json.thy ===== *)
theory Json
  imports Rust_Prelude
begin

text \<open>
  The values of \<^verbatim>\<open>serde_json\<close> as far as the sources look at them: objects keep their first
  entry for a key, \<^verbatim>\<open>get\<close> on anything but an object is nothing, \<^verbatim>\<open>as_str\<close> on anything but
  a string is nothing.
\<close>

datatype json =
    JNull
  | JBool bool
  | JNumber string
  | JString string
  | JArray "json list"
  | JObject "(string \<times> json) list"

fun json_get :: "string \<Rightarrow> json \<Rightarrow> json option" where
  "json_get k (JObject kvs) = map_of kvs k"
| "json_get k _ = None"

fun json_as_str :: "json \<Rightarrow> string option" where
  "json_as_str (JString s) = Some s"
| "json_as_str _ = None"

end
