(* ===== verification/Guard_Eval.thy ===== *)
theory Guard_Eval
  imports Guard_Git Guard_Paths Guard_Prefix Json
begin

text \<open>
  The evaluator of the shell guard (\<^verbatim>\<open>safe_shell_guard.rs\<close>): \<^verbatim>\<open>evaluate_tokens\<close> with its
  two loops, the per-command checks behind them, \<^verbatim>\<open>evaluate\<close>, the payload parser and
  \<^verbatim>\<open>main\<close>. The recursion of the source (an interpreter's \<^verbatim>\<open>-c\<close> string is lexed and
  evaluated again) terminates because each round starts on strictly less text; the
  weight is the one of the lexer and the contract \<open>prefix_parser\<close> provides the decrease.
\<close>

section \<open>Definitions\<close>

text \<open>The leading assignments: the decision of an unsafe one, or the index behind them.\<close>

fun assign_scan :: "Token list \<Rightarrow> nat \<Rightarrow> Decision + nat" where
  "assign_scan [] i = Inr i"
| "assign_scan (t # ts) i =
     (if is_assignment t
      then (case has_unsafe_env_assignment t of
              Some key \<Rightarrow> Inl (Deny (''Blocked unsafe environment assignment: '' @ key))
            | None \<Rightarrow> assign_scan ts (i + 1))
      else Inr i)"

text \<open>
  The loop over chained prefixes: \<open>Continue i\<close> is the break at the command word,
  \<open>Reeval\<close> the nested call.
\<close>

function prefix_loop :: "bool \<Rightarrow> Token list \<Rightarrow> nat \<Rightarrow> PrefixOutcome" where
  "prefix_loop win tokens i =
     (case skip_prefix win tokens i of
        Stop decision \<Rightarrow> Stop decision
      | Reeval us k \<Rightarrow> Reeval us k
      | Continue idx \<Rightarrow>
          (if idx = i then Continue i
           else if length tokens \<le> idx then Stop Allow
           else prefix_loop win tokens idx))"
  by auto
termination
  by (relation "measure (\<lambda>(win, tokens, i). length tokens - i)")
    (auto dest: skip_prefix_Continue intro!: diff_less_mono2)

declare prefix_loop.simps [simp del]

definition is_fork_bomb :: "string \<Rightarrow> bool" where
  "is_fork_bomb cmd = contains_str (filter (\<lambda>c. \<not> is_whitespace c) cmd) '':(){:|:&};''"

definition exec_or_script_ext :: "string \<Rightarrow> string option" where
  "exec_or_script_ext cmd =
     (case win_exec_ext cmd of
        Some ext \<Rightarrow> (if ext \<in> set SCRIPT_EXTS then Some ext else script_ext cmd)
      | None \<Rightarrow> script_ext cmd)"

text \<open>The checks on the command word at index \<open>i\<close> and its arguments.\<close>

definition check_command :: "host \<Rightarrow> Token list \<Rightarrow> nat \<Rightarrow> Decision" where
  "check_command h tokens i =
     (let cmd = tvalue (tokens ! i);
          base = get_base_name cmd
      in if base = ''git'' then check_git (is_windows (h_env h)) tokens i
         else if is_project_hook_command cmd then check_project_hook h cmd
         else if base = ''source'' \<or> base = ''.'' then check_source h tokens i
         else if base \<noteq> ''rm'' \<and> base \<noteq> ''cd'' \<and> list_ex has_bare_tilde (drop i tokens)
         then Deny ''Blocked tilde expansion outside quotes''
         else if is_fork_bomb cmd then Deny ''Blocked fork bomb''
         else if base \<in> set UNANALYZABLE_COMMANDS
         then Deny (''Blocked unanalyzable command: '' @ base)
         else if base \<in> set DANGEROUS_COMMANDS
         then Deny (''Blocked potentially destructive command: '' @ base)
         else if exec_or_script_ext cmd \<noteq> None
         then Deny (''Blocked unanalyzable script file: '' @ cmd)
         else if base = ''dd'' then check_dd tokens i
         else if base = ''rm'' then check_rm (h_env h) tokens i
         else if base = ''find'' then check_find tokens i
         else if base = ''del'' \<or> base = ''erase'' then check_del tokens i
         else if base = ''rd'' \<or> base = ''rmdir'' then check_rd tokens i
         else if base = ''systemctl'' then check_systemctl tokens i
         else (case check_export_like tokens i base of
                 Some decision \<Rightarrow> decision
               | None \<Rightarrow> Allow))"

text \<open>One round: the assignments, the prefixes, and either a decision or the nested call.\<close>

definition eval_round :: "host \<Rightarrow> Token list \<Rightarrow> nat \<Rightarrow> Decision + (Token list \<times> nat)" where
  "eval_round h tokens start =
     (if length tokens \<le> start then Inl (Deny ''Empty command'')
      else (case assign_scan (drop start tokens) start of
              Inl decision \<Rightarrow> Inl decision
            | Inr i \<Rightarrow>
                (if length tokens \<le> i then Inl Allow
                 else (case prefix_loop (is_windows (h_env h)) tokens i of
                         Stop decision \<Rightarrow> Inl decision
                       | Reeval us k \<Rightarrow> Inr (us, k)
                       | Continue j \<Rightarrow>
                           Inl (if length tokens \<le> j then Allow
                                else check_command h tokens j)))))"

lemma assign_scan_Inr:
  "assign_scan ts i = Inr j \<Longrightarrow>
     i \<le> j \<and> j \<le> i + length ts \<and> list_all is_assignment (take (j - i) ts)"
proof (induction ts i arbitrary: j rule: assign_scan.induct)
  case (2 t ts i)
  then have *: "i + 1 \<le> j \<and> j \<le> i + 1 + length ts \<and> list_all is_assignment (take (j - (i + 1)) ts)"
    if "is_assignment t"
    using that by (auto split: option.splits)
  show ?case
  proof (cases "is_assignment t")
    case True
    with * have "take (j - i) (t # ts) = t # take (j - (i + 1)) ts"
      by (auto simp: take_Cons')
    with * True show ?thesis by auto
  qed (use "2.prems" in simp)
qed simp

lemma weight_from_antimono: "i \<le> j \<Longrightarrow> weight_from ts j \<le> weight_from ts i"
proof -
  assume "i \<le> j"
  then have "drop i ts = take (j - i) (drop i ts) @ drop j ts"
    by (metis append_take_drop_id drop_drop le_add_diff_inverse2)
  then show ?thesis unfolding weight_from_def by (metis le_add2 tok_weight_simps(3))
qed

lemma prefix_loop_Reeval:
  "prefix_loop win ts i = Reeval us k \<Longrightarrow> weight_from us k < weight_from ts i"
proof (induction win ts i rule: prefix_loop.induct)
  case (1 win ts i)
  show ?case
  proof (cases "skip_prefix win ts i")
    case (Continue j)
    with "1.prems" have j: "j \<noteq> i" "\<not> length ts \<le> j" "prefix_loop win ts j = Reeval us k"
      by (auto simp: prefix_loop.simps [of win ts i] split: if_splits)
    from j have "i < j" using skip_prefix_Continue [OF Continue] by blast
    with "1.IH" Continue j weight_from_antimono [of i j ts] show ?thesis by fastforce
  qed (use "1.prems" in \<open>auto simp: prefix_loop.simps [of win ts i] dest: skip_prefix_Reeval\<close>)
qed

lemma eval_round_shrinks:
  assumes "eval_round h tokens start = Inr (us, k)"
  shows "weight_from us k < weight_from tokens start"
proof -
  from assms obtain i where i: "assign_scan (drop start tokens) start = Inr i"
    and loop: "prefix_loop (is_windows (h_env h)) tokens i = Reeval us k"
    unfolding eval_round_def by (auto split: if_splits sum.splits PrefixOutcome.splits)
  from assign_scan_Inr [OF i] weight_from_antimono have "weight_from tokens i \<le> weight_from tokens start"
    by blast
  with prefix_loop_Reeval [OF loop] show ?thesis by simp
qed

function evaluate_tokens :: "host \<Rightarrow> Token list \<Rightarrow> nat \<Rightarrow> Decision" where
  "evaluate_tokens h tokens start =
     (case eval_round h tokens start of
        Inl decision \<Rightarrow> decision
      | Inr (us, k) \<Rightarrow> evaluate_tokens h us k)"
  by auto
termination
  by (relation "measure (\<lambda>(h, tokens, start). weight_from tokens start)")
    (auto dest: eval_round_shrinks)

declare evaluate_tokens.simps [simp del]

definition evaluate :: "host \<Rightarrow> string \<Rightarrow> Decision" where
  "evaluate h command =
     (case tokenize (is_windows (h_env h)) command of
        Inr tokens \<Rightarrow> evaluate_tokens h tokens 0
      | Inl reason \<Rightarrow> Deny reason)"

text \<open>
  \<^verbatim>\<open>main\<close>: the payload on standard input is parsed by \<^verbatim>\<open>serde_json\<close> (the parameter
  \<open>from_str\<close>; \<open>None\<close> is its error), the printed decision and the exit code are returned.
\<close>

definition parse_command :: "(string \<Rightarrow> json option) \<Rightarrow> string \<Rightarrow> string res" where
  "parse_command from_str input =
     (case from_str input of
        None \<Rightarrow> Inl ''Invalid guard payload''
      | Some payload \<Rightarrow>
          (case Option.bind (json_get ''toolInput'' payload) (json_get ''command'') of
             Some (JString cmd) \<Rightarrow> Inr cmd
           | Some _ \<Rightarrow> Inl ''Command must be a string''
           | None \<Rightarrow> Inr []))"

definition guard_decision :: "(string \<Rightarrow> json option) \<Rightarrow> host \<Rightarrow> string option \<Rightarrow> Decision" where
  "guard_decision from_str h stdin =
     (case stdin of
        Some input \<Rightarrow>
          (case parse_command from_str input of
             Inr cmd \<Rightarrow> evaluate h cmd
           | Inl reason \<Rightarrow> Deny reason)
      | None \<Rightarrow> Deny ''Invalid guard payload'')"

definition guard_main :: "(string \<Rightarrow> json option) \<Rightarrow> host \<Rightarrow> string option \<Rightarrow> json \<times> nat" where
  "guard_main from_str h stdin =
     (case guard_decision from_str h stdin of
        Allow \<Rightarrow> (JObject [(''decision'', JString ''allow'')], 0)
      | Deny reason \<Rightarrow>
          (JObject [(''decision'', JString ''deny''), (''reason'', JString reason)], 2))"

section \<open>Specification\<close>

text \<open>The recursion cut off after \<open>n\<close> rounds.\<close>

fun eval_rounds :: "nat \<Rightarrow> host \<Rightarrow> Token list \<Rightarrow> nat \<Rightarrow> Decision option" where
  "eval_rounds 0 h tokens start = None"
| "eval_rounds (Suc n) h tokens start =
     (case eval_round h tokens start of
        Inl decision \<Rightarrow> Some decision
      | Inr (us, k) \<Rightarrow> eval_rounds n h us k)"

text \<open>
  What it means that the command at \<open>(us, k)\<close> runs under wrappers that start at \<open>(ts, i)\<close>:
  environment assignments, \<^verbatim>\<open>nohup\<close>, \<^verbatim>\<open>nice -n 5\<close>, \<^verbatim>\<open>timeout 10\<close>, \<^verbatim>\<open>sudo -u root\<close>,
  a shell with \<^verbatim>\<open>-c\<close> and so on, in any order and depth.
\<close>

definition word_at :: "Token list \<Rightarrow> nat \<Rightarrow> string \<Rightarrow> bool" where
  "word_at ts i v \<longleftrightarrow> i < length ts \<and> tvalue (ts ! i) = v"

definition base_at :: "Token list \<Rightarrow> nat \<Rightarrow> string \<Rightarrow> bool" where
  "base_at ts i b \<longleftrightarrow> i < length ts \<and> \<not> is_assignment (ts ! i) \<and> get_base_name (tvalue (ts ! i)) = b"

definition plain_at :: "Token list \<Rightarrow> nat \<Rightarrow> bool" where
  "plain_at ts i \<longleftrightarrow>
     i < length ts \<and> \<not> is_assignment (ts ! i) \<and> \<not> starts_with (tvalue (ts ! i)) ''-''"

inductive wrapped :: "bool \<Rightarrow> Token list \<Rightarrow> nat \<Rightarrow> Token list \<Rightarrow> nat \<Rightarrow> bool" for win where
  here: "wrapped win ts i ts i"
| assignment:
    "wrapped win ts i us k"
    if "Suc i < length ts" "is_assignment (ts ! i)" "has_unsafe_env_assignment (ts ! i) = None"
      "wrapped win ts (Suc i) us k"
| bare_wrapper:
    "wrapped win ts i us k"
    if "base_at ts i w"
      "w \<in> {''nohup'', ''setsid'', ''builtin'', ''nice'', ''time'', ''env'', ''stdbuf'', ''command'', ''sudo'', ''doas''}"
      "plain_at ts (i + 1)" "wrapped win ts (i + 1) us k"
| nice_n:
    "wrapped win ts i us k"
    if "base_at ts i ''nice''" "word_at ts (i + 1) ''-n''" "plain_at ts (i + 3)"
      "wrapped win ts (i + 3) us k"
| sudo_u:
    "wrapped win ts i us k"
    if "base_at ts i w" "w \<in> {''sudo'', ''doas''}" "word_at ts (i + 1) ''-u''" "plain_at ts (i + 3)"
      "wrapped win ts (i + 3) us k"
| timeout_d:
    "wrapped win ts i us k"
    if "base_at ts i ''timeout''" "plain_at ts (i + 1)" "plain_at ts (i + 2)"
      "wrapped win ts (i + 2) us k"
| shell_c:
    "wrapped win ts i us k"
    if "base_at ts i w" "w \<in> set SHELLS" "word_at ts (i + 1) ''-c''" "word_at ts (i + 2) s"
      "quoted (ts ! (i + 2)) \<noteq> None \<or> length ts = i + 3"
      "tokenize win s = Inr vs" "wrapped win vs 0 us k"
| busybox:
    "wrapped win ts i us k"
    if "base_at ts i ''busybox''" "plain_at ts (i + 1)" "wrapped win ts (i + 1) us k"

section \<open>Every command is decided\<close>

lemma eval_rounds_enough:
  "weight_from tokens start < n \<Longrightarrow> eval_rounds n h tokens start = Some (evaluate_tokens h tokens start)"
proof (induction n arbitrary: tokens start)
  case (Suc n)
  show ?case
  proof (cases "eval_round h tokens start")
    case (Inr r)
    obtain us k where r: "r = (us, k)" by (cases r)
    with Inr Suc.prems have "weight_from us k < n"
      using eval_round_shrinks [of h tokens start us k] by simp
    from Suc.IH [OF this] Inr r show ?thesis by (simp add: evaluate_tokens.simps [of h tokens])
  qed (simp add: evaluate_tokens.simps [of h tokens])
qed simp

text \<open>
  C20. The nesting of re-evaluations is bounded by the length of the command: cutting the
  recursion off two rounds above the length still gives the decision of \<^verbatim>\<open>evaluate\<close>.
\<close>

theorem evaluate_depth_bounded:
  assumes "tokenize (is_windows (h_env h)) command = Inr tokens"
  shows "eval_rounds (length command + 2) h tokens 0 = Some (evaluate h command)"
  using assms tokenize_weight [OF assms] eval_rounds_enough [of tokens 0 "length command + 2" h]
  by (simp add: evaluate_def weight_from_def)

section \<open>Wrappers hide nothing\<close>

lemma eval_at_command:
  assumes "i < length ts" and "\<not> is_assignment (ts ! i)"
  shows "evaluate_tokens h ts i =
    (case prefix_loop (is_windows (h_env h)) ts i of
       Stop d \<Rightarrow> d
     | Reeval us k \<Rightarrow> evaluate_tokens h us k
     | Continue j \<Rightarrow> if length ts \<le> j then Allow else check_command h ts j)"
proof -
  have "assign_scan (drop i ts) i = Inr i"
    using assms by (simp add: Cons_nth_drop_Suc [symmetric])
  with assms show ?thesis
    by (simp add: evaluate_tokens.simps [of h ts i] eval_round_def split: PrefixOutcome.split)
qed

lemma eval_continue:
  assumes "i < length ts" "\<not> is_assignment (ts ! i)" "j < length ts" "\<not> is_assignment (ts ! j)"
    and "skip_prefix (is_windows (h_env h)) ts i = Continue j"
  shows "evaluate_tokens h ts i = evaluate_tokens h ts j"
proof (cases "j = i")
  case False
  with assms show ?thesis
    by (simp add: eval_at_command prefix_loop.simps [of _ ts i])
qed simp

lemma eval_reeval:
  assumes "i < length ts" "\<not> is_assignment (ts ! i)"
    and "skip_prefix (is_windows (h_env h)) ts i = Reeval us k"
  shows "evaluate_tokens h ts i = evaluate_tokens h us k"
  using assms by (simp add: eval_at_command prefix_loop.simps [of _ ts i])

lemma eval_assignment:
  assumes "Suc i < length ts" "is_assignment (ts ! i)" "has_unsafe_env_assignment (ts ! i) = None"
  shows "evaluate_tokens h ts i = evaluate_tokens h ts (Suc i)"
proof -
  have "assign_scan (drop i ts) i = assign_scan (drop (Suc i) ts) (Suc i)"
    using assms by (simp add: Cons_nth_drop_Suc [of i ts, symmetric])
  with assms have "eval_round h ts i = eval_round h ts (Suc i)"
    by (simp add: eval_round_def)
  then show ?thesis by (simp add: evaluate_tokens.simps [of h ts i] evaluate_tokens.simps [of h ts "Suc i"])
qed

lemma drop_at: "i < length ts \<Longrightarrow> drop i ts = ts ! i # drop (Suc i) ts"
  by (simp add: Cons_nth_drop_Suc)

lemma dash_cases: "\<not> starts_with v ''-'' \<Longrightarrow> \<not> starts_with v (CHR ''-'' # p) \<and> v \<noteq> CHR ''-'' # p \<and> \<not> attached (CHR ''-'' # p) v"
  by (cases v) (auto simp: starts_with_iff attached_def)

lemma skip_bare_wrapper:
  assumes "base_at ts i w" "plain_at ts (i + 1)"
    and "w \<in> {''nohup'', ''setsid'', ''builtin'', ''nice'', ''time'', ''env'', ''stdbuf'', ''command'', ''sudo'', ''doas''}"
  shows "skip_prefix win ts i = Continue (i + 1)"
proof -
  from assms(2) have len: "Suc i < length ts" and noasg: "\<not> is_assignment (ts ! Suc i)"
    and dash: "\<not> starts_with (tvalue (ts ! Suc i)) ''-''"
    by (simp_all add: plain_at_def)
  have split: "get_env_split_string_arg win (ts ! Suc i) us = None" for us
    using dash by (cases "tvalue (ts ! Suc i)")
      (auto simp: get_env_split_string_arg_def attached_def starts_with_iff strip_prefix_None
        split: option.split)
  from assms(1,3) len noasg dash_cases [OF dash] split show ?thesis
    by (auto simp: base_at_def skip_prefix_def parse_builtin_def parse_nice_def parse_time_def
        parse_env_def parse_stdbuf_def parse_command_prefix_def parse_sudo_doas_def drop_at dash
        time_no_arg_def env_no_arg_def)
qed

lemma skip_nice_n:
  assumes "base_at ts i ''nice''" "word_at ts (i + 1) ''-n''" "plain_at ts (i + 3)"
  shows "skip_prefix win ts i = Continue (i + 3)"
proof -
  from assms(3) have len: "Suc (Suc (Suc i)) < length ts"
    and dash: "\<not> starts_with (tvalue (ts ! Suc (Suc (Suc i)))) ''-''"
    by (simp_all add: plain_at_def eval_nat_numeral)
  with assms(1,2) dash_cases [OF dash] show ?thesis
    by (simp add: base_at_def word_at_def skip_prefix_def parse_nice_def drop_at eval_nat_numeral)
qed

lemma skip_sudo_u:
  assumes "base_at ts i w" "w \<in> {''sudo'', ''doas''}" "word_at ts (i + 1) ''-u''" "plain_at ts (i + 3)"
  shows "skip_prefix win ts i = Continue (i + 3)"
proof -
  from assms(4) have len: "Suc (Suc (Suc i)) < length ts"
    and dash: "\<not> starts_with (tvalue (ts ! Suc (Suc (Suc i)))) ''-''"
    by (simp_all add: plain_at_def eval_nat_numeral)
  have u: "sudo_value_in_next ''-u''"
    by (simp add: sudo_value_in_next_def sudo_value_short_def starts_with_iff)
  from assms(1,2,3) len u dash_cases [OF dash] show ?thesis
    by (auto simp: base_at_def word_at_def skip_prefix_def parse_sudo_doas_def drop_at
        eval_nat_numeral attached_def starts_with_iff)
qed

lemma skip_timeout:
  assumes "base_at ts i ''timeout''" "plain_at ts (i + 1)" "plain_at ts (i + 2)"
  shows "skip_prefix win ts i = Continue (i + 2)"
proof -
  from assms(2,3) have len: "Suc (Suc i) < length ts"
    and dash: "\<not> starts_with (tvalue (ts ! Suc i)) ''-''"
    by (simp_all add: plain_at_def eval_nat_numeral)
  with assms(1) dash_cases [OF dash] show ?thesis
    by (simp add: base_at_def skip_prefix_def parse_timeout_def drop_at timeout_no_arg_def)
qed

lemma skip_shell_c:
  assumes "base_at ts i w" "w \<in> set SHELLS" "word_at ts (i + 1) ''-c''" "word_at ts (i + 2) s"
    and "quoted (ts ! (i + 2)) \<noteq> None \<or> length ts = i + 3" and "tokenize win s = Inr vs"
  shows "skip_prefix win ts i = Reeval vs 0"
proof -
  from assms(1,2) have "skip_prefix win ts i = parse_interpreter win ts i ''-c''"
    by (auto simp: base_at_def skip_prefix_def SHELLS_def)
  moreover from assms(3-6) have "parse_interpreter win ts i ''-c'' = re_evaluate win s"
    by (auto simp: parse_interpreter_def word_at_def drop_at eval_nat_numeral)
  ultimately show ?thesis using assms(6) by (simp add: re_evaluate_def)
qed

lemma skip_busybox:
  assumes "base_at ts i ''busybox''" "plain_at ts (i + 1)"
  shows "skip_prefix win ts i = Reeval ts (i + 1)"
  using assms
  by (simp add: base_at_def plain_at_def skip_prefix_def SHELLS_def parse_busybox_def drop_at)

lemma eval_wrapped:
  "wrapped (is_windows (h_env h)) ts i us k \<Longrightarrow> evaluate_tokens h ts i = evaluate_tokens h us k"
proof (induction rule: wrapped.induct)
  case (assignment i ts us k)
  then show ?case by (simp add: eval_assignment)
next
  case (bare_wrapper ts i w us k)
  from eval_continue [OF _ _ _ _ skip_bare_wrapper [OF bare_wrapper(1,3,2)]] bare_wrapper
  show ?case by (simp add: base_at_def plain_at_def)
next
  case (nice_n ts i us k)
  from eval_continue [OF _ _ _ _ skip_nice_n [OF nice_n(1-3)]] nice_n
  show ?case by (simp add: base_at_def plain_at_def)
next
  case (sudo_u ts i w us k)
  from eval_continue [OF _ _ _ _ skip_sudo_u [OF sudo_u(1-4)]] sudo_u
  show ?case by (simp add: base_at_def plain_at_def)
next
  case (timeout_d ts i us k)
  from eval_continue [OF _ _ _ _ skip_timeout [OF timeout_d(1-3)]] timeout_d
  show ?case by (simp add: base_at_def plain_at_def)
next
  case (shell_c ts i w s vs us k)
  from eval_reeval [OF _ _ skip_shell_c [OF shell_c(1-6)]] shell_c
  show ?case by (simp add: base_at_def)
next
  case (busybox ts i us k)
  from eval_reeval [OF _ _ skip_busybox [OF busybox(1,2)]] busybox
  show ?case by (simp add: base_at_def)
qed simp

text \<open>The names the dispatcher treats as prefixes.\<close>

definition prefix_names :: "string list" where
  "prefix_names =
     [''nohup'', ''setsid'', ''nice'', ''time'', ''env'', ''timeout'', ''stdbuf'', ''command'',
      ''builtin'', ''sudo'', ''doas'', ''cmd'', ''wsl'', ''busybox'', ''xargs''] @ SHELLS"

lemma eval_plain_command:
  assumes "base_at ts i b" and "b \<notin> set prefix_names"
  shows "evaluate_tokens h ts i = check_command h ts i"
proof -
  have "skip_prefix win ts i = Continue i" for win
    using assms by (simp add: base_at_def skip_prefix_def prefix_names_def)
  with assms show ?thesis
    by (simp add: base_at_def eval_at_command prefix_loop.simps [of _ ts i])
qed

lemma check_command_listed:
  assumes "b \<in> set DANGEROUS_COMMANDS \<union> set UNANALYZABLE_COMMANDS" "base_at ts i b"
    and "\<not> is_project_hook_command (tvalue (ts ! i))"
  shows "check_command h ts i \<noteq> Allow"
proof -
  have "b \<noteq> ''git'' \<and> b \<noteq> ''source'' \<and> b \<noteq> ''.''"
    using assms(1) unfolding DANGEROUS_COMMANDS_def UNANALYZABLE_COMMANDS_def by auto
  with assms show ?thesis by (auto simp: check_command_def base_at_def Let_def)
qed

text \<open>
  Wrappers are transparent: whatever stack of assignments, \<^verbatim>\<open>nohup\<close>, \<^verbatim>\<open>nice -n\<close>,
  \<^verbatim>\<open>sudo -u\<close>, \<^verbatim>\<open>timeout\<close>, \<^verbatim>\<open>busybox\<close> and \<^verbatim>\<open>sh -c '...'\<close> stands in front of a command
  that is not itself a wrapper, the decision is that of the checks on the inner command.
\<close>

theorem wrappers_transparent:
  assumes "wrapped (is_windows (h_env h)) ts i us k"
    and "base_at us k b" and "b \<notin> set prefix_names"
  shows "evaluate_tokens h ts i = check_command h us k"
  using eval_wrapped [OF assms(1)] eval_plain_command [OF assms(2,3)] by simp


text \<open>
  The guard fails closed: its exit code is 0 exactly when standard input was read, is
  JSON, holds a string at \<^verbatim>\<open>toolInput.command\<close> and the evaluator allows that string;
  otherwise it is 2. An absent command is evaluated as the empty text and denied.
\<close>

theorem guard_main_fails_closed:
  "(snd (guard_main from_str h stdin) = 0 \<longleftrightarrow>
     (\<exists>input payload tool_input cmd.
        stdin = Some input \<and> from_str input = Some payload
        \<and> json_get ''toolInput'' payload = Some tool_input
        \<and> json_get ''command'' tool_input = Some (JString cmd)
        \<and> evaluate h cmd = Allow))
   \<and> snd (guard_main from_str h stdin) \<in> {0, 2}"
proof -
  have empty: "evaluate h [] = Deny ''Empty command''"
    by (simp add: evaluate_def tokenize_def lex_finish_def lex_init_def flush_word_def
        evaluate_tokens.simps eval_round_def)
  have "snd (guard_main from_str h stdin) = 0 \<longleftrightarrow>
     (\<exists>input payload tool_input cmd.
        stdin = Some input \<and> from_str input = Some payload
        \<and> json_get ''toolInput'' payload = Some tool_input
        \<and> json_get ''command'' tool_input = Some (JString cmd)
        \<and> evaluate h cmd = Allow)"
    by (auto simp: guard_main_def guard_decision_def parse_command_def empty bind_eq_Some_conv
        split: option.splits Decision.splits json.splits bind_splits)
  moreover have "snd (guard_main from_str h stdin) \<in> {0, 2}"
    by (simp add: guard_main_def split: Decision.split)
  ultimately show ?thesis by simp
qed

text \<open>
  The lexer ends a word at a quote, so a quoted fragment inside a word becomes a token
  of its own: \<^verbatim>\<open>rm -rf /\<close> is denied, and the same command spelled \<^verbatim>\<open>r'm' -rf /\<close>, which a
  shell runs as \<^verbatim>\<open>rm\<close>, is judged as the command \<^verbatim>\<open>r\<close> and allowed.
\<close>

theorem quoted_fragment_hides_command:
  "evaluate demo_host ''rm -rf /'' = Deny ''Blocked rm -rf on a dangerous target''
   \<and> evaluate demo_host (''r'' @ [sq] @ ''m'' @ [sq] @ '' -rf /'') = Allow"
proof
  show "evaluate demo_host ''rm -rf /'' = Deny ''Blocked rm -rf on a dangerous target''"
    by code_simp
  show "evaluate demo_host (''r'' @ [sq] @ ''m'' @ [sq] @ '' -rf /'') = Allow"
    by code_simp
qed

section \<open>Witnesses\<close>

definition demo_command :: string where
  "demo_command = ''nohup nice -n 5 bash -c '' @ [sq] @ ''A=1 sudo -u root mkfs /dev/sda'' @ [sq]"

definition demo_outer :: "Token list" where
  "demo_outer =
     [word_token ''nohup'', word_token ''nice'', word_token ''-n'', word_token ''5'',
      word_token ''bash'', word_token ''-c'', quoted_token Single ''A=1 sudo -u root mkfs /dev/sda'']"

definition demo_inner :: "Token list" where
  "demo_inner =
     [word_token ''A=1'', word_token ''sudo'', word_token ''-u'', word_token ''root'',
      word_token ''mkfs'', word_token ''/dev/sda'']"

lemma demo_outer_lexed: "tokenize (is_windows (h_env demo_host)) demo_command = Inr demo_outer"
  by code_simp

lemma demo_inner_lexed: "tokenize False ''A=1 sudo -u root mkfs /dev/sda'' = Inr demo_inner"
  by code_simp

lemma demo_windows: "is_windows (h_env demo_host) = False"
  by code_simp

lemma demo_inner_wrapped: "wrapped False demo_inner 0 demo_inner 4"
proof -
  have "wrapped False demo_inner 1 demo_inner 4"
    by (rule wrapped.sudo_u [of _ _ "''sudo''"], code_simp, simp, code_simp, code_simp,
        simp add: wrapped.here)
  moreover have "Suc 0 < length demo_inner" "is_assignment (demo_inner ! 0)"
    "has_unsafe_env_assignment (demo_inner ! 0) = None"
    by code_simp+
  ultimately show ?thesis using wrapped.assignment [of 0 demo_inner False demo_inner 4] by simp
qed

lemma demo_outer_wrapped: "wrapped (is_windows (h_env demo_host)) demo_outer 0 demo_inner 4"
proof -
  have "wrapped False demo_outer 4 demo_inner 4"
    by (rule wrapped.shell_c [of _ _ "''bash''" "''A=1 sudo -u root mkfs /dev/sda''" _ demo_inner],
        code_simp, code_simp, code_simp, code_simp, code_simp, rule demo_inner_lexed,
        rule demo_inner_wrapped)
  then have next_one: "wrapped False demo_outer (1 + 3) demo_inner 4" by simp
  have "wrapped False demo_outer 1 demo_inner 4"
    by (rule wrapped.nice_n [OF _ _ _ next_one]) code_simp+
  then have next_two: "wrapped False demo_outer (0 + 1) demo_inner 4" by simp
  show ?thesis
    unfolding demo_windows
    by (rule wrapped.bare_wrapper [of _ _ "''nohup''", OF _ _ _ next_two], code_simp, simp, code_simp)
qed

lemma demo_base: "base_at demo_inner 4 ''mkfs''"
  by code_simp

theorem evaluate_depth_bounded_witness:
  "eval_rounds (length demo_command + 2) demo_host demo_outer 0 = Some (evaluate demo_host demo_command)"
  by (rule evaluate_depth_bounded [OF demo_outer_lexed])

theorem wrappers_transparent_witness:
  "evaluate_tokens demo_host demo_outer 0 = check_command demo_host demo_inner 4"
proof -
  have "''mkfs'' \<notin> set prefix_names" by code_simp
  from wrappers_transparent [OF demo_outer_wrapped demo_base this] show ?thesis .
qed


end
