(* ===== verification/Breaker_Window.thy ===== *)
theory Breaker_Window
  imports Rust_Prelude Complex_Main "HOL-Library.Word"
begin

text \<open>
  The sliding window of the circuit breaker (\<^verbatim>\<open>xai-circuit-breaker/src/window.rs\<close>): a deque
  of timestamped samples with a cached failure counter. An instant is the number of
  nanoseconds since the earliest instant the platform can represent, a duration a number
  of nanoseconds, so that \<^verbatim>\<open>checked_sub\<close> fails exactly when the difference is negative. The
  counter is a machine word: its subtractions wrap as in the source, and the invariant is
  what shows that they never do. The rate is the exact quotient; the source rounds it to
  \<^verbatim>\<open>f64\<close>.

  The contract \<open>sample_window\<close> states what the breaker relies on: the window holds the
  newest samples of the window duration, at most the cap, and the cached rate is the rate
  of those samples. The interpretation at the end discharges it for the code.
\<close>

section \<open>Definitions\<close>

definition MAX_WINDOW_ENTRIES :: nat where
  "MAX_WINDOW_ENTRIES = 10000"

record SlidingWindow =
  entries :: "(nat \<times> bool) list"
  failures :: "64 word"

definition window_new :: SlidingWindow where
  "window_new = \<lparr>entries = [], failures = 0\<rparr>"

definition pop_full :: "SlidingWindow \<Rightarrow> SlidingWindow" where
  "pop_full w =
     (if MAX_WINDOW_ENTRIES \<le> length (entries w)
      then (case entries w of
              [] \<Rightarrow> w
            | (_, was_failure) # rest \<Rightarrow>
                w\<lparr>entries := rest,
                  failures := (if was_failure then failures w - 1 else failures w)\<rparr>)
      else w)"

definition window_push :: "bool \<Rightarrow> nat \<Rightarrow> SlidingWindow \<Rightarrow> SlidingWindow" where
  "window_push is_failure ts w =
     (let w' = pop_full w
      in w'\<lparr>entries := entries w' @ [(ts, is_failure)],
            failures := (if is_failure then failures w' + 1 else failures w')\<rparr>)"

definition checked_sub :: "nat \<Rightarrow> nat \<Rightarrow> nat option" where
  "checked_sub a b = (if b \<le> a then Some (a - b) else None)"

fun evict_loop :: "nat \<Rightarrow> (nat \<times> bool) list \<Rightarrow> 64 word \<Rightarrow> (nat \<times> bool) list \<times> 64 word" where
  "evict_loop cutoff [] n = ([], n)"
| "evict_loop cutoff ((ts, was_failure) # rest) n =
     (if ts < cutoff then evict_loop cutoff rest (if was_failure then n - 1 else n)
      else ((ts, was_failure) # rest, n))"

definition window_evict :: "nat \<Rightarrow> nat \<Rightarrow> SlidingWindow \<Rightarrow> SlidingWindow" where
  "window_evict window now w =
     (case checked_sub now window of
        None \<Rightarrow> w
      | Some cutoff \<Rightarrow>
          (let (es, n) = evict_loop cutoff (entries w) (failures w)
           in w\<lparr>entries := es, failures := n\<rparr>))"

definition error_rate :: "SlidingWindow \<Rightarrow> rat" where
  "error_rate w =
     (if entries w = [] then 0
      else of_nat (unat (failures w)) / of_nat (length (entries w)))"

definition sample_count :: "SlidingWindow \<Rightarrow> nat" where
  "sample_count w = length (entries w)"

definition window_clear :: "SlidingWindow \<Rightarrow> SlidingWindow" where
  "window_clear w = w\<lparr>entries := [], failures := 0\<rparr>"

section \<open>Specification\<close>

text \<open>The last \<open>n\<close> elements of a list, and the failure rate of a list of samples.\<close>

definition last_n :: "nat \<Rightarrow> 'a list \<Rightarrow> 'a list" where
  "last_n n xs = drop (length xs - n) xs"

definition failed :: "(nat \<times> bool) list \<Rightarrow> nat" where
  "failed es = length (filter snd es)"

definition rate_of :: "(nat \<times> bool) list \<Rightarrow> rat" where
  "rate_of es = (if es = [] then 0 else of_nat (failed es) / of_nat (length es))"

text \<open>A sample is recent at \<open>now\<close> when it is not older than the window duration.\<close>

definition recent :: "nat \<Rightarrow> nat \<Rightarrow> nat \<times> bool \<Rightarrow> bool" where
  "recent window now e \<longleftrightarrow> now \<le> fst e + window"

abbreviation chronological :: "(nat \<times> bool) list \<Rightarrow> bool" where
  "chronological es \<equiv> sorted (map fst es)"

lemma failed_simps [simp]:
  "failed [] = 0"
  "failed (e # es) = (if snd e then Suc (failed es) else failed es)"
  "failed (es @ fs) = failed es + failed fs"
  by (simp_all add: failed_def)

lemma failed_le: "failed es \<le> length es"
  by (simp add: failed_def)

lemma last_n_snoc: "0 < n \<Longrightarrow> last_n n (xs @ [x]) = last_n (n - 1) xs @ [x]"
  by (cases n) (simp_all add: last_n_def)

lemma length_last_n [simp]: "length (last_n n xs) = min n (length xs)"
  by (simp add: last_n_def)

lemma last_n_all [simp]: "length xs \<le> n \<Longrightarrow> last_n n xs = xs"
  by (simp add: last_n_def)

lemma last_n_suffix: "\<exists>ys. xs = ys @ last_n n xs"
  by (metis append_take_drop_id last_n_def)

lemma last_n_append_long: "n \<le> length ys \<Longrightarrow> last_n n (xs @ ys) = last_n n ys"
  by (simp add: last_n_def)

lemma last_n_last_n: "last_n n (last_n n xs @ ys) = last_n n (xs @ ys)"
proof (cases "length xs \<le> n")
  case False
  obtain zs where "xs = zs @ last_n n xs" using last_n_suffix by blast
  with False show ?thesis
    using last_n_append_long [of n "last_n n xs @ ys" zs] by (metis append.assoc length_append
        length_last_n linear min.absorb1 trans_le_add1)
qed simp

text \<open>In a chronological list the recent samples are a suffix.\<close>

lemma dropWhile_old:
  "chronological es \<Longrightarrow> dropWhile (\<lambda>e. \<not> recent window now e) es = filter (recent window now) es"
proof (induction es)
  case (Cons e es)
  show ?case
  proof (cases "recent window now e")
    case True
    with Cons.prems have "list_all (recent window now) es"
      by (fastforce simp: list_all_iff recent_def)
    then have "filter (recent window now) es = es" by (simp add: list_all_iff)
    with True show ?thesis by simp
  qed (use Cons in simp)
qed simp

lemma chronological_suffix: "chronological (xs @ ys) \<Longrightarrow> chronological ys"
  by (simp add: sorted_append)

text \<open>
  Dropping old samples commutes with the cap: both cut a prefix of a chronological list.
\<close>

lemma filter_recent_last_n:
  "chronological es \<Longrightarrow>
     filter (recent window now) (last_n n es) = last_n n (filter (recent window now) es)"
proof (induction es arbitrary: n rule: rev_induct)
  case (snoc e es)
  from snoc.prems have sorted: "chronological es" and le: "\<And>f. f \<in> set es \<Longrightarrow> fst f \<le> fst e"
    by (auto simp: sorted_append)
  show ?case
  proof (cases "n = 0 \<or> \<not> recent window now e")
    case True
    have "\<not> recent window now f" if "\<not> recent window now e" "f \<in> set es" for f
      using le [OF that(2)] that(1) by (simp add: recent_def)
    then have "filter (recent window now) (es @ [e]) = []" if "\<not> recent window now e"
      using that by auto
    moreover have "set (last_n n (es @ [e])) \<subseteq> set (es @ [e])"
      by (metis last_n_def set_drop_subset)
    ultimately show ?thesis
      using True by (auto simp: last_n_def filter_empty_conv subset_iff)
  qed (use snoc.IH [OF sorted, of "n - 1"] in \<open>simp add: last_n_snoc\<close>)
qed (simp add: last_n_def)

text \<open>
  The contract of a sample window: \<open>samples\<close> is the abstraction, \<open>inv\<close> the representation
  invariant.
\<close>

locale sample_window =
  fixes inv :: "'w \<Rightarrow> bool" and samples :: "'w \<Rightarrow> (nat \<times> bool) list"
    and new :: 'w and push :: "bool \<Rightarrow> nat \<Rightarrow> 'w \<Rightarrow> 'w" and evict :: "nat \<Rightarrow> nat \<Rightarrow> 'w \<Rightarrow> 'w"
    and clear :: "'w \<Rightarrow> 'w" and rate :: "'w \<Rightarrow> rat" and cnt :: "'w \<Rightarrow> nat" and cap :: nat
  assumes cap_pos: "0 < cap"
    and new: "inv new" "samples new = []"
    and push: "inv w \<Longrightarrow> inv (push f t w)"
      "inv w \<Longrightarrow> samples (push f t w) = last_n cap (samples w @ [(t, f)])"
    and evict: "inv w \<Longrightarrow> inv (evict window now w)"
      "inv w \<Longrightarrow> samples (evict window now w) = dropWhile (\<lambda>e. \<not> recent window now e) (samples w)"
    and clear: "inv w \<Longrightarrow> inv (clear w)" "inv w \<Longrightarrow> samples (clear w) = []"
    and rate: "inv w \<Longrightarrow> rate w = rate_of (samples w)"
    and cnt: "inv w \<Longrightarrow> cnt w = length (samples w)"
    and bounded: "inv w \<Longrightarrow> length (samples w) \<le> cap"
begin

lemma rate_bounds: "inv w \<Longrightarrow> 0 \<le> rate w \<and> rate w \<le> 1"
  using failed_le [of "samples w"] by (simp add: rate rate_of_def divide_le_eq)

text \<open>
  A sequence of records, each a push followed by an eviction at the same instant, leaves
  the newest samples of the window duration, at most \<open>cap\<close> of them.
\<close>

lemma record_step:
  assumes "inv w" and "samples w = last_n cap (filter (recent window t0) hs)"
    and "chronological (hs @ [(t, f)])" and "t0 \<le> t"
  shows "inv (evict window t (push f t w))"
    and "samples (evict window t (push f t w)) = last_n cap (filter (recent window t) (hs @ [(t, f)]))"
proof -
  let ?R = "recent window t"
  have hs: "chronological hs" using assms(3) by (simp add: sorted_append)
  let ?g = "filter (recent window t0) hs"
  have g: "chronological (?g @ [(t, f)])"
    using assms(3) sorted_filter [of fst hs] hs by (auto simp: sorted_append)
  have sub: "filter ?R ?g = filter ?R hs"
    using assms(4) by (auto simp: recent_def intro!: filter_cong)
  note last_n_last_n [of cap ?g "[(t, f)]"]
  moreover have "chronological (last_n cap (?g @ [(t, f)]))"
    using last_n_suffix [of "?g @ [(t, f)]" cap] g chronological_suffix by metis
  ultimately show "samples (evict window t (push f t w)) =
      last_n cap (filter ?R (hs @ [(t, f)]))"
    using assms(1,2) g sub
    by (simp add: push evict dropWhile_old filter_recent_last_n [OF g, of window t cap])
  show "inv (evict window t (push f t w))" using assms(1) by (simp add: push evict)
qed

lemma record_history:
  assumes "chronological hs"
  shows "inv (foldl (\<lambda>w (t, f). evict window t (push f t w)) new hs)
    \<and> samples (foldl (\<lambda>w (t, f). evict window t (push f t w)) new hs) =
      last_n cap (filter (recent window (if hs = [] then 0 else fst (last hs))) hs)"
  using assms
proof (induction hs rule: rev_induct)
  case (snoc h hs)
  obtain t f where h: "h = (t, f)" by (cases h)
  let ?w = "foldl (\<lambda>w (t, f). evict window t (push f t w)) new hs"
  let ?t0 = "if hs = [] then 0 else fst (last hs)"
  have ord: "chronological hs" "?t0 \<le> t"
    using snoc.prems h by (auto simp: sorted_append)
  from snoc.IH [OF ord(1)] record_step [of ?w window ?t0 hs t f] ord snoc.prems h
  show ?case by simp
qed (simp add: new last_n_def)

end

section \<open>The window keeps the contract\<close>

text \<open>The representation invariant: the cached counter is exact and the cap is respected.\<close>

definition window_inv :: "SlidingWindow \<Rightarrow> bool" where
  "window_inv w \<longleftrightarrow>
     unat (failures w) = failed (entries w) \<and> length (entries w) \<le> MAX_WINDOW_ENTRIES"

lemma unat_dec: "unat (n :: 64 word) = Suc k \<Longrightarrow> unat (n - 1) = k"
  by (metis diff_Suc_1 unat_minus_one unat_0 nat.distinct(1))

lemma unat_inc: "unat (n :: 64 word) \<le> MAX_WINDOW_ENTRIES \<Longrightarrow> unat (n + 1) = Suc (unat n)"
  by (simp add: MAX_WINDOW_ENTRIES_def unat_word_ariths)

lemma pop_full_inv:
  assumes "window_inv w"
  shows "unat (failures (pop_full w)) = failed (entries (pop_full w))
    \<and> entries (pop_full w) = last_n (MAX_WINDOW_ENTRIES - 1) (entries w)"
proof (cases "MAX_WINDOW_ENTRIES \<le> length (entries w)")
  case True
  with assms obtain t f rest where e: "entries w = (t, f) # rest"
    by (cases "entries w") (auto simp: MAX_WINDOW_ENTRIES_def window_inv_def)
  with True assms have "length rest = MAX_WINDOW_ENTRIES - 1" by (auto simp: window_inv_def)
  then have "last_n (MAX_WINDOW_ENTRIES - 1) (entries w) = rest" by (simp add: last_n_def e)
  with True assms e show ?thesis by (auto simp: pop_full_def window_inv_def unat_dec)
next
  case False
  with assms show ?thesis by (simp add: pop_full_def window_inv_def)
qed

lemma window_push_samples:
  assumes "window_inv w"
  shows "window_inv (window_push f t w)
    \<and> entries (window_push f t w) = last_n MAX_WINDOW_ENTRIES (entries w @ [(t, f)])"
proof -
  have pos: "0 < MAX_WINDOW_ENTRIES" by (simp add: MAX_WINDOW_ENTRIES_def)
  have fl: "failed (entries (pop_full w)) \<le> MAX_WINDOW_ENTRIES - 1"
    using pop_full_inv [OF assms] failed_le [of "entries (pop_full w)"] by simp
  with pop_full_inv [OF assms] have "unat (failures (pop_full w) + 1) = Suc (failed (entries (pop_full w)))"
    by (simp add: unat_inc)
  then show ?thesis
    using pop_full_inv [OF assms] pos
    by (auto simp: window_push_def window_inv_def Let_def last_n_snoc)
qed

lemma evict_loop_eq:
  "unat n = failed es \<Longrightarrow>
     fst (evict_loop cutoff es n) = dropWhile (\<lambda>e. fst e < cutoff) es
     \<and> unat (snd (evict_loop cutoff es n)) = failed (fst (evict_loop cutoff es n))"
  by (induction cutoff es n rule: evict_loop.induct) (auto simp: unat_dec)

lemma window_evict_samples:
  assumes "window_inv w"
  shows "window_inv (window_evict window now w)
    \<and> entries (window_evict window now w) = dropWhile (\<lambda>e. \<not> recent window now e) (entries w)"
proof (cases "window \<le> now")
  case True
  have old: "(\<lambda>e. fst e < now - window) = (\<lambda>e :: nat \<times> bool. \<not> recent window now e)"
    using True by (auto simp: recent_def)
  from assms have "unat (failures w) = failed (entries w)" by (simp add: window_inv_def)
  from evict_loop_eq [OF this, of "now - window"] True assms show ?thesis
    using length_dropWhile_le [of "\<lambda>e. \<not> recent window now e" "entries w"]
    by (auto simp: window_evict_def checked_sub_def window_inv_def old split: prod.split)
next
  case False
  then have "dropWhile (\<lambda>e. \<not> recent window now e) (entries w) = entries w"
    by (cases "entries w") (auto simp: recent_def)
  with False assms show ?thesis by (simp add: window_evict_def checked_sub_def)
qed

interpretation win: sample_window window_inv entries window_new window_push window_evict
  window_clear error_rate sample_count MAX_WINDOW_ENTRIES
  by unfold_locales
    (simp_all add: window_push_samples window_evict_samples,
     simp_all add: window_inv_def window_new_def window_clear_def error_rate_def rate_of_def
       sample_count_def MAX_WINDOW_ENTRIES_def)

text \<open>
  C34. The window is the specification's window: after any chronological history of
  records, the deque holds exactly the newest samples that are not older than the window
  duration, at most 10,000 of them, and the rate computed from the cached counter is the
  failure rate of those samples.
\<close>

theorem window_holds_recent_samples:
  assumes "chronological hs" and "hs \<noteq> []"
    and "w = foldl (\<lambda>w (t, f). window_evict dur t (window_push f t w)) window_new hs"
    and "es = last_n MAX_WINDOW_ENTRIES (filter (recent dur (fst (last hs))) hs)"
  shows "entries w = es \<and> sample_count w = length es \<and> error_rate w = rate_of es"
  using win.record_history [OF assms(1), of dur] assms(2-4)
  by (simp add: win.rate win.cnt)

theorem window_holds_recent_samples_witness:
  "entries (foldl (\<lambda>w (t, f). window_evict 5 t (window_push f t w)) window_new
      [(1, True), (3, False), (7, True)]) = [(3, False), (7, True)]"
proof -
  have "chronological [(1, True), (3, False), (7, True)]" by simp
  from window_holds_recent_samples [OF this _ refl refl, of 5] show ?thesis
    by (simp add: recent_def MAX_WINDOW_ENTRIES_def)
qed

end
