(* ===== verification/Breaker_Config.thy ===== *)
theory Breaker_Config
  imports Breaker_Window
begin

text \<open>
  Configuration of the circuit breaker (\<^verbatim>\<open>config.rs\<close>) and the retry policy
  (\<^verbatim>\<open>retry_policy.rs\<close>): the presets, the loader from \<^verbatim>\<open>CB_*\<close> variables and the
  classification of status codes. Durations are nanoseconds. The environment is the
  function \<open>get\<close> of the source, and \<open>parse_f64\<close> stands for \<^verbatim>\<open>f64::from_str\<close>.
\<close>

section \<open>Definitions\<close>

record BreakerConfig =
  window_duration :: nat
  min_samples :: nat
  error_rate_threshold :: rat
  open_duration :: nat
  half_open_max_probes :: nat
  failure_codes :: "nat set"
  enabled :: bool

definition from_secs :: "nat \<Rightarrow> nat" where
  "from_secs s = s * 1000000000"

definition DEFAULT_FAILURE_CODES :: "nat list" where
  "DEFAULT_FAILURE_CODES = [429, 500, 502, 503, 504]"

definition default_failure_codes :: "nat set" where
  "default_failure_codes = set DEFAULT_FAILURE_CODES"

definition config_server :: BreakerConfig where
  "config_server =
     \<lparr>window_duration = from_secs 60, min_samples = 10, error_rate_threshold = 1 / 2,
      open_duration = from_secs 10, half_open_max_probes = 1,
      failure_codes = default_failure_codes, enabled = True\<rparr>"

definition config_client :: BreakerConfig where
  "config_client =
     \<lparr>window_duration = from_secs 60, min_samples = 5, error_rate_threshold = 1 / 2,
      open_duration = from_secs 60, half_open_max_probes = 1, failure_codes = {401}, enabled = True\<rparr>"

definition lookup_or :: "(string \<Rightarrow> 'a option) \<Rightarrow> (string \<Rightarrow> string option) \<Rightarrow> string \<Rightarrow> 'a \<Rightarrow> 'a" where
  "lookup_or parse get key dflt =
     (case get key of
        Some v \<Rightarrow> (case parse v of Some parsed \<Rightarrow> parsed | None \<Rightarrow> dflt)
      | None \<Rightarrow> dflt)"

definition parse_failure_codes :: "string \<Rightarrow> nat set" where
  "parse_failure_codes s =
     set (List.map_filter (\<lambda>c. parse_unsigned 16 (trim c)) (split_pred (\<lambda>c. c = CHR '','') s))"

definition from_lookup_with_prefix ::
  "(string \<Rightarrow> rat option) \<Rightarrow> string \<Rightarrow> (string \<Rightarrow> string option) \<Rightarrow> BreakerConfig" where
  "from_lookup_with_prefix parse_f64 pre get =
     (let key = (\<lambda>k. pre @ k);
          codes = (case get (key ''FAILURE_CODES'') of
                     Some raw \<Rightarrow> (let codes = parse_failure_codes raw
                                  in if codes = {} then default_failure_codes else codes)
                   | None \<Rightarrow> default_failure_codes)
      in \<lparr>window_duration = from_secs (lookup_or (parse_unsigned 64) get (key ''WINDOW_SECS'') 60),
          min_samples = lookup_or (parse_unsigned 64) get (key ''MIN_SAMPLES'') 10,
          error_rate_threshold = lookup_or parse_f64 get (key ''ERROR_RATE_THRESHOLD'') (1 / 2),
          open_duration = from_secs (lookup_or (parse_unsigned 64) get (key ''OPEN_DURATION_SECS'') 10),
          half_open_max_probes =
            max (lookup_or (parse_unsigned 64) get (key ''HALF_OPEN_MAX_PROBES'') 1) 1,
          failure_codes = codes,
          enabled = lookup_or parse_bool get (key ''ENABLED'') True\<rparr>)"

definition is_failure_status :: "BreakerConfig \<Rightarrow> nat \<Rightarrow> bool" where
  "is_failure_status cfg status \<longleftrightarrow> status \<in> failure_codes cfg"

datatype Disposition = Retryable | AuthRefresh | Terminal

record RetryPolicy =
  retryable :: "nat list"
  auth_refresh :: "nat list"
  terminal :: "nat list"
  default_disposition :: Disposition

definition classify :: "RetryPolicy \<Rightarrow> nat \<Rightarrow> Disposition option" where
  "classify p status =
     (if 200 \<le> status \<and> status < 300 then None
      else if status \<in> set (auth_refresh p) then Some AuthRefresh
      else if status \<in> set (terminal p) then Some Terminal
      else if status \<in> set (retryable p) \<or> 500 \<le> status \<and> status < 600 then Some Retryable
      else Some (default_disposition p))"

definition should_retry :: "RetryPolicy \<Rightarrow> nat \<Rightarrow> bool" where
  "should_retry p status \<longleftrightarrow> classify p status = Some Retryable"

definition policy_server :: RetryPolicy where
  "policy_server =
     \<lparr>retryable = [429], auth_refresh = [], terminal = [], default_disposition = Terminal\<rparr>"

definition policy_client_storage :: RetryPolicy where
  "policy_client_storage =
     \<lparr>retryable = [], auth_refresh = [401], terminal = [400, 403, 404], default_disposition = Retryable\<rparr>"

section \<open>Every environment gives a usable configuration\<close>

definition config_ok :: "BreakerConfig \<Rightarrow> bool" where
  "config_ok cfg \<longleftrightarrow>
     0 < half_open_max_probes cfg \<and> half_open_max_probes cfg < 2 ^ 64
     \<and> failure_codes cfg \<noteq> {} \<and> (\<forall>c \<in> failure_codes cfg. c < 2 ^ 16)"

lemma lookup_or_bound:
  "d < 2 ^ 64 \<Longrightarrow> lookup_or (parse_unsigned 64) get key d < 2 ^ 64"
  by (auto simp: lookup_or_def dest: parse_unsigned_bound split: option.split)

lemma parse_failure_codes_bound: "c \<in> parse_failure_codes s \<Longrightarrow> c < 2 ^ 16"
  using parse_unsigned_bound [of 16] by (fastforce simp: parse_failure_codes_def List.map_filter_def)

text \<open>
  Whatever the environment holds, loading it gives a configuration with at least one
  probe slot and a nonempty set of 16-bit failure codes; the empty environment gives the
  server preset.
\<close>

theorem from_lookup_usable:
  "config_ok (from_lookup_with_prefix parse_f64 pre get)
   \<and> from_lookup_with_prefix parse_f64 pre (\<lambda>_. None) = config_server"
proof
  have "lookup_or (parse_unsigned 64) get key 1 < 2 ^ 64" for key
    by (rule lookup_or_bound) simp
  then show "config_ok (from_lookup_with_prefix parse_f64 pre get)"
    by (auto simp: config_ok_def from_lookup_with_prefix_def Let_def default_failure_codes_def
        DEFAULT_FAILURE_CODES_def max_def dest: parse_failure_codes_bound split: option.splits)
  show "from_lookup_with_prefix parse_f64 pre (\<lambda>_. None) = config_server"
    by (simp add: from_lookup_with_prefix_def config_server_def lookup_or_def)
qed

text \<open>
  The retry policies sort every status: success is never an error, a server error is
  always retried by both presets, the server retries nothing else but 429, and the upload
  client drops exactly 400, 403 and 404 and refreshes credentials exactly on 401.
\<close>

theorem retry_policies:
  "(classify p status = None \<longleftrightarrow> 200 \<le> status \<and> status < 300)
   \<and> (should_retry policy_server status \<longleftrightarrow> status = 429 \<or> 500 \<le> status \<and> status < 600)
   \<and> (classify policy_client_storage status = Some Terminal \<longleftrightarrow> status \<in> {400, 403, 404})
   \<and> (classify policy_client_storage status = Some AuthRefresh \<longleftrightarrow> status = 401)"
  by (auto simp: classify_def should_retry_def policy_server_def policy_client_storage_def)

end
