(* ===== verification/Breaker.thy ===== *)
theory Breaker
  imports Breaker_Config
begin

text \<open>
  The circuit breaker (\<^verbatim>\<open>breaker.rs\<close>, \<^verbatim>\<open>state.rs\<close>, \<^verbatim>\<open>observer.rs\<close>) as a sequential state
  machine: every public operation is a function on the record of the shared cells. Each
  \<^verbatim>\<open>clock.now()\<close> of the source is an argument of its own (\<open>n1\<close>, \<open>n2\<close> in the order of the
  calls), so the clock may move inside an operation. Millisecond offsets are 64-bit words
  and the probe counter wraps, as the atomics do. The calls to the installed observer are
  collected in \<open>notified\<close>.

  The lemmas give the invariant of reachable breakers, when a closed breaker trips, how an
  open one sheds and recovers, and how many probes a half-open one admits.
\<close>

section \<open>Definitions\<close>

datatype BreakerState = Closed | Open | HalfOpen

definition as_u8 :: "BreakerState \<Rightarrow> nat" where
  "as_u8 s = (case s of Closed \<Rightarrow> 0 | Open \<Rightarrow> 1 | HalfOpen \<Rightarrow> 2)"

definition from_u8 :: "nat \<Rightarrow> BreakerState" where
  "from_u8 v = (if v = 0 then Closed else if v = 1 then Open else if v = 2 then HalfOpen else Closed)"

datatype Outcome = Success | Failure

text \<open>\<^verbatim>\<open>Result<(), BreakerOpen>\<close>: the error carries the duration to wait.\<close>

datatype admission = Admitted | BreakerOpen nat

datatype event =
    StateChange BreakerState BreakerState string
  | ProbeAdmission bool
  | OnOutcome Outcome BreakerState

record breaker =
  config :: BreakerConfig
  state :: nat
  baseline :: nat
  opened_at_millis :: "64 word"
  half_open_probes :: "64 word"
  probe_claimed_at_millis :: "64 word"
  is_open_fast :: bool
  window :: SlidingWindow
  observer :: "nat option"
  notified :: "(nat \<times> event) list"

definition with_clock :: "BreakerConfig \<Rightarrow> nat \<Rightarrow> breaker" where
  "with_clock cfg now =
     \<lparr>config = cfg\<lparr>half_open_max_probes := max (half_open_max_probes cfg) 1\<rparr>, state = as_u8 Closed,
      baseline = now, opened_at_millis = 0, half_open_probes = 0, probe_claimed_at_millis = 0,
      is_open_fast = False, window = window_new, observer = None, notified = []\<rparr>"

definition with_observer :: "nat \<Rightarrow> breaker \<Rightarrow> breaker" where
  "with_observer obs b = (case observer b of None \<Rightarrow> b\<lparr>observer := Some obs\<rparr> | Some _ \<Rightarrow> b)"

definition notify :: "event \<Rightarrow> breaker \<Rightarrow> breaker" where
  "notify e b =
     (case observer b of None \<Rightarrow> b | Some obs \<Rightarrow> b\<lparr>notified := notified b @ [(obs, e)]\<rparr>)"

definition breaker_state :: "breaker \<Rightarrow> BreakerState" where
  "breaker_state b = from_u8 (state b)"

definition is_open :: "breaker \<Rightarrow> bool" where
  "is_open b = is_open_fast b"

definition elapsed_millis :: "breaker \<Rightarrow> nat \<Rightarrow> 64 word" where
  "elapsed_millis b now = word_of_nat ((now - baseline b) div 1000000)"

definition saturating_sub64 :: "64 word \<Rightarrow> 64 word \<Rightarrow> 64 word" where
  "saturating_sub64 x y = (if y \<le> x then x - y else 0)"

definition from_millis :: "64 word \<Rightarrow> nat" where
  "from_millis w = unat w * 1000000"

definition HALF_OPEN_PROBE_BACKOFF :: nat where
  "HALF_OPEN_PROBE_BACKOFF = 50 * 1000000"

definition lease_millis :: "breaker \<Rightarrow> 64 word" where
  "lease_millis b = word_of_nat (open_duration (config b) div 1000000)"

definition try_half_open_probe :: "nat \<Rightarrow> breaker \<Rightarrow> breaker \<times> admission" where
  "try_half_open_probe n b =
     (let now = elapsed_millis b n;
          prev = half_open_probes b;
          b = b\<lparr>half_open_probes := prev + 1\<rparr>
      in if unat prev < half_open_max_probes (config b)
         then (notify (ProbeAdmission True) (b\<lparr>probe_claimed_at_millis := now\<rparr>), Admitted)
         else let b = b\<lparr>half_open_probes := half_open_probes b - 1\<rparr>;
                  claimed = probe_claimed_at_millis b
              in if lease_millis b \<le> saturating_sub64 now claimed
                    \<and> probe_claimed_at_millis b = claimed
                 then (notify (ProbeAdmission True) (b\<lparr>probe_claimed_at_millis := now\<rparr>), Admitted)
                 else (notify (ProbeAdmission False) b,
                       BreakerOpen (min HALF_OPEN_PROBE_BACKOFF (open_duration (config b)))))"

definition cas_state :: "BreakerState \<Rightarrow> BreakerState \<Rightarrow> breaker \<Rightarrow> breaker \<times> bool" where
  "cas_state old_state new_state b =
     (if state b = as_u8 old_state then (b\<lparr>state := as_u8 new_state\<rparr>, True) else (b, False))"

definition open_elapsed :: "breaker \<Rightarrow> nat \<Rightarrow> nat" where
  "open_elapsed b n = from_millis (saturating_sub64 (elapsed_millis b n) (opened_at_millis b))"

definition check_open :: "nat \<Rightarrow> nat \<Rightarrow> breaker \<Rightarrow> breaker \<times> admission" where
  "check_open n1 n2 b =
     (if open_duration (config b) \<le> open_elapsed b n1
      then (case cas_state Open HalfOpen b of
              (b', True) \<Rightarrow>
                try_half_open_probe n2
                  (notify (StateChange Open HalfOpen ''open_elapsed'') (b'\<lparr>is_open_fast := False\<rparr>))
            | (b', False) \<Rightarrow>
                (case breaker_state b' of
                   Closed \<Rightarrow> (b', Admitted)
                 | HalfOpen \<Rightarrow> try_half_open_probe n2 b'
                 | Open \<Rightarrow> (b', BreakerOpen (open_duration (config b') - open_elapsed b' n2))))
      else (b, BreakerOpen (open_duration (config b) - open_elapsed b n1)))"

definition check :: "nat \<Rightarrow> nat \<Rightarrow> breaker \<Rightarrow> breaker \<times> admission" where
  "check n1 n2 b =
     (if \<not> enabled (config b) then (b, Admitted)
      else (case breaker_state b of
              Closed \<Rightarrow> (b, Admitted)
            | Open \<Rightarrow> check_open n1 n2 b
            | HalfOpen \<Rightarrow> try_half_open_probe n1 b))"

definition trip :: "nat \<Rightarrow> BreakerState \<Rightarrow> string \<Rightarrow> breaker \<Rightarrow> breaker" where
  "trip n prev reason b =
     (let b = b\<lparr>state := as_u8 Open, opened_at_millis := elapsed_millis b n,
                half_open_probes := 0, is_open_fast := True\<rparr>
      in if prev \<noteq> Open then notify (StateChange prev Open reason) b else b)"

definition close :: "BreakerState \<Rightarrow> string \<Rightarrow> breaker \<Rightarrow> breaker" where
  "close prev reason b =
     (let b = b\<lparr>state := as_u8 Closed, window := window_clear (window b),
                half_open_probes := 0, is_open_fast := False\<rparr>
      in if prev \<noteq> Closed then notify (StateChange prev Closed reason) b else b)"

definition record_sample :: "bool \<Rightarrow> nat \<Rightarrow> breaker \<Rightarrow> breaker" where
  "record_sample is_failure now b =
     b\<lparr>window := window_evict (window_duration (config b)) now (window_push is_failure now (window b))\<rparr>"

definition should_trip :: "breaker \<Rightarrow> bool" where
  "should_trip b \<longleftrightarrow>
     min_samples (config b) \<le> sample_count (window b)
     \<and> error_rate_threshold (config b) \<le> error_rate (window b)"

definition record_outcome :: "nat \<Rightarrow> nat \<Rightarrow> Outcome \<Rightarrow> breaker \<Rightarrow> breaker" where
  "record_outcome n1 n2 outcome b =
     (if \<not> enabled (config b) then b
      else let is_failure = (outcome = Failure);
               prev_state = breaker_state b;
               b' = (case prev_state of
                       Closed \<Rightarrow>
                         (let c = record_sample is_failure n1 b
                          in if should_trip c then trip n2 prev_state ''trip'' c else c)
                     | HalfOpen \<Rightarrow>
                         (if is_failure then trip n2 prev_state ''probe_failure'' b
                          else close prev_state ''probe_success'' b)
                     | Open \<Rightarrow> record_sample is_failure n1 b)
           in notify (OnOutcome outcome (breaker_state b')) b')"

definition breaker_error_rate :: "nat \<Rightarrow> breaker \<Rightarrow> breaker \<times> rat" where
  "breaker_error_rate now b =
     (let b' = b\<lparr>window := window_evict (window_duration (config b)) now (window b)\<rparr>
      in (b', error_rate (window b')))"

definition breaker_is_failure_status :: "breaker \<Rightarrow> nat \<Rightarrow> bool" where
  "breaker_is_failure_status b status = is_failure_status (config b) status"

definition force_half_open :: "breaker \<Rightarrow> breaker" where
  "force_half_open b =
     (let prev = breaker_state b;
          b' = b\<lparr>state := as_u8 HalfOpen, is_open_fast := False, half_open_probes := 0\<rparr>
      in if prev \<noteq> HalfOpen then notify (StateChange prev HalfOpen ''force_half_open'') b' else b')"

section \<open>Reachable breakers\<close>

text \<open>
  A run of a breaker up to an instant: any sequence of the public operations, with clock
  readings that never go back.
\<close>

inductive run :: "BreakerConfig \<Rightarrow> nat \<Rightarrow> breaker \<Rightarrow> bool" for cfg where
  created: "run cfg n (with_clock cfg n)"
| observed: "run cfg n b \<Longrightarrow> run cfg n (with_observer obs b)"
| checked: "run cfg n b \<Longrightarrow> n \<le> n1 \<Longrightarrow> n1 \<le> n2 \<Longrightarrow> run cfg n2 (fst (check n1 n2 b))"
| recorded: "run cfg n b \<Longrightarrow> n \<le> n1 \<Longrightarrow> n1 \<le> n2 \<Longrightarrow> run cfg n2 (record_outcome n1 n2 outcome b)"
| rated: "run cfg n b \<Longrightarrow> n \<le> n1 \<Longrightarrow> run cfg n1 (fst (breaker_error_rate n1 b))"

definition breaker_inv :: "breaker \<Rightarrow> bool" where
  "breaker_inv b \<longleftrightarrow>
     window_inv (window b)
     \<and> state b \<in> {as_u8 Closed, as_u8 Open, as_u8 HalfOpen}
     \<and> (is_open_fast b \<longleftrightarrow> breaker_state b = Open)
     \<and> 0 < half_open_max_probes (config b)
     \<and> unat (half_open_probes b) \<le> half_open_max_probes (config b)
     \<and> (breaker_state b \<noteq> HalfOpen \<longrightarrow> half_open_probes b = 0)"

lemma from_as_u8 [simp]: "from_u8 (as_u8 s) = s"
  by (cases s) (simp_all add: from_u8_def as_u8_def)

lemma as_u8_inject [simp]: "as_u8 s = as_u8 t \<longleftrightarrow> s = t"
  by (metis from_as_u8)

lemma state_cases:
  assumes "breaker_inv b"
  obtains s where "state b = as_u8 s" "breaker_state b = s"
  using assms by (auto simp: breaker_inv_def breaker_state_def)

lemma notify_sel [simp]:
  "config (notify e b) = config b" "state (notify e b) = state b"
  "baseline (notify e b) = baseline b"
  "opened_at_millis (notify e b) = opened_at_millis b"
  "half_open_probes (notify e b) = half_open_probes b"
  "probe_claimed_at_millis (notify e b) = probe_claimed_at_millis b"
  "is_open_fast (notify e b) = is_open_fast b" "window (notify e b) = window b"
  "observer (notify e b) = observer b"
  by (simp_all add: notify_def split: option.split)

lemma breaker_state_notify [simp]: "breaker_state (notify e b) = breaker_state b"
  by (simp add: breaker_state_def)

lemma breaker_state_update [simp]:
  "breaker_state (b\<lparr>state := as_u8 s\<rparr>) = s"
  "breaker_state (b\<lparr>window := w\<rparr>) = breaker_state b"
  "breaker_state (b\<lparr>is_open_fast := x\<rparr>) = breaker_state b"
  "breaker_state (b\<lparr>half_open_probes := p\<rparr>) = breaker_state b"
  "breaker_state (b\<lparr>probe_claimed_at_millis := p\<rparr>) = breaker_state b"
  "breaker_state (b\<lparr>opened_at_millis := p\<rparr>) = breaker_state b"
  by (simp_all add: breaker_state_def)

lemma trip_sel [simp]:
  "config (trip n p r b) = config b" "state (trip n p r b) = as_u8 Open"
  "breaker_state (trip n p r b) = Open" "is_open_fast (trip n p r b)"
  "half_open_probes (trip n p r b) = 0" "window (trip n p r b) = window b"
  "baseline (trip n p r b) = baseline b" "opened_at_millis (trip n p r b) = elapsed_millis b n"
  "observer (trip n p r b) = observer b"
  by (simp_all add: trip_def Let_def breaker_state_def)

lemma close_sel [simp]:
  "config (close p r b) = config b" "state (close p r b) = as_u8 Closed"
  "breaker_state (close p r b) = Closed" "\<not> is_open_fast (close p r b)"
  "half_open_probes (close p r b) = 0" "window (close p r b) = window_clear (window b)"
  "baseline (close p r b) = baseline b" "observer (close p r b) = observer b"
  by (simp_all add: close_def Let_def breaker_state_def)

lemma record_sample_sel [simp]:
  "config (record_sample f n b) = config b" "state (record_sample f n b) = state b"
  "breaker_state (record_sample f n b) = breaker_state b"
  "is_open_fast (record_sample f n b) = is_open_fast b"
  "half_open_probes (record_sample f n b) = half_open_probes b"
  "window (record_sample f n b) =
     window_evict (window_duration (config b)) n (window_push f n (window b))"
  "baseline (record_sample f n b) = baseline b" "observer (record_sample f n b) = observer b"
  "notified (record_sample f n b) = notified b"
  by (simp_all add: record_sample_def breaker_state_def)

lemma breaker_inv_notify [simp]: "breaker_inv (notify e b) = breaker_inv b"
  by (simp add: breaker_inv_def)

lemma probe_sel [simp]:
  "config (fst (try_half_open_probe n b)) = config b"
  "state (fst (try_half_open_probe n b)) = state b"
  "breaker_state (fst (try_half_open_probe n b)) = breaker_state b"
  "is_open_fast (fst (try_half_open_probe n b)) = is_open_fast b"
  "window (fst (try_half_open_probe n b)) = window b"
  "baseline (fst (try_half_open_probe n b)) = baseline b"
  "observer (fst (try_half_open_probe n b)) = observer b"
  by (simp_all add: try_half_open_probe_def Let_def breaker_state_def)

lemma unat_inc_less: "unat (p :: 64 word) < m \<Longrightarrow> unat (p + 1) \<le> m"
  using mod_less_eq_dividend [of "unat p + 1" "2 ^ 64"] by (simp add: unat_word_ariths)

lemma probe_inv:
  assumes "breaker_inv b" and "breaker_state b = HalfOpen"
  shows "breaker_inv (fst (try_half_open_probe n b))"
  using assms unat_inc_less [of "half_open_probes b"]
  unfolding try_half_open_probe_def Let_def
  by (auto simp: breaker_inv_def)

lemma check_inv:
  assumes "breaker_inv b"
  shows "breaker_inv (fst (check n1 n2 b))"
proof -
  obtain s where s: "state b = as_u8 s" "breaker_state b = s" using state_cases [OF assms] .
  have "breaker_inv (b\<lparr>state := as_u8 HalfOpen, is_open_fast := False\<rparr>)"
    if "breaker_state b = Open"
    using assms that by (auto simp: breaker_inv_def)
  with assms s show ?thesis
    by (cases s) (auto simp: check_def check_open_def cas_state_def intro: probe_inv)
qed

lemma record_inv:
  assumes "breaker_inv b"
  shows "breaker_inv (record_outcome n1 n2 outcome b)"
proof -
  obtain s where s: "state b = as_u8 s" "breaker_state b = s" using state_cases [OF assms] .
  from assms s show ?thesis
    by (cases s) (auto simp: record_outcome_def Let_def breaker_inv_def win.push win.evict win.clear)
qed

lemma error_rate_inv: "breaker_inv b \<Longrightarrow> breaker_inv (fst (breaker_error_rate n b))"
  by (simp add: breaker_error_rate_def Let_def breaker_inv_def win.evict)

lemma observer_inv: "breaker_inv (with_observer obs b) = breaker_inv b"
  by (simp add: with_observer_def breaker_inv_def breaker_state_def split: option.split)

lemma created_inv: "breaker_inv (with_clock cfg n)"
  by (simp add: with_clock_def breaker_inv_def breaker_state_def win.new)

lemma run_inv: "run cfg n b \<Longrightarrow> breaker_inv b"
  by (induction rule: run.induct)
    (simp_all add: created_inv observer_inv check_inv record_inv error_rate_inv)

text \<open>The cells that hold instants never lie in the future of the last clock reading.\<close>

definition millis :: "breaker \<Rightarrow> nat \<Rightarrow> nat" where
  "millis b n = (n - baseline b) div 1000000"

definition time_inv :: "nat \<Rightarrow> breaker \<Rightarrow> bool" where
  "time_inv n b \<longleftrightarrow>
     baseline b \<le> n \<and> unat (opened_at_millis b) \<le> millis b n
     \<and> unat (probe_claimed_at_millis b) \<le> millis b n"

lemma unat_elapsed: "millis b n < 2 ^ 64 \<Longrightarrow> unat (elapsed_millis b n) = millis b n"
  by (simp add: elapsed_millis_def millis_def unat_of_nat)

lemma unat_elapsed_le: "unat (elapsed_millis b n) \<le> millis b n"
  by (simp add: elapsed_millis_def millis_def unat_of_nat)

lemma millis_mono: "n \<le> m \<Longrightarrow> millis b n \<le> millis b m"
  by (simp add: millis_def div_le_mono diff_le_mono)

lemma millis_update [simp]:
  "millis (b\<lparr>state := s\<rparr>) n = millis b n" "millis (b\<lparr>is_open_fast := g\<rparr>) n = millis b n"
  "millis (b\<lparr>half_open_probes := p\<rparr>) n = millis b n"
  "millis (b\<lparr>probe_claimed_at_millis := p\<rparr>) n = millis b n"
  "millis (b\<lparr>window := w\<rparr>) n = millis b n"
  "millis (notify e b) n = millis b n"
  "millis (trip k q r b) n = millis b n"
  "millis (close q r b) n = millis b n"
  "millis (record_sample g k b) n = millis b n"
  by (simp_all add: millis_def)

lemma elapsed_update [simp]:
  "elapsed_millis (b\<lparr>state := s\<rparr>) n = elapsed_millis b n"
  "elapsed_millis (b\<lparr>is_open_fast := f\<rparr>) n = elapsed_millis b n"
  "elapsed_millis (b\<lparr>half_open_probes := p\<rparr>) n = elapsed_millis b n"
  "elapsed_millis (b\<lparr>probe_claimed_at_millis := q\<rparr>) n = elapsed_millis b n"
  "elapsed_millis (notify e b) n = elapsed_millis b n"
  "elapsed_millis (record_sample g k b) n = elapsed_millis b n"
  by (simp_all add: elapsed_millis_def)

lemma time_inv_notify [simp]: "time_inv n (notify e b) = time_inv n b"
  by (simp add: time_inv_def)

lemma time_inv_mono: "time_inv n b \<Longrightarrow> n \<le> m \<Longrightarrow> time_inv m b"
  unfolding time_inv_def using millis_mono [of n m b] by linarith

lemma probe_time:
  assumes "time_inv n b"
  shows "time_inv n (fst (try_half_open_probe n b))"
  using assms unat_elapsed_le [of b n]
  by (auto simp: time_inv_def try_half_open_probe_def Let_def)

lemma close_cells [simp]:
  "opened_at_millis (close p r b) = opened_at_millis b"
  "probe_claimed_at_millis (close p r b) = probe_claimed_at_millis b"
  "probe_claimed_at_millis (trip n p r b) = probe_claimed_at_millis b"
  "opened_at_millis (record_sample f n b) = opened_at_millis b"
  "probe_claimed_at_millis (record_sample f n b) = probe_claimed_at_millis b"
  by (simp_all add: close_def trip_def record_sample_def Let_def)

lemma check_time:
  assumes "time_inv n b" "n \<le> n1" "n1 \<le> n2"
  shows "time_inv n2 (fst (check n1 n2 b))"
proof -
  from assms have t: "time_inv n1 b" "time_inv n2 b" by (auto intro: time_inv_mono)
  have "time_inv n2 (b\<lparr>state := s, is_open_fast := f\<rparr>)" for s f
    using t(2) by (simp add: time_inv_def)
  with probe_time [OF t(1), THEN time_inv_mono, OF assms(3)] t
  show ?thesis
    by (auto simp: check_def check_open_def cas_state_def
        split: BreakerState.split intro!: probe_time)
qed

lemma record_time:
  assumes "time_inv n b" "n \<le> n1" "n1 \<le> n2"
  shows "time_inv n2 (record_outcome n1 n2 outcome b)"
proof -
  have "time_inv n2 b" using assms by (auto intro: time_inv_mono)
  then show ?thesis
    using unat_elapsed_le [of b n2]
    by (auto simp: record_outcome_def Let_def time_inv_def split: BreakerState.split)
qed

lemma run_time: "run cfg n b \<Longrightarrow> time_inv n b"
proof (induction rule: run.induct)
  case (created n)
  then show ?case by (simp add: time_inv_def with_clock_def millis_def)
next
  case (observed n b obs)
  then show ?case by (simp add: with_observer_def time_inv_def millis_def split: option.split)
next
  case (rated n b n1)
  from time_inv_mono [OF rated(3,2)] show ?case
    by (simp add: breaker_error_rate_def Let_def time_inv_def millis_def)
qed (simp_all add: check_time record_time)

lemma run_config:
  "run cfg n b \<Longrightarrow> config b = cfg\<lparr>half_open_max_probes := max (half_open_max_probes cfg) 1\<rparr>"
proof (induction rule: run.induct)
  case (observed n b obs)
  then show ?case by (simp add: with_observer_def split: option.split)
next
  case (checked n b n1 n2)
  then show ?case
    by (simp add: check_def check_open_def cas_state_def split: BreakerState.split)
next
  case (recorded n b n1 n2 outcome)
  then show ?case by (simp add: record_outcome_def Let_def split: BreakerState.split)
qed (simp_all add: with_clock_def breaker_error_rate_def)

section \<open>What a breaker guarantees\<close>


lemma unat_sat_sub: "unat (saturating_sub64 x y) = unat x - unat y"
  by (simp add: saturating_sub64_def unat_sub word_le_nat_alt)

lemma open_elapsed_eq:
  "millis b n < 2 ^ 64 \<Longrightarrow> open_elapsed b n = (millis b n - unat (opened_at_millis b)) * 1000000"
  by (simp add: open_elapsed_def from_millis_def unat_sat_sub unat_elapsed)

lemma probe_admits:
  assumes "unat (half_open_probes b) < half_open_max_probes (config b)
    \<or> lease_millis b \<le> saturating_sub64 (elapsed_millis b n) (probe_claimed_at_millis b)"
  shows "snd (try_half_open_probe n b) = Admitted"
  using assms by (auto simp: try_half_open_probe_def Let_def lease_millis_def)

lemma check_open_admits:
  assumes "breaker_inv b" "enabled (config b)" "breaker_state b = Open"
    and "open_duration (config b) \<le> open_elapsed b n1"
  shows "snd (check n1 n2 b) = Admitted \<and> breaker_state (fst (check n1 n2 b)) = HalfOpen"
proof -
  obtain s where "state b = as_u8 s" "breaker_state b = s" using state_cases [OF assms(1)] .
  with assms show ?thesis
    by (simp add: check_def check_open_def cas_state_def breaker_inv_def probe_admits)
qed

lemma check_open_refuses:
  assumes "enabled (config b)" "breaker_state b = Open"
    and "open_elapsed b n1 < open_duration (config b)"
  shows "check n1 n2 b = (b, BreakerOpen (open_duration (config b) - open_elapsed b n1))"
  using assms by (simp add: check_def check_open_def)

text \<open>Whole milliseconds against nanoseconds: rounding costs less than one millisecond.\<close>

lemma millis_diff_ge:
  assumes "baseline b \<le> k" "k + d + 1000000 \<le> n"
  shows "d \<le> (millis b n - millis b k) * 1000000"
proof -
  let ?x = "n - baseline b" and ?y = "k - baseline b"
  have "?y + d + 1000000 \<le> ?x" using assms by simp
  moreover have "?y div 1000000 * 1000000 \<le> ?y" by simp
  moreover have "?x < 1000000 + ?x div 1000000 * 1000000"
    using dividend_less_div_times [of 1000000 ?x] by simp
  ultimately show ?thesis unfolding millis_def diff_mult_distrib by linarith
qed

lemma millis_diff_less:
  assumes "baseline b \<le> k" "k \<le> n" "n + 1000000 \<le> k + d"
  shows "(millis b n - millis b k) * 1000000 < d"
proof -
  let ?x = "n - baseline b" and ?y = "k - baseline b"
  have "?x + 1000000 \<le> ?y + d" using assms by simp
  moreover have "?x div 1000000 * 1000000 \<le> ?x" by simp
  moreover have "?y < 1000000 + ?y div 1000000 * 1000000"
    using dividend_less_div_times [of 1000000 ?y] by simp
  ultimately show ?thesis using assms(2,3) unfolding millis_def diff_mult_distrib by linarith
qed

text \<open>
  The cool-down: from the instant \<open>n2\<close> at which a breaker trips, every check up to one
  millisecond before the open duration has passed is refused and leaves the breaker open,
  with a positive time to wait, and every check one millisecond after it is admitted and
  makes the breaker half-open. (A millisecond is the resolution of the stored instants.)
\<close>

theorem open_cool_down:
  assumes "run cfg n0 b" "enabled cfg" "breaker_state b \<noteq> Open" "n0 \<le> n1" "n1 \<le> n2"
    and "b' = record_outcome n1 n2 outcome b" "breaker_state b' = Open"
    and "n2 \<le> n" "n \<le> m" "(n - baseline b) div 1000000 < 2 ^ 64"
  shows "(n + 1000000 \<le> n2 + open_duration cfg \<longrightarrow>
      (\<exists>wait. check n m b' = (b', BreakerOpen wait) \<and> 0 < wait \<and> wait \<le> open_duration cfg))
    \<and> (n2 + open_duration cfg + 1000000 \<le> n \<longrightarrow>
      snd (check n m b') = Admitted \<and> breaker_state (fst (check n m b')) = HalfOpen)"
proof -
  have r: "run cfg n2 b'" using assms by (auto intro: run.recorded)
  have cfg: "open_duration (config b') = open_duration cfg" "enabled (config b')"
    using run_config [OF r] assms(2) by simp_all
  have base: "baseline b' = baseline b" and opened: "opened_at_millis b' = elapsed_millis b n2"
    using assms(2,3,6,7) run_config [OF assms(1)]
    by (cases outcome; auto simp: record_outcome_def Let_def split: BreakerState.splits if_splits)+
  have le: "baseline b' \<le> n2" using run_time [OF r] by (simp add: time_inv_def)
  have small: "millis b' n < 2 ^ 64" using assms(10) base by (simp add: millis_def)
  have "millis b' n2 \<le> millis b' n" by (rule millis_mono [OF assms(8)])
  with small base have "unat (opened_at_millis b') = millis b' n2"
    unfolding opened by (subst unat_elapsed) (simp_all add: millis_def)
  then have el: "open_elapsed b' n = (millis b' n - millis b' n2) * 1000000"
    by (simp add: open_elapsed_eq [OF small])
  show ?thesis
    using millis_diff_ge [OF le] millis_diff_less [OF le assms(8)] check_open_admits [OF run_inv [OF r], of n m]
      check_open_refuses [of b' n m] cfg assms(7) el
    by fastforce
qed

text \<open>
  C31. A breaker is never stuck: once one open duration and a millisecond have passed since
  the last operation on a reachable breaker, whatever its state and even if every probe
  slot is held by a caller that never reports back, the next check is admitted.
\<close>

theorem breaker_never_stuck:
  assumes "run cfg k b" and "k + open_duration cfg + 1000000 \<le> n" and "n \<le> m"
    and "(n - baseline b) div 1000000 < 2 ^ 64"
  shows "snd (check n m b) = Admitted"
proof -
  have inv: "breaker_inv b" and ti: "time_inv k b"
    using assms(1) by (simp_all add: run_inv run_time)
  have cfg: "open_duration (config b) = open_duration cfg" using run_config [OF assms(1)] by simp
  have small: "millis b n < 2 ^ 64" using assms(4) by (simp add: millis_def)
  have gap: "open_duration cfg \<le> (millis b n - millis b k) * 1000000"
    using ti assms(2) by (intro millis_diff_ge) (simp_all add: time_inv_def)
  have "millis b n - millis b k \<le> millis b n - unat (opened_at_millis b)"
    using ti by (simp add: time_inv_def diff_le_mono2)
  with gap have open_ok: "open_duration (config b) \<le> open_elapsed b n"
    unfolding open_elapsed_eq [OF small] cfg by (meson le_trans mult_le_mono1)
  have "unat (lease_millis b) \<le> open_duration cfg div 1000000"
    by (simp add: lease_millis_def unat_of_nat cfg)
  also have "\<dots> \<le> millis b n - millis b k" using gap by (metis div_le_mono div_mult_self_is_m zero_less_numeral)
  also have "\<dots> \<le> unat (saturating_sub64 (elapsed_millis b n) (probe_claimed_at_millis b))"
    using ti small by (simp add: unat_sat_sub unat_elapsed time_inv_def diff_le_mono2)
  finally have "lease_millis b \<le> saturating_sub64 (elapsed_millis b n) (probe_claimed_at_millis b)"
    by (simp add: word_le_nat_alt)
  then show ?thesis
    using check_open_admits [OF inv _ _ open_ok] probe_admits [of b n]
    by (cases "enabled (config b)"; cases "breaker_state b") (simp_all add: check_def)
qed

section \<open>When a closed breaker trips\<close>

text \<open>The specification: the samples of the window ask for a trip.\<close>

definition trips_on :: "BreakerConfig \<Rightarrow> (nat \<times> bool) list \<Rightarrow> bool" where
  "trips_on cfg hs =
     (let es = last_n MAX_WINDOW_ENTRIES (filter (recent (window_duration cfg) (fst (last hs))) hs)
      in min_samples cfg \<le> length es \<and> error_rate_threshold cfg \<le> rate_of es)"

definition feed :: "BreakerConfig \<Rightarrow> nat \<Rightarrow> (nat \<times> bool) list \<Rightarrow> breaker" where
  "feed cfg n hs =
     foldl (\<lambda>b (t, f). record_outcome t t (if f then Failure else Success) b) (with_clock cfg n) hs"

abbreviation window_after :: "BreakerConfig \<Rightarrow> (nat \<times> bool) list \<Rightarrow> SlidingWindow" where
  "window_after cfg hs \<equiv>
     foldl (\<lambda>w (t, f). window_evict (window_duration cfg) t (window_push f t w)) window_new hs"

lemma record_closed:
  assumes "enabled (config b)" "breaker_state b = Closed"
    and "w = window_evict (window_duration (config b)) t (window_push f t (window b))"
  shows "breaker_state (record_outcome t t (if f then Failure else Success) b) =
      (if min_samples (config b) \<le> sample_count w \<and> error_rate_threshold (config b) \<le> error_rate w
       then Open else Closed)"
    and "window (record_outcome t t (if f then Failure else Success) b) = w"
    and "config (record_outcome t t (if f then Failure else Success) b) = config b"
  using assms by (auto simp: record_outcome_def Let_def should_trip_def)

lemma feed_step:
  assumes "enabled cfg" "chronological (hs @ [(t, f)])"
    and "breaker_state (feed cfg n hs) = Closed" "window (feed cfg n hs) = window_after cfg hs"
      "config (feed cfg n hs) = cfg\<lparr>half_open_max_probes := max (half_open_max_probes cfg) 1\<rparr>"
  shows "breaker_state (feed cfg n (hs @ [(t, f)])) = (if trips_on cfg (hs @ [(t, f)]) then Open else Closed)
    \<and> window (feed cfg n (hs @ [(t, f)])) = window_after cfg (hs @ [(t, f)])
    \<and> config (feed cfg n (hs @ [(t, f)])) = config (feed cfg n hs)"
proof -
  let ?b = "feed cfg n hs"
  have fd: "feed cfg n (hs @ [(t, f)]) = record_outcome t t (if f then Failure else Success) ?b"
    by (simp add: feed_def)
  note r = record_closed [of ?b "window_after cfg (hs @ [(t, f)])" t f, folded fd]
  have w: "trips_on cfg (hs @ [(t, f)]) \<longleftrightarrow>
      min_samples cfg \<le> sample_count (window_after cfg (hs @ [(t, f)]))
      \<and> error_rate_threshold cfg \<le> error_rate (window_after cfg (hs @ [(t, f)]))"
    using win.record_history [OF assms(2), of "window_duration cfg"]
    by (simp add: trips_on_def Let_def win.rate win.cnt)
  show ?thesis unfolding w using r assms(1,3-5) by simp
qed

lemma feed_closed:
  assumes "enabled cfg" "chronological hs" "\<forall>k. 0 < k \<and> k \<le> length hs \<longrightarrow> \<not> trips_on cfg (take k hs)"
  shows "breaker_state (feed cfg n hs) = Closed \<and> window (feed cfg n hs) = window_after cfg hs
    \<and> config (feed cfg n hs) = cfg\<lparr>half_open_max_probes := max (half_open_max_probes cfg) 1\<rparr>"
  using assms(2,3)
proof (induction hs rule: rev_induct)
  case Nil
  then show ?case by (simp add: feed_def with_clock_def breaker_state_def)
next
  case (snoc h hs)
  obtain t f where h: "h = (t, f)" by (cases h)
  have "\<not> trips_on cfg (hs @ [(t, f)])" using snoc.prems(2) h by (auto dest: spec [of _ "Suc (length hs)"])
  moreover have "\<forall>k. 0 < k \<and> k \<le> length hs \<longrightarrow> \<not> trips_on cfg (take k hs)"
    using snoc.prems(2) by (metis butlast_snoc le_SucI length_append_singleton take_butlast
        take_append append_Nil2 diff_is_0_eq take0)
  moreover have "chronological hs" using snoc.prems(1) by (simp add: sorted_append)
  ultimately show ?case
    using snoc.IH feed_step [OF assms(1) snoc.prems(1) [unfolded h]] h by simp
qed

text \<open>
  A closed breaker trips exactly when it should: fed any chronological history in
  which no earlier prefix asked for a trip, it is open after the last outcome if and only
  if the window has the minimum number of samples and their failure rate reaches the
  threshold, and closed otherwise.
\<close>

theorem closed_trips_iff:
  assumes "enabled cfg" "chronological hs" "hs \<noteq> []"
    and "\<forall>k. 0 < k \<and> k < length hs \<longrightarrow> \<not> trips_on cfg (take k hs)"
  shows "breaker_state (feed cfg n hs) = (if trips_on cfg hs then Open else Closed)"
proof -
  obtain gs t f where hs: "hs = gs @ [(t, f)]" using assms(3) by (metis rev_exhaust surj_pair)
  have "\<forall>k. 0 < k \<and> k \<le> length gs \<longrightarrow> \<not> trips_on cfg (take k gs)"
    using assms(4) hs by (auto dest: spec)
  moreover have "chronological gs" using assms(2) hs by (simp add: sorted_append)
  ultimately show ?thesis
    using feed_closed [OF assms(1), of gs n] feed_step [OF assms(1) assms(2) [unfolded hs], of n] hs
    by simp
qed

section \<open>How many probes a half-open breaker admits\<close>

fun checks :: "nat list \<Rightarrow> breaker \<Rightarrow> breaker \<times> admission list" where
  "checks [] b = (b, [])"
| "checks (n # ns) b =
     (let (b', a) = check n n b; (b'', as) = checks ns b' in (b'', a # as))"

definition admitted :: "admission list \<Rightarrow> nat" where
  "admitted as = length (filter (\<lambda>a. a = Admitted) as)"

lemma check_half_open:
  assumes "enabled (config b)" "breaker_state b = HalfOpen"
  shows "check n m b = try_half_open_probe n b"
  using assms by (simp add: check_def)

lemma probe_slot:
  assumes "unat (half_open_probes b) < half_open_max_probes (config b)" "half_open_max_probes (config b) < 2 ^ 64"
  shows "snd (try_half_open_probe n b) = Admitted"
    and "unat (half_open_probes (fst (try_half_open_probe n b))) = Suc (unat (half_open_probes b))"
    and "probe_claimed_at_millis (fst (try_half_open_probe n b)) = elapsed_millis b n"
  using assms by (auto simp: try_half_open_probe_def Let_def unat_word_ariths)

lemma probe_full:
  assumes "\<not> unat (half_open_probes b) < half_open_max_probes (config b)"
    and "unat (elapsed_millis b n) < unat (probe_claimed_at_millis b) + unat (lease_millis b)"
    and "0 < unat (lease_millis b)"
  shows "snd (try_half_open_probe n b) \<noteq> Admitted"
    and "half_open_probes (fst (try_half_open_probe n b)) = half_open_probes b"
    and "probe_claimed_at_millis (fst (try_half_open_probe n b)) = probe_claimed_at_millis b"
proof -
  have "\<not> lease_millis b \<le> saturating_sub64 (elapsed_millis b n) (probe_claimed_at_millis b)"
    using assms(2,3) by (auto simp: word_le_nat_alt unat_sat_sub)
  with assms(1) show "snd (try_half_open_probe n b) \<noteq> Admitted"
    "half_open_probes (fst (try_half_open_probe n b)) = half_open_probes b"
    "probe_claimed_at_millis (fst (try_half_open_probe n b)) = probe_claimed_at_millis b"
    by (auto simp: try_half_open_probe_def Let_def lease_millis_def)
qed

lemma lease_config: "config b' = config b \<Longrightarrow> lease_millis b' = lease_millis b"
  by (simp add: lease_millis_def)

lemma elapsed_baseline: "baseline b' = baseline b \<Longrightarrow> elapsed_millis b' n = elapsed_millis b n"
  by (simp add: elapsed_millis_def)

lemma min_step: "p < m \<Longrightarrow> min (Suc l) (m - p) = Suc (min l (m - Suc p))"
  by (metis Suc_diff_Suc min_Suc_Suc)

lemma checks_admitted:
  assumes "enabled (config b)" "breaker_state b = HalfOpen"
    and "unat (half_open_probes b) \<le> half_open_max_probes (config b)" "half_open_max_probes (config b) < 2 ^ 64"
    and "c \<le> unat (probe_claimed_at_millis b)"
    and "\<forall>n \<in> set ns. c \<le> unat (elapsed_millis b n) \<and> unat (elapsed_millis b n) < c + unat (lease_millis b)"
  shows "admitted (snd (checks ns b)) =
    min (length ns) (half_open_max_probes (config b) - unat (half_open_probes b))"
  using assms
proof (induction ns arbitrary: b)
  case (Cons n ns)
  let ?b = "fst (try_half_open_probe n b)"
  have same: "config ?b = config b" "breaker_state ?b = HalfOpen" "baseline ?b = baseline b"
    using Cons.prems(2) by simp_all
  have times: "\<forall>k \<in> set ns. c \<le> unat (elapsed_millis ?b k) \<and> unat (elapsed_millis ?b k) < c + unat (lease_millis ?b)"
    using Cons.prems(6) by (simp add: lease_config [OF same(1)] elapsed_baseline [OF same(3)])
  have dec: "snd (checks (n # ns) b) = snd (try_half_open_probe n b) # snd (checks ns ?b)"
    using Cons.prems(1,2) by (simp add: check_half_open split: prod.split)
  show ?case
  proof (cases "unat (half_open_probes b) < half_open_max_probes (config b)")
    case True
    note slot = probe_slot [OF True Cons.prems(4), of n]
    from Cons.IH [of ?b] slot True Cons.prems same times show ?thesis
      by (simp add: dec admitted_def min_step del: checks.simps)
  next
    case False
    note full = probe_full [OF False, of n]
    have "unat (elapsed_millis b n) < unat (probe_claimed_at_millis b) + unat (lease_millis b)"
      and "0 < unat (lease_millis b)"
      using Cons.prems(5,6) by fastforce+
    note full = full [OF this]
    from Cons.IH [of ?b] full False Cons.prems same times show ?thesis
      by (simp add: dec admitted_def del: checks.simps)
  qed
qed (simp add: admitted_def)

lemma check_open_claims:
  assumes "breaker_inv b" "enabled (config b)" "breaker_state b = Open"
    and "half_open_max_probes (config b) < 2 ^ 64" "open_duration (config b) \<le> open_elapsed b n"
    and "b' = fst (check n n b)"
  shows "config b' = config b" "baseline b' = baseline b" "breaker_state b' = HalfOpen"
    "unat (half_open_probes b') = 1" "probe_claimed_at_millis b' = elapsed_millis b n"
proof -
  obtain s where "state b = as_u8 s" "breaker_state b = s" using state_cases [OF assms(1)] .
  moreover define c where "c = notify (StateChange Open HalfOpen ''open_elapsed'')
      (b\<lparr>state := as_u8 HalfOpen, is_open_fast := False\<rparr>)"
  ultimately have b': "b' = fst (try_half_open_probe n c)"
    using assms(2,3,5,6) by (simp add: check_def check_open_def cas_state_def)
  have c: "config c = config b" "baseline c = baseline b" "breaker_state c = HalfOpen"
      "half_open_probes c = 0" "elapsed_millis c n = elapsed_millis b n"
    using assms(1,3) by (simp_all add: c_def breaker_inv_def elapsed_millis_def)
  have "unat (half_open_probes c) < half_open_max_probes (config c)"
    using assms(1) c by (simp add: breaker_inv_def)
  note slot = probe_slot [OF this, of n]
  show "config b' = config b" "baseline b' = baseline b" "breaker_state b' = HalfOpen"
    "unat (half_open_probes b') = 1" "probe_claimed_at_millis b' = elapsed_millis b n"
    using slot assms(4) c by (simp_all add: b')
qed


section \<open>What an observer sees\<close>

definition changes :: "breaker \<Rightarrow> (BreakerState \<times> BreakerState) list" where
  "changes b =
     List.map_filter (\<lambda>(_, e). case e of StateChange p q _ \<Rightarrow> Some (p, q) | _ \<Rightarrow> None) (notified b)"

definition transition :: "BreakerState \<Rightarrow> BreakerState \<Rightarrow> bool" where
  "transition p q \<longleftrightarrow> (p, q) \<in> {(Closed, Open), (Open, HalfOpen), (HalfOpen, Open), (HalfOpen, Closed)}"

fun path :: "BreakerState \<Rightarrow> (BreakerState \<times> BreakerState) list \<Rightarrow> BreakerState \<Rightarrow> bool" where
  "path s [] t \<longleftrightarrow> s = t"
| "path s ((p, q) # es) t \<longleftrightarrow> s = p \<and> transition p q \<and> path q es t"

lemma path_snoc: "path s (es @ [(p, q)]) t \<longleftrightarrow> path s es p \<and> transition p q \<and> q = t"
  by (induction s es t rule: path.induct) auto

definition log_ok :: "breaker \<Rightarrow> bool" where
  "log_ok b =
     (case observer b of
        None \<Rightarrow> notified b = []
      | Some obs \<Rightarrow>
          (\<forall>x \<in> set (notified b). fst x = obs) \<and> (\<exists>s. path s (changes b) (breaker_state b)))"

lemma log_ok_same:
  assumes "log_ok b" "observer b' = observer b" "notified b' = notified b"
    "breaker_state b' = breaker_state b"
  shows "log_ok b'"
  using assms by (simp add: log_ok_def changes_def split: option.splits)

lemma log_ok_other:
  assumes "log_ok b" and "\<And>p q r. e \<noteq> StateChange p q r"
  shows "log_ok (notify e b)"
  using assms
  by (cases e) (auto simp: log_ok_def notify_def changes_def List.map_filter_def breaker_state_def
      split: option.splits)

lemma log_ok_change:
  assumes "log_ok b" "breaker_state b = p" "transition p q" "observer b' = observer b"
    "notified b' = notified b" "breaker_state b' = q"
  shows "log_ok (notify (StateChange p q r) b')"
proof (cases "observer b")
  case (Some obs)
  with assms(1) obtain s where "path s (changes b) p" using assms(2) by (auto simp: log_ok_def)
  then have "path s (changes b @ [(p, q)]) q" using assms(3) by (simp add: path_snoc)
  with Some assms show ?thesis
    by (auto simp: log_ok_def notify_def changes_def List.map_filter_def breaker_state_def)
qed (use assms in \<open>auto simp: log_ok_def notify_def\<close>)

lemma probe_log: "log_ok b \<Longrightarrow> log_ok (fst (try_half_open_probe n b))"
  by (auto simp: try_half_open_probe_def Let_def intro!: log_ok_other elim: log_ok_same)

lemma check_log:
  assumes "log_ok b"
  shows "log_ok (fst (check n1 n2 b))"
proof -
  have "log_ok (notify (StateChange Open HalfOpen r) (b\<lparr>state := as_u8 HalfOpen, is_open_fast := False\<rparr>))"
    if "breaker_state b = Open" for r
    using assms that by (intro log_ok_change [of b]) (simp_all add: transition_def)
  with assms probe_log show ?thesis
    by (auto simp: check_def check_open_def cas_state_def split: BreakerState.split)
qed

lemma trip_log:
  assumes "log_ok b" "breaker_state b = p" "transition p Open"
  shows "log_ok (trip n p r b)"
  using assms
  by (auto simp: trip_def Let_def transition_def intro!: log_ok_change [of b])

lemma close_log:
  assumes "log_ok b" "breaker_state b = HalfOpen"
  shows "log_ok (close HalfOpen r b)"
  using assms by (auto simp: close_def Let_def transition_def intro!: log_ok_change [of b])

lemma sample_log: "log_ok b \<Longrightarrow> log_ok (record_sample f n b)"
  by (erule log_ok_same) simp_all

lemma record_log:
  assumes "log_ok b"
  shows "log_ok (record_outcome n1 n2 outcome b)"
  using assms
  by (auto simp: record_outcome_def Let_def transition_def
      intro!: log_ok_other trip_log close_log sample_log split: BreakerState.split)

text \<open>
  The installed observer sees a path of the state machine: every callback goes to the
  first observer installed, and the state changes it is told connect without gaps, use
  only the transitions Closed to Open, Open to HalfOpen and HalfOpen to Open or Closed, and
  end in the breaker's current state.
\<close>

theorem observer_sees_path:
  assumes "run cfg n b"
  shows "case observer b of
      None \<Rightarrow> notified b = []
    | Some obs \<Rightarrow> (\<forall>x \<in> set (notified b). fst x = obs) \<and> (\<exists>s. path s (changes b) (breaker_state b))"
proof -
  from assms have "log_ok b"
  proof (induction rule: run.induct)
    case (created n)
    then show ?case by (simp add: log_ok_def with_clock_def)
  next
    case (observed n b obs)
    have "path (breaker_state b) [] (breaker_state b)" by simp
    with observed.IH show ?case
      by (auto simp: with_observer_def log_ok_def changes_def List.map_filter_def breaker_state_def
          split: option.splits intro: exI [of _ "from_u8 (state b)"])
  next
    case (rated n b n1)
    from rated.IH show ?case by (rule log_ok_same) (simp_all add: breaker_error_rate_def Let_def)
  qed (simp_all add: check_log record_log)
  then show ?thesis by (simp add: log_ok_def)
qed

section \<open>Witnesses\<close>

definition demo_config :: BreakerConfig where
  "demo_config = config_server\<lparr>min_samples := 1, half_open_max_probes := 2\<rparr>"

definition demo_new :: breaker where
  "demo_new = with_observer 7 (with_clock demo_config 0)"

definition demo_open :: breaker where
  "demo_open = record_outcome 1000000 2000000 Failure demo_new"

lemma demo_config_sel:
  "window_duration demo_config = 60000000000" "min_samples demo_config = 1"
  "error_rate_threshold demo_config = 1 / 2" "open_duration demo_config = 10000000000"
  "half_open_max_probes demo_config = 2" "enabled demo_config" "config_ok demo_config"
  by (simp_all add: demo_config_def config_server_def from_secs_def config_ok_def
      default_failure_codes_def DEFAULT_FAILURE_CODES_def)

lemma demo_run: "run demo_config 0 demo_new" "run demo_config 2000000 demo_open"
proof -
  show new: "run demo_config 0 demo_new"
    unfolding demo_new_def by (intro run.observed run.created)
  show "run demo_config 2000000 demo_open"
    unfolding demo_open_def by (rule run.recorded [OF new]) simp_all
qed

lemma demo_new_sel:
  "config demo_new = demo_config" "breaker_state demo_new = Closed" "baseline demo_new = 0"
  "window demo_new = window_new"
  using demo_config_sel(5)
  by (simp_all add: demo_new_def with_observer_def with_clock_def breaker_state_def max_def
      demo_config_def)

lemma demo_trips: "should_trip (record_sample True 1000000 demo_new)"
  by (simp add: should_trip_def demo_new_sel demo_config_sel window_evict_def checked_sub_def
      window_push_def pop_full_def window_new_def sample_count_def error_rate_def
      MAX_WINDOW_ENTRIES_def)

lemma demo_open_sel:
  "breaker_state demo_open = Open" "config demo_open = demo_config" "baseline demo_open = 0"
  "opened_at_millis demo_open = 2"
  using demo_trips
  by (simp_all add: demo_open_def record_outcome_def demo_new_sel demo_config_sel elapsed_millis_def)

lemma demo_lease: "unat (lease_millis demo_open) = 10000"
  by (simp add: lease_millis_def demo_open_sel demo_config_sel unat_of_nat)


theorem open_cool_down_witness:
  "(\<exists>wait. check 9000000000 9000000000 demo_open = (demo_open, BreakerOpen wait) \<and> 0 < wait)
   \<and> snd (check 10003000000 10003000000 demo_open) = Admitted"
  using open_cool_down [OF demo_run(1), of 1000000 2000000 demo_open Failure 9000000000 9000000000]
    open_cool_down [OF demo_run(1), of 1000000 2000000 demo_open Failure 10003000000 10003000000]
  by (simp add: demo_config_sel demo_new_sel demo_open_sel) (auto simp: demo_open_def)

theorem breaker_never_stuck_witness:
  "snd (check 10003000000 10003000000 demo_open) = Admitted"
  using breaker_never_stuck [OF demo_run(2), of 10003000000 10003000000]
  by (simp add: demo_config_sel demo_open_sel)

theorem closed_trips_iff_witness:
  "breaker_state (feed demo_config 0 [(1, False), (2, True)]) = Open"
proof -
  have one: "\<not> trips_on demo_config [(1, False)]" and two: "trips_on demo_config [(1, False), (2, True)]"
    by (simp_all add: trips_on_def demo_config_sel recent_def rate_of_def MAX_WINDOW_ENTRIES_def)
  have "\<forall>k. 0 < k \<and> k < length [(1 :: nat, False), (2, True)] \<longrightarrow>
      \<not> trips_on demo_config (take k [(1, False), (2, True)])"
    using one by (auto simp: take_Cons' less_Suc_eq)
  from closed_trips_iff [OF demo_config_sel(6) _ _ this, of 0] two show ?thesis by simp
qed


theorem observer_sees_path_witness:
  "list_all (\<lambda>x. fst x = 7) (notified demo_open) \<and> (\<exists>s. path s (changes demo_open) Open)"
proof -
  have "observer demo_open = Some 7"
    using demo_trips
    by (simp add: demo_open_def record_outcome_def demo_new_sel demo_config_sel)
      (simp add: demo_new_def with_observer_def with_clock_def)
  with observer_sees_path [OF demo_run(2)] show ?thesis by (simp add: demo_open_sel list_all_iff)
qed

end
