(* ===== verification/Breaker_Race.thy ===== *)
theory Breaker_Race
  imports Breaker
begin

text \<open>
  The circuit breaker under concurrency (\<^verbatim>\<open>breaker.rs\<close>). A breaker handle is shared by
  threads and its cells are atomics, so an operation is not one step: \<open>pc\<close> is the point a
  thread has reached inside \<^verbatim>\<open>check\<close> or \<^verbatim>\<open>record\<close>, and \<open>thread_step\<close> carries out its next
  atomic access (the window's mutex makes the window update one step). Observer callbacks
  touch no cell and are left out here. \<open>system\<close> interleaves the threads.

  The lemmas show that the steps of one thread that is not disturbed are the sequential
  operation of theory \<^verbatim>\<open>Breaker\<close>, that concurrent checks never claim more probe slots than
  configured, and what a trip between two accesses of a refused probe does.
\<close>

section \<open>Definitions\<close>

datatype pc =
    Idle
  | CheckLoad
  | OpenLoad
  | OpenClock "64 word"
  | OpenCas
  | OpenFast
  | OpenReload
  | OpenReopen
  | OpenReclock "64 word"
  | ProbeClock
  | ProbeAdd "64 word"
  | ProbeClaim "64 word"
  | ProbeSub "64 word"
  | ProbeLoad "64 word"
  | ProbeCas "64 word" "64 word"
  | Done admission
  | Leased
  | RecStart Outcome
  | RecState bool nat
  | RecWindow bool nat bool
  | TripState
  | TripClock
  | TripOpened "64 word"
  | TripProbes
  | TripFast
  | CloseState
  | CloseWindow
  | CloseProbes
  | CloseFast
  | Recorded

definition probe_backoff :: "breaker \<Rightarrow> nat" where
  "probe_backoff b = min HALF_OPEN_PROBE_BACKOFF (open_duration (config b))"

definition elapsed_since :: "breaker \<Rightarrow> nat \<Rightarrow> 64 word \<Rightarrow> nat" where
  "elapsed_since b n opened = from_millis (saturating_sub64 (elapsed_millis b n) opened)"

text \<open>
  The next access of a thread; \<open>n\<close> is what the clock shows if the step reads it.
  \<open>Done\<close> is the return of \<^verbatim>\<open>check\<close>, \<open>Leased\<close> its return with an abandoned claim taken over,
  \<open>Recorded\<close> the return of \<^verbatim>\<open>record\<close>.
\<close>

fun check_step :: "nat \<Rightarrow> breaker \<Rightarrow> pc \<Rightarrow> breaker \<times> pc" where
  "check_step n b CheckLoad =
     (b, if \<not> enabled (config b) then Done Admitted
         else (case breaker_state b of Closed \<Rightarrow> Done Admitted | Open \<Rightarrow> OpenLoad | HalfOpen \<Rightarrow> ProbeClock))"
| "check_step n b OpenLoad = (b, OpenClock (opened_at_millis b))"
| "check_step n b (OpenClock opened) =
     (b, if open_duration (config b) \<le> elapsed_since b n opened then OpenCas
         else Done (BreakerOpen (open_duration (config b) - elapsed_since b n opened)))"
| "check_step n b OpenCas =
     (case cas_state Open HalfOpen b of (b', won) \<Rightarrow> (b', if won then OpenFast else OpenReload))"
| "check_step n b OpenFast = (b\<lparr>is_open_fast := False\<rparr>, ProbeClock)"
| "check_step n b OpenReload =
     (b, case breaker_state b of Closed \<Rightarrow> Done Admitted | HalfOpen \<Rightarrow> ProbeClock | Open \<Rightarrow> OpenReopen)"
| "check_step n b OpenReopen = (b, OpenReclock (opened_at_millis b))"
| "check_step n b (OpenReclock opened) =
     (b, Done (BreakerOpen (open_duration (config b) - elapsed_since b n opened)))"
| "check_step n b ProbeClock = (b, ProbeAdd (elapsed_millis b n))"
| "check_step n b (ProbeAdd now) =
     (b\<lparr>half_open_probes := half_open_probes b + 1\<rparr>,
      if unat (half_open_probes b) < half_open_max_probes (config b) then ProbeClaim now else ProbeSub now)"
| "check_step n b (ProbeClaim now) = (b\<lparr>probe_claimed_at_millis := now\<rparr>, Done Admitted)"
| "check_step n b (ProbeSub now) = (b\<lparr>half_open_probes := half_open_probes b - 1\<rparr>, ProbeLoad now)"
| "check_step n b (ProbeLoad now) =
     (b, if lease_millis b \<le> saturating_sub64 now (probe_claimed_at_millis b)
         then ProbeCas now (probe_claimed_at_millis b)
         else Done (BreakerOpen (probe_backoff b)))"
| "check_step n b (ProbeCas now claimed) =
     (if probe_claimed_at_millis b = claimed then (b\<lparr>probe_claimed_at_millis := now\<rparr>, Leased)
      else (b, Done (BreakerOpen (probe_backoff b))))"
| "check_step n b pc = (b, pc)"

fun record_step :: "nat \<Rightarrow> breaker \<Rightarrow> pc \<Rightarrow> breaker \<times> pc" where
  "record_step n b (RecStart outcome) =
     (b, if \<not> enabled (config b) then Recorded else RecState (outcome = Failure) n)"
| "record_step n b (RecState is_failure now) =
     (b, case breaker_state b of
           Closed \<Rightarrow> RecWindow is_failure now True
         | Open \<Rightarrow> RecWindow is_failure now False
         | HalfOpen \<Rightarrow> (if is_failure then TripState else CloseState))"
| "record_step n b (RecWindow is_failure now may_trip) =
     (let b' = record_sample is_failure now b
      in (b', if may_trip \<and> should_trip b' then TripState else Recorded))"
| "record_step n b TripState = (b\<lparr>state := as_u8 Open\<rparr>, TripClock)"
| "record_step n b TripClock = (b, TripOpened (elapsed_millis b n))"
| "record_step n b (TripOpened w) = (b\<lparr>opened_at_millis := w\<rparr>, TripProbes)"
| "record_step n b TripProbes = (b\<lparr>half_open_probes := 0\<rparr>, TripFast)"
| "record_step n b TripFast = (b\<lparr>is_open_fast := True\<rparr>, Recorded)"
| "record_step n b CloseState = (b\<lparr>state := as_u8 Closed\<rparr>, CloseWindow)"
| "record_step n b CloseWindow = (b\<lparr>window := window_clear (window b)\<rparr>, CloseProbes)"
| "record_step n b CloseProbes = (b\<lparr>half_open_probes := 0\<rparr>, CloseFast)"
| "record_step n b CloseFast = (b\<lparr>is_open_fast := False\<rparr>, Recorded)"
| "record_step n b pc = (b, pc)"

fun recording :: "pc \<Rightarrow> bool" where
  "recording (RecStart _) = True" | "recording (RecState _ _) = True"
| "recording (RecWindow _ _ _) = True" | "recording TripState = True" | "recording TripClock = True"
| "recording (TripOpened _) = True" | "recording TripProbes = True" | "recording TripFast = True"
| "recording CloseState = True" | "recording CloseWindow = True" | "recording CloseProbes = True"
| "recording CloseFast = True" | "recording Recorded = True" | "recording _ = False"

definition thread_step :: "nat \<Rightarrow> breaker \<Rightarrow> pc \<Rightarrow> breaker \<times> pc" where
  "thread_step n b pc = (if recording pc then record_step n b pc else check_step n b pc)"

text \<open>A schedule names the thread that moves and what the clock shows.\<close>

type_synonym threads = "nat \<Rightarrow> pc"

fun exec :: "(nat \<times> nat) list \<Rightarrow> breaker \<times> threads \<Rightarrow> breaker \<times> threads" where
  "exec [] c = c"
| "exec ((i, n) # sched) (b, ps) =
     (let (b', p) = thread_step n b (ps i) in exec sched (b', ps(i := p)))"

inductive system :: "breaker \<times> threads \<Rightarrow> breaker \<times> threads \<Rightarrow> bool" where
  start: "system c c"
| move: "system c (b, ps) \<Longrightarrow> thread_step n b (ps i) = (b', p) \<Longrightarrow> system c (b', ps(i := p))"

lemma exec_system: "system c d \<Longrightarrow> system c (exec sched d)"
proof (induction sched d rule: exec.induct)
  case (2 i n sched b ps)
  obtain b' p where "thread_step n b (ps i) = (b', p)" by (cases "thread_step n b (ps i)")
  with 2 show ?case by (simp add: system.move)
qed simp

section \<open>One undisturbed thread\<close>

fun solo :: "nat \<Rightarrow> nat \<Rightarrow> breaker \<times> pc \<Rightarrow> breaker \<times> pc" where
  "solo 0 n c = c"
| "solo (Suc k) n (b, pc) = solo k n (thread_step n b pc)"

lemma solo_done [simp]: "solo k n (b, Done a) = (b, Done a)" "solo k n (b, Leased) = (b, Leased)"
  "solo k n (b, Recorded) = (b, Recorded)"
  by (induction k) (simp_all add: thread_step_def)

definition returned :: "pc \<Rightarrow> admission option" where
  "returned pc = (case pc of Done a \<Rightarrow> Some a | Leased \<Rightarrow> Some Admitted | _ \<Rightarrow> None)"

lemma notify_None: "observer b = None \<Longrightarrow> notify e b = b"
  by (simp add: notify_def)

lemma solo_Suc: "solo (Suc k) n (b, pc) = solo k n (thread_step n b pc)"
  by simp

lemma solo_probe:
  assumes "observer b = None" and "5 \<le> k"
  shows "fst (solo k n (b, ProbeClock)) = fst (try_half_open_probe n b)
    \<and> returned (snd (solo k n (b, ProbeClock))) = Some (snd (try_half_open_probe n b))"
proof -
  obtain m where "k = 5 + m" using assms(2) le_Suc_ex by blast
  then have k: "k = Suc (Suc (Suc (Suc (Suc m))))" by (simp add: eval_nat_numeral)
  show ?thesis
    using assms(1)
    by (simp add: k thread_step_def try_half_open_probe_def Let_def notify_None returned_def
        lease_millis_def probe_backoff_def elapsed_millis_def)
qed

lemma solo_check_open:
  assumes "observer b = None" "breaker_state b = Open" "state b = as_u8 Open" "10 \<le> k"
  shows "fst (solo k n (b, OpenLoad)) = fst (check_open n n b)
    \<and> returned (snd (solo k n (b, OpenLoad))) = Some (snd (check_open n n b))"
proof -
  have "k = Suc (Suc (Suc (Suc (k - 4))))" and j: "5 \<le> k - 4" using assms(4) by arith+
  then obtain j where k: "k = Suc (Suc (Suc (Suc j)))" "5 \<le> j" by blast
  let ?c = "b\<lparr>state := as_u8 HalfOpen, is_open_fast := False\<rparr>"
  have "observer ?c = None" using assms(1) by simp
  note p = solo_probe [OF this k(2), of n]
  show ?thesis
    using assms(1-3) p
    by (simp add: k(1) thread_step_def check_open_def cas_state_def open_elapsed_def elapsed_since_def
        notify_None returned_def del: as_u8_inject)
qed

text \<open>
  The atomic steps refine the sequential machine: the accesses of one thread, run
  without interference, leave the cells as the sequential \<^verbatim>\<open>check\<close> and \<^verbatim>\<open>record\<close> do and
  return the same admission.
\<close>

theorem undisturbed_thread_is_sequential:
  assumes "breaker_inv b" and "observer b = None" and "12 \<le> k"
  shows "fst (solo k n (b, CheckLoad)) = fst (check n n b)
    \<and> returned (snd (solo k n (b, CheckLoad))) = Some (snd (check n n b))
    \<and> solo k n (b, RecStart outcome) = (record_outcome n n outcome b, Recorded)"
proof -
  obtain s where s: "state b = as_u8 s" "breaker_state b = s" using state_cases [OF assms(1)] .
  have "k = Suc (k - 1)" "10 \<le> k - 1" using assms(3) by arith+
  then obtain j where j: "k = Suc j" "10 \<le> j" by blast
  have "k = Suc (Suc (Suc (Suc (Suc (Suc (Suc (Suc (k - 8))))))))" using assms(3) by arith
  then obtain i where i: "k = Suc (Suc (Suc (Suc (Suc (Suc (Suc (Suc i)))))))" by blast
  have "fst (solo k n (b, CheckLoad)) = fst (check n n b)
      \<and> returned (snd (solo k n (b, CheckLoad))) = Some (snd (check n n b))"
    using solo_probe [OF assms(2), of j n] solo_check_open [OF assms(2), of j n] s j(2)
    by (cases s) (simp_all add: j(1) thread_step_def check_def returned_def)
  moreover have "solo k n (b, RecStart outcome) = (record_outcome n n outcome b, Recorded)"
    using s assms(2)
    by (cases s; cases outcome)
      (simp_all add: i thread_step_def record_outcome_def Let_def notify_None trip_def close_def
        elapsed_millis_def record_sample_def)
  ultimately show ?thesis by blast
qed

section \<open>Concurrent checks\<close>

fun is_slot :: "pc \<Rightarrow> bool" where
  "is_slot (Done a) = (a = Admitted)" | "is_slot (ProbeClaim _) = True" | "is_slot _ = False"

fun is_sub :: "pc \<Rightarrow> bool" where
  "is_sub (ProbeSub _) = True" | "is_sub _ = False"

abbreviation slots :: "threads \<Rightarrow> nat" where "slots ps \<equiv> card {i. is_slot (ps i)}"
abbreviation subs :: "threads \<Rightarrow> nat" where "subs ps \<equiv> card {i. is_sub (ps i)}"

lemma card_upd:
  assumes "finite {j. P (f j)}"
  shows "card {j. P ((f(i := y)) j)} + (if P (f i) then 1 else 0) =
    card {j. P (f j)} + (if P y then 1 else 0)"
proof -
  let ?A = "{j. P (f j)} - {i}"
  have fin: "finite ?A" using assms by simp
  have "{j. P ((f(i := y)) j)} = (if P y then insert i ?A else ?A)" by auto
  then have new: "card {j. P ((f(i := y)) j)} = card ?A + (if P y then 1 else 0)"
    using assms by (simp add: card.insert_remove)
  have "card {j. P (f j)} = card ?A + (if P (f i) then 1 else 0)"
    using card_Suc_Diff1 [OF assms, of i] by (cases "P (f i)") simp_all
  with new show ?thesis by simp
qed

definition probes_inv :: "nat set \<Rightarrow> BreakerConfig \<Rightarrow> breaker \<times> threads \<Rightarrow> bool" where
  "probes_inv T cfg c =
     (case c of (b, ps) \<Rightarrow>
        config b = cfg \<and> breaker_state b \<noteq> Closed
        \<and> (\<forall>i. (i \<notin> T \<longrightarrow> ps i = Idle) \<and> \<not> recording (ps i))
        \<and> unat (half_open_probes b) = subs ps + slots ps
        \<and> slots ps \<le> half_open_max_probes cfg)"

text \<open>The threads that hold a slot or are about to return one, without thread \<open>i\<close>.\<close>

lemma claims_bound:
  assumes "finite T" "\<forall>j. j \<notin> T \<longrightarrow> ps j = Idle" "i \<in> T" "\<not> is_slot (ps i)" "\<not> is_sub (ps i)"
  shows "subs ps + slots ps < card T"
proof -
  let ?S = "{j. is_sub (ps j)} \<union> {j. is_slot (ps j)}"
  have sub: "?S \<subseteq> T - {i}"
  proof
    fix j assume "j \<in> ?S"
    with assms(2,4,5) show "j \<in> T - {i}" by (metis (mono_tags, lifting) Diff_iff UnE is_slot.simps(3)
          is_sub.simps(2) mem_Collect_eq singletonD)
  qed
  have "{j. is_sub (ps j)} \<inter> {j. is_slot (ps j)} = {}"
    by (auto elim: is_sub.elims)
  then have "subs ps + slots ps = card ?S"
    using sub assms(1) by (metis card_Un_disjoint finite_Diff finite_Un finite_subset)
  also have "\<dots> \<le> card (T - {i})" using sub assms(1) by (simp add: card_mono)
  also have "\<dots> < card T" using assms(1,3) by (rule card_Diff1_less)
  finally show ?thesis .
qed

lemma check_step_quiet: "\<not> recording pc \<Longrightarrow> \<not> recording (snd (check_step n b pc))"
  by (cases pc) (auto simp: cas_state_def split: BreakerState.split)

lemma probes_inv_step:
  assumes inv: "probes_inv T cfg (b, ps)" and T: "finite T" "card T < 2 ^ 64" and en: "enabled cfg"
    and step: "thread_step n b (ps i) = (b', p)"
  shows "probes_inv T cfg (b', ps(i := p))"
proof -
  have cfg: "config b = cfg" and st: "breaker_state b \<noteq> Closed"
    and idle: "\<forall>j. j \<notin> T \<longrightarrow> ps j = Idle" and norec: "\<forall>j. \<not> recording (ps j)"
    and cnt: "unat (half_open_probes b) = subs ps + slots ps" and le: "slots ps \<le> half_open_max_probes cfg"
    using inv by (auto simp: probes_inv_def)
  have step': "check_step n b (ps i) = (b', p)"
    using step norec by (simp add: thread_step_def)
  have fin: "finite {j. is_slot (ps j)}" "finite {j. is_sub (ps j)}"
    using T(1) idle by (auto intro!: finite_subset [OF _ T(1)])
  define qs where "qs = ps(i := p)"
  note upd = card_upd [of is_slot, OF fin(1), of i p, folded qs_def]
    card_upd [of is_sub, OF fin(2), of i p, folded qs_def]
  have "p = Idle" if "i \<notin> T" using idle step' that by auto
  moreover have "\<not> recording p" using check_step_quiet [of "ps i" n b] norec step' by simp
  ultimately have threads: "\<forall>j. (j \<notin> T \<longrightarrow> qs j = Idle) \<and> \<not> recording (qs j)"
    using idle norec by (simp add: qs_def)
  have "config b' = cfg \<and> breaker_state b' \<noteq> Closed
    \<and> unat (half_open_probes b') = subs qs + slots qs \<and> slots qs \<le> half_open_max_probes cfg"
  proof (cases "ps i")
    case (ProbeAdd now)
    have i: "i \<in> T" using idle ProbeAdd by force
    have "subs ps + slots ps < card T"
      using claims_bound [OF T(1) idle i] ProbeAdd by simp
    then have "unat (half_open_probes b + 1) = Suc (subs ps + slots ps)"
      using cnt T(2) by (simp add: unat_word_ariths)
    with ProbeAdd step' upd cfg st cnt le show ?thesis by (auto split: if_splits)
  next
    case (ProbeSub now)
    have "0 < subs ps" using ProbeSub fin(2) by (auto simp: card_gt_0_iff intro: exI [of _ i])
    then have "unat (half_open_probes b - 1) = subs ps + slots ps - 1"
      using cnt by (metis add_gr_0 less_not_refl2 unat_0 unat_minus_one)
    with ProbeSub step' upd cfg st cnt le show ?thesis by auto
  next
    case OpenCas
    with step' upd cfg st cnt le show ?thesis by (auto simp: cas_state_def split: if_splits)
  qed (insert step' upd cfg st cnt le en norec [rule_format, of i],
      auto split: if_splits BreakerState.splits)
  with threads show ?thesis by (simp add: probes_inv_def qs_def del: fun_upd_apply)
qed

text \<open>
  C33. However the threads interleave, checks that start while the breaker is open or
  half-open with no probe in flight claim at most the configured number of probe slots, as
  long as no outcome is recorded; the probe counter is always the number of claimed slots
  and of claims being taken back.
\<close>

theorem concurrent_probe_slots:
  assumes "system (b0, ps0) (b, ps)"
    and "finite {i. ps0 i = CheckLoad}" "card {i. ps0 i = CheckLoad} < 2 ^ 64"
    and "\<forall>i. ps0 i = CheckLoad \<or> ps0 i = Idle"
    and "enabled (config b0)" "breaker_state b0 \<noteq> Closed" "half_open_probes b0 = 0"
  shows "card {i. is_slot (ps i)} \<le> half_open_max_probes (config b0)
    \<and> unat (half_open_probes b) = card {i. is_sub (ps i)} + card {i. is_slot (ps i)}"
proof -
  let ?T = "{i. ps0 i = CheckLoad}"
  have "probes_inv ?T (config b0) c'" if "system c c'" "c = (b0, ps0)" for c c'
    using that
  proof (induction rule: system.induct)
    case (start c)
    have "{i. is_slot (ps0 i)} = {}" "{i. is_sub (ps0 i)} = {}" "\<not> recording (ps0 i)" for i
      using assms(4) by (auto, (metis is_slot.simps is_sub.simps recording.simps)+)
    with start assms(4,6,7) show ?case by (auto simp: probes_inv_def)
  next
    case (move c b ps n i b' p)
    with probes_inv_step [OF _ assms(2,3,5)] show ?case by blast
  qed
  from this [OF assms(1) refl] show ?thesis by (simp add: probes_inv_def)
qed

section \<open>A trip between the two accesses of a refused probe\<close>

text \<open>
  Two probes are in flight on a half-open breaker with two slots. Thread 0 checks and has
  added itself to the counter when thread 1 records a failure and trips the breaker, which
  resets the counter; thread 0 then takes back its addition.
\<close>

definition race_start :: breaker where
  "race_start = fst (checks [10003000000, 10004000000] demo_open)"

definition race_threads :: threads where
  "race_threads = (\<lambda>i. if i = 0 then CheckLoad else if i = 1 then RecStart Failure else Idle)"

definition race_schedule :: "(nat \<times> nat) list" where
  "race_schedule =
     map (\<lambda>i. (i, 10005000000)) [0, 0, 0, 1, 1, 1, 1, 1, 1, 1, 0, 0]"

definition race_end :: "breaker \<times> threads" where
  "race_end = exec race_schedule (race_start, race_threads)"

lemma checks_two: "fst (checks [n, m] b) = fst (check m m (fst (check n n b)))"
  by (simp split: prod.split)

lemma race_start_sel:
  "config race_start = demo_config" "baseline race_start = 0" "breaker_state race_start = HalfOpen"
  "half_open_probes race_start = 2" "probe_claimed_at_millis race_start = 10004"
proof -
  let ?b = "fst (check 10003000000 10003000000 demo_open)"
  have "open_duration (config demo_open) \<le> open_elapsed demo_open 10003000000"
    by (simp add: demo_config_sel open_elapsed_def from_millis_def unat_sat_sub elapsed_millis_def
        demo_open_sel unat_of_nat)
  from check_open_claims [OF run_inv [OF demo_run(2)] _ demo_open_sel(1) _ this refl]
  have b: "config ?b = demo_config" "baseline ?b = 0" "breaker_state ?b = HalfOpen"
      "unat (half_open_probes ?b) = 1"
    by (simp_all add: demo_open_sel demo_config_sel)
  then have probe: "race_start = fst (try_half_open_probe 10004000000 ?b)"
    by (simp add: race_start_def checks_two check_half_open demo_config_sel del: checks.simps)
  from probe_slot(3) [of ?b 10004000000] b show "probe_claimed_at_millis race_start = 10004"
    by (simp add: probe demo_config_sel elapsed_millis_def)
  from probe_slot(2) [of ?b 10004000000] b have "unat (half_open_probes race_start) = 2"
    by (simp add: probe demo_config_sel)
  then show "half_open_probes race_start = 2" by (simp add: word_unat_eq_iff)
  show "config race_start = demo_config" "baseline race_start = 0" "breaker_state race_start = HalfOpen"
    using b by (simp_all add: probe)
qed

lemma unat_minus_one: "unat (- 1 :: 64 word) = 2 ^ 64 - 1"
  by (simp add: unsigned_minus_1_eq_mask mask_eq_exp_minus_1)

lemma race_start_run: "run demo_config 10004000000 race_start"
proof -
  have "run demo_config 10003000000 (fst (check 10003000000 10003000000 demo_open))"
    by (rule run.checked [OF demo_run(2)]) simp_all
  then show ?thesis
    unfolding race_start_def checks_two by (rule run.checked) simp_all
qed

lemma race_lease: "lease_millis race_start = 10000"
  by (simp add: lease_millis_def race_start_sel demo_config_sel)

lemma race_end_eq:
  "race_end =
     (race_start\<lparr>half_open_probes := - 1, state := as_u8 Open, opened_at_millis := 10005,
        is_open_fast := True\<rparr>,
      race_threads(0 := Done (BreakerOpen 50000000), 1 := Recorded))"
proof -
  have lease: "\<not> lease_millis b \<le> saturating_sub64 10005 10004" if "config b = demo_config" for b
    using that by (simp add: lease_millis_def demo_config_sel word_le_nat_alt unat_sat_sub)
  show ?thesis
    by (simp add: race_end_def race_schedule_def thread_step_def race_threads_def
        race_start_sel demo_config_sel elapsed_millis_def probe_backoff_def HALF_OPEN_PROBE_BACKOFF_def
        fun_eq_iff lease)
qed

text \<open>
  A race loses probe slots: when a failure is recorded between the two accesses of a
  refused probe, the trip resets the counter and the refused probe then subtracts from
  zero, so the breaker is open with a counter of \<open>2 ^ 64 - 1\<close> although nothing is in
  flight. After the next cool-down only one of its two probe slots is granted; with the
  counter at zero, as the comment in \<^verbatim>\<open>check_open\<close> claims it is, both would be.
\<close>

theorem trip_race_loses_slots:
  "run demo_config 10004000000 race_start
   \<and> system (race_start, race_threads) race_end
   \<and> snd race_end 0 = Done (BreakerOpen 50000000) \<and> snd race_end 1 = Recorded
   \<and> breaker_state (fst race_end) = Open \<and> half_open_probes (fst race_end) = - 1
   \<and> snd (checks [20010000000, 20011000000] (fst race_end)) = [Admitted, BreakerOpen 50000000]
   \<and> snd (checks [20010000000, 20011000000] (fst race_end\<lparr>half_open_probes := 0\<rparr>)) = [Admitted, Admitted]"
proof -
  have "system (race_start, race_threads) race_end"
    unfolding race_end_def by (rule exec_system) (rule system.start)
  moreover have "snd race_end 0 = Done (BreakerOpen 50000000) \<and> snd race_end 1 = Recorded
      \<and> breaker_state (fst race_end) = Open \<and> half_open_probes (fst race_end) = - 1"
    by (simp add: race_end_eq)
  moreover note sel = race_end_eq check_def check_open_def cas_state_def open_elapsed_def
    from_millis_def unat_sat_sub elapsed_millis_def race_start_sel demo_config_sel unat_of_nat
    try_half_open_probe_def Let_def lease_millis_def word_le_nat_alt HALF_OPEN_PROBE_BACKOFF_def unat_minus_one
  have "snd (checks [20010000000, 20011000000] (fst race_end)) = [Admitted, BreakerOpen 50000000]"
    by (simp add: sel split: prod.split)
  moreover have "snd (checks [20010000000, 20011000000] (fst race_end\<lparr>half_open_probes := 0\<rparr>)) = [Admitted, Admitted]"
    by (simp add: sel split: prod.split)
  ultimately show ?thesis using race_start_run by blast
qed

section \<open>Witnesses\<close>

definition two_checks :: threads where
  "two_checks = (\<lambda>i. if i < 2 then CheckLoad else Idle)"

theorem undisturbed_thread_is_sequential_witness:
  "solo 12 3000000 (with_clock demo_config 0, RecStart Failure) =
     (record_outcome 3000000 3000000 Failure (with_clock demo_config 0), Recorded)"
  using undisturbed_thread_is_sequential [OF created_inv, of demo_config 0 12 3000000 Failure]
  by (simp add: with_clock_def)

theorem concurrent_probe_slots_witness:
  "card {i. is_slot (snd (exec [(0, 10003000000), (1, 10003000000)] (demo_open, two_checks)) i)} \<le> 2"
proof -
  have T: "{i. two_checks i = CheckLoad} = {..<2}" by (auto simp: two_checks_def)
  have half: "half_open_probes demo_open = 0"
    using run_inv [OF demo_run(2)] demo_open_sel(1) by (simp add: breaker_inv_def)
  obtain b ps where e: "exec [(0, 10003000000), (1, 10003000000)] (demo_open, two_checks) = (b, ps)"
    by (cases "exec [(0, 10003000000), (1, 10003000000)] (demo_open, two_checks)")
  have "system (demo_open, two_checks) (b, ps)"
    using exec_system [OF system.start, of "(demo_open, two_checks)"] e by metis
  from concurrent_probe_slots [OF this] T half e show ?thesis
    by (simp add: two_checks_def demo_open_sel demo_config_sel)
qed

end
