(* ===== verification/Breaker_Registry.thy ===== *)
theory Breaker_Registry
  imports Breaker
begin

text \<open>
  The registry of circuit breakers (\<^verbatim>\<open>registry.rs\<close>). \<^verbatim>\<open>get\<close> hands out shared handles
  (\<^verbatim>\<open>Arc\<close>), so the model has a heap from addresses to breakers and the registry maps keys
  to addresses; an operation through a handle updates the heap. The mutex makes \<^verbatim>\<open>get\<close>
  one step.

  The contract \<open>handle_table\<close> is what callers rely on: asking again for a key gives the
  same handle and different keys never share one. It is proved for the registry, and the
  isolation of keys follows from it.
\<close>

section \<open>Definitions\<close>

record registry =
  reg_config :: BreakerConfig
  breakers :: "string \<rightharpoonup> nat"
  arcs :: "nat \<rightharpoonup> breaker"
  fresh :: nat

definition registry_new :: "BreakerConfig \<Rightarrow> registry" where
  "registry_new cfg = \<lparr>reg_config = cfg, breakers = Map.empty, arcs = Map.empty, fresh = 0\<rparr>"

definition registry_get :: "nat \<Rightarrow> string \<Rightarrow> registry \<Rightarrow> registry \<times> nat option" where
  "registry_get now key r =
     (if \<not> enabled (reg_config r) then (r, None)
      else (case breakers r key of
              Some cb \<Rightarrow> (r, Some cb)
            | None \<Rightarrow>
                (let cb = fresh r
                 in (r\<lparr>breakers := (breakers r)(key \<mapsto> cb),
                       arcs := (arcs r)(cb \<mapsto> with_clock (reg_config r) now),
                       fresh := Suc cb\<rparr>, Some cb))))"

text \<open>An operation on the breaker behind a handle.\<close>

definition through :: "(breaker \<Rightarrow> breaker) \<Rightarrow> nat \<Rightarrow> registry \<Rightarrow> registry" where
  "through f cb r = r\<lparr>arcs := (arcs r)(cb := map_option f (arcs r cb))\<rparr>"

section \<open>The contract of a handle table\<close>

locale handle_table =
  fixes inv :: "'r \<Rightarrow> bool" and handle :: "'r \<Rightarrow> 'k \<Rightarrow> 'h option" and cell :: "'r \<Rightarrow> 'h \<Rightarrow> 'c option"
    and get :: "'t \<Rightarrow> 'k \<Rightarrow> 'r \<Rightarrow> 'r \<times> 'h option" and update :: "('c \<Rightarrow> 'c) \<Rightarrow> 'h \<Rightarrow> 'r \<Rightarrow> 'r"
  assumes get_inv: "inv r \<Longrightarrow> inv (fst (get t k r))"
    and update_inv: "inv r \<Longrightarrow> inv (update f h r)"
    and injective: "inv r \<Longrightarrow> handle r k = Some h \<Longrightarrow> handle r k' = Some h \<Longrightarrow> k = k'"
    and get_known: "handle r k = Some h \<Longrightarrow> handle (fst (get t k' r)) k = Some h"
    and get_returns: "inv r \<Longrightarrow> snd (get t k r) = Some h \<Longrightarrow> handle (fst (get t k r)) k = Some h"
    and get_keeps: "inv r \<Longrightarrow> handle r k = Some h \<Longrightarrow> cell (fst (get t k' r)) h = cell r h"
    and update_handles: "handle (update f h r) = handle r"
    and update_other: "h \<noteq> h' \<Longrightarrow> cell (update f h r) h' = cell r h'"
begin

text \<open>One use of key \<open>k'\<close>: get its handle and run an operation through it.\<close>

lemma use_isolated:
  assumes "inv r" "handle r k = Some h" "k \<noteq> k'" "get t k' r = (r', Some h')"
  shows "cell (update f h' r') h = cell r h \<and> handle (update f h' r') k = Some h \<and> inv (update f h' r')"
proof -
  have r': "inv r'" "handle r' k = Some h" "handle r' k' = Some h'" "cell r' h = cell r h"
    using get_inv [OF assms(1), of t k'] get_known [OF assms(2), of t k']
      get_returns [OF assms(1), of t k' h'] get_keeps [OF assms(1,2), of t k'] assms(4) by simp_all
  then have "h' \<noteq> h" using injective assms(3) by blast
  with r' show ?thesis by (simp add: update_handles update_other update_inv)
qed

end

definition registry_inv :: "registry \<Rightarrow> bool" where
  "registry_inv r \<longleftrightarrow>
     (\<forall>k h. breakers r k = Some h \<longrightarrow> h < fresh r \<and> arcs r h \<noteq> None)
     \<and> (\<forall>k k' h. breakers r k = Some h \<longrightarrow> breakers r k' = Some h \<longrightarrow> k = k')"

interpretation reg: handle_table registry_inv breakers arcs registry_get through
proof
  fix r :: registry and t k k' h h' f
  show "registry_inv (fst (registry_get t k r))" if "registry_inv r"
    using that
    by (auto simp: registry_inv_def registry_get_def Let_def split: option.splits if_splits)
      (metis less_irrefl less_Suc_eq)+
  show "registry_inv (through f h r)" if "registry_inv r"
    using that by (auto simp: registry_inv_def through_def)
  show "k = k'" if "registry_inv r" "breakers r k = Some h" "breakers r k' = Some h"
    using that by (auto simp: registry_inv_def)
  show "breakers (fst (registry_get t k' r)) k = Some h" if "breakers r k = Some h"
    using that by (auto simp: registry_get_def Let_def split: option.split)
  show "breakers (fst (registry_get t k r)) k = Some h" if "snd (registry_get t k r) = Some h"
    using that by (auto simp: registry_get_def Let_def split: option.splits if_splits)
  show "arcs (fst (registry_get t k' r)) h = arcs r h" if "registry_inv r" "breakers r k = Some h"
    using that by (auto simp: registry_inv_def registry_get_def Let_def split: option.split)
  show "breakers (through f h r) = breakers r" by (simp add: through_def)
  show "arcs (through f h r) h' = arcs r h'" if "h \<noteq> h'" using that by (simp add: through_def)
qed

lemma registry_new_inv: "registry_inv (registry_new cfg)"
  by (simp add: registry_inv_def registry_new_def)

text \<open>A series of uses, each of some key with some operation on its breaker.\<close>

fun uses :: "(nat \<times> string \<times> (breaker \<Rightarrow> breaker)) list \<Rightarrow> registry \<Rightarrow> registry" where
  "uses [] r = r"
| "uses ((n, key, f) # us) r =
     (case registry_get n key r of
        (r', Some cb) \<Rightarrow> uses us (through f cb r')
      | (r', None) \<Rightarrow> uses us r')"

lemma uses_isolated:
  assumes "registry_inv r" "breakers r k = Some h" "\<forall>(n, key, f) \<in> set us. key \<noteq> k"
  shows "registry_inv (uses us r) \<and> breakers (uses us r) k = Some h \<and> arcs (uses us r) h = arcs r h"
  using assms
proof (induction us r rule: uses.induct)
  case (2 n key f us r)
  show ?case
  proof (cases "registry_get n key r")
    case (Pair r' o')
    show ?thesis
    proof (cases o')
      case None
      with Pair have "r' = r"
        by (auto simp: registry_get_def Let_def split: if_splits option.splits)
      with 2 Pair None show ?thesis by simp
    next
      case (Some cb)
      with Pair 2 reg.use_isolated [of r k h key n r' cb f] show ?thesis by auto
    qed
  qed
qed simp

text \<open>
  Keys are isolated: the breaker handed out for a key is the one handed out when the
  key is asked for again, and whatever is done in between with the breakers of other keys
  leaves it untouched.
\<close>

theorem registry_isolates_keys:
  assumes "registry_inv r" "registry_get n key r = (r', Some cb)"
    and "\<forall>(m, key', f) \<in> set us. key' \<noteq> key"
  shows "registry_get m key (uses us r') = (uses us r', Some cb) \<and> arcs (uses us r') cb = arcs r' cb
    \<and> arcs r' cb \<noteq> None"
proof -
  have r': "registry_inv r'" "breakers r' key = Some cb"
    using reg.get_inv [OF assms(1), of n key] reg.get_returns [OF assms(1), of n key cb] assms(2) by simp_all
  have "reg_config (uses us s) = reg_config s" for us s
    by (induction us s rule: uses.induct)
      (auto simp: through_def registry_get_def Let_def split: option.split)
  moreover have "enabled (reg_config r')"
    using assms(2) by (auto simp: registry_get_def Let_def split: if_splits option.splits)
  ultimately show ?thesis
    using uses_isolated [OF r' assms(3)] r' by (auto simp: registry_get_def registry_inv_def)
qed

theorem registry_isolates_keys_witness:
  "\<exists>r'. registry_get 5 ''a'' (registry_new config_server) = (r', Some 0)
    \<and> arcs (uses [(6, ''b'', record_outcome 6 6 Failure)] r') 0 = arcs r' 0"
proof -
  obtain r' where r': "registry_get 5 ''a'' (registry_new config_server) = (r', Some 0)"
    by (simp add: registry_get_def registry_new_def config_server_def)
  from registry_isolates_keys [OF registry_new_inv r', of "[(6, ''b'', record_outcome 6 6 Failure)]"] r'
  show ?thesis by simp
qed

end
