(* ===== verification/Net_Policy.thy ===== *)
theory Net_Policy
  imports Rust_Prelude "HOL-Library.Word"
begin

unbundle bit_operations_syntax

text \<open>
  Validation of outbound URLs (\<^verbatim>\<open>oh-my-grok-build/src/net.rs\<close>): address classes, host
  names, resolution and the two entry points \<^verbatim>\<open>validate_url\<close> and the checks of
  \<^verbatim>\<open>connect_ws_url\<close>. Addresses are 32- and 128-bit words. The \<^verbatim>\<open>url\<close> crate, the resolver,
  \<^verbatim>\<open>gethostname\<close> and the textual address parser are operations of the record \<open>net\<close>; nothing
  is assumed about them, so a resolver may answer anything. HTTP and WebSocket traffic
  itself is not modelled.
\<close>

section \<open>Addresses\<close>

datatype ip_addr = V4 "32 word" | V6 "128 word"

definition ipv4 :: "nat \<Rightarrow> nat \<Rightarrow> nat \<Rightarrow> nat \<Rightarrow> 32 word" where
  "ipv4 a b c d = word_of_nat (((a * 256 + b) * 256 + c) * 256 + d)"

definition ipv4_in_cidr :: "32 word \<Rightarrow> 32 word \<Rightarrow> nat \<Rightarrow> bool" where
  "ipv4_in_cidr ip base prefix_len =
     (let mask = (if prefix_len = 0 then 0 else push_bit (32 - prefix_len) (- 1))
      in (ip AND mask) = (base AND mask))"

text \<open>The predicates of \<^verbatim>\<open>std::net\<close>, as prefixes of the address.\<close>

definition v4_is_loopback :: "32 word \<Rightarrow> bool" where
  "v4_is_loopback ip \<longleftrightarrow> unat ip div 2 ^ 24 = 127"

definition v4_is_private :: "32 word \<Rightarrow> bool" where
  "v4_is_private ip \<longleftrightarrow>
     unat ip div 2 ^ 24 = 10 \<or> unat ip div 2 ^ 20 = 172 * 16 + 1 \<or> unat ip div 2 ^ 16 = 192 * 256 + 168"

definition v4_is_link_local :: "32 word \<Rightarrow> bool" where
  "v4_is_link_local ip \<longleftrightarrow> unat ip div 2 ^ 16 = 169 * 256 + 254"

definition v4_is_multicast :: "32 word \<Rightarrow> bool" where
  "v4_is_multicast ip \<longleftrightarrow> unat ip div 2 ^ 28 = 14"

definition is_non_public_ipv4 :: "32 word \<Rightarrow> bool" where
  "is_non_public_ipv4 ip \<longleftrightarrow>
     v4_is_loopback ip \<or> v4_is_private ip \<or> v4_is_link_local ip \<or> ip = 0 \<or> v4_is_multicast ip
     \<or> ip = ipv4 255 255 255 255
     \<or> ipv4_in_cidr ip (ipv4 0 0 0 0) 8 \<or> ipv4_in_cidr ip (ipv4 100 64 0 0) 10
     \<or> ipv4_in_cidr ip (ipv4 192 0 0 0) 24 \<or> ipv4_in_cidr ip (ipv4 192 0 2 0) 24
     \<or> ipv4_in_cidr ip (ipv4 198 18 0 0) 15 \<or> ipv4_in_cidr ip (ipv4 198 51 100 0) 24
     \<or> ipv4_in_cidr ip (ipv4 203 0 113 0) 24 \<or> ipv4_in_cidr ip (ipv4 240 0 0 0) 4"

definition to_ipv4_mapped :: "128 word \<Rightarrow> 32 word option" where
  "to_ipv4_mapped ip =
     (if unat ip div 2 ^ 32 = 65535 then Some (word_of_nat (unat ip mod 2 ^ 32)) else None)"

definition v6_is_unique_local :: "128 word \<Rightarrow> bool" where
  "v6_is_unique_local ip \<longleftrightarrow> unat ip div 2 ^ 121 = 126"

definition v6_is_link_local :: "128 word \<Rightarrow> bool" where
  "v6_is_link_local ip \<longleftrightarrow> unat ip div 2 ^ 118 = 1018"

definition v6_is_multicast :: "128 word \<Rightarrow> bool" where
  "v6_is_multicast ip \<longleftrightarrow> unat ip div 2 ^ 120 = 255"

definition is_non_public_ipv6 :: "128 word \<Rightarrow> bool" where
  "is_non_public_ipv6 ip =
     (case to_ipv4_mapped ip of
        Some v4 \<Rightarrow> is_non_public_ipv4 v4
      | None \<Rightarrow> ip = 1 \<or> ip = 0 \<or> v6_is_multicast ip \<or> v6_is_unique_local ip \<or> v6_is_link_local ip)"

fun is_non_public_ip :: "ip_addr \<Rightarrow> bool" where
  "is_non_public_ip (V4 v4) = is_non_public_ipv4 v4"
| "is_non_public_ip (V6 v6) = is_non_public_ipv6 v6"

fun is_loopback :: "ip_addr \<Rightarrow> bool" where
  "is_loopback (V4 v4) = v4_is_loopback v4"
| "is_loopback (V6 v6) = (v6 = 1)"

fun is_private_ip :: "ip_addr \<Rightarrow> bool" where
  "is_private_ip (V4 v4) = (v4_is_private v4 \<or> ipv4_in_cidr v4 (ipv4 100 64 0 0) 10)"
| "is_private_ip (V6 v6) = v6_is_unique_local v6"

fun is_cloud_metadata_ip :: "ip_addr \<Rightarrow> bool" where
  "is_cloud_metadata_ip (V4 v4) =
     (v4 = ipv4 169 254 169 254 \<or> v4 = ipv4 168 63 129 16 \<or> v4 = ipv4 100 100 100 200)"
| "is_cloud_metadata_ip (V6 v6) = (v6 = 0xfd000ec2000000000000000000000254)"

type_synonym socket_addr = "ip_addr \<times> nat"

definition all_addrs_loopback_or_private :: "socket_addr list \<Rightarrow> bool \<Rightarrow> bool" where
  "all_addrs_loopback_or_private addrs allow_private =
     list_all (\<lambda>a. is_loopback (fst a) \<or> allow_private \<and> is_private_ip (fst a)) addrs"

section \<open>Hosts\<close>

record url =
  u_scheme :: string
  u_username :: string
  u_password :: "string option"
  u_host_str :: "string option"
  u_port :: "nat option"

record net =
  n_url_parse :: "string \<Rightarrow> string + url"
  n_lookup_host :: "string \<Rightarrow> string + socket_addr list"
  n_gethostname :: string
  n_parse_ip :: "string \<Rightarrow> ip_addr option"
  n_show_ip :: "ip_addr \<Rightarrow> string"
  n_show_port :: "nat \<Rightarrow> string"

definition CLOUD_METADATA_HOSTS :: "string list" where
  "CLOUD_METADATA_HOSTS =
     [''metadata.google.internal'', ''metadata'', ''169.254.169.254'', ''fd00:ec2::254'',
      ''168.63.129.16'', ''100.100.100.200'']"

definition local_hostname :: "net \<Rightarrow> string option" where
  "local_hostname nt = (let h = to_lowercase (n_gethostname nt) in if h = [] then None else Some h)"

definition normalize_host :: "string \<Rightarrow> string" where
  "normalize_host raw =
     (let host = to_lowercase raw
      in if starts_with host ''['' \<and> ends_with host '']'' then drop 1 (take (length host - 1) host)
         else trim_end_pred (\<lambda>c. c = CHR ''.'') host)"

definition before_percent :: "string \<Rightarrow> string" where
  "before_percent host = takeWhile (\<lambda>c. c \<noteq> CHR ''%'') host"

definition is_explicit_local_host :: "net \<Rightarrow> string \<Rightarrow> bool" where
  "is_explicit_local_host nt raw =
     (let host = to_lowercase (trim_end_pred (\<lambda>c. c = CHR ''.'') (trim raw));
          host = (if starts_with host ''['' \<and> ends_with (drop 1 host) '']''
                  then butlast (drop 1 host) else host);
          host = before_percent host
      in host = ''localhost''
         \<or> (case n_parse_ip nt host of Some ip \<Rightarrow> is_loopback ip | None \<Rightarrow> False))"

definition lookup_port :: "url \<Rightarrow> nat" where
  "lookup_port url =
     (case u_port url of
        Some p \<Rightarrow> p
      | None \<Rightarrow> if u_scheme url = ''https'' \<or> u_scheme url = ''wss'' then 443 else 80)"

definition validate_host_name :: "net \<Rightarrow> string \<Rightarrow> unit res" where
  "validate_host_name nt host =
     (if host = [] then Inl ''URL has no host''
      else if host \<in> set CLOUD_METADATA_HOSTS then Inl ''cloud metadata host blocked''
      else if local_hostname nt = Some host then Inl ''local machine hostname blocked''
      else Inr ())"

definition reject_userinfo :: "url \<Rightarrow> unit res" where
  "reject_userinfo url =
     (if u_username url \<noteq> [] \<or> u_password url \<noteq> None
      then Inl ''URLs with embedded credentials are not allowed'' else Inr ())"

fun is_ipv6 :: "ip_addr \<Rightarrow> bool" where
  "is_ipv6 (V4 _) = False" | "is_ipv6 (V6 _) = True"

definition lookup_addr :: "net \<Rightarrow> string \<Rightarrow> nat \<Rightarrow> string" where
  "lookup_addr nt host port =
     (case n_parse_ip nt (before_percent host) of
        Some ip \<Rightarrow>
          (if is_ipv6 ip then ''['' @ before_percent host @ '']:'' @ n_show_port nt port
           else host @ '':'' @ n_show_port nt port)
      | None \<Rightarrow> host @ '':'' @ n_show_port nt port)"

section \<open>Resolution\<close>

text \<open>The loop over the answers of an explicit loopback host.\<close>

fun local_addrs :: "nat \<Rightarrow> socket_addr list \<Rightarrow> socket_addr list res" where
  "local_addrs port [] = Inr []"
| "local_addrs port (a # as) =
     (if \<not> is_loopback (fst a) then Inl ''loopback host resolved to a non-loopback address''
      else bind_res (local_addrs port as) (\<lambda>rest. Inr ((fst a, port) # rest)))"

fun public_addrs :: "bool \<Rightarrow> nat \<Rightarrow> socket_addr list \<Rightarrow> socket_addr list res" where
  "public_addrs allow_private port [] = Inr []"
| "public_addrs allow_private port (a # as) =
     (if is_loopback (fst a) then Inl ''host resolved to a loopback address''
      else if is_non_public_ip (fst a) \<and> \<not> (allow_private \<and> is_private_ip (fst a))
      then Inl ''host resolved to a private/non-public address''
      else bind_res (public_addrs allow_private port as) (\<lambda>rest. Inr ((fst a, port) # rest)))"

definition resolve_host :: "net \<Rightarrow> string \<Rightarrow> nat \<Rightarrow> bool \<Rightarrow> bool \<Rightarrow> socket_addr list res" where
  "resolve_host nt host port allow_local allow_private =
     (let explicit_local = is_explicit_local_host nt host
      in if allow_local \<and> explicit_local
         then bind_res (n_lookup_host nt (lookup_addr nt host port)) (\<lambda>answers.
              bind_res (local_addrs port answers) (\<lambda>addrs.
                if addrs = [] then Inl ''loopback host resolved to no addresses'' else Inr addrs))
         else if explicit_local then Inl ''loopback host blocked; use --allow-local to enable''
         else bind_res (n_lookup_host nt (lookup_addr nt host port)) (\<lambda>answers.
              bind_res (public_addrs allow_private port answers) (\<lambda>addrs.
                if answers = [] then Inl ''host resolved to no addresses''
                else if list_ex (\<lambda>a. is_cloud_metadata_ip (fst a)) addrs
                then Inl ''host resolved to a cloud metadata IP''
                else Inr addrs)))"

record validated_url =
  v_url :: url
  v_addrs :: "socket_addr list"

definition url_host :: "url \<Rightarrow> string" where
  "url_host url = normalize_host (case u_host_str url of Some h \<Rightarrow> h | None \<Rightarrow> [])"

definition validate_url :: "net \<Rightarrow> string \<Rightarrow> bool \<Rightarrow> bool \<Rightarrow> validated_url res" where
  "validate_url nt raw allow_local allow_private =
     bind_res (case n_url_parse nt raw of Inl e \<Rightarrow> Inl (''invalid URL: '' @ e) | Inr u \<Rightarrow> Inr u) (\<lambda>url.
     bind_res (reject_userinfo url) (\<lambda>_.
     if u_scheme url \<noteq> ''http'' \<and> u_scheme url \<noteq> ''https''
     then Inl (''non-HTTP(S) protocol blocked: '' @ u_scheme url)
     else bind_res (validate_host_name nt (url_host url)) (\<lambda>_.
          bind_res (resolve_host nt (url_host url) (lookup_port url) allow_local allow_private) (\<lambda>addrs.
          if allow_private \<and> \<not> all_addrs_loopback_or_private addrs True
          then Inl ''host resolved to a non-private/non-loopback address''
          else if u_scheme url = ''http'' \<and> \<not> all_addrs_loopback_or_private addrs allow_private
          then Inl ''insecure HTTP to a public host; use https''
          else Inr \<lparr>v_url = url, v_addrs = addrs\<rparr>))))"

definition is_url_host_loopback :: "net \<Rightarrow> string \<Rightarrow> bool" where
  "is_url_host_loopback nt raw =
     (case n_url_parse nt raw of
        Inl _ \<Rightarrow> False
      | Inr url \<Rightarrow>
          (case u_host_str url of
             None \<Rightarrow> False
           | Some host \<Rightarrow> is_explicit_local_host nt (normalize_host host)))"

definition is_url_host_private :: "net \<Rightarrow> string \<Rightarrow> bool" where
  "is_url_host_private nt raw =
     (case n_url_parse nt raw of
        Inl _ \<Rightarrow> False
      | Inr url \<Rightarrow>
          (case validate_host_name nt (url_host url) of
             Inl _ \<Rightarrow> False
           | Inr _ \<Rightarrow>
               (case resolve_host nt (url_host url) (lookup_port url) True True of
                  Inl _ \<Rightarrow> False
                | Inr addrs \<Rightarrow> addrs \<noteq> [] \<and> list_all (\<lambda>a. is_private_ip (fst a)) addrs)))"

text \<open>The checks of \<^verbatim>\<open>connect_ws_url\<close>: the addresses it will try to connect to.\<close>

definition ws_addrs :: "net \<Rightarrow> string \<Rightarrow> bool \<Rightarrow> socket_addr list res" where
  "ws_addrs nt raw allow_private =
     bind_res (case n_url_parse nt raw of Inl e \<Rightarrow> Inl (''invalid URL: '' @ e) | Inr u \<Rightarrow> Inr u) (\<lambda>url.
     bind_res (reject_userinfo url) (\<lambda>_.
     if u_scheme url \<noteq> ''ws'' \<and> u_scheme url \<noteq> ''wss''
     then Inl (''URL scheme must be ws or wss: '' @ u_scheme url)
     else bind_res (validate_host_name nt (url_host url)) (\<lambda>_.
          bind_res (resolve_host nt (url_host url) (lookup_port url) True allow_private) (\<lambda>addrs.
          if u_scheme url = ''ws'' \<and> \<not> all_addrs_loopback_or_private addrs allow_private
          then Inl ''insecure WebSocket to a public host; use wss''
          else if allow_private \<and> \<not> all_addrs_loopback_or_private addrs True
          then Inl ''host resolved to a non-private/non-loopback address''
          else Inr addrs))))"

section \<open>Masks are prefixes\<close>

lemma and_high_mask:
  fixes v w :: "32 word"
  shows "v AND push_bit n (- 1) = w AND push_bit n (- 1) \<longleftrightarrow> drop_bit n v = drop_bit n w"
proof
  assume *: "v AND push_bit n (- 1) = w AND push_bit n (- 1)"
  show "drop_bit n v = drop_bit n w"
  proof (rule bit_eqI)
    fix k assume "possible_bit TYPE(32 word) k"
    have "bit (v AND push_bit n (- 1)) (n + k) = bit (w AND push_bit n (- 1)) (n + k)" using * by simp
    then show "bit (drop_bit n v) k = bit (drop_bit n w) k"
      by (auto simp: bit_simps dest: bit_imp_le_length)
  qed
next
  assume *: "drop_bit n v = drop_bit n w"
  show "v AND push_bit n (- 1) = w AND push_bit n (- 1)"
  proof (rule bit_eqI)
    fix k assume "possible_bit TYPE(32 word) k"
    have "bit (drop_bit n v) (k - n) = bit (drop_bit n w) (k - n)" using * by simp
    then show "bit (v AND push_bit n (- 1)) k = bit (w AND push_bit n (- 1)) k"
      by (auto simp: bit_simps)
  qed
qed

lemma unat_less_32: "unat (v :: 32 word) < 2 ^ 32"
  by (rule order_less_le_trans [OF unsigned_less]) simp

lemma ipv4_in_cidr_div:
  assumes "p \<le> 32"
  shows "ipv4_in_cidr ip base p \<longleftrightarrow> unat ip div 2 ^ (32 - p) = unat base div 2 ^ (32 - p)"
proof (cases "p = 0")
  case True
  have "unat v div 2 ^ 32 = 0" for v :: "32 word" using unat_less_32 [of v] by simp
  with True show ?thesis by (simp add: ipv4_in_cidr_def)
next
  case False
  then have "ipv4_in_cidr ip base p \<longleftrightarrow> drop_bit (32 - p) ip = drop_bit (32 - p) base"
    by (simp only: ipv4_in_cidr_def Let_def if_False and_high_mask)
  also have "\<dots> \<longleftrightarrow> unat (drop_bit (32 - p) ip) = unat (drop_bit (32 - p) base)"
    by (simp add: word_unat_eq_iff)
  finally show ?thesis by (simp add: unat_drop_bit_eq flip: drop_bit_eq_div)
qed

lemma div_range: "0 < d \<Longrightarrow> n div d = c \<longleftrightarrow> c * d \<le> n \<and> n < (c + 1) * d" for n d c :: nat
  by (metis Suc_eq_plus1 div_le_dividend div_nat_eqI dividend_less_div_times less_mult_imp_div_less
      mult.commute mult_Suc times_div_less_eq_dividend add.commute)

definition dotted :: "nat \<Rightarrow> nat \<Rightarrow> nat \<Rightarrow> nat \<Rightarrow> nat" where
  "dotted a b c d = ((a * 256 + b) * 256 + c) * 256 + d"

text \<open>The special-purpose IPv4 ranges, first and last address.\<close>

definition non_public_ranges :: "(nat \<times> nat) list" where
  "non_public_ranges =
     [(dotted 0 0 0 0, dotted 0 255 255 255),
      (dotted 10 0 0 0, dotted 10 255 255 255),
      (dotted 100 64 0 0, dotted 100 127 255 255),
      (dotted 127 0 0 0, dotted 127 255 255 255),
      (dotted 169 254 0 0, dotted 169 254 255 255),
      (dotted 172 16 0 0, dotted 172 31 255 255),
      (dotted 192 0 0 0, dotted 192 0 0 255),
      (dotted 192 0 2 0, dotted 192 0 2 255),
      (dotted 192 168 0 0, dotted 192 168 255 255),
      (dotted 198 18 0 0, dotted 198 19 255 255),
      (dotted 198 51 100 0, dotted 198 51 100 255),
      (dotted 203 0 113 0, dotted 203 0 113 255),
      (dotted 224 0 0 0, dotted 255 255 255 255)]"

lemma ipv4_unat: "dotted a b c d < 2 ^ 32 \<Longrightarrow> unat (ipv4 a b c d) = dotted a b c d"
  unfolding ipv4_def dotted_def [symmetric] by (simp add: unat_of_nat)

text \<open>
  The bit masks and octet tests together recognise exactly the special-purpose ranges
  of IPv4: an address is treated as non-public if and only if it lies in one of the listed
  intervals.
\<close>

theorem non_public_ipv4_ranges:
  "is_non_public_ipv4 ip \<longleftrightarrow>
     list_ex (\<lambda>(first, final). first \<le> unat ip \<and> unat ip \<le> final) non_public_ranges"
proof -
  have zero: "ip = 0 \<longleftrightarrow> unat ip = 0" and top: "ip = ipv4 255 255 255 255 \<longleftrightarrow> unat ip = dotted 255 255 255 255"
    by (simp_all add: word_unat_eq_iff [of ip] ipv4_unat dotted_def)
  note less = unat_less_32 [of ip]
  show ?thesis
    unfolding is_non_public_ipv4_def zero top v4_is_loopback_def v4_is_private_def v4_is_link_local_def
      v4_is_multicast_def
    using less
    by (simp add: ipv4_in_cidr_div ipv4_unat dotted_def non_public_ranges_def div_range) presburger
qed

section \<open>What a validated URL points to\<close>

text \<open>
  What an address must satisfy: loopback only where it was asked for, private only where
  it was allowed, and otherwise public.
\<close>

definition addr_ok :: "bool \<Rightarrow> bool \<Rightarrow> ip_addr \<Rightarrow> bool" where
  "addr_ok allow_local allow_private ip \<longleftrightarrow>
     (if is_loopback ip then allow_local
      else if allow_private then is_private_ip ip \<and> \<not> is_cloud_metadata_ip ip
      else \<not> is_non_public_ip ip \<and> \<not> is_cloud_metadata_ip ip)"

lemma bind_res_Inr: "bind_res r f = Inr y \<longleftrightarrow> (\<exists>x. r = Inr x \<and> f x = Inr y)"
  by (cases r) (simp_all add: bind_res_def)

lemma local_addrs_Inr:
  "local_addrs port as = Inr addrs \<Longrightarrow> list_all (\<lambda>a. is_loopback (fst a) \<and> snd a = port) addrs"
  by (induction as arbitrary: addrs) (auto simp: bind_res_Inr split: if_splits)

lemma public_addrs_Inr:
  "public_addrs allow_private port as = Inr addrs \<Longrightarrow>
     length addrs = length as \<and>
     list_all (\<lambda>a. \<not> is_loopback (fst a) \<and> snd a = port
       \<and> (\<not> is_non_public_ip (fst a) \<or> allow_private \<and> is_private_ip (fst a))) addrs"
  by (induction as arbitrary: addrs) (auto simp: bind_res_Inr split: if_splits)

lemma loopback_not_metadata: "is_loopback ip \<Longrightarrow> \<not> is_cloud_metadata_ip ip"
  by (cases ip) (auto simp: v4_is_loopback_def ipv4_unat dotted_def)

lemma resolve_host_Inr:
  assumes "resolve_host nt host port allow_local allow_private = Inr addrs"
  shows "addrs \<noteq> []"
    and "list_all (\<lambda>a. snd a = port \<and> \<not> is_cloud_metadata_ip (fst a)
      \<and> (if is_loopback (fst a) then allow_local
         else \<not> is_non_public_ip (fst a) \<or> allow_private \<and> is_private_ip (fst a))) addrs"
proof -
  show "addrs \<noteq> []"
    using assms
    by (auto simp: resolve_host_def Let_def bind_res_Inr split: if_splits dest: public_addrs_Inr)
  from assms consider
      as where "allow_local" "local_addrs port as = Inr addrs"
    | as where "public_addrs allow_private port as = Inr addrs"
        "\<not> list_ex (\<lambda>a. is_cloud_metadata_ip (fst a)) addrs"
    by (auto simp: resolve_host_def Let_def bind_res_Inr split: if_splits)
  then show "list_all (\<lambda>a. snd a = port \<and> \<not> is_cloud_metadata_ip (fst a)
      \<and> (if is_loopback (fst a) then allow_local
         else \<not> is_non_public_ip (fst a) \<or> allow_private \<and> is_private_ip (fst a))) addrs"
  proof cases
    case (1 as)
    from local_addrs_Inr [OF 1(2)] 1(1) show ?thesis
      by (auto simp: loopback_not_metadata elim!: list.pred_mono_strong)
  next
    case (2 as)
    from public_addrs_Inr [OF 2(1)] 2(2) show ?thesis by (simp add: list_all_iff list_ex_iff)
  qed
qed


section \<open>A concrete network\<close>

definition demo_url :: url where
  "demo_url =
     \<lparr>u_scheme = ''https'', u_username = [], u_password = None, u_host_str = Some ''h.example'', u_port = None\<rparr>"

text \<open>A resolver that answers every question with the address \<open>ip\<close>.\<close>

definition demo_net :: "ip_addr \<Rightarrow> net" where
  "demo_net ip =
     \<lparr>n_url_parse = (\<lambda>_. Inr demo_url), n_lookup_host = (\<lambda>_. Inr [(ip, 0)]), n_gethostname = ''box'',
      n_parse_ip = (\<lambda>_. None), n_show_ip = (\<lambda>_. []), n_show_port = (\<lambda>_. [])\<rparr>"

lemma demo_host: "url_host demo_url = ''h.example''"
  by code_simp

lemma demo_names:
  "reject_userinfo demo_url = Inr ()" "validate_host_name (demo_net ip) ''h.example'' = Inr ()"
  "\<not> is_explicit_local_host (demo_net ip) ''h.example''" "lookup_port demo_url = 443"
proof -
  have "to_lowercase ''box'' = ''box''" by code_simp
  then show "validate_host_name (demo_net ip) ''h.example'' = Inr ()"
    by (simp add: validate_host_name_def CLOUD_METADATA_HOSTS_def local_hostname_def demo_net_def)
  have "before_percent (to_lowercase (trim_end_pred (\<lambda>c. c = CHR ''.'') (trim ''h.example''))) = ''h.example''"
    and "\<not> starts_with (to_lowercase (trim_end_pred (\<lambda>c. c = CHR ''.'') (trim ''h.example''))) ''[''"
    by code_simp+
  then show "\<not> is_explicit_local_host (demo_net ip) ''h.example''"
    by (simp add: is_explicit_local_host_def demo_net_def)
qed (simp_all add: reject_userinfo_def lookup_port_def demo_url_def)

lemma demo_validate:
  assumes "\<not> is_loopback ip" "\<not> is_non_public_ip ip" "\<not> is_cloud_metadata_ip ip"
  shows "validate_url (demo_net ip) raw False False = Inr \<lparr>v_url = demo_url, v_addrs = [(ip, 443)]\<rparr>"
proof -
  have "resolve_host (demo_net ip) ''h.example'' 443 False False = Inr [(ip, 443)]"
    using assms demo_names(3) [of ip] by (simp add: resolve_host_def bind_res_def demo_net_def)
  then show ?thesis
    using demo_names(1,4) demo_names(2) [of ip]
    by (simp add: validate_url_def bind_res_def demo_net_def demo_host)
      (simp add: demo_url_def)
qed

text \<open>
  The metadata check misses IPv4-mapped addresses: for a host that resolves to
  \<^verbatim>\<open>::ffff:168.63.129.16\<close>, the IPv6 form of a listed metadata address, validation succeeds
  and pins the connection to it, while the same host resolving to \<^verbatim>\<open>168.63.129.16\<close> is
  refused.
\<close>

theorem mapped_metadata_accepted:
  "to_ipv4_mapped 0xffffa83f8110 = Some (ipv4 168 63 129 16)
   \<and> is_cloud_metadata_ip (V4 (ipv4 168 63 129 16))
   \<and> validate_url (demo_net (V6 0xffffa83f8110)) raw False False =
       Inr \<lparr>v_url = demo_url, v_addrs = [(V6 0xffffa83f8110, 443)]\<rparr>
   \<and> (\<exists>e. validate_url (demo_net (V4 (ipv4 168 63 129 16))) raw False False = Inl e)"
proof -
  have m: "to_ipv4_mapped 0xffffa83f8110 = Some (ipv4 168 63 129 16)"
    by (simp add: to_ipv4_mapped_def ipv4_def)
  have "\<not> is_non_public_ipv4 (ipv4 168 63 129 16)"
    unfolding is_non_public_ipv4_def v4_is_loopback_def v4_is_private_def v4_is_link_local_def
      v4_is_multicast_def
    by (simp add: ipv4_in_cidr_div ipv4_unat dotted_def word_unat_eq_iff)
  then have "validate_url (demo_net (V6 0xffffa83f8110)) raw False False =
      Inr \<lparr>v_url = demo_url, v_addrs = [(V6 0xffffa83f8110, 443)]\<rparr>"
    using m by (intro demo_validate) (simp_all add: is_non_public_ipv6_def)
  moreover have "validate_url (demo_net (V4 (ipv4 168 63 129 16))) raw False False \<noteq> Inr v" for v
  proof
    assume *: "validate_url (demo_net (V4 (ipv4 168 63 129 16))) raw False False = Inr v"
    then obtain url addrs where
      res: "resolve_host (demo_net (V4 (ipv4 168 63 129 16))) (url_host url) (lookup_port url) False False = Inr addrs"
      unfolding validate_url_def by (auto simp: bind_res_Inr split: if_splits)
    then show False
      by (auto simp: resolve_host_def Let_def bind_res_Inr demo_net_def split: if_splits)
  qed
  ultimately show ?thesis
    using m by (cases "validate_url (demo_net (V4 (ipv4 168 63 129 16))) raw False False") auto
qed


end
