(* ===== verification/Hashline.thy ===== *)
theory Hashline
  imports Rust_Prelude "HOL-Library.Multiset"
begin

text \<open>
  Hash-anchored edits (\<^verbatim>\<open>oh-my-grok-build/src/hashline.rs\<close>): the patch parser, the search
  for an anchor, the application of all blocks to a file's text and the verification
  without writing. The hex digest of blake3 is the parameter \<open>hex\<close>; reading and writing
  the file are outside, the model maps the old content to the new one.

  The lemmas say that applying a patch replaces exactly the old texts of its blocks and
  keeps everything between them, that a stale or missing anchor refuses the whole patch,
  and that parsing undoes printing.
\<close>

section \<open>Definitions\<close>

definition HASH_LEN :: nat where
  "HASH_LEN = 16"

record Block =
  expected_hash :: string
  old_text :: string
  new_text :: string

definition short_hash :: "(string \<Rightarrow> string) \<Rightarrow> string \<Rightarrow> string" where
  "short_hash hex text = take HASH_LEN (hex text)"

text \<open>The lines before the marker, and the rest that starts with it (or is empty).\<close>

fun take_until :: "string \<Rightarrow> string list \<Rightarrow> string list \<times> string list" where
  "take_until marker [] = ([], [])"
| "take_until marker (l # ls) =
     (if l = marker then ([], l # ls)
      else (case take_until marker ls of (before, rest) \<Rightarrow> (l # before, rest)))"

lemma take_until_length: "take_until marker ls = (before, rest) \<Longrightarrow> length rest \<le> length ls"
  by (induction ls arbitrary: before rest) (auto split: if_splits prod.splits)

function parse_lines :: "string list \<Rightarrow> Block list res" where
  "parse_lines [] = Inr []"
| "parse_lines (line # ls) =
     (if \<not> starts_with line ''>>>>HASH'' then parse_lines ls
      else let hash = trim (drop 8 line)
           in if length hash \<noteq> HASH_LEN then Inl ''hashline patch hash must be 16 hex chars''
              else (case take_until ''===='' ls of
                (_, []) \<Rightarrow> Inl ''hashline patch missing ==== separator''
              | (old_lines, _ # ls1) \<Rightarrow>
                  (case take_until ''>>>>END'' ls1 of
                     (_, []) \<Rightarrow> Inl ''hashline patch missing >>>>END terminator''
                   | (new_lines, _ # ls2) \<Rightarrow>
                       bind_res (parse_lines ls2) (\<lambda>blocks.
                         Inr (\<lparr>expected_hash = hash, old_text = join_with [LF] old_lines,
                               new_text = join_with [LF] new_lines\<rparr> # blocks)))))"
  by pat_completeness auto
termination
  by (relation "measure length") (auto dest!: take_until_length [OF sym])

definition parse_patch :: "string \<Rightarrow> Block list res" where
  "parse_patch patch = parse_lines (str_lines patch)"

text \<open>\<^verbatim>\<open>match_indices\<close>: the non-overlapping matches from left to right.\<close>

function match_from :: "string \<Rightarrow> string \<Rightarrow> nat \<Rightarrow> nat list" where
  "match_from needle s i =
     (if needle = [] then [i..<Suc (i + length s)]
      else if starts_with s needle then i # match_from needle (drop (length needle) s) (i + length needle)
      else (case s of [] \<Rightarrow> [] | _ # t \<Rightarrow> match_from needle t (Suc i)))"
  by auto
termination
  by (relation "measure (\<lambda>(needle, s, i). length s)") (auto simp: starts_with_iff prefix_def)

declare match_from.simps [simp del]

definition find_unique_position :: "string \<Rightarrow> string \<Rightarrow> nat option" where
  "find_unique_position content needle =
     (case match_from needle content 0 of [pos] \<Rightarrow> Some pos | _ \<Rightarrow> None)"

fun anchor_blocks :: "(string \<Rightarrow> string) \<Rightarrow> string \<Rightarrow> Block list \<Rightarrow> (nat \<times> Block) list res" where
  "anchor_blocks hex content [] = Inr []"
| "anchor_blocks hex content (b # bs) =
     (if short_hash hex (old_text b) \<noteq> expected_hash b
      then Inl (''hashline mismatch: expected '' @ expected_hash b @ '' but old text hashes to '' @
                short_hash hex (old_text b) @ '' (block may be stale)'')
      else (case find_unique_position content (old_text b) of
              None \<Rightarrow> Inl ''hashline anchor matches zero or multiple places in file''
            | Some pos \<Rightarrow> bind_res (anchor_blocks hex content bs) (\<lambda>rest. Inr ((pos, b) # rest))))"

text \<open>The output loop; \<open>cursor\<close> and \<open>last_end\<close> of the source are always equal.\<close>

fun splice :: "string \<Rightarrow> nat \<Rightarrow> (nat \<times> Block) list \<Rightarrow> string res" where
  "splice content cursor [] = Inr (drop cursor content)"
| "splice content cursor ((pos, b) # ps) =
     (if pos < cursor then Inl ''hashline patch blocks overlap''
      else bind_res (splice content (pos + length (old_text b)) ps) (\<lambda>out.
             Inr (drop cursor (take pos content) @ new_text b @ out)))"

definition apply_blocks :: "(string \<Rightarrow> string) \<Rightarrow> string \<Rightarrow> Block list \<Rightarrow> string res" where
  "apply_blocks hex content blocks =
     bind_res (anchor_blocks hex content blocks) (\<lambda>positions.
       splice content 0 (sort_key fst positions))"

definition normalize_line_endings :: "string \<Rightarrow> string" where
  "normalize_line_endings s = replace_str [CR, LF] [LF] s"

definition maybe_restore_crlf :: "string \<Rightarrow> bool \<Rightarrow> string" where
  "maybe_restore_crlf content was_crlf =
     (if was_crlf then concat (map (\<lambda>c. if c = LF then [CR, LF] else [c]) content) else content)"

text \<open>The content that is written, or the error.\<close>

definition hashline_apply_patch :: "(string \<Rightarrow> string) \<Rightarrow> string res \<Rightarrow> string \<Rightarrow> string res" where
  "hashline_apply_patch hex file patch_text =
     bind_res (parse_patch (normalize_line_endings patch_text)) (\<lambda>blocks.
       if blocks = [] then Inl ''no hashline blocks found in patch''
       else bind_res file (\<lambda>content.
         bind_res (apply_blocks hex (normalize_line_endings content) blocks) (\<lambda>new_content.
           Inr (maybe_restore_crlf new_content (contains_str content [CR, LF])))))"

fun verify_blocks :: "(string \<Rightarrow> string) \<Rightarrow> string \<Rightarrow> Block list \<Rightarrow> unit res" where
  "verify_blocks hex content [] = Inr ()"
| "verify_blocks hex content (b # bs) =
     (if short_hash hex (old_text b) \<noteq> expected_hash b
      then Inl (''hashline mismatch for block starting with hash '' @ expected_hash b)
      else if find_unique_position content (old_text b) = None
      then Inl ''hashline anchor not found or ambiguous in file''
      else verify_blocks hex content bs)"

definition verify_patch :: "(string \<Rightarrow> string) \<Rightarrow> string res \<Rightarrow> string \<Rightarrow> unit res" where
  "verify_patch hex file patch_text =
     bind_res (parse_patch (normalize_line_endings patch_text)) (\<lambda>blocks.
       bind_res file (\<lambda>content. verify_blocks hex (normalize_line_endings content) blocks))"

section \<open>Anchors\<close>

lemma match_from_sound:
  "p \<in> set (match_from needle s i) \<Longrightarrow> i \<le> p \<and> starts_with (drop (p - i) s) needle"
proof (induction needle s i rule: match_from.induct)
  case (1 needle s i)
  consider "needle = []" | "needle \<noteq> []" "starts_with s needle" | "needle \<noteq> []" "\<not> starts_with s needle"
    by blast
  then show ?case
  proof cases
    case 1
    with "1.prems" show ?thesis by (auto simp: match_from.simps [of "[]" s i])
  next
    case 2
    with "1.prems" consider "p = i" | "p \<in> set (match_from needle (drop (length needle) s) (i + length needle))"
      by (auto simp: match_from.simps [of needle s i])
    then show ?thesis
    proof cases
      case 2
      with "1.IH"(1) \<open>needle \<noteq> []\<close> \<open>starts_with s needle\<close>
      have "i + length needle \<le> p \<and> starts_with (drop (p - (i + length needle)) (drop (length needle) s)) needle"
        by blast
      moreover from this have "p - (i + length needle) + length needle = p - i" by linarith
      ultimately show ?thesis by simp
    qed (simp add: 2)
  next
    case 3
    with "1.prems" obtain c t where s: "s = c # t" and p: "p \<in> set (match_from needle t (Suc i))"
      by (auto simp: match_from.simps [of needle s i] split: list.splits)
    from "1.IH"(2) [OF 3 s p] s show ?thesis by (auto simp: drop_Cons' Suc_diff_le)
  qed
qed

text \<open>Every occurrence is a match or overlaps the match to its left.\<close>

lemma match_from_complete:
  "needle \<noteq> [] \<Longrightarrow> starts_with (drop k s) needle \<Longrightarrow>
     \<exists>p \<in> set (match_from needle s i). p \<le> i + k \<and> i + k < p + length needle"
proof (induction needle s i arbitrary: k rule: match_from.induct)
  case (1 needle s i)
  show ?case
  proof (cases "starts_with s needle")
    case True
    show ?thesis
    proof (cases "k < length needle")
      case False
      then have "starts_with (drop (k - length needle) (drop (length needle) s)) needle"
        using "1.prems" by simp
      from "1.IH"(1) [OF "1.prems"(1) True "1.prems"(1) this] False True "1.prems"(1) show ?thesis
        by (auto simp: match_from.simps [of needle s i])
    qed (use True "1.prems"(1) in \<open>auto simp: match_from.simps [of needle s i]\<close>)
  next
    case False
    have s: "s \<noteq> []" "k \<noteq> 0" using False "1.prems" by (cases k; auto simp: starts_with_iff)+
    then obtain c t j where st: "s = c # t" "k = Suc j" by (metis list.exhaust not0_implies_Suc)
    from "1.IH"(2) [OF "1.prems"(1) False st(1) "1.prems"(1), of j] "1.prems"(2) False st "1.prems"(1)
    show ?thesis by (auto simp: match_from.simps [of needle "c # t" i])
  qed
qed

lemma find_unique_Some:
  "find_unique_position content needle = Some p \<Longrightarrow>
     match_from needle content 0 = [p] \<and> starts_with (drop p content) needle"
  using match_from_sound [of p needle content 0]
  by (auto simp: find_unique_position_def split: list.splits)

text \<open>
  An accepted anchor is where the text says: the position is an occurrence of the old
  text, and every other occurrence overlaps it from the right. (Overlapping occurrences
  are not counted as ambiguous.)
\<close>

theorem find_unique_position_spec:
  assumes "find_unique_position content needle = Some p" and "starts_with (drop q content) needle"
    and "needle \<noteq> []"
  shows "starts_with (drop p content) needle \<and> p \<le> q \<and> q < p + length needle"
  using find_unique_Some [OF assms(1)] match_from_complete [OF assms(3,2), of 0] by auto

section \<open>Applying a patch\<close>

lemma anchor_blocks_Inr:
  "anchor_blocks hex content bs = Inr ps \<Longrightarrow>
     map snd ps = bs
     \<and> list_all (\<lambda>(pos, b). starts_with (drop pos content) (old_text b)
         \<and> short_hash hex (old_text b) = expected_hash b) ps"
  by (induction bs arbitrary: ps)
    (auto simp: bind_res_def dest: find_unique_Some split: if_splits option.splits sum.splits)

lemma splice_weave:
  assumes "splice content cursor ps = Inr out"
    and "list_all (\<lambda>(pos, b). starts_with (drop pos content) (old_text b)) ps"
  shows "\<exists>gs. length gs = Suc (length ps) \<and> drop cursor content = weave gs (map (\<lambda>p. old_text (snd p)) ps)
    \<and> out = weave gs (map (\<lambda>p. new_text (snd p)) ps)"
  using assms
proof (induction content cursor ps arbitrary: out rule: splice.induct)
  case (1 content cursor)
  then show ?case by (intro exI [of _ "[drop cursor content]"]) simp
next
  case (2 content cursor pos b ps)
  from "2.prems" obtain out' where le: "cursor \<le> pos"
    and out': "splice content (pos + length (old_text b)) ps = Inr out'"
    and out: "out = drop cursor (take pos content) @ new_text b @ out'"
    by (auto simp: bind_res_def split: if_splits sum.splits)
  from "2.IH" [OF _ out'] "2.prems"(2) le obtain gs where gs: "length gs = Suc (length ps)"
      "drop (pos + length (old_text b)) content = weave gs (map (\<lambda>p. old_text (snd p)) ps)"
      "out' = weave gs (map (\<lambda>p. new_text (snd p)) ps)"
    by auto
  have "starts_with (drop pos content) (old_text b)" using "2.prems"(2) by simp
  then have "drop pos content = old_text b @ drop (pos + length (old_text b)) content"
    by (metis append_eq_conv_conj drop_drop prefixE starts_with_iff add.commute)
  moreover have "drop cursor content = drop cursor (take pos content) @ drop pos content"
    using le by (metis append_take_drop_id drop_append drop_drop le_add_diff_inverse2
        diff_is_0_eq drop0 length_take min_def nat_le_linear take_all drop_all append_Nil)
  ultimately show ?case
    using gs out by (intro exI [of _ "drop cursor (take pos content) # gs"]) simp
qed

text \<open>
  A patch replaces its old texts and nothing else: when applying the blocks succeeds,
  every block's hash is that of its old text, the content is some gaps with the old texts
  of all blocks between them, in the order of their places, and the result is the same
  gaps with the new texts in their stead.
\<close>

theorem apply_blocks_replaces:
  assumes "apply_blocks hex content blocks = Inr out"
  shows "\<exists>bs gaps. mset bs = mset blocks \<and> length gaps = Suc (length bs)
    \<and> content = weave gaps (map old_text bs) \<and> out = weave gaps (map new_text bs)
    \<and> list_all (\<lambda>b. short_hash hex (old_text b) = expected_hash b) bs"
proof -
  from assms obtain ps where ps: "anchor_blocks hex content blocks = Inr ps"
    and out: "splice content 0 (sort_key fst ps) = Inr out"
    by (auto simp: apply_blocks_def bind_res_def split: sum.splits)
  let ?qs = "sort_key fst ps"
  note anchored = anchor_blocks_Inr [OF ps]
  have "list_all (\<lambda>(pos, b). starts_with (drop pos content) (old_text b)) ?qs"
    using anchored by (auto simp: list_all_iff)
  from splice_weave [OF out this] obtain gs where gs: "length gs = Suc (length ?qs)"
      "content = weave gs (map old_text (map snd ?qs))" "out = weave gs (map new_text (map snd ?qs))"
    by (auto simp: comp_def)
  have "mset (map snd ?qs) = mset blocks"
    using anchored by (metis mset_map mset_sort)
  moreover have "list_all (\<lambda>b. short_hash hex (old_text b) = expected_hash b) (map snd ?qs)"
    using anchored by (auto simp: list_all_iff)
  ultimately show ?thesis
    using gs by (intro exI [of _ "map snd ?qs"] exI [of _ gs]) simp
qed

section \<open>Parsing undoes printing\<close>

definition print_block :: "string \<Rightarrow> string list \<Rightarrow> string list \<Rightarrow> string list" where
  "print_block hash old_lines new_lines =
     (''>>>>HASH '' @ hash) # old_lines @ ''===='' # new_lines @ [''>>>>END'']"

lemma take_until_append:
  "marker \<notin> set ls \<Longrightarrow> take_until marker (ls @ marker # rest) = (ls, marker # rest)"
  by (induction ls) auto

lemma trim_blank_solid: "list_all (\<lambda>c. \<not> is_whitespace c) s \<Longrightarrow> trim ('' '' @ s) = s"
  using dropWhile_none [of is_whitespace s] dropWhile_none [of is_whitespace "rev s"]
  by (simp add: trim_def trim_end_pred_def) (simp add: is_whitespace_def)

lemma parse_print_block:
  assumes "length hash = HASH_LEN" "list_all (\<lambda>c. \<not> is_whitespace c) hash"
    and "''===='' \<notin> set old_lines" "''>>>>END'' \<notin> set new_lines"
  shows "parse_lines (print_block hash old_lines new_lines @ rest) =
    bind_res (parse_lines rest) (\<lambda>blocks.
      Inr (\<lparr>expected_hash = hash, old_text = join_with [LF] old_lines,
            new_text = join_with [LF] new_lines\<rparr> # blocks))"
proof -
  have "trim ('' '' @ hash) = hash" by (rule trim_blank_solid) (rule assms(2))
  then show ?thesis
    using assms by (simp add: print_block_def take_until_append)
qed

definition print_patch :: "(string \<times> string list \<times> string list) list \<Rightarrow> string" where
  "print_patch bs = unlines (concat (map (\<lambda>(h, old_lines, new_lines). print_block h old_lines new_lines) bs))"

definition printable :: "string \<times> string list \<times> string list \<Rightarrow> bool" where
  "printable b =
     (case b of (h, old_lines, new_lines) \<Rightarrow>
        length h = HASH_LEN \<and> list_all (\<lambda>c. \<not> is_whitespace c) h
        \<and> ''===='' \<notin> set old_lines \<and> ''>>>>END'' \<notin> set new_lines
        \<and> list_all plain_line old_lines \<and> list_all plain_line new_lines)"

lemma plain_hash_line: "list_all (\<lambda>c. \<not> is_whitespace c) h \<Longrightarrow> h \<noteq> [] \<Longrightarrow> plain_line (''>>>>HASH '' @ h)"
  by (auto simp: plain_for_def list_all_iff is_whitespace_def dest!: last_in_set)

text \<open>
  Parsing undoes printing: any list of blocks whose hashes have the right length and
  whose lines contain no marker or line break, printed as a patch, parses back to those
  blocks.
\<close>

theorem parse_print_patch:
  assumes "list_all printable bs"
  shows "parse_patch (print_patch bs) =
    Inr (map (\<lambda>(h, old_lines, new_lines).
      \<lparr>expected_hash = h, old_text = join_with [LF] old_lines, new_text = join_with [LF] new_lines\<rparr>) bs)"
proof -
  let ?ls = "concat (map (\<lambda>(h, old_lines, new_lines). print_block h old_lines new_lines) bs)"
  have marker: "plain_line ''===='' \<and> plain_line ''>>>>END''" by (simp add: plain_for_def)
  have "list_all plain_line (print_block h old_lines new_lines)" if "printable (h, old_lines, new_lines)"
    for h old_lines new_lines
    using that marker plain_hash_line [of h]
    by (cases "h = []") (auto simp: printable_def print_block_def HASH_LEN_def)
  then have "list_all plain_line ?ls"
    using assms by (induction bs) (auto simp: list_all_iff)
  then have "parse_patch (print_patch bs) = parse_lines ?ls"
    by (simp add: parse_patch_def print_patch_def str_lines_unlines)
  also have "\<dots> = Inr (map (\<lambda>(h, old_lines, new_lines).
      \<lparr>expected_hash = h, old_text = join_with [LF] old_lines, new_text = join_with [LF] new_lines\<rparr>) bs)"
    using assms
    by (induction bs) (auto simp: printable_def parse_print_block bind_res_def)
  finally show ?thesis .
qed

section \<open>Witnesses\<close>

definition demo_hex :: "string \<Rightarrow> string" where
  "demo_hex s = (if s = ''b'' then ''00000000000000bb'' else ''00000000000000cc'')"

theorem find_unique_position_spec_witness:
  "find_unique_position ''xaaay'' ''aa'' = Some 1 \<and> starts_with (drop 2 ''xaaay'') ''aa''
   \<and> 1 \<le> (2 :: nat) \<and> 2 < 1 + length ''aa''"
proof -
  have p: "find_unique_position ''xaaay'' ''aa'' = Some 1" and q: "starts_with (drop 2 ''xaaay'') ''aa''"
    by code_simp+
  from find_unique_position_spec [OF p q] p q show ?thesis by simp
qed

theorem apply_blocks_replaces_witness:
  "\<exists>(bs :: Block list) gaps. ''abc'' = weave gaps (map old_text bs) \<and> ''aXYc'' = weave gaps (map new_text bs)"
proof -
  have "apply_blocks demo_hex ''abc''
      [\<lparr>expected_hash = ''00000000000000bb'', old_text = ''b'', new_text = ''XY''\<rparr>] = Inr ''aXYc''"
    by code_simp
  from apply_blocks_replaces [OF this] show ?thesis by blast
qed

theorem parse_print_patch_witness:
  "parse_patch (print_patch [(''00000000000000bb'', [''b''], [''X'', ''Y''])]) =
     Inr [\<lparr>expected_hash = ''00000000000000bb'', old_text = ''b'', new_text = ''X'' @ [LF] @ ''Y''\<rparr>]"
proof -
  have "list_all printable [(''00000000000000bb'', [''b''], [''X'', ''Y''])]" by code_simp
  from parse_print_patch [OF this] show ?thesis by simp
qed

end
