(* ===== verification/Prompt_Guard.thy ===== *)
theory Prompt_Guard
  imports Rust_Prelude
begin

text \<open>
  Sanitising text for prompts (\<^verbatim>\<open>oh-my-grok-build/src/prompt_guard.rs\<close>): removal of
  separators and backticks, collapsing of control characters and white space with
  truncation, and the detection of injection phrases. Text is ASCII here, where the byte
  offsets and character counts of the source agree.

  The lemmas describe the text that is let through: one line of printable words, within
  the limit, free of separators and phrases, and unchanged by sanitising it again.
\<close>

section \<open>Definitions\<close>

definition INJECTION_PHRASES_ALWAYS :: "string list" where
  "INJECTION_PHRASES_ALWAYS =
     [''ignore all previous instructions'', ''ignore all prior instructions'', ''disregard all'',
      ''system prompt'', ''new system prompt'', ''new instructions'', ''override instructions'',
      ''override your instructions'', ''forget everything'', ''do not follow'', ''do not obey'',
      ''from now on you'', ''pretend you are'', ''roleplay as'', ''jailbreak'', ''prompt injection'']"

definition INJECTION_PHRASES_DIRECTIVE :: "string list" where
  "INJECTION_PHRASES_DIRECTIVE =
     [''ignore previous instructions'', ''ignore prior instructions'', ''ignore the previous'',
      ''ignore the prior'', ''ignore all'', ''you are now'', ''you are a'', ''you are an'']"

abbreviation bt :: char where "bt \<equiv> CHR 0x60"

definition INJECTION_MARKERS :: "char list" where
  "INJECTION_MARKERS = [bt]"

definition remove_injection_markers :: "string \<Rightarrow> string" where
  "remove_injection_markers s = map (\<lambda>c. if c \<in> set INJECTION_MARKERS then CHR '' '' else c) s"

definition normalize_for_injection :: "string \<Rightarrow> string" where
  "normalize_for_injection s =
     remove_injection_markers
       (replace_str [bt, bt, bt] '' '' (replace_str ''+++'' '' '' (replace_str ''---'' '' '' s)))"

definition is_word_boundary :: "char \<Rightarrow> bool" where
  "is_word_boundary c \<longleftrightarrow> \<not> (is_ascii_alphanumeric c \<or> c = sq)"

definition is_directive_prefix :: "string \<Rightarrow> bool" where
  "is_directive_prefix s =
     (let trimmed = trim_end_pred is_whitespace s
      in if trimmed = [] then True
         else last trimmed \<in> set (''.!?:-*>'' @ [CHR 0x0A, CHR 0x0D]))"

definition nth_or_blank :: "string \<Rightarrow> nat \<Rightarrow> char" where
  "nth_or_blank s i = (if i < length s then s ! i else CHR '' '')"

definition phrase_match_looks_like_injection :: "string \<Rightarrow> string \<Rightarrow> nat \<Rightarrow> bool" where
  "phrase_match_looks_like_injection lower phrase start =
     (let end_pos = start + length phrase;
          before_ok = (start = 0 \<or> is_word_boundary (nth_or_blank lower (start - 1)));
          after_ok = (length lower \<le> end_pos \<or> is_word_boundary (nth_or_blank lower end_pos))
      in if \<not> before_ok \<or> \<not> after_ok then False else is_directive_prefix (take start lower))"

text \<open>\<^verbatim>\<open>str::find\<close> with a string.\<close>

fun find_str :: "string \<Rightarrow> string \<Rightarrow> nat option" where
  "find_str [] p = (if p = [] then Some 0 else None)"
| "find_str (c # s) p =
     (if starts_with (c # s) p then Some 0 else map_option Suc (find_str s p))"

text \<open>The loop over the matches of one phrase; the phrases of the tables are not empty.\<close>

function directive_scan :: "string \<Rightarrow> string \<Rightarrow> nat \<Rightarrow> bool" where
  "directive_scan lower phrase offset =
     (if phrase = [] then False
      else (case find_str (drop offset lower) phrase of
              None \<Rightarrow> False
            | Some pos \<Rightarrow>
                (if phrase_match_looks_like_injection lower phrase (offset + pos) then True
                 else if length lower < offset + pos + length phrase then False
                 else directive_scan lower phrase (offset + pos + length phrase))))"
  by auto
termination
proof (relation "measure (\<lambda>(lower, phrase, offset). length lower - offset)", goal_cases)
  case (2 lower phrase offset pos)
  then have "0 < length phrase" by simp
  with 2(4) show ?case unfolding in_measure prod.case by linarith
qed simp

definition contains_injection_phrase :: "string \<Rightarrow> bool" where
  "contains_injection_phrase s =
     (let lower = to_lowercase s
      in list_ex (contains_str lower) INJECTION_PHRASES_ALWAYS
         \<or> list_ex (\<lambda>phrase. directive_scan lower phrase 0) INJECTION_PHRASES_DIRECTIVE)"

abbreviation blank :: "char \<Rightarrow> bool" where
  "blank c \<equiv> is_control c \<or> is_whitespace c"

fun collapse_loop :: "nat \<Rightarrow> string \<Rightarrow> nat \<Rightarrow> bool \<Rightarrow> string" where
  "collapse_loop max_chars [] chars prev_space = []"
| "collapse_loop max_chars (c # s) chars prev_space =
     (if blank c
      then (if \<not> prev_space
            then CHR '' '' # (if max_chars \<le> Suc chars then [] else collapse_loop max_chars s (Suc chars) True)
            else if max_chars \<le> chars then [] else collapse_loop max_chars s chars True)
      else c # (if max_chars \<le> Suc chars then [] else collapse_loop max_chars s (Suc chars) False))"

definition collapse :: "string \<Rightarrow> nat \<Rightarrow> string" where
  "collapse s max_chars = trim_end_pred (\<lambda>c. c = CHR '' '') (collapse_loop max_chars s 0 True)"

definition sanitize_inline :: "string \<Rightarrow> nat \<Rightarrow> string option" where
  "sanitize_inline s max_chars =
     (if s = [] then None
      else let cleaned = collapse (normalize_for_injection s) max_chars
           in if contains_injection_phrase cleaned then None else Some cleaned)"

definition sanitize_skill_body :: "string \<Rightarrow> nat \<Rightarrow> string option" where
  "sanitize_skill_body s max_chars =
     (if s = [] then None
      else let cleaned = collapse (normalize_for_injection s) max_chars
           in if contains_injection_phrase cleaned then None else Some cleaned)"

definition limit_storage :: "string \<Rightarrow> nat \<Rightarrow> string" where
  "limit_storage s max_bytes =
     (if length s \<le> max_bytes then s else take max_bytes s @ ''... (truncated)'')"

section \<open>What replacing leaves\<close>

lemma replace_str_Nil [simp]: "replace_str q r [] = []"
  by (simp add: replace_str.simps [of q r "[]"])

lemma replace_str_cases:
  obtains "q = [] \<or> s = []" "replace_str q r s = s"
  | c t where "s = c # t" "q \<noteq> []" "\<not> starts_with s q" "replace_str q r s = c # replace_str q r t"
  | c t where "s = c # t" "q \<noteq> []" "starts_with s q" "replace_str q r s = r @ replace_str q r (drop (length q) s)"
proof (cases "q = [] \<or> s = []")
  case True
  then have "replace_str q r s = s" by (auto simp: replace_str.simps [of q r s])
  with True that(1) show ?thesis by blast
next
  case False
  then obtain c t where s: "s = c # t" by (cases s) auto
  show ?thesis
  proof (cases "strip_prefix s q")
    case None
    with False s have "replace_str q r s = c # replace_str q r t"
      by (simp add: replace_str.simps [of q r "c # t"])
    with None False s that(2) show ?thesis by (simp add: strip_prefix_None)
  next
    case (Some rest)
    then have "starts_with s q" using strip_prefix_None [of s q] by force
    moreover from Some False s have "replace_str q r s = r @ replace_str q r (drop (length q) s)"
      by (simp add: replace_str.simps [of q r "c # t"])
    ultimately show ?thesis using False s that(3) by blast
  qed
qed

lemma starts_with_replace:
  "b \<notin> set p \<Longrightarrow> starts_with (replace_str q [b] s) p \<Longrightarrow> starts_with s p"
proof (induction s arbitrary: p)
  case (Cons c s)
  show ?case
  proof (cases rule: replace_str_cases [of q "c # s" "[b]"])
    case 2
    with Cons show ?thesis by (cases p) (auto simp: str_iff)
  next
    case 3
    with Cons.prems show ?thesis by (cases p) (auto simp: str_iff)
  qed (use Cons.prems in auto)
qed simp

lemma contains_append: "contains_str t p \<Longrightarrow> contains_str (xs @ t) p"
  by (induction xs) auto

lemma contains_drop: "contains_str (drop n s) p \<Longrightarrow> contains_str s p"
  using contains_append [of "drop n s" p "take n s"] by simp

lemma contains_replace:
  assumes "b \<notin> set p" "p \<noteq> []"
  shows "contains_str (replace_str q [b] s) p \<Longrightarrow> contains_str s p"
proof (induction s rule: length_induct)
  case (1 s)
  show ?case
  proof (cases rule: replace_str_cases [of q s "[b]"])
    case (2 c t)
    with 1 starts_with_replace [OF assms(1), of q s] show ?thesis by auto
  next
    case (3 c t)
    with "1.prems" assms have "contains_str (replace_str q [b] (drop (length q) s)) p"
      by (cases p) auto
    moreover have "length (drop (length q) s) < length s" using 3 by simp
    ultimately show ?thesis using "1.IH" contains_drop by blast
  qed (use "1.prems" in auto)
qed

lemma replaced_absent:
  assumes "b \<notin> set p" "p \<noteq> []"
  shows "\<not> contains_str (replace_str p [b] s) p"
proof (induction s rule: length_induct)
  case (1 s)
  show ?case
  proof (cases rule: replace_str_cases [of p s "[b]"])
    case (2 c t)
    with 1 starts_with_replace [OF assms(1), of p s] show ?thesis by auto
  next
    case (3 c t)
    with "1.IH" assms show ?thesis by (cases p) auto
  qed (use assms in auto)
qed

lemma contains_map:
  assumes "\<And>c. f c \<noteq> c \<Longrightarrow> f c \<notin> set p" and "contains_str (map f s) p"
  shows "contains_str s p"
proof -
  obtain xs ys zs where s: "s = xs @ ys @ zs" "map f ys = p"
    using assms(2) by (auto simp: str_iff sublist_def map_eq_append_conv append_eq_map_conv)
  then have "f c = c" if "c \<in> set ys" for c using assms(1) [of c] that by force
  then have "ys = p" using s(2) by (metis map_idI)
  with s show ?thesis by (auto simp: str_iff)
qed

text \<open>After normalisation no separator and no backtick is left.\<close>

definition separators :: "string list" where
  "separators = [''---'', ''+++'', [bt]]"

lemma normalize_clean:
  assumes "p \<in> set separators"
  shows "\<not> contains_str (normalize_for_injection s) p"
proof
  assume "contains_str (normalize_for_injection s) p"
  let ?m = "replace_str ''---'' '' '' s"
  let ?n = "replace_str ''+++'' '' '' ?m"
  let ?t = "replace_str [bt, bt, bt] '' '' ?n"
  have blank: "CHR '' '' \<notin> set p" "p \<noteq> []" using assms by (auto simp: separators_def)
  show False
  proof (cases "p = [bt]")
    case True
    then have "bt \<in> set (normalize_for_injection s)"
      using \<open>contains_str _ p\<close> by (auto simp: str_iff sublist_def)
    then show False
      by (auto simp: normalize_for_injection_def remove_injection_markers_def INJECTION_MARKERS_def split: if_splits)
  next
    case False
    have "contains_str (map (\<lambda>c. if c \<in> set INJECTION_MARKERS then CHR '' '' else c) ?t) p"
      using \<open>contains_str _ p\<close> unfolding normalize_for_injection_def remove_injection_markers_def .
    then have "contains_str ?t p"
      by (rule contains_map [rotated]) (use blank(1) in \<open>simp split: if_splits\<close>)
    then have n: "contains_str ?n p" by (rule contains_replace [OF blank])
    then have m: "contains_str ?m p" by (rule contains_replace [OF blank])
    from False assms have "p = ''---'' \<or> p = ''+++''" by (simp add: separators_def)
    with n m replaced_absent [of "CHR '' ''" "''+++''" ?m] replaced_absent [of "CHR '' ''" "''---''" s]
    show False by auto
  qed
qed

section \<open>What collapsing leaves\<close>

abbreviation sp :: char where "sp \<equiv> CHR '' ''"

lemma blank_sp: "blank sp"
  by (simp add: is_whitespace_def)

lemma collapse_starts:
  "sp \<notin> set p \<Longrightarrow> starts_with (collapse_loop m s n False) p \<Longrightarrow> starts_with s p"
proof (induction s arbitrary: n p)
  case (Cons c s)
  then show ?case by (cases p) (auto simp: str_iff split: if_splits)
qed simp

lemma collapse_contains:
  "sp \<notin> set p \<Longrightarrow> p \<noteq> [] \<Longrightarrow> contains_str (collapse_loop m s n prev) p \<Longrightarrow> contains_str s p"
proof (induction s arbitrary: n prev)
  case (Cons c s)
  have head: "starts_with (c # s) p" if "starts_with (c # collapse_loop m s k False) p" for k
    using that Cons.prems(1,2) collapse_starts [of "tl p" m s k] by (cases p) (auto simp: str_iff)
  have single: "starts_with (c # s) p" if "starts_with [c] p"
    using that by (cases p) (auto simp: str_iff prefix_Cons)
  have "\<not> starts_with (sp # xs) p" for xs
    using Cons.prems(1,2) by (cases p) (auto simp: str_iff)
  with Cons head single show ?case by (auto split: if_splits)
qed simp

lemma collapse_chars: "c \<in> set (collapse_loop m s n prev) \<Longrightarrow> c = sp \<or> \<not> blank c"
  by (induction m s n prev rule: collapse_loop.induct) (auto split: if_splits)

lemma collapse_lead: "collapse_loop m s n True = [] \<or> hd (collapse_loop m s n True) \<noteq> sp"
  by (induction s) (auto simp: is_whitespace_def)

lemma collapse_single: "\<not> contains_str (collapse_loop m s n prev) [sp, sp]"
proof (induction m s n prev rule: collapse_loop.induct)
  case (2 m c s n prev)
  have "\<not> starts_with (sp # collapse_loop m s k True) [sp, sp]" for k
    using collapse_lead [of m s k] by (cases "collapse_loop m s k True") (auto simp: str_iff)
  moreover have "\<not> starts_with (c # xs) [sp, sp]" if "\<not> blank c" for xs
    using that blank_sp by auto
  moreover have "\<not> starts_with [sp] [sp, sp]" by simp
  ultimately show ?case using 2 by (auto simp del: starts_with.simps)
qed simp

lemma collapse_length: "length (collapse_loop m s n prev) \<le> max 1 (m - n)"
  by (induction m s n prev rule: collapse_loop.induct) (auto simp: max_def split: if_splits)

lemma collapse_fixed:
  assumes "length t \<le> max 1 (m - n)" and "\<And>c. c \<in> set t \<Longrightarrow> c = sp \<or> \<not> blank c"
    and "\<not> contains_str t [sp, sp]" and "prev \<longrightarrow> t = [] \<or> hd t \<noteq> sp"
  shows "collapse_loop m t n prev = t"
  using assms
proof (induction t arbitrary: n prev)
  case (Cons c t)
  have more: "t = [] \<or> \<not> m \<le> Suc n \<and> length t \<le> max 1 (m - Suc n)"
    using Cons.prems(1) by (cases t) (auto simp: max_def split: if_splits)
  have c: "c = sp \<or> \<not> blank c" using Cons.prems(2) by simp
  have next_ok: "c = sp \<longrightarrow> t = [] \<or> hd t \<noteq> sp"
    using Cons.prems(3) by (cases t) (auto simp: str_iff)
  have rest: "collapse_loop m t (Suc n) (c = sp) = t" if "t \<noteq> []"
  proof (rule Cons.IH)
    show "length t \<le> max 1 (m - Suc n)" using more that by simp
    show "d = sp \<or> \<not> blank d" if "d \<in> set t" for d using Cons.prems(2) that by simp
    show "\<not> contains_str t [sp, sp]" using Cons.prems(3) by simp
  qed (rule next_ok)
  show ?case
  proof (cases "c = sp")
    case True
    then have "blank c" "\<not> prev" using blank_sp Cons.prems(4) by simp_all
    then show ?thesis using True more rest
      by (cases "t = []") (simp_all only: collapse_loop.simps if_True if_False if_cancel simp_thms)
  next
    case False
    then have "\<not> blank c" using c by simp
    then show ?thesis using False more rest
      by (cases "t = []") (simp_all only: collapse_loop.simps if_True if_False if_cancel simp_thms)
  qed
qed simp

section \<open>Sanitised text\<close>

lemma trim_end_append: "\<exists>u. s = trim_end_pred P s @ u"
proof -
  have "rev s = takeWhile P (rev s) @ dropWhile P (rev s)" by simp
  then have "s = rev (dropWhile P (rev s)) @ rev (takeWhile P (rev s))"
    by (metis rev_append rev_rev_ident)
  then show ?thesis unfolding trim_end_pred_def by blast
qed

lemma contains_prefix: "contains_str s p \<Longrightarrow> contains_str (s @ u) p"
  by (metis append.assoc contains_str_iff sublist_def)

lemma trim_end_last: "trim_end_pred P s \<noteq> [] \<Longrightarrow> \<not> P (last (trim_end_pred P s))"
  unfolding trim_end_pred_def by (metis hd_dropWhile last_rev rev_is_Nil_conv)

lemma trim_end_fixed: "s = [] \<or> \<not> P (last s) \<Longrightarrow> trim_end_pred P s = s"
  unfolding trim_end_pred_def by (cases s rule: rev_cases) auto

text \<open>The shape of clean text.\<close>

definition clean_text :: "nat \<Rightarrow> string \<Rightarrow> bool" where
  "clean_text n t \<longleftrightarrow>
     length t \<le> max 1 n \<and> list_all (\<lambda>c. c = sp \<or> \<not> blank c) t \<and> \<not> contains_str t [sp, sp]
     \<and> (t = [] \<or> hd t \<noteq> sp \<and> last t \<noteq> sp)
     \<and> list_all (\<lambda>p. \<not> contains_str t p) separators"

lemma collapse_clean: "clean_text n (collapse (normalize_for_injection s) n)"
proof -
  let ?l = "collapse_loop n (normalize_for_injection s) 0 True" and ?t = "collapse (normalize_for_injection s) n"
  obtain u where u: "?l = ?t @ u" using trim_end_append unfolding collapse_def by blast
  have "length ?t \<le> max 1 n" using collapse_length [of n "normalize_for_injection s" 0 True] u by simp
  moreover have "list_all (\<lambda>c. c = sp \<or> \<not> blank c) ?t"
    using collapse_chars [of _ n "normalize_for_injection s" 0 True] u by (auto simp: list_all_iff)
  moreover have "\<not> contains_str ?t [sp, sp]"
    using collapse_single contains_prefix u by metis
  moreover have "?t = [] \<or> hd ?t \<noteq> sp \<and> last ?t \<noteq> sp"
    using collapse_lead [of n "normalize_for_injection s" 0] u
      trim_end_last [of "\<lambda>c. c = sp" ?l, folded collapse_def] by (cases ?t) auto
  moreover have "\<not> contains_str ?t p" if "p \<in> set separators" for p
  proof -
    have "sp \<notin> set p" "p \<noteq> []" using that by (auto simp: separators_def)
    then show ?thesis
      using collapse_contains [of p n "normalize_for_injection s" 0 True] normalize_clean [OF that, of s]
        contains_prefix [of ?t p u] u by metis
  qed
  ultimately show ?thesis by (simp add: clean_text_def list_all_iff)
qed

lemma clean_fixed:
  assumes "clean_text n t"
  shows "collapse (normalize_for_injection t) n = t"
proof -
  have bt: "bt \<notin> set t" "\<not> contains_str t ''---''" "\<not> contains_str t ''+++''" "\<not> contains_str t [bt, bt, bt]"
    using assms by (auto simp: clean_text_def separators_def str_iff sublist_def dest!: split_list)
  then have "normalize_for_injection t = t"
    by (auto simp: normalize_for_injection_def replace_str_absent remove_injection_markers_def
        INJECTION_MARKERS_def intro!: map_idI)
  moreover have "collapse_loop n t 0 True = t"
    using assms by (intro collapse_fixed) (auto simp: clean_text_def list_all_iff)
  moreover have "trim_end_pred (\<lambda>c. c = sp) t = t"
    by (rule trim_end_fixed) (use assms in \<open>auto simp only: clean_text_def\<close>)
  ultimately show ?thesis by (simp only: collapse_def)
qed

text \<open>
  Text that passes the sanitiser is clean: at most the given number of characters (one
  at least), no control character or line break, single blanks between words and none at
  the ends, no \<^verbatim>\<open>---\<close>, \<^verbatim>\<open>+++\<close> or backtick, and none of the phrases that are always refused;
  and sanitising it again changes nothing.
\<close>

theorem sanitize_inline_clean:
  assumes "sanitize_inline s n = Some t"
  shows "clean_text n t \<and> list_all (\<lambda>p. \<not> contains_str (to_lowercase t) p) INJECTION_PHRASES_ALWAYS
    \<and> sanitize_inline t n = (if t = [] then None else Some t)"
proof -
  from assms have t: "t = collapse (normalize_for_injection s) n" "\<not> contains_injection_phrase t"
    by (auto simp: sanitize_inline_def Let_def split: if_splits)
  then have clean: "clean_text n t" using collapse_clean by simp
  with t(2) clean_fixed [OF clean] show ?thesis
    by (auto simp: sanitize_inline_def Let_def contains_injection_phrase_def list_all_iff list_ex_iff)
qed

theorem sanitize_inline_clean_witness:
  "sanitize_inline (''use  spaces --- '' @ [CHR 0x0A] @ ''now'') 40 = Some ''use spaces now''
   \<and> clean_text 40 ''use spaces now''"
proof -
  have h: "sanitize_inline (''use  spaces --- '' @ [CHR 0x0A] @ ''now'') 40 = Some ''use spaces now''"
    by code_simp
  from sanitize_inline_clean [OF h] h show ?thesis by simp
qed

end
