(* ===== verification/Token_Estimation.thy ===== *)
theory Token_Estimation
  imports Rust_Prelude Complex_Main "HOL-Library.Word"
begin

text \<open>
  Token estimation (\<^verbatim>\<open>codegen/xai-token-estimation/src/lib.rs\<close>): the bytes-per-token
  heuristic and the percentage and threshold arithmetic on 64-bit words with saturating
  operations. \<^verbatim>\<open>f64\<close> percentages are exact rationals here, rounded half away from zero as
  \<^verbatim>\<open>f64::round\<close> does.

  The lemmas relate the saturating arithmetic to exact arithmetic: where the bounds that
  rule out saturation hold, the threshold test is the exact comparison.
\<close>

section \<open>Definitions\<close>

definition BYTES_PER_TOKEN :: "64 word" where "BYTES_PER_TOKEN = 4"
definition IMAGE_TOKEN_ESTIMATE :: "64 word" where "IMAGE_TOKEN_ESTIMATE = 765"

definition sat_mul64 :: "64 word \<Rightarrow> 64 word \<Rightarrow> 64 word" where
  "sat_mul64 a b = (if unat a * unat b < 2 ^ 64 then a * b else - 1)"

definition sat_sub64 :: "64 word \<Rightarrow> 64 word \<Rightarrow> 64 word" where
  "sat_sub64 a b = (if b \<le> a then a - b else 0)"

definition estimate_tokens :: "string \<Rightarrow> 64 word" where
  "estimate_tokens s = word_of_nat (length s) div BYTES_PER_TOKEN"

definition estimate_chars :: "64 word \<Rightarrow> 64 word" where
  "estimate_chars tokens = sat_mul64 tokens BYTES_PER_TOKEN"

definition estimate_image_tokens :: "64 word \<Rightarrow> 64 word" where
  "estimate_image_tokens image_count = sat_mul64 image_count IMAGE_TOKEN_ESTIMATE"

definition usage_percentage :: "64 word \<Rightarrow> 64 word \<Rightarrow> rat" where
  "usage_percentage used total_tokens =
     (if total_tokens = 0 then 0 else min (of_nat (unat used) / of_nat (unat total_tokens) * 100) 100)"

definition usage_percentage_u8 :: "64 word \<Rightarrow> 64 word \<Rightarrow> 8 word" where
  "usage_percentage_u8 used total_tokens = word_of_int (\<lfloor>usage_percentage used total_tokens + 1 / 2\<rfloor>)"

definition usage_percentage_truncated_u8 :: "64 word \<Rightarrow> 64 word \<Rightarrow> 8 word" where
  "usage_percentage_truncated_u8 used total_tokens =
     (if total_tokens = 0 then 0 else word_of_nat (unat (min (sat_mul64 used 100 div total_tokens) 100)))"

definition free_tokens :: "64 word \<Rightarrow> 64 word \<Rightarrow> 64 word" where
  "free_tokens total_tokens used = sat_sub64 total_tokens used"

definition exceeds_threshold :: "64 word \<Rightarrow> 64 word \<Rightarrow> 8 word \<Rightarrow> bool" where
  "exceeds_threshold used context_window threshold_percent \<longleftrightarrow>
     (if context_window = 0 then False
      else sat_mul64 context_window (ucast threshold_percent) \<le> sat_mul64 used 100)"

definition exceeds_threshold_with_headroom :: "64 word \<Rightarrow> 64 word \<Rightarrow> 8 word \<Rightarrow> 64 word \<Rightarrow> bool" where
  "exceeds_threshold_with_headroom used context_window threshold_percent headroom \<longleftrightarrow>
     (if context_window = 0 then False
      else sat_sub64 (sat_mul64 context_window (ucast threshold_percent)) (sat_mul64 headroom 100)
           \<le> sat_mul64 used 100)"

section \<open>Saturating against exact arithmetic\<close>

lemma unat_max64: "unat (- 1 :: 64 word) = 2 ^ 64 - 1"
  by (simp add: unsigned_minus_1_eq_mask mask_eq_exp_minus_1)

lemma unat_sat_mul: "unat (sat_mul64 a b) = min (unat a * unat b) (2 ^ 64 - 1)"
  by (auto simp: sat_mul64_def unat_word_ariths unat_max64 min_def)

lemma unat_sat_sub64: "unat (sat_sub64 a b) = unat a - unat b"
  by (simp add: sat_sub64_def unat_sub word_le_nat_alt)

lemma unat_percent_less: "unat (p :: 8 word) < 2 ^ 8"
  by (rule order_less_le_trans [OF unsigned_less]) simp

lemma unat_ucast_percent: "unat (ucast (p :: 8 word) :: 64 word) = unat p"
  using unat_percent_less [of p] by (simp add: unsigned_ucast_eq take_bit_nat_eq_self)

text \<open>
  The compaction gate is exact: for context windows up to \<open>2 ^ 56\<close> tokens the
  saturating test decides whether the used tokens plus the headroom reach the threshold
  percentage of the window, for every used count and headroom, and without headroom it is
  the plain test.
\<close>

theorem threshold_exact:
  assumes "0 < unat window" "unat window \<le> 2 ^ 56"
  shows "(exceeds_threshold_with_headroom used window pct headroom \<longleftrightarrow>
      unat window * unat pct \<le> (unat used + unat headroom) * 100)
    \<and> (exceeds_threshold used window pct \<longleftrightarrow> unat window * unat pct \<le> unat used * 100)"
proof -
  have w: "window \<noteq> 0" using assms(1) by auto
  have "unat window * unat pct \<le> 2 ^ 56 * (2 ^ 8 - 1)"
    using assms(2) unat_percent_less [of pct] by (intro mult_le_mono) simp_all
  then have small: "unat window * unat pct < 2 ^ 64 - 1" by simp
  then show ?thesis
    unfolding exceeds_threshold_with_headroom_def exceeds_threshold_def word_le_nat_alt
    using w by (auto simp: unat_sat_mul unat_sat_sub64 unat_ucast_percent min_def split: if_splits)
qed

theorem threshold_exact_witness:
  "exceeds_threshold_with_headroom 100000 131072 80 5000 \<and> \<not> exceeds_threshold 100000 131072 80"
  using threshold_exact [of 131072 100000 80 5000] by simp

end
