(* ===== verification/Float64.thy ===== *)
theory Float64
  imports Rust_Prelude "HOL-Library.Log_Nat" Complex_Main
begin

text \<open>
  The part of IEEE binary64 arithmetic that the sources use on non-negative numbers: the
  value of a decimal literal, sums and products are the exact rational result rounded to
  53 significant bits, ties to even. Overflow to infinity is not cut off: the sources
  convert the result with \<^verbatim>\<open>as u64\<close>, which saturates at \<open>2 ^ 64 - 1\<close> for every larger number and
  for infinity alike.
\<close>

section \<open>Rounding\<close>

text \<open>The number of bits before the binary point (negative or zero below one half).\<close>

definition binary_exponent :: "rat \<Rightarrow> int" where
  "binary_exponent q =
     (if 1 \<le> q then int (floorlog 2 (nat \<lfloor>q\<rfloor>))
      else 1 - int (floorlog 2 (nat (\<lceil>1 / q\<rceil> - 1))))"

definition ties_to_even :: "rat \<Rightarrow> int" where
  "ties_to_even q =
     (let f = \<lfloor>q\<rfloor>; r = q - of_int f
      in if r < 1 / 2 then f else if 1 / 2 < r then f + 1 else if even f then f else f + 1)"

definition pow2 :: "int \<Rightarrow> rat" where
  "pow2 e = (if 0 \<le> e then 2 ^ nat e else 1 / 2 ^ nat (- e))"

text \<open>53 bits of precision, down to the spacing \<open>2 ^ -1074\<close> of the subnormal numbers.\<close>

definition f64 :: "rat \<Rightarrow> rat" where
  "f64 q =
     (if q \<le> 0 then 0
      else let e = max (binary_exponent q - 53) (- 1074)
           in of_int (ties_to_even (q / pow2 e)) * pow2 e)"

definition as_u64 :: "rat \<Rightarrow> nat" where
  "as_u64 q = min (nat \<lfloor>q\<rfloor>) (2 ^ 64 - 1)"

text \<open>
  \<^verbatim>\<open>str::parse::<f64>\<close> on text of decimal digits and points only: at most one point and at
  least one digit.
\<close>

definition parse_decimal :: "string \<Rightarrow> rat option" where
  "parse_decimal s =
     (let ip = takeWhile is_ascii_digit s; r = dropWhile is_ascii_digit s
      in case r of
           [] \<Rightarrow> if ip = [] then None else Some (f64 (of_nat (digits_val ip)))
         | c # fp \<Rightarrow>
             if c = CHR ''.'' \<and> list_all is_ascii_digit fp \<and> ip @ fp \<noteq> []
             then Some (f64 (of_nat (digits_val (ip @ fp)) / 10 ^ length fp)) else None)"

section \<open>Small integers are exact\<close>

lemma ties_to_even_int [simp]: "ties_to_even (of_int k) = k"
  by (simp add: ties_to_even_def Let_def)

lemma pow2_neg: "e \<le> 0 \<Longrightarrow> q / pow2 e = q * 2 ^ nat (- e)"
  by (cases "e = 0") (simp_all add: pow2_def)

lemma pow2_pos: "0 < pow2 e"
  by (simp add: pow2_def)

lemma f64_nat:
  assumes "n < 2 ^ 53"
  shows "f64 (of_nat n) = of_nat n"
proof (cases "n = 0")
  case True
  then show ?thesis by (simp add: f64_def)
next
  case False
  define e where "e = max (binary_exponent (of_nat n) - 53) (- 1074)"
  have "floorlog 2 n \<le> 53" using assms by (intro floorlog_leI) simp_all
  with False have "e \<le> 0" by (simp add: e_def binary_exponent_def)
  then have "of_nat n / pow2 e = of_int (int n * 2 ^ nat (- e))" by (simp add: pow2_neg)
  then have "of_int (ties_to_even (of_nat n / pow2 e)) = of_nat n / pow2 e" by (simp only: ties_to_even_int)
  with False pow2_pos [of e] show ?thesis
    by (simp add: f64_def Let_def flip: e_def)
qed

lemma as_u64_nat: "n < 2 ^ 64 \<Longrightarrow> as_u64 (of_nat n) = n"
  by (simp add: as_u64_def)

lemma as_u64_huge: "2 ^ 64 \<le> q \<Longrightarrow> as_u64 q = 2 ^ 64 - 1"
proof -
  assume "2 ^ 64 \<le> q"
  then have "(2 ^ 64 - 1 :: int) \<le> \<lfloor>q\<rfloor>" by (simp add: le_floor_iff)
  then have "2 ^ 64 - 1 \<le> nat \<lfloor>q\<rfloor>" by (simp add: nat_le_iff le_nat_iff)
  then show ?thesis by (simp add: as_u64_def min_absorb2)
qed

text \<open>Rounding never goes below a power of two that the number reaches.\<close>

lemma ties_to_even_ge: "of_int k \<le> q \<Longrightarrow> k \<le> ties_to_even q"
proof -
  assume "of_int k \<le> q"
  then have "k \<le> \<lfloor>q\<rfloor>" by (simp add: le_floor_iff)
  then show ?thesis by (simp add: ties_to_even_def Let_def)
qed

lemma f64_ge:
  assumes "1 \<le> q" "53 \<le> floorlog 2 (nat \<lfloor>q\<rfloor>)"
  shows "2 ^ (floorlog 2 (nat \<lfloor>q\<rfloor>) - 1) \<le> f64 q"
proof -
  define b where "b = floorlog 2 (nat \<lfloor>q\<rfloor>)"
  have b: "53 \<le> b" and pos: "0 < nat \<lfloor>q\<rfloor>" using assms by (simp_all add: b_def)
  have "2 ^ (b - 1) \<le> nat \<lfloor>q\<rfloor>" using floorlog_bounds [of "nat \<lfloor>q\<rfloor>" 2] pos by (simp add: b_def)
  then have "(2 ^ (b - 1) :: int) \<le> \<lfloor>q\<rfloor>" using pos by (simp add: le_nat_iff)
  then have q: "2 ^ (b - 1) \<le> q" by (simp add: le_floor_iff)
  have split: "(2 ^ (b - 1) :: rat) = 2 ^ 52 * 2 ^ (b - 53)" using b by (subst power_add [symmetric]) simp
  with q have "of_int (2 ^ 52) \<le> q / 2 ^ (b - 53)" by (simp add: field_simps)
  then have "2 ^ 52 \<le> ties_to_even (q / 2 ^ (b - 53))" by (rule ties_to_even_ge)
  then have "(of_int (2 ^ 52) :: rat) \<le> of_int (ties_to_even (q / 2 ^ (b - 53)))" by (simp only: of_int_le_iff)
  then have "of_int (2 ^ 52) * (2 ^ (b - 53) :: rat) \<le> of_int (ties_to_even (q / 2 ^ (b - 53))) * 2 ^ (b - 53)"
    by (rule mult_right_mono) simp
  then have "(2 ^ 52 :: rat) * 2 ^ (b - 53) \<le> of_int (ties_to_even (q / 2 ^ (b - 53))) * 2 ^ (b - 53)"
    by (simp only: of_int_power of_int_numeral)
  moreover have "max (binary_exponent q - 53) (- 1074) = int (b - 53)"
    using assms(1) b by (simp add: binary_exponent_def b_def)
  ultimately show ?thesis using assms(1) unfolding split [symmetric] b_def [symmetric]
    by (simp add: f64_def pow2_def Let_def)
qed

lemma f64_huge:
  assumes "2 ^ 64 \<le> q"
  shows "2 ^ 64 \<le> f64 q"
proof -
  have "(2 ^ 64 :: int) \<le> \<lfloor>q\<rfloor>" using assms by (simp add: le_floor_iff)
  then have "2 ^ 64 \<le> nat \<lfloor>q\<rfloor>" by (simp add: le_nat_iff)
  then have l: "65 \<le> floorlog 2 (nat \<lfloor>q\<rfloor>)" by (intro floorlog_geI) simp_all
  have "(2 ^ 64 :: rat) \<le> 2 ^ (floorlog 2 (nat \<lfloor>q\<rfloor>) - 1)" using l by (intro power_increasing) simp_all
  also have "\<dots> \<le> f64 q" using assms l by (intro f64_ge) simp_all
  finally show ?thesis .
qed

lemma parse_decimal_whole:
  assumes "s \<noteq> []" "list_all is_ascii_digit s"
  shows "parse_decimal s = Some (f64 (of_nat (digits_val s)))"
proof -
  have d: "takeWhile is_ascii_digit s = s" "dropWhile is_ascii_digit s = []"
    using assms(2) by (auto simp: list_all_iff takeWhile_eq_all_conv dropWhile_eq_Nil_conv)
  show ?thesis using assms(1) by (simp add: parse_decimal_def Let_def d)
qed

lemma parse_decimal_digits:
  "s \<noteq> [] \<Longrightarrow> list_all is_ascii_digit s \<Longrightarrow> digits_val s < 2 ^ 53 \<Longrightarrow>
     parse_decimal s = Some (of_nat (digits_val s))"
  using f64_nat by (simp add: parse_decimal_whole)

end
