(* ===== verification/Sched_Interval.thy ===== *)
theory Sched_Interval
  imports Float64
begin

text \<open>
  The interval language of the scheduler (\<^verbatim>\<open>parse_interval\<close> in
  \<^verbatim>\<open>oh-my-grok-build/src/scheduler.rs\<close>): numbers with units such as \<^verbatim>\<open>1h 30m\<close>, summed in
  binary64 arithmetic and truncated to whole seconds.
\<close>

section \<open>Parsing\<close>

definition interval_unit :: "string \<Rightarrow> nat option" where
  "interval_unit u =
     (if u \<in> set [''s'', ''sec'', ''secs'', ''second'', ''seconds''] then Some 1
      else if u \<in> set [''m'', ''min'', ''mins'', ''minute'', ''minutes''] then Some 60
      else if u \<in> set [''h'', ''hr'', ''hrs'', ''hour'', ''hours''] then Some (60 * 60)
      else if u \<in> set [''d'', ''day'', ''days''] then Some (24 * 60 * 60)
      else None)"

definition number_char :: "char \<Rightarrow> bool" where
  "number_char c \<longleftrightarrow> is_ascii_digit c \<or> c = CHR ''.''"

abbreviation trim_start :: "string \<Rightarrow> string" where
  "trim_start \<equiv> dropWhile is_whitespace"

lemma length_dropWhile: "length (dropWhile P xs) \<le> length xs"
  by (induction xs) auto

function interval_loop :: "string \<Rightarrow> rat \<Rightarrow> rat option" where
  "interval_loop s acc =
     (if s = [] then Some acc
      else case parse_decimal (takeWhile number_char s) of
             None \<Rightarrow> None
           | Some num \<Rightarrow>
               (let s = trim_start (dropWhile number_char s);
                    u = takeWhile is_ascii_alphabetic s
                in if u = [] then None
                   else case interval_unit (to_lowercase u) of
                          None \<Rightarrow> None
                        | Some multiplier \<Rightarrow>
                            interval_loop (trim_start (dropWhile is_ascii_alphabetic s))
                              (f64 (acc + f64 (num * of_nat multiplier)))))"
  by pat_completeness auto
termination
proof (relation "measure (length \<circ> fst)")
  fix s s' u :: string and acc num :: rat and x3 multiplier
  assume "s \<noteq> []" "s' = trim_start (dropWhile number_char s)" "u = takeWhile is_ascii_alphabetic s'" "u \<noteq> []"
  have "length (dropWhile is_ascii_alphabetic s') + length u = length s'"
    unfolding \<open>u = _\<close> by (metis add.commute length_append takeWhile_dropWhile_id)
  moreover have "length s' \<le> length s"
    using length_dropWhile order_trans unfolding \<open>s' = _\<close> by blast
  moreover have "length (trim_start (dropWhile is_ascii_alphabetic s')) \<le> length (dropWhile is_ascii_alphabetic s')"
    by (rule length_dropWhile)
  ultimately show "((trim_start (dropWhile is_ascii_alphabetic s'), f64 (acc + f64 (num * of_nat multiplier))), (s, acc))
      \<in> measure (length \<circ> fst)"
    using \<open>u \<noteq> []\<close> by (cases u) auto
qed simp

declare interval_loop.simps [simp del]

definition parse_interval :: "string \<Rightarrow> nat option" where
  "parse_interval expr =
     (let expr = trim expr
      in if expr = [] then None
         else case interval_loop expr 0 of
                None \<Rightarrow> None
              | Some v \<Rightarrow> (let secs = as_u64 v in if secs = 0 then None else Some secs))"

section \<open>Values\<close>

text \<open>A part of an interval: blanks, the digits of a whole number, blanks, and a unit in any case.\<close>

type_synonym interval_part = "string \<times> string \<times> string \<times> string"

fun part_text :: "interval_part \<Rightarrow> string" where
  "part_text (b, ds, b', u) = b @ ds @ b' @ u"

fun part_ok :: "interval_part \<Rightarrow> bool" where
  "part_ok (b, ds, b', u) \<longleftrightarrow>
     list_all is_whitespace b \<and> list_all is_whitespace b' \<and> ds \<noteq> [] \<and> list_all is_ascii_digit ds
     \<and> list_all is_ascii_alphabetic u \<and> interval_unit (to_lowercase u) \<noteq> None"

fun part_value :: "interval_part \<Rightarrow> nat" where
  "part_value (b, ds, b', u) = digits_val ds * the (interval_unit (to_lowercase u))"

lemma char_classes_disjoint:
  "is_ascii_digit c \<Longrightarrow> \<not> is_whitespace c" "is_ascii_digit c \<Longrightarrow> \<not> is_ascii_alphabetic c"
  "is_ascii_alphabetic c \<Longrightarrow> \<not> is_whitespace c" "is_ascii_alphabetic c \<Longrightarrow> \<not> number_char c"
  "is_whitespace c \<Longrightarrow> \<not> number_char c" "is_whitespace c \<Longrightarrow> \<not> is_ascii_alphabetic c"
  by (auto simp: char_class_defs number_char_def)

lemma unit_nonempty: "interval_unit (to_lowercase u) = Some k \<Longrightarrow> u \<noteq> [] \<and> 0 < k"
  by (cases u) (auto simp: interval_unit_def split: if_splits)

lemma span_append:
  assumes "list_all P xs" "ys = [] \<or> \<not> P (hd ys)"
  shows "takeWhile P (xs @ ys) = xs" "dropWhile P (xs @ ys) = ys"
  using assms by (induction xs) (cases ys; simp)+

lemma parts_hd:
  assumes "list_all part_ok ps"
  shows "concat (map part_text ps) = [] \<or> \<not> is_ascii_alphabetic (hd (concat (map part_text ps)))"
proof (cases ps)
  case (Cons p qs)
  obtain b ds b' u where p: "p = (b, ds, b', u)" by (cases p)
  from assms Cons p show ?thesis
    by (cases b; cases ds) (auto simp: char_classes_disjoint)
qed simp

lemma interval_loop_part:
  assumes "part_ok (b, ds, b', u)" and "rest = [] \<or> \<not> is_ascii_alphabetic (hd rest)"
    and num: "parse_decimal ds = Some num"
  shows "interval_loop (trim_start (part_text (b, ds, b', u) @ rest)) acc =
    interval_loop (trim_start rest)
      (f64 (acc + f64 (num * of_nat (the (interval_unit (to_lowercase u))))))"
proof -
  from assms(1) obtain k where k: "interval_unit (to_lowercase u) = Some k" by auto
  note u = unit_nonempty [OF k]
  have ds: "list_all number_char ds" using assms(1) by (auto simp: list_all_iff number_char_def)
  have nb: "b' @ u @ rest = [] \<or> \<not> number_char (hd (b' @ u @ rest))"
    using assms(1) u by (cases b'; cases u) (auto simp: char_classes_disjoint)
  have s: "trim_start (part_text (b, ds, b', u) @ rest) = ds @ b' @ u @ rest"
    using assms(1) span_append(2) [of is_whitespace b "ds @ b' @ u @ rest"]
    by (cases ds) (auto simp: char_classes_disjoint)
  have u': "trim_start (b' @ u @ rest) = u @ rest"
    using assms(1) u by (intro span_append(2)) (cases u; auto simp: char_classes_disjoint)+
  have alpha: "list_all is_ascii_alphabetic u" using assms(1) by simp
  show ?thesis
    unfolding s interval_loop.simps [of "ds @ b' @ u @ rest"]
    using assms(1) u k num
    by (simp add: span_append [OF ds nb] u' span_append [OF alpha assms(2)] Let_def)
qed

lemma interval_loop_parts:
  "list_all part_ok ps \<Longrightarrow> acc + sum_list (map part_value ps) < 2 ^ 53 \<Longrightarrow>
     interval_loop (trim_start (concat (map part_text ps))) (of_nat acc) =
       Some (of_nat (acc + sum_list (map part_value ps)))"
proof (induction ps arbitrary: acc)
  case Nil
  then show ?case by (simp add: interval_loop.simps)
next
  case (Cons p ps)
  obtain b ds b' u where p: "p = (b, ds, b', u)" by (cases p)
  from Cons.prems(1) p obtain k where k: "interval_unit (to_lowercase u) = Some k" by auto
  let ?v = "digits_val ds * k"
  have le: "digits_val ds \<le> ?v" using unit_nonempty [OF k] by simp
  have small: "?v < 2 ^ 53" "acc + ?v < 2 ^ 53" using Cons.prems(2) by (simp_all add: p k)
  have few: "digits_val ds < 2 ^ 53" using le small(1) by (rule order_le_less_trans)
  have "f64 (of_nat acc + f64 (of_nat (digits_val ds) * of_nat k)) = of_nat (acc + ?v)"
    using f64_nat [OF small(1)] f64_nat [OF small(2)] by simp
  moreover have "parse_decimal ds = Some (of_nat (digits_val ds))"
    using Cons.prems(1) few by (intro parse_decimal_digits) (simp_all add: p)
  ultimately have "interval_loop (trim_start (concat (map part_text (p # ps)))) (of_nat acc) =
      interval_loop (trim_start (concat (map part_text ps))) (of_nat (acc + ?v))"
    using Cons.prems(1) parts_hd [of ps]
      interval_loop_part [of b ds b' u "concat (map part_text ps)" "of_nat (digits_val ds)" "of_nat acc"]
    by (simp add: p k del: part_text.simps)
  also have "\<dots> = Some (of_nat (acc + ?v + sum_list (map part_value ps)))"
    using Cons.prems by (intro Cons.IH) (simp_all add: p k add.assoc)
  finally show ?case by (simp add: p k add.assoc)
qed

lemma parts_last:
  assumes "list_all part_ok ps" "ps \<noteq> []"
  shows "concat (map part_text ps) \<noteq> [] \<and> is_ascii_alphabetic (last (concat (map part_text ps)))"
proof -
  obtain qs p where ps: "ps = qs @ [p]" using assms(2) by (cases ps rule: rev_cases) auto
  obtain b ds b' u where p: "p = (b, ds, b', u)" by (cases p)
  from assms(1) ps p have u: "list_all is_ascii_alphabetic u" "u \<noteq> []"
    using unit_nonempty by auto
  then have "is_ascii_alphabetic (last u)" by (auto simp: list_all_iff)
  with ps p u show ?thesis by simp
qed

lemma trim_solid_end:
  assumes "s \<noteq> []" "\<not> is_whitespace (last s)"
  shows "trim_start s \<noteq> [] \<and> trim s = trim_start s"
proof -
  have "last s \<in> set s" using assms(1) by simp
  then have "trim_start s \<noteq> []" "last (trim_start s) = last s"
    using assms(2) by (auto simp: dropWhile_eq_Nil_conv dropWhile_last)
  then show ?thesis using assms(2) by (simp add: trim_def trim_end_pred_def dropWhile_hd hd_rev)
qed

lemma parts_trim:
  assumes "list_all part_ok ps" "ps \<noteq> []"
  shows "trim_start (concat (map part_text ps)) \<noteq> []
    \<and> trim (concat (map part_text ps)) = trim_start (concat (map part_text ps))"
  using parts_last [OF assms] trim_solid_end char_classes_disjoint(3) by blast

lemma parse_interval_sum:
  assumes "list_all part_ok ps" "sum_list (map part_value ps) < 2 ^ 53"
  shows "parse_interval (concat (map part_text ps)) =
    (if sum_list (map part_value ps) = 0 then None else Some (sum_list (map part_value ps)))"
proof (cases "ps = []")
  case True
  then show ?thesis by (simp add: parse_interval_def trim_def trim_end_pred_def)
next
  case False
  let ?t = "concat (map part_text ps)" and ?n = "sum_list (map part_value ps)"
  have tl: "trim_start ?t \<noteq> []" "trim ?t = trim_start ?t" using parts_trim [OF assms(1) False] by blast+
  have "interval_loop (trim_start ?t) 0 = Some (of_nat ?n)"
    using interval_loop_parts [OF assms(1), of 0] assms(2) by simp
  moreover have "as_u64 (of_nat ?n) = ?n" using assms(2) by (intro as_u64_nat) simp
  ultimately show ?thesis unfolding parse_interval_def Let_def tl(2) using tl(1) by (simp only: if_False option.case)
qed

lemma parse_interval_huge:
  assumes "part_ok ([], ds, b', u)" "2 ^ 64 \<le> digits_val ds"
  shows "parse_interval (part_text ([], ds, b', u)) = Some (2 ^ 64 - 1)"
proof -
  let ?q = "of_nat (digits_val ds) :: rat"
  from assms(1) obtain k where k: "interval_unit (to_lowercase u) = Some k" by auto
  have "(2 ^ 64 :: rat) \<le> ?q" using assms(2) by (metis of_nat_le_iff of_nat_numeral of_nat_power)
  then have num: "2 ^ 64 \<le> f64 ?q" by (rule f64_huge)
  moreover have "1 \<le> (of_nat k :: rat)" using unit_nonempty [OF k] by simp
  ultimately have "2 ^ 64 \<le> f64 ?q * of_nat k"
    using mult_mono [of "2 ^ 64" "f64 ?q" 1 "of_nat k :: rat"] by simp
  then have "2 ^ 64 \<le> f64 (0 + f64 (f64 ?q * of_nat k))" by (simp only: add_0 f64_huge)
  then have v: "as_u64 (f64 (0 + f64 (f64 ?q * of_nat k))) = 2 ^ 64 - 1" by (rule as_u64_huge)
  have "list_all is_ascii_digit ds" "ds \<noteq> []" using assms(1) by simp_all
  then have "parse_decimal ds = Some (f64 ?q)"
    by (intro parse_decimal_whole)
  from interval_loop_part [OF assms(1) _ this, of "[]" 0] k
  have "interval_loop (trim_start (part_text ([], ds, b', u))) 0 = Some (f64 (0 + f64 (f64 ?q * of_nat k)))"
    by (simp add: interval_loop.simps [of "[]"])
  moreover have "trim_start (part_text ([], ds, b', u)) \<noteq> []"
      "trim (part_text ([], ds, b', u)) = trim_start (part_text ([], ds, b', u))"
    using parts_trim [of "[([], ds, b', u)]"] assms(1)
    by (simp_all only: list.map concat.simps append_Nil2 list.pred_inject list.distinct simp_thms)
  ultimately show ?thesis
    unfolding parse_interval_def Let_def by (simp only: v if_False option.case) simp
qed

lemma oversized_value: "parse_interval ''99999999999999999999d'' = Some (2 ^ 64 - 1)"
proof -
  have "part_ok ([], ''99999999999999999999'', [], ''d'')"
    by (simp add: interval_unit_def to_lower_char_def char_class_defs)
  moreover have "2 ^ 64 \<le> digits_val ''99999999999999999999''" by (simp add: digits_val_def digit_val_def)
  ultimately show ?thesis using parse_interval_huge by fastforce
qed

lemma short_intervals: "parse_interval ''1d'' = Some 86400" "parse_interval ''5m'' = Some 300"
proof -
  have ok: "list_all part_ok [([], ''1'', [], ''d'')]" "list_all part_ok [([], ''5'', [], ''m'')]"
    by (simp_all add: interval_unit_def to_lower_char_def char_class_defs)
  have v: "sum_list (map part_value [([], ''1'', [], ''d'')]) = 86400"
      "sum_list (map part_value [([], ''5'', [], ''m'')]) = 300"
    by (simp_all add: interval_unit_def to_lower_char_def char_class_defs digits_val_def digit_val_def)
  show "parse_interval ''1d'' = Some 86400" "parse_interval ''5m'' = Some 300"
    using parse_interval_sum [OF ok(1)] parse_interval_sum [OF ok(2)] unfolding v by simp_all
qed

text \<open>
  The interval language means what it says: the parts of an interval with whole numbers,
  with or without blanks and with units in any case, add up exactly, for every total below
  \<open>2 ^ 53\<close> seconds; an interval of zero seconds is refused.
\<close>

theorem parse_interval_value:
  assumes "list_all part_ok ps" "sum_list (map part_value ps) < 2 ^ 53"
  shows "parse_interval (concat (map part_text ps)) =
    (if sum_list (map part_value ps) = 0 then None else Some (sum_list (map part_value ps)))"
  using assms by (rule parse_interval_sum)

theorem parse_interval_value_witness:
  "parse_interval ''1h 30 Min'' = Some 5400"
proof -
  let ?ps = "[([], ''1'', [], ''h''), ('' '', ''30'', '' '', ''Min'')] :: interval_part list"
  have ok: "list_all part_ok ?ps" by code_simp
  have v: "sum_list (map part_value ?ps) = 5400" by code_simp
  have "concat (map part_text ?ps) = ''1h 30 Min''" by simp
  then show ?thesis using parse_interval_value [OF ok] unfolding v by simp
qed

end
