(* ===== verification/Keyed_Table.thy ===== *)
theory Keyed_Table
  imports Rust_Prelude
begin

text \<open>
  Tables kept as lists of entries with a key, the way the stores of the program keep them: the
  interface of such a table, the map it stands for, and the refinement of that map by any
  sequence of operations, proved once from the laws of the interface.
\<close>

section \<open>The map of a table\<close>

definition lookup_key :: "('a \<Rightarrow> 'k) \<Rightarrow> 'a list \<Rightarrow> 'k \<Rightarrow> 'a option" where
  "lookup_key key xs k = find (\<lambda>x. key x = k) xs"

lemma lookup_key_Nil [simp]: "lookup_key key [] k = None"
  by (simp add: lookup_key_def)

lemma lookup_key_Cons [simp]:
  "lookup_key key (x # xs) k = (if key x = k then Some x else lookup_key key xs k)"
  by (simp add: lookup_key_def)

lemma lookup_key_append:
  "lookup_key key (xs @ ys) k = (case lookup_key key xs k of None \<Rightarrow> lookup_key key ys k | Some x \<Rightarrow> Some x)"
  by (induction xs) simp_all

lemma lookup_key_Some: "lookup_key key xs k = Some x \<Longrightarrow> x \<in> set xs \<and> key x = k"
  by (induction xs) (auto split: if_splits)

lemma lookup_key_None: "lookup_key key xs k = None \<longleftrightarrow> k \<notin> key ` set xs"
  by (induction xs) auto

lemma lookup_key_mem: "distinct (map key xs) \<Longrightarrow> x \<in> set xs \<Longrightarrow> lookup_key key xs (key x) = Some x"
  by (induction xs) (auto simp: rev_image_eqI)

lemma lookup_key_filter:
  assumes "distinct (map key xs)"
  shows "lookup_key key (filter P xs) k = (case lookup_key key xs k of None \<Rightarrow> None | Some x \<Rightarrow> if P x then Some x else None)"
  using assms
proof (induction xs)
  case (Cons x xs)
  then have "lookup_key key (filter P xs) (key x) = None" by (auto simp: lookup_key_None)
  with Cons show ?case by auto
qed simp

lemma lookup_key_drop: "lookup_key key (filter (\<lambda>x. key x \<noteq> d) xs) k = (if k = d then None else lookup_key key xs k)"
  by (induction xs) auto

section \<open>Interface\<close>

text \<open>
  Entries are put under their key, deleted by key, changed in place without changing the key,
  and dropped by a test.
\<close>

datatype ('k, 'a) table_cmd = Put 'a | Del 'k | Amend 'k "'a \<Rightarrow> 'a" | Keep "'a \<Rightarrow> bool"

fun map_cmd :: "('a \<Rightarrow> 'k) \<Rightarrow> ('k, 'a) table_cmd \<Rightarrow> ('k \<rightharpoonup> 'a) \<Rightarrow> ('k \<rightharpoonup> 'a)" where
  "map_cmd key (Put x) m = m(key x \<mapsto> x)"
| "map_cmd key (Del k) m = m(k := None)"
| "map_cmd key (Amend k f) m = m(k := map_option f (m k))"
| "map_cmd key (Keep P) m = (\<lambda>k. case m k of None \<Rightarrow> None | Some x \<Rightarrow> if P x then Some x else None)"

definition keeps_key :: "('a \<Rightarrow> 'k) \<Rightarrow> ('k, 'a) table_cmd \<Rightarrow> bool" where
  "keeps_key key c = (case c of Amend k f \<Rightarrow> (\<forall>x. key (f x) = key x) | _ \<Rightarrow> True)"

locale keyed_table =
  fixes key :: "'a \<Rightarrow> 'k"
    and put :: "'a \<Rightarrow> 'a list \<Rightarrow> 'a list"
    and del :: "'k \<Rightarrow> 'a list \<Rightarrow> 'a list"
    and amend :: "'k \<Rightarrow> ('a \<Rightarrow> 'a) \<Rightarrow> 'a list \<Rightarrow> 'a list"
    and keep :: "('a \<Rightarrow> bool) \<Rightarrow> 'a list \<Rightarrow> 'a list"
  assumes put_lookup: "lookup_key key (put x xs) = (lookup_key key xs)(key x \<mapsto> x)"
    and put_distinct: "distinct (map key xs) \<Longrightarrow> distinct (map key (put x xs))"
    and put_set: "set (put x xs) \<subseteq> insert x (set xs)"
    and del_lookup: "lookup_key key (del k xs) = (lookup_key key xs)(k := None)"
    and del_distinct: "distinct (map key xs) \<Longrightarrow> distinct (map key (del k xs))"
    and del_set: "set (del k xs) \<subseteq> set xs"
    and amend_lookup: "(\<And>x. key (f x) = key x) \<Longrightarrow>
      lookup_key key (amend k f xs) = (lookup_key key xs)(k := map_option f (lookup_key key xs k))"
    and amend_keys: "(\<And>x. key (f x) = key x) \<Longrightarrow> map key (amend k f xs) = map key xs"
    and amend_set: "set (amend k f xs) \<subseteq> set xs \<union> f ` set xs"
    and keep_filter: "keep P xs = filter P xs"
begin

fun exec_cmd :: "('k, 'a) table_cmd \<Rightarrow> 'a list \<Rightarrow> 'a list" where
  "exec_cmd (Put x) xs = put x xs"
| "exec_cmd (Del k) xs = del k xs"
| "exec_cmd (Amend k f) xs = amend k f xs"
| "exec_cmd (Keep P) xs = keep P xs"

lemma exec_distinct:
  "keeps_key key c \<Longrightarrow> distinct (map key xs) \<Longrightarrow> distinct (map key (exec_cmd c xs))"
  by (cases c) (auto simp: put_distinct del_distinct amend_keys keep_filter keeps_key_def distinct_map_filter)

lemma exec_refines:
  "keeps_key key c \<Longrightarrow> distinct (map key xs) \<Longrightarrow>
     lookup_key key (exec_cmd c xs) = map_cmd key c (lookup_key key xs)"
  by (cases c) (auto simp: put_lookup del_lookup amend_lookup keep_filter keeps_key_def lookup_key_filter)

lemma exec_set: "x \<in> set (exec_cmd c xs) \<Longrightarrow>
   x \<in> set xs \<or> c = Put x \<or> (\<exists>k f y. c = Amend k f \<and> y \<in> set xs \<and> x = f y)"
  using put_set del_set amend_set by (cases c) (fastforce simp: keep_filter)+

lemma run_refines:
  assumes "list_all (keeps_key key) cs" and "distinct (map key xs)"
  shows "lookup_key key (fold exec_cmd cs xs) = fold (map_cmd key) cs (lookup_key key xs)"
    and "distinct (map key (fold exec_cmd cs xs))"
  using assms by (induction cs arbitrary: xs) (simp_all add: exec_distinct exec_refines)

end

end
