(* ===== verification/Jsonl.thy ===== *)
theory Jsonl
  imports Rust_Prelude "HOL-Library.Countable"
begin

text \<open>
  Files of one JSON object per line, the storage format of the scheduler and of the recorded
  approvals (\<^verbatim>\<open>schedule.jsonl\<close>, \<^verbatim>\<open>approvals.jsonl\<close>). The JSON library is a pair of
  parameters: \<open>enc\<close> for \<^verbatim>\<open>serde_json::to_string\<close> and \<open>dec\<close> for \<^verbatim>\<open>serde_json::from_str\<close>.
\<close>

section \<open>Reading and writing\<close>

text \<open>The \<^verbatim>\<open>collect\<close> into a \<^verbatim>\<open>Result\<close>: the first error wins.\<close>

fun collect_res :: "'a res list \<Rightarrow> 'a list res" where
  "collect_res [] = Inr []"
| "collect_res (r # rs) = bind_res r (\<lambda>x. bind_res (collect_res rs) (\<lambda>xs. Inr (x # xs)))"

definition blank_line :: "string \<Rightarrow> bool" where
  "blank_line l \<longleftrightarrow> trim l = []"

text \<open>
  What the code relies on: \<^verbatim>\<open>to_string\<close> writes an object on one line, between braces, and
  \<^verbatim>\<open>from_str\<close> reads it back.
\<close>

definition codec :: "('a \<Rightarrow> string) \<Rightarrow> (string \<Rightarrow> 'a res) \<Rightarrow> bool" where
  "codec enc dec \<longleftrightarrow>
     (\<forall>x. dec (enc x) = Inr x \<and> enc x \<noteq> [] \<and> hd (enc x) = CHR ''{'' \<and> last (enc x) = CHR ''}''
          \<and> LF \<notin> set (enc x))"

lemma codec_line:
  assumes "codec enc dec"
  shows "dec (enc x) = Inr x" "plain_line (enc x)" "\<not> blank_line (enc x)" "trim (enc x) = enc x"
proof -
  from assms have e: "dec (enc x) = Inr x" "enc x \<noteq> []" "hd (enc x) = CHR ''{''"
      "last (enc x) = CHR ''}''" "LF \<notin> set (enc x)"
    by (auto simp: codec_def)
  show "dec (enc x) = Inr x" by (rule e)
  show "plain_line (enc x)" using e by (simp add: plain_for_def)
  show t: "trim (enc x) = enc x" using e by (intro trim_fixed) (simp_all add: is_whitespace_def)
  show "\<not> blank_line (enc x)" using e t by (simp add: blank_line_def)
qed

lemma collect_res_map: "(\<And>x. f x = Inr x) \<Longrightarrow> collect_res (map f xs) = Inr xs"
  by (induction xs) simp_all

lemma codec_lines:
  assumes "codec enc dec"
  shows "str_lines (unlines (map enc xs)) = map enc xs"
    and "filter (\<lambda>l. \<not> blank_line l) (map enc xs) = map enc xs"
    and "map trim (map enc xs) = map enc xs"
    and "collect_res (map dec (map enc xs)) = Inr xs"
proof -
  note line = codec_line [OF assms]
  show "str_lines (unlines (map enc xs)) = map enc xs"
    by (rule str_lines_unlines) (simp add: list_all_iff line)
  show "filter (\<lambda>l. \<not> blank_line l) (map enc xs) = map enc xs" by (simp add: line)
  show "map trim (map enc xs) = map enc xs" by (simp add: line)
  show "collect_res (map dec (map enc xs)) = Inr xs"
    using collect_res_map [of "dec \<circ> enc" xs] by (simp add: line)
qed

section \<open>Numbering text\<close>

text \<open>Injections into the natural numbers, from which the examples build concrete codecs.\<close>

definition string_code :: "string \<Rightarrow> nat" where
  "string_code s = list_encode (map of_char s)"

definition string_decode :: "nat \<Rightarrow> string" where
  "string_decode n = map char_of (list_decode n)"

definition option_code :: "('a \<Rightarrow> nat) \<Rightarrow> 'a option \<Rightarrow> nat" where
  "option_code f x = (case x of None \<Rightarrow> 0 | Some y \<Rightarrow> Suc (f y))"

definition option_decode :: "(nat \<Rightarrow> 'a) \<Rightarrow> nat \<Rightarrow> 'a option" where
  "option_decode g n = (case n of 0 \<Rightarrow> None | Suc m \<Rightarrow> Some (g m))"

lemma code_inverse [simp]:
  "string_decode (string_code s) = s"
  "(\<And>y. g (f y) = y) \<Longrightarrow> option_decode g (option_code f x) = x"
  by (simp_all add: string_decode_def string_code_def comp_def option_decode_def option_code_def
      split: option.split)

text \<open>The number in unary between braces.\<close>

lemma unary_codec:
  "(\<And>x. g (f x) = x) \<Longrightarrow>
     codec (\<lambda>x. ''{'' @ replicate (f x) (CHR ''x'') @ ''}'') (\<lambda>s. Inr (g (length s - 2)))"
  by (simp add: codec_def)

end
