(* ===== verification/Scheduler.thy ===== *)
theory Scheduler
  imports Sched_Interval Keyed_Table Jsonl "HOL-Library.Multiset"
begin

text \<open>
  The job scheduler (\<^verbatim>\<open>oh-my-grok-build/src/scheduler.rs\<close>): the job file and the operations
  on it, and when a job is due. Every operation holds the exclusive
  lock of \<^verbatim>\<open>schedule.lock\<close> from its read to its write, so it is one function from the
  contents of the file to the new contents; processes interleave as sequences of them.
  Instants are nanoseconds since the epoch; every reading of the clock is an argument. The
  crates \<^verbatim>\<open>chrono\<close>, \<^verbatim>\<open>croner\<close> and \<^verbatim>\<open>serde_json\<close> are parameters. Failures of the file
  system and the child processes of a run are not modelled.
\<close>

section \<open>Data\<close>

datatype Expiry = Ts int | Iso int

record ScheduledJob =
  job_name :: string
  expression :: string
  prompt :: string
  model :: "string option"
  yolo :: bool
  last_run :: "int option"
  expires_at :: "Expiry option"

record sched_lib =
  from_timestamp :: "int \<Rightarrow> int option"
  parse_datetime :: "string \<Rightarrow> int res"
  cron_from_str :: "string \<Rightarrow> (int \<Rightarrow> int res) res"
  job_to_string :: "ScheduledJob \<Rightarrow> string"
  job_from_str :: "string \<Rightarrow> ScheduledJob res"
  show_millis :: "int \<Rightarrow> string"

fun as_datetime :: "sched_lib \<Rightarrow> Expiry \<Rightarrow> int option" where
  "as_datetime lib (Ts ts) = from_timestamp lib ts"
| "as_datetime lib (Iso dt) = Some dt"

section \<open>Expiry and due jobs\<close>

definition is_expired :: "sched_lib \<Rightarrow> ScheduledJob \<Rightarrow> int \<Rightarrow> bool" where
  "is_expired lib job now =
     (case Option.bind (expires_at job) (as_datetime lib) of None \<Rightarrow> False | Some e \<Rightarrow> e \<le> now)"

definition parse_expiry :: "sched_lib \<Rightarrow> string option \<Rightarrow> Expiry option res" where
  "parse_expiry lib raw =
     (case raw of
        None \<Rightarrow> Inr None
      | Some r \<Rightarrow>
          (if trim r = [] then Inr None
           else let r = trim r
                in case parse_signed 64 r of
                     Some ts \<Rightarrow>
                       (if from_timestamp lib ts = None then Inl (''expiry timestamp out of range: '' @ r)
                        else Inr (Some (Ts ts)))
                   | None \<Rightarrow>
                       (case parse_datetime lib r of
                          Inr dt \<Rightarrow> Inr (Some (Iso dt))
                        | Inl e \<Rightarrow> Inl (''invalid expiry '' @ [sq] @ r @ [sq] @ '': '' @ e))))"

text \<open>\<^verbatim>\<open>TimeDelta::num_seconds\<close> truncates towards zero; \<^verbatim>\<open>as i64\<close> wraps.\<close>

definition num_seconds :: "int \<Rightarrow> int" where
  "num_seconds d = (if 0 \<le> d then d div 10 ^ 9 else - ((- d) div 10 ^ 9))"

definition as_i64 :: "nat \<Rightarrow> int" where
  "as_i64 n = (if n < 2 ^ 63 then int n else int n - 2 ^ 64)"

text \<open>The two readings of the clock: \<open>t0\<close> for the expiry, \<open>t1\<close> for the schedule.\<close>

definition is_due :: "sched_lib \<Rightarrow> int \<Rightarrow> int \<Rightarrow> ScheduledJob \<Rightarrow> bool" where
  "is_due lib t0 t1 job =
     (if is_expired lib job t0 then False
      else case parse_interval (expression job) of
             Some secs \<Rightarrow>
               (case last_run job of Some t \<Rightarrow> as_i64 secs \<le> num_seconds (t1 - t) | None \<Rightarrow> True)
           | None \<Rightarrow>
               (case cron_from_str lib (expression job) of
                  Inl _ \<Rightarrow> False
                | Inr find_next_occurrence \<Rightarrow>
                    (case last_run job of
                       Some t \<Rightarrow> (case find_next_occurrence t of Inr next \<Rightarrow> next \<le> t1 | Inl _ \<Rightarrow> False)
                     | None \<Rightarrow> True)))"

section \<open>The job file\<close>

text \<open>The contents of \<^verbatim>\<open>schedule.jsonl\<close>, or nothing when it does not exist.\<close>

type_synonym job_file = "string option"

definition load_jobs :: "sched_lib \<Rightarrow> job_file \<Rightarrow> ScheduledJob list res" where
  "load_jobs lib file =
     (case file of
        None \<Rightarrow> Inr []
      | Some raw \<Rightarrow>
          collect_res (map (job_from_str lib) (filter (\<lambda>l. \<not> blank_line l) (str_lines raw))))"

definition save_jobs :: "sched_lib \<Rightarrow> ScheduledJob list \<Rightarrow> string" where
  "save_jobs lib jobs = unlines (map (job_to_string lib) jobs)"

text \<open>The file is written back only when the closure succeeds.\<close>

definition with_jobs :: "sched_lib \<Rightarrow> (ScheduledJob list \<Rightarrow> (ScheduledJob list \<times> 'r) res) \<Rightarrow> job_file \<Rightarrow> job_file \<times> 'r res" where
  "with_jobs lib f file =
     (case bind_res (load_jobs lib file) f of
        Inl e \<Rightarrow> (file, Inl e)
      | Inr (jobs, r) \<Rightarrow> (Some (save_jobs lib jobs), Inr r))"

definition with_jobs_read :: "sched_lib \<Rightarrow> (ScheduledJob list \<Rightarrow> 'r res) \<Rightarrow> job_file \<Rightarrow> 'r res" where
  "with_jobs_read lib f file = bind_res (load_jobs lib file) f"

section \<open>Operations\<close>

definition retain_name :: "string \<Rightarrow> ScheduledJob list \<Rightarrow> ScheduledJob list" where
  "retain_name n jobs = filter (\<lambda>j. job_name j \<noteq> n) jobs"

definition put_job :: "ScheduledJob \<Rightarrow> ScheduledJob list \<Rightarrow> ScheduledJob list" where
  "put_job j jobs = retain_name (job_name j) jobs @ [j]"

text \<open>The first job of the name is changed in place (\<^verbatim>\<open>position\<close>, \<^verbatim>\<open>iter_mut().find\<close>).\<close>

fun amend_job :: "string \<Rightarrow> (ScheduledJob \<Rightarrow> ScheduledJob) \<Rightarrow> ScheduledJob list \<Rightarrow> ScheduledJob list" where
  "amend_job n f [] = []"
| "amend_job n f (j # jobs) = (if job_name j = n then f j # jobs else j # amend_job n f jobs)"

definition valid_expression :: "sched_lib \<Rightarrow> string \<Rightarrow> bool" where
  "valid_expression lib e \<longleftrightarrow> parse_interval e \<noteq> None \<or> (\<exists>c. cron_from_str lib e = Inr c)"

lemma valid_expression_code [code]:
  "valid_expression lib e =
     (parse_interval e \<noteq> None \<or> (case cron_from_str lib e of Inr _ \<Rightarrow> True | Inl _ \<Rightarrow> False))"
  by (auto simp: valid_expression_def split: sum.splits)

definition not_found :: "string \<Rightarrow> string" where
  "not_found n = ''job '' @ [sq] @ n @ [sq] @ '' not found''"

definition new_job :: "sched_lib \<Rightarrow> int \<Rightarrow> string option \<Rightarrow> string \<Rightarrow> string \<Rightarrow> string option \<Rightarrow> ScheduledJob" where
  "new_job lib millis nm expr pr mdl =
     \<lparr>job_name = (case nm of Some n \<Rightarrow> n | None \<Rightarrow> ''job-'' @ show_millis lib millis),
      expression = expr, prompt = pr, model = mdl, yolo = True, last_run = None, expires_at = None\<rparr>"

definition add_job :: "sched_lib \<Rightarrow> int \<Rightarrow> string option \<Rightarrow> string \<Rightarrow> string \<Rightarrow> string option \<Rightarrow> bool \<Rightarrow> job_file \<Rightarrow> job_file \<times> unit res" where
  "add_job lib millis nm expr pr mdl yes file =
     (if \<not> yes then (file, Inl ''scheduled jobs require --yolo to auto-approve tool use'')
      else if \<not> valid_expression lib expr then (file, Inl (''invalid schedule expression: '' @ expr))
      else with_jobs lib (\<lambda>jobs. Inr (put_job (new_job lib millis nm expr pr mdl) jobs, ())) file)"

definition delete_job :: "sched_lib \<Rightarrow> string \<Rightarrow> job_file \<Rightarrow> job_file \<times> unit res" where
  "delete_job lib n file =
     with_jobs lib (\<lambda>jobs. let jobs' = retain_name n jobs
       in if length jobs' = length jobs then Inl (not_found n) else Inr (jobs', ())) file"

text \<open>The locked part of \<^verbatim>\<open>run_job\<close>: the run is recorded before the child starts.\<close>

definition run_job :: "sched_lib \<Rightarrow> int \<Rightarrow> string \<Rightarrow> job_file \<Rightarrow> job_file \<times> ScheduledJob res" where
  "run_job lib now n file =
     with_jobs lib (\<lambda>jobs. case lookup_key job_name jobs n of
         None \<Rightarrow> Inl (not_found n)
       | Some j \<Rightarrow> Inr (amend_job n (\<lambda>j. j\<lparr>last_run := Some now\<rparr>) jobs, j\<lparr>last_run := Some now\<rparr>)) file"

definition job_args :: "string \<Rightarrow> ScheduledJob \<Rightarrow> string list" where
  "job_args prompt_file job =
     [''exec'', ''--prompt-file'', prompt_file] @ (if yolo job then [''--yolo''] else [])
     @ (case model job of Some m \<Rightarrow> [''--model'', m] | None \<Rightarrow> [])"

definition cleanup_expired :: "sched_lib \<Rightarrow> int \<Rightarrow> job_file \<Rightarrow> job_file \<times> nat res" where
  "cleanup_expired lib now file =
     with_jobs lib (\<lambda>jobs. let jobs' = filter (\<lambda>j. \<not> is_expired lib j now) jobs
       in Inr (jobs', length jobs - length jobs')) file"

definition set_expiry :: "sched_lib \<Rightarrow> string \<Rightarrow> string option \<Rightarrow> job_file \<Rightarrow> job_file \<times> unit res" where
  "set_expiry lib i raw file =
     (case parse_expiry lib raw of
        Inl e \<Rightarrow> (file, Inl e)
      | Inr expiry \<Rightarrow>
          with_jobs lib (\<lambda>jobs. case lookup_key job_name jobs i of
              None \<Rightarrow> Inl (not_found i)
            | Some _ \<Rightarrow> Inr (amend_job i (\<lambda>j. j\<lparr>expires_at := expiry\<rparr>) jobs, ())) file)"

text \<open>
  One round of the daemon: the due jobs and the number of expired ones are read under the
  lock, expired jobs are removed under the lock, and the due jobs are run. \<open>clk i\<close> are the
  two readings for the \<open>i\<close>-th job and \<open>runs n\<close> is the time at which the run of job \<open>n\<close> takes
  its lock; the runs are concurrent tasks and take it in the order \<open>ord\<close>.
\<close>

definition due_jobs :: "sched_lib \<Rightarrow> (nat \<Rightarrow> int \<times> int) \<Rightarrow> ScheduledJob list \<Rightarrow> ScheduledJob list" where
  "due_jobs lib clk jobs =
     map snd (filter (\<lambda>(i, j). is_due lib (fst (clk i)) (snd (clk i)) j) (enumerate 0 jobs))"

fun run_all :: "sched_lib \<Rightarrow> (string \<Rightarrow> int) \<Rightarrow> string list \<Rightarrow> job_file \<Rightarrow> job_file \<times> ScheduledJob res list" where
  "run_all lib runs [] file = (file, [])"
| "run_all lib runs (n # ns) file =
     (let (file, r) = run_job lib (runs n) n file; (file, rs) = run_all lib runs ns file
      in (file, r # rs))"

definition daemon_poll :: "sched_lib \<Rightarrow> (nat \<Rightarrow> int \<times> int) \<Rightarrow> int \<Rightarrow> int \<Rightarrow> (string \<Rightarrow> int) \<Rightarrow> (string list \<Rightarrow> string list) \<Rightarrow> job_file \<Rightarrow> job_file \<times> ScheduledJob res list res" where
  "daemon_poll lib clk now0 now1 runs ord file =
     (case with_jobs_read lib (\<lambda>jobs. Inr (due_jobs lib clk jobs, length (filter (\<lambda>j. is_expired lib j now0) jobs))) file of
        Inl e \<Rightarrow> (file, Inl e)
      | Inr (due, expired) \<Rightarrow>
          (case (if 0 < expired then cleanup_expired lib now1 file else (file, Inr 0)) of
             (file, Inl e) \<Rightarrow> (file, Inl e)
           | (file, Inr _) \<Rightarrow>
               (let (file, rs) = run_all lib runs (ord (map job_name due)) file in (file, Inr rs))))"

section \<open>The job table\<close>

interpretation jobs: keyed_table job_name put_job retain_name amend_job "filter :: (ScheduledJob \<Rightarrow> bool) \<Rightarrow> _"
proof
  fix x :: ScheduledJob and xs :: "ScheduledJob list" and k :: string and f :: "ScheduledJob \<Rightarrow> ScheduledJob"
  show "lookup_key job_name (put_job x xs) = (lookup_key job_name xs)(job_name x \<mapsto> x)"
    by (rule ext) (simp add: put_job_def retain_name_def lookup_key_append lookup_key_drop split: option.split)
  show "distinct (map job_name (put_job x xs))" if "distinct (map job_name xs)"
    using that by (auto simp: put_job_def retain_name_def distinct_map_filter)
  show "lookup_key job_name (retain_name k xs) = (lookup_key job_name xs)(k := None)"
    by (rule ext) (simp add: retain_name_def lookup_key_drop)
  show "distinct (map job_name (retain_name k xs))" if "distinct (map job_name xs)"
    using that by (simp add: retain_name_def distinct_map_filter)
  show "lookup_key job_name (amend_job k f xs) =
      (lookup_key job_name xs)(k := map_option f (lookup_key job_name xs k))"
    if "\<And>x. job_name (f x) = job_name x"
    using that by (induction xs) (auto simp: fun_eq_iff)
  show "map job_name (amend_job k f xs) = map job_name xs" if "\<And>x. job_name (f x) = job_name x"
    using that by (induction xs) auto
  show "set (amend_job k f xs) \<subseteq> set xs \<union> f ` set xs" by (induction xs) auto
qed (auto simp: put_job_def retain_name_def)

section \<open>Specification\<close>

text \<open>The operations, their outcomes, and what they do to a table from names to jobs.\<close>

datatype sched_op =
    Add int "string option" string string "string option" bool
  | Delete string
  | Run int string
  | Cleanup int
  | SetExpiry string "string option"

datatype sched_out = Done | Ran ScheduledJob | Removed nat

definition map_res :: "('a \<Rightarrow> 'b) \<Rightarrow> 'a res \<Rightarrow> 'b res" where
  "map_res f r = bind_res r (\<lambda>x. Inr (f x))"

lemma map_res_simps [simp]: "map_res f (Inl e) = Inl e" "map_res f (Inr x) = Inr (f x)"
  by (simp_all add: map_res_def)

fun sched_exec :: "sched_lib \<Rightarrow> sched_op \<Rightarrow> job_file \<Rightarrow> job_file \<times> sched_out res" where
  "sched_exec lib (Add millis nm expr pr mdl yes) file =
     map_prod id (map_res (\<lambda>_. Done)) (add_job lib millis nm expr pr mdl yes file)"
| "sched_exec lib (Delete n) file = map_prod id (map_res (\<lambda>_. Done)) (delete_job lib n file)"
| "sched_exec lib (Run now n) file = map_prod id (map_res Ran) (run_job lib now n file)"
| "sched_exec lib (Cleanup now) file = map_prod id (map_res Removed) (cleanup_expired lib now file)"
| "sched_exec lib (SetExpiry i raw) file = map_prod id (map_res (\<lambda>_. Done)) (set_expiry lib i raw file)"

fun table_exec :: "sched_lib \<Rightarrow> sched_op \<Rightarrow> (string \<rightharpoonup> ScheduledJob) \<Rightarrow> (string \<rightharpoonup> ScheduledJob) \<times> sched_out res" where
  "table_exec lib (Add millis nm expr pr mdl yes) m =
     (let j = new_job lib millis nm expr pr mdl
      in if \<not> yes then (m, Inl ''scheduled jobs require --yolo to auto-approve tool use'')
         else if \<not> valid_expression lib expr then (m, Inl (''invalid schedule expression: '' @ expr))
         else (m(job_name j \<mapsto> j), Inr Done))"
| "table_exec lib (Delete n) m =
     (if m n = None then (m, Inl (not_found n)) else (m(n := None), Inr Done))"
| "table_exec lib (Run now n) m =
     (case m n of
        None \<Rightarrow> (m, Inl (not_found n))
      | Some j \<Rightarrow> (m(n \<mapsto> j\<lparr>last_run := Some now\<rparr>), Inr (Ran (j\<lparr>last_run := Some now\<rparr>))))"
| "table_exec lib (Cleanup now) m =
     (\<lambda>n. case m n of Some j \<Rightarrow> if is_expired lib j now then None else Some j | None \<Rightarrow> None,
      Inr (Removed (card {n. \<exists>j. m n = Some j \<and> is_expired lib j now})))"
| "table_exec lib (SetExpiry i raw) m =
     (case parse_expiry lib raw of
        Inl e \<Rightarrow> (m, Inl e)
      | Inr expiry \<Rightarrow>
          (case m i of
             None \<Rightarrow> (m, Inl (not_found i))
           | Some j \<Rightarrow> (m(i \<mapsto> j\<lparr>expires_at := expiry\<rparr>), Inr Done)))"

text \<open>Sequences of operations, with the list of their outcomes.\<close>

fun run_ops :: "('op \<Rightarrow> 's \<Rightarrow> 's \<times> 'o) \<Rightarrow> 'op list \<Rightarrow> 's \<Rightarrow> 's \<times> 'o list" where
  "run_ops f [] s = (s, [])"
| "run_ops f (op # ops) s = (let (s, x) = f op s; (s, xs) = run_ops f ops s in (s, x # xs))"

definition job_codec :: "sched_lib \<Rightarrow> bool" where
  "job_codec lib \<longleftrightarrow> codec (job_to_string lib) (job_from_str lib)"

text \<open>The file stores a list of jobs with distinct names that stands for the table.\<close>

definition stores :: "sched_lib \<Rightarrow> job_file \<Rightarrow> (string \<rightharpoonup> ScheduledJob) \<Rightarrow> bool" where
  "stores lib file m \<longleftrightarrow>
     (\<exists>jobs. load_jobs lib file = Inr jobs \<and> distinct (map job_name jobs) \<and> lookup_key job_name jobs = m)"

section \<open>Refinement\<close>

lemma load_save: "job_codec lib \<Longrightarrow> load_jobs lib (Some (save_jobs lib jobs)) = Inr jobs"
  unfolding job_codec_def by (simp add: load_jobs_def save_jobs_def codec_lines del: map_map)

lemma with_jobs_ok:
  "load_jobs lib file = Inr jobs \<Longrightarrow> f jobs = Inr (jobs', r) \<Longrightarrow>
     with_jobs lib f file = (Some (save_jobs lib jobs'), Inr r)"
  by (simp add: with_jobs_def)

lemma with_jobs_err:
  "load_jobs lib file = Inr jobs \<Longrightarrow> f jobs = Inl e \<Longrightarrow> with_jobs lib f file = (file, Inl e)"
  by (simp add: with_jobs_def)

text \<open>Writing the list a table command leaves stores the table the command leaves.\<close>

lemma stores_cmd:
  assumes "job_codec lib" "distinct (map job_name jobs)" "keeps_key job_name c"
  shows "stores lib (Some (save_jobs lib (jobs.exec_cmd c jobs))) (map_cmd job_name c (lookup_key job_name jobs))"
  using assms jobs.exec_distinct [OF assms(3,2)] jobs.exec_refines [OF assms(3,2)]
  by (simp add: stores_def load_save)

lemma retain_length: "length (retain_name n jobs) = length jobs \<longleftrightarrow> lookup_key job_name jobs n = None"
proof -
  have "length (retain_name n jobs) = length jobs \<longleftrightarrow> retain_name n jobs = jobs"
    unfolding retain_name_def by (metis length_filter_less filter_id_conv less_irrefl)
  also have "\<dots> \<longleftrightarrow> lookup_key job_name jobs n = None"
    by (auto simp: retain_name_def filter_id_conv lookup_key_None)
  finally show ?thesis .
qed

lemma expired_count:
  assumes "distinct (map job_name jobs)"
  shows "length jobs - length (filter (\<lambda>j. \<not> P j) jobs) =
    card {n. \<exists>j. lookup_key job_name jobs n = Some j \<and> P j}"
proof -
  have "{n. \<exists>j. lookup_key job_name jobs n = Some j \<and> P j} = set (map job_name (filter P jobs))"
    using lookup_key_mem [OF assms] lookup_key_Some by (fastforce simp: image_iff)
  moreover have "distinct (map job_name (filter P jobs))" using assms by (simp add: distinct_map_filter)
  moreover have "length (filter P jobs) + length (filter (\<lambda>j. \<not> P j) jobs) = length jobs"
    by (rule sum_length_filter_compl)
  ultimately show ?thesis by (metis add_diff_cancel_right' distinct_card length_map)
qed

lemma exec_stores:
  assumes codec: "job_codec lib" and st: "stores lib file m"
  shows "stores lib (fst (sched_exec lib op file)) (fst (table_exec lib op m))
    \<and> snd (sched_exec lib op file) = snd (table_exec lib op m)"
proof -
  from st obtain jobs where load: "load_jobs lib file = Inr jobs" and dist: "distinct (map job_name jobs)"
    and m: "m = lookup_key job_name jobs" by (auto simp: stores_def)
  note cmd = stores_cmd [OF codec dist] and ok = with_jobs_ok [OF load] and err = with_jobs_err [OF load]
  show ?thesis
  proof (cases op)
    case (Add millis nm expr pr mdl yes)
    with st m cmd [of "Put (new_job lib millis nm expr pr mdl)"] show ?thesis
      by (simp add: add_job_def ok keeps_key_def Let_def)
  next
    case (Delete n)
    with st m cmd [of "Del n"] show ?thesis
      by (cases "lookup_key job_name jobs n")
        (simp_all add: delete_job_def ok err Let_def retain_length keeps_key_def)
  next
    case (Run now n)
    with st m cmd [of "Amend n (\<lambda>j. j\<lparr>last_run := Some now\<rparr>)"] show ?thesis
      by (cases "lookup_key job_name jobs n") (simp_all add: run_job_def ok err keeps_key_def)
  next
    case (Cleanup now)
    have "(\<lambda>n. case m n of Some j \<Rightarrow> if is_expired lib j now then None else Some j | None \<Rightarrow> None)
        = map_cmd job_name (Keep (\<lambda>j. \<not> is_expired lib j now)) m"
      by (rule ext) (simp split: option.split)
    with Cleanup m cmd [of "Keep (\<lambda>j. \<not> is_expired lib j now)"] expired_count [OF dist, of "\<lambda>j. is_expired lib j now"]
    show ?thesis by (simp add: cleanup_expired_def ok Let_def keeps_key_def)
  next
    case (SetExpiry i raw)
    with st m cmd [of "Amend i (\<lambda>j. j\<lparr>expires_at := x\<rparr>)" for x] show ?thesis
      by (cases "lookup_key job_name jobs i")
        (simp_all add: set_expiry_def ok err keeps_key_def split: sum.split)
  qed
qed

lemma stores_empty [simp]: "stores lib None Map.empty"
  by (simp add: stores_def load_jobs_def fun_eq_iff)

lemma run_stores:
  assumes "job_codec lib" and "stores lib jf m"
  shows "stores lib (fst (run_ops (sched_exec lib) ops jf)) (fst (run_ops (table_exec lib) ops m))
    \<and> snd (run_ops (sched_exec lib) ops jf) = snd (run_ops (table_exec lib) ops m)"
  using assms(2)
proof (induction ops arbitrary: jf m)
  case (Cons op ops)
  from exec_stores [OF assms(1) Cons.prems, of op] Cons.IH show ?case
    by (simp add: case_prod_beta Let_def)
qed simp

text \<open>
  C39. The job file implements a table from names to jobs: for every sequence of operations of
  any processes on a file that does not exist yet, each operation returns what it returns on
  the table, errors included, and the file ends up as a list of jobs with distinct names
  that stands for the resulting table.
\<close>

theorem schedule_refines_table:
  assumes "job_codec lib"
  shows "stores lib (fst (run_ops (sched_exec lib) ops None)) (fst (run_ops (table_exec lib) ops Map.empty))
    \<and> snd (run_ops (sched_exec lib) ops None) = snd (run_ops (table_exec lib) ops Map.empty)"
  using run_stores [OF assms stores_empty] .

section \<open>Well-formed schedules\<close>

definition job_ok :: "sched_lib \<Rightarrow> string \<Rightarrow> ScheduledJob \<Rightarrow> bool" where
  "job_ok lib n j \<longleftrightarrow> job_name j = n \<and> yolo j \<and> valid_expression lib (expression j)
     \<and> (case expires_at j of Some e \<Rightarrow> as_datetime lib e \<noteq> None | None \<Rightarrow> True)"

lemma new_job_ok:
  "valid_expression lib expr \<Longrightarrow>
     job_ok lib (job_name (new_job lib millis nm expr pr mdl)) (new_job lib millis nm expr pr mdl)"
  by (simp add: job_ok_def new_job_def)

lemma parse_expiry_ok:
  "parse_expiry lib raw = Inr (Some e) \<Longrightarrow> as_datetime lib e \<noteq> None"
  by (auto simp: parse_expiry_def Let_def split: option.splits if_splits sum.splits)

lemma job_ok_update:
  "job_ok lib n j \<Longrightarrow> job_ok lib n (j\<lparr>last_run := t\<rparr>)"
  "job_ok lib n j \<Longrightarrow> parse_expiry lib raw = Inr e \<Longrightarrow> job_ok lib n (j\<lparr>expires_at := e\<rparr>)"
  using parse_expiry_ok [of lib raw] by (auto simp: job_ok_def split: option.splits)

lemma table_exec_ok:
  assumes "\<And>n j. m n = Some j \<Longrightarrow> job_ok lib n j" and "fst (table_exec lib op m) n = Some j"
  shows "job_ok lib n j"
  using assms new_job_ok job_ok_update
  by (cases op) (auto simp: Let_def split: if_splits option.splits sum.splits)

lemma run_ops_invariant:
  assumes "\<And>op s. I s \<Longrightarrow> I (fst (f op s))" and "I s"
  shows "I (fst (run_ops f ops s))"
  using assms(2) by (induction ops arbitrary: s) (simp_all add: assms(1) case_prod_beta Let_def)

text \<open>
  C40. A schedule is well formed whatever operations produced it: the file parses, the names of
  its jobs are distinct, every job was approved with \<^verbatim>\<open>--yolo\<close>, has an expression the daemon
  understands, and an expiry date, if any, that is a valid date.
\<close>

theorem schedule_well_formed:
  assumes "job_codec lib"
  shows "\<exists>jobs. load_jobs lib (fst (run_ops (sched_exec lib) ops None)) = Inr jobs
    \<and> distinct (map job_name jobs) \<and> list_all (\<lambda>j. job_ok lib (job_name j) j) jobs"
proof -
  let ?m = "fst (run_ops (table_exec lib) ops Map.empty)"
  have "\<forall>n j. ?m n = Some j \<longrightarrow> job_ok lib n j"
    by (rule run_ops_invariant [where I = "\<lambda>m. \<forall>n j. m n = Some j \<longrightarrow> job_ok lib n j"])
      (use table_exec_ok in blast, simp)
  with run_stores [OF assms stores_empty, of ops] show ?thesis
    by (fastforce simp: stores_def list_all_iff dest: lookup_key_mem)
qed

section \<open>When a job runs again\<close>

lemma num_seconds_le: "0 < s \<Longrightarrow> s \<le> num_seconds d \<longleftrightarrow> s * 10 ^ 9 \<le> d"
  by (auto simp: num_seconds_def)

lemma interval_due:
  assumes "parse_interval (expression j) = Some secs" "secs < 2 ^ 63" "last_run j = Some t"
  shows "is_due lib t0 t1 j \<longleftrightarrow> \<not> is_expired lib j t0 \<and> int secs * 10 ^ 9 \<le> t1 - t"
proof -
  have "0 < secs" using assms(1) by (auto simp: parse_interval_def Let_def split: if_splits option.splits)
  with assms show ?thesis by (simp add: is_due_def as_i64_def num_seconds_le)
qed

text \<open>An operation that is not about the given job; removing expired jobs is about all.\<close>

definition other_job :: "sched_lib \<Rightarrow> string \<Rightarrow> sched_op \<Rightarrow> bool" where
  "other_job lib n op =
     (case op of
        Add millis nm expr pr mdl yes \<Rightarrow> job_name (new_job lib millis nm expr pr mdl) \<noteq> n
      | Delete k \<Rightarrow> k \<noteq> n
      | Run now k \<Rightarrow> k \<noteq> n
      | Cleanup now \<Rightarrow> True
      | SetExpiry i raw \<Rightarrow> i \<noteq> n)"

lemma other_job_step:
  assumes "other_job lib n op"
  shows "fst (table_exec lib op m) n = m n \<or>
    fst (table_exec lib op m) n = None \<and> (\<exists>now j. op = Cleanup now \<and> m n = Some j \<and> is_expired lib j now)"
  using assms by (cases op) (auto simp: other_job_def Let_def split: option.split sum.split)

lemma other_jobs_run:
  assumes "list_all (other_job lib n) ops"
  shows "fst (run_ops (table_exec lib) ops m) n = m n \<or>
    fst (run_ops (table_exec lib) ops m) n = None
      \<and> (\<exists>now j. Cleanup now \<in> set ops \<and> m n = Some j \<and> is_expired lib j now)"
  using assms
proof (induction ops arbitrary: m)
  case (Cons op ops)
  have "fst (run_ops (table_exec lib) ops (fst (table_exec lib op m))) n = fst (table_exec lib op m) n \<or>
      fst (run_ops (table_exec lib) ops (fst (table_exec lib op m))) n = None
        \<and> (\<exists>now j. Cleanup now \<in> set ops \<and> fst (table_exec lib op m) n = Some j \<and> is_expired lib j now)"
    using Cons.prems by (intro Cons.IH) simp
  moreover have "other_job lib n op" using Cons.prems by simp
  ultimately show ?case
    using other_job_step [of lib n op m] by (auto simp: case_prod_beta Let_def)
qed simp

text \<open>
  Running a job starts its interval anew: after a run at time \<open>t\<close>, and whatever is done to
  other jobs, the stored job is due exactly when its interval has passed since \<open>t\<close> and it has
  not expired; it disappears only in a removal of expired jobs after its expiry. (Intervals
  of \<open>2 ^ 63\<close> seconds and more are excluded.)
\<close>

theorem run_restarts_interval:
  assumes "job_codec lib" and "stores lib jf m"
    and "run_job lib t n jf = (jf', Inr j)"
    and "parse_interval (expression j) = Some secs" "secs < 2 ^ 63"
    and "list_all (other_job lib n) ops"
  shows "\<exists>jobs. load_jobs lib (fst (run_ops (sched_exec lib) ops jf')) = Inr jobs
    \<and> (case lookup_key job_name jobs n of
         None \<Rightarrow> list_ex (\<lambda>op. case op of Cleanup now \<Rightarrow> is_expired lib j now | _ \<Rightarrow> False) ops
       | Some j' \<Rightarrow> j' = j \<and> (is_due lib t0 t1 j' \<longleftrightarrow> \<not> is_expired lib j t0 \<and> int secs * 10 ^ 9 \<le> t1 - t))"
proof -
  let ?m = "fst (table_exec lib (Run t n) m)"
  from exec_stores [OF assms(1,2), of "Run t n"] assms(3)
  have st: "stores lib jf' ?m" and "snd (table_exec lib (Run t n) m) = Inr (Ran j)" by simp_all
  then have j: "?m n = Some j" "last_run j = Some t" by (auto split: option.splits)
  from run_stores [OF assms(1) st, of ops] obtain jobs
    where jobs: "load_jobs lib (fst (run_ops (sched_exec lib) ops jf')) = Inr jobs"
      "lookup_key job_name jobs = fst (run_ops (table_exec lib) ops ?m)"
    by (auto simp: stores_def)
  from other_jobs_run [OF assms(6), of ?m] j(1) have
    "lookup_key job_name jobs n = Some j \<or>
      lookup_key job_name jobs n = None \<and> (\<exists>now. Cleanup now \<in> set ops \<and> is_expired lib j now)"
    unfolding jobs(2) by auto
  with jobs(1) interval_due [OF assms(4,5) j(2)] show ?thesis
    by (intro exI [of _ jobs]) (fastforce simp: list_ex_iff)
qed

section \<open>The daemon\<close>

lemma run_job_stores:
  assumes "job_codec lib" "stores lib jf m"
  shows "stores lib (fst (run_job lib t n jf)) (m(n := map_option (\<lambda>j. j\<lparr>last_run := Some t\<rparr>) (m n)))
    \<and> snd (run_job lib t n jf) =
      (case m n of None \<Rightarrow> Inl (not_found n) | Some j \<Rightarrow> Inr (j\<lparr>last_run := Some t\<rparr>))"
proof -
  from assms(2) obtain jobs where "load_jobs lib jf = Inr jobs" "lookup_key job_name jobs = m"
    by (auto simp: stores_def)
  then have "snd (run_job lib t n jf) =
      (case m n of None \<Rightarrow> Inl (not_found n) | Some j \<Rightarrow> Inr (j\<lparr>last_run := Some t\<rparr>))"
    by (auto simp: run_job_def with_jobs_def split: option.split)
  moreover have "fst (table_exec lib (Run t n) m) = m(n := map_option (\<lambda>j. j\<lparr>last_run := Some t\<rparr>) (m n))"
    by (cases "m n") auto
  ultimately show ?thesis using exec_stores [OF assms, of "Run t n"] by simp
qed

lemma run_all_stores:
  assumes "job_codec lib" and "stores lib jf m"
  shows "stores lib (fst (run_all lib runs ns jf))
      (\<lambda>n. if n \<in> set ns then map_option (\<lambda>j. j\<lparr>last_run := Some (runs n)\<rparr>) (m n) else m n)
    \<and> snd (run_all lib runs ns jf) =
      map (\<lambda>n. case m n of None \<Rightarrow> Inl (not_found n) | Some j \<Rightarrow> Inr (j\<lparr>last_run := Some (runs n)\<rparr>)) ns"
  using assms(2)
proof (induction ns arbitrary: jf m)
  case (Cons n ns)
  let ?up = "\<lambda>n. map_option (\<lambda>j. j\<lparr>last_run := Some (runs n)\<rparr>)"
  let ?m = "m(n := ?up n (m n))"
  note step = run_job_stores [OF assms(1) Cons.prems, of "runs n" n]
  from Cons.IH [of "fst (run_job lib (runs n) n jf)" ?m] step
  have ih: "stores lib (fst (run_all lib runs ns (fst (run_job lib (runs n) n jf))))
        (\<lambda>k. if k \<in> set ns then ?up k (?m k) else ?m k)"
      "snd (run_all lib runs ns (fst (run_job lib (runs n) n jf))) =
        map (\<lambda>k. case ?m k of None \<Rightarrow> Inl (not_found k) | Some j \<Rightarrow> Inr (j\<lparr>last_run := Some (runs k)\<rparr>)) ns"
    by blast+
  have "(\<lambda>k. if k \<in> set ns then ?up k (?m k) else ?m k) = (\<lambda>k. if k \<in> set (n # ns) then ?up k (m k) else m k)"
    by (rule ext) (simp add: option.map_comp comp_def)
  moreover have "(case ?m k of None \<Rightarrow> Inl (not_found k) | Some j \<Rightarrow> Inr (j\<lparr>last_run := Some (runs k)\<rparr>)) =
      (case m k of None \<Rightarrow> Inl (not_found k) | Some j \<Rightarrow> Inr (j\<lparr>last_run := Some (runs k)\<rparr>))" for k
    by (simp split: option.split)
  ultimately show ?case using ih step by (simp add: case_prod_beta Let_def)
qed simp

text \<open>What a poll leaves of a job: gone if it was swept, with the new time if it was due.\<close>

definition polled :: "sched_lib \<Rightarrow> (nat \<Rightarrow> int \<times> int) \<Rightarrow> int \<Rightarrow> int \<Rightarrow> (string \<Rightarrow> int) \<Rightarrow> ScheduledJob list \<Rightarrow> string \<Rightarrow> ScheduledJob option" where
  "polled lib clk now0 now1 runs jobs n =
     (case lookup_key job_name jobs n of
        None \<Rightarrow> None
      | Some j \<Rightarrow>
          (if list_ex (\<lambda>i. is_expired lib i now0) jobs \<and> is_expired lib j now1 then None
           else if n \<in> set (map job_name (due_jobs lib clk jobs)) then Some (j\<lparr>last_run := Some (runs n)\<rparr>)
           else Some j))"

text \<open>
  A poll of the daemon runs the due jobs, each once: it gives one result per due job, the
  job with the time of the run, or an error when the job was removed as expired in the same
  poll; afterwards the file holds the jobs that were not swept, with the time of the run in
  those that were due and unchanged otherwise. Jobs past their expiry are never due.
\<close>

theorem daemon_poll_runs_due:
  assumes "job_codec lib" and "load_jobs lib jf = Inr jobs" "distinct (map job_name jobs)"
    and "mset (ord (map job_name (due_jobs lib clk jobs))) = mset (map job_name (due_jobs lib clk jobs))"
  shows "stores lib (fst (daemon_poll lib clk now0 now1 runs ord jf)) (polled lib clk now0 now1 runs jobs)
    \<and> snd (daemon_poll lib clk now0 now1 runs ord jf) =
      Inr (map (\<lambda>n. case polled lib clk now0 now1 runs jobs n of None \<Rightarrow> Inl (not_found n) | Some j \<Rightarrow> Inr j)
        (ord (map job_name (due_jobs lib clk jobs))))"
proof -
  let ?m = "lookup_key job_name jobs" and ?due = "map job_name (due_jobs lib clk jobs)"
  let ?swept = "list_ex (\<lambda>i. is_expired lib i now0) jobs"
  let ?m1 = "\<lambda>n. case ?m n of Some j \<Rightarrow> if ?swept \<and> is_expired lib j now1 then None else Some j | None \<Rightarrow> None"
  have st: "stores lib jf ?m" using assms(2,3) by (auto simp: stores_def)
  have due: "set (ord ?due) = set ?due" using assms(4) by (metis set_mset_mset)
  have count: "0 < length (filter (\<lambda>j. is_expired lib j now0) jobs) \<longleftrightarrow> ?swept"
    by (induction jobs) auto
  define cl where "cl = (if ?swept then cleanup_expired lib now1 jf else (jf, Inr 0))"
  have ok: "\<exists>k. snd cl = Inr k"
    by (simp add: cl_def cleanup_expired_def with_jobs_ok [OF assms(2)] Let_def)
  have "stores lib (fst cl) ?m1"
  proof (cases ?swept)
    case True
    then show ?thesis using exec_stores [OF assms(1) st, of "Cleanup now1"]
      by (simp add: cl_def cong: option.case_cong)
  next
    case False
    have "?m = (\<lambda>n. case ?m n of Some j \<Rightarrow> Some j | None \<Rightarrow> None)" by (rule ext) (simp split: option.split)
    with False st show ?thesis by (simp add: cl_def cong: option.case_cong)
  qed
  note all = run_all_stores [OF assms(1) this, of runs "ord ?due"]
  have "(\<lambda>n. if n \<in> set (ord ?due) then map_option (\<lambda>j. j\<lparr>last_run := Some (runs n)\<rparr>) (?m1 n) else ?m1 n)
      = polled lib clk now0 now1 runs jobs"
    by (rule ext) (simp add: polled_def due split: option.split)
  moreover have "(case ?m1 n of None \<Rightarrow> Inl (not_found n) | Some j \<Rightarrow> Inr (j\<lparr>last_run := Some (runs n)\<rparr>)) =
      (case polled lib clk now0 now1 runs jobs n of None \<Rightarrow> Inl (not_found n) | Some j \<Rightarrow> Inr j)"
    if "n \<in> set (ord ?due)" for n
    using that by (simp add: polled_def due split: option.split)
  moreover have "daemon_poll lib clk now0 now1 runs ord jf =
      map_prod id Inr (run_all lib runs (ord ?due) (fst cl))"
    using ok count by (auto simp: daemon_poll_def with_jobs_read_def assms(2) cl_def map_prod_def case_prod_beta Let_def
        split: sum.splits prod.splits)
  ultimately show ?thesis using all by simp
qed

section \<open>Oversized intervals\<close>

definition demo_job :: "string \<Rightarrow> string \<Rightarrow> int option \<Rightarrow> ScheduledJob" where
  "demo_job n e t = \<lparr>job_name = n, expression = e, prompt = ''tidy'', model = None, yolo = True,
     last_run = t, expires_at = None\<rparr>"

lemma demo_job_simps [simp]:
  "job_name (demo_job n e t) = n" "expression (demo_job n e t) = e" "last_run (demo_job n e t) = t"
  "expires_at (demo_job n e t) = None" "(demo_job n e t)\<lparr>last_run := u\<rparr> = demo_job n e u"
  by (simp_all add: demo_job_def)

text \<open>
  The conversion of the interval to a signed number wraps: a job every
  \<^verbatim>\<open>99999999999999999999d\<close>, which should never come up again, is due at every poll, even in
  the second of its last run, while a job every \<^verbatim>\<open>1d\<close> is not.
\<close>

theorem oversized_interval_always_due:
  "is_due lib t t (demo_job n ''99999999999999999999d'' (Some t))
   \<and> \<not> is_due lib t t (demo_job n ''1d'' (Some t))"
  by (simp add: is_due_def is_expired_def num_seconds_def as_i64_def oversized_value short_intervals)

section \<open>Witnesses\<close>

text \<open>A codec for jobs by way of the natural numbers, and a library with no cron expressions.\<close>

definition expiry_code :: "Expiry \<Rightarrow> nat" where
  "expiry_code e = (case e of Ts i \<Rightarrow> 2 * int_encode i | Iso i \<Rightarrow> Suc (2 * int_encode i))"

definition expiry_decode :: "nat \<Rightarrow> Expiry" where
  "expiry_decode n = (if even n then Ts (int_decode (n div 2)) else Iso (int_decode (n div 2)))"

definition job_code :: "ScheduledJob \<Rightarrow> nat" where
  "job_code j = list_encode [string_code (job_name j), string_code (expression j), string_code (prompt j),
     option_code string_code (model j), (if yolo j then 1 else 0), option_code int_encode (last_run j),
     option_code expiry_code (expires_at j)]"

definition job_decode :: "nat \<Rightarrow> ScheduledJob" where
  "job_decode n = (let xs = list_decode n in
     \<lparr>job_name = string_decode (xs ! 0), expression = string_decode (xs ! 1), prompt = string_decode (xs ! 2),
      model = option_decode string_decode (xs ! 3), yolo = (xs ! 4 = 1),
      last_run = option_decode int_decode (xs ! 5), expires_at = option_decode expiry_decode (xs ! 6)\<rparr>)"

lemma expiry_inverse [simp]: "expiry_decode (expiry_code e) = e"
  by (simp add: expiry_decode_def expiry_code_def split: Expiry.split)

lemma job_decode_code: "job_decode (job_code j) = j"
  by (simp add: job_decode_def job_code_def)

definition demo_lib :: sched_lib where
  "demo_lib = \<lparr>from_timestamp = (\<lambda>ts. Some (ts * 10 ^ 9)), parse_datetime = (\<lambda>_. Inl ''bad date''),
     cron_from_str = (\<lambda>_. Inl ''bad expression''),
     job_to_string = (\<lambda>j. ''{'' @ replicate (job_code j) (CHR ''x'') @ ''}''),
     job_from_str = (\<lambda>s. Inr (job_decode (length s - 2))), show_millis = (\<lambda>_. ''0'')\<rparr>"

lemma demo_codec: "job_codec demo_lib"
  using unary_codec [OF job_decode_code] by (simp add: job_codec_def demo_lib_def)

lemma demo_valid: "valid_expression demo_lib ''5m''"
  by (simp add: valid_expression_def short_intervals)

theorem schedule_refines_table_witness:
  "snd (run_ops (sched_exec demo_lib)
     [Add 0 (Some ''a'') ''5m'' ''tidy'' None True, Delete ''b'', Run 7 ''a'', Add 0 None ''5m'' ''x'' None False] None)
   = [Inr Done, Inl (not_found ''b''), Inr (Ran (demo_job ''a'' ''5m'' (Some 7))),
      Inl ''scheduled jobs require --yolo to auto-approve tool use'']"
  using schedule_refines_table [OF demo_codec,
      of "[Add 0 (Some ''a'') ''5m'' ''tidy'' None True, Delete ''b'', Run 7 ''a'', Add 0 None ''5m'' ''x'' None False]"]
  by (simp add: demo_valid new_job_def demo_job_def Let_def)

theorem schedule_well_formed_witness:
  "\<exists>jobs. load_jobs demo_lib (fst (run_ops (sched_exec demo_lib) [Add 0 (Some ''a'') ''5m'' ''tidy'' None True] None)) = Inr jobs
     \<and> distinct (map job_name jobs) \<and> list_all (\<lambda>j. job_ok demo_lib (job_name j) j) jobs"
  using schedule_well_formed [OF demo_codec] by blast

definition demo_file :: job_file where
  "demo_file = Some (save_jobs demo_lib [demo_job ''a'' ''5m'' None])"

lemma demo_load: "load_jobs demo_lib demo_file = Inr [demo_job ''a'' ''5m'' None]"
  unfolding demo_file_def by (rule load_save [OF demo_codec])

lemma demo_stores: "stores demo_lib demo_file [''a'' \<mapsto> demo_job ''a'' ''5m'' None]"
  by (auto simp: stores_def demo_load fun_eq_iff)

theorem run_restarts_interval_witness:
  "\<exists>jobs. load_jobs demo_lib (fst (run_ops (sched_exec demo_lib) [Delete ''b'']
       (fst (run_job demo_lib 0 ''a'' demo_file)))) = Inr jobs
     \<and> (case lookup_key job_name jobs ''a'' of None \<Rightarrow> False
        | Some j \<Rightarrow> is_due demo_lib 0 (300 * 10 ^ 9) j \<and> \<not> is_due demo_lib 0 (299 * 10 ^ 9) j)"
proof -
  let ?j = "demo_job ''a'' ''5m'' (Some 0)" and ?f = "fst (run_job demo_lib 0 ''a'' demo_file)"
  have run: "run_job demo_lib 0 ''a'' demo_file = (?f, Inr ?j)"
    by (simp add: run_job_def with_jobs_def demo_load)
  have other: "list_all (other_job demo_lib ''a'') [Delete ''b'']" by (simp add: other_job_def)
  have secs: "parse_interval (expression ?j) = Some 300" "(300 :: nat) < 2 ^ 63" by (simp_all add: short_intervals)
  note due = run_restarts_interval [OF demo_codec demo_stores run secs other]
  from due [of 0 "300 * 10 ^ 9"] due [of 0 "299 * 10 ^ 9"] show ?thesis
    by (auto simp: is_expired_def split: option.splits)
qed

theorem daemon_poll_runs_due_witness:
  "snd (daemon_poll demo_lib (\<lambda>_. (5, 5)) 5 5 (\<lambda>_. 9) rev demo_file) = Inr [Inr (demo_job ''a'' ''5m'' (Some 9))]"
proof -
  have due: "due_jobs demo_lib (\<lambda>_. (5, 5)) [demo_job ''a'' ''5m'' None] = [demo_job ''a'' ''5m'' None]"
    by (simp add: due_jobs_def is_due_def is_expired_def short_intervals)
  show ?thesis
    using daemon_poll_runs_due [OF demo_codec demo_load, of rev "\<lambda>_. (5, 5)" 5 5 "\<lambda>_. 9"]
    by (simp add: due polled_def is_expired_def)
qed

end
