(* ===== verification/Approvals.thy ===== *)
theory Approvals
  imports Jsonl Json Keyed_Table "HOL-Library.Multiset" "HOL-Library.Product_Lexorder"
begin

text \<open>
  The store of recorded approvals (\<^verbatim>\<open>oh-my-grok-build/src/approvals.rs\<close>), whose entries become
  allow rules of the automatic permission mode. The hash set of the source is a list without
  two entries of the same key; the order in which it is iterated is a parameter. Instants are
  nanoseconds since the epoch. \<^verbatim>\<open>chrono\<close> and \<^verbatim>\<open>serde_json\<close> are parameters; where \<^verbatim>\<open>chrono\<close>
  panics the model returns an error. Failures of the file system are not modelled.
\<close>

section \<open>Data\<close>

definition DEFAULT_APPROVAL_TTL_DAYS :: int where "DEFAULT_APPROVAL_TTL_DAYS = 30"
definition MAX_APPROVALS :: nat where "MAX_APPROVALS = 10000"

record Approval =
  tool :: string
  pattern :: string
  valid_until :: "int option"

text \<open>Equality and hash of the source look at tool and pattern only.\<close>

definition approval_key :: "Approval \<Rightarrow> string \<times> string" where
  "approval_key a = (tool a, pattern a)"

record appr_lib =
  approval_to_string :: "Approval \<Rightarrow> string"
  approval_from_str :: "string \<Rightarrow> Approval res"
  value_from_str :: "string \<Rightarrow> json option"
  duration_days :: "int \<Rightarrow> int option"
  add_duration :: "int \<Rightarrow> int \<Rightarrow> int option"
  set_order :: "Approval list \<Rightarrow> Approval list"

section \<open>Operations\<close>

definition ttl_days :: "string option \<Rightarrow> int" where
  "ttl_days env =
     max 1 (case Option.bind env (parse_signed 64) of Some d \<Rightarrow> d | None \<Rightarrow> DEFAULT_APPROVAL_TTL_DAYS)"

definition ttl :: "appr_lib \<Rightarrow> string option \<Rightarrow> int res" where
  "ttl lib env = (case duration_days lib (ttl_days env) of Some d \<Rightarrow> Inr d | None \<Rightarrow> Inl ''duration out of bounds'')"

definition live :: "int \<Rightarrow> Approval \<Rightarrow> bool" where
  "live now a = (case valid_until a of Some e \<Rightarrow> \<not> e \<le> now | None \<Rightarrow> True)"

definition load_approvals :: "appr_lib \<Rightarrow> int \<Rightarrow> string option \<Rightarrow> Approval list res" where
  "load_approvals lib now file =
     (case file of
        None \<Rightarrow> Inr []
      | Some raw \<Rightarrow>
          bind_res (collect_res (map (approval_from_str lib) (filter (\<lambda>l. l \<noteq> []) (map trim (str_lines raw)))))
            (\<lambda>as. Inr (filter (live now) as)))"

definition to_allow_rules :: "Approval list \<Rightarrow> string list" where
  "to_allow_rules as = map (\<lambda>a. tool a @ ''('' @ pattern a @ '')'') (filter (\<lambda>a. pattern a \<noteq> []) as)"

definition normalize_tool_name :: "string \<Rightarrow> string" where
  "normalize_tool_name n =
     (let l = to_lowercase n
      in if l \<in> set [''run_terminal_cmd'', ''bash'', ''monitor''] then ''Bash''
         else if l \<in> set [''read_file'', ''read'', ''notebook_read''] then ''Read''
         else if l \<in> set [''edit_file'', ''search_replace'', ''apply_patch'', ''write'', ''notebook_edit'', ''hashline_edit'']
         then ''Edit''
         else if l = ''web_search'' then ''WebSearch''
         else if l = ''web_fetch'' then ''WebFetch''
         else if l \<in> set [''grep'', ''glob''] then ''Grep''
         else if l \<in> set [''mcp'', ''mcptool''] then ''MCPTool''
         else case n of [] \<Rightarrow> [] | c # cs \<Rightarrow> to_upper_char c # cs)"

definition or_else :: "'a option \<Rightarrow> 'a option \<Rightarrow> 'a option" where
  "or_else x y = (case x of Some _ \<Rightarrow> x | None \<Rightarrow> y)"

definition trimmed_str :: "json option \<Rightarrow> string option" where
  "trimmed_str v = map_option trim (Option.bind v json_as_str)"

definition extract_pattern :: "appr_lib \<Rightarrow> string \<Rightarrow> string \<Rightarrow> string option" where
  "extract_pattern lib nm raw =
     (let args = trim raw
      in if args = [] then None
         else let v = (case value_from_str lib args of Some v \<Rightarrow> v | None \<Rightarrow> JString args);
                  p = (if nm = ''Bash'' \<or> nm = ''Monitor'' then trimmed_str (json_get ''command'' v)
                       else if nm = ''Read'' \<or> nm = ''Edit''
                       then trimmed_str (or_else (json_get ''file_path'' v) (json_get ''path'' v))
                       else if nm = ''WebSearch'' then trimmed_str (json_get ''query'' v)
                       else if nm = ''WebFetch'' then trimmed_str (json_get ''url'' v)
                       else if nm = ''Grep'' \<or> nm = ''Glob'' then trimmed_str (json_get ''pattern'' v)
                       else if nm = ''MCPTool''
                       then trimmed_str (or_else (json_get ''tool_name'' v) (json_get ''name'' v))
                       else Some args)
              in (case p of Some s \<Rightarrow> if s = [] then None else p | None \<Rightarrow> None))"

definition should_record :: "string \<Rightarrow> bool" where
  "should_record nm \<longleftrightarrow> \<not> (nm = ''Bash'' \<or> nm = ''Monitor'')"

text \<open>\<^verbatim>\<open>HashSet::insert\<close> keeps the entry that is already there.\<close>

definition set_insert :: "Approval \<Rightarrow> Approval list \<Rightarrow> Approval list" where
  "set_insert a as = (if lookup_key approval_key as (approval_key a) = None then as @ [a] else as)"

fun record_loop :: "appr_lib \<Rightarrow> int \<Rightarrow> int \<Rightarrow> (string \<times> string) list \<Rightarrow> Approval list \<Rightarrow> Approval list res" where
  "record_loop lib now tt [] existing = Inr existing"
| "record_loop lib now tt ((n, args) # calls) existing =
     (let nm = normalize_tool_name n
      in if \<not> should_record nm then record_loop lib now tt calls existing
         else case extract_pattern lib nm args of
                None \<Rightarrow> record_loop lib now tt calls existing
              | Some p \<Rightarrow>
                  (if p = [] then record_loop lib now tt calls existing
                   else case add_duration lib now tt of
                          None \<Rightarrow> Inl ''date out of range''
                        | Some e \<Rightarrow>
                            record_loop lib now tt calls
                              (set_insert \<lparr>tool = nm, pattern = p, valid_until = Some e\<rparr> existing)))"

text \<open>Latest expiry first, approvals without one last; the sort is stable.\<close>

definition expiry_rank :: "Approval \<Rightarrow> nat \<times> int" where
  "expiry_rank a = (case valid_until a of Some e \<Rightarrow> (0, - e) | None \<Rightarrow> (1, 0))"

definition cap_approvals :: "Approval list \<Rightarrow> Approval list" where
  "cap_approvals as = (if MAX_APPROVALS < length as then take MAX_APPROVALS (sort_key expiry_rank as) else as)"

definition record_tool_calls :: "appr_lib \<Rightarrow> string option \<Rightarrow> int \<Rightarrow> int \<Rightarrow> (string \<times> string) list \<Rightarrow> string option \<Rightarrow> string option \<times> unit res" where
  "record_tool_calls lib env now0 now calls file =
     (if calls = [] then (file, Inr ())
      else case bind_res (load_approvals lib now0 file) (\<lambda>loaded.
                  bind_res (ttl lib env) (\<lambda>tt.
                    record_loop lib now tt calls (fold set_insert loaded []))) of
             Inl e \<Rightarrow> (file, Inl e)
           | Inr existing \<Rightarrow>
               (Some (unlines (map (approval_to_string lib) (cap_approvals (set_order lib existing)))), Inr ()))"

section \<open>What a recording leaves\<close>

text \<open>The interface laws the code relies on: the codec, and a hash set yields each entry once.\<close>

definition appr_ok :: "appr_lib \<Rightarrow> bool" where
  "appr_ok lib \<longleftrightarrow> codec (approval_to_string lib) (approval_from_str lib) \<and> (\<forall>as. mset (set_order lib as) = mset as)"

text \<open>An entry that a call of the batch creates.\<close>

definition fresh :: "appr_lib \<Rightarrow> int \<Rightarrow> int \<Rightarrow> (string \<times> string) list \<Rightarrow> Approval \<Rightarrow> bool" where
  "fresh lib now tt calls a \<longleftrightarrow>
     list_ex (\<lambda>(n, args). tool a = normalize_tool_name n \<and> should_record (tool a)
       \<and> extract_pattern lib (tool a) args = Some (pattern a)) calls
     \<and> pattern a \<noteq> [] \<and> valid_until a \<noteq> None \<and> valid_until a = add_duration lib now tt"

lemma set_insert_lookup:
  "lookup_key approval_key (set_insert a as) k =
     (case lookup_key approval_key as k of
        Some x \<Rightarrow> Some x | None \<Rightarrow> if approval_key a = k then Some a else None)"
  by (auto simp: set_insert_def lookup_key_append split: option.split)

lemma set_insert_distinct:
  "distinct (map approval_key as) \<Longrightarrow> distinct (map approval_key (set_insert a as))"
  by (auto simp: set_insert_def lookup_key_None)

lemma fold_insert:
  "distinct (map approval_key acc) \<Longrightarrow>
     distinct (map approval_key (fold set_insert as acc))
     \<and> lookup_key approval_key (fold set_insert as acc) k =
       (case lookup_key approval_key acc k of Some x \<Rightarrow> Some x | None \<Rightarrow> lookup_key approval_key as k)"
proof (induction as arbitrary: acc)
  case (Cons a as)
  from Cons.IH [OF set_insert_distinct [OF Cons.prems], of a] show ?case
    by (auto simp: set_insert_lookup split: option.splits)
qed (simp split: option.split)

text \<open>The entries of a set are kept and every new one has the given property.\<close>

definition extends :: "(Approval \<Rightarrow> bool) \<Rightarrow> Approval list \<Rightarrow> Approval list \<Rightarrow> bool" where
  "extends F as bs \<longleftrightarrow> distinct (map approval_key bs) \<and>
     (\<forall>k. case lookup_key approval_key as k of
            Some a \<Rightarrow> lookup_key approval_key bs k = Some a
          | None \<Rightarrow> (case lookup_key approval_key bs k of Some b \<Rightarrow> F b | None \<Rightarrow> True))"

lemma extends_refl: "distinct (map approval_key as) \<Longrightarrow> extends F as as"
  by (simp add: extends_def split: option.split)

lemma extends_mono: "extends F as bs \<Longrightarrow> (\<And>b. F b \<Longrightarrow> G b) \<Longrightarrow> extends G as bs"
  unfolding extends_def
proof (elim conjE, intro conjI allI)
  fix k
  assume "\<And>b. F b \<Longrightarrow> G b" "\<forall>k. case lookup_key approval_key as k of
            Some a \<Rightarrow> lookup_key approval_key bs k = Some a
          | None \<Rightarrow> (case lookup_key approval_key bs k of Some b \<Rightarrow> F b | None \<Rightarrow> True)"
  then show "case lookup_key approval_key as k of
            Some a \<Rightarrow> lookup_key approval_key bs k = Some a
          | None \<Rightarrow> (case lookup_key approval_key bs k of Some b \<Rightarrow> G b | None \<Rightarrow> True)"
    by (elim allE [of _ k]) (simp split: option.splits)
qed

lemma extends_insert:
  assumes "extends F (set_insert a as) bs" and "F a"
  shows "extends F as bs"
  unfolding extends_def
proof (intro conjI allI)
  show "distinct (map approval_key bs)" using assms(1) by (simp add: extends_def)
  fix k
  have "case lookup_key approval_key (set_insert a as) k of
          Some x \<Rightarrow> lookup_key approval_key bs k = Some x
        | None \<Rightarrow> (case lookup_key approval_key bs k of Some b \<Rightarrow> F b | None \<Rightarrow> True)"
    using assms(1) unfolding extends_def by blast
  with assms(2) show "case lookup_key approval_key as k of
          Some x \<Rightarrow> lookup_key approval_key bs k = Some x
        | None \<Rightarrow> (case lookup_key approval_key bs k of Some b \<Rightarrow> F b | None \<Rightarrow> True)"
    by (auto simp: set_insert_lookup split: option.splits if_splits)
qed

lemma record_loop_spec:
  "record_loop lib now tt calls as = Inr bs \<Longrightarrow> distinct (map approval_key as) \<Longrightarrow>
     extends (fresh lib now tt calls) as bs"
proof (induction calls arbitrary: as)
  case Nil
  then show ?case by (simp add: extends_refl)
next
  case (Cons call calls)
  obtain n args where call: "call = (n, args)" by (cases call)
  let ?nm = "normalize_tool_name n"
  have widen: "fresh lib now tt (call # calls) b" if "fresh lib now tt calls b" for b
    using that unfolding fresh_def list_ex_iff set_simps by blast
  show ?case
  proof (cases "should_record ?nm \<and> (\<exists>p. extract_pattern lib ?nm args = Some p \<and> p \<noteq> [])")
    case False
    then have "record_loop lib now tt calls as = Inr bs"
      using Cons.prems(1) call by (auto simp: Let_def split: option.splits if_splits)
    then show ?thesis using Cons.IH Cons.prems(2) widen extends_mono by blast
  next
    case True
    then obtain p where p: "extract_pattern lib ?nm args = Some p" "p \<noteq> []" by blast
    with True Cons.prems(1) call obtain e where e: "add_duration lib now tt = Some e"
      by (auto simp: Let_def split: option.splits)
    let ?a = "\<lparr>tool = ?nm, pattern = p, valid_until = Some e\<rparr>"
    have "record_loop lib now tt calls (set_insert ?a as) = Inr bs"
      using True p e Cons.prems(1) call by (simp add: Let_def)
    then have "extends (fresh lib now tt (call # calls)) (set_insert ?a as) bs"
      using Cons.IH set_insert_distinct [OF Cons.prems(2)] widen extends_mono by blast
    moreover have "fresh lib now tt (call # calls) ?a" using True p e call by (simp add: fresh_def)
    ultimately show ?thesis by (rule extends_insert)
  qed
qed

lemma record_loop_total:
  "add_duration lib now tt = Some e \<Longrightarrow> \<exists>bs. record_loop lib now tt calls as = Inr bs"
  by (induction calls arbitrary: as) (auto simp: Let_def split: option.split)

lemma cap_facts:
  "length (cap_approvals as) \<le> MAX_APPROVALS" "set (cap_approvals as) \<subseteq> set as"
  "distinct (map approval_key as) \<Longrightarrow> distinct (map approval_key (cap_approvals as))"
  "length (cap_approvals as) < MAX_APPROVALS \<Longrightarrow> cap_approvals as = as"
proof -
  show "length (cap_approvals as) \<le> MAX_APPROVALS" "length (cap_approvals as) < MAX_APPROVALS \<Longrightarrow> cap_approvals as = as"
    by (auto simp: cap_approvals_def split: if_splits)
  show "set (cap_approvals as) \<subseteq> set as"
    using set_take_subset [of MAX_APPROVALS "sort_key expiry_rank as"] by (auto simp: cap_approvals_def)
  have "distinct (map approval_key (sort_key expiry_rank as)) = distinct (map approval_key as)"
    by (metis distinct_map mset_sort set_mset_mset mset_map mset_eq_imp_distinct_iff)
  then show "distinct (map approval_key as) \<Longrightarrow> distinct (map approval_key (cap_approvals as))"
    by (simp add: cap_approvals_def take_map [symmetric])
qed

lemma load_stored:
  assumes "codec (approval_to_string lib) (approval_from_str lib)"
  shows "load_approvals lib t (Some (unlines (map (approval_to_string lib) as))) = Inr (filter (live t) as)"
proof -
  have "filter (\<lambda>l. l \<noteq> []) (map (approval_to_string lib) as) = map (approval_to_string lib) as"
    using codec_line(3,4) [OF assms] by (auto simp: blank_line_def intro!: filter_True)
  then show ?thesis
    unfolding load_approvals_def by (simp add: codec_lines [OF assms] del: map_map)
qed

text \<open>
  Recording approvals adds what was approved and nothing else: the file then holds at most
  10,000 entries with distinct tool and pattern, and each is either an unexpired entry that
  was there before, with its old expiry, or a new one from a call of the batch, for a tool
  that is not a shell and with the expiry of the batch; a shell command is never recorded.
  Below the limit no unexpired entry is lost. In particular, approving again does not
  extend an approval that is still valid.
\<close>

theorem approvals_recorded:
  assumes "appr_ok lib" "calls \<noteq> []" and "load_approvals lib now0 store = Inr old"
    and "record_tool_calls lib env now0 now calls store = (store', Inr ())"
  shows "\<exists>as tt. ttl lib env = Inr tt \<and> load_approvals lib t store' = Inr (filter (live t) as)
    \<and> distinct (map approval_key as) \<and> length as \<le> MAX_APPROVALS
    \<and> list_all (\<lambda>a. lookup_key approval_key old (approval_key a) = Some a
        \<or> lookup_key approval_key old (approval_key a) = None \<and> fresh lib now tt calls a) as
    \<and> (length as < MAX_APPROVALS \<longrightarrow> list_all (\<lambda>a. lookup_key approval_key as (approval_key a)
        = lookup_key approval_key old (approval_key a)) old)"
proof -
  let ?seed = "fold set_insert old []"
  from assms(2-4) obtain tt bs where tt: "ttl lib env = Inr tt"
    and bs: "record_loop lib now tt calls ?seed = Inr bs"
    and st: "store' = Some (unlines (map (approval_to_string lib) (cap_approvals (set_order lib bs))))"
    by (auto simp: record_tool_calls_def split: sum.splits)
  have seed: "distinct (map approval_key ?seed)" "\<And>k. lookup_key approval_key ?seed k = lookup_key approval_key old k"
    using fold_insert [of "[]" old] by simp_all
  note spec = record_loop_spec [OF bs seed(1), unfolded extends_def seed(2)]
  have dist: "distinct (map approval_key bs)" using spec by blast
  have kept: "lookup_key approval_key bs k = Some a" if "lookup_key approval_key old k = Some a" for k a
    using conjunct2 [OF spec, rule_format, of k] that by simp
  have new: "fresh lib now tt calls b"
    if "lookup_key approval_key old k = None" "lookup_key approval_key bs k = Some b" for k b
    using conjunct2 [OF spec, rule_format, of k] that by simp
  let ?os = "set_order lib bs" and ?as = "cap_approvals (set_order lib bs)"
  have perm: "mset ?os = mset bs" using assms(1) by (simp add: appr_ok_def)
  then have os: "set ?os = set bs" "distinct (map approval_key ?os)"
    using dist by (metis set_mset_mset, metis mset_map mset_eq_imp_distinct_iff)
  have mem: "lookup_key approval_key ?os (approval_key a) = Some a" if "a \<in> set bs" for a
    using that os lookup_key_mem by metis
  have "lookup_key approval_key old (approval_key a) = Some a
      \<or> lookup_key approval_key old (approval_key a) = None \<and> fresh lib now tt calls a" if "a \<in> set ?as" for a
  proof -
    have "a \<in> set bs" using that cap_facts(2) os(1) by blast
    then have "lookup_key approval_key bs (approval_key a) = Some a" using dist lookup_key_mem by metis
    then show ?thesis
      using kept [of "approval_key a"] new [of "approval_key a" a]
      by (cases "lookup_key approval_key old (approval_key a)") simp_all
  qed
  moreover have "lookup_key approval_key ?as (approval_key a) = lookup_key approval_key old (approval_key a)"
    if small: "length ?as < MAX_APPROVALS" and old: "a \<in> set old" for a
  proof -
    obtain b where b: "lookup_key approval_key old (approval_key a) = Some b"
      using old by (cases "lookup_key approval_key old (approval_key a)") (auto simp: lookup_key_None)
    then have "lookup_key approval_key bs (approval_key a) = Some b" by (rule kept)
    then have "b \<in> set bs" "approval_key b = approval_key a" using lookup_key_Some by metis+
    with mem [of b] b cap_facts(4) [OF small] show ?thesis by simp
  qed
  moreover have "load_approvals lib t store' = Inr (filter (live t) ?as)"
    using assms(1) st load_stored by (auto simp: appr_ok_def)
  ultimately show ?thesis
    using tt cap_facts(1) cap_facts(3) [OF os(2)]
    by (intro exI [of _ ?as] exI [of _ tt]) (auto simp: list_all_iff)
qed

section \<open>Witness\<close>

definition demo_approval :: "string \<Rightarrow> int option \<Rightarrow> Approval" where
  "demo_approval p e = \<lparr>tool = ''Read'', pattern = p, valid_until = e\<rparr>"

text \<open>A codec by way of the natural numbers, one day of 24 units.\<close>

definition approval_code :: "Approval \<Rightarrow> nat" where
  "approval_code a = list_encode [string_code (tool a), string_code (pattern a),
     option_code int_encode (valid_until a)]"

definition approval_decode :: "nat \<Rightarrow> Approval" where
  "approval_decode n = (let xs = list_decode n in
     \<lparr>tool = string_decode (xs ! 0), pattern = string_decode (xs ! 1),
      valid_until = option_decode int_decode (xs ! 2)\<rparr>)"

definition demo_appr :: appr_lib where
  "demo_appr = \<lparr>approval_to_string = (\<lambda>a. ''{'' @ replicate (approval_code a) (CHR ''x'') @ ''}''),
     approval_from_str = (\<lambda>s. Inr (approval_decode (length s - 2))),
     value_from_str = (\<lambda>s. if s = ''A'' then Some (JObject [(''path'', JString ''a.txt'')]) else None),
     duration_days = (\<lambda>d. Some (d * 24)), add_duration = (\<lambda>t d. Some (t + d)), set_order = rev\<rparr>"

lemma demo_appr_ok: "appr_ok demo_appr"
proof -
  have "approval_decode (approval_code a) = a" for a
    by (simp add: approval_decode_def approval_code_def)
  from unary_codec [OF this] show ?thesis by (simp add: appr_ok_def demo_appr_def)
qed

definition demo_store :: "string option" where
  "demo_store = Some (unlines (map (approval_to_string demo_appr) [demo_approval ''a.txt'' (Some 5)]))"

lemma demo_load_store: "load_approvals demo_appr 0 demo_store = Inr [demo_approval ''a.txt'' (Some 5)]"
  using demo_appr_ok load_stored [of demo_appr 0 "[demo_approval ''a.txt'' (Some 5)]"]
  by (simp add: demo_store_def appr_ok_def live_def demo_approval_def)

theorem approvals_recorded_witness:
  "\<exists>as. load_approvals demo_appr 6 (fst (record_tool_calls demo_appr None 0 0 [(''read_file'', ''A''), (''bash'', ''B'')] demo_store)) = Inr as
     \<and> distinct (map approval_key as) \<and> demo_approval ''a.txt'' (Some 720) \<notin> set as"
proof -
  let ?calls = "[(''read_file'', ''A''), (''bash'', ''B'')]"
  let ?r = "record_tool_calls demo_appr None 0 0 ?calls demo_store"
  have tt: "ttl demo_appr None = Inr 720"
    by (simp add: ttl_def ttl_days_def DEFAULT_APPROVAL_TTL_DAYS_def demo_appr_def)
  have "add_duration demo_appr 0 720 = Some 720" by (simp add: demo_appr_def)
  from record_loop_total [OF this] obtain bs where
    "record_loop demo_appr 0 720 ?calls (fold set_insert [demo_approval ''a.txt'' (Some 5)] []) = Inr bs" by blast
  then have "snd ?r = Inr ()" using tt by (simp add: record_tool_calls_def demo_load_store del: record_loop.simps)
  then have r: "?r = (fst ?r, Inr ())" by (simp add: prod_eq_iff)
  have ne: "?calls \<noteq> []" by simp
  from approvals_recorded [OF demo_appr_ok ne demo_load_store r, of 6]
  obtain as tt where as: "load_approvals demo_appr 6 (fst ?r) = Inr (filter (live 6) as)"
      "distinct (map approval_key as)"
      "list_all (\<lambda>a. lookup_key approval_key [demo_approval ''a.txt'' (Some 5)] (approval_key a) = Some a
        \<or> lookup_key approval_key [demo_approval ''a.txt'' (Some 5)] (approval_key a) = None
          \<and> fresh demo_appr 0 tt ?calls a) as"
    by (elim exE conjE)
  have "demo_approval ''a.txt'' (Some 720) \<notin> set as"
    using as(3) by (auto simp: list_all_iff approval_key_def demo_approval_def)
  with as(1,2) show ?thesis
    by (intro exI [of _ "filter (live 6) as"]) (simp add: distinct_map_filter)
qed

end
