(* ===== verification/Unicode_Text.thy ===== *)
theory Unicode_Text
  imports Rust_Prelude
begin

text \<open>
  Text as a list of code points, for the components that treat characters outside ASCII: a Rust
  \<^verbatim>\<open>str\<close> with the iteration of \<^verbatim>\<open>chars\<close>, and its operations with the white space of Unicode.
\<close>

type_synonym ucs = "nat list"

text \<open>A literal of the source.\<close>

definition lit :: "string \<Rightarrow> ucs" where
  "lit s = map of_char s"

abbreviation ulf :: nat where "ulf \<equiv> 10"
abbreviation ucr :: nat where "ucr \<equiv> 13"

text \<open>The property \<^verbatim>\<open>White_Space\<close>.\<close>

definition uspace :: "nat \<Rightarrow> bool" where
  "uspace c \<longleftrightarrow> 9 \<le> c \<and> c \<le> 13 \<or> c = 32 \<or> c = 0x85 \<or> c = 0xA0 \<or> c = 0x1680
     \<or> 0x2000 \<le> c \<and> c \<le> 0x200A \<or> c = 0x2028 \<or> c = 0x2029 \<or> c = 0x202F \<or> c = 0x205F \<or> c = 0x3000"

definition utrim_end :: "ucs \<Rightarrow> ucs" where
  "utrim_end s = trim_end_pred uspace s"

definition utrim :: "ucs \<Rightarrow> ucs" where
  "utrim s = utrim_end (dropWhile uspace s)"

abbreviation ulines :: "ucs \<Rightarrow> ucs list" where
  "ulines \<equiv> split_lines ulf ucr"

lemma lit_simps [simp]: "lit [] = []" "lit (s @ t) = lit s @ lit t" "(lit s = []) = (s = [])"
  by (simp_all add: lit_def)

lemma lit_inject [simp]: "lit s = lit t \<longleftrightarrow> s = t"
  unfolding lit_def by (rule inj_map_eq_map) (auto simp: inj_on_def)

lemma drop_trim_end:
  "dropWhile P (trim_end_pred P s) = trim_end_pred P (dropWhile P s)"
proof (induction s)
  case (Cons c s)
  show ?case
  proof (cases "trim_end_pred P s = []")
    case True
    then have "\<forall>x\<in>set s. P x" by (auto simp: trim_end_pred_def dropWhile_eq_Nil_conv)
    then show ?thesis by (auto simp: trim_end_pred_def dropWhile_append dropWhile_eq_Nil_conv dest: set_dropWhileD)
  next
    case False
    then have "dropWhile P (rev s) \<noteq> []" by (simp add: trim_end_pred_def)
    then have "trim_end_pred P (c # s) = c # trim_end_pred P s"
      by (simp add: trim_end_pred_def dropWhile_append)
    with Cons show ?thesis by simp
  qed
qed (simp add: trim_end_pred_def)

text \<open>Trimming looks at less than trimming the end.\<close>

lemma utrim_utrim_end: "utrim (utrim_end s) = utrim s"
proof -
  have "trim_end_pred uspace (trim_end_pred uspace t) = trim_end_pred uspace t" for t
    by (simp add: trim_end_pred_def)
  then show ?thesis by (simp add: utrim_def utrim_end_def drop_trim_end)
qed

end
