(* ===== verification/Patch_Seek.thy ===== *)
theory Patch_Seek
  imports Unicode_Text
begin

text \<open>
  The fuzzy search for a sequence of lines
  (\<^verbatim>\<open>xai-grok-tools/src/implementations/codex/apply_patch/seek_sequence.rs\<close>): four passes of
  decreasing strictness, each over all positions.
\<close>

section \<open>Definitions\<close>

definition normalise_char :: "nat \<Rightarrow> nat" where
  "normalise_char c =
     (if c \<in> set [0x2010, 0x2011, 0x2012, 0x2013, 0x2014, 0x2015, 0x2212] then 0x2D
      else if c \<in> set [0x2018, 0x2019, 0x201A, 0x201B] then 0x27
      else if c \<in> set [0x201C, 0x201D, 0x201E, 0x201F] then 0x22
      else if c \<in> set [0xA0, 0x2002, 0x2003, 0x2004, 0x2005, 0x2006, 0x2007, 0x2008, 0x2009, 0x200A,
                       0x202F, 0x205F, 0x3000] then 0x20
      else c)"

definition normalise :: "ucs \<Rightarrow> ucs" where
  "normalise s = map normalise_char (utrim s)"

text \<open>Whether the lines from \<open>i\<close> on are those of the pattern, seen through \<open>f\<close>.\<close>

definition matches_at :: "(ucs \<Rightarrow> ucs) \<Rightarrow> ucs list \<Rightarrow> ucs list \<Rightarrow> nat \<Rightarrow> bool" where
  "matches_at f ls pat i \<longleftrightarrow> map f (take (length pat) (drop i ls)) = map f pat"

definition seek_pass :: "(ucs \<Rightarrow> ucs) \<Rightarrow> ucs list \<Rightarrow> ucs list \<Rightarrow> nat \<Rightarrow> nat option" where
  "seek_pass f ls pat search_start = find (matches_at f ls pat) [search_start..<Suc (length ls - length pat)]"

fun first_pass :: "(ucs \<Rightarrow> ucs) list \<Rightarrow> ucs list \<Rightarrow> ucs list \<Rightarrow> nat \<Rightarrow> nat option" where
  "first_pass [] ls pat search_start = None"
| "first_pass (f # fs) ls pat search_start =
     (case seek_pass f ls pat search_start of Some i \<Rightarrow> Some i | None \<Rightarrow> first_pass fs ls pat search_start)"

definition passes :: "(ucs \<Rightarrow> ucs) list" where
  "passes = [\<lambda>s. s, utrim_end, utrim, normalise]"

definition search_from :: "ucs list \<Rightarrow> ucs list \<Rightarrow> nat \<Rightarrow> bool \<Rightarrow> nat" where
  "search_from ls pat start eof = (if eof \<and> length pat \<le> length ls then length ls - length pat else start)"

definition seek_sequence :: "ucs list \<Rightarrow> ucs list \<Rightarrow> nat \<Rightarrow> bool \<Rightarrow> nat option" where
  "seek_sequence ls pat start eof =
     (if pat = [] then Some start
      else if length ls < length pat then None
      else first_pass passes ls pat (search_from ls pat start eof))"

section \<open>The strictest and first match\<close>

lemma find_upt: "find P [a..<b] = Some i \<longleftrightarrow> a \<le> i \<and> i < b \<and> P i \<and> (\<forall>j. a \<le> j \<and> j < i \<longrightarrow> \<not> P j)"
proof (induction "b - a" arbitrary: a)
  case (Suc n)
  then have "[a..<b] = a # [Suc a..<b]" by (simp add: upt_rec)
  with Suc(1) [of "Suc a"] Suc(2) show ?case
    by (cases "P a") (auto simp: less_Suc_eq_le Suc_le_eq dest: le_neq_implies_less)
qed simp

lemma find_upt_None: "find P [a..<b] = None \<longleftrightarrow> (\<forall>i. a \<le> i \<and> i < b \<longrightarrow> \<not> P i)"
  by (auto simp: find_None_iff)

text \<open>Each pass accepts what the one before it accepts.\<close>

lemma matches_coarser:
  assumes "\<And>s. f s = g (h s)" and "matches_at h ls pat i"
  shows "matches_at f ls pat i"
proof -
  have "map f xs = map g (map h xs)" for xs by (simp add: assms(1))
  with assms(2) show ?thesis by (simp only: matches_at_def)
qed

lemma passes_coarser:
  "matches_at (\<lambda>s. s) ls pat i \<Longrightarrow> matches_at utrim_end ls pat i"
  "matches_at utrim_end ls pat i \<Longrightarrow> matches_at utrim ls pat i"
  "matches_at utrim ls pat i \<Longrightarrow> matches_at normalise ls pat i"
  by (erule matches_coarser [rotated, where g = utrim_end] matches_coarser [rotated, where g = utrim]
      matches_coarser [rotated, where g = "map normalise_char"];
      simp add: utrim_utrim_end normalise_def)+

lemma matches_normalise: "f \<in> set passes \<Longrightarrow> matches_at f ls pat i \<Longrightarrow> matches_at normalise ls pat i"
  unfolding passes_def using passes_coarser by auto

lemma first_pass_Some:
  "first_pass fs ls pat s = Some i \<Longrightarrow>
     \<exists>pre f post. fs = pre @ f # post \<and> seek_pass f ls pat s = Some i
       \<and> list_all (\<lambda>g. seek_pass g ls pat s = None) pre"
proof (induction fs)
  case (Cons f fs)
  show ?case
  proof (cases "seek_pass f ls pat s")
    case None
    with Cons obtain pre g post where "fs = pre @ g # post" "seek_pass g ls pat s = Some i"
      "list_all (\<lambda>g. seek_pass g ls pat s = None) pre" by auto
    with None show ?thesis by (intro exI [of _ "f # pre"]) auto
  next
    case (Some j)
    with Cons.prems show ?thesis by (intro exI [of _ "[]"]) auto
  qed
qed simp

lemma first_pass_None: "first_pass fs ls pat s = None \<longleftrightarrow> list_all (\<lambda>f. seek_pass f ls pat s = None) fs"
  by (induction fs) (auto split: option.splits)

text \<open>The place of a match.\<close>

lemma seek_sequence_place:
  assumes "seek_sequence ls pat start eof = Some i" "pat \<noteq> []"
  shows "search_from ls pat start eof \<le> i \<and> i + length pat \<le> length ls \<and> matches_at normalise ls pat i"
proof -
  from assms have len: "length pat \<le> length ls"
    and "first_pass passes ls pat (search_from ls pat start eof) = Some i"
    by (auto simp: seek_sequence_def split: if_splits)
  from first_pass_Some [OF this(2)] obtain f where f: "f \<in> set passes"
    "seek_pass f ls pat (search_from ls pat start eof) = Some i" by (metis in_set_conv_decomp)
  then show ?thesis
    using len matches_normalise [OF f(1)] by (auto simp: seek_pass_def find_upt less_Suc_eq_le simp del: upt_Suc)
qed

text \<open>
  The search returns the first match of the strictest kind: for a pattern of at least one
  line, a result is a position in range at which some pass matches, no position before it
  matches in that pass, and no position at all matches in a stricter pass; and there is no
  result exactly when no position in range matches up to white space at the ends and
  typographic punctuation.
\<close>

theorem seek_sequence_strictest:
  assumes "pat \<noteq> []" "length pat \<le> length ls"
  shows "(\<forall>i. seek_sequence ls pat start eof = Some i \<longrightarrow>
      (\<exists>pre f post. passes = pre @ f # post
        \<and> search_from ls pat start eof \<le> i \<and> i \<le> length ls - length pat \<and> matches_at f ls pat i
        \<and> (\<forall>j. search_from ls pat start eof \<le> j \<and> j < i \<longrightarrow> \<not> matches_at f ls pat j)
        \<and> list_all (\<lambda>g. \<forall>j. search_from ls pat start eof \<le> j \<and> j \<le> length ls - length pat \<longrightarrow> \<not> matches_at g ls pat j) pre))
    \<and> (seek_sequence ls pat start eof = None \<longleftrightarrow>
        (\<forall>j. search_from ls pat start eof \<le> j \<and> j \<le> length ls - length pat \<longrightarrow> \<not> matches_at normalise ls pat j))"
proof -
  let ?s = "search_from ls pat start eof"
  have seek: "seek_sequence ls pat start eof = first_pass passes ls pat ?s"
    using assms by (simp add: seek_sequence_def)
  have none: "seek_pass g ls pat ?s = None \<longleftrightarrow> (\<forall>j. ?s \<le> j \<and> j \<le> length ls - length pat \<longrightarrow> \<not> matches_at g ls pat j)" for g
    by (simp add: seek_pass_def find_upt_None less_Suc_eq_le del: upt_Suc)
  have "first_pass passes ls pat ?s = None \<longleftrightarrow> seek_pass normalise ls pat ?s = None"
    unfolding first_pass_None none using matches_normalise by (fastforce simp: list_all_iff passes_def)
  moreover have "\<exists>pre f post. passes = pre @ f # post \<and> ?s \<le> i \<and> i \<le> length ls - length pat \<and> matches_at f ls pat i
        \<and> (\<forall>j. ?s \<le> j \<and> j < i \<longrightarrow> \<not> matches_at f ls pat j)
        \<and> list_all (\<lambda>g. seek_pass g ls pat ?s = None) pre"
    if "first_pass passes ls pat ?s = Some i" for i
    using first_pass_Some [OF that] by (auto simp: seek_pass_def find_upt less_Suc_eq_le simp del: upt_Suc)
  ultimately show ?thesis unfolding seek none by blast
qed

theorem seek_sequence_strictest_witness:
  "seek_sequence [lit ''a '', lit ''b'', lit ''a''] [lit ''a''] 0 False = Some 2
   \<and> (\<exists>pre f post. passes = pre @ f # post \<and> matches_at f [lit ''a '', lit ''b'', lit ''a''] [lit ''a''] 2)"
proof -
  let ?ls = "[lit ''a '', lit ''b'', lit ''a'']" and ?pat = "[lit ''a'']"
  have s: "seek_sequence ?ls ?pat 0 False = Some 2" by code_simp
  have "?pat \<noteq> []" "length ?pat \<le> length ?ls" by simp_all
  from seek_sequence_strictest [OF this, of 0 False] s show ?thesis by blast
qed

end
