(* ===== verification/Patch_Apply.thy ===== *)
theory Patch_Apply
  imports Patch_Seek "HOL-Library.Multiset"
begin

text \<open>
  The patch engine (\<^verbatim>\<open>codex/apply_patch/apply.rs\<close>, with the errors of \<^verbatim>\<open>errors.rs\<close>
  and the chunk type of \<^verbatim>\<open>parser.rs\<close>): where
  the chunks of an update go, the replacements they amount to, and their application to the
  lines of the file. An insertion behind the end of the lines, at which \<^verbatim>\<open>Vec::insert\<close> panics,
  is the value \<open>None\<close>.
\<close>

section \<open>Definitions\<close>

record UpdateFileChunk =
  change_context :: "ucs option"
  old_lines :: "ucs list"
  new_lines :: "ucs list"
  is_end_of_file :: bool

datatype ParseError = InvalidPatchError ucs | InvalidHunkError ucs nat

datatype ApplyPatchError =
    Parse ParseError
  | ComputeReplacements ucs
  | Io ucs ucs "ucs option"

fun show_nat :: "nat \<Rightarrow> ucs" where
  "show_nat n = (if n < 10 then [48 + n] else show_nat (n div 10) @ [48 + n mod 10])"

declare show_nat.simps [simp del]

text \<open>The \<^verbatim>\<open>Display\<close> of the errors.\<close>

fun show_parse_error :: "ParseError \<Rightarrow> ucs" where
  "show_parse_error (InvalidPatchError m) = lit ''invalid patch: '' @ m"
| "show_parse_error (InvalidHunkError m n) = lit ''invalid hunk at line '' @ show_nat n @ lit '', '' @ m"

fun show_apply_error :: "ApplyPatchError \<Rightarrow> ucs" where
  "show_apply_error (Parse e) = show_parse_error e"
| "show_apply_error (ComputeReplacements m) = m"
| "show_apply_error (Io c m p) = c @ lit '': '' @ m"

type_synonym replacement = "nat \<times> nat \<times> ucs list"

definition last_is_empty :: "ucs list \<Rightarrow> bool" where
  "last_is_empty ls \<longleftrightarrow> ls \<noteq> [] \<and> last ls = []"

text \<open>The context line moves the start of the search behind it.\<close>

definition context_index :: "ucs list \<Rightarrow> ucs \<Rightarrow> UpdateFileChunk \<Rightarrow> nat \<Rightarrow> ApplyPatchError + nat" where
  "context_index ls path chunk line_index =
     (case change_context chunk of
        None \<Rightarrow> Inr line_index
      | Some ctx_line \<Rightarrow>
          (case seek_sequence ls [ctx_line] line_index False of
             Some idx \<Rightarrow> Inr (idx + 1)
           | None \<Rightarrow> Inl (ComputeReplacements
               (lit ''Failed to find context '' @ [0x27] @ ctx_line @ [0x27] @ lit '' in '' @ path))))"

definition insertion_idx :: "ucs list \<Rightarrow> nat" where
  "insertion_idx ls = (if last_is_empty ls then length ls - 1 else length ls)"

text \<open>The replacement of a chunk with old lines, retried without a final empty line.\<close>

definition chunk_place :: "ucs list \<Rightarrow> UpdateFileChunk \<Rightarrow> nat \<Rightarrow> replacement option" where
  "chunk_place ls chunk line_index =
     (let pat = old_lines chunk; eof = is_end_of_file chunk
      in case seek_sequence ls pat line_index eof of
           Some i \<Rightarrow> Some (i, length pat, new_lines chunk)
         | None \<Rightarrow>
             (if last_is_empty pat
              then let pat = butlast pat;
                       new_slice = (if last_is_empty (new_lines chunk) then butlast (new_lines chunk)
                                    else new_lines chunk)
                   in map_option (\<lambda>i. (i, length pat, new_slice)) (seek_sequence ls pat line_index eof)
              else None))"

fun chunk_loop :: "ucs list \<Rightarrow> ucs \<Rightarrow> UpdateFileChunk list \<Rightarrow> nat \<Rightarrow> ApplyPatchError + replacement list" where
  "chunk_loop ls path [] line_index = Inr []"
| "chunk_loop ls path (chunk # chunks) line_index =
     (case context_index ls path chunk line_index of
        Inl e \<Rightarrow> Inl e
      | Inr line_index \<Rightarrow>
          (if old_lines chunk = []
           then map_sum id (\<lambda>rs. (insertion_idx ls, 0, new_lines chunk) # rs) (chunk_loop ls path chunks line_index)
           else case chunk_place ls chunk line_index of
                  None \<Rightarrow> Inl (ComputeReplacements
                    (lit ''Failed to find expected lines in '' @ path @ lit '':'' @ [ulf] @
                     join_with [ulf] (old_lines chunk)))
                | Some (i, n, new) \<Rightarrow>
                    map_sum id (\<lambda>rs. (i, n, new) # rs) (chunk_loop ls path chunks (i + n))))"

definition compute_replacements :: "ucs list \<Rightarrow> ucs \<Rightarrow> UpdateFileChunk list \<Rightarrow> ApplyPatchError + replacement list" where
  "compute_replacements ls path chunks = map_sum id (sort_key fst) (chunk_loop ls path chunks 0)"

text \<open>The two loops over one replacement.\<close>

fun remove_loop :: "nat \<Rightarrow> nat \<Rightarrow> ucs list \<Rightarrow> ucs list" where
  "remove_loop start_idx 0 ls = ls"
| "remove_loop start_idx (Suc n) ls =
     remove_loop start_idx n (if start_idx < length ls then take start_idx ls @ drop (Suc start_idx) ls else ls)"

definition insert_at :: "nat \<Rightarrow> 'a \<Rightarrow> 'a list \<Rightarrow> 'a list option" where
  "insert_at i x xs = (if i \<le> length xs then Some (take i xs @ x # drop i xs) else None)"

fun insert_loop :: "nat \<Rightarrow> 'a list \<Rightarrow> 'a list \<Rightarrow> 'a list option" where
  "insert_loop i [] ls = Some ls"
| "insert_loop i (x # xs) ls = Option.bind (insert_at i x ls) (insert_loop (i + 1) xs)"

fun apply_one :: "replacement \<Rightarrow> ucs list \<Rightarrow> ucs list option" where
  "apply_one (start_idx, old_len, new_segment) ls = insert_loop start_idx new_segment (remove_loop start_idx old_len ls)"

fun apply_rev :: "replacement list \<Rightarrow> ucs list \<Rightarrow> ucs list option" where
  "apply_rev [] ls = Some ls"
| "apply_rev (r # rs) ls = Option.bind (apply_one r ls) (apply_rev rs)"

definition apply_replacements :: "ucs list \<Rightarrow> replacement list \<Rightarrow> ucs list option" where
  "apply_replacements ls rs = apply_rev (rev rs) ls"

definition content_lines :: "ucs \<Rightarrow> ucs list" where
  "content_lines s =
     (let ls = split_pred (\<lambda>c. c = ulf) s in if last_is_empty ls then butlast ls else ls)"

definition lines_content :: "ucs list \<Rightarrow> ucs" where
  "lines_content ls = join_with [ulf] (if last_is_empty ls then ls else ls @ [[]])"

definition derive_new_contents :: "ucs \<Rightarrow> ucs \<Rightarrow> UpdateFileChunk list \<Rightarrow> (ApplyPatchError + ucs) option" where
  "derive_new_contents original path chunks =
     (case compute_replacements (content_lines original) path chunks of
        Inl e \<Rightarrow> Some (Inl e)
      | Inr rs \<Rightarrow> map_option (\<lambda>ls. Inr (lines_content ls)) (apply_replacements (content_lines original) rs))"

section \<open>One replacement\<close>

lemma remove_loop_splice: "remove_loop i n ls = take i ls @ drop (i + n) ls"
proof (induction n arbitrary: ls)
  case (Suc n)
  show ?case
  proof (cases "i < length ls")
    case True
    then show ?thesis by (simp add: Suc min_absorb2 add.commute)
  qed (simp add: Suc)
qed simp

lemma insert_loop_splice:
  "i \<le> length ls \<Longrightarrow> insert_loop i xs ls = Some (take i ls @ xs @ drop i ls)"
proof (induction xs arbitrary: i ls)
  case (Cons x xs)
  then show ?case
    using Cons.IH [of "Suc i" "take i ls @ x # drop i ls"] by (simp add: insert_at_def)
qed simp

lemma apply_one_splice:
  "i \<le> length ls \<Longrightarrow> apply_one (i, n, new) ls = Some (take i ls @ new @ drop (i + n) ls)"
  by (simp add: remove_loop_splice insert_loop_splice)

section \<open>Ordered replacements\<close>

text \<open>Replacements in the order of the lines, none reaching into the next.\<close>

fun ordered :: "ucs list \<Rightarrow> nat \<Rightarrow> replacement list \<Rightarrow> bool" where
  "ordered ls cur [] \<longleftrightarrow> True"
| "ordered ls cur ((i, n, new) # rs) \<longleftrightarrow> cur \<le> i \<and> i + n \<le> length ls \<and> ordered ls (i + n) rs"

text \<open>The lines from \<open>cur\<close> on with the replacements carried out.\<close>

fun rebuild :: "ucs list \<Rightarrow> nat \<Rightarrow> replacement list \<Rightarrow> ucs list" where
  "rebuild ls cur [] = drop cur ls"
| "rebuild ls cur ((i, n, new) # rs) = drop cur (take i ls) @ new @ rebuild ls (i + n) rs"

lemma apply_rev_append: "apply_rev (rs @ qs) ls = Option.bind (apply_rev rs ls) (apply_rev qs)"
  by (induction rs arbitrary: ls) (auto split: bind_splits)

lemma apply_ordered:
  "ordered ls cur rs \<Longrightarrow> apply_rev (rev rs) ls = Some (take cur ls @ rebuild ls cur rs)"
proof (induction rs arbitrary: cur)
  case (Cons r rs)
  obtain i n new where r: "r = (i, n, new)" by (cases r)
  with Cons.prems have b: "cur \<le> i" "i + n \<le> length ls" "ordered ls (i + n) rs" by simp_all
  let ?m = "take (i + n) ls @ rebuild ls (i + n) rs"
  have "take i ?m = take i ls" "drop (i + n) ?m = rebuild ls (i + n) rs" "i \<le> length ?m"
    using b(2) by (simp_all add: min_def)
  then have "apply_one r ?m = Some (take i ls @ new @ rebuild ls (i + n) rs)"
    by (simp only: r apply_one_splice)
  moreover have "take i ls = take cur ls @ drop cur (take i ls)"
    using b(1) append_take_drop_id [of cur "take i ls"] by (simp add: min_def)
  ultimately show ?case
    using Cons.IH [OF b(3)] by (simp add: r apply_rev_append del: apply_one.simps)
qed simp

lemma sort_key_sorted: "sorted (map f xs) \<Longrightarrow> sort_key f xs = xs"
  by (rule properties_for_sort_key) simp_all

lemma ordered_sorted: "ordered ls cur rs \<Longrightarrow> sorted (map fst rs) \<and> (\<forall>r\<in>set rs. cur \<le> fst r)"
  by (induction ls cur rs rule: ordered.induct) fastforce+

section \<open>No insertion behind the end\<close>

lemma apply_sorted_total:
  assumes "sorted (map fst rs)" "\<forall>r\<in>set rs. fst r \<le> length ls"
  shows "\<exists>m. apply_rev (rev rs) ls = Some m \<and> (\<forall>k\<le>length ls. (\<forall>r\<in>set rs. k \<le> fst r) \<longrightarrow> k \<le> length m)"
  using assms
proof (induction rs)
  case (Cons r rs)
  obtain i n new where r: "r = (i, n, new)" by (cases r)
  from Cons obtain m where m: "apply_rev (rev rs) ls = Some m"
    "\<forall>k\<le>length ls. (\<forall>r\<in>set rs. k \<le> fst r) \<longrightarrow> k \<le> length m" by auto
  have i: "i \<le> length m" using m(2) Cons.prems r by auto
  then have "apply_rev (rev (r # rs)) ls = Some (take i m @ new @ drop (i + n) m)"
    using m(1) by (simp add: r apply_rev_append apply_one_splice del: apply_one.simps)
  with i show ?case by (intro exI [of _ "take i m @ new @ drop (i + n) m"]) (auto simp: r min_def)
qed simp

lemma context_index_bound:
  "context_index ls path chunk k = Inr k' \<Longrightarrow> k \<le> length ls \<Longrightarrow> k \<le> k' \<and> k' \<le> length ls"
  using seek_sequence_place [of ls _ k False]
  by (fastforce simp: context_index_def search_from_def split: option.splits)

text \<open>The two ways a chunk finds its place: all old lines, or all but a final empty one.\<close>

definition chunk_fit :: "UpdateFileChunk \<Rightarrow> ucs list \<Rightarrow> ucs list \<Rightarrow> bool" where
  "chunk_fit chunk pat new \<longleftrightarrow>
     pat = old_lines chunk \<and> new = new_lines chunk
     \<or> last_is_empty (old_lines chunk) \<and> pat = butlast (old_lines chunk)
       \<and> new = (if last_is_empty (new_lines chunk) then butlast (new_lines chunk) else new_lines chunk)"

lemma chunk_place_fit:
  assumes "chunk_place ls chunk k = Some (i, n, new)"
  shows "\<exists>pat. n = length pat \<and> seek_sequence ls pat k (is_end_of_file chunk) = Some i \<and> chunk_fit chunk pat new"
proof (cases "seek_sequence ls (old_lines chunk) k (is_end_of_file chunk)")
  case None
  with assms show ?thesis
    by (intro exI [of _ "butlast (old_lines chunk)"])
      (auto simp: chunk_place_def chunk_fit_def Let_def split: if_splits)
next
  case (Some j)
  with assms show ?thesis
    by (intro exI [of _ "old_lines chunk"]) (auto simp: chunk_place_def chunk_fit_def Let_def)
qed

lemma seek_sequence_bound:
  assumes "seek_sequence ls pat k eof = Some i" "k \<le> length ls"
  shows "i + length pat \<le> length ls" "\<not> eof \<Longrightarrow> k \<le> i" "matches_at normalise ls pat i"
proof -
  have "i + length pat \<le> length ls \<and> (\<not> eof \<longrightarrow> k \<le> i) \<and> matches_at normalise ls pat i"
  proof (cases "pat = []")
    case True
    with assms show ?thesis by (simp add: seek_sequence_def matches_at_def)
  next
    case False
    with seek_sequence_place [OF assms(1)] show ?thesis by (auto simp: search_from_def)
  qed
  then show "i + length pat \<le> length ls" "\<not> eof \<Longrightarrow> k \<le> i" "matches_at normalise ls pat i" by simp_all
qed

lemma chunk_place_bound:
  assumes "chunk_place ls chunk k = Some (i, n, new)" "k \<le> length ls"
  shows "i + n \<le> length ls"
  using chunk_place_fit [OF assms(1)] seek_sequence_bound(1) [OF _ assms(2)] by blast

lemma chunk_loop_bound:
  "chunk_loop ls path chunks k = Inr rs \<Longrightarrow> k \<le> length ls \<Longrightarrow> \<forall>r\<in>set rs. fst r \<le> length ls"
proof (induction chunks arbitrary: k rs)
  case (Cons c chunks)
  from Cons.prems(1) obtain k' where k': "context_index ls path c k = Inr k'" by (auto split: sum.splits)
  note kb = context_index_bound [OF k' Cons.prems(2)]
  show ?case
  proof (cases "old_lines c = []")
    case True
    with Cons.prems(1) k' obtain rs' where "chunk_loop ls path chunks k' = Inr rs'"
      "rs = (insertion_idx ls, 0, new_lines c) # rs'" by (auto simp: map_sum_def split: sum.splits)
    with Cons.IH kb show ?thesis by (simp add: insertion_idx_def)
  next
    case False
    with Cons.prems(1) k' obtain i n new rs' where p: "chunk_place ls c k' = Some (i, n, new)"
      "chunk_loop ls path chunks (i + n) = Inr rs'" "rs = (i, n, new) # rs'"
      by (auto simp: map_sum_def split: sum.splits option.splits)
    with Cons.IH chunk_place_bound [OF p(1)] kb show ?thesis by fastforce
  qed
qed simp

text \<open>
  Applying a parsed update never panics: for every file and every list of chunks, the engine
  either reports that a context or the old lines were not found or returns new contents.
\<close>

theorem derive_new_contents_total:
  "\<exists>r. derive_new_contents original path chunks = Some r"
proof (cases "chunk_loop (content_lines original) path chunks 0")
  case (Inr rs)
  have "\<forall>r\<in>set (sort_key fst rs). fst r \<le> length (content_lines original)"
    using chunk_loop_bound [OF Inr] by simp
  with apply_sorted_total [of "sort_key fst rs" "content_lines original"] show ?thesis
    by (auto simp: derive_new_contents_def compute_replacements_def apply_replacements_def Inr)
qed (simp add: derive_new_contents_def compute_replacements_def)

section \<open>What an update does\<close>

lemma matches_takes:
  "matches_at normalise ls pat i \<Longrightarrow> map normalise (take (length pat) (drop i ls)) = map normalise pat"
  by (simp add: matches_at_def)

text \<open>Chunks with old lines that are not pinned to the end of the file follow each other.\<close>

lemma chunk_loop_ordered:
  assumes "chunk_loop ls path chunks k = Inr rs" "k \<le> length ls"
    and "list_all (\<lambda>c. old_lines c \<noteq> [] \<and> \<not> is_end_of_file c) chunks"
  shows "ordered ls k rs \<and> list_all2 (\<lambda>c (i, n, new). \<exists>pat. n = length pat \<and> matches_at normalise ls pat i
    \<and> chunk_fit c pat new) chunks rs"
  using assms
proof (induction chunks arbitrary: k rs)
  case (Cons c chunks)
  from Cons.prems(1) obtain k' where k': "context_index ls path c k = Inr k'" by (auto split: sum.splits)
  note kb = context_index_bound [OF k' Cons.prems(2)]
  from Cons.prems(1,3) k' obtain i n new rs' where p: "chunk_place ls c k' = Some (i, n, new)"
      "chunk_loop ls path chunks (i + n) = Inr rs'" and rs: "rs = (i, n, new) # rs'"
    by (auto simp: map_sum_def split: sum.splits option.splits)
  from chunk_place_fit [OF p(1)] obtain pat where pat: "n = length pat"
    "seek_sequence ls pat k' (is_end_of_file c) = Some i" "chunk_fit c pat new" by blast
  have eof: "\<not> is_end_of_file c" using Cons.prems(3) by simp
  note bound = seek_sequence_bound [OF pat(2)] and len = chunk_place_bound [OF p(1)]
  have "ordered ls (i + n) rs' \<and> list_all2 (\<lambda>c (i, n, new). \<exists>pat. n = length pat \<and> matches_at normalise ls pat i
      \<and> chunk_fit c pat new) chunks rs'"
    using Cons.prems(3) kb by (intro Cons.IH p(2) len) simp_all
  with rs pat bound(2) [OF _ eof] bound(3) len kb show ?case by auto
qed simp

lemma rebuild_weave:
  "ordered ls cur rs \<Longrightarrow> \<exists>gaps. length gaps = Suc (length rs)
     \<and> drop cur ls = weave gaps (map (\<lambda>(i, n, new). take n (drop i ls)) rs)
     \<and> rebuild ls cur rs = weave gaps (map (\<lambda>(i, n, new). new) rs)"
proof (induction rs arbitrary: cur)
  case Nil
  show ?case by (intro exI [of _ "[drop cur ls]"]) simp
next
  case (Cons r rs)
  obtain i n new where r: "r = (i, n, new)" by (cases r)
  with Cons.prems have b: "cur \<le> i" "i + n \<le> length ls" "ordered ls (i + n) rs" by simp_all
  from Cons.IH [OF b(3)] obtain gaps where g: "length gaps = Suc (length rs)"
    "drop (i + n) ls = weave gaps (map (\<lambda>(i, n, new). take n (drop i ls)) rs)"
    "rebuild ls (i + n) rs = weave gaps (map (\<lambda>(i, n, new). new) rs)" by blast
  have "drop cur ls = drop cur (take i ls) @ take n (drop i ls) @ drop (i + n) ls"
  proof -
    have "drop cur ls = drop cur (take i ls @ drop i ls)" by simp
    also have "\<dots> = drop cur (take i ls) @ drop i ls"
      unfolding drop_append using b by (simp add: min_def)
    also have "drop i ls = take n (drop i ls) @ drop (i + n) ls"
      by (metis add.commute append_take_drop_id drop_drop)
    finally show ?thesis .
  qed
  with g show ?case by (intro exI [of _ "drop cur (take i ls) # gaps"]) (simp add: r)
qed


section \<open>Overlapping chunks\<close>

definition demo_chunk :: "string list \<Rightarrow> string list \<Rightarrow> bool \<Rightarrow> UpdateFileChunk" where
  "demo_chunk old new eof = \<lparr>change_context = None, old_lines = map lit old, new_lines = map lit new, is_end_of_file = eof\<rparr>"

text \<open>
  Replacements that overlap silently lose lines. An addition at the end of a file with a
  blank last line goes in front of that line; when another chunk replaces a block that
  ends with the blank line, the added line is removed in its place. And a chunk for the end
  of the file is sought there even when an earlier chunk has already replaced these lines:
  both are accepted and the new lines of the second are lost.
\<close>

theorem overlapping_chunks_lose_lines:
  "derive_new_contents (lit (''a'' @ [LF] @ [LF])) (lit ''f'') [demo_chunk [] [''x''] False, demo_chunk [''a'', []] [''b''] False]
     = Some (Inr (lit (''b'' @ [LF])))
   \<and> derive_new_contents (lit (''a'' @ [LF])) (lit ''f'') [demo_chunk [''a''] [''b'', ''c''] False, demo_chunk [''a''] [''d''] True]
     = Some (Inr (lit (''b'' @ [LF] @ ''c'' @ [LF])))"
  by code_simp


end
