(* ===== verification/Patch_Parser.thy ===== *)
theory Patch_Parser
  imports Patch_Apply
begin

text \<open>
  The parser of the patch format (\<^verbatim>\<open>codex/apply_patch/parser.rs\<close>). Line slices are lists, and a
  parser that reports how many lines it has consumed returns that number, as in the source.
\<close>

section \<open>Definitions\<close>

definition BEGIN_PATCH_MARKER :: ucs where "BEGIN_PATCH_MARKER = lit ''*** Begin Patch''"
definition END_PATCH_MARKER :: ucs where "END_PATCH_MARKER = lit ''*** End Patch''"
definition ADD_FILE_MARKER :: ucs where "ADD_FILE_MARKER = lit ''*** Add File: ''"
definition DELETE_FILE_MARKER :: ucs where "DELETE_FILE_MARKER = lit ''*** Delete File: ''"
definition UPDATE_FILE_MARKER :: ucs where "UPDATE_FILE_MARKER = lit ''*** Update File: ''"
definition MOVE_TO_MARKER :: ucs where "MOVE_TO_MARKER = lit ''*** Move to: ''"
definition EOF_MARKER :: ucs where "EOF_MARKER = lit ''*** End of File''"
definition CHANGE_CONTEXT_MARKER :: ucs where "CHANGE_CONTEXT_MARKER = lit ''@@ ''"
definition EMPTY_CHANGE_CONTEXT_MARKER :: ucs where "EMPTY_CHANGE_CONTEXT_MARKER = lit ''@@''"

definition PARSE_IN_STRICT_MODE :: bool where "PARSE_IN_STRICT_MODE = False"

datatype Hunk =
    AddFile ucs ucs
  | DeleteFile ucs
  | UpdateFile ucs "ucs option" "UpdateFileChunk list"

record ParsedPatch =
  hunks :: "Hunk list"
  patch :: ucs

datatype ParseMode = Strict | Lenient

definition check_start_and_end_lines_strict :: "ucs option \<Rightarrow> ucs option \<Rightarrow> ParseError + unit" where
  "check_start_and_end_lines_strict first_line last_line =
     (let f = map_option utrim first_line; l = map_option utrim last_line
      in if f = Some BEGIN_PATCH_MARKER \<and> l = Some END_PATCH_MARKER then Inr ()
         else if f \<noteq> None \<and> f \<noteq> Some BEGIN_PATCH_MARKER
         then Inl (InvalidPatchError (lit ''The first line of the patch must be '' @ [0x27] @ BEGIN_PATCH_MARKER @ [0x27]))
         else Inl (InvalidPatchError (lit ''The last line of the patch must be '' @ [0x27] @ END_PATCH_MARKER @ [0x27])))"

definition check_patch_boundaries_strict :: "ucs list \<Rightarrow> ParseError + unit" where
  "check_patch_boundaries_strict ls =
     (if ls = [] then check_start_and_end_lines_strict None None
      else check_start_and_end_lines_strict (Some (hd ls)) (Some (last ls)))"

definition check_patch_boundaries_lenient :: "ucs list \<Rightarrow> ParseError \<Rightarrow> ParseError + ucs list" where
  "check_patch_boundaries_lenient ls original_parse_error =
     (if 2 \<le> length ls
         \<and> hd ls \<in> set [lit ''<<EOF'', lit ''<<'' @ [0x27] @ lit ''EOF'' @ [0x27], lit ''<<'' @ [0x22] @ lit ''EOF'' @ [0x22]]
         \<and> ends_with (last ls) (lit ''EOF'') \<and> 4 \<le> length ls
      then let inner_lines = butlast (tl ls)
           in (case check_patch_boundaries_strict inner_lines of Inr _ \<Rightarrow> Inr inner_lines | Inl e \<Rightarrow> Inl e)
      else Inl original_parse_error)"

text \<open>The lines of a chunk; \<open>n\<close> counts the lines read so far.\<close>

definition no_lines :: ucs where
  "no_lines = lit ''Update hunk does not contain any lines''"

fun chunk_lines :: "nat \<Rightarrow> ucs list \<Rightarrow> nat \<Rightarrow> UpdateFileChunk \<Rightarrow> ParseError + (UpdateFileChunk \<times> nat)" where
  "chunk_lines line_number [] n chunk = Inr (chunk, n)"
| "chunk_lines line_number (l # ls) n chunk =
     (if l = EOF_MARKER
      then (if n = 0 then Inl (InvalidHunkError no_lines (line_number + 1))
            else Inr (chunk\<lparr>is_end_of_file := True\<rparr>, n + 1))
      else case l of
             [] \<Rightarrow> chunk_lines line_number ls (n + 1)
                    (chunk\<lparr>old_lines := old_lines chunk @ [[]], new_lines := new_lines chunk @ [[]]\<rparr>)
           | c # t \<Rightarrow>
               (if c = 0x20
                then chunk_lines line_number ls (n + 1)
                       (chunk\<lparr>old_lines := old_lines chunk @ [t], new_lines := new_lines chunk @ [t]\<rparr>)
                else if c = 0x2B
                then chunk_lines line_number ls (n + 1) (chunk\<lparr>new_lines := new_lines chunk @ [t]\<rparr>)
                else if c = 0x2D
                then chunk_lines line_number ls (n + 1) (chunk\<lparr>old_lines := old_lines chunk @ [t]\<rparr>)
                else if n = 0
                then Inl (InvalidHunkError (lit ''Unexpected line found in update hunk: '' @ [0x27] @ l @ [0x27] @
                       lit ''. Every line should start with '' @ [0x27, 0x20, 0x27] @ lit '' (context line), '' @
                       [0x27, 0x2B, 0x27] @ lit '' (added line), or '' @ [0x27, 0x2D, 0x27] @ lit '' (removed line)'')
                       (line_number + 1))
                else Inr (chunk, n)))"

text \<open>The context marker of a chunk and the index of its first line.\<close>

definition chunk_context :: "ucs \<Rightarrow> nat \<Rightarrow> bool \<Rightarrow> ParseError + (ucs option \<times> nat)" where
  "chunk_context l line_number allow_missing_context =
     (if l = EMPTY_CHANGE_CONTEXT_MARKER then Inr (None, 1)
      else case strip_prefix l CHANGE_CONTEXT_MARKER of
             Some ctx \<Rightarrow> Inr (Some ctx, 1)
           | None \<Rightarrow>
               (if \<not> allow_missing_context
                then Inl (InvalidHunkError (lit ''Expected update hunk to start with a @@ context marker, got: '' @
                       [0x27] @ l @ [0x27]) line_number)
                else Inr (None, 0)))"

definition parse_update_file_chunk :: "ucs list \<Rightarrow> nat \<Rightarrow> bool \<Rightarrow> ParseError + (UpdateFileChunk \<times> nat)" where
  "parse_update_file_chunk ls line_number allow_missing_context =
     (if ls = [] then Inl (InvalidHunkError no_lines line_number)
      else case chunk_context (hd ls) line_number allow_missing_context of
             Inl e \<Rightarrow> Inl e
           | Inr (ctx, start_index) \<Rightarrow>
               (if length ls \<le> start_index then Inl (InvalidHunkError no_lines (line_number + 1))
                else map_sum id (\<lambda>(chunk, n). (chunk, n + start_index))
                       (chunk_lines line_number (drop start_index ls) 0
                          \<lparr>change_context = ctx, old_lines = [], new_lines = [], is_end_of_file = False\<rparr>)))"

lemma chunk_context_index: "chunk_context l line_number allow = Inr (ctx, s) \<Longrightarrow> s \<le> 1"
  by (auto simp: chunk_context_def split: if_splits option.splits)

lemma chunk_lines_count: "chunk_lines line_number ls n chunk = Inr (c, k) \<Longrightarrow> n \<le> k \<and> k \<le> n + length ls"
proof (induction ls arbitrary: n chunk)
  case (Cons l ls)
  then show ?case by (fastforce split: if_splits list.splits)
qed simp

lemma chunk_lines_progress:
  assumes "chunk_lines line_number ls 0 chunk = Inr (c, k)" "ls \<noteq> []"
  shows "0 < k"
proof (cases ls)
  case (Cons l ls')
  with assms(1) show ?thesis
    by (auto split: if_splits list.splits dest!: chunk_lines_count)
qed (use assms in simp)

lemma chunk_consumes:
  assumes "parse_update_file_chunk ls line_number allow = Inr (c, k)"
  shows "0 < k \<and> k \<le> length ls"
proof -
  from assms obtain ctx s where c: "chunk_context (hd ls) line_number allow = Inr (ctx, s)" "s < length ls"
    by (auto simp: parse_update_file_chunk_def split: if_splits sum.splits)
  let ?c = "\<lparr>change_context = ctx, old_lines = [], new_lines = [], is_end_of_file = False\<rparr>"
  have "ls \<noteq> []" using c(2) by auto
  with assms c obtain n where n: "chunk_lines line_number (drop s ls) 0 ?c = Inr (c, n)" and k: "k = n + s"
    by (cases "chunk_lines line_number (drop s ls) 0 ?c") (auto simp: parse_update_file_chunk_def)
  from chunk_lines_progress [OF n] chunk_lines_count [OF n] c(2) k show ?thesis by simp
qed

function update_loop :: "ucs list \<Rightarrow> nat \<Rightarrow> nat \<Rightarrow> UpdateFileChunk list \<Rightarrow> ParseError + (UpdateFileChunk list \<times> nat)" where
  "update_loop ls line_number parsed_lines chunks =
     (if ls = [] then Inr (chunks, parsed_lines)
      else if utrim (hd ls) = [] then update_loop (tl ls) line_number (parsed_lines + 1) chunks
      else if starts_with (hd ls) (lit ''***'') then Inr (chunks, parsed_lines)
      else case parse_update_file_chunk ls (line_number + parsed_lines) (chunks = []) of
             Inl e \<Rightarrow> Inl e
           | Inr (chunk, n) \<Rightarrow> update_loop (drop n ls) line_number (parsed_lines + n) (chunks @ [chunk]))"
  by pat_completeness auto
termination
  by (relation "measure (\<lambda>(ls, _). length ls)") (auto dest: chunk_consumes)

declare update_loop.simps [simp del]

definition add_lines :: "ucs list \<Rightarrow> ucs list" where
  "add_lines ls = takeWhile (\<lambda>l. starts_with l [0x2B]) ls"

definition parse_one_hunk :: "ucs list \<Rightarrow> nat \<Rightarrow> ParseError + (Hunk \<times> nat)" where
  "parse_one_hunk ls line_number =
     (let first_line = utrim (hd ls)
      in case strip_prefix first_line ADD_FILE_MARKER of
           Some path \<Rightarrow> Inr (AddFile path (end_lines ulf (map tl (add_lines (tl ls)))), 1 + length (add_lines (tl ls)))
         | None \<Rightarrow>
      (case strip_prefix first_line DELETE_FILE_MARKER of
           Some path \<Rightarrow> Inr (DeleteFile path, 1)
         | None \<Rightarrow>
      (case strip_prefix first_line UPDATE_FILE_MARKER of
           Some path \<Rightarrow>
             (let move_path = (if tl ls = [] then None else strip_prefix (hd (tl ls)) MOVE_TO_MARKER);
                  k = (if move_path = None then 1 else 2)
              in case update_loop (drop k ls) line_number k [] of
                   Inl e \<Rightarrow> Inl e
                 | Inr (chunks, parsed_lines) \<Rightarrow>
                     (if chunks = []
                      then Inl (InvalidHunkError (lit ''Update file hunk for path '' @ [0x27] @ path @ [0x27] @ lit '' is empty'') line_number)
                      else Inr (UpdateFile path move_path chunks, parsed_lines)))
         | None \<Rightarrow>
             Inl (InvalidHunkError ([0x27] @ first_line @ [0x27] @ lit '' is not a valid hunk header. Valid hunk headers: '' @
               [0x27] @ lit ''*** Add File: {path}'' @ [0x27] @ lit '', '' @ [0x27] @ lit ''*** Delete File: {path}'' @ [0x27] @
               lit '', '' @ [0x27] @ lit ''*** Update File: {path}'' @ [0x27]) line_number))))"

lemma update_loop_count: "update_loop ls line_number k chunks = Inr (cs, n) \<Longrightarrow> k \<le> n"
proof (induction ls line_number k chunks rule: update_loop.induct)
  case (1 ls line_number k chunks)
  note IH = 1(1,2)
  show ?case
  proof (cases "ls = [] \<or> utrim (hd ls) = [] \<or> starts_with (hd ls) (lit ''***'')")
    case True
    with 1(3) IH(1) show ?thesis by (auto simp: update_loop.simps [of ls] split: if_splits)
  next
    case False
    with 1(3) obtain c m where c: "parse_update_file_chunk ls (line_number + k) (chunks = []) = Inr (c, m)"
      "update_loop (drop m ls) line_number (k + m) (chunks @ [c]) = Inr (cs, n)"
      by (auto simp: update_loop.simps [of ls] split: sum.splits)
    from False have "k + m \<le> n" by (intro IH(2) [OF _ _ _ c(1) refl c(2)]) simp_all
    then show ?thesis by simp
  qed
qed

lemma hunk_consumes: "parse_one_hunk ls line_number = Inr (h, n) \<Longrightarrow> 0 < n"
  by (auto simp: parse_one_hunk_def Let_def split: option.splits sum.splits if_splits dest!: update_loop_count)

function hunk_loop :: "ucs list \<Rightarrow> nat \<Rightarrow> ParseError + Hunk list" where
  "hunk_loop ls line_number =
     (if ls = [] then Inr []
      else case parse_one_hunk ls line_number of
             Inl e \<Rightarrow> Inl e
           | Inr (h, n) \<Rightarrow> map_sum id (\<lambda>hs. h # hs) (hunk_loop (drop n ls) (line_number + n)))"
  by pat_completeness auto
termination
  by (relation "measure (\<lambda>(ls, _). length ls)") (auto dest: hunk_consumes)

declare hunk_loop.simps [simp del]

definition parse_patch_text :: "ucs \<Rightarrow> ParseMode \<Rightarrow> ParseError + ParsedPatch" where
  "parse_patch_text text mode =
     (let ls = ulines (utrim text)
      in case (case check_patch_boundaries_strict ls of
                 Inr _ \<Rightarrow> Inr ls
               | Inl e \<Rightarrow> (case mode of Strict \<Rightarrow> Inl e | Lenient \<Rightarrow> check_patch_boundaries_lenient ls e)) of
           Inl e \<Rightarrow> Inl e
         | Inr ls \<Rightarrow>
             map_sum id (\<lambda>hs. \<lparr>hunks = hs, patch = join_with [ulf] ls\<rparr>)
               (hunk_loop (drop 1 (take (length ls - 1) ls)) 2))"

definition parse_codex_patch :: "ucs \<Rightarrow> ParseError + ParsedPatch" where
  "parse_codex_patch text = parse_patch_text text (if PARSE_IN_STRICT_MODE then Strict else Lenient)"

section \<open>Printing\<close>

text \<open>
  A patch to be printed: files to add with their lines, files to delete, and files to update
  with the edits of each chunk, line by line.
\<close>

datatype edit = EContext ucs | EAdd ucs | ERemove ucs

type_synonym edit_chunk = "ucs option \<times> edit list \<times> bool"

datatype file_op = OpAdd ucs "ucs list" | OpDelete ucs | OpUpdate ucs "ucs option" "edit_chunk list"

fun print_edit :: "edit \<Rightarrow> ucs" where
  "print_edit (EContext t) = 0x20 # t"
| "print_edit (EAdd t) = 0x2B # t"
| "print_edit (ERemove t) = 0x2D # t"

definition context_line :: "ucs option \<Rightarrow> ucs" where
  "context_line ctx =
     (case ctx of None \<Rightarrow> EMPTY_CHANGE_CONTEXT_MARKER | Some c \<Rightarrow> CHANGE_CONTEXT_MARKER @ c)"

fun print_chunk :: "edit_chunk \<Rightarrow> ucs list" where
  "print_chunk (ctx, edits, eof) = context_line ctx # map print_edit edits @ (if eof then [EOF_MARKER] else [])"

fun print_op :: "file_op \<Rightarrow> ucs list" where
  "print_op (OpAdd path ls) = (ADD_FILE_MARKER @ path) # map (\<lambda>l. 0x2B # l) ls"
| "print_op (OpDelete path) = [DELETE_FILE_MARKER @ path]"
| "print_op (OpUpdate path mv chunks) =
     (UPDATE_FILE_MARKER @ path) # (case mv of None \<Rightarrow> [] | Some p \<Rightarrow> [MOVE_TO_MARKER @ p]) @ concat (map print_chunk chunks)"

definition print_ops :: "file_op list \<Rightarrow> ucs" where
  "print_ops ops = end_lines ulf (BEGIN_PATCH_MARKER # concat (map print_op ops)) @ END_PATCH_MARKER"

text \<open>What the printed forms stand for.\<close>

fun edit_old :: "edit \<Rightarrow> ucs list" where
  "edit_old (EContext t) = [t]" | "edit_old (EAdd t) = []" | "edit_old (ERemove t) = [t]"

fun edit_new :: "edit \<Rightarrow> ucs list" where
  "edit_new (EContext t) = [t]" | "edit_new (EAdd t) = [t]" | "edit_new (ERemove t) = []"

fun chunk_of :: "edit_chunk \<Rightarrow> UpdateFileChunk" where
  "chunk_of (ctx, edits, eof) = \<lparr>change_context = ctx, old_lines = concat (map edit_old edits),
     new_lines = concat (map edit_new edits), is_end_of_file = eof\<rparr>"

fun hunk_of :: "file_op \<Rightarrow> Hunk" where
  "hunk_of (OpAdd path ls) = AddFile path (end_lines ulf ls)"
| "hunk_of (OpDelete path) = DeleteFile path"
| "hunk_of (OpUpdate path mv chunks) = UpdateFile path mv (map chunk_of chunks)"

definition path_ok :: "ucs \<Rightarrow> bool" where
  "path_ok path \<longleftrightarrow> path \<noteq> [] \<and> \<not> uspace (last path)"

fun chunk_ok :: "edit_chunk \<Rightarrow> bool" where
  "chunk_ok (ctx, edits, eof) \<longleftrightarrow> edits \<noteq> []"

fun op_ok :: "file_op \<Rightarrow> bool" where
  "op_ok (OpAdd path ls) \<longleftrightarrow> path_ok path"
| "op_ok (OpDelete path) \<longleftrightarrow> path_ok path"
| "op_ok (OpUpdate path mv chunks) \<longleftrightarrow> path_ok path \<and> chunks \<noteq> [] \<and> list_all chunk_ok chunks"

definition one_line :: "ucs \<Rightarrow> bool" where
  "one_line l \<longleftrightarrow> plain_for ulf ucr l"

definition ops_ok :: "file_op list \<Rightarrow> bool" where
  "ops_ok ops \<longleftrightarrow> list_all op_ok ops \<and> list_all (\<lambda>op. list_all one_line (print_op op)) ops"

section \<open>Parsing undoes printing\<close>

lemmas markers = BEGIN_PATCH_MARKER_def END_PATCH_MARKER_def ADD_FILE_MARKER_def DELETE_FILE_MARKER_def
  UPDATE_FILE_MARKER_def MOVE_TO_MARKER_def EOF_MARKER_def CHANGE_CONTEXT_MARKER_def EMPTY_CHANGE_CONTEXT_MARKER_def

lemma utrim_solid:
  "s \<noteq> [] \<Longrightarrow> \<not> uspace (hd s) \<Longrightarrow> \<not> uspace (last s) \<Longrightarrow> utrim s = s"
  by (simp add: utrim_def utrim_end_def trim_end_pred_def dropWhile_hd hd_rev)

text \<open>Lines that end a chunk: the next chunk and the next file begin with such a line.\<close>

definition ends_chunk :: "ucs list \<Rightarrow> bool" where
  "ends_chunk ls \<longleftrightarrow> ls = [] \<or> hd ls \<noteq> [] \<and> hd (hd ls) \<notin> {0x20, 0x2B, 0x2D} \<and> hd ls \<noteq> EOF_MARKER"

lemma print_edit_not_eof: "print_edit e \<noteq> EOF_MARKER"
  by (cases e) (simp_all add: markers lit_def)

lemma chunk_lines_stop:
  "ends_chunk ls \<Longrightarrow> 0 < n \<Longrightarrow> chunk_lines line_number ls n chunk = Inr (chunk, n)"
  by (cases ls) (auto simp: ends_chunk_def split: list.split)

lemma chunk_lines_edits:
  "edits \<noteq> [] \<or> 0 < n \<Longrightarrow> ends_chunk rest \<Longrightarrow>
   chunk_lines line_number (map print_edit edits @ (if eof then [EOF_MARKER] else []) @ rest) n chunk =
     Inr (chunk\<lparr>old_lines := old_lines chunk @ concat (map edit_old edits),
                new_lines := new_lines chunk @ concat (map edit_new edits),
                is_end_of_file := eof \<or> is_end_of_file chunk\<rparr>, n + length edits + (if eof then 1 else 0))"
proof (induction edits arbitrary: n chunk)
  case Nil
  then show ?case by (simp add: chunk_lines_stop)
next
  case (Cons e edits)
  have IH: "chunk_lines line_number (map print_edit edits @ (if eof then [EOF_MARKER] else []) @ rest) (Suc n) c =
     Inr (c\<lparr>old_lines := old_lines c @ concat (map edit_old edits),
            new_lines := new_lines c @ concat (map edit_new edits),
            is_end_of_file := eof \<or> is_end_of_file c\<rparr>, Suc n + length edits + (if eof then 1 else 0))" for c
    using Cons.prems(2) by (intro Cons.IH) simp
  show ?case
    using print_edit_not_eof [of e] by (cases e) (simp_all add: IH)
qed

lemma parse_print_chunk:
  assumes "chunk_ok c" "ends_chunk rest"
  shows "parse_update_file_chunk (print_chunk c @ rest) line_number allow = Inr (chunk_of c, length (print_chunk c))"
proof -
  obtain ctx edits eof where c: "c = (ctx, edits, eof)" by (cases c)
  have "chunk_context (context_line ctx) line_number allow = Inr (ctx, 1)"
    by (auto simp: chunk_context_def context_line_def markers lit_def split: option.split)
  moreover have "edits \<noteq> []" using assms(1) c by simp
  ultimately show ?thesis
    using chunk_lines_edits [of edits 0 rest line_number eof
        "\<lparr>change_context = ctx, old_lines = [], new_lines = [], is_end_of_file = False\<rparr>"] assms(2)
    by (simp add: parse_update_file_chunk_def c)
qed

text \<open>A line that starts the next file, or the end of the patch.\<close>

definition ends_file :: "ucs list \<Rightarrow> bool" where
  "ends_file ls \<longleftrightarrow> ls = [] \<or> starts_with (hd ls) (lit ''*** '') \<and> hd ls \<noteq> EOF_MARKER"

lemma starts_star: "starts_with l (lit ''*** '') \<Longrightarrow> \<exists>t. l = 0x2A # 0x2A # 0x2A # 0x20 # t"
  by (auto simp: lit_def elim!: starts_with.elims)

lemma ends_file_ends_chunk: "ends_file ls \<Longrightarrow> ends_chunk ls"
  by (auto simp: ends_file_def ends_chunk_def dest!: starts_star)

lemma utrim_starts: "\<not> uspace c \<Longrightarrow> utrim (c # s) \<noteq> []"
  by (auto simp: utrim_def utrim_end_def trim_end_pred_def dropWhile_append)

lemma chunk_head: "\<exists>t. context_line ctx = 0x40 # 0x40 # t"
  by (simp add: context_line_def markers lit_def split: option.split)

lemma chunks_ends_chunk: "ends_file rest \<Longrightarrow> ends_chunk (concat (map print_chunk cs) @ rest)"
proof (cases cs)
  case (Cons c cs')
  obtain ctx edits eof where "c = (ctx, edits, eof)" by (cases c)
  with Cons chunk_head [of ctx] show ?thesis by (auto simp: ends_chunk_def markers lit_def)
qed (simp add: ends_file_ends_chunk)

lemma update_loop_print:
  "list_all chunk_ok cs \<Longrightarrow> ends_file rest \<Longrightarrow>
   update_loop (concat (map print_chunk cs) @ rest) line_number k acc =
     Inr (acc @ map chunk_of cs, k + length (concat (map print_chunk cs)))"
proof (induction cs arbitrary: k acc)
  case Nil
  show ?case
  proof (cases rest)
    case (Cons l ls)
    with Nil obtain t where "l = 0x2A # 0x2A # 0x2A # 0x20 # t" by (auto simp: ends_file_def dest!: starts_star)
    with Cons show ?thesis
      by (subst update_loop.simps) (simp add: utrim_starts uspace_def lit_def)
  qed (simp add: update_loop.simps)
next
  case (Cons c cs)
  obtain ctx edits eof where c: "c = (ctx, edits, eof)" by (cases c)
  obtain t where t: "context_line ctx = 0x40 # 0x40 # t" using chunk_head by blast
  let ?rest = "concat (map print_chunk cs) @ rest"
  have "utrim (context_line ctx) \<noteq> []" "\<not> starts_with (context_line ctx) (lit ''***'')"
    unfolding t by (auto simp: utrim_starts uspace_def lit_def)
  moreover have "parse_update_file_chunk (print_chunk c @ ?rest) (line_number + k) (acc = []) = Inr (chunk_of c, length (print_chunk c))"
    using Cons.prems chunks_ends_chunk by (intro parse_print_chunk) simp_all
  ultimately have "update_loop (print_chunk c @ ?rest) line_number k acc =
      update_loop ?rest line_number (k + length (print_chunk c)) (acc @ [chunk_of c])"
    by (subst update_loop.simps) (simp add: c)
  with Cons.IH [of "k + length (print_chunk c)" "acc @ [chunk_of c]"] Cons.prems show ?case by simp
qed

lemma marker_trim:
  assumes "path_ok path" "m \<in> {ADD_FILE_MARKER, DELETE_FILE_MARKER, UPDATE_FILE_MARKER}"
  shows "utrim (m @ path) = m @ path"
proof (rule utrim_solid)
  have m: "m \<noteq> []" "hd m = 0x2A" using assms(2) by (auto simp: markers lit_def)
  show "m @ path \<noteq> []" using m by simp
  show "\<not> uspace (hd (m @ path))" using m by (simp add: uspace_def)
  show "\<not> uspace (last (m @ path))" using assms(1) by (simp add: path_ok_def)
qed

lemma strip_prefix_append [simp]: "strip_prefix (p @ s) p = Some s"
  by (simp add: strip_prefix_Some)

lemma marker_other [simp]:
  "strip_prefix (DELETE_FILE_MARKER @ p) ADD_FILE_MARKER = None"
  "strip_prefix (UPDATE_FILE_MARKER @ p) ADD_FILE_MARKER = None"
  "strip_prefix (UPDATE_FILE_MARKER @ p) DELETE_FILE_MARKER = None"
  by (simp_all add: markers lit_def)

lemma parse_print_op:
  assumes "op_ok op" "ends_file rest"
  shows "parse_one_hunk (print_op op @ rest) line_number = Inr (hunk_of op, length (print_op op))"
proof (cases op)
  case (OpAdd path ls)
  have "add_lines (map (\<lambda>l. 0x2B # l) ls @ rest) = map (\<lambda>l. 0x2B # l) ls"
    unfolding add_lines_def
    using assms(2) by (induction ls; cases rest) (auto simp: ends_file_def dest!: starts_star)
  then show ?thesis
    using assms(1) marker_trim [of path ADD_FILE_MARKER] by (simp add: OpAdd parse_one_hunk_def comp_def Let_def)
next
  case (OpDelete path)
  then show ?thesis
    using assms(1) marker_trim [of path DELETE_FILE_MARKER]
    by (simp add: parse_one_hunk_def Let_def)
next
  case (OpUpdate path mv cs)
  then have ok: "path_ok path" "cs \<noteq> []" "list_all chunk_ok cs" using assms(1) by simp_all
  then obtain ctx edits eof cs' where cs: "cs = (ctx, edits, eof) # cs'" by (cases cs) auto
  obtain t where t: "context_line ctx = 0x40 # 0x40 # t" using chunk_head by blast
  have no: "strip_prefix (context_line ctx) MOVE_TO_MARKER = None"
    unfolding t by (simp add: markers lit_def)
  show ?thesis
  proof (cases mv)
    case None
    then show ?thesis
      using ok no update_loop_print [OF ok(3) assms(2), of line_number 1 "[]"] marker_trim [of path UPDATE_FILE_MARKER]
      by (simp add: OpUpdate parse_one_hunk_def cs Let_def)
  next
    case (Some p)
    then show ?thesis
      using ok no update_loop_print [OF ok(3) assms(2), of line_number 2 "[]"] marker_trim [of path UPDATE_FILE_MARKER]
      by (simp add: OpUpdate parse_one_hunk_def Let_def)
  qed
qed

lemma op_starts: "list_all op_ok ops \<Longrightarrow> ends_file (concat (map print_op ops))"
proof (cases ops)
  case (Cons op ops')
  then show ?thesis by (cases op) (auto simp: ends_file_def markers lit_def)
qed (simp add: ends_file_def)

lemma hunk_loop_print:
  "list_all op_ok ops \<Longrightarrow> hunk_loop (concat (map print_op ops)) line_number = Inr (map hunk_of ops)"
proof (induction ops arbitrary: line_number)
  case (Cons op ops)
  have "print_op op \<noteq> []" by (cases op) simp_all
  moreover have "parse_one_hunk (print_op op @ concat (map print_op ops)) line_number = Inr (hunk_of op, length (print_op op))"
    using Cons.prems by (intro parse_print_op op_starts) simp_all
  ultimately show ?case using Cons by (subst hunk_loop.simps) simp
qed (simp add: hunk_loop.simps)

lemma parse_printed:
  assumes "ops_ok ops"
  shows "map_sum id hunks (parse_codex_patch (print_ops ops)) = Inr (map hunk_of ops)"
proof -
  let ?body = "concat (map print_op ops)"
  have ends: "plain_for ulf ucr BEGIN_PATCH_MARKER" "ulf \<notin> set END_PATCH_MARKER" "END_PATCH_MARKER \<noteq> []"
      "utrim BEGIN_PATCH_MARKER = BEGIN_PATCH_MARKER" "utrim END_PATCH_MARKER = END_PATCH_MARKER"
    by code_simp+
  have "list_all (plain_for ulf ucr) (BEGIN_PATCH_MARKER # ?body)"
    using assms ends(1) by (auto simp: ops_ok_def one_line_def list_all_iff)
  then have "ulines (print_ops ops) = (BEGIN_PATCH_MARKER # ?body) @ [END_PATCH_MARKER]"
    unfolding print_ops_def by (rule split_lines_open) (rule ends)+
  moreover have "utrim (print_ops ops) = print_ops ops"
    by (rule utrim_solid) (simp_all add: print_ops_def end_lines_def markers lit_def uspace_def)
  moreover have "hunk_loop ?body 2 = Inr (map hunk_of ops)"
    using assms by (intro hunk_loop_print) (simp add: ops_ok_def)
  ultimately show ?thesis
    using ends(4,5)
    by (simp add: parse_codex_patch_def PARSE_IN_STRICT_MODE_def parse_patch_text_def Let_def
        check_patch_boundaries_strict_def check_start_and_end_lines_strict_def)
qed

text \<open>
  C36. Parsing undoes printing: any list of file operations whose paths do not end in white space,
  whose updates have a chunk and whose chunks have a line, and which contains no line
  breaks, printed as a patch, parses to these operations, with the old and new lines of
  every chunk taken from its edits.
\<close>

theorem parse_print_ops:
  assumes "ops_ok ops"
  shows "map_sum id hunks (parse_codex_patch (print_ops ops)) = Inr (map hunk_of ops)"
  using assms by (rule parse_printed)

definition demo_ops :: "file_op list" where
  "demo_ops = [OpAdd (lit ''a.txt'') [lit ''one''], OpDelete (lit ''b.txt''),
     OpUpdate (lit ''c.txt'') (Some (lit ''d.txt'')) [(None, [EContext (lit ''x''), ERemove (lit ''y''), EAdd (lit ''z'')], True)]]"

theorem parse_print_ops_witness:
  "map_sum id hunks (parse_codex_patch (print_ops demo_ops)) =
     Inr [AddFile (lit ''a.txt'') (lit (''one'' @ [LF])), DeleteFile (lit ''b.txt''),
          UpdateFile (lit ''c.txt'') (Some (lit ''d.txt''))
            [\<lparr>change_context = None, old_lines = [lit ''x'', lit ''y''], new_lines = [lit ''x'', lit ''z''], is_end_of_file = True\<rparr>]]"
proof -
  have "ops_ok demo_ops" by code_simp
  from parse_print_ops [OF this] show ?thesis by (simp add: demo_ops_def end_lines_def lit_def)
qed

end
