(* ===== verification/Patch_Tool.thy ===== *)
theory Patch_Tool
  imports Patch_Parser
begin

text \<open>
  The \<^verbatim>\<open>apply_patch\<close> tool (\<^verbatim>\<open>codex/apply_patch/tool.rs\<close>): parse, compute all changes from the
  files, then write them one by one. The file system is a map from absolute paths to
  contents as text; a missing file is the only input/output error, with the message of the
  file system as a parameter. Creating parent directories is not modelled.
\<close>

section \<open>Definitions\<close>

type_synonym files = "ucs \<rightharpoonup> ucs"

datatype FileChange =
    FileAdd ucs ucs
  | FileDelete ucs ucs
  | FileUpdate ucs ucs ucs
  | FileMove ucs ucs ucs ucs

record FileWritten =
  tool_call_id :: ucs
  absolute_path :: ucs
  content :: ucs
  previous_content :: "ucs option"
  is_new_file :: bool

record ApplyPatchFileResult =
  r_path :: ucs
  r_action :: string
  r_old_text :: "ucs option"
  r_new_text :: ucs
  r_move_to :: "ucs option"

datatype ApplyPatchOutput =
    ParseFailure ucs
  | EmptyPatch ucs
  | ApplicationError ucs
  | Success "ApplyPatchFileResult list" ucs

text \<open>\<^verbatim>\<open>Path::join\<close> on Unix.\<close>

definition join_path :: "ucs \<Rightarrow> ucs \<Rightarrow> ucs" where
  "join_path cwd p =
     (if starts_with p [0x2F] \<or> cwd = [] then p
      else if last cwd = 0x2F then cwd @ p else cwd @ [0x2F] @ p)"

definition read_file_as_string :: "ucs \<Rightarrow> files \<Rightarrow> ucs \<Rightarrow> ucs + ucs" where
  "read_file_as_string enoent fs path = (case fs path of None \<Rightarrow> Inl enoent | Some c \<Rightarrow> Inr c)"

text \<open>The change of one hunk; \<open>derive_new_contents\<close> never panics, so its \<open>None\<close> is not reached.\<close>

fun compute_change :: "ucs \<Rightarrow> ucs \<Rightarrow> files \<Rightarrow> Hunk \<Rightarrow> ucs + FileChange" where
  "compute_change enoent cwd fs (AddFile path contents) = Inr (FileAdd (join_path cwd path) contents)"
| "compute_change enoent cwd fs (DeleteFile path) =
     (let resolved = join_path cwd path
      in case read_file_as_string enoent fs resolved of
           Inl e \<Rightarrow> Inl (lit ''Failed to read file: '' @ resolved @ lit '', '' @ e)
         | Inr original \<Rightarrow> Inr (FileDelete resolved original))"
| "compute_change enoent cwd fs (UpdateFile path mv chunks) =
     (let resolved = join_path cwd path
      in case read_file_as_string enoent fs resolved of
           Inl e \<Rightarrow> Inl (lit ''Failed to read file to update: '' @ resolved @ lit '', '' @ e)
         | Inr original \<Rightarrow>
             (case derive_new_contents original resolved chunks of
                None \<Rightarrow> Inl []
              | Some (Inl (ComputeReplacements msg)) \<Rightarrow> Inl msg
              | Some (Inl other) \<Rightarrow> Inl (show_apply_error other)
              | Some (Inr new_content) \<Rightarrow>
                  (case mv of
                     Some dest \<Rightarrow> Inr (FileMove resolved (join_path cwd dest) original new_content)
                   | None \<Rightarrow> Inr (FileUpdate resolved original new_content))))"

fun compute_all_changes :: "ucs \<Rightarrow> ucs \<Rightarrow> files \<Rightarrow> Hunk list \<Rightarrow> ucs + FileChange list" where
  "compute_all_changes enoent cwd fs [] = Inr []"
| "compute_all_changes enoent cwd fs (h # hs) =
     (case compute_change enoent cwd fs h of
        Inl e \<Rightarrow> Inl e
      | Inr c \<Rightarrow> map_sum id (\<lambda>cs. c # cs) (compute_all_changes enoent cwd fs hs))"

definition delete_file :: "ucs \<Rightarrow> ucs \<Rightarrow> files \<Rightarrow> ucs + files" where
  "delete_file enoent path fs = (if fs path = None then Inl enoent else Inr (fs(path := None)))"

text \<open>
  Writing one change: the files afterwards and, when it succeeded, the notifications and the result.
\<close>

fun write_change :: "ucs \<Rightarrow> ucs \<Rightarrow> FileChange \<Rightarrow> files \<Rightarrow> files \<times> (ucs + FileWritten list \<times> ApplyPatchFileResult)" where
  "write_change enoent call (FileAdd path c) fs =
     (fs(path \<mapsto> c),
      Inr ([\<lparr>tool_call_id = call, absolute_path = path, content = c, previous_content = None, is_new_file = True\<rparr>],
           \<lparr>r_path = path, r_action = ''added'', r_old_text = None, r_new_text = c, r_move_to = None\<rparr>))"
| "write_change enoent call (FileDelete path original) fs =
     (case delete_file enoent path fs of
        Inl e \<Rightarrow> (fs, Inl e)
      | Inr fs \<Rightarrow>
          (fs, Inr ([\<lparr>tool_call_id = call, absolute_path = path, content = [], previous_content = Some original, is_new_file = False\<rparr>],
                    \<lparr>r_path = path, r_action = ''deleted'', r_old_text = Some original, r_new_text = [], r_move_to = None\<rparr>)))"
| "write_change enoent call (FileUpdate path original new_content) fs =
     (fs(path \<mapsto> new_content),
      Inr ([\<lparr>tool_call_id = call, absolute_path = path, content = new_content, previous_content = Some original, is_new_file = False\<rparr>],
           \<lparr>r_path = path, r_action = ''modified'', r_old_text = Some original, r_new_text = new_content, r_move_to = None\<rparr>))"
| "write_change enoent call (FileMove source_path dest_path original new_content) fs =
     (let fs = fs(dest_path \<mapsto> new_content)
      in case delete_file enoent source_path fs of
           Inl e \<Rightarrow> (fs, Inl e)
         | Inr fs \<Rightarrow>
             (fs, Inr ([\<lparr>tool_call_id = call, absolute_path = dest_path, content = new_content, previous_content = None, is_new_file = True\<rparr>,
                        \<lparr>tool_call_id = call, absolute_path = source_path, content = [], previous_content = Some original, is_new_file = False\<rparr>],
                       \<lparr>r_path = source_path, r_action = ''moved'', r_old_text = Some original,
                         r_new_text = new_content, r_move_to = Some dest_path\<rparr>)))"

fun write_changes :: "ucs \<Rightarrow> ucs \<Rightarrow> FileChange list \<Rightarrow> files \<Rightarrow> files \<times> FileWritten list \<times> (ucs + ApplyPatchFileResult list)" where
  "write_changes enoent call [] fs = (fs, [], Inr [])"
| "write_changes enoent call (c # cs) fs =
     (case write_change enoent call c fs of
        (fs, Inl e) \<Rightarrow> (fs, [], Inl e)
      | (fs, Inr (ns, r)) \<Rightarrow>
          (let (fs, ms, rs) = write_changes enoent call cs fs in (fs, ns @ ms, map_sum id (\<lambda>rs. r # rs) rs)))"

definition action_prefix :: "string \<Rightarrow> ucs" where
  "action_prefix a = (if a = ''added'' then lit ''A'' else if a = ''deleted'' then lit ''D'' else lit ''M'')"

definition build_summary :: "ApplyPatchFileResult list \<Rightarrow> ucs" where
  "build_summary rs =
     lit ''Success. Updated the following files:'' @ [ulf] @
     concat (map (\<lambda>r. action_prefix (r_action r) @ [0x20] @ r_path r @ [ulf]) rs)"

definition parse_failure :: "ParseError \<Rightarrow> ucs" where
  "parse_failure e =
     (case e of
        InvalidPatchError m \<Rightarrow> lit ''Invalid patch: '' @ m
      | InvalidHunkError m n \<Rightarrow> lit ''Invalid patch hunk on line '' @ show_nat n @ lit '': '' @ m)"

definition run_tool :: "ucs \<Rightarrow> ucs \<Rightarrow> ucs \<Rightarrow> ucs \<Rightarrow> files \<Rightarrow> files \<times> FileWritten list \<times> (ucs + ApplyPatchOutput)" where
  "run_tool enoent call cwd input fs =
     (case parse_codex_patch input of
        Inl e \<Rightarrow> (fs, [], Inr (ParseFailure (parse_failure e)))
      | Inr parsed \<Rightarrow>
          (if hunks parsed = [] then (fs, [], Inr (EmptyPatch (lit ''No files were modified.'')))
           else case compute_all_changes enoent cwd fs (hunks parsed) of
                  Inl msg \<Rightarrow> (fs, [], Inr (ApplicationError msg))
                | Inr changes \<Rightarrow>
                    (let (fs, ns, rs) = write_changes enoent call changes fs
                     in (fs, ns, map_sum id (\<lambda>rs. Success rs (build_summary rs)) rs))))"

section \<open>Specification\<close>

text \<open>The paths a hunk touches, and what it is to do to the files.\<close>

fun touched :: "ucs \<Rightarrow> Hunk \<Rightarrow> ucs list" where
  "touched cwd (AddFile path contents) = [join_path cwd path]"
| "touched cwd (DeleteFile path) = [join_path cwd path]"
| "touched cwd (UpdateFile path mv chunks) =
     join_path cwd path # (case mv of None \<Rightarrow> [] | Some dest \<Rightarrow> [join_path cwd dest])"

fun hunk_done :: "ucs \<Rightarrow> files \<Rightarrow> files \<Rightarrow> Hunk \<Rightarrow> bool" where
  "hunk_done cwd fs fs' (AddFile path contents) \<longleftrightarrow> fs' (join_path cwd path) = Some contents"
| "hunk_done cwd fs fs' (DeleteFile path) \<longleftrightarrow> fs (join_path cwd path) \<noteq> None \<and> fs' (join_path cwd path) = None"
| "hunk_done cwd fs fs' (UpdateFile path mv chunks) \<longleftrightarrow>
     (\<exists>original new. fs (join_path cwd path) = Some original
        \<and> derive_new_contents original (join_path cwd path) chunks = Some (Inr new)
        \<and> (case mv of
             None \<Rightarrow> fs' (join_path cwd path) = Some new
           | Some dest \<Rightarrow> fs' (join_path cwd path) = None \<and> fs' (join_path cwd dest) = Some new))"

section \<open>Correctness\<close>

fun change_paths :: "FileChange \<Rightarrow> ucs list" where
  "change_paths (FileAdd p c) = [p]"
| "change_paths (FileDelete p old) = [p]"
| "change_paths (FileUpdate p old c) = [p]"
| "change_paths (FileMove p q old c) = [p, q]"

text \<open>A change that can be written: what is deleted exists.\<close>

fun change_ready :: "files \<Rightarrow> FileChange \<Rightarrow> bool" where
  "change_ready fs (FileDelete p old) \<longleftrightarrow> fs p \<noteq> None"
| "change_ready fs (FileMove p q old c) \<longleftrightarrow> fs p \<noteq> None"
| "change_ready fs c \<longleftrightarrow> True"

lemma write_change_frame:
  "p \<notin> set (change_paths c) \<Longrightarrow> fst (write_change enoent call c fs) p = fs p"
  by (cases c) (auto simp: delete_file_def Let_def)

lemma write_change_ready:
  "change_ready fs c \<Longrightarrow> \<exists>r. snd (write_change enoent call c fs) = Inr r"
  by (cases c) (auto simp: delete_file_def Let_def)

lemma change_ready_frame:
  "(\<And>p. p \<in> set (change_paths c) \<Longrightarrow> fs' p = fs p) \<Longrightarrow> change_ready fs' c = change_ready fs c"
  by (cases c) auto

lemma write_changes_frame:
  "p \<notin> set (concat (map change_paths cs)) \<Longrightarrow> fst (write_changes enoent call cs fs) p = fs p"
proof (induction cs arbitrary: fs)
  case (Cons c cs)
  then show ?case
    using write_change_frame [of p c enoent call fs] by (auto simp: case_prod_beta Let_def split: prod.split sum.split)
qed simp

fun change_done :: "files \<Rightarrow> FileChange \<Rightarrow> bool" where
  "change_done fs (FileAdd p c) \<longleftrightarrow> fs p = Some c"
| "change_done fs (FileDelete p old) \<longleftrightarrow> fs p = None"
| "change_done fs (FileUpdate p old c) \<longleftrightarrow> fs p = Some c"
| "change_done fs (FileMove p q old c) \<longleftrightarrow> fs p = None \<and> fs q = Some c"

lemma change_done_frame:
  "(\<And>p. p \<in> set (change_paths c) \<Longrightarrow> fs' p = fs p) \<Longrightarrow> change_done fs' c = change_done fs c"
  by (cases c) auto

lemma write_change_done:
  "change_ready fs c \<Longrightarrow> distinct (change_paths c) \<Longrightarrow> change_done (fst (write_change enoent call c fs)) c"
  by (cases c) (auto simp: delete_file_def Let_def)

lemma write_changes_step:
  assumes "snd (write_change enoent call c fs) = Inr (ns, r)"
  shows "write_changes enoent call (c # cs) fs =
    (let (fs', ms, rs) = write_changes enoent call cs (fst (write_change enoent call c fs))
     in (fs', ns @ ms, map_sum id (\<lambda>rs. r # rs) rs))"
  using assms by (cases "write_change enoent call c fs") simp

text \<open>Changes that touch different paths do not disturb each other.\<close>

lemma write_changes_done:
  assumes "distinct (concat (map change_paths cs))" "list_all (change_ready fs) cs"
  shows "(\<exists>rs. snd (snd (write_changes enoent call cs fs)) = Inr rs)
    \<and> list_all (change_done (fst (write_changes enoent call cs fs))) cs"
  using assms
proof (induction cs arbitrary: fs)
  case (Cons c cs)
  from write_change_ready [of fs c enoent call] Cons.prems(2) obtain ns r
    where r: "snd (write_change enoent call c fs) = Inr (ns, r)" by auto
  let ?fs = "fst (write_change enoent call c fs)"
  have apart: "p \<notin> set (change_paths c)" if "d \<in> set cs" "p \<in> set (change_paths d)" for d p
    using that Cons.prems(1) by auto
  have "change_ready ?fs d" if "d \<in> set cs" for d
    using change_ready_frame [of d ?fs fs] write_change_frame apart [OF that] Cons.prems(2) that
    by (auto simp: list_all_iff)
  then have IH: "(\<exists>rs. snd (snd (write_changes enoent call cs ?fs)) = Inr rs)"
      "list_all (change_done (fst (write_changes enoent call cs ?fs))) cs"
    using Cons.IH [of ?fs] Cons.prems(1) by (auto simp: list_all_iff)
  have "change_done ?fs c" using Cons.prems by (intro write_change_done) auto
  moreover have "fst (write_changes enoent call cs ?fs) p = ?fs p" if "p \<in> set (change_paths c)" for p
    using that Cons.prems(1) by (intro write_changes_frame) auto
  ultimately have "change_done (fst (write_changes enoent call cs ?fs)) c" using change_done_frame by blast
  with IH show ?case unfolding write_changes_step [OF r] by (auto simp: case_prod_beta Let_def)
qed simp

lemma compute_all_changes_Inr:
  "compute_all_changes enoent cwd fs hs = Inr cs \<Longrightarrow> list_all2 (\<lambda>h c. compute_change enoent cwd fs h = Inr c) hs cs"
proof (induction hs arbitrary: cs)
  case (Cons h hs)
  then show ?case
    by (cases "compute_all_changes enoent cwd fs hs") (auto split: sum.splits)
qed simp

lemma compute_change_facts:
  assumes "compute_change enoent cwd fs h = Inr c"
  shows "change_paths c = touched cwd h" "change_ready fs c" "change_done fs' c \<Longrightarrow> hunk_done cwd fs fs' h"
  using assms
  by (cases h; auto simp: Let_def read_file_as_string_def
      split: option.splits sum.splits ApplyPatchError.splits)+

lemma touched_changes:
  assumes "list_all2 (\<lambda>h c. compute_change enoent cwd fs h = Inr c) hs cs"
  shows "concat (map change_paths cs) = concat (map (touched cwd) hs)" "list_all (change_ready fs) cs"
    and "list_all (change_done fs') cs \<Longrightarrow> list_all (hunk_done cwd fs fs') hs"
  using assms by (induction rule: list_all2_induct) (auto simp: compute_change_facts)


section \<open>Examples\<close>

definition demo_update :: "ucs option \<Rightarrow> string \<Rightarrow> string \<Rightarrow> file_op" where
  "demo_update mv old new = OpUpdate (lit ''f'') mv [(None, [ERemove (lit old), EAdd (lit new)], False)]"

definition two_lines :: "string \<Rightarrow> string \<Rightarrow> ucs" where
  "two_lines s t = lit (s @ [LF] @ t @ [LF])"

definition demo_files :: files where
  "demo_files = [lit ''/f'' \<mapsto> two_lines ''a'' ''b'']"

lemma demo_hunks:
  assumes "ops_ok ops"
  obtains parsed where "parse_codex_patch (print_ops ops) = Inr parsed" "hunks parsed = map hunk_of ops"
  using parse_printed [OF assms] by (cases "parse_codex_patch (print_ops ops)") auto

lemma demo_join: "join_path (lit ''/'') (lit ''f'') = lit ''/f''"
  by code_simp

lemma demo_derive:
  "derive_new_contents (two_lines ''a'' ''b'') (lit ''/f'')
     [\<lparr>change_context = None, old_lines = [lit ''a''], new_lines = [lit ''x''], is_end_of_file = False\<rparr>]
   = Some (Inr (two_lines ''x'' ''b''))"
  "derive_new_contents (two_lines ''a'' ''b'') (lit ''/f'')
     [\<lparr>change_context = None, old_lines = [lit ''b''], new_lines = [lit ''y''], is_end_of_file = False\<rparr>]
   = Some (Inr (two_lines ''a'' ''y''))"
  by code_simp+

lemma demo_ok:
  "ops_ok [demo_update None ''a'' ''x'', demo_update None ''b'' ''y'']"
  "ops_ok [demo_update (Some (lit ''f'')) ''a'' ''x'']" "ops_ok [demo_update None ''a'' ''x'']"
  by code_simp+

lemmas demo_defs = demo_update_def demo_files_def demo_join demo_derive Let_def read_file_as_string_def delete_file_def

text \<open>
  Hunks about the same path undo each other, while the tool reports success: all changes are
  computed from the files as they were, so the second of two updates of a file writes over
  the first; and an update that moves a file to its own path writes it and then deletes it.
\<close>

theorem same_path_loses_changes:
  "fst (run_tool e call (lit ''/'') (print_ops [demo_update None ''a'' ''x'', demo_update None ''b'' ''y'']) demo_files) (lit ''/f'')
     = Some (two_lines ''a'' ''y'')
   \<and> fst (run_tool e call (lit ''/'') (print_ops [demo_update (Some (lit ''f'')) ''a'' ''x'']) demo_files) (lit ''/f'') = None"
proof -
  obtain p where "parse_codex_patch (print_ops [demo_update None ''a'' ''x'', demo_update None ''b'' ''y'']) = Inr p"
      "hunks p = map hunk_of [demo_update None ''a'' ''x'', demo_update None ''b'' ''y'']"
    by (rule demo_hunks [OF demo_ok(1)])
  then have "fst (run_tool e call (lit ''/'') (print_ops [demo_update None ''a'' ''x'', demo_update None ''b'' ''y'']) demo_files) (lit ''/f'')
     = Some (two_lines ''a'' ''y'')"
    by (simp add: run_tool_def demo_defs del: lit_simps)
  moreover obtain q where "parse_codex_patch (print_ops [demo_update (Some (lit ''f'')) ''a'' ''x'']) = Inr q"
      "hunks q = map hunk_of [demo_update (Some (lit ''f'')) ''a'' ''x'']"
    by (rule demo_hunks [OF demo_ok(2)])
  then have "fst (run_tool e call (lit ''/'') (print_ops [demo_update (Some (lit ''f'')) ''a'' ''x'']) demo_files) (lit ''/f'') = None"
    by (simp add: run_tool_def demo_defs del: lit_simps)
  ultimately show ?thesis ..
qed


end
