(* ===== verification/Perm_Types.thy ===== *)
theory Perm_Types
  imports Json
begin

text \<open>
  The vocabulary of the permission system
  (\<^verbatim>\<open>xai-grok-workspace/src/permission/types.rs\<close>): what a tool call wants to access, the rules of a
  policy and the decisions, with the ranking by which decisions are combined
  (\<^verbatim>\<open>shell_access.rs\<close>).
\<close>

section \<open>Definitions\<close>

datatype AccessKind =
    ReadAccess "string option"
  | GrepAccess "string option" "string option"
  | EditAccess string
  | BashAccess string
  | MCPToolAccess string json
  | WebFetchAccess string
  | WebSearchAccess string

datatype PolicyDecision =
    AllowAccess
  | AskUser
  | FollowupMessage string
  | Reject string
  | PolicyDeny string
  | Cancelled

datatype PromptPolicy = PromptAsk | PromptDeny | PromptAuto

datatype PatternMode = GlobMode | DomainMode

datatype RuleAction = AllowRule | DenyRule | AskRule

datatype ToolFilter =
  AnyTool | BashTool | EditTool | ReadTool | GrepTool | McpTool | WebFetchTool | WebSearchTool

record PermissionRule =
  rule_action :: RuleAction
  rule_tool :: ToolFilter
  rule_pattern :: "string option"
  rule_pattern_mode :: PatternMode

record PermissionConfig =
  rules :: "PermissionRule list"
  prompt_policy :: PromptPolicy

definition permission_config_new :: "PermissionRule list \<Rightarrow> PermissionConfig" where
  "permission_config_new rs = \<lparr>rules = rs, prompt_policy = PromptAsk\<rparr>"

fun decision_rank :: "PolicyDecision \<Rightarrow> nat" where
  "decision_rank (Reject r) = 3"
| "decision_rank (PolicyDeny r) = 3"
| "decision_rank AskUser = 2"
| "decision_rank AllowAccess = 1"
| "decision_rank d = 0"

fun combine_decisions :: "PolicyDecision option \<Rightarrow> PolicyDecision option \<Rightarrow> PolicyDecision option" where
  "combine_decisions None b = b"
| "combine_decisions a None = a"
| "combine_decisions (Some a) (Some b) = Some (if decision_rank a \<ge> decision_rank b then a else b)"

section \<open>Combining decisions\<close>

text \<open>
  How severe an outcome is; no decision is not severe at all. Combining takes the more
  severe outcome, so its order does not matter for the severity.
\<close>

definition severity :: "PolicyDecision option \<Rightarrow> nat" where
  "severity d = (case d of None \<Rightarrow> 0 | Some d \<Rightarrow> decision_rank d)"

lemma severity_simps [simp]: "severity None = 0" "severity (Some d) = decision_rank d"
  by (simp_all add: severity_def)

lemma severity_combine [simp]: "severity (combine_decisions a b) = max (severity a) (severity b)"
  by (cases "(a, b)" rule: combine_decisions.cases) auto

lemma combine_None_right [simp]: "combine_decisions a None = a"
  by (cases a) auto

lemma combine_choice: "combine_decisions a b = a \<or> combine_decisions a b = b"
  by (cases "(a, b)" rule: combine_decisions.cases) auto

text \<open>An outcome that only escalates: nothing, a question or a refusal by a rule.\<close>

definition escalation :: "PolicyDecision option \<Rightarrow> bool" where
  "escalation d \<longleftrightarrow> d = None \<or> d = Some AskUser \<or> (\<exists>r. d = Some (Reject r))"

lemma escalation_combine [intro]:
  "escalation a \<Longrightarrow> escalation b \<Longrightarrow> escalation (combine_decisions a b)"
  using combine_choice [of a b] by auto

lemma escalation_simps [simp]: "escalation None" "escalation (Some AskUser)" "escalation (Some (Reject r))"
  by (auto simp: escalation_def)

lemma escalation_severity:
  "escalation d \<Longrightarrow> 3 \<le> severity d \<longleftrightarrow> (\<exists>r. d = Some (Reject r))"
  "escalation d \<Longrightarrow> 2 \<le> severity d \<longleftrightarrow> d \<noteq> None"
  by (auto simp: escalation_def)

section \<open>Gates\<close>

text \<open>
  The manager combines the outcomes of several gates. Every gate answers as rules do; the two
  gates for shell scripts only escalate.
\<close>

definition rule_outcome :: "PolicyDecision option \<Rightarrow> bool" where
  "rule_outcome d \<longleftrightarrow> d = Some AllowAccess \<or> escalation d"

lemma rule_outcome_simps [simp]: "rule_outcome None" "rule_outcome (Some AllowAccess)" "escalation d \<Longrightarrow> rule_outcome d"
  by (auto simp: rule_outcome_def)

locale rule_gate =
  fixes gate :: "'a \<Rightarrow> PolicyDecision option"
  assumes gate_outcome: "rule_outcome (gate x)"
begin

lemma combined_outcome: "rule_outcome d \<Longrightarrow> rule_outcome (combine_decisions d (gate x))"
  using gate_outcome [of x] combine_choice [of d "gate x"] by auto

lemma combined_refusal:
  "rule_outcome d \<Longrightarrow> (\<exists>r. combine_decisions d (gate x) = Some (Reject r))
     \<longleftrightarrow> (\<exists>r. d = Some (Reject r)) \<or> (\<exists>r. gate x = Some (Reject r))"
  using gate_outcome [of x] by (auto simp: rule_outcome_def escalation_def)

lemma combined_ask:
  assumes "rule_outcome d" "d = Some AskUser \<or> gate x = Some AskUser" "\<nexists>r. combine_decisions d (gate x) = Some (Reject r)"
  shows "combine_decisions d (gate x) = Some AskUser"
  using assms gate_outcome [of x] by (auto simp: rule_outcome_def escalation_def)

end

locale escalating_gate =
  fixes gate :: "'a \<Rightarrow> PolicyDecision option"
  assumes gate_escalation: "escalation (gate x)"

sublocale escalating_gate \<subseteq> rule_gate gate
  by unfold_locales (simp add: gate_escalation)

context escalating_gate
begin

lemma combined_allow:
  "rule_outcome d \<Longrightarrow> combine_decisions d (gate x) = Some AllowAccess \<longleftrightarrow> d = Some AllowAccess \<and> gate x = None"
  using gate_escalation [of x] by (auto simp: rule_outcome_def escalation_def)

end

end
