(* ===== verification/Perm_Rules.thy ===== *)
theory Perm_Rules
  imports Perm_Types
begin

text \<open>
  The rule strings of the permission system
  (\<^verbatim>\<open>xai-grok-workspace/src/permission/rules.rs\<close>), \<^verbatim>\<open>Tool(pattern)\<close> with backslash escapes, and
  the default modes.
\<close>

section \<open>Definitions\<close>

datatype DefaultPermissionMode = DefaultMode | AcceptEdits | PlanMode | AutoMode | DontAsk | BypassPermissions

definition default_mode_from_str :: "string \<Rightarrow> DefaultPermissionMode res" where
  "default_mode_from_str s =
     (if s = ''default'' then Inr DefaultMode
      else if s = ''acceptEdits'' then Inr AcceptEdits
      else if s = ''plan'' then Inr PlanMode
      else if s = ''auto'' then Inr AutoMode
      else if s = ''dontAsk'' then Inr DontAsk
      else if s = ''bypassPermissions'' then Inr BypassPermissions
      else Inl s)"

record DefaultModeEffects =
  mode_prompt_policy :: PromptPolicy
  accept_edits :: bool
  bypass_permissions :: bool

definition no_effects :: DefaultModeEffects where
  "no_effects = \<lparr>mode_prompt_policy = PromptAsk, accept_edits = False, bypass_permissions = False\<rparr>"

fun mode_effects :: "DefaultPermissionMode \<Rightarrow> DefaultModeEffects" where
  "mode_effects AcceptEdits = no_effects\<lparr>accept_edits := True\<rparr>"
| "mode_effects BypassPermissions = no_effects\<lparr>bypass_permissions := True\<rparr>"
| "mode_effects DefaultMode = no_effects"
| "mode_effects PlanMode = no_effects"
| "mode_effects DontAsk = no_effects\<lparr>mode_prompt_policy := PromptDeny\<rparr>"
| "mode_effects AutoMode = no_effects\<lparr>mode_prompt_policy := PromptAuto\<rparr>"

datatype RuleParseError =
    UnsupportedToolPrefix string
  | UnknownToolPrefix string
  | MalformedRule string

definition tool_name_to_filter :: "string \<Rightarrow> ToolFilter option" where
  "tool_name_to_filter name =
     (if name = ''Bash'' then Some BashTool
      else if name = ''Read'' \<or> name = ''NotebookRead'' then Some ReadTool
      else if name = ''Edit'' \<or> name = ''Write'' \<or> name = ''NotebookEdit'' then Some EditTool
      else if name = ''MCPTool'' then Some McpTool
      else if name = ''Grep'' \<or> name = ''Glob'' then Some GrepTool
      else if name = ''WebFetch'' then Some WebFetchTool
      else if name = ''WebSearch'' then Some WebSearchTool
      else None)"

text \<open>The loop of \<^verbatim>\<open>is_unescaped\<close>: the backslashes in front of a position.\<close>

fun backslashes_before :: "string \<Rightarrow> nat \<Rightarrow> nat" where
  "backslashes_before s 0 = 0"
| "backslashes_before s (Suc j) = (if s ! j = bsl then Suc (backslashes_before s j) else 0)"

definition is_unescaped :: "string \<Rightarrow> nat \<Rightarrow> bool" where
  "is_unescaped s pos \<longleftrightarrow> even (backslashes_before s pos)"

definition find_first_unescaped :: "string \<Rightarrow> char \<Rightarrow> nat option" where
  "find_first_unescaped s target = find (\<lambda>i. s ! i = target \<and> is_unescaped s i) [0..<length s]"

definition find_last_unescaped :: "string \<Rightarrow> char \<Rightarrow> nat option" where
  "find_last_unescaped s target = find (\<lambda>i. s ! i = target \<and> is_unescaped s i) (rev [0..<length s])"

definition unescape_rule_content :: "string \<Rightarrow> string" where
  "unescape_rule_content s =
     (if bsl \<notin> set s then s
      else replace_str [bsl, bsl] [bsl]
             (replace_str [bsl, CHR '')''] '')''
               (replace_str [bsl, CHR ''(''] ''('' s)))"

definition strip_domain_prefix :: "string \<Rightarrow> string \<times> PatternMode" where
  "strip_domain_prefix pattern =
     (case strip_prefix pattern ''domain:'' of
        Some domain \<Rightarrow> (domain, DomainMode)
      | None \<Rightarrow> (pattern, GlobMode))"

text \<open>\<^verbatim>\<open>strip_suffix\<close>\<close>

definition strip_suffix :: "'a list \<Rightarrow> 'a list \<Rightarrow> 'a list option" where
  "strip_suffix s q = map_option rev (strip_prefix (rev s) (rev q))"

definition strip_bash_colon_wildcard :: "string \<Rightarrow> string" where
  "strip_bash_colon_wildcard pattern =
     (case strip_suffix pattern '':*'' of Some p \<Rightarrow> p | None \<Rightarrow> pattern)"

definition non_empty :: "string \<Rightarrow> string option" where
  "non_empty s = (if s = [] then None else Some s)"

definition parse_permission_rule :: "string \<Rightarrow> RuleAction \<Rightarrow> RuleParseError + PermissionRule" where
  "parse_permission_rule rule action =
     (let rule = trim rule
      in case find_first_unescaped rule (CHR ''('') of
           Some open_paren \<Rightarrow>
             (let prefix_trimmed = trim (take open_paren rule);
                  content_and_close = drop (open_paren + 1) rule
              in case find_last_unescaped content_and_close (CHR '')'') of
                   None \<Rightarrow> Inl (MalformedRule ''missing closing parenthesis'')
                 | Some close_paren \<Rightarrow>
                     (let raw_content = trim (take close_paren content_and_close);
                          pattern = (if raw_content = [] \<or> raw_content = ''*'' then []
                                     else unescape_rule_content raw_content)
                      in case tool_name_to_filter prefix_trimmed of
                           None \<Rightarrow> Inl (if prefix_trimmed = ''EnterWorktree''
                                      then UnsupportedToolPrefix prefix_trimmed
                                      else UnknownToolPrefix prefix_trimmed)
                         | Some tool \<Rightarrow>
                             (let pattern = (if tool = BashTool then strip_bash_colon_wildcard pattern else pattern);
                                  (pattern, pattern_mode) = strip_domain_prefix pattern
                              in Inr \<lparr>rule_action = action, rule_tool = tool, rule_pattern = non_empty pattern,
                                       rule_pattern_mode = pattern_mode\<rparr>)))
         | None \<Rightarrow>
             (case tool_name_to_filter rule of
                Some tool \<Rightarrow> Inr \<lparr>rule_action = action, rule_tool = tool, rule_pattern = None,
                                   rule_pattern_mode = GlobMode\<rparr>
              | None \<Rightarrow> Inr \<lparr>rule_action = action, rule_tool = AnyTool, rule_pattern = non_empty rule,
                               rule_pattern_mode = GlobMode\<rparr>))"

section \<open>Printing rules\<close>

fun escape_char :: "char \<Rightarrow> string" where
  "escape_char c = (if c = bsl \<or> c = CHR ''('' \<or> c = CHR '')'' then [bsl, c] else [c])"

definition escape_rule_content :: "string \<Rightarrow> string" where
  "escape_rule_content p = concat (map escape_char p)"

fun tool_name :: "ToolFilter \<Rightarrow> string" where
  "tool_name BashTool = ''Bash''"
| "tool_name ReadTool = ''Read''"
| "tool_name EditTool = ''Edit''"
| "tool_name McpTool = ''MCPTool''"
| "tool_name GrepTool = ''Grep''"
| "tool_name WebFetchTool = ''WebFetch''"
| "tool_name WebSearchTool = ''WebSearch''"
| "tool_name AnyTool = []"

definition rule_text :: "PermissionRule \<Rightarrow> string" where
  "rule_text r =
     (case rule_pattern r of
        None \<Rightarrow> []
      | Some p \<Rightarrow> (if rule_pattern_mode r = DomainMode then ''domain:'' @ p else p))"

definition print_rule :: "PermissionRule \<Rightarrow> string" where
  "print_rule r = tool_name (rule_tool r) @ ''('' @ escape_rule_content (rule_text r) @ '')''"

text \<open>
  The rules the language can express for a tool: the pattern is no blank-framed, empty or
  universal pattern, and says by its mode whether it starts with \<^verbatim>\<open>domain:\<close>.
\<close>

definition rule_ok :: "PermissionRule \<Rightarrow> bool" where
  "rule_ok r \<longleftrightarrow>
     rule_tool r \<noteq> AnyTool
     \<and> (case rule_pattern r of
          None \<Rightarrow> rule_pattern_mode r = GlobMode
        | Some p \<Rightarrow>
            p \<noteq> [] \<and> rule_text r \<noteq> ''*'' \<and> trim (rule_text r) = rule_text r
            \<and> (rule_pattern_mode r = GlobMode \<longrightarrow> \<not> starts_with p ''domain:'')
            \<and> (rule_tool r = BashTool \<longrightarrow> \<not> ends_with (rule_text r) '':*''))"

section \<open>Escapes\<close>

lemma trim_fixedD:
  assumes "trim s = s" "s \<noteq> []"
  shows "\<not> is_whitespace (hd s)" "\<not> is_whitespace (last s)"
proof -
  have "length s \<le> length (dropWhile is_whitespace s)"
    using assms(1) length_trim_end_pred [of is_whitespace "dropWhile is_whitespace s"] by (simp add: trim_def)
  with assms(2) show "\<not> is_whitespace (hd s)"
    using length_dropWhile_le [of is_whitespace "tl s"] by (cases s) (auto split: if_splits)
  then have d: "dropWhile is_whitespace s = s" by (simp add: dropWhile_hd)
  with assms have "rev (dropWhile is_whitespace (rev s)) = s" by (simp add: trim_def trim_end_pred_def)
  then have "dropWhile is_whitespace (rev s) = rev s" by (metis rev_rev_ident)
  then show "\<not> is_whitespace (last s)"
    using assms(2) hd_dropWhile [of is_whitespace "rev s"] by (simp add: hd_rev)
qed

lemma escape_Cons [simp]: "escape_rule_content (c # p) = escape_char c @ escape_rule_content p"
  and escape_Nil [simp]: "escape_rule_content [] = []"
  and escape_append [simp]: "escape_rule_content (p @ q) = escape_rule_content p @ escape_rule_content q"
  by (simp_all add: escape_rule_content_def)

lemma escape_empty [simp]: "escape_rule_content p = [] \<longleftrightarrow> p = []"
  by (cases p) auto

lemma escape_frame:
  assumes "p \<noteq> []"
  shows "is_whitespace (hd (escape_rule_content p)) = (is_whitespace (hd p))"
    "last (escape_rule_content p) = last p"
proof -
  show "is_whitespace (hd (escape_rule_content p)) = (is_whitespace (hd p))"
    using assms by (cases p) (auto simp: is_whitespace_def)
  show "last (escape_rule_content p) = last p"
    using assms by (cases p rule: rev_cases) auto
qed

text \<open>The backslashes at the end of an escaped text come in pairs.\<close>

lemma backslashes_before_append:
  "j \<le> length s \<Longrightarrow> backslashes_before (s @ t) j = backslashes_before s j"
  by (induction j) (auto simp: nth_append)

lemma backslashes_escaped:
  "even (backslashes_before (escape_rule_content p @ t) (length (escape_rule_content p)))"
proof (induction p arbitrary: t rule: rev_induct)
  case (snoc c p)
  let ?e = "escape_rule_content p"
  have *: "backslashes_before (?e @ u) (length ?e) = backslashes_before ?e (length ?e)" for u
    by (simp add: backslashes_before_append)
  show ?case
  proof (cases "c = bsl")
    case True
    then show ?thesis using snoc [of "bsl # bsl # t"] by (simp add: nth_append)
  next
    case False
    then show ?thesis by (auto simp: nth_append)
  qed
qed simp

text \<open>Replacing a pair of characters.\<close>

lemma replace_pair:
  "replace_str [a, b] r [] = []"
  "replace_str [a, b] r (c # s) =
     (if c = a \<and> s \<noteq> [] \<and> hd s = b then r @ replace_str [a, b] r (tl s) else c # replace_str [a, b] r s)"
proof -
  show "replace_str [a, b] r [] = []" by (simp add: replace_str.simps)
  show "replace_str [a, b] r (c # s) =
     (if c = a \<and> s \<noteq> [] \<and> hd s = b then r @ replace_str [a, b] r (tl s) else c # replace_str [a, b] r s)"
    by (subst replace_str.simps, cases s) auto
qed

text \<open>The three replacements undo the escapes one character class at a time.\<close>

definition escape_within :: "char set \<Rightarrow> string \<Rightarrow> string" where
  "escape_within C p = concat (map (\<lambda>c. if c \<in> C then [bsl, c] else [c]) p)"

lemma escape_within_simps [simp]:
  "escape_within C [] = []"
  "escape_within C (c # p) = (if c \<in> C then [bsl, c] else [c]) @ escape_within C p"
  by (simp_all add: escape_within_def)

lemma escape_within_hd: "b \<in> C \<Longrightarrow> b \<noteq> bsl \<Longrightarrow> escape_within C p \<noteq> [] \<Longrightarrow> hd (escape_within C p) \<noteq> b"
  by (cases p) auto

lemma replace_paren:
  assumes "b \<noteq> bsl" "b \<in> C" "bsl \<in> C"
  shows "replace_str [bsl, b] [b] (escape_within C p) = escape_within (C - {b}) p"
proof (induction p)
  case (Cons c p)
  then show ?case using assms escape_within_hd [OF assms(2,1), of p] by (auto simp: replace_pair)
qed (simp add: replace_pair)

lemma replace_backslash: "replace_str [bsl, bsl] [bsl] (escape_within {bsl} p) = p"
  by (induction p) (auto simp: replace_pair)

lemma escape_within_all: "escape_rule_content p = escape_within {bsl, CHR ''('', CHR '')''} p"
  by (induction p) auto

lemma unescape_escape: "unescape_rule_content (escape_rule_content p) = p"
proof (cases "bsl \<in> set (escape_rule_content p)")
  case True
  have "{bsl, CHR ''('', CHR '')''} - {CHR ''(''} - {CHR '')''} = {bsl}" by auto
  then show ?thesis using True
    by (simp add: unescape_rule_content_def escape_within_all replace_paren replace_backslash)
next
  case False
  then have "escape_rule_content p = p" by (induction p) (auto split: if_splits)
  with False show ?thesis by (simp add: unescape_rule_content_def)
qed

section \<open>Parsing printed rules\<close>

lemma find_last_escaped:
  "find_last_unescaped (escape_rule_content p @ '')'') (CHR '')'') = Some (length (escape_rule_content p))"
  by (simp add: find_last_unescaped_def is_unescaped_def nth_append backslashes_escaped)

lemma find_first_open:
  assumes "list_all is_ascii_alphabetic name"
  shows "find_first_unescaped (name @ ''('' @ s) (CHR ''('') = Some (length name)"
proof -
  have c: "(name @ ''('' @ s) ! i \<noteq> CHR ''(''" "(name @ ''('' @ s) ! i \<noteq> bsl" if "i < length name" for i
    using that assms by (auto simp: list_all_length nth_append is_ascii_alphabetic_def
        is_ascii_uppercase_def is_ascii_lowercase_def)
  have z: "backslashes_before (name @ ''('' @ s) (length name) = 0"
    using c by (cases "length name") auto
  have "[0..<length (name @ ''('' @ s)] = [0..<length name] @ length name # [Suc (length name)..<length (name @ ''('' @ s)]"
    using upt_add_eq_append [of 0 "length name" "Suc (length s)"] by (simp add: upt_conv_Cons del: upt_Suc)
  moreover have "find P (xs @ y # ys) = Some y" if "\<forall>x\<in>set xs. \<not> P x" "P y" for P :: "nat \<Rightarrow> bool" and xs y ys
    using that by (induction xs) auto
  ultimately show ?thesis
    unfolding find_first_unescaped_def using c(1) z by (auto simp: nth_append is_unescaped_def)
qed

lemma strip_suffix_None: "\<not> ends_with s q \<Longrightarrow> strip_suffix s q = None"
  by (simp add: strip_suffix_def ends_with_def str_iff)

lemma tool_names:
  assumes "t \<noteq> AnyTool"
  shows "tool_name t \<noteq> []" "list_all is_ascii_alphabetic (tool_name t)"
    "tool_name_to_filter (tool_name t) = Some t" "trim (tool_name t) = tool_name t"
    "\<not> is_whitespace (hd (tool_name t))"
proof -
  show ne: "tool_name t \<noteq> []" using assms by (cases t) simp_all
  show al: "list_all is_ascii_alphabetic (tool_name t)" using assms by (cases t) (simp_all add: char_class_defs)
  show "tool_name_to_filter (tool_name t) = Some t" using assms by (cases t) (simp_all add: tool_name_to_filter_def)
  have "\<not> is_whitespace c" if "c \<in> set (tool_name t)" for c
    using al that by (auto simp: list_all_iff char_class_defs)
  then show "trim (tool_name t) = tool_name t" "\<not> is_whitespace (hd (tool_name t))"
    using ne by (simp_all add: trim_fixed)
qed

lemma rule_text_cases:
  assumes "rule_ok r"
  shows "strip_domain_prefix (rule_text r) = (case rule_pattern r of None \<Rightarrow> [] | Some p \<Rightarrow> p, rule_pattern_mode r)"
    and "non_empty (case rule_pattern r of None \<Rightarrow> [] | Some p \<Rightarrow> p) = rule_pattern r"
    and "rule_text r \<noteq> ''*''" and "trim (rule_text r) = rule_text r"
    and "rule_tool r = BashTool \<Longrightarrow> strip_bash_colon_wildcard (rule_text r) = rule_text r"
proof -
  show "strip_domain_prefix (rule_text r) = (case rule_pattern r of None \<Rightarrow> [] | Some p \<Rightarrow> p, rule_pattern_mode r)"
    using assms by (cases "rule_pattern r"; cases "rule_pattern_mode r")
      (auto simp: rule_ok_def rule_text_def strip_domain_prefix_def str_iff split: option.splits)
  show "non_empty (case rule_pattern r of None \<Rightarrow> [] | Some p \<Rightarrow> p) = rule_pattern r"
    using assms by (cases "rule_pattern r") (auto simp: rule_ok_def non_empty_def)
  show "rule_text r \<noteq> ''*''" "trim (rule_text r) = rule_text r"
    using assms by (cases "rule_pattern r"; simp add: rule_ok_def rule_text_def trim_def trim_end_pred_def)+
  show "strip_bash_colon_wildcard (rule_text r) = rule_text r" if "rule_tool r = BashTool"
  proof -
    have "\<not> ends_with (rule_text r) '':*''"
      using assms that by (cases "rule_pattern r") (auto simp: rule_ok_def rule_text_def ends_with_def)
    then show ?thesis by (simp add: strip_bash_colon_wildcard_def strip_suffix_None)
  qed
qed

lemma escape_trimmed:
  "trim s = s \<Longrightarrow> trim (escape_rule_content s) = escape_rule_content s"
  by (cases "s = []") (simp, simp add: trim_fixed trim_fixedD escape_frame)

lemma escape_star: "escape_rule_content s = ''*'' \<Longrightarrow> s = ''*''"
  by (cases s) (auto split: if_splits)

text \<open>
  C26. Parsing a rule undoes printing it: every rule for a tool, with its parentheses and
  backslashes escaped, is read back with the same tool, pattern and mode.
\<close>

theorem parse_print_rule:
  assumes "rule_ok r"
  shows "parse_permission_rule (print_rule r) (rule_action r) = Inr r"
proof -
  have t: "rule_tool r \<noteq> AnyTool" using assms by (simp add: rule_ok_def)
  note f = rule_text_cases [OF assms]
  let ?e = "escape_rule_content (rule_text r)"
  have "trim (print_rule r) = print_rule r"
    using tool_names(1,5) [OF t] by (intro trim_fixed) (auto simp: print_rule_def is_whitespace_def hd_append)
  moreover have "find_first_unescaped (print_rule r) (CHR ''('') = Some (length (tool_name (rule_tool r)))"
    using find_first_open [OF tool_names(2) [OF t]] by (simp add: print_rule_def)
  moreover have "(if ?e = [] \<or> ?e = ''*'' then [] else unescape_rule_content ?e) = rule_text r"
    using f(3) by (auto simp: unescape_escape dest: escape_star)
  ultimately show ?thesis
    using f tool_names(3,4) [OF t]
    by (simp add: parse_permission_rule_def Let_def find_last_escaped escape_trimmed print_rule_def)
qed

text \<open>A rule for a command with parentheses and a backslash.\<close>

definition demo_rule :: PermissionRule where
  "demo_rule = \<lparr>rule_action = DenyRule, rule_tool = BashTool, rule_pattern = Some (''f(x) '' @ [bsl] @ ''n*''),
     rule_pattern_mode = GlobMode\<rparr>"

theorem parse_print_rule_witness:
  "rule_ok demo_rule \<and> parse_permission_rule (print_rule demo_rule) DenyRule = Inr demo_rule"
proof -
  have "rule_ok demo_rule" by code_simp
  with parse_print_rule [OF this] show ?thesis by (simp add: demo_rule_def)
qed

end
