(* ===== verification/Bash_Split.thy ===== *)
theory Bash_Split
  imports Rust_Prelude "HOL-Library.Multiset"
begin

text \<open>
  Splitting shell scripts into plain commands
  (\<^verbatim>\<open>xai-grok-workspace/src/permission/bash_command_splitting.rs\<close>). The parser \<^verbatim>\<open>tree-sitter-bash\<close> is
  a parameter that gives a syntax tree; the tree is walked as the source walks it, with a
  stack. A node carries its kind, whether it is named, the field its parent has it under, and
  its byte range; the text of a node is that range of the source.
\<close>

section \<open>Syntax trees\<close>

datatype node = Node
  (node_kind: string) (node_named: bool) (node_field: "string option")
  (start_byte: nat) (end_byte: nat) (node_children: "node list")

record tree =
  root_node :: node
  tree_has_error :: bool

definition utf8_text :: "string \<Rightarrow> node \<Rightarrow> string" where
  "utf8_text src n = take (end_byte n - start_byte n) (drop (start_byte n) src)"

definition named_children :: "node \<Rightarrow> node list" where
  "named_children n = filter node_named (node_children n)"

definition child_by_field_name :: "string \<Rightarrow> node \<Rightarrow> node option" where
  "child_by_field_name f n = find (\<lambda>c. node_field c = Some f) (node_children n)"

section \<open>Plain commands\<close>

record PlainCommand =
  cmd_words :: "string list"
  span_start :: nat
  span_end :: nat

definition ALLOWED_KINDS :: "string list" where
  "ALLOWED_KINDS =
     [''program'', ''list'', ''pipeline'', ''command'', ''command_name'', ''word'', ''string'', ''string_content'',
      ''raw_string'', ''number'', ''concatenation'', ''variable_assignment'', ''variable_name'',
      ''redirected_statement'', ''file_redirect'', ''file_descriptor'', ''comment'', ''heredoc_redirect'',
      ''heredoc_start'', ''heredoc_body'', ''heredoc_content'', ''heredoc_end'']"

definition ALLOWED_PUNCT_TOKENS :: "string list" where
  "ALLOWED_PUNCT_TOKENS =
     [''&&'', ''||'', '';'', ''|'', [dq], [sq], ''='', ''>'', ''>>'', ''<'', ''<<'', ''>&'', ''&>'', ''&>>'']"

definition node_allowed :: "node \<Rightarrow> bool" where
  "node_allowed n \<longleftrightarrow>
     (if node_named n then node_kind n \<in> set ALLOWED_KINDS
      else if list_ex (\<lambda>c. c \<in> set ''&;|'') (node_kind n) \<and> node_kind n \<notin> set ALLOWED_PUNCT_TOKENS then False
      else node_kind n \<in> set ALLOWED_PUNCT_TOKENS \<or> trim (node_kind n) = [])"

definition is_command :: "node \<Rightarrow> bool" where
  "is_command n \<longleftrightarrow> node_named n \<and> node_kind n = ''command''"

lemma children_size: "sum_list (map size (node_children n)) < size n"
  by (cases n) (simp add: size_list_conv_sum_list sum_list_Suc)

text \<open>The walk: the top of the stack is the head of the list.\<close>

function scan_nodes :: "node list \<Rightarrow> node list \<Rightarrow> node list option" where
  "scan_nodes [] command_nodes = Some command_nodes"
| "scan_nodes (n # stack) command_nodes =
     (if \<not> node_allowed n then None
      else scan_nodes (rev (node_children n) @ stack) (if is_command n then command_nodes @ [n] else command_nodes))"
  by pat_completeness auto
termination
  by (relation "measure (\<lambda>(stack, _). sum_list (map size stack))")
    (simp_all add: rev_map [symmetric] children_size)

text \<open>
  One named child of a command: \<open>None\<close> rejects the command, otherwise the word with its span, if
  the child is a word at all.
\<close>

definition plain_operand :: "string \<Rightarrow> node \<Rightarrow> (string \<times> nat \<times> nat) option option" where
  "plain_operand src child =
     (let whole = (\<lambda>text n. Some (Some (text, start_byte n, end_byte n)))
      in if node_kind child = ''variable_assignment'' then Some None
      else if node_kind child = ''command_name'' then
        (case named_children child of
           [] \<Rightarrow> None
         | word_node # _ \<Rightarrow>
             (if node_kind word_node = ''word'' then whole (utf8_text src word_node) word_node else None))
      else if node_kind child = ''word'' \<or> node_kind child = ''number'' then whole (utf8_text src child) child
      else if node_kind child = ''string'' then
        (case node_children child of
           [a, content_node, b] \<Rightarrow>
             (if node_kind a = [dq] \<and> node_kind content_node = ''string_content'' \<and> node_kind b = [dq]
              then whole (utf8_text src content_node) child else None)
         | _ \<Rightarrow> None)
      else if node_kind child = ''raw_string'' then
        (case Option.bind (strip_prefix (utf8_text src child) [sq]) (\<lambda>s.
                map_option rev (strip_prefix (rev s) [sq])) of
           Some s \<Rightarrow> whole s child
         | None \<Rightarrow> None)
      else if node_kind child = ''concatenation'' then whole (utf8_text src child) child
      else None)"

fun plain_words :: "string \<Rightarrow> node list \<Rightarrow> string list \<Rightarrow> nat option \<Rightarrow> nat option
    \<Rightarrow> (string list \<times> nat option \<times> nat option) option" where
  "plain_words src [] ws s e = Some (ws, s, e)"
| "plain_words src (child # cs) ws s e =
     (case plain_operand src child of
        None \<Rightarrow> None
      | Some None \<Rightarrow> plain_words src cs ws s e
      | Some (Some (text, a, b)) \<Rightarrow>
          plain_words src cs (ws @ [text]) (if s = None then Some a else s) (Some b))"

definition parse_plain_command_from_node :: "string \<Rightarrow> node \<Rightarrow> PlainCommand option" where
  "parse_plain_command_from_node src cmd =
     (if node_kind cmd \<noteq> ''command'' then None
      else map_option (\<lambda>(ws, s, e).
             \<lparr>cmd_words = ws,
              span_start = (case s of Some s \<Rightarrow> s | None \<Rightarrow> start_byte cmd),
              span_end = (case e of Some e \<Rightarrow> e | None \<Rightarrow> end_byte cmd)\<rparr>)
           (plain_words src (named_children cmd) [] None None))"

fun collect_commands :: "string \<Rightarrow> node list \<Rightarrow> PlainCommand list option" where
  "collect_commands src [] = Some []"
| "collect_commands src (n # ns) =
     (case parse_plain_command_from_node src n of
        None \<Rightarrow> None
      | Some c \<Rightarrow> map_option (\<lambda>cs. c # cs) (collect_commands src ns))"

definition try_parse_word_only_commands_sequence :: "tree \<Rightarrow> string \<Rightarrow> PlainCommand list option" where
  "try_parse_word_only_commands_sequence t src =
     (if tree_has_error t then None
      else case scan_nodes [root_node t] [] of
             None \<Rightarrow> None
           | Some command_nodes \<Rightarrow> collect_commands src (sort_key start_byte command_nodes))"

definition all_commands_from_script :: "(string \<Rightarrow> tree option) \<Rightarrow> string \<Rightarrow> PlainCommand list option" where
  "all_commands_from_script try_parse_shell script =
     Option.bind (try_parse_shell script) (\<lambda>t. try_parse_word_only_commands_sequence t script)"

section \<open>The primary command\<close>

definition is_setup_command :: "string list \<Rightarrow> bool" where
  "is_setup_command cmd \<longleftrightarrow>
     cmd = []
     \<or> hd cmd \<in> set [''cd'', ''pushd'', ''popd'', ''export'', ''unset'', ''set'', ''sleep'', ''timeout'']"

fun split_simple :: "string \<Rightarrow> bool \<Rightarrow> bool \<Rightarrow> string \<Rightarrow> string list \<Rightarrow> string list" where
  "split_simple [] in_single in_double current out = (if current = [] then out else out @ [current])"
| "split_simple (c # s) in_single in_double current out =
     (if c = sq \<and> \<not> in_double then split_simple s (\<not> in_single) in_double current out
      else if c = dq \<and> \<not> in_single then split_simple s in_single (\<not> in_double) current out
      else if c = bsl then
        (case s of
           [] \<Rightarrow> split_simple [] in_single in_double current out
         | d # s \<Rightarrow> split_simple s in_single in_double (current @ [d]) out)
      else if is_whitespace c \<and> \<not> in_single \<and> \<not> in_double then
        (if current = [] then split_simple s in_single in_double current out
         else split_simple s in_single in_double [] (out @ [current]))
      else split_simple s in_single in_double (current @ [c]) out)"

definition sh_split_simple :: "string \<Rightarrow> string list" where
  "sh_split_simple s = split_simple s False False [] []"

record BashCommandHighlights =
  hl_prefix :: "string list"
  highlighted_words :: "string list"
  hl_suffix :: "string list"

definition primary_command_from_script :: "(string \<Rightarrow> tree option) \<Rightarrow> string \<Rightarrow> BashCommandHighlights option" where
  "primary_command_from_script try_parse_shell script =
     Option.bind (try_parse_shell script) (\<lambda>t.
       Option.bind (try_parse_word_only_commands_sequence t script) (\<lambda>commands.
         map_option (\<lambda>primary.
           \<lparr>hl_prefix = sh_split_simple (take (span_start primary) script),
            highlighted_words = cmd_words primary,
            hl_suffix = sh_split_simple (drop (span_end primary) script)\<rparr>)
         (find (\<lambda>c. \<not> is_setup_command (cmd_words c)) commands)))"

section \<open>Wrapper commands\<close>

definition is_env_assignment :: "string \<Rightarrow> bool" where
  "is_env_assignment tok \<longleftrightarrow>
     (case split_once (CHR ''='') tok of
        None \<Rightarrow> False
      | Some (name, _) \<Rightarrow>
          name \<noteq> [] \<and> (is_ascii_alphabetic (hd name) \<or> hd name = CHR ''_'')
          \<and> list_all (\<lambda>b. is_ascii_alphanumeric b \<or> b = CHR ''_'') name)"

text \<open>An option of \<^verbatim>\<open>env\<close>: how many words it takes, and the directory it sets.\<close>

definition env_option :: "string \<Rightarrow> string list \<Rightarrow> string option \<Rightarrow> nat \<times> string option" where
  "env_option tok rest chdir =
     (if tok = ''-C'' \<or> tok = ''--chdir'' then (2, if rest = [] then None else Some (hd rest))
      else case strip_prefix tok ''--chdir='' of
             Some dir \<Rightarrow> (1, Some dir)
           | None \<Rightarrow>
               (if starts_with tok ''-C'' then (1, Some (drop 2 tok))
                else if tok \<in> set [''-u'', ''--unset'', ''-S'', ''--split-string''] then (2, chdir)
                else (1, chdir)))"

text \<open>The loops run over the words from index \<open>i\<close> on; an option may step over a missing value.\<close>

fun env_loop :: "string list \<Rightarrow> nat \<Rightarrow> string option \<Rightarrow> string option \<times> nat" where
  "env_loop [] i chdir = (chdir, i)"
| "env_loop (tok # rest) i chdir =
     (if tok = ''--'' then (chdir, i + 1)
      else if tok \<noteq> ''-'' \<and> starts_with tok ''-''
      then (case env_option tok rest chdir of
              (k, chdir) \<Rightarrow> env_loop (drop (k - 1) rest) (i + k) chdir)
      else if is_env_assignment tok then env_loop rest (i + 1) chdir
      else (chdir, i))"

definition env_scan :: "string list \<Rightarrow> string option \<times> nat" where
  "env_scan cmd = env_loop (drop 1 cmd) 1 None"

fun skip_flags :: "string list \<Rightarrow> string list \<Rightarrow> nat \<Rightarrow> nat" where
  "skip_flags with_value [] i = i"
| "skip_flags with_value (w # ws) i =
     (if starts_with w ''-''
      then (if w \<in> set with_value then skip_flags with_value (drop 1 ws) (i + 2)
            else skip_flags with_value ws (i + 1))
      else i)"

definition command_base :: "string \<Rightarrow> string" where
  "command_base w = last (split_pred (\<lambda>c. c = CHR ''/'' \<or> c = bsl) w)"

definition wrapper_operand :: "string list \<Rightarrow> nat \<Rightarrow> nat option" where
  "wrapper_operand cmd i = (if i \<ge> length cmd then None else Some (i + 1))"

definition wrapper_end :: "string list \<Rightarrow> nat option" where
  "wrapper_end cmd =
     (let head = command_base (hd cmd); rest = drop 1 cmd
      in if head = ''timeout''
         then wrapper_operand cmd (skip_flags [''-k'', ''-s'', ''--kill-after'', ''--signal''] rest 1)
         else if head = ''nice'' then Some (skip_flags [''-n'', ''--adjustment''] rest 1)
         else if head = ''ionice''
         then Some (skip_flags [''-c'', ''-n'', ''-p'', ''-P'', ''-u'', ''--class'', ''--classdata'', ''--pid'',
                                ''--pgid'', ''--uid''] rest 1)
         else if head = ''chrt'' then wrapper_operand cmd (skip_flags [] rest 1)
         else if head = ''stdbuf'' then Some (skip_flags [''-i'', ''-o'', ''-e''] rest 1)
         else if head = ''env'' then Some (snd (env_scan cmd))
         else None)"

definition strip_wrapper_command :: "string list \<Rightarrow> string list option" where
  "strip_wrapper_command cmd =
     (if cmd = [] then None
      else case wrapper_end cmd of
             None \<Rightarrow> None
           | Some i \<Rightarrow> (if i < length cmd then Some (drop i cmd) else None))"

definition is_wrapper_command :: "string list \<Rightarrow> bool" where
  "is_wrapper_command ws \<longleftrightarrow>
     ws \<noteq> [] \<and> command_base (hd ws) \<in> set [''timeout'', ''nice'', ''ionice'', ''chrt'', ''stdbuf'', ''env'']"

fun unwrap_loop :: "nat \<Rightarrow> string list \<Rightarrow> string list" where
  "unwrap_loop 0 current = current"
| "unwrap_loop (Suc k) current =
     (case strip_wrapper_command current of Some inner \<Rightarrow> unwrap_loop k inner | None \<Rightarrow> current)"

definition unwrap_wrappers :: "string list \<Rightarrow> string list" where
  "unwrap_wrappers ws = unwrap_loop 8 ws"

fun chdir_loop :: "nat \<Rightarrow> string list \<Rightarrow> bool" where
  "chdir_loop 0 current = False"
| "chdir_loop (Suc k) current =
     (if current \<noteq> [] \<and> command_base (hd current) = ''env'' \<and> fst (env_scan current) \<noteq> None then True
      else case strip_wrapper_command current of Some inner \<Rightarrow> chdir_loop k inner | None \<Rightarrow> False)"

definition wrapper_has_chdir :: "string list \<Rightarrow> bool" where
  "wrapper_has_chdir ws = chdir_loop 8 ws"

section \<open>The commands of a tree\<close>

fun all_nodes :: "node \<Rightarrow> node list" where
  "all_nodes (Node k nm f s e cs) = Node k nm f s e cs # concat (map all_nodes cs)"

definition nodes_of :: "node list \<Rightarrow> node list" where
  "nodes_of ns = concat (map all_nodes ns)"

lemma all_nodes_children: "all_nodes n = n # nodes_of (node_children n)"
  by (cases n) (simp add: nodes_of_def)

lemma nodes_of_simps [simp]:
  "nodes_of [] = []" "nodes_of (n # ns) = n # nodes_of (node_children n) @ nodes_of ns"
  by (simp_all add: nodes_of_def) (simp add: all_nodes_children nodes_of_def)

lemma mset_nodes_of_push: "mset (nodes_of (rev cs @ ns)) = mset (nodes_of cs @ nodes_of ns)"
  by (simp add: nodes_of_def mset_concat rev_map [symmetric] sum_list_rev)

text \<open>The walk sees every node: it fails exactly on a node that is not allowed.\<close>

lemma scan_nodes_all:
  "if list_all node_allowed (nodes_of stack)
   then \<exists>ns. scan_nodes stack cmds = Some (cmds @ ns) \<and> mset ns = mset (filter is_command (nodes_of stack))
   else scan_nodes stack cmds = None"
proof (induction stack cmds rule: scan_nodes.induct)
  case (2 n stack cmds)
  let ?push = "rev (node_children n) @ stack"
  have ms: "mset (nodes_of (n # stack)) = add_mset n (mset (nodes_of ?push))"
    by (simp add: mset_nodes_of_push)
  then have ok: "list_all node_allowed (nodes_of (n # stack)) \<longleftrightarrow> node_allowed n \<and> list_all node_allowed (nodes_of ?push)"
    unfolding list_all_iff by (metis insert_iff set_mset_add_mset_insert set_mset_mset)
  have f: "mset (filter is_command (nodes_of (n # stack)))
      = mset ((if is_command n then [n] else []) @ filter is_command (nodes_of ?push))"
    using ms by (simp del: nodes_of_simps)
  show ?case
  proof (cases "list_all node_allowed (nodes_of (n # stack))")
    case True
    with 2 ok obtain ns where
      "scan_nodes (n # stack) cmds = Some ((if is_command n then cmds @ [n] else cmds) @ ns)"
      "mset ns = mset (filter is_command (nodes_of ?push))"
      by auto
    with True f show ?thesis
      by (simp del: nodes_of_simps scan_nodes.simps)
  next
    case False
    with 2 ok show ?thesis by (auto simp del: nodes_of_simps)
  qed
qed simp

lemma scan_root:
  "\<not> list_all node_allowed (all_nodes r) \<Longrightarrow> scan_nodes [r] [] = None"
  "list_all node_allowed (all_nodes r) \<Longrightarrow>
     \<exists>ns. scan_nodes [r] [] = Some ns \<and> mset ns = mset (filter is_command (all_nodes r))"
  using scan_nodes_all [of "[r]" "[]"] by (simp_all add: nodes_of_def del: scan_nodes.simps nodes_of_simps)

lemma collect_commands_spec:
  "case collect_commands src ns of
     None \<Rightarrow> \<exists>n. n \<in> set ns \<and> parse_plain_command_from_node src n = None
   | Some cs \<Rightarrow> list_all2 (\<lambda>n c. parse_plain_command_from_node src n = Some c) ns cs"
  by (induction ns) (auto split: option.splits)

text \<open>What makes a single node unacceptable to the splitter.\<close>

definition rejected_node :: "string \<Rightarrow> node \<Rightarrow> bool" where
  "rejected_node src n \<longleftrightarrow>
     \<not> (node_allowed n \<and> (is_command n \<longrightarrow> parse_plain_command_from_node src n \<noteq> None))"

text \<open>
  C25. Splitting a script loses no command. When it succeeds, the tree has no error and holds
  only the constructs of the two lists, and the result is one plain command for each
  command node, in the order of the script; it fails only when the tree has an error, a
  construct outside the lists or a command whose words are not plain.
\<close>

theorem split_covers_commands:
  "case try_parse_word_only_commands_sequence t src of
     Some cmds \<Rightarrow>
       \<not> tree_has_error t \<and> list_all node_allowed (all_nodes (root_node t))
       \<and> (\<exists>ns. mset ns = mset (filter is_command (all_nodes (root_node t))) \<and> sorted (map start_byte ns)
             \<and> list_all2 (\<lambda>n c. parse_plain_command_from_node src n = Some c) ns cmds)
   | None \<Rightarrow>
       tree_has_error t
       \<or> (\<exists>n. n \<in> set (all_nodes (root_node t)) \<and> rejected_node src n)"
proof (cases "tree_has_error t \<or> \<not> list_all node_allowed (all_nodes (root_node t))")
  case True
  then have "try_parse_word_only_commands_sequence t src = None"
    using scan_root(1) [of "root_node t"]
    by (cases "tree_has_error t") (simp_all add: try_parse_word_only_commands_sequence_def del: scan_nodes.simps)
  with True show ?thesis by (auto simp: list_all_iff rejected_node_def)
next
  case False
  then obtain ns where ns: "scan_nodes [root_node t] [] = Some ns"
      "mset ns = mset (filter is_command (all_nodes (root_node t)))"
    using scan_root(2) [of "root_node t"] by blast
  define ms where "ms = sort_key start_byte ns"
  have ms: "mset ms = mset (filter is_command (all_nodes (root_node t)))" "sorted (map start_byte ms)"
    using ns(2) by (simp_all add: ms_def)
  then have "set ms = set (filter is_command (all_nodes (root_node t)))" by (metis set_mset_mset)
  moreover have "try_parse_word_only_commands_sequence t src = collect_commands src ms"
    using False ns(1) by (simp add: try_parse_word_only_commands_sequence_def ms_def del: scan_nodes.simps)
  ultimately show ?thesis
    using False ms collect_commands_spec [where src = src and ns = ms]
    by (cases "collect_commands src ms") (auto simp: rejected_node_def)
qed

section \<open>Peeling wrappers\<close>

text \<open>The unwrapped words end the words, and are not empty unless there are none.\<close>

lemma strip_wrapper_suffix:
  "strip_wrapper_command ws = Some inner \<Longrightarrow> suffix inner ws \<and> inner \<noteq> []"
  by (auto simp: strip_wrapper_command_def suffix_drop split: if_splits option.splits)

lemma unwrap_loop_suffix: "suffix (unwrap_loop k ws) ws \<and> (ws \<noteq> [] \<longrightarrow> unwrap_loop k ws \<noteq> [])"
  by (induction k arbitrary: ws)
    (auto split: option.splits dest: strip_wrapper_suffix intro: suffix_order.trans)

text \<open>The words of a wrapper: options with and without value, then what it takes before the command.\<close>

inductive flag_words :: "string list \<Rightarrow> string list \<Rightarrow> bool" for with_value where
  no_flag: "flag_words with_value []"
| value_flag: "f \<in> set with_value \<Longrightarrow> starts_with f ''-'' \<Longrightarrow> flag_words with_value fs \<Longrightarrow> flag_words with_value (f # x # fs)"
| plain_flag: "f \<notin> set with_value \<Longrightarrow> starts_with f ''-'' \<Longrightarrow> flag_words with_value fs \<Longrightarrow> flag_words with_value (f # fs)"

definition plain_head :: "string \<Rightarrow> bool" where
  "plain_head w \<longleftrightarrow> \<not> starts_with w ''-'' \<and> \<not> is_env_assignment w"

inductive wrapper_words :: "string list \<Rightarrow> bool" where
  timeout_words: "plain_head w \<Longrightarrow> command_base w = ''timeout'' \<Longrightarrow>
    flag_words [''-k'', ''-s'', ''--kill-after'', ''--signal''] fs \<Longrightarrow> \<not> starts_with d ''-'' \<Longrightarrow> wrapper_words (w # fs @ [d])"
| chrt_words: "plain_head w \<Longrightarrow> command_base w = ''chrt'' \<Longrightarrow>
    flag_words [] fs \<Longrightarrow> \<not> starts_with d ''-'' \<Longrightarrow> wrapper_words (w # fs @ [d])"
| nice_words: "plain_head w \<Longrightarrow> command_base w = ''nice'' \<Longrightarrow>
    flag_words [''-n'', ''--adjustment''] fs \<Longrightarrow> wrapper_words (w # fs)"
| ionice_words: "plain_head w \<Longrightarrow> command_base w = ''ionice'' \<Longrightarrow>
    flag_words [''-c'', ''-n'', ''-p'', ''-P'', ''-u'', ''--class'', ''--classdata'', ''--pid'', ''--pgid'', ''--uid''] fs \<Longrightarrow>
    wrapper_words (w # fs)"
| stdbuf_words: "plain_head w \<Longrightarrow> command_base w = ''stdbuf'' \<Longrightarrow>
    flag_words [''-i'', ''-o'', ''-e''] fs \<Longrightarrow> wrapper_words (w # fs)"
| env_words: "plain_head w \<Longrightarrow> command_base w = ''env'' \<Longrightarrow>
    list_all is_env_assignment as \<Longrightarrow> wrapper_words (w # as)"

lemma skip_flags_words:
  assumes "flag_words vs fs" "rest = [] \<or> \<not> starts_with (hd rest) ''-''"
  shows "skip_flags vs (fs @ rest) i = i + length fs"
  using assms
proof (induction arbitrary: i rule: flag_words.induct)
  case no_flag
  then show ?case by (cases rest) auto
qed auto

lemma env_loop_assignments:
  assumes "list_all is_env_assignment as" "rest = [] \<or> plain_head (hd rest)"
  shows "env_loop (as @ rest) i ch = (ch, i + length as)"
  using assms
proof (induction as arbitrary: i)
  case Nil
  then show ?case by (cases rest) (auto simp: plain_head_def)
next
  case (Cons a as)
  have "is_env_assignment a \<Longrightarrow> \<not> starts_with a ''-''"
    by (cases a) (auto simp: is_env_assignment_def char_class_defs split: if_splits option.splits)
  with Cons show ?case by (auto split: prod.splits)
qed

lemma strip_wrapper_words:
  assumes "wrapper_words ws" "cmd \<noteq> []" "plain_head (hd cmd)"
  shows "strip_wrapper_command (ws @ cmd) = Some cmd"
  using assms
proof (cases rule: wrapper_words.cases)
  case (timeout_words w fs d)
  then show ?thesis
    using assms(2) skip_flags_words [OF timeout_words(4), of "d # cmd" 1]
    by (simp add: strip_wrapper_command_def wrapper_end_def wrapper_operand_def)
next
  case (chrt_words w fs d)
  then show ?thesis
    using assms(2) skip_flags_words [OF chrt_words(4), of "d # cmd" 1]
    by (simp add: strip_wrapper_command_def wrapper_end_def wrapper_operand_def)
next
  case (env_words w as)
  then show ?thesis
    using assms(2,3) env_loop_assignments [OF env_words(4), of cmd 1 None]
    by (simp add: strip_wrapper_command_def wrapper_end_def env_scan_def)
qed (use assms(2,3) in \<open>simp add: strip_wrapper_command_def wrapper_end_def skip_flags_words plain_head_def\<close>)+

lemma strip_not_wrapper: "\<not> is_wrapper_command ws \<Longrightarrow> strip_wrapper_command ws = None"
  by (auto simp: strip_wrapper_command_def is_wrapper_command_def wrapper_end_def Let_def)

lemma wrapper_words_head: "wrapper_words ws \<Longrightarrow> ws \<noteq> [] \<and> plain_head (hd ws)"
  by (induction rule: wrapper_words.induct) auto

lemma unwrap_loop_words:
  assumes "list_all wrapper_words wss" "cmd \<noteq> []" "plain_head (hd cmd)"
  shows "unwrap_loop (length wss + k) (concat wss @ cmd) = unwrap_loop k cmd"
  using assms
proof (induction wss)
  case (Cons ws wss)
  have "concat wss @ cmd \<noteq> []" "plain_head (hd (concat wss @ cmd))"
    using Cons.prems by (cases wss; auto dest: wrapper_words_head simp: hd_append)+
  then have "strip_wrapper_command (ws @ concat wss @ cmd) = Some (concat wss @ cmd)"
    using Cons.prems by (intro strip_wrapper_words) auto
  with Cons show ?case by simp
qed simp

text \<open>Up to eight wrappers are peeled.\<close>

lemma unwrap_wrappers_words:
  assumes "list_all wrapper_words wss" "length wss \<le> 8" "cmd \<noteq> []" "plain_head (hd cmd)" "\<not> is_wrapper_command cmd"
  shows "unwrap_wrappers (concat wss @ cmd) = cmd"
proof -
  have "unwrap_loop k cmd = cmd" for k using assms(5) by (cases k) (auto simp: strip_not_wrapper)
  with unwrap_loop_words [OF assms(1,3,4), of "8 - length wss"] assms(2) show ?thesis
    by (simp add: unwrap_wrappers_def)
qed

end
