(* ===== verification/Shell_Paths.thy ===== *)
theory Shell_Paths
  imports Rust_Prelude
begin

text \<open>
  Paths in the permission system (\<^verbatim>\<open>permission/shell_access.rs\<close>, \<^verbatim>\<open>xai-grok-paths/src/lib.rs\<close>): the
  textual normalisation of shell operands, the resolution of symbolic links, and the paths
  whose edits are always asked about. A \<^verbatim>\<open>Path\<close> is the list of its components, which is how the
  standard library compares paths on Unix; the file system is a record of the three calls that
  are made.
\<close>

section \<open>Paths\<close>

datatype component = RootDir | CurDir | ParentDir | Normal string

type_synonym path = "component list"

definition slash_split :: "string \<Rightarrow> string list" where
  "slash_split s = split_pred (\<lambda>c. c = CHR ''/'') s"

definition components :: "string \<Rightarrow> path" where
  "components s =
     (if starts_with s ''/'' then [RootDir] else if hd (slash_split s) = ''.'' then [CurDir] else []) @
     map (\<lambda>p. if p = ''..'' then ParentDir else Normal p)
       (filter (\<lambda>p. p \<noteq> [] \<and> p \<noteq> ''.'') (slash_split s))"

fun component_text :: "component \<Rightarrow> string" where
  "component_text RootDir = []"
| "component_text CurDir = ''.''"
| "component_text ParentDir = ''..''"
| "component_text (Normal p) = p"

definition path_string :: "path \<Rightarrow> string" where
  "path_string p =
     (if p = [RootDir] then ''/'' else join_with ''/'' (map component_text p))"

definition is_absolute :: "path \<Rightarrow> bool" where
  "is_absolute p \<longleftrightarrow> p \<noteq> [] \<and> hd p = RootDir"

definition path_join :: "path \<Rightarrow> path \<Rightarrow> path" where
  "path_join p q = (if is_absolute q \<or> p = [] then q else p @ filter (\<lambda>c. c \<noteq> CurDir) q)"

definition path_parent :: "path \<Rightarrow> path option" where
  "path_parent p = (if p = [] \<or> last p = RootDir then None else Some (butlast p))"

definition path_file_name :: "path \<Rightarrow> component option" where
  "path_file_name p = (if p = [] then None else case last p of Normal n \<Rightarrow> Some (Normal n) | _ \<Rightarrow> None)"

datatype metadata_result = Exists bool | NotFound | MetadataError

text \<open>\<open>Exists\<close> says whether the file is a symbolic link.\<close>

record file_system =
  fs_canonicalize :: "path \<Rightarrow> path option"
  fs_symlink_metadata :: "path \<Rightarrow> metadata_result"
  fs_read_link :: "path \<Rightarrow> path option"

section \<open>Normalising operands\<close>

definition is_absolute_shell_path :: "string \<Rightarrow> bool" where
  "is_absolute_shell_path p \<longleftrightarrow>
     starts_with p ''/'' \<or> starts_with p ''~/'' \<or> (1 < length p \<and> p ! 1 = CHR '':'')"

definition quote_char :: "char \<Rightarrow> bool" where
  "quote_char c \<longleftrightarrow> c = dq \<or> c = sq"

definition normalize_shell_path_raw :: "string \<Rightarrow> string" where
  "normalize_shell_path_raw p =
     (let p = replace_char bsl (CHR ''/'') (trim_end_pred quote_char (dropWhile quote_char p))
      in case strip_prefix p ''/c/'' of Some rest \<Rightarrow> ''C:/'' @ rest | None \<Rightarrow> p)"

fun lexical_loop :: "bool \<Rightarrow> string list \<Rightarrow> string list \<Rightarrow> string list" where
  "lexical_loop absolute [] out = out"
| "lexical_loop absolute (segment # segments) out =
     (if segment = [] \<or> segment = ''.'' then lexical_loop absolute segments out
      else if segment = ''..'' then
        (if out \<noteq> [] \<and> last out \<noteq> ''..'' then lexical_loop absolute segments (butlast out)
         else if \<not> absolute then lexical_loop absolute segments (out @ [''..''])
         else lexical_loop absolute segments out)
      else lexical_loop absolute segments (out @ [segment]))"

definition lexical_normalize :: "string \<Rightarrow> string" where
  "lexical_normalize p =
     (let prefix_len = (if 1 < length p \<and> p ! 1 = CHR '':'' then 2 else 0);
          drive = take prefix_len p; rest = drop prefix_len p;
          absolute = starts_with rest ''/'';
          body = join_with ''/'' (lexical_loop absolute (slash_split rest) [])
      in if absolute then drive @ ''/'' @ body else drive @ body)"

definition normalize_shell_path :: "string \<Rightarrow> string" where
  "normalize_shell_path p = lexical_normalize (normalize_shell_path_raw p)"

text \<open>\<^verbatim>\<open>cwd.join(path).to_string_lossy()\<close>\<close>

definition join_text :: "string \<Rightarrow> string \<Rightarrow> string" where
  "join_text cwd p =
     (if starts_with p ''/'' \<or> cwd = [] then p
      else if last cwd = CHR ''/'' then cwd @ p else cwd @ ''/'' @ p)"

section \<open>Symbolic links\<close>

definition path_has_symlink :: "file_system \<Rightarrow> string \<Rightarrow> bool" where
  "path_has_symlink fs absolute =
     (let p = components absolute
      in is_absolute p \<and> list_ex (\<lambda>i. fs_symlink_metadata fs (take i p) = Exists True) [1..<Suc (length p)])"

text \<open>The depth counts up to 40 in the source; here the calls that are left count down from 41.\<close>

primrec resolve_following_symlinks :: "nat \<Rightarrow> file_system \<Rightarrow> path \<Rightarrow> path option" where
  "resolve_following_symlinks 0 fs p = None"
| "resolve_following_symlinks (Suc left) fs p =
     (case fs_canonicalize fs p of
        Some canonical \<Rightarrow> Some canonical
      | None \<Rightarrow>
          Option.bind (path_parent p) (\<lambda>parent.
            Option.bind (path_file_name p) (\<lambda>file_name.
              Option.bind (resolve_following_symlinks left fs parent) (\<lambda>resolved_parent.
                let candidate = path_join resolved_parent [file_name]
                in case fs_symlink_metadata fs candidate of
                     MetadataError \<Rightarrow> None
                   | Exists True \<Rightarrow>
                       Option.bind (fs_read_link fs candidate) (\<lambda>target.
                         resolve_following_symlinks left fs
                           (if is_absolute target then target else path_join resolved_parent target))
                   | _ \<Rightarrow> Some candidate))))"

definition MAX_SYMLINK_DEPTH :: nat where "MAX_SYMLINK_DEPTH = 40"

definition resolve_path :: "file_system \<Rightarrow> path \<Rightarrow> path option" where
  "resolve_path fs p = resolve_following_symlinks (Suc MAX_SYMLINK_DEPTH) fs p"

definition resolve_symlink_target :: "file_system \<Rightarrow> string \<Rightarrow> string option" where
  "resolve_symlink_target fs absolute =
     (let p = components absolute
      in if \<not> is_absolute p then None
         else map_option (\<lambda>r. normalize_shell_path (path_string r)) (resolve_path fs p))"

section \<open>Edits that are asked about\<close>

fun normalize_loop :: "path \<Rightarrow> path \<Rightarrow> path" where
  "normalize_loop [] out = out"
| "normalize_loop (CurDir # cs) out = normalize_loop cs out"
| "normalize_loop (ParentDir # cs) out =
     (case rev out of
        Normal p # _ \<Rightarrow> normalize_loop cs (butlast out)
      | RootDir # _ \<Rightarrow> normalize_loop cs out
      | _ \<Rightarrow> normalize_loop cs (out @ [ParentDir]))"
| "normalize_loop (c # cs) out = normalize_loop cs (out @ [c])"

definition normalize_lexically :: "path \<Rightarrow> path" where
  "normalize_lexically p = (let out = normalize_loop p [] in if out = [] then [CurDir] else out)"

fun protected_git_hooks_path :: "string list \<Rightarrow> bool" where
  "protected_git_hooks_path [] = False"
| "protected_git_hooks_path (c # cs) \<longleftrightarrow>
     c = ''.git'' \<and> cs \<noteq> [] \<and> hd cs = ''hooks''
     \<or> c = ''.git'' \<and> cs \<noteq> [] \<and> hd cs = ''modules'' \<and> ''hooks'' \<in> set (drop 2 cs)
     \<or> protected_git_hooks_path cs"

definition STARTUP_FILES :: "string list" where
  "STARTUP_FILES =
     [''.bashrc'', ''.bash_profile'', ''.bash_login'', ''.bash_logout'', ''.profile'', ''.zshrc'', ''.zshenv'',
      ''.zprofile'', ''.zlogin'', ''.zlogout'', ''.kshrc'', ''.cshrc'', ''.tcshrc'', ''.login'', ''.logout'',
      ''.inputrc'', ''.xprofile'']"

fun normal_names :: "path \<Rightarrow> string list" where
  "normal_names [] = []"
| "normal_names (Normal p # cs) = to_lowercase p # normal_names cs"
| "normal_names (c # cs) = normal_names cs"

definition etc_path :: path where
  "etc_path = [RootDir, Normal ''etc'']"

definition protected_edit_path :: "path \<Rightarrow> bool" where
  "protected_edit_path p \<longleftrightarrow>
     (let names = normal_names p; file_name = (if names = [] then [] else last names)
      in file_name \<in> set STARTUP_FILES
         \<or> protected_git_hooks_path names
         \<or> ''.ssh'' \<in> set names
         \<or> ends_with names [''.grok'', ''config.toml'']
         \<or> p = etc_path
         \<or> starts_with p etc_path)"

definition resolved_path_is_within_root :: "file_system \<Rightarrow> path \<Rightarrow> path \<Rightarrow> bool" where
  "resolved_path_is_within_root fs p root =
     (case resolve_path fs root of Some resolved_root \<Rightarrow> starts_with p resolved_root | None \<Rightarrow> True)"

definition edit_target_requires_prompt :: "file_system \<Rightarrow> path \<Rightarrow> bool" where
  "edit_target_requires_prompt fs p =
     (if \<not> is_absolute p then True
      else if protected_edit_path (normalize_lexically p) then True
      else case resolve_path fs p of
             None \<Rightarrow> True
           | Some resolved \<Rightarrow> protected_edit_path resolved \<or> resolved_path_is_within_root fs resolved etc_path)"

section \<open>Spellings of a path\<close>

lemma normalize_loop_append: "normalize_loop (p @ q) out = normalize_loop q (normalize_loop p out)"
  by (induction p out rule: normalize_loop.induct) (auto split: list.splits component.splits)

text \<open>Other spellings of a path: a dot, a detour through a directory, or going up from the root.\<close>

inductive respelled :: "path \<Rightarrow> path \<Rightarrow> bool" for p where
  same_path: "respelled p p"
| dot: "respelled p (a @ b) \<Longrightarrow> respelled p (a @ [CurDir] @ b)"
| detour: "respelled p (a @ b) \<Longrightarrow> respelled p (a @ [Normal x, ParentDir] @ b)"
| above_root: "respelled p (a @ RootDir # b) \<Longrightarrow> respelled p (a @ [RootDir, ParentDir] @ b)"

lemma respelled_normalize: "respelled p q \<Longrightarrow> normalize_lexically q = normalize_lexically p"
  by (induction rule: respelled.induct) (simp_all add: normalize_lexically_def normalize_loop_append Let_def)

text \<open>
  Sensitive files are asked about whatever their spelling: an edit is prompted for when the
  path is a respelling, with dots and detours, of a protected path, when its links lead to a
  protected file, and when they cannot be followed to the end.
\<close>

theorem protected_edit_prompted:
  assumes "respelled p q \<and> protected_edit_path (normalize_lexically p)
    \<or> (\<exists>r. resolve_path fs q = Some r \<and> protected_edit_path r) \<or> resolve_path fs q = None"
  shows "edit_target_requires_prompt fs q"
  using assms respelled_normalize [of p q] by (auto simp: edit_target_requires_prompt_def)

theorem protected_edit_prompted_witness:
  "components ''/home/u/x/.././.bashrc'' = [RootDir, Normal ''home'', Normal ''u'', Normal ''x'', ParentDir, Normal ''.bashrc'']
   \<and> edit_target_requires_prompt \<lparr>fs_canonicalize = Some, fs_symlink_metadata = (\<lambda>p. Exists False), fs_read_link = (\<lambda>p. None)\<rparr>
       (components ''/home/u/x/.././.bashrc'')"
proof -
  have c: "components ''/home/u/x/.././.bashrc'' = [RootDir, Normal ''home'', Normal ''u'', Normal ''x'', ParentDir, Normal ''.bashrc'']"
    by code_simp
  have "respelled (components ''/home/u/.bashrc'') ([RootDir, Normal ''home'', Normal ''u''] @ [Normal ''x'', ParentDir] @ [Normal ''.bashrc''])"
    by (rule detour) (simp add: components_def slash_split_def same_path)
  moreover have "protected_edit_path (normalize_lexically (components ''/home/u/.bashrc''))" by code_simp
  ultimately show ?thesis using protected_edit_prompted [OF disjI1, OF conjI] c by simp
qed

text \<open>
  What a resolution returns is no symbolic link, so a rule for the resolved path is a rule for
  the file that is opened: given that canonical paths of the file system are free of links, the
  resolution never ends on one, dangling links and files that do not exist yet included.
\<close>

theorem resolved_path_no_link:
  assumes "\<And>q c. fs_canonicalize fs q = Some c \<Longrightarrow> fs_symlink_metadata fs c \<noteq> Exists True"
    and "resolve_path fs p = Some r"
  shows "fs_symlink_metadata fs r \<noteq> Exists True"
proof -
  have "resolve_following_symlinks n fs p = Some r \<Longrightarrow> fs_symlink_metadata fs r \<noteq> Exists True" for n
  proof (induction n arbitrary: p)
    case (Suc n)
    then show ?case
      using assms(1) [of p r]
      by (auto simp: Let_def split: option.splits metadata_result.splits bool.splits bind_splits)
  qed simp
  then show ?thesis using assms(2) unfolding resolve_path_def by blast
qed

text \<open>A directory with a dangling link that is followed to the file it would create.\<close>

definition link_fs :: file_system where
  "link_fs =
     \<lparr>fs_canonicalize = (\<lambda>p. if p = [RootDir] then Some p else None),
      fs_symlink_metadata = (\<lambda>p. if p = [RootDir, Normal ''l''] then Exists True else NotFound),
      fs_read_link = (\<lambda>p. if p = [RootDir, Normal ''l''] then Some [Normal ''new''] else None)\<rparr>"

theorem resolved_path_no_link_witness:
  "resolve_path link_fs [RootDir, Normal ''l''] = Some [RootDir, Normal ''new'']
   \<and> fs_symlink_metadata link_fs [RootDir, Normal ''new''] \<noteq> Exists True"
proof -
  have r: "resolve_path link_fs [RootDir, Normal ''l''] = Some [RootDir, Normal ''new'']" by code_simp
  have "fs_symlink_metadata link_fs [RootDir, Normal ''new''] \<noteq> Exists True"
    by (rule resolved_path_no_link [OF _ r]) (auto simp: link_fs_def split: if_splits)
  with r show ?thesis ..
qed

end
