(* ===== verification/Shell_Access.thy ===== *)
theory Shell_Access
  imports Perm_Policy Shell_Paths
begin

text \<open>
  The file accesses of a shell script
  (\<^verbatim>\<open>xai-grok-workspace/src/permission/shell_access.rs\<close>): the files that the commands and redirections of
  a script read and write, and their check against the rules for reading and editing.
\<close>

section \<open>Operands\<close>

datatype ShellFileMode = ReadMode | WriteMode

definition reader_programs :: "string list" where
  "reader_programs =
     [''cat'', ''tac'', ''nl'', ''head'', ''tail'', ''grep'', ''egrep'', ''fgrep'', ''rg'', ''sed'', ''awk'', ''less'', ''more'',
      ''bat'', ''strings'', ''xxd'', ''od'', ''hexdump'', ''base64'', ''base32'', ''cut'', ''sort'', ''uniq'', ''wc'', ''type'',
      ''get-content'', ''gc'', ''diff'', ''comm'', ''rev'', ''jq'', ''yq'', ''select-string'', ''sls'', ''ag'', ''ack'', ''zcat'',
      ''zless'', ''zmore'', ''zgrep'', ''zegrep'', ''zfgrep'', ''bzcat'', ''bzgrep'', ''xzcat'', ''xzgrep'', ''zstdcat'', ''lz4cat'']"

definition writer_programs :: "string list" where
  "writer_programs = [''tee'', ''set-content'', ''out-file'', ''add-content'', ''tee-object'', ''truncate'']"

definition shell_file_mode :: "string \<Rightarrow> ShellFileMode option" where
  "shell_file_mode program =
     (if program \<in> set reader_programs then Some ReadMode
      else if program \<in> set writer_programs then Some WriteMode
      else None)"

definition shell_sed_in_place :: "string list \<Rightarrow> bool" where
  "shell_sed_in_place ws =
     list_ex (\<lambda>w. w = ''--in-place'' \<or> starts_with w ''--in-place=''
       \<or> (starts_with w ''-'' \<and> \<not> starts_with w ''--'' \<and> CHR ''i'' \<in> set w)) (drop 1 ws)"

text \<open>The values of an option, with the words behind each word at hand.\<close>

fun shell_output_flag_values :: "string list \<Rightarrow> string list" where
  "shell_output_flag_values [] = []"
| "shell_output_flag_values (token # rest) =
     (case strip_prefix token ''--output='' of
        Some v \<Rightarrow> [v]
      | None \<Rightarrow>
          (if starts_with token ''-o'' \<and> token \<noteq> ''-o'' then [drop 2 token]
           else if (token = ''--output'' \<or> token = ''-o'') \<and> rest \<noteq> [] then [hd rest]
           else [])) @ shell_output_flag_values rest"

fun value_flag_values :: "string \<Rightarrow> string list \<Rightarrow> string list" where
  "value_flag_values flag [] = []"
| "value_flag_values flag (token # rest) =
     (case strip_prefix token (flag @ ''='') of
        Some v \<Rightarrow> [v]
      | None \<Rightarrow>
          (if token = flag then (if rest = [] then [] else [hd rest])
           else if \<not> starts_with flag ''--'' then
             (case strip_prefix token flag of Some (c # v) \<Rightarrow> [c # v] | _ \<Rightarrow> [])
           else [])) @ value_flag_values flag rest"

fun file_candidates :: "bool \<Rightarrow> string list \<Rightarrow> string list" where
  "file_candidates end_of_options [] = []"
| "file_candidates end_of_options (token # ts) =
     (if \<not> end_of_options \<and> token = ''--'' then file_candidates True ts
      else if end_of_options \<or> (token \<noteq> ''-'' \<and> \<not> starts_with token ''-'')
      then token # file_candidates end_of_options ts
      else file_candidates end_of_options ts)"

definition shell_file_candidates :: "string list \<Rightarrow> string list" where
  "shell_file_candidates ws = file_candidates False (drop 1 ws)"

fun dd_operands :: "string list \<Rightarrow> (string \<times> ShellFileMode) list" where
  "dd_operands [] = []"
| "dd_operands (token # ts) =
     (case strip_prefix token ''if='' of
        Some p \<Rightarrow> [(p, ReadMode)]
      | None \<Rightarrow> (case strip_prefix token ''of='' of Some p \<Rightarrow> [(p, WriteMode)] | None \<Rightarrow> [])) @ dd_operands ts"

definition special_file_operands :: "string \<Rightarrow> string list \<Rightarrow> (string \<times> ShellFileMode) list" where
  "special_file_operands program ws =
     (if program = ''dd'' then dd_operands (drop 1 ws)
      else if program \<in> set [''sort'', ''go'', ''git'']
      then map (\<lambda>p. (p, WriteMode)) (shell_output_flag_values ws)
      else if program = ''rustc''
      then map (\<lambda>p. (p, WriteMode)) (shell_output_flag_values ws @ value_flag_values ''--out-dir'' ws)
      else if program = ''rustfmt'' then map (\<lambda>p. (p, WriteMode)) (shell_file_candidates ws)
      else [])"

definition shell_path_command_operands :: "string \<Rightarrow> string list \<Rightarrow> (string \<times> ShellFileMode) list option" where
  "shell_path_command_operands program ws =
     (let operands = shell_file_candidates ws
      in if program \<in> set [''cp'', ''mv'', ''ln'', ''install''] then
           (if operands = [] then None
            else Some (map (\<lambda>s. (s, ReadMode)) (butlast operands) @ [(last operands, WriteMode)]))
         else if program \<in> set [''rm'', ''rmdir'', ''mkdir'', ''touch''] then Some (map (\<lambda>c. (c, WriteMode)) operands)
         else if program = ''uniq'' then
           (case operands of
              input # output # _ \<Rightarrow> Some [(input, ReadMode), (output, WriteMode)]
            | _ \<Rightarrow> None)
         else None)"

definition shell_arg_is_ambiguous :: "string \<Rightarrow> bool" where
  "shell_arg_is_ambiguous token \<longleftrightarrow> list_ex (\<lambda>c. c \<in> set ''*?['') token"

definition is_directory_operand :: "string \<Rightarrow> bool" where
  "is_directory_operand token \<longleftrightarrow> token = ''.'' \<or> token = ''..'' \<or> ends_with token ''/''"

definition shell_reader_can_recurse :: "string \<Rightarrow> string list \<Rightarrow> string list \<Rightarrow> bool" where
  "shell_reader_can_recurse program ws candidates \<longleftrightarrow>
     (program \<in> set [''grep'', ''egrep'', ''fgrep'']
        \<and> list_ex (\<lambda>w. w = ''--recursive'' \<or> w = ''--dereference-recursive''
             \<or> (starts_with w ''-'' \<and> \<not> starts_with w ''--'' \<and> (CHR ''r'' \<in> set w \<or> CHR ''R'' \<in> set w))) ws)
     \<or> (program \<in> set [''rg'', ''ag'', ''ack'']
        \<and> (length candidates \<le> 1 \<or> list_ex is_directory_operand (drop 1 candidates)))"

definition shell_access :: "ShellFileMode \<Rightarrow> string \<Rightarrow> AccessKind" where
  "shell_access mode p = (case mode of ReadMode \<Rightarrow> ReadAccess (Some p) | WriteMode \<Rightarrow> EditAccess p)"

section \<open>The syntax tree\<close>

text \<open>The order in which a stack visits the nodes below those on it.\<close>

function walk_nodes :: "node list \<Rightarrow> node list" where
  "walk_nodes [] = []"
| "walk_nodes (n # stack) = n # walk_nodes (rev (node_children n) @ stack)"
  by pat_completeness auto
termination
  by (relation "measure (\<lambda>stack. sum_list (map size stack))")
    (simp_all add: rev_map [symmetric] children_size)

datatype ArgText = Literal string | Ambiguous

definition node_has_expansion :: "node \<Rightarrow> bool" where
  "node_has_expansion n =
     list_ex (\<lambda>c. node_kind c \<in> set [''expansion'', ''simple_expansion'', ''command_substitution'',
       ''arithmetic_expansion'', ''process_substitution'']) (drop 1 (walk_nodes [n]))"

definition unquote :: "char \<Rightarrow> string \<Rightarrow> string" where
  "unquote q raw =
     (case Option.bind (strip_prefix raw [q]) (\<lambda>s. map_option rev (strip_prefix (rev s) [q])) of
        Some s \<Rightarrow> s
      | None \<Rightarrow> raw)"

definition shell_node_arg :: "string \<Rightarrow> node \<Rightarrow> ArgText option" where
  "shell_node_arg src n =
     (let kind = node_kind n
      in if kind = ''variable_assignment'' then None
      else if kind = ''word'' \<or> kind = ''number'' then Some (Literal (utf8_text src n))
      else if kind = ''raw_string'' then Some (Literal (unquote sq (utf8_text src n)))
      else if kind = ''string'' then
        Some (if node_has_expansion n then Ambiguous else Literal (unquote dq (utf8_text src n)))
      else if kind = ''concatenation'' then
        Some (if node_has_expansion n then Ambiguous else Literal (utf8_text src n))
      else Some Ambiguous)"

fun invocation_words :: "string \<Rightarrow> node list \<Rightarrow> string list \<times> bool" where
  "invocation_words src [] = ([], False)"
| "invocation_words src (child # cs) =
     (let operand = (if node_kind child = ''command_name''
                     then (case named_children child of [] \<Rightarrow> None | inner # _ \<Rightarrow> shell_node_arg src inner)
                     else shell_node_arg src child);
          (ws, ambiguous) = invocation_words src cs
      in case operand of
           Some (Literal w) \<Rightarrow> (w # ws, ambiguous)
         | Some Ambiguous \<Rightarrow> (ws, True)
         | None \<Rightarrow> (ws, ambiguous))"

definition shell_command_invocations :: "string \<Rightarrow> node \<Rightarrow> (nat \<times> string list \<times> bool) list" where
  "shell_command_invocations src root =
     sort_key fst (map (\<lambda>n. (start_byte n, invocation_words src (named_children n)))
       (filter (\<lambda>n. node_kind n = ''command'') (walk_nodes [root])))"

fun redirect_kind :: "node list \<Rightarrow> string option" where
  "redirect_kind [] = None"
| "redirect_kind (c # cs) =
     (if contains_str (node_kind c) ''<<'' then None
      else if CHR ''>'' \<in> set (node_kind c) \<or> CHR ''<'' \<in> set (node_kind c) then Some (node_kind c)
      else redirect_kind cs)"

definition shell_redirect_one :: "string \<Rightarrow> node \<Rightarrow> (string option \<times> ShellFileMode \<times> bool) option" where
  "shell_redirect_one src n =
     (case redirect_kind (node_children n) of
        None \<Rightarrow> None
      | Some redirect \<Rightarrow>
          (let mode = (if CHR ''>'' \<in> set redirect then WriteMode else ReadMode);
               duplicates_fd = (redirect = ''>&'' \<or> redirect = ''<&'')
           in case child_by_field_name ''destination'' n of
                None \<Rightarrow> None
              | Some dest \<Rightarrow>
                  (case shell_node_arg src dest of
                     None \<Rightarrow> None
                   | Some Ambiguous \<Rightarrow> Some (None, mode, True)
                   | Some (Literal s) \<Rightarrow>
                       (if s = [] \<or> starts_with s ''&''
                           \<or> (duplicates_fd \<and> (s = ''-'' \<or> list_all is_ascii_digit s))
                        then None
                        else Some (Some s, mode, shell_arg_is_ambiguous s)))))"

fun redirects_of :: "string \<Rightarrow> node list \<Rightarrow> (nat \<times> string option \<times> ShellFileMode \<times> bool) list" where
  "redirects_of src [] = []"
| "redirects_of src (n # ns) =
     (if node_kind n = ''file_redirect''
      then (case shell_redirect_one src n of Some r \<Rightarrow> [(start_byte n, r)] | None \<Rightarrow> [])
      else []) @ redirects_of src ns"

definition shell_redirect_targets :: "string \<Rightarrow> node \<Rightarrow> (nat \<times> string option \<times> ShellFileMode \<times> bool) list" where
  "shell_redirect_targets src root = redirects_of src (walk_nodes [root])"

text \<open>
  Changes of the working directory. Instead of climbing from a command to the root, the walk
  carries along whether a node runs in the current shell: no node on the way has an ampersand
  behind it and no parent on the way is a construct with a shell of its own.
\<close>

fun flag_siblings :: "bool \<Rightarrow> node list \<Rightarrow> (node \<times> bool) list" where
  "flag_siblings ok [] = []"
| "flag_siblings ok (c # cs) = (c, ok \<and> (cs = [] \<or> node_kind (hd cs) \<noteq> ''&'')) # flag_siblings ok cs"

lemma flag_siblings_fst: "map fst (flag_siblings ok cs) = cs"
  by (induction cs) auto

lemma flag_siblings_size: "map (size \<circ> fst) (flag_siblings ok cs) = map size cs"
  by (induction cs) auto

definition own_shell_kinds :: "string list" where
  "own_shell_kinds = [''subshell'', ''pipeline'', ''command_substitution'', ''process_substitution'']"

function flagged_walk :: "(node \<times> bool) list \<Rightarrow> (node \<times> bool) list" where
  "flagged_walk [] = []"
| "flagged_walk ((n, ok) # stack) =
     (n, ok) # flagged_walk (rev (flag_siblings (ok \<and> node_kind n \<notin> set own_shell_kinds) (node_children n)) @ stack)"
  by pat_completeness auto
termination
  by (relation "measure (\<lambda>stack. sum_list (map (size \<circ> fst) stack))")
    (simp_all add: rev_map [symmetric] flag_siblings_size children_size)

definition cwd_poison_positions :: "string \<Rightarrow> node \<Rightarrow> nat list" where
  "cwd_poison_positions src root =
     map (start_byte \<circ> fst) (filter (\<lambda>(n, ok).
       node_kind n = ''command''
       \<and> (case child_by_field_name ''name'' n of
            None \<Rightarrow> False
          | Some c \<Rightarrow> command_base (utf8_text src c) \<in> set [''cd'', ''pushd'', ''popd''])
       \<and> ok) (flagged_walk [(root, True)]))"

definition cwd_unpinned_before :: "nat list \<Rightarrow> nat \<Rightarrow> bool" where
  "cwd_unpinned_before positions at = list_ex (\<lambda>p. p < at) positions"

section \<open>The gate\<close>

definition operand_text :: "(string \<Rightarrow> string) \<Rightarrow> string \<Rightarrow> string \<Rightarrow> string" where
  "operand_text norm cwd token =
     (let p = norm token in if is_absolute_shell_path p then p else norm (join_text cwd p))"

definition resolved_decision :: "'g perm_lib \<Rightarrow> file_system \<Rightarrow> 'g CompiledPolicy \<Rightarrow> string \<Rightarrow> string \<Rightarrow> ShellFileMode
    \<Rightarrow> PolicyDecision option" where
  "resolved_decision lib fs pol raw_absolute absolute mode =
     (case resolve_symlink_target fs raw_absolute of
        Some resolved \<Rightarrow>
          (if resolved \<noteq> absolute then drop_allow (evaluate_access lib pol (shell_access mode resolved)) else None)
      | None \<Rightarrow> (if path_has_symlink fs raw_absolute then Some AskUser else None))"

definition evaluate_shell_path :: "'g perm_lib \<Rightarrow> file_system \<Rightarrow> 'g CompiledPolicy \<Rightarrow> string \<Rightarrow> string \<Rightarrow> ShellFileMode
    \<Rightarrow> PolicyDecision option" where
  "evaluate_shell_path lib fs pol cwd token mode =
     (let absolute = operand_text normalize_shell_path cwd token;
          raw_absolute = operand_text normalize_shell_path_raw cwd token
      in combine_decisions
           (combine_decisions
             (drop_allow (evaluate_access lib pol (shell_access mode (normalize_shell_path token))))
             (drop_allow (evaluate_access lib pol (shell_access mode absolute))))
           (resolved_decision lib fs pol raw_absolute absolute mode))"

text \<open>The state of the loops: the decision so far and whether the user is asked in any case.\<close>

type_synonym gate_state = "PolicyDecision option \<times> bool"

definition check_operand :: "(string \<Rightarrow> ShellFileMode \<Rightarrow> PolicyDecision option) \<Rightarrow> string \<times> ShellFileMode
    \<Rightarrow> gate_state \<Rightarrow> gate_state" where
  "check_operand eval pm st =
     (combine_decisions (fst st) (eval (fst pm) (snd pm)), snd st \<or> shell_arg_is_ambiguous (fst pm))"

definition check_redirect :: "(string \<Rightarrow> ShellFileMode \<Rightarrow> PolicyDecision option) \<Rightarrow> nat list
    \<Rightarrow> nat \<times> string option \<times> ShellFileMode \<times> bool \<Rightarrow> gate_state \<Rightarrow> gate_state" where
  "check_redirect eval cwd_changes r st =
     (case r of (start, target, mode, ambiguous) \<Rightarrow>
        (case target of
           None \<Rightarrow> (fst st, snd st \<or> ambiguous)
         | Some p \<Rightarrow>
             (combine_decisions (fst st) (eval p mode),
              snd st \<or> ambiguous
              \<or> (cwd_unpinned_before cwd_changes start \<and> \<not> is_absolute_shell_path (normalize_shell_path p)))))"

text \<open>In-place \<^verbatim>\<open>sed\<close> reads and writes each operand.\<close>

definition operand_modes :: "string \<Rightarrow> string list \<Rightarrow> ShellFileMode list" where
  "operand_modes program ws =
     (case shell_file_mode program of
        None \<Rightarrow> []
      | Some mode \<Rightarrow> (if program = ''sed'' \<and> shell_sed_in_place ws then [ReadMode, WriteMode] else [mode]))"

definition program_of :: "string list \<Rightarrow> string" where
  "program_of ws = to_lowercase (command_base (hd ws))"

definition known_program :: "string \<Rightarrow> string list \<Rightarrow> bool" where
  "known_program program ws \<longleftrightarrow>
     program = ''dd'' \<or> shell_file_mode program \<noteq> None \<or> shell_path_command_operands program ws \<noteq> None"

definition check_invocation :: "(string \<Rightarrow> ShellFileMode \<Rightarrow> PolicyDecision option) \<Rightarrow> nat list \<Rightarrow> bool
    \<Rightarrow> nat \<times> string list \<times> bool \<Rightarrow> gate_state \<Rightarrow> gate_state" where
  "check_invocation eval cwd_changes parse_failed invocation st =
     (case invocation of (start, raw_words, arg_ambiguous) \<Rightarrow>
        (let ws = unwrap_wrappers raw_words; program = program_of ws
         in if ws = [] \<or> program = ''cd'' then st
            else
              (let cwd_unpinned = (cwd_unpinned_before cwd_changes start \<or> wrapper_has_chdir raw_words);
                   candidates = shell_file_candidates ws;
                   st = (fst st, snd st \<or> (known_program program ws \<and> (cwd_unpinned \<or> arg_ambiguous \<or> parse_failed)));
                   st = fold (check_operand eval) (special_file_operands program ws) st
               in if program = ''dd'' then st
                  else case shell_path_command_operands program ws of
                         Some operands \<Rightarrow> fold (check_operand eval) operands st
                       | None \<Rightarrow>
                           (let modes = operand_modes program ws;
                                st = fold (check_operand eval)
                                  (concat (map (\<lambda>token. map (\<lambda>mode. (token, mode)) modes) candidates)) st
                            in (fst st, snd st \<or> (modes \<noteq> [] \<and> shell_reader_can_recurse program ws candidates))))))"

definition evaluate_shell_file_access :: "'g perm_lib \<Rightarrow> file_system \<Rightarrow> 'g CompiledPolicy \<Rightarrow> string \<Rightarrow> string
    \<Rightarrow> PolicyDecision option" where
  "evaluate_shell_file_access lib fs pol cwd cmd =
     (if \<not> has_file_restrictions pol then None
      else case parse_shell lib cmd of
             None \<Rightarrow> None
           | Some tree \<Rightarrow>
               (let root = root_node tree;
                    eval = evaluate_shell_path lib fs pol cwd;
                    cwd_changes = cwd_poison_positions cmd root;
                    st = fold (check_redirect eval cwd_changes) (shell_redirect_targets cmd root) (None, False);
                    st = fold (check_invocation eval cwd_changes (tree_has_error tree))
                           (shell_command_invocations cmd root) st
                in combine_decisions (fst st) (if snd st then Some AskUser else None)))"

section \<open>The files a command writes\<close>

definition write_operands :: "(string \<times> ShellFileMode) list \<Rightarrow> string list" where
  "write_operands ops = map fst (filter (\<lambda>(p, mode). mode = WriteMode) ops)"

definition command_words_write_paths :: "string list \<Rightarrow> string list" where
  "command_words_write_paths ws =
     (let inner = unwrap_wrappers ws; program = program_of inner
      in if inner = [] then []
         else write_operands (special_file_operands program inner) @
              (case shell_path_command_operands program inner of
                 Some operands \<Rightarrow> write_operands operands
               | None \<Rightarrow>
                   (if shell_file_mode program = Some WriteMode \<or> (program = ''sed'' \<and> shell_sed_in_place inner)
                    then shell_file_candidates inner else [])))"

definition command_write_paths_in_tree :: "string \<Rightarrow> node \<Rightarrow> string list" where
  "command_write_paths_in_tree src root =
     concat (map (\<lambda>(_, target, mode, _).
       case target of Some p \<Rightarrow> (if mode = WriteMode then [p] else []) | None \<Rightarrow> []) (shell_redirect_targets src root)) @
     concat (map (\<lambda>(_, raw_words, _). command_words_write_paths raw_words) (shell_command_invocations src root))"

definition is_safe_write_sink :: "string \<Rightarrow> bool" where
  "is_safe_write_sink p \<longleftrightarrow> p \<in> set [''/dev/null'', ''/dev/stdout'', ''/dev/stderr'']"

section \<open>What the gate checks\<close>

text \<open>The operands of a command that are checked, in one list, and all those of a script.\<close>

definition command_touches :: "string list \<Rightarrow> (string \<times> ShellFileMode) list" where
  "command_touches raw_words =
     (let ws = unwrap_wrappers raw_words; program = program_of ws
      in if ws = [] \<or> program = ''cd'' then []
         else special_file_operands program ws @
           (if program = ''dd'' then []
            else case shell_path_command_operands program ws of
                   Some operands \<Rightarrow> operands
                 | None \<Rightarrow> concat (map (\<lambda>token. map (\<lambda>mode. (token, mode)) (operand_modes program ws)) (shell_file_candidates ws))))"

definition script_touches :: "string \<Rightarrow> node \<Rightarrow> (string \<times> ShellFileMode) set" where
  "script_touches src root =
     {(p, mode). \<exists>start ambiguous. (start, Some p, mode, ambiguous) \<in> set (shell_redirect_targets src root)}
     \<union> {pm. \<exists>start ws ambiguous. (start, ws, ambiguous) \<in> set (shell_command_invocations src root) \<and> pm \<in> set (command_touches ws)}"

lemma check_operand_grows: "severity (fst st) \<le> severity (fst (check_operand eval pm st))"
  by (simp add: check_operand_def)

lemma fst_fold_operands:
  "fst (fold (check_operand eval) ops (d, b)) = fst (fold (check_operand eval) ops (d, c))"
  by (induction ops arbitrary: d b c) (simp_all add: check_operand_def)

lemma check_invocation_touches:
  "fst (check_invocation eval cwd_changes parse_failed (start, ws, ambiguous) st) =
     fst (fold (check_operand eval) (command_touches ws) st)"
proof -
  have eq: "fst (fold (check_operand eval) ops (fst st, b)) = fst (fold (check_operand eval) ops st)" for ops st b
    using fst_fold_operands [of eval ops "fst st" b "snd st"] by simp
  have eq2: "fst (fold (check_operand eval) ops' (fold (check_operand eval) ops (fst st, b))) =
      fst (fold (check_operand eval) ops' (fold (check_operand eval) ops st))" for ops ops' b
    using eq [of "ops @ ops'" st b] by simp
  show ?thesis
    by (cases "shell_path_command_operands (program_of (unwrap_wrappers ws)) (unwrap_wrappers ws)")
      (simp_all add: check_invocation_def command_touches_def Let_def eq eq2)
qed

lemma check_invocation_grows: "severity (fst st) \<le> severity (fst (check_invocation eval cwd_changes parse_failed inv' st))"
  by (cases inv') (simp add: check_invocation_touches fold_grows [of "\<lambda>st. severity (fst st)", OF check_operand_grows])

lemma check_redirect_grows: "severity (fst st) \<le> severity (fst (check_redirect eval cwd_changes r st))"
  by (auto simp: check_redirect_def split: prod.split option.split)

text \<open>The decision on every file the script touches is part of the decision of the gate.\<close>

lemma gate_covers_touched:
  assumes "has_file_restrictions pol" "parse_shell lib cmd = Some tree" "(p, mode) \<in> script_touches cmd (root_node tree)"
  shows "severity (evaluate_shell_path lib fs pol cwd p mode) \<le> severity (evaluate_shell_file_access lib fs pol cwd cmd)"
proof -
  let ?eval = "evaluate_shell_path lib fs pol cwd" and ?root = "root_node tree"
  let ?st = "fold (check_redirect ?eval (cwd_poison_positions cmd ?root)) (shell_redirect_targets cmd ?root) (None, False)"
  let ?fin = "fold (check_invocation ?eval (cwd_poison_positions cmd ?root) (tree_has_error tree)) (shell_command_invocations cmd ?root) ?st"
  note grows = fold_grows [of "\<lambda>st. severity (fst st)", OF check_operand_grows]
    fold_grows [of "\<lambda>st. severity (fst st)", OF check_invocation_grows]
  have "severity (?eval p mode) \<le> severity (fst ?fin)"
    using assms(3) unfolding script_touches_def
  proof (elim UnE CollectE exE conjE case_prodE, goal_cases)
    case (1 a b start ambiguous)
    then have "(start, Some p, mode, ambiguous) \<in> set (shell_redirect_targets cmd ?root)" by simp
    then have "severity (?eval p mode) \<le> severity (fst ?st)"
      by (rule fold_reaches [of "\<lambda>st. severity (fst st)", OF check_redirect_grows]) (simp add: check_redirect_def)
    then show ?case using grows(2) by (rule order_trans)
  next
    case (2 start ws ambiguous)
    have "severity (?eval p mode) \<le> severity (fst (fold (check_operand ?eval) (command_touches ws) st))" for st
      by (rule fold_reaches [of "\<lambda>st. severity (fst st)", OF check_operand_grows 2(2)]) (simp add: check_operand_def)
    then show ?case
      by (intro fold_reaches [of "\<lambda>st. severity (fst st)", OF check_invocation_grows 2(1)]) (simp add: check_invocation_touches)
  qed
  then show ?thesis using assms(1,2) by (simp add: evaluate_shell_file_access_def Let_def)
qed

text \<open>The names under which an operand is looked up: as written, absolute, and with links resolved.\<close>

definition operand_names :: "file_system \<Rightarrow> string \<Rightarrow> string \<Rightarrow> string list" where
  "operand_names fs cwd token =
     [normalize_shell_path token, operand_text normalize_shell_path cwd token] @
     (case resolve_symlink_target fs (operand_text normalize_shell_path_raw cwd token) of Some r \<Rightarrow> [r] | None \<Rightarrow> [])"

lemma evaluate_shell_path_names:
  assumes "q \<in> set (operand_names fs cwd token)"
  shows "severity (drop_allow (evaluate_access lib pol (shell_access mode q))) \<le> severity (evaluate_shell_path lib fs pol cwd token mode)"
  using assms by (auto simp: operand_names_def evaluate_shell_path_def resolved_decision_def Let_def split: option.splits)

lemma evaluate_shell_path_escalates: "escalation (evaluate_shell_path lib fs (policy_new lib cfg) cwd token mode)"
  by (auto simp: evaluate_shell_path_def resolved_decision_def Let_def evaluate_access_escalates
      intro!: escalation_combine split: option.splits)

lemma gate_escalates: "escalation (evaluate_shell_file_access lib fs (policy_new lib cfg) cwd cmd)"
proof -
  let ?eval = "evaluate_shell_path lib fs (policy_new lib cfg) cwd"
  have op: "escalation (fst (check_operand ?eval pm st))" if "escalation (fst st)" for pm st
    using that by (simp add: check_operand_def escalation_combine evaluate_shell_path_escalates)
  have inv: "escalation (fst (check_invocation ?eval ch pf i st))" if "escalation (fst st)" for ch pf i st
    using that fold_keeps [of "\<lambda>st. escalation (fst st)", OF op] by (cases i) (simp add: check_invocation_touches)
  have red: "escalation (fst (check_redirect ?eval ch r st))" if "escalation (fst st)" for ch r st
    using that by (auto simp: check_redirect_def escalation_combine evaluate_shell_path_escalates split: prod.split option.split)
  show ?thesis
    by (auto simp: evaluate_shell_file_access_def Let_def split: option.split
        intro!: escalation_combine fold_keeps [of "\<lambda>st. escalation (fst st)", OF inv] fold_keeps [of "\<lambda>st. escalation (fst st)", OF red])
qed

interpretation file_gate: escalating_gate "evaluate_shell_file_access lib fs (policy_new lib cfg) cwd" for lib fs cfg cwd
  by unfold_locales (rule gate_escalates)

lemma denied_file_restricts:
  assumes "evaluate_access lib (policy_new lib cfg) (shell_access mode q) = Some (Reject r)"
  shows "has_file_restrictions (policy_new lib cfg)"
proof -
  have "list_ex (applies_as DenyRule lib (shell_access mode q)) (rules cfg)"
    using assms by (simp add: evaluate_access_cases(1) [symmetric])
  moreover have "tool_filter_matches (shell_access mode q) t \<Longrightarrow> t \<in> {ReadTool, EditTool, AnyTool}" for t
    by (cases t; cases mode) (auto simp: shell_access_def)
  ultimately show ?thesis
    by (fastforce simp: policy_new_def list_ex_iff applies_as_def applies_def restricts_def)
qed

lemma touched_file_refused:
  assumes "parse_shell lib cmd = Some tree" "(p, mode) \<in> script_touches cmd (root_node tree)"
    and "q \<in> set (operand_names fs cwd p)"
    and "evaluate_access lib (policy_new lib cfg) (shell_access mode q) = Some (Reject r)"
  shows "\<exists>r. evaluate_shell_file_access lib fs (policy_new lib cfg) cwd cmd = Some (Reject r)"
proof -
  have "3 \<le> severity (evaluate_shell_file_access lib fs (policy_new lib cfg) cwd cmd)"
    using evaluate_shell_path_names [OF assms(3), of lib "policy_new lib cfg" mode] assms(4)
      gate_covers_touched [OF denied_file_restricts [OF assms(4)] assms(1,2), of fs cwd]
    by (simp add: drop_allow_def)
  then show ?thesis using escalation_severity(1) [OF gate_escalates] by blast
qed

text \<open>Every file the commands of a script write, by the program's own list, is touched for writing.\<close>

lemma program_kinds:
  assumes "shell_path_command_operands program ws \<noteq> None \<or> shell_file_mode program \<noteq> None"
  shows "program \<noteq> ''dd''" "program \<noteq> ''cd''"
  using assms
  by (auto simp: shell_path_command_operands_def shell_file_mode_def reader_programs_def writer_programs_def Let_def)

lemma special_not_cd: "x \<in> set (special_file_operands program ws) \<Longrightarrow> program \<noteq> ''cd''"
  by (auto simp: special_file_operands_def)

lemma writers_write:
  assumes "shell_file_mode program = Some WriteMode \<or> program = ''sed'' \<and> shell_sed_in_place ws"
  shows "WriteMode \<in> set (operand_modes program ws)" "shell_file_mode program \<noteq> None"
proof -
  have "shell_file_mode ''sed'' = Some ReadMode" by code_simp
  with assms show "WriteMode \<in> set (operand_modes program ws)" "shell_file_mode program \<noteq> None"
    by (auto simp: operand_modes_def)
qed

lemma command_write_paths_touched:
  assumes "p \<in> set (command_words_write_paths raw_words)"
  shows "(p, WriteMode) \<in> set (command_touches raw_words)"
proof -
  define ws program where "ws = unwrap_wrappers raw_words" and "program = program_of ws"
  have ops: "p \<in> set (write_operands ops) \<longleftrightarrow> (p, WriteMode) \<in> set ops" for ops
    by (force simp: write_operands_def)
  have p: "ws \<noteq> []" "p \<in> set (write_operands (special_file_operands program ws)) \<or>
      p \<in> set (case shell_path_command_operands program ws of
                 Some operands \<Rightarrow> write_operands operands
               | None \<Rightarrow>
                   (if shell_file_mode program = Some WriteMode \<or> (program = ''sed'' \<and> shell_sed_in_place ws)
                    then shell_file_candidates ws else []))"
    using assms unfolding command_words_write_paths_def Let_def ws_def [symmetric] program_def [symmetric]
    by (cases "ws = []"; simp)+
  have touches: "command_touches raw_words = (if program = ''cd'' then [] else special_file_operands program ws @
      (if program = ''dd'' then []
       else case shell_path_command_operands program ws of
              Some operands \<Rightarrow> operands
            | None \<Rightarrow> concat (map (\<lambda>token. map (\<lambda>mode. (token, mode)) (operand_modes program ws)) (shell_file_candidates ws))))"
    unfolding command_touches_def Let_def ws_def [symmetric] program_def [symmetric] using p(1) by simp
  from p(2) show ?thesis
  proof
    assume "p \<in> set (write_operands (special_file_operands program ws))"
    then have "(p, WriteMode) \<in> set (special_file_operands program ws)" by (simp add: ops)
    moreover from this have "program \<noteq> ''cd''" by (rule special_not_cd)
    ultimately show ?thesis by (simp add: touches)
  next
    assume q: "p \<in> set (case shell_path_command_operands program ws of
                 Some operands \<Rightarrow> write_operands operands
               | None \<Rightarrow>
                   (if shell_file_mode program = Some WriteMode \<or> (program = ''sed'' \<and> shell_sed_in_place ws)
                    then shell_file_candidates ws else []))"
    show ?thesis
    proof (cases "shell_path_command_operands program ws")
      case None
      with q have w: "shell_file_mode program = Some WriteMode \<or> program = ''sed'' \<and> shell_sed_in_place ws"
          "p \<in> set (shell_file_candidates ws)"
        by (auto split: if_splits)
      with None program_kinds [of program ws] writers_write [OF w(1)] show ?thesis by (auto simp: touches)
    next
      case (Some operands)
      with q program_kinds [of program ws] show ?thesis by (simp add: touches ops)
    qed
  qed
qed

lemma write_paths_touched:
  assumes "p \<in> set (command_write_paths_in_tree src root)"
  shows "(p, WriteMode) \<in> script_touches src root"
  using assms command_write_paths_touched unfolding command_write_paths_in_tree_def script_touches_def
  by (fastforce split: option.splits if_splits)

text \<open>
  A write that a rule denies is refused: for every file that the program's own list of written
  files names (redirections, destinations of copies and moves, removals, in-place edits,
  output options, in any command and behind wrappers), an edit rule that denies the file as written, as
  an absolute path or with its links resolved makes the gate refuse the script.
\<close>

theorem denied_write_refused:
  assumes "parse_shell lib cmd = Some tree" "p \<in> set (command_write_paths_in_tree cmd (root_node tree))"
    and "q \<in> set (operand_names fs cwd p)"
    and "evaluate_access lib (policy_new lib cfg) (EditAccess q) = Some (Reject reason)"
  shows "\<exists>reason. evaluate_shell_file_access lib fs (policy_new lib cfg) cwd cmd = Some (Reject reason)"
  using touched_file_refused [OF assms(1) write_paths_touched [OF assms(2)] assms(3)] assms(4)
  by (simp add: shell_access_def)

text \<open>
  A read that a rule denies is refused: for every operand of a known reading program, behind
  wrappers and anywhere in the script, and for every input redirection. (With two
  operands \<^verbatim>\<open>uniq\<close> writes the second.)
\<close>

theorem denied_read_refused:
  assumes "parse_shell lib cmd = Some tree"
    and "(\<exists>start ambiguous. (start, Some p, ReadMode, ambiguous) \<in> set (shell_redirect_targets cmd (root_node tree)))
      \<or> (\<exists>start ws ambiguous. (start, ws, ambiguous) \<in> set (shell_command_invocations cmd (root_node tree))
           \<and> unwrap_wrappers ws \<noteq> [] \<and> program_of (unwrap_wrappers ws) \<in> set reader_programs - {''uniq''}
           \<and> p \<in> set (shell_file_candidates (unwrap_wrappers ws)))"
    and "q \<in> set (operand_names fs cwd p)"
    and "evaluate_access lib (policy_new lib cfg) (ReadAccess (Some q)) = Some (Reject reason)"
  shows "\<exists>reason. evaluate_shell_file_access lib fs (policy_new lib cfg) cwd cmd = Some (Reject reason)"
proof -
  have "(p, ReadMode) \<in> set (command_touches raw)"
    if "unwrap_wrappers raw \<noteq> []" "program_of (unwrap_wrappers raw) \<in> set reader_programs - {''uniq''}"
      "p \<in> set (shell_file_candidates (unwrap_wrappers raw))" for raw
  proof -
    let ?ws = "unwrap_wrappers raw"
    have m: "shell_file_mode (program_of ?ws) = Some ReadMode" using that(2) by (simp add: shell_file_mode_def)
    then have "ReadMode \<in> set (operand_modes (program_of ?ws) ?ws)" by (simp add: operand_modes_def)
    moreover have "shell_path_command_operands (program_of ?ws) ?ws = None"
      using that(2) by (auto simp: shell_path_command_operands_def reader_programs_def)
    ultimately show ?thesis
      using that(1,3) m program_kinds [of "program_of ?ws" ?ws] by (auto simp: command_touches_def Let_def)
  qed
  with assms(2) have "(p, ReadMode) \<in> script_touches cmd (root_node tree)"
    unfolding script_touches_def by blast
  from touched_file_refused [OF assms(1) this assms(3)] assms(4) show ?thesis by (simp add: shell_access_def)
qed

lemma asked_kept:
  "snd st \<Longrightarrow> snd (check_operand eval pm st)" "snd st \<Longrightarrow> snd (check_redirect eval ch r st)"
  "snd st \<Longrightarrow> snd (check_invocation eval ch pf i st)"
proof -
  show op: "snd st \<Longrightarrow> snd (check_operand eval pm st)" for pm st by (simp add: check_operand_def)
  show "snd st \<Longrightarrow> snd (check_redirect eval ch r st)"
    by (auto simp: check_redirect_def split: prod.split option.split)
  show "snd st \<Longrightarrow> snd (check_invocation eval ch pf i st)"
    by (auto simp: check_invocation_def Let_def intro!: fold_keeps [of snd, OF op] split: prod.split option.split)
qed

lemma unpinned_asked:
  assumes "unwrap_wrappers ws \<noteq> []" "known_program (program_of (unwrap_wrappers ws)) (unwrap_wrappers ws)"
    and "cwd_unpinned_before ch start \<or> wrapper_has_chdir ws \<or> ambiguous \<or> pf"
  shows "snd (check_invocation eval ch pf (start, ws, ambiguous) st)"
proof -
  have "program_of (unwrap_wrappers ws) \<noteq> ''cd''"
    using assms(2) program_kinds [of "program_of (unwrap_wrappers ws)" "unwrap_wrappers ws"] by (auto simp: known_program_def)
  with assms show ?thesis
    by (auto simp: check_invocation_def Let_def intro!: fold_keeps [of snd, OF asked_kept(1)] split: option.split)
qed

text \<open>
  Files that cannot be pinned down are asked about: when there are rules that restrict files, a
  known reading or writing program with an operand that is expanded at run time, in a script with a
  syntax error, under \<^verbatim>\<open>env -C\<close> or behind a change of the working directory, is asked about or
  refused; it is never let through without a word.
\<close>

theorem unpinned_files_asked:
  assumes "has_file_restrictions (policy_new lib cfg)" "parse_shell lib cmd = Some tree"
    and "(start, ws, ambiguous) \<in> set (shell_command_invocations cmd (root_node tree))" "unwrap_wrappers ws \<noteq> []"
    and "known_program (program_of (unwrap_wrappers ws)) (unwrap_wrappers ws)"
    and "cwd_unpinned_before (cwd_poison_positions cmd (root_node tree)) start \<or> wrapper_has_chdir ws
      \<or> ambiguous \<or> tree_has_error tree"
  shows "evaluate_shell_file_access lib fs (policy_new lib cfg) cwd cmd = Some AskUser
    \<or> (\<exists>reason. evaluate_shell_file_access lib fs (policy_new lib cfg) cwd cmd = Some (Reject reason))"
proof -
  let ?m = "\<lambda>st :: gate_state. if snd st then 1 else 0 :: nat"
  have grows: "?m st \<le> ?m (check_invocation eval ch pf i st)" for st eval ch pf i
    by (simp add: asked_kept(3))
  have "1 \<le> ?m (fold (check_invocation eval (cwd_poison_positions cmd (root_node tree)) (tree_has_error tree))
      (shell_command_invocations cmd (root_node tree)) st)" for eval st
    by (rule fold_reaches [of ?m, OF grows assms(3)]) (simp add: unpinned_asked [OF assms(4-6)])
  then have "snd (fold (check_invocation eval (cwd_poison_positions cmd (root_node tree)) (tree_has_error tree))
      (shell_command_invocations cmd (root_node tree)) st)" for eval st
    by (metis not_one_le_zero)
  then have "2 \<le> severity (evaluate_shell_file_access lib fs (policy_new lib cfg) cwd cmd)"
    using assms(1,2) by (simp add: evaluate_shell_file_access_def Let_def)
  then show ?thesis
    using escalation_severity(2) [OF gate_escalates [of lib fs cfg cwd cmd]] gate_escalates [of lib fs cfg cwd cmd]
    by (auto simp: escalation_def)
qed

section \<open>Examples\<close>

definition demo_fs :: file_system where
  "demo_fs = \<lparr>fs_canonicalize = Some, fs_symlink_metadata = (\<lambda>p. Exists False), fs_read_link = (\<lambda>p. None)\<rparr>"

definition file_denied :: "ToolFilter \<Rightarrow> PermissionConfig" where
  "file_denied tool = permission_config_new
     [\<lparr>rule_action = DenyRule, rule_tool = tool, rule_pattern = Some ''/w/f'', rule_pattern_mode = GlobMode\<rparr>]"

theorem denied_write_refused_witness:
  "command_write_paths_in_tree ''nice rm ./f'' (root_node (demo_tree ''nice rm ./f'')) = [''./f'']
   \<and> (\<exists>reason. evaluate_shell_file_access demo_perm_lib demo_fs (policy_new demo_perm_lib (file_denied EditTool)) ''/w''
        ''nice rm ./f'' = Some (Reject reason))"
proof -
  have p: "parse_shell demo_perm_lib ''nice rm ./f'' = Some (demo_tree ''nice rm ./f'')"
    by (simp add: demo_perm_lib_def)
  have w: "command_write_paths_in_tree ''nice rm ./f'' (root_node (demo_tree ''nice rm ./f'')) = [''./f'']" by code_simp
  then have m: "''./f'' \<in> set (command_write_paths_in_tree ''nice rm ./f'' (root_node (demo_tree ''nice rm ./f'')))"
    by simp
  have n: "''/w/f'' \<in> set (operand_names demo_fs ''/w'' ''./f'')" by code_simp
  have "evaluate_access demo_perm_lib (policy_new demo_perm_lib (file_denied EditTool)) (EditAccess ''/w/f'')
      = Some (Reject (deny_reason (hd (rules (file_denied EditTool)))))"
    by code_simp
  from denied_write_refused [OF p m n this] w show ?thesis by simp
qed

theorem denied_read_refused_witness:
  "shell_command_invocations ''cat x/../f'' (root_node (demo_tree ''cat x/../f'')) = [(0, [''cat'', ''x/../f''], False)]
   \<and> (\<exists>reason. evaluate_shell_file_access demo_perm_lib demo_fs (policy_new demo_perm_lib (file_denied ReadTool)) ''/w''
        ''cat x/../f'' = Some (Reject reason))"
proof -
  have p: "parse_shell demo_perm_lib ''cat x/../f'' = Some (demo_tree ''cat x/../f'')"
    by (simp add: demo_perm_lib_def)
  have i: "shell_command_invocations ''cat x/../f'' (root_node (demo_tree ''cat x/../f'')) = [(0, [''cat'', ''x/../f''], False)]"
    by code_simp
  have u: "unwrap_wrappers [''cat'', ''x/../f''] = [''cat'', ''x/../f'']" "program_of [''cat'', ''x/../f''] = ''cat''"
      "shell_file_candidates [''cat'', ''x/../f''] = [''x/../f'']"
    by code_simp+
  have "''cat'' \<in> set reader_programs - {''uniq''}" by code_simp
  with i u have m: "(\<exists>start ambiguous. (start, Some ''x/../f'', ReadMode, ambiguous)
        \<in> set (shell_redirect_targets ''cat x/../f'' (root_node (demo_tree ''cat x/../f''))))
      \<or> (\<exists>start ws ambiguous. (start, ws, ambiguous)
            \<in> set (shell_command_invocations ''cat x/../f'' (root_node (demo_tree ''cat x/../f'')))
           \<and> unwrap_wrappers ws \<noteq> [] \<and> program_of (unwrap_wrappers ws) \<in> set reader_programs - {''uniq''}
           \<and> ''x/../f'' \<in> set (shell_file_candidates (unwrap_wrappers ws)))"
    by (intro disjI2 exI [of _ 0] exI [of _ "[''cat'', ''x/../f'']"] exI [of _ False]) simp
  have n: "''/w/f'' \<in> set (operand_names demo_fs ''/w'' ''x/../f'')" by code_simp
  have "evaluate_access demo_perm_lib (policy_new demo_perm_lib (file_denied ReadTool)) (ReadAccess (Some ''/w/f''))
      = Some (Reject (deny_reason (hd (rules (file_denied ReadTool)))))"
    by code_simp
  from denied_read_refused [OF p m n this] i show ?thesis by simp
qed

theorem unpinned_files_asked_witness:
  "tree_has_error (demo_tree ''cat (f'')
   \<and> (evaluate_shell_file_access demo_perm_lib demo_fs (policy_new demo_perm_lib (file_denied ReadTool)) ''/w'' ''cat (f'' = Some AskUser
     \<or> (\<exists>reason. evaluate_shell_file_access demo_perm_lib demo_fs (policy_new demo_perm_lib (file_denied ReadTool)) ''/w'' ''cat (f''
          = Some (Reject reason)))"
proof -
  have p: "parse_shell demo_perm_lib ''cat (f'' = Some (demo_tree ''cat (f'')" by (simp add: demo_perm_lib_def)
  have i: "(0, [''cat'', ''(f''], False) \<in> set (shell_command_invocations ''cat (f'' (root_node (demo_tree ''cat (f'')))" by code_simp
  have r: "has_file_restrictions (policy_new demo_perm_lib (file_denied ReadTool))" by code_simp
  have u: "unwrap_wrappers [''cat'', ''(f''] \<noteq> []" by code_simp
  have k: "known_program (program_of (unwrap_wrappers [''cat'', ''(f''])) (unwrap_wrappers [''cat'', ''(f''])" by code_simp
  have e: "tree_has_error (demo_tree ''cat (f'')" by code_simp
  from unpinned_files_asked [OF r p i u k, where fs = demo_fs and cwd = "''/w''"] e show ?thesis by simp
qed

end
