(* ===== verification/Auto_Mode.thy ===== *)
theory Auto_Mode
  imports Shell_Access
begin

text \<open>
  Auto mode (\<^verbatim>\<open>xai-grok-workspace/src/permission/auto_mode.rs\<close>): the fast paths and the
  classifier that decide tool calls without asking the user. The heuristic classifier is
  modelled down to the command words. The model behind the side query is a function from
  messages to a reply, the JSON parser is a parameter.
\<close>

section \<open>The conversation\<close>

datatype ClassifierVerdict = VerdictAllow | VerdictBlock | VerdictUnavailable

datatype ClassifierTurn =
    UserText string
  | AssistantToolUse string string
  | PermissionDecisionTurn string string bool

fun render_turn :: "ClassifierTurn \<Rightarrow> string" where
  "render_turn (UserText text) = ''User: '' @ text"
| "render_turn (AssistantToolUse tool args) = tool @ '' '' @ args"
| "render_turn (PermissionDecisionTurn tool args approved) =
     (if approved
      then ''The user was asked before running '' @ tool @ '' '' @ args @ '' and approved it; it has run once.''
      else ''The user was asked about running '' @ tool @ '' '' @ args @ '' and declined it.'')"

record ClassifierContext =
  turns :: "ClassifierTurn list"
  project_instructions :: "string option"

definition transcript_text :: "ClassifierContext \<Rightarrow> string" where
  "transcript_text ctx = join_with [LF] (map render_turn (turns ctx))"

section \<open>Environment assignments\<close>

definition SAFE_ENV_KEYS :: "string list" where
  "SAFE_ENV_KEYS =
     [''CARGO_TERM_COLOR'', ''CARGO_TERM_PROGRESS_WHEN'', ''RUST_LOG'', ''RUST_LOG_STYLE'', ''RUST_BACKTRACE'',
      ''RUST_TEST_THREADS'', ''RUST_MIN_STACK'', ''NO_COLOR'', ''CLICOLOR'', ''CLICOLOR_FORCE'', ''FORCE_COLOR'',
      ''COLORTERM'']"

definition is_safe_env_key :: "string \<Rightarrow> bool" where
  "is_safe_env_key key \<longleftrightarrow> key \<in> set SAFE_ENV_KEYS"

definition assignment_key :: "string \<Rightarrow> node \<Rightarrow> string" where
  "assignment_key src n =
     (case find (\<lambda>c. node_kind c = ''variable_name'') (node_children n) of
        Some c \<Rightarrow> utf8_text src c
      | None \<Rightarrow> hd (split_pred (\<lambda>c. c = CHR ''='') (utf8_text src n)))"

text \<open>The arguments of one \<^verbatim>\<open>env\<close>, up to the command it runs.\<close>

fun env_args_unsafe :: "string list \<Rightarrow> bool" where
  "env_args_unsafe [] = False"
| "env_args_unsafe (arg # args) =
     (if arg = ''--'' then False
      else if starts_with arg ''-'' then True
      else case split_once (CHR ''='') arg of
             Some (key, _) \<Rightarrow> (if \<not> is_safe_env_key key then True else env_args_unsafe args)
           | None \<Rightarrow> False)"

primrec env_unsafe_loop :: "nat \<Rightarrow> string list \<Rightarrow> bool" where
  "env_unsafe_loop 0 current = False"
| "env_unsafe_loop (Suc k) current =
     (if current \<noteq> [] \<and> command_base (hd current) = ''env'' \<and> env_args_unsafe (tl current) then True
      else case strip_wrapper_command current of Some inner \<Rightarrow> env_unsafe_loop k inner | None \<Rightarrow> False)"

definition command_env_is_unsafe :: "string list \<Rightarrow> bool" where
  "command_env_is_unsafe ws = env_unsafe_loop 8 ws"

definition script_sets_unsafe_env :: "node \<Rightarrow> string \<Rightarrow> PlainCommand list \<Rightarrow> bool" where
  "script_sets_unsafe_env root src cmds \<longleftrightarrow>
     list_ex (\<lambda>n. node_kind n = ''variable_assignment'' \<and> \<not> is_safe_env_key (assignment_key src n)) (walk_nodes [root])
     \<or> list_ex (\<lambda>c. command_env_is_unsafe (cmd_words c)) cmds"

section \<open>Routine commands\<close>

definition ROUTINE_PREFIXES :: "string list" where
  "ROUTINE_PREFIXES =
     [''cargo '', ''git status'', ''git diff'', ''git log'', ''git branch'', ''git add'', ''git commit'', ''git checkout'',
      ''git switch'', ''git stash'', ''git pull'', ''git fetch'', ''git show'', ''git blame'', ''git grep'', ''git ls-files'',
      ''git rev-parse'', ''git describe'', ''git merge-base'', ''git worktree list'', ''pytest'', ''python '', ''python3 '',
      ''node '', ''rustc '', ''rustfmt'', ''clippy'', ''make '', ''cmake '', ''cd'', ''pushd'', ''popd'', ''ls'', ''pwd'', ''echo '',
      ''printf '', ''cat '', ''head '', ''tail '', ''wc '', ''rg '', ''grep '', ''which '', ''type '', ''true'', ''false'', ''test '',
      ''sort '', ''uniq '', ''tr '', ''cut '', ''diff '', ''jq '', ''date'', ''whoami'', ''hostname'', ''uname'', ''nproc'',
      ''printenv'', ''stat '', ''file '', ''tree'', ''basename '', ''dirname '', ''realpath '', ''readlink '', ''strings '',
      ''sleep '', ''df '', ''du '', ''ps '', ''top'', ''htop'', ''bazel '', ''just '', ''go '', ''kubectl get'', ''kubectl logs'',
      ''kubectl describe'', ''set'']"

definition is_lone_wrapper :: "string list \<Rightarrow> bool" where
  "is_lone_wrapper ws \<longleftrightarrow> length ws = 1 \<and> is_wrapper_command ws"

definition find_is_read_only :: "string list \<Rightarrow> bool" where
  "find_is_read_only ws \<longleftrightarrow>
     \<not> list_ex (\<lambda>w. w \<in> set [''-delete'', ''-exec'', ''-execdir'', ''-ok'', ''-okdir'', ''-fprint'', ''-fprint0'',
          ''-fprintf'', ''-fls'']) ws"

definition nonflag_tokens :: "string list \<Rightarrow> nat \<Rightarrow> string list" where
  "nonflag_tokens inner n = take n (filter (\<lambda>w. \<not> starts_with w ''-'') (drop 1 inner))"

definition gh_subcommand_is_read_only :: "string list \<Rightarrow> bool" where
  "gh_subcommand_is_read_only inner =
     (case nonflag_tokens inner 2 of
        [grp, sub] \<Rightarrow>
          grp \<in> set [''pr'', ''issue'', ''release'', ''run'', ''workflow'', ''repo'', ''gist'']
            \<and> sub \<in> set [''view'', ''list'', ''status'', ''checks'', ''diff'']
          \<or> grp = ''auth'' \<and> sub = ''status''
      | [s] \<Rightarrow> s = ''status''
      | _ \<Rightarrow> False)"

definition NPM_SAFE_SUBCOMMANDS :: "string list" where
  "NPM_SAFE_SUBCOMMANDS =
     [''install'', ''i'', ''ci'', ''add'', ''remove'', ''rm'', ''uninstall'', ''update'', ''up'', ''upgrade'', ''test'', ''t'', ''run'',
      ''run-script'', ''start'', ''build'', ''audit'', ''list'', ''ls'', ''ll'', ''outdated'', ''why'', ''view'', ''info'', ''dedupe'',
      ''prune'', ''version'', ''pack'', ''config'', ''link'', ''unlink'', ''rebuild'', ''store'', ''fetch'', ''import'']"

definition UV_SAFE_SUBCOMMANDS :: "string list" where
  "UV_SAFE_SUBCOMMANDS =
     [''sync'', ''pip'', ''lock'', ''venv'', ''add'', ''remove'', ''tree'', ''export'', ''build'', ''version'', ''python'',
      ''cache'', ''init'', ''self'', ''help'']"

definition RUSTUP_SAFE_SUBCOMMANDS :: "string list" where
  "RUSTUP_SAFE_SUBCOMMANDS =
     [''show'', ''toolchain'', ''component'', ''target'', ''default'', ''update'', ''which'', ''doc'', ''self'', ''completions'',
      ''set'', ''override'']"

definition launched_writes_nonsink :: "string list \<Rightarrow> bool" where
  "launched_writes_nonsink ws = list_ex (\<lambda>p. \<not> is_safe_write_sink p) (command_words_write_paths ws)"

definition npm_like :: "string \<Rightarrow> bool" where
  "npm_like head \<longleftrightarrow> head \<in> set [''npm'', ''pnpm'', ''yarn'']"

text \<open>\<^verbatim>\<open>inner.get(i)\<close>\<close>

definition get_word :: "nat \<Rightarrow> string list \<Rightarrow> string option" where
  "get_word i inner = (if i < length inner then Some (inner ! i) else None)"

definition launcher_subcommand :: "string \<Rightarrow> string list \<Rightarrow> string option" where
  "launcher_subcommand head inner =
     map_option (\<lambda>sub.
       if npm_like head \<and> sub = ''x'' then ''exec''
       else if npm_like head \<and> sub = ''innit'' then ''init''
       else sub) (get_word 1 inner)"

definition is_remote_launcher :: "string \<Rightarrow> string list \<Rightarrow> bool" where
  "is_remote_launcher head inner =
     (if head = ''npx'' \<or> head = ''uvx'' then True
      else if head = ''uv'' \<and> get_word 1 inner = Some ''tool'' \<and> get_word 2 inner = Some ''run'' then True
      else case launcher_subcommand head inner of
             None \<Rightarrow> False
           | Some sub \<Rightarrow>
               npm_like head
               \<and> (sub \<in> set [''dlx'', ''create'', ''explore'']
                  \<or> sub = ''init''
                     \<and> (case get_word 2 inner of Some a \<Rightarrow> \<not> starts_with a ''-'' | None \<Rightarrow> False)))"

datatype LaunchTarget = NotLauncher | LaunchInner "string list" | Unresolved

text \<open>The index of the launched command's first word; \<open>Inl\<close> is an early return.\<close>

definition launch_start :: "string \<Rightarrow> string \<Rightarrow> string list \<Rightarrow> LaunchTarget + nat" where
  "launch_start head sub inner =
     (if head = ''uv'' \<and> sub = ''run'' then Inr 2
      else if head = ''rustup'' \<and> sub = ''run'' then
        (case get_word 2 inner of
           Some toolchain \<Rightarrow> (if \<not> starts_with toolchain ''-'' then Inr 3 else Inl Unresolved)
         | None \<Rightarrow> Inl Unresolved)
      else if npm_like head \<and> sub = ''exec'' then Inr (if get_word 2 inner = Some ''--'' then 3 else 2)
      else Inl NotLauncher)"

definition explicit_launch_target :: "string \<Rightarrow> string list \<Rightarrow> LaunchTarget" where
  "explicit_launch_target head inner =
     (case launcher_subcommand head inner of
        None \<Rightarrow> NotLauncher
      | Some sub \<Rightarrow>
          (case launch_start head sub inner of
             Inl result \<Rightarrow> result
           | Inr start \<Rightarrow>
               (case get_word start inner of
                  Some tok \<Rightarrow> (if \<not> starts_with tok ''-'' then LaunchInner (drop start inner) else Unresolved)
                | None \<Rightarrow> Unresolved)))"

definition git_grep_opens_pager :: "string list \<Rightarrow> bool" where
  "git_grep_opens_pager inner \<longleftrightarrow>
     (case get_word 1 inner of Some s \<Rightarrow> eq_ignore_ascii_case s ''grep'' | None \<Rightarrow> False)
     \<and> list_ex (\<lambda>w.
          let flag = hd (split_pred (\<lambda>c. c = CHR ''='') w)
          in starts_with w ''-O'' \<or> starts_with flag ''--o'' \<and> starts_with ''--open-files-in-pager'' flag) inner"

definition tree_writes_file :: "string list \<Rightarrow> bool" where
  "tree_writes_file inner =
     list_ex (\<lambda>w. starts_with w ''-'' \<and> \<not> starts_with w ''--'' \<and> CHR ''o'' \<in> set w \<or> starts_with w ''--output'') inner"

text \<open>
  \<^verbatim>\<open>joined == base || (joined.starts_with(base) && joined[base.len()..].starts_with(' '))\<close>, which is also
  \<^verbatim>\<open>matches_command_prefix\<close> of the permission manager.
\<close>

definition word_prefix :: "string \<Rightarrow> string \<Rightarrow> bool" where
  "word_prefix cmd pattern \<longleftrightarrow>
     cmd = pattern \<or> starts_with cmd pattern \<and> starts_with (drop (length pattern) cmd) '' ''"

definition matches_routine_prefix :: "string list \<Rightarrow> bool" where
  "matches_routine_prefix inner =
     (let joined = to_lowercase (join_with '' '' inner)
      in list_ex (\<lambda>p. word_prefix joined (trim p)) ROUTINE_PREFIXES)"

definition package_managers :: "string list" where
  "package_managers = [''uv'', ''uvx'', ''npm'', ''npx'', ''pnpm'', ''yarn'', ''rustup'']"

definition safe_subcommand :: "string \<Rightarrow> string list \<Rightarrow> bool" where
  "safe_subcommand prog inner =
     (case launcher_subcommand prog inner of
        None \<Rightarrow> False
      | Some sub \<Rightarrow>
          (if npm_like prog then sub \<in> set NPM_SAFE_SUBCOMMANDS
           else if prog = ''uv'' then sub \<in> set UV_SAFE_SUBCOMMANDS
           else if prog = ''rustup'' then sub \<in> set RUSTUP_SAFE_SUBCOMMANDS
           else False))"

lemma launch_shrinks:
  "explicit_launch_target prog inner = LaunchInner launched \<Longrightarrow> length launched + 2 \<le> length inner"
  by (auto simp: explicit_launch_target_def launch_start_def get_word_def split: option.splits sum.splits if_splits)

lemma unwrap_wrappers_length: "length (unwrap_wrappers ws) \<le> length ws"
  by (metis unwrap_wrappers_def unwrap_loop_suffix suffix_length_le)

function bash_command_is_routine :: "string list \<Rightarrow> bool"
  and package_manager_subcommand_is_routine :: "string \<Rightarrow> string list \<Rightarrow> bool option" where
  "bash_command_is_routine ws =
     (let inner = unwrap_wrappers ws
      in if inner = [] \<or> is_lone_wrapper inner then True
         else
           (let head = to_lowercase (command_base (hd inner))
            in case package_manager_subcommand_is_routine head inner of
                 Some routine \<Rightarrow> routine
               | None \<Rightarrow>
                   (if head = ''find'' then find_is_read_only inner
                    else if head = ''git'' \<and> git_grep_opens_pager inner then False
                    else if head = ''tree'' \<and> tree_writes_file inner then False
                    else if head = ''gh'' then gh_subcommand_is_read_only inner
                    else matches_routine_prefix inner)))"
| "package_manager_subcommand_is_routine prog inner =
     (if prog \<notin> set package_managers then None
      else if is_remote_launcher prog inner then Some False
      else case explicit_launch_target prog inner of
             Unresolved \<Rightarrow> Some False
           | LaunchInner launched \<Rightarrow>
               Some (\<not> command_env_is_unsafe launched \<and> \<not> launched_writes_nonsink launched
                     \<and> bash_command_is_routine launched)
           | NotLauncher \<Rightarrow> Some (safe_subcommand prog inner))"
  by pat_completeness auto
termination
proof (relation "measure (\<lambda>x. case x of Inl ws \<Rightarrow> 2 * length ws + 1 | Inr (_, inner) \<Rightarrow> 2 * length inner)")
qed (use unwrap_wrappers_length launch_shrinks in \<open>fastforce simp: less_Suc_eq_le\<close>)+

declare bash_command_is_routine.simps [simp del] package_manager_subcommand_is_routine.simps [simp del]

section \<open>The heuristic classifier\<close>

definition classify_bash :: "(string \<Rightarrow> tree option) \<Rightarrow> string \<Rightarrow> ClassifierVerdict" where
  "classify_bash try_parse_shell cmd =
     (case try_parse_shell cmd of
        None \<Rightarrow> VerdictBlock
      | Some t \<Rightarrow>
          (case try_parse_word_only_commands_sequence t cmd of
             None \<Rightarrow> VerdictBlock
           | Some cmds \<Rightarrow>
               (if script_sets_unsafe_env (root_node t) cmd cmds then VerdictBlock
                else if list_ex (\<lambda>p. \<not> is_safe_write_sink p) (command_write_paths_in_tree cmd (root_node t)) then VerdictBlock
                else if cmds \<noteq> [] \<and> list_all (\<lambda>c. bash_command_is_routine (cmd_words c)) cmds then VerdictAllow
                else VerdictBlock)))"

definition dangerous_patterns :: "string list" where
  "dangerous_patterns =
     [''rm -rf /'', ''rm -rf /*'', ''mkfs'', ''dd if='', '':(){ :|:& };:'', ''curl | sh'', ''curl|sh'', ''curl | bash'',
      ''curl|bash'', ''wget | sh'', ''wget|sh'', ''wget | bash'', ''wget|bash'', ''chmod 777'', ''chmod -r 777'',
      ''chmod +x /tmp'', ''base64 -d'', ''base64 --decode'', ''nc -e'', ''ncat -e'', ''/dev/tcp/'', ''shutdown'', ''reboot'',
      ''useradd'', ''userdel'', ''passwd '', ''chown -r /'', ''iptables -f'', ''kill -9 1'', ''sudo rm'', ''sudo dd'',
      ''sudo mkfs'', ''exfiltrat'', ''steal credential'', ''send secrets'']"

definition hostile_intent :: "string list" where
  "hostile_intent =
     [''delete all files'', ''wipe the disk'', ''exfiltrate'', ''steal secrets'', ''send my credentials'',
      ''ignore safety'', ''bypass permission'']"

definition pipes_to_shell :: "string \<Rightarrow> bool" where
  "pipes_to_shell blob \<longleftrightarrow>
     list_ex (contains_str blob) [''curl'', ''wget'', ''fetch'']
     \<and> list_ex (contains_str blob) [''| sh'', ''|sh'', ''| bash'', ''|bash'', ''| zsh'', ''|zsh'']"

fun classify_access :: "(string \<Rightarrow> tree option) \<Rightarrow> AccessKind \<Rightarrow> ClassifierVerdict" where
  "classify_access parse (BashAccess cmd) = classify_bash parse cmd"
| "classify_access parse (WebFetchAccess url) = VerdictBlock"
| "classify_access parse (EditAccess p) = VerdictBlock"
| "classify_access parse (MCPToolAccess n i) = VerdictBlock"
| "classify_access parse (ReadAccess p) = VerdictAllow"
| "classify_access parse (GrepAccess p g) = VerdictAllow"
| "classify_access parse (WebSearchAccess q) = VerdictAllow"

definition classify_sync :: "(string \<Rightarrow> tree option) \<Rightarrow> string \<Rightarrow> AccessKind \<Rightarrow> string option \<Rightarrow> ClassifierContext
    \<Rightarrow> ClassifierVerdict" where
  "classify_sync parse tool_name access access_detail ctx =
     (let detail = to_lowercase (case access_detail of Some d \<Rightarrow> d | None \<Rightarrow> []);
          tool = to_lowercase tool_name;
          transcript = to_lowercase (transcript_text ctx);
          blob = tool @ '' '' @ detail @ '' '' @ transcript
      in if contains_str tool ''ask_user'' \<or> contains_str tool ''askuserquestion'' then VerdictBlock
         else if list_ex (contains_str blob) dangerous_patterns then VerdictBlock
         else if pipes_to_shell blob then VerdictBlock
         else if list_ex (contains_str transcript) hostile_intent then VerdictBlock
         else classify_access parse access)"

section \<open>Fast paths\<close>

definition access_requires_user_interaction :: "string \<Rightarrow> AccessKind \<Rightarrow> bool" where
  "access_requires_user_interaction tool_name access \<longleftrightarrow>
     (let t = to_lowercase tool_name
      in contains_str t ''ask_user'' \<or> contains_str t ''askuserquestion'' \<or> contains_str t ''user_question''
         \<or> t = ''ask_user_question'')
     \<or> (case access of
          MCPToolAccess name _ \<Rightarrow>
            (let n = to_lowercase name
             in contains_str n ''ask_user'' \<or> contains_str n ''confirm'' \<and> contains_str n ''human'')
        | _ \<Rightarrow> False)"

definition is_auto_mode_allowlisted_access :: "AccessKind \<Rightarrow> bool" where
  "is_auto_mode_allowlisted_access access =
     (case access of ReadAccess _ \<Rightarrow> True | GrepAccess _ _ \<Rightarrow> True | WebSearchAccess _ \<Rightarrow> True | _ \<Rightarrow> False)"

definition is_auto_mode_allowlisted_tool_name :: "string \<Rightarrow> bool" where
  "is_auto_mode_allowlisted_tool_name tool_name \<longleftrightarrow>
     tool_name \<in> set
       [''todo_write'', ''TodoWrite'', ''task_output'', ''TaskOutput'', ''wait_tasks'', ''WaitTasks'', ''ask_user_question'',
        ''AskUserQuestion'', ''enter_plan_mode'', ''EnterPlanMode'', ''exit_plan_mode'', ''ExitPlanMode'', ''switch_mode'',
        ''SwitchMode'', ''create_plan'', ''CreatePlan'', ''update_plan'', ''UpdatePlan'', ''list_mcp_resources'',
        ''ListMcpResources'', ''read_mcp_resource'', ''ReadMcpResource'', ''tool_search'', ''ToolSearch'', ''sleep'', ''Sleep'']"

datatype AutoFastPath = FastAllow | FastPromptUser | FastClassify

definition auto_mode_fast_path :: "AccessKind \<Rightarrow> string \<Rightarrow> bool \<Rightarrow> AutoFastPath" where
  "auto_mode_fast_path access tool_name requires_user_interaction =
     (if requires_user_interaction then FastPromptUser
      else if is_auto_mode_allowlisted_access access \<or> is_auto_mode_allowlisted_tool_name tool_name then FastAllow
      else case access of
             EditAccess _ \<Rightarrow> FastAllow
           | BashAccess cmd \<Rightarrow> (if trim cmd \<in> set [''true'', '':'', ''false''] then FastAllow else FastClassify)
           | _ \<Rightarrow> FastClassify)"

section \<open>The side query\<close>

datatype ClassifierMessageRole = SystemRole | UserRole

datatype ClassifierPromptType = FullPrompt | NoUserToolPrefix | BareInstructions | JustCommand

record ClassifierMessage =
  message_role :: ClassifierMessageRole
  message_text :: string

definition access_kind_name :: "AccessKind \<Rightarrow> string" where
  "access_kind_name access =
     (case access of
        ReadAccess _ \<Rightarrow> ''read'' | GrepAccess _ _ \<Rightarrow> ''grep'' | EditAccess _ \<Rightarrow> ''edit'' | BashAccess _ \<Rightarrow> ''bash''
      | MCPToolAccess _ _ \<Rightarrow> ''mcp'' | WebFetchAccess _ \<Rightarrow> ''web_fetch'' | WebSearchAccess _ \<Rightarrow> ''web_search'')"

definition CLASSIFIER_JSON_INSTRUCTION :: string where
  "CLASSIFIER_JSON_INSTRUCTION =
     ''Respond with JSON only: {'' @ [dq] @ ''thinking'' @ [dq] @ '':'' @ [dq] @ ''...'' @ [dq] @ '','' @ [dq] @
     ''shouldBlock'' @ [dq] @ '':true|false,'' @ [dq] @ ''reason'' @ [dq] @ '':'' @ [dq] @ ''...'' @ [dq] @ ''}''"

definition agents_md_text :: "string \<Rightarrow> string" where
  "agents_md_text agents_md =
     ''The following is the user'' @ [sq] @ ''s AGENTS.md configuration. These are instructions the user provided to '' @
     ''the agent and should be treated as part of the user'' @ [sq] @ ''s intent when evaluating actions.'' @ [LF, LF] @
     ''<project_instructions>'' @ [LF] @ agents_md @ [LF] @ ''</project_instructions>''"

definition proposed_action :: "string \<Rightarrow> AccessKind \<Rightarrow> string option \<Rightarrow> string" where
  "proposed_action tool_name access access_detail =
     ''tool: '' @ tool_name @ [LF] @ ''access_kind: '' @ access_kind_name access @ [LF] @
     ''detail: '' @ (case access_detail of Some d \<Rightarrow> d | None \<Rightarrow> ''(none)'')"

definition trailing_text :: "ClassifierPromptType \<Rightarrow> ClassifierContext \<Rightarrow> string \<Rightarrow> string" where
  "trailing_text prompt_type ctx action =
     (let judged = ''## Proposed action'' @ [LF] @ action @ [LF, LF] @ CLASSIFIER_JSON_INSTRUCTION
      in case prompt_type of
           FullPrompt \<Rightarrow>
             ''## Recent conversation'' @ [LF] @
             (if turns ctx = [] then ''(no recent conversation context)'' else transcript_text ctx) @ [LF, LF] @ judged
         | NoUserToolPrefix \<Rightarrow> judged
         | BareInstructions \<Rightarrow> judged
         | JustCommand \<Rightarrow> action)"

text \<open>The fixed text of the system prompt is an argument.\<close>

definition build_classifier_messages :: "string \<Rightarrow> string \<Rightarrow> AccessKind \<Rightarrow> string option \<Rightarrow> ClassifierContext
    \<Rightarrow> ClassifierPromptType \<Rightarrow> ClassifierMessage list" where
  "build_classifier_messages system_prompt tool_name access access_detail ctx prompt_type =
     [\<lparr>message_role = SystemRole, message_text = system_prompt\<rparr>] @
     (if prompt_type = FullPrompt \<or> prompt_type = NoUserToolPrefix
      then (case project_instructions ctx of
              Some agents_md \<Rightarrow> [\<lparr>message_role = UserRole, message_text = agents_md_text agents_md\<rparr>]
            | None \<Rightarrow> [])
      else []) @
     [\<lparr>message_role = UserRole,
       message_text = trailing_text prompt_type ctx (proposed_action tool_name access access_detail)\<rparr>]"

fun json_as_bool :: "json \<Rightarrow> bool option" where
  "json_as_bool (JBool b) = Some b"
| "json_as_bool _ = None"

definition verdict_of :: "bool \<Rightarrow> ClassifierVerdict" where
  "verdict_of should_block = (if should_block then VerdictBlock else VerdictAllow)"

definition json_verdict :: "json \<Rightarrow> bool option" where
  "json_verdict v =
     (case Option.bind (json_get ''shouldBlock'' v) json_as_bool of
        Some b \<Rightarrow> Some b
      | None \<Rightarrow> Option.bind (json_get ''should_block'' v) json_as_bool)"

definition embedded_json :: "string \<Rightarrow> string option" where
  "embedded_json trimmed =
     (case (find_idx (\<lambda>c. c = CHR ''{'') trimmed, rfind_idx (\<lambda>c. c = CHR ''}'') trimmed) of
        (Some start, Some stop) \<Rightarrow>
          (if stop > start then Some (take (Suc stop - start) (drop start trimmed)) else None)
      | _ \<Rightarrow> None)"

definition embedded_verdict :: "json \<Rightarrow> bool option" where
  "embedded_verdict v =
     Option.bind (case json_get ''shouldBlock'' v of Some x \<Rightarrow> Some x | None \<Rightarrow> json_get ''should_block'' v) json_as_bool"

definition terse_verdict :: "string \<Rightarrow> ClassifierVerdict" where
  "terse_verdict lower =
     (if contains_str lower ([dq] @ ''shouldblock'' @ [dq] @ '': true'') \<or> contains_str lower (''shouldblock'' @ [dq] @ '':true'')
      then VerdictBlock
      else if trim lower \<in> set [''block'', ''blocked'', ''deny'', ''denied''] then VerdictBlock
      else if trim lower \<in> set [''allow'', ''allowed'', ''approve'', ''approved''] then VerdictAllow
      else VerdictUnavailable)"

definition parse_classifier_model_text :: "(string \<Rightarrow> json option) \<Rightarrow> string \<Rightarrow> ClassifierVerdict" where
  "parse_classifier_model_text from_str text =
     (let trimmed = trim text
      in if trimmed = [] then VerdictUnavailable
         else case Option.bind (from_str trimmed) json_verdict of
                Some b \<Rightarrow> verdict_of b
              | None \<Rightarrow>
                  (case Option.bind (Option.bind (embedded_json trimmed) from_str) embedded_verdict of
                     Some b \<Rightarrow> verdict_of b
                   | None \<Rightarrow> terse_verdict (to_lowercase trimmed)))"

text \<open>
  A side query answers the messages or fails. The source prefers the session's channel over a
  direct callback.
\<close>

record LlmPermissionClassifier =
  classify_text :: "(ClassifierMessage list \<Rightarrow> string option) option"
  classify_channel :: "(ClassifierMessage list \<Rightarrow> string option) option"
  prompt_type :: ClassifierPromptType

definition has_side_query :: "LlmPermissionClassifier \<Rightarrow> bool" where
  "has_side_query clf \<longleftrightarrow> classify_text clf \<noteq> None \<or> classify_channel clf \<noteq> None"

definition production_default :: LlmPermissionClassifier where
  "production_default = \<lparr>classify_text = None, classify_channel = None, prompt_type = FullPrompt\<rparr>"

record classifier_lib =
  clf_parse_shell :: "string \<Rightarrow> tree option"
  clf_from_str :: "string \<Rightarrow> json option"
  clf_system_prompt :: string

definition llm_classify :: "classifier_lib \<Rightarrow> LlmPermissionClassifier \<Rightarrow> string \<Rightarrow> AccessKind \<Rightarrow> string option
    \<Rightarrow> ClassifierContext \<Rightarrow> ClassifierVerdict" where
  "llm_classify lib clf tool_name access access_detail ctx =
     (let heuristic = classify_sync (clf_parse_shell lib) tool_name access access_detail ctx
      in if heuristic = VerdictAllow then VerdictAllow
         else
           (let messages = build_classifier_messages (clf_system_prompt lib) tool_name access access_detail ctx (prompt_type clf);
                model_text = (case classify_channel clf of
                                Some query \<Rightarrow> query messages
                              | None \<Rightarrow> (case classify_text clf of Some query \<Rightarrow> query messages | None \<Rightarrow> None))
            in case model_text of
                 Some text \<Rightarrow>
                   (let v = parse_classifier_model_text (clf_from_str lib) text
                    in if v \<noteq> VerdictUnavailable then v else heuristic)
               | None \<Rightarrow> heuristic))"

section \<open>What the heuristic lets through\<close>

text \<open>The programs a routine command can run, in the spelling of the last path component.\<close>

definition routine_programs :: "string list" where
  "routine_programs =
     [''cargo'', ''git'', ''pytest'', ''python'', ''python3'', ''node'', ''rustc'', ''rustfmt'', ''clippy'', ''make'', ''cmake'', ''cd'',
      ''pushd'', ''popd'', ''ls'', ''pwd'', ''echo'', ''printf'', ''cat'', ''head'', ''tail'', ''wc'', ''rg'', ''grep'', ''which'', ''type'',
      ''true'', ''false'', ''test'', ''sort'', ''uniq'', ''tr'', ''cut'', ''diff'', ''jq'', ''date'', ''whoami'', ''hostname'', ''uname'',
      ''nproc'', ''printenv'', ''stat'', ''file'', ''tree'', ''basename'', ''dirname'', ''realpath'', ''readlink'', ''strings'',
      ''sleep'', ''df'', ''du'', ''ps'', ''top'', ''htop'', ''bazel'', ''just'', ''go'', ''kubectl'', ''set'',
      ''find'', ''gh'', ''uv'', ''npm'', ''pnpm'', ''yarn'', ''rustup'']"


text \<open>The commands that a command runs in the end: behind its wrappers, and behind package managers that launch one.\<close>

inductive launches :: "string list \<Rightarrow> string list \<Rightarrow> bool" where
  itself: "unwrap_wrappers ws = c \<Longrightarrow> c \<noteq> [] \<Longrightarrow> launches ws c"
| launched: "unwrap_wrappers ws = c \<Longrightarrow> c \<noteq> []
    \<Longrightarrow> explicit_launch_target (to_lowercase (command_base (hd c))) c = LaunchInner l \<Longrightarrow> launches l d
    \<Longrightarrow> launches ws d"

definition known_command :: "string list \<Rightarrow> bool" where
  "known_command c \<longleftrightarrow>
     is_lone_wrapper c \<or> CHR '' '' \<in> set (hd c) \<or> to_lowercase (command_base (hd c)) \<in> set routine_programs"

definition first_word :: "string \<Rightarrow> string" where
  "first_word s = takeWhile (\<lambda>c. c \<noteq> CHR '' '') s"

lemma first_word_simps [simp]:
  "first_word [] = []" "first_word (c # s) = (if c = CHR '' '' then [] else c # first_word s)"
  by (simp_all add: first_word_def)

lemma first_word_append: "first_word (p @ CHR '' '' # r) = first_word p"
  by (induction p) auto

lemma first_word_prefix: "word_prefix s p \<Longrightarrow> first_word s = first_word p"
  by (auto simp: word_prefix_def starts_with_iff prefix_def first_word_append)

lemma to_lower_char_eq:
  assumes "\<not> is_ascii_alphabetic a"
  shows "to_lower_char c = a \<longleftrightarrow> c = a"
proof (cases "is_ascii_uppercase c")
  case True
  then have "is_ascii_lowercase (to_lower_char c)"
    by (simp add: to_lower_char_def is_ascii_uppercase_def is_ascii_lowercase_def)
  with True assms show ?thesis by (auto simp: is_ascii_alphabetic_def)
qed (simp add: to_lower_char_def)

lemma lower_separators [simp]:
  "to_lower_char c = CHR '' '' \<longleftrightarrow> c = CHR '' ''" "to_lower_char c = CHR ''/'' \<longleftrightarrow> c = CHR ''/''" "to_lower_char c = bsl \<longleftrightarrow> c = bsl"
  by (simp_all add: to_lower_char_eq char_class_defs)

lemma first_word_lower: "first_word (to_lowercase s) = to_lowercase (first_word s)"
  by (induction s) auto

lemma first_word_plain: "CHR '' '' \<notin> set s \<Longrightarrow> first_word s = s"
  by (induction s) auto

lemma first_word_join:
  assumes "ws \<noteq> []" "CHR '' '' \<notin> set (hd ws)"
  shows "first_word (join_with '' '' ws) = hd ws"
  using assms by (cases ws rule: list.exhaust, simp, cases "tl ws") (auto simp: first_word_append first_word_plain)

lemma routine_prefix_programs:
  "list_all (\<lambda>p. first_word (trim p) \<in> set routine_programs \<and> list_all (\<lambda>c. c \<noteq> CHR ''/'' \<and> c \<noteq> bsl) (first_word (trim p)))
     ROUTINE_PREFIXES"
  by code_simp

lemma command_base_plain: "list_all (\<lambda>c. c \<noteq> CHR ''/'' \<and> c \<noteq> bsl) s \<Longrightarrow> command_base s = s"
proof -
  have "split_pred P s = [s]" if "list_all (\<lambda>c. \<not> P c) s" for P
    using that by (induction s) auto
  then show "list_all (\<lambda>c. c \<noteq> CHR ''/'' \<and> c \<noteq> bsl) s \<Longrightarrow> command_base s = s" by (simp add: command_base_def)
qed

lemma routine_prefix_known:
  assumes "matches_routine_prefix c" "c \<noteq> []" "CHR '' '' \<notin> set (hd c)"
  shows "to_lowercase (command_base (hd c)) \<in> set routine_programs"
proof -
  from assms(1) obtain p where p: "p \<in> set ROUTINE_PREFIXES" "word_prefix (to_lowercase (join_with '' '' c)) (trim p)"
    by (auto simp: matches_routine_prefix_def Let_def list_ex_iff)
  have w: "to_lowercase (hd c) = first_word (trim p)"
    using first_word_prefix [OF p(2)] first_word_join [OF assms(2,3)] by (simp add: first_word_lower)
  have known: "first_word (trim p) \<in> set routine_programs"
    and plain: "list_all (\<lambda>c. c \<noteq> CHR ''/'' \<and> c \<noteq> bsl) (to_lowercase (hd c))"
    using p(1) routine_prefix_programs unfolding w by (auto simp: list_all_iff)
  then have "list_all (\<lambda>c. c \<noteq> CHR ''/'' \<and> c \<noteq> bsl) (hd c)"
    by (auto simp: list_all_iff to_lowercase_def)
  with w known show ?thesis by (simp add: command_base_plain)
qed

lemma package_manager_known:
  assumes "prog \<in> set package_managers" "\<not> is_remote_launcher prog inner"
  shows "prog \<in> set routine_programs"
proof -
  have "list_all (\<lambda>p. p = ''npx'' \<or> p = ''uvx'' \<or> p \<in> set routine_programs) package_managers" by code_simp
  with assms(1) have "prog = ''npx'' \<or> prog = ''uvx'' \<or> prog \<in> set routine_programs" unfolding list_all_iff by (rule bspec [rotated])
  moreover have "prog \<noteq> ''npx''" "prog \<noteq> ''uvx''"
    using assms(2) unfolding is_remote_launcher_def by fastforce+
  ultimately show ?thesis by blast
qed

lemma routine_known:
  assumes "bash_command_is_routine ws" "unwrap_wrappers ws = c" "c \<noteq> []"
  shows "known_command c"
proof (cases "is_lone_wrapper c \<or> CHR '' '' \<in> set (hd c)")
  case False
  let ?head = "to_lowercase (command_base (hd c))"
  have "?head \<in> set routine_programs"
  proof (cases "package_manager_subcommand_is_routine ?head c")
    case None
    have "''find'' \<in> set routine_programs" "''gh'' \<in> set routine_programs" by (simp_all add: routine_programs_def)
    then show ?thesis
      using assms False None routine_prefix_known [of c]
      by (auto simp: bash_command_is_routine.simps [of ws] Let_def split: if_splits)
  next
    case (Some routine)
    then have "routine" using assms False by (simp add: bash_command_is_routine.simps [of ws])
    with Some show ?thesis
      by (auto simp: package_manager_subcommand_is_routine.simps intro: package_manager_known split: if_splits)
  qed
  then show ?thesis by (simp add: known_command_def)
qed (auto simp: known_command_def)

lemma routine_launched:
  assumes "bash_command_is_routine ws" "unwrap_wrappers ws = c" "c \<noteq> []"
    and "explicit_launch_target (to_lowercase (command_base (hd c))) c = LaunchInner l"
  shows "bash_command_is_routine l"
proof -
  have "to_lowercase (command_base (hd c)) \<in> set package_managers"
    using assms(4) by (auto simp: explicit_launch_target_def launch_start_def npm_like_def package_managers_def
        split: option.splits sum.splits if_splits)
  moreover have "\<not> is_lone_wrapper c"
    using launch_shrinks [OF assms(4)] by (auto simp: is_lone_wrapper_def)
  ultimately show ?thesis
    using assms by (auto simp: bash_command_is_routine.simps [of ws] package_manager_subcommand_is_routine.simps Let_def split: if_splits)
qed

lemma routine_launches_known:
  assumes "launches ws c" "bash_command_is_routine ws"
  shows "known_command c"
  using assms by (induction rule: launches.induct) (auto intro: routine_known dest: routine_launched)

lemma walk_nodes_set: "set (walk_nodes ns) = set (nodes_of ns)"
proof (induction ns rule: walk_nodes.induct)
  case (2 n stack)
  have "set (nodes_of (rev (node_children n) @ stack)) = set (nodes_of (node_children n)) \<union> set (nodes_of stack)"
    by (metis mset_nodes_of_push set_append set_mset_mset)
  with 2 show ?case by simp
qed simp

lemma all_nodes_walk: "set (walk_nodes [n]) = set (all_nodes n)"
  by (simp add: walk_nodes_set all_nodes_children del: walk_nodes.simps)

lemma llm_without_query:
  "\<not> has_side_query clf \<Longrightarrow>
     llm_classify lib clf tool_name access detail ctx = classify_sync (clf_parse_shell lib) tool_name access detail ctx"
  by (simp add: llm_classify_def has_side_query_def Let_def)

text \<open>A reply of the model allows only as a clean JSON verdict or as one word.\<close>

lemma allowing_reply:
  assumes "parse_classifier_model_text from_str text = VerdictAllow"
  shows "(\<exists>s v. (s = trim text \<or> embedded_json (trim text) = Some s) \<and> from_str s = Some v
           \<and> (json_get ''shouldBlock'' v = Some (JBool False) \<or> json_get ''should_block'' v = Some (JBool False)))
    \<or> trim (to_lowercase (trim text)) \<in> {''allow'', ''allowed'', ''approve'', ''approved''}"
proof -
  have as_bool: "json_as_bool v = Some b \<longleftrightarrow> v = JBool b" for v b by (cases v) auto
  show ?thesis
    using assms
    by (fastforce simp: parse_classifier_model_text_def Let_def verdict_of_def json_verdict_def embedded_verdict_def
        terse_verdict_def as_bool bind_eq_Some_conv split: if_splits option.splits)
qed


definition demo_clf_lib :: classifier_lib where
  "demo_clf_lib = \<lparr>clf_parse_shell = (\<lambda>s. Some (demo_tree s)), clf_from_str = (\<lambda>s. None), clf_system_prompt = []\<rparr>"


end

