(* ===== verification/Perm_State.thy ===== *)
theory Perm_State
  imports Perm_Policy
begin

text \<open>
  What the permission manager remembers: the grants and refusals of the user and their file
  (\<^verbatim>\<open>permission/state.rs\<close>), the qualified names of MCP tools (\<^verbatim>\<open>xai-grok-mcp/src/servers.rs\<close>,
  \<^verbatim>\<open>xai-tool-protocol/src/ids.rs\<close>) and the list of domains that may be fetched without asking
  (\<^verbatim>\<open>web_fetch/domain.rs\<close>).
\<close>

section \<open>Remembered decisions\<close>

datatype EditPolicy = EditAsk | EditAllow | EditReject

text \<open>A hash set is a list in the order of its iteration.\<close>

record PermissionState =
  edit_policy :: EditPolicy
  allow_bash_execute :: bool
  allowed_bash_commands :: "string list"
  disallowed_bash_commands :: "string list"
  allowed_web_fetch_domains :: "string list"
  allowed_mcp_tools :: "string list"
  allowed_mcp_servers :: "string list"
  validated_mcp_server_grants_version :: int

definition VALIDATED_MCP_SERVER_GRANTS_VERSION :: int where
  "VALIDATED_MCP_SERVER_GRANTS_VERSION = 1"

definition default_state :: PermissionState where
  "default_state =
     \<lparr>edit_policy = EditAsk, allow_bash_execute = False, allowed_bash_commands = [], disallowed_bash_commands = [],
      allowed_web_fetch_domains = [], allowed_mcp_tools = [], allowed_mcp_servers = [],
      validated_mcp_server_grants_version = VALIDATED_MCP_SERVER_GRANTS_VERSION\<rparr>"

text \<open>The integer in the file, if there is one.\<close>

definition deserialize_mcp_server_grants_version :: "int option \<Rightarrow> int" where
  "deserialize_mcp_server_grants_version v =
     (case v of Some version \<Rightarrow> (if version \<ge> 0 then version else 0) | None \<Rightarrow> 0)"

definition sanitize_client_id :: "string \<Rightarrow> string" where
  "sanitize_client_id cid = map (\<lambda>c. if is_ascii_alphanumeric c \<or> c = CHR ''-'' \<or> c = CHR ''_'' then c else CHR ''_'') cid"

definition state_file_name :: "string option \<Rightarrow> string" where
  "state_file_name client =
     (case client of
        Some cid \<Rightarrow> ''permission_'' @ sanitize_client_id cid @ ''.toml''
      | None \<Rightarrow> ''permission.toml'')"

text \<open>
  The files of the state directory, by name, and the TOML codec: parsing gives the fields with the
  integer of the version marker. A write succeeds or leaves the file as it was; a failed write
  is logged.
\<close>

type_synonym state_dir = "string \<rightharpoonup> string"

record state_io =
  from_toml :: "string \<Rightarrow> (PermissionState \<times> int option) option"
  to_toml :: "PermissionState \<Rightarrow> string option"
  write_succeeds :: "string \<Rightarrow> bool"

definition persist_state_to_path :: "state_io \<Rightarrow> string \<Rightarrow> PermissionState \<Rightarrow> state_dir \<Rightarrow> state_dir" where
  "persist_state_to_path io name st dir =
     (case to_toml io st of
        Some contents \<Rightarrow> (if write_succeeds io name then dir(name \<mapsto> contents) else dir)
      | None \<Rightarrow> dir)"

definition parse_state :: "state_io \<Rightarrow> string \<Rightarrow> PermissionState" where
  "parse_state io contents =
     (case from_toml io contents of
        Some (st, version) \<Rightarrow>
          st\<lparr>validated_mcp_server_grants_version := deserialize_mcp_server_grants_version version\<rparr>
      | None \<Rightarrow> default_state)"

definition invalidate_legacy :: "PermissionState \<Rightarrow> PermissionState" where
  "invalidate_legacy st =
     st\<lparr>allowed_mcp_servers := [], validated_mcp_server_grants_version := VALIDATED_MCP_SERVER_GRANTS_VERSION\<rparr>"

definition try_load_state :: "state_io \<Rightarrow> string \<Rightarrow> state_dir \<Rightarrow> PermissionState option \<times> state_dir" where
  "try_load_state io name dir =
     (case dir name of
        None \<Rightarrow> (None, dir)
      | Some contents \<Rightarrow>
          (let st = parse_state io contents
           in if validated_mcp_server_grants_version st < VALIDATED_MCP_SERVER_GRANTS_VERSION
              then (Some (invalidate_legacy st), persist_state_to_path io name (invalidate_legacy st) dir)
              else (Some st, dir)))"

definition load_shared_state :: "state_io \<Rightarrow> state_dir \<Rightarrow> PermissionState \<times> state_dir" where
  "load_shared_state io dir =
     (case try_load_state io (state_file_name None) dir of
        (Some st, dir) \<Rightarrow> (st, dir)
      | (None, dir) \<Rightarrow> (default_state, dir))"

definition load_state_from_dir :: "state_io \<Rightarrow> string option \<Rightarrow> state_dir \<Rightarrow> PermissionState \<times> state_dir" where
  "load_state_from_dir io client dir =
     (case client of
        None \<Rightarrow> load_shared_state io dir
      | Some _ \<Rightarrow>
          (case try_load_state io (state_file_name client) dir of
             (Some st, dir) \<Rightarrow> (st, dir)
           | (None, dir) \<Rightarrow> load_shared_state io dir))"

definition persist_state :: "state_io \<Rightarrow> string option \<Rightarrow> PermissionState \<Rightarrow> state_dir \<Rightarrow> state_dir" where
  "persist_state io client st dir = persist_state_to_path io (state_file_name client) st dir"

section \<open>Qualified names of MCP tools\<close>

definition is_id_char :: "char \<Rightarrow> bool" where
  "is_id_char c \<longleftrightarrow> is_ascii_alphanumeric c \<or> c = CHR ''_'' \<or> c = CHR ''-''"

definition is_valid_segment :: "string \<Rightarrow> bool" where
  "is_valid_segment s \<longleftrightarrow> s \<noteq> [] \<and> list_all is_id_char s"

text \<open>\<^verbatim>\<open>splitn(3, ':')\<close> has a third part as soon as there are two colons.\<close>

definition is_well_formed_tool_id :: "string \<Rightarrow> bool" where
  "is_well_formed_tool_id s =
     (case split_pred (\<lambda>c. c = CHR '':'') s of
        [first] \<Rightarrow> is_valid_segment first
      | [first, second] \<Rightarrow> is_valid_segment first \<and> is_valid_segment second
      | _ \<Rightarrow> False)"

definition tool_id_valid :: "string \<Rightarrow> bool" where
  "tool_id_valid s \<longleftrightarrow> s \<noteq> [] \<and> is_well_formed_tool_id s"

definition MCP_TOOL_NAME_DELIMITER :: string where
  "MCP_TOOL_NAME_DELIMITER = ''__''"

definition mcp_boundaries :: "string \<Rightarrow> nat list" where
  "mcp_boundaries name = filter (\<lambda>i. starts_with (drop i name) MCP_TOOL_NAME_DELIMITER) [0..<length name]"

definition parse_mcp_qualified_name :: "string \<Rightarrow> (string \<times> string) option" where
  "parse_mcp_qualified_name name =
     (case mcp_boundaries name of
        [boundary] \<Rightarrow>
          (let server = take boundary name; tool = drop (boundary + length MCP_TOOL_NAME_DELIMITER) name
           in if server = [] \<or> tool = [] then None
              else if tool_id_valid name then Some (server, tool) else None)
      | _ \<Rightarrow> None)"

section \<open>Domains that may be fetched\<close>

datatype HostEntry = AnyPath | PathPrefixes "string list"

type_synonym domain_matcher = "string \<rightharpoonup> HostEntry"

text \<open>The text up to the first slash, and from it on if there is one.\<close>

definition split_host :: "string \<Rightarrow> string \<times> string option" where
  "split_host normalized =
     (case find_idx (\<lambda>c. c = CHR ''/'') normalized of
        Some i \<Rightarrow> (take i normalized, Some (drop i normalized))
      | None \<Rightarrow> (normalized, None))"

definition path_prefix_of :: "string \<Rightarrow> string" where
  "path_prefix_of raw_path = trim_end_pred (\<lambda>c. c = CHR ''/'') raw_path"

definition add_path :: "string \<Rightarrow> HostEntry option \<Rightarrow> HostEntry" where
  "add_path prefx e =
     (case e of
        Some (PathPrefixes v) \<Rightarrow> PathPrefixes (if prefx \<in> set v then v else v @ [prefx])
      | Some AnyPath \<Rightarrow> AnyPath
      | None \<Rightarrow> PathPrefixes [prefx])"

definition add_domain_entry :: "string \<Rightarrow> domain_matcher \<Rightarrow> domain_matcher" where
  "add_domain_entry raw entries =
     (let normalized = normalize_domain raw
      in if normalized = [] then entries
         else case split_host normalized of
                (host, None) \<Rightarrow> entries(host \<mapsto> AnyPath)
              | (host, Some raw_path) \<Rightarrow>
                  (if entries host = Some AnyPath then entries
                   else
                     (let prefx = path_prefix_of raw_path
                      in if prefx = [] \<or> prefx = ''/'' then entries(host \<mapsto> AnyPath)
                         else
                           (let prefx = (if starts_with prefx ''/'' then prefx else ''/'' @ prefx)
                            in entries(host \<mapsto> add_path prefx (entries host))))))"

definition domain_matcher_new :: "string list \<Rightarrow> domain_matcher" where
  "domain_matcher_new raw_entries = fold add_domain_entry raw_entries Map.empty"

definition under_path :: "string \<Rightarrow> string \<Rightarrow> bool" where
  "under_path url_path prefx \<longleftrightarrow>
     url_path = prefx \<or> starts_with url_path prefx \<and> starts_with (drop (length prefx) url_path) ''/''"

text \<open>\<^verbatim>\<open>check\<close> gives the blocked host, or nothing when the URL is permitted.\<close>

definition domain_matcher_check :: "domain_matcher \<Rightarrow> string option \<Rightarrow> string \<Rightarrow> string option" where
  "domain_matcher_check entries raw_host path =
     (case raw_host of
        None \<Rightarrow> Some []
      | Some raw_host \<Rightarrow>
          (let host = normalize_domain raw_host
           in case entries host of
                Some AnyPath \<Rightarrow> None
              | Some (PathPrefixes ps) \<Rightarrow>
                  (if list_ex (under_path (to_lowercase path)) ps then None else Some host)
              | None \<Rightarrow> Some host))"

definition domain_from_url :: "'g perm_lib \<Rightarrow> string \<Rightarrow> string option" where
  "domain_from_url lib raw_url = map_option normalize_domain (url_host lib raw_url)"

section \<open>The domain list against its entries\<close>

text \<open>What one entry of the list permits, read by itself.\<close>

definition entry_allows :: "string \<Rightarrow> string \<Rightarrow> string \<Rightarrow> bool" where
  "entry_allows host path raw \<longleftrightarrow>
     normalize_domain raw \<noteq> []
     \<and> (case split_host (normalize_domain raw) of
          (h, None) \<Rightarrow> h = host
        | (h, Some raw_path) \<Rightarrow>
            h = host \<and> (path_prefix_of raw_path = [] \<or> under_path path (path_prefix_of raw_path)))"

definition host_allows :: "domain_matcher \<Rightarrow> string \<Rightarrow> string \<Rightarrow> bool" where
  "host_allows entries host path =
     (case entries host of
        Some AnyPath \<Rightarrow> True
      | Some (PathPrefixes ps) \<Rightarrow> list_ex (under_path path) ps
      | None \<Rightarrow> False)"

lemma path_prefix_slash:
  assumes "split_host s = (h, Some raw_path)" "path_prefix_of raw_path \<noteq> []"
  shows "path_prefix_of raw_path \<noteq> ''/''" "starts_with (path_prefix_of raw_path) ''/''"
proof -
  obtain i where i: "find_idx (\<lambda>c. c = CHR ''/'') s = Some i" "raw_path = drop i s"
    using assms(1) by (auto simp: split_host_def split: option.splits)
  have "find_idx P xs = Some k \<Longrightarrow> k < length xs \<and> P (xs ! k)" for P :: "char \<Rightarrow> bool" and xs k
    by (induction xs arbitrary: k) (auto split: if_splits)
  from this [OF i(1)] have raw: "raw_path = CHR ''/'' # drop (Suc i) s"
    using i(2) by (metis Cons_nth_drop_Suc)
  obtain p where p: "raw_path = path_prefix_of raw_path @ p"
    unfolding path_prefix_of_def trim_end_pred_def by (metis rev_append rev_rev_ident takeWhile_dropWhile_id)
  with raw assms(2) show "starts_with (path_prefix_of raw_path) ''/''"
    by (cases "path_prefix_of raw_path") (auto simp: starts_with_iff)
  show "path_prefix_of raw_path \<noteq> ''/''"
    using hd_dropWhile [of "\<lambda>c. c = CHR ''/''" "rev raw_path"] assms(2)
    unfolding path_prefix_of_def trim_end_pred_def by (auto simp: rev_swap)
qed

lemma host_allows_add:
  "host_allows (add_domain_entry raw entries) host path \<longleftrightarrow> host_allows entries host path \<or> entry_allows host path raw"
proof (cases "split_host (normalize_domain raw)")
  case (Pair h p)
  show ?thesis
  proof (cases p)
    case None
    with Pair show ?thesis by (auto simp: add_domain_entry_def entry_allows_def host_allows_def Let_def)
  next
    case (Some raw_path)
    then show ?thesis
      using Pair path_prefix_slash [of "normalize_domain raw" h raw_path]
      by (auto simp: add_domain_entry_def entry_allows_def host_allows_def add_path_def Let_def list_ex_iff
          split: HostEntry.splits option.splits)
  qed
qed

lemma host_allows_new: "host_allows (domain_matcher_new raws) host path \<longleftrightarrow> list_ex (entry_allows host path) raws"
proof -
  have "host_allows (fold add_domain_entry raws m) host path \<longleftrightarrow> host_allows m host path \<or> list_ex (entry_allows host path) raws" for m
    by (induction raws arbitrary: m) (auto simp: host_allows_add)
  then show ?thesis by (simp add: domain_matcher_new_def host_allows_def)
qed

text \<open>
  C23. The compiled list of domains permits a URL exactly when one of its entries does by
  itself: an entry without a path permits its whole host, one with a path that path and
  what lies below it, whatever the order of the entries and whatever others there are for
  the same host; a URL without a host is blocked.
\<close>

theorem domain_check_by_entries:
  "(domain_matcher_check (domain_matcher_new raws) (Some raw_host) path = None
     \<longleftrightarrow> list_ex (entry_allows (normalize_domain raw_host) (to_lowercase path)) raws)
   \<and> domain_matcher_check (domain_matcher_new raws) None path \<noteq> None"
proof -
  have "domain_matcher_check m (Some raw_host) path = None \<longleftrightarrow> host_allows m (normalize_domain raw_host) (to_lowercase path)" for m
    by (simp add: domain_matcher_check_def host_allows_def Let_def split: option.splits HostEntry.splits)
  then show ?thesis by (simp add: host_allows_new) (simp add: domain_matcher_check_def)
qed

section \<open>The state on disk\<close>

lemma try_load_version:
  "try_load_state io name dir = (Some st, dir') \<Longrightarrow> 1 \<le> validated_mcp_server_grants_version st"
  by (auto simp: try_load_state_def Let_def invalidate_legacy_def VALIDATED_MCP_SERVER_GRANTS_VERSION_def
      split: option.splits if_splits)

text \<open>The contents that a client's state is read from.\<close>

definition state_source :: "string option \<Rightarrow> state_dir \<Rightarrow> string option" where
  "state_source client dir =
     (case dir (state_file_name client) of Some c \<Rightarrow> Some c | None \<Rightarrow> dir (state_file_name None))"

definition file_version :: "state_io \<Rightarrow> string \<Rightarrow> int" where
  "file_version io c = validated_mcp_server_grants_version (parse_state io c)"

lemma load_state_by_source:
  "fst (load_state_from_dir io client dir) =
     (case state_source client dir of
        None \<Rightarrow> default_state
      | Some c \<Rightarrow> (if file_version io c < 1 then invalidate_legacy (parse_state io c) else parse_state io c))"
  by (auto simp: load_state_from_dir_def load_shared_state_def try_load_state_def state_source_def file_version_def
      Let_def VALIDATED_MCP_SERVER_GRANTS_VERSION_def split: option.splits)

text \<open>
  What a client stored is what it loads, given that the TOML codec reads back what it wrote;
  other files of the directory are left alone. A loaded state never has server-wide MCP
  grants from a file whose version marker is missing, malformed or old.
\<close>

theorem stored_state_loads:
  assumes "to_toml io st = Some contents" "from_toml io contents = Some (st, Some (validated_mcp_server_grants_version st))"
    and "1 \<le> validated_mcp_server_grants_version st" "write_succeeds io (state_file_name client)"
  shows "load_state_from_dir io client (persist_state io client st dir) = (st, persist_state io client st dir)
    \<and> (\<forall>name. name \<noteq> state_file_name client \<longrightarrow> persist_state io client st dir name = dir name)
    \<and> (\<forall>c other. state_source other dir' = Some c \<and> file_version io c < 1
         \<longrightarrow> allowed_mcp_servers (fst (load_state_from_dir io other dir')) = [])"
proof -
  have "parse_state io contents = st"
    using assms(2,3) by (simp add: parse_state_def deserialize_mcp_server_grants_version_def)
  then have "try_load_state io (state_file_name client) (dir(state_file_name client \<mapsto> contents))
      = (Some st, dir(state_file_name client \<mapsto> contents))"
    using assms(3) by (simp add: try_load_state_def Let_def VALIDATED_MCP_SERVER_GRANTS_VERSION_def)
  moreover have "persist_state io client st dir = dir(state_file_name client \<mapsto> contents)"
    using assms by (simp add: persist_state_def persist_state_to_path_def)
  moreover have "allowed_mcp_servers (fst (load_state_from_dir io other dir')) = []"
    if "state_source other dir' = Some c" "file_version io c < 1" for c other
    using that by (simp add: load_state_by_source invalidate_legacy_def)
  ultimately show ?thesis
    by (auto simp: load_state_from_dir_def load_shared_state_def split: option.splits)
qed

definition demo_state :: PermissionState where
  "demo_state = default_state\<lparr>allowed_bash_commands := [''cargo test'']\<rparr>"

definition demo_io :: state_io where
  "demo_io =
     \<lparr>from_toml = (\<lambda>c. if c = ''cargo'' then Some (demo_state, Some 1) else None),
      to_toml = (\<lambda>st. if allowed_bash_commands st = [''cargo test''] then Some ''cargo'' else None),
      write_succeeds = (\<lambda>name. True)\<rparr>"

theorem stored_state_loads_witness:
  "fst (load_state_from_dir demo_io (Some ''a/b'') (persist_state demo_io (Some ''a/b'') demo_state Map.empty)) = demo_state
   \<and> state_file_name (Some ''a/b'') = ''permission_a_b.toml''"
proof -
  have "to_toml demo_io demo_state = Some ''cargo''"
    "from_toml demo_io ''cargo'' = Some (demo_state, Some (validated_mcp_server_grants_version demo_state))"
    "1 \<le> validated_mcp_server_grants_version demo_state" "write_succeeds demo_io (state_file_name (Some ''a/b''))"
    by (simp_all add: demo_io_def demo_state_def default_state_def VALIDATED_MCP_SERVER_GRANTS_VERSION_def)
  from stored_state_loads [OF this] have
    "fst (load_state_from_dir demo_io (Some ''a/b'') (persist_state demo_io (Some ''a/b'') demo_state Map.empty)) = demo_state"
    by simp
  moreover have "state_file_name (Some ''a/b'') = ''permission_a_b.toml''" by code_simp
  ultimately show ?thesis by blast
qed

section \<open>Unique qualified names\<close>

lemma mcp_boundaries_iff: "i \<in> set (mcp_boundaries name) \<longleftrightarrow> starts_with (drop i name) MCP_TOOL_NAME_DELIMITER"
proof -
  have "starts_with (drop i name) ''__'' \<Longrightarrow> i < length name" by (cases "i < length name") auto
  then show ?thesis by (auto simp: mcp_boundaries_def MCP_TOOL_NAME_DELIMITER_def)
qed

text \<open>A qualified name has one reading: the delimiter occurs once, also counting overlaps.\<close>

lemma mcp_name_read:
  "parse_mcp_qualified_name name = Some (server, tool) \<longleftrightarrow>
     name = server @ MCP_TOOL_NAME_DELIMITER @ tool \<and> server \<noteq> [] \<and> tool \<noteq> [] \<and> tool_id_valid name
     \<and> mcp_boundaries name = [length server]"
proof
  assume parse: "parse_mcp_qualified_name name = Some (server, tool)"
  then obtain b where b: "mcp_boundaries name = [b]" and s: "server = take b name"
      and t: "tool = drop (b + length MCP_TOOL_NAME_DELIMITER) name"
      and ok: "server \<noteq> []" "tool \<noteq> []" "tool_id_valid name"
    by (auto simp: parse_mcp_qualified_name_def Let_def split: list.splits if_splits)
  have "starts_with (drop b name) MCP_TOOL_NAME_DELIMITER" using b mcp_boundaries_iff [of b name] by simp
  then obtain r where r: "drop b name = MCP_TOOL_NAME_DELIMITER @ r" by (auto simp: starts_with_iff prefix_def)
  then have "name = server @ MCP_TOOL_NAME_DELIMITER @ tool"
    using s t by (metis append_eq_conv_conj append_take_drop_id drop_drop add.commute)
  moreover have "b = length server" using s t ok(2) by auto
  ultimately show "name = server @ MCP_TOOL_NAME_DELIMITER @ tool \<and> server \<noteq> [] \<and> tool \<noteq> [] \<and> tool_id_valid name
     \<and> mcp_boundaries name = [length server]" using b ok by simp
qed (auto simp: parse_mcp_qualified_name_def Let_def)

end
