(* ===== verification/Perm_Bash.thy ===== *)
theory Perm_Bash
  imports Auto_Mode Perm_State
begin

text \<open>
  The judgement of one shell script by the permission manager
  (\<^verbatim>\<open>xai-grok-workspace/src/permission/manager.rs\<close>): the built-in lists of safe and dangerous commands, the
  classification of the commands of a script against the remembered grants, the floors that
  always ask, and the grants that answer a request without asking.
\<close>

section \<open>Lists of commands\<close>

definition mcp_server_prefix_allowed :: "string \<Rightarrow> string list \<Rightarrow> bool" where
  "mcp_server_prefix_allowed name servers \<longleftrightarrow>
     servers \<noteq> []
     \<and> (case parse_mcp_qualified_name name of Some (server, _) \<Rightarrow> server \<in> set servers | None \<Rightarrow> False)"

definition mcp_pre_decision :: "string \<Rightarrow> PermissionState \<Rightarrow> bool \<Rightarrow> bool \<Rightarrow> PolicyDecision option" where
  "mcp_pre_decision name st policy_forced_prompt remember_tool_approvals =
     (if policy_forced_prompt \<and> \<not> remember_tool_approvals then None
      else if name \<in> set (allowed_mcp_tools st) then Some AllowAccess
      else if mcp_server_prefix_allowed name (allowed_mcp_servers st) then Some AllowAccess
      else None)"

definition rg_has_pre_flag :: "string list \<Rightarrow> bool" where
  "rg_has_pre_flag ws \<longleftrightarrow>
     ws \<noteq> [] \<and> hd ws = ''rg'' \<and> list_ex (\<lambda>w. w = ''--pre'' \<or> starts_with w ''--pre='') ws"

abbreviation matches_command_prefix :: "string \<Rightarrow> string \<Rightarrow> bool" where
  "matches_command_prefix \<equiv> word_prefix"

definition safe_prefixes :: "string list" where
  "safe_prefixes =
     [''ls'', ''cat'', ''pwd'', ''date'', ''git status'', ''git branch'', ''git log'', ''git diff'', ''git ls-files'', ''git show'',
      ''git rev-parse'', ''cargo check'', ''whoami'', ''hostname'', ''uptime'', ''grep'', ''rg'', ''kubectl get'', ''kubectl logs'',
      ''kubectl describe'', ''ps'', ''bin/explorer ls'', ''head'', ''tail'', ''wc'', ''sort'', ''uniq'', ''tr'', ''cut'']"

definition is_safe_command_words_str :: "string \<Rightarrow> bool" where
  "is_safe_command_words_str cmd = list_ex (matches_command_prefix cmd) safe_prefixes"

definition is_safe_command_words :: "string list \<Rightarrow> bool" where
  "is_safe_command_words ws =
     (if ws = [] then False
      else if rg_has_pre_flag ws then False
      else is_safe_command_words_str (join_with '' '' ws))"

definition ALWAYS_SAFE_COMMANDS :: "string list" where
  "ALWAYS_SAFE_COMMANDS =
     [''ls'', ''cat'', ''pwd'', ''date'', ''whoami'', ''hostname'', ''uptime'', ''ps'', ''git status'', ''git branch'', ''git log'',
      ''git diff'', ''git ls-files'', ''git show'', ''git rev-parse'', ''grep'', ''rg'', ''cargo check'', ''kubectl get'',
      ''kubectl logs'', ''kubectl describe'', ''bin/explorer ls'']"

definition is_always_safe_command_words :: "string list \<Rightarrow> bool" where
  "is_always_safe_command_words ws =
     (if ws = [] then False
      else if rg_has_pre_flag ws then False
      else list_ex (matches_command_prefix (join_with '' '' ws)) ALWAYS_SAFE_COMMANDS)"

fun flags_from :: "string list \<Rightarrow> nat" where
  "flags_from [] = 0"
| "flags_from (w # ws) = (if starts_with w ''-'' then Suc (flags_from ws) else 0)"

definition default_always_allow_scope :: "string list \<Rightarrow> nat" where
  "default_always_allow_scope ws =
     (if ws = [] then 0
      else if is_safe_command_words ws \<and> is_safe_command_words_str (hd ws) then 1
      else if is_safe_command_words ws \<and> length ws \<ge> 2 \<and> is_safe_command_words_str (join_with '' '' (take 2 ws)) then 2
      else (let n = min (length ws) 2 in n + flags_from (drop n ws)))"

definition dangerous_prefixes :: "string list" where
  "dangerous_prefixes =
     [''rm'', ''chmod'', ''chown'', ''chgrp'', ''chattr'', ''pkill'', ''kill'', ''killall'', ''git push'']"

definition is_dangerous_command_words :: "string list \<Rightarrow> bool" where
  "is_dangerous_command_words ws =
     (if ws = [] then False else list_ex (matches_command_prefix (join_with '' '' ws)) dangerous_prefixes)"

section \<open>Evaluation of a script\<close>

datatype SegmentEvaluation =
    AutoAllow bool
  | SegmentReject string
  | NeedsPrompts "string list" bool
  | Unparseable

record BashEvaluation =
  segments :: SegmentEvaluation
  writes_real_file :: bool
  sets_unsafe_env :: bool
  exact_grant :: bool
  all_segments_granted :: bool

record segment_state =
  needs_prompt :: "string list"
  any_dangerous :: bool
  via_session_grant :: bool
  all_granted :: bool

definition denied_segment :: "string \<Rightarrow> string" where
  "denied_segment d = ''User previously rejected `'' @ d @ ''` for this session''"

text \<open>The loop over the commands; a refused one ends it.\<close>

fun evaluate_segments :: "PermissionState \<Rightarrow> bool \<Rightarrow> string list list \<Rightarrow> segment_state \<Rightarrow> SegmentEvaluation \<times> bool" where
  "evaluate_segments st honor_safe_lists [] s =
     (if needs_prompt s = [] then AutoAllow (via_session_grant s) else NeedsPrompts (needs_prompt s) (any_dangerous s),
      all_granted s)"
| "evaluate_segments st honor_safe_lists (raw_words # rest) s =
     (let ws = unwrap_wrappers raw_words
      in if is_setup_command ws then evaluate_segments st honor_safe_lists rest s
         else
           (let text = join_with '' '' ws
            in case find (matches_command_prefix text) (disallowed_bash_commands st) of
                 Some d \<Rightarrow> (SegmentReject (denied_segment d), all_granted s)
               | None \<Rightarrow>
                   (let matched_grant = list_ex (matches_command_prefix text) (allowed_bash_commands st);
                        s = s\<lparr>all_granted := all_granted s \<and> matched_grant\<rparr>
                    in if is_dangerous_command_words ws
                       then evaluate_segments st honor_safe_lists rest
                              (s\<lparr>any_dangerous := True, needs_prompt := needs_prompt s @ [text]\<rparr>)
                       else
                         (let matched_safe = (honor_safe_lists \<and> (is_safe_command_words ws \<or> is_always_safe_command_words ws))
                          in if matched_grant \<or> matched_safe
                             then evaluate_segments st honor_safe_lists rest
                                    (if matched_grant then s\<lparr>via_session_grant := True\<rparr> else s)
                             else evaluate_segments st honor_safe_lists rest
                                    (s\<lparr>needs_prompt := needs_prompt s @ [text]\<rparr>)))))"

definition evaluate_bash :: "(string \<Rightarrow> tree option) \<Rightarrow> string \<Rightarrow> PermissionState \<Rightarrow> bool \<Rightarrow> BashEvaluation" where
  "evaluate_bash try_parse_shell cmd st honor_safe_lists =
     (let exact = (cmd \<in> set (allowed_bash_commands st))
      in case try_parse_shell cmd of
           None \<Rightarrow>
             \<lparr>segments = Unparseable, writes_real_file = False, sets_unsafe_env = False, exact_grant = exact,
              all_segments_granted = False\<rparr>
         | Some t \<Rightarrow>
             (let writes = list_ex (\<lambda>p. \<not> is_safe_write_sink p) (command_write_paths_in_tree cmd (root_node t));
                  parsed = try_parse_word_only_commands_sequence t cmd;
                  unsafe = script_sets_unsafe_env (root_node t) cmd (case parsed of Some cs \<Rightarrow> cs | None \<Rightarrow> [])
              in case parsed of
                   None \<Rightarrow>
                     \<lparr>segments = Unparseable, writes_real_file = writes, sets_unsafe_env = unsafe, exact_grant = exact,
                      all_segments_granted = False\<rparr>
                 | Some cs \<Rightarrow>
                     (case evaluate_segments st honor_safe_lists (map cmd_words cs)
                             \<lparr>needs_prompt = [], any_dangerous = False, via_session_grant = False, all_granted = True\<rparr> of
                        (sg, granted) \<Rightarrow>
                          \<lparr>segments = sg, writes_real_file = writes, sets_unsafe_env = unsafe, exact_grant = exact,
                           all_segments_granted = granted\<rparr>)))"

section \<open>Grants\<close>

definition clamp_yolo :: "bool \<Rightarrow> string option \<Rightarrow> bool" where
  "clamp_yolo requested yolo_pin \<longleftrightarrow> requested \<and> yolo_pin = None"

definition MAX_RECORDED_PERMISSION_DECISIONS :: nat where
  "MAX_RECORDED_PERMISSION_DECISIONS = 12"

definition prompted_decision_approved :: "PolicyDecision \<Rightarrow> string \<Rightarrow> bool option" where
  "prompted_decision_approved decision outcome_str =
     (case decision of
        AllowAccess \<Rightarrow> Some True
      | Reject _ \<Rightarrow> (if outcome_str \<noteq> ''error'' then Some False else None)
      | _ \<Rightarrow> None)"

definition auto_prompt_blocks_allow :: "AccessKind \<Rightarrow> bool" where
  "auto_prompt_blocks_allow access = (case access of BashAccess _ \<Rightarrow> False | _ \<Rightarrow> True)"

definition persisted_bash_auto_allows :: "PermissionState \<Rightarrow> string \<Rightarrow> string option \<Rightarrow> bool" where
  "persisted_bash_auto_allows st cmd yolo_pin \<longleftrightarrow>
     allow_bash_execute st \<and> yolo_pin = None \<or> cmd \<in> set (allowed_bash_commands st)"

definition bash_write_floor_requires_prompt :: "BashEvaluation option \<Rightarrow> bool" where
  "bash_write_floor_requires_prompt ev =
     (case ev of Some e \<Rightarrow> writes_real_file e \<and> \<not> exact_grant e | None \<Rightarrow> False)"

definition bash_unsafe_env_floor_requires_prompt :: "BashEvaluation option \<Rightarrow> bool" where
  "bash_unsafe_env_floor_requires_prompt ev =
     (case ev of Some e \<Rightarrow> sets_unsafe_env e \<and> \<not> exact_grant e | None \<Rightarrow> False)"

definition bash_request_floor_requires_prompt :: "BashEvaluation option \<Rightarrow> bool" where
  "bash_request_floor_requires_prompt ev \<longleftrightarrow>
     bash_write_floor_requires_prompt ev \<or> bash_unsafe_env_floor_requires_prompt ev"

definition sandbox_may_auto_allow_bash :: "BashEvaluation option \<Rightarrow> bool \<Rightarrow> bool" where
  "sandbox_may_auto_allow_bash ev sandbox_active \<longleftrightarrow> sandbox_active \<and> \<not> bash_request_floor_requires_prompt ev"

record BashGrantOpts =
  opt_honor_safe_lists :: bool
  opt_allow_blanket :: bool
  opt_conservative_blanket :: bool

definition PRE_CLASSIFIER :: BashGrantOpts where
  "PRE_CLASSIFIER = \<lparr>opt_honor_safe_lists = True, opt_allow_blanket = True, opt_conservative_blanket = True\<rparr>"

definition ASK_FLOOR_REMEMBER :: BashGrantOpts where
  "ASK_FLOOR_REMEMBER = \<lparr>opt_honor_safe_lists = False, opt_allow_blanket = False, opt_conservative_blanket = False\<rparr>"

definition post_classify :: "bool \<Rightarrow> BashGrantOpts" where
  "post_classify auto_forced_prompt =
     \<lparr>opt_honor_safe_lists = True, opt_allow_blanket = (\<not> auto_forced_prompt), opt_conservative_blanket = False\<rparr>"

text \<open>Why a request was decided, as it is recorded in the events.\<close>

datatype reason =
    Yolo | PolicyAllowed | PolicyDenied | PolicyAsk | AutoFastPathAllow | AutoClassifierAllow | AutoClassifierBlock
  | SandboxAuto | PersistedGrant | SessionGrant | StaticAllowlist | SafeCommand | SessionDeny | PromptDenied
  | NeedsUser | RequesterGone

definition bash_grant_pre_decision :: "string \<Rightarrow> BashEvaluation \<Rightarrow> PermissionState \<Rightarrow> string option \<Rightarrow> BashGrantOpts
    \<Rightarrow> (PolicyDecision \<times> reason) option" where
  "bash_grant_pre_decision cmd ev st yolo_pin opts =
     (case segments ev of
        SegmentReject why \<Rightarrow> Some (Reject why, SessionDeny)
      | AutoAllow via \<Rightarrow>
          (if bash_request_floor_requires_prompt (Some ev) then None
           else if \<not> opt_honor_safe_lists opts \<and> \<not> all_segments_granted ev then None
           else Some (AllowAccess, if via then SessionGrant else SafeCommand))
      | NeedsPrompts _ dangerous \<Rightarrow>
          (if bash_request_floor_requires_prompt (Some ev) then None
           else if \<not> opt_allow_blanket opts \<or> (dangerous \<and> opt_conservative_blanket opts) then None
           else if persisted_bash_auto_allows st cmd yolo_pin then Some (AllowAccess, SessionGrant)
           else None)
      | Unparseable \<Rightarrow>
          (if bash_request_floor_requires_prompt (Some ev) then None
           else if \<not> opt_allow_blanket opts then None
           else if (if opt_conservative_blanket opts then exact_grant ev else persisted_bash_auto_allows st cmd yolo_pin)
                then Some (AllowAccess, SessionGrant)
                else None))"

record 'g web_lib =
  web_perm :: "'g perm_lib"
  url_path :: "string \<Rightarrow> string"

definition web_fetch_pre_decision :: "'g web_lib \<Rightarrow> domain_matcher \<Rightarrow> PermissionState \<Rightarrow> reason \<Rightarrow> string
    \<Rightarrow> (PolicyDecision \<times> reason) option" where
  "web_fetch_pre_decision lib matcher st granted url =
     (if domain_matcher_check matcher (url_host (web_perm lib) url) (url_path lib url) = None
      then Some (AllowAccess, StaticAllowlist)
      else case url_host (web_perm lib) url of
             Some host \<Rightarrow>
               (if normalize_domain host \<in> set (allowed_web_fetch_domains st) then Some (AllowAccess, granted) else None)
           | None \<Rightarrow> None)"

definition session_grant_pre_decision :: "'g web_lib \<Rightarrow> AccessKind \<Rightarrow> BashEvaluation option \<Rightarrow> PermissionState \<Rightarrow> bool
    \<Rightarrow> domain_matcher \<Rightarrow> string option \<Rightarrow> (PolicyDecision \<times> reason) option" where
  "session_grant_pre_decision lib access bash_evaluation st allow_edits_for_session matcher yolo_pin =
     (case access of
        MCPToolAccess name _ \<Rightarrow> map_option (\<lambda>d. (d, SessionGrant)) (mcp_pre_decision name st False False)
      | WebFetchAccess url \<Rightarrow> web_fetch_pre_decision lib matcher st SessionGrant url
      | EditAccess _ \<Rightarrow> (if allow_edits_for_session then Some (AllowAccess, SessionGrant) else None)
      | BashAccess cmd \<Rightarrow>
          Option.bind bash_evaluation (\<lambda>ev. bash_grant_pre_decision cmd ev st yolo_pin PRE_CLASSIFIER)
      | _ \<Rightarrow> None)"

section \<open>The loop against its specification\<close>

text \<open>The commands that count: without wrappers, without the set-up ones.\<close>

definition active_commands :: "string list list \<Rightarrow> string list list" where
  "active_commands raws = filter (\<lambda>ws. \<not> is_setup_command ws) (map unwrap_wrappers raws)"

definition command_refused :: "PermissionState \<Rightarrow> string list \<Rightarrow> bool" where
  "command_refused st ws = list_ex (matches_command_prefix (join_with '' '' ws)) (disallowed_bash_commands st)"

definition command_granted :: "PermissionState \<Rightarrow> string list \<Rightarrow> bool" where
  "command_granted st ws = list_ex (matches_command_prefix (join_with '' '' ws)) (allowed_bash_commands st)"

definition command_harmless :: "string list \<Rightarrow> bool" where
  "command_harmless ws \<longleftrightarrow> is_safe_command_words ws \<or> is_always_safe_command_words ws"

definition command_passes :: "PermissionState \<Rightarrow> bool \<Rightarrow> string list \<Rightarrow> bool" where
  "command_passes st honor ws \<longleftrightarrow>
     \<not> is_dangerous_command_words ws \<and> (command_granted st ws \<or> honor \<and> command_harmless ws)"

lemma active_commands_simps [simp]:
  "active_commands [] = []"
  "active_commands (raw # raws) =
     (if is_setup_command (unwrap_wrappers raw) then active_commands raws else unwrap_wrappers raw # active_commands raws)"
  by (simp_all add: active_commands_def)

lemma find_refused:
  "find (matches_command_prefix (join_with '' '' ws)) (disallowed_bash_commands st) = None \<longleftrightarrow> \<not> command_refused st ws"
  by (auto simp: command_refused_def find_None_iff list_ex_iff)

lemma evaluate_segments_refused:
  "list_ex (command_refused st) (active_commands raws) \<Longrightarrow>
     \<exists>d granted. evaluate_segments st honor raws s = (SegmentReject (denied_segment d), granted) \<and> d \<in> set (disallowed_bash_commands st)"
proof (induction raws arbitrary: s)
  case (Cons raw raws)
  show ?case
  proof (cases "is_setup_command (unwrap_wrappers raw)")
    case True
    with Cons show ?thesis by simp
  next
    case False
    show ?thesis
    proof (cases "find (matches_command_prefix (join_with '' '' (unwrap_wrappers raw))) (disallowed_bash_commands st)")
      case None
      then have "list_ex (command_refused st) (active_commands raws)" using Cons.prems False find_refused by auto
      from Cons.IH [OF this] False None show ?thesis by (simp add: Let_def)
    next
      case (Some d)
      then have "d \<in> set (disallowed_bash_commands st)" by (auto simp: find_Some_iff)
      with False Some show ?thesis by (auto simp: Let_def)
    qed
  qed
qed simp

lemma evaluate_segments_kept:
  "\<not> list_ex (command_refused st) (active_commands raws) \<Longrightarrow>
     evaluate_segments st honor raws s =
       (if needs_prompt s = [] \<and> list_all (command_passes st honor) (active_commands raws)
        then AutoAllow (via_session_grant s \<or> list_ex (command_granted st) (active_commands raws))
        else NeedsPrompts
               (needs_prompt s @ map (join_with '' '') (filter (\<lambda>ws. \<not> command_passes st honor ws) (active_commands raws)))
               (any_dangerous s \<or> list_ex is_dangerous_command_words (active_commands raws)),
        all_granted s \<and> list_all (command_granted st) (active_commands raws))"
proof (induction raws arbitrary: s)
  case (Cons raw raws)
  let ?ws = "unwrap_wrappers raw"
  show ?case
  proof (cases "is_setup_command ?ws")
    case True
    with Cons show ?thesis by simp
  next
    case False
    then have none: "find (matches_command_prefix (join_with '' '' ?ws)) (disallowed_bash_commands st) = None"
      and rest: "\<not> list_ex (command_refused st) (active_commands raws)"
      using Cons.prems find_refused by simp_all
    have g: "list_ex (matches_command_prefix (join_with '' '' ?ws)) (allowed_bash_commands st) = command_granted st ?ws"
      by (simp add: command_granted_def)
    consider "is_dangerous_command_words ?ws"
      | "\<not> is_dangerous_command_words ?ws" "command_passes st honor ?ws"
      | "\<not> is_dangerous_command_words ?ws" "\<not> command_passes st honor ?ws"
      by blast
    then show ?thesis
      by cases (use False none g Cons.IH [OF rest] in
        \<open>auto simp: Let_def command_passes_def command_harmless_def\<close>)
  qed
qed simp

text \<open>The same for a whole script: what it parses into and what the loop makes of it.\<close>

definition script_commands :: "(string \<Rightarrow> tree option) \<Rightarrow> string \<Rightarrow> string list list option" where
  "script_commands parse cmd = map_option (map cmd_words) (all_commands_from_script parse cmd)"

lemma evaluate_bash_exact [simp]: "exact_grant (evaluate_bash parse cmd st honor) \<longleftrightarrow> cmd \<in> set (allowed_bash_commands st)"
  by (simp add: evaluate_bash_def Let_def split: option.splits prod.splits)

lemma evaluate_bash_segments:
  "segments (evaluate_bash parse cmd st honor) =
     (case script_commands parse cmd of
        None \<Rightarrow> Unparseable
      | Some raws \<Rightarrow> fst (evaluate_segments st honor raws
          \<lparr>needs_prompt = [], any_dangerous = False, via_session_grant = False, all_granted = True\<rparr>))"
  "all_segments_granted (evaluate_bash parse cmd st honor) =
     (case script_commands parse cmd of
        None \<Rightarrow> False
      | Some raws \<Rightarrow> snd (evaluate_segments st honor raws
          \<lparr>needs_prompt = [], any_dangerous = False, via_session_grant = False, all_granted = True\<rparr>))"
  by (simp_all add: evaluate_bash_def script_commands_def all_commands_from_script_def Let_def split: option.splits prod.splits)

text \<open>Whether the script writes a file that is not a harmless sink, or sets an unsafe variable.\<close>

definition script_writes_file :: "(string \<Rightarrow> tree option) \<Rightarrow> string \<Rightarrow> bool" where
  "script_writes_file parse cmd \<longleftrightarrow>
     (\<exists>t p. parse cmd = Some t \<and> p \<in> set (command_write_paths_in_tree cmd (root_node t)) \<and> \<not> is_safe_write_sink p)"

definition script_sets_env :: "(string \<Rightarrow> tree option) \<Rightarrow> string \<Rightarrow> bool" where
  "script_sets_env parse cmd \<longleftrightarrow>
     (\<exists>t. parse cmd = Some t
        \<and> script_sets_unsafe_env (root_node t) cmd
            (case try_parse_word_only_commands_sequence t cmd of Some cs \<Rightarrow> cs | None \<Rightarrow> []))"

lemma evaluate_bash_effects:
  "writes_real_file (evaluate_bash parse cmd st honor) \<longleftrightarrow> script_writes_file parse cmd"
  "sets_unsafe_env (evaluate_bash parse cmd st honor) \<longleftrightarrow> script_sets_env parse cmd"
  by (auto simp: evaluate_bash_def script_writes_file_def script_sets_env_def Let_def list_ex_iff
      split: option.splits prod.splits)

text \<open>A script that has an effect the user must confirm, unless this very script was granted.\<close>

definition floored :: "(string \<Rightarrow> tree option) \<Rightarrow> string \<Rightarrow> PermissionState \<Rightarrow> bool" where
  "floored parse cmd st \<longleftrightarrow>
     (script_writes_file parse cmd \<or> script_sets_env parse cmd) \<and> cmd \<notin> set (allowed_bash_commands st)"

lemma floor_iff [simp]:
  "bash_request_floor_requires_prompt (Some (evaluate_bash parse cmd st honor)) \<longleftrightarrow> floored parse cmd st"
  by (auto simp: bash_request_floor_requires_prompt_def bash_write_floor_requires_prompt_def
      bash_unsafe_env_floor_requires_prompt_def evaluate_bash_effects floored_def)

lemma floor_None [simp]: "\<not> bash_request_floor_requires_prompt None"
  by (simp add: bash_request_floor_requires_prompt_def bash_write_floor_requires_prompt_def
      bash_unsafe_env_floor_requires_prompt_def)

definition script_refused :: "(string \<Rightarrow> tree option) \<Rightarrow> string \<Rightarrow> PermissionState \<Rightarrow> bool" where
  "script_refused parse cmd st =
     (case script_commands parse cmd of None \<Rightarrow> False | Some raws \<Rightarrow> list_ex (command_refused st) (active_commands raws))"

definition script_granted :: "(string \<Rightarrow> tree option) \<Rightarrow> string \<Rightarrow> PermissionState \<Rightarrow> bool" where
  "script_granted parse cmd st =
     (case script_commands parse cmd of None \<Rightarrow> False | Some raws \<Rightarrow> list_all (command_granted st) (active_commands raws))"

definition script_passes :: "(string \<Rightarrow> tree option) \<Rightarrow> string \<Rightarrow> PermissionState \<Rightarrow> bool" where
  "script_passes parse cmd st =
     (case script_commands parse cmd of None \<Rightarrow> False | Some raws \<Rightarrow> list_all (command_passes st True) (active_commands raws))"

lemma grant_refused:
  assumes "script_refused parse cmd st"
  shows "\<exists>why. bash_grant_pre_decision cmd (evaluate_bash parse cmd st honor) st pin opts = Some (Reject why, SessionDeny)"
proof -
  obtain raws where raws: "script_commands parse cmd = Some raws" "list_ex (command_refused st) (active_commands raws)"
    using assms by (auto simp: script_refused_def split: option.splits)
  obtain d granted where "evaluate_segments st honor raws
      \<lparr>needs_prompt = [], any_dangerous = False, via_session_grant = False, all_granted = True\<rparr> = (SegmentReject (denied_segment d), granted)"
    using evaluate_segments_refused [OF raws(2)] by blast
  with raws(1) show ?thesis by (simp add: bash_grant_pre_decision_def evaluate_bash_segments)
qed

text \<open>The only ways in which a grant lets a script run.\<close>

lemma grant_allows:
  assumes "bash_grant_pre_decision cmd (evaluate_bash parse cmd st True) st pin opts = Some (AllowAccess, why)"
  shows "\<not> script_refused parse cmd st \<and> \<not> floored parse cmd st
    \<and> (script_passes parse cmd st \<and> (opt_honor_safe_lists opts \<or> script_granted parse cmd st)
       \<or> opt_allow_blanket opts \<and> (allow_bash_execute st \<and> pin = None \<or> cmd \<in> set (allowed_bash_commands st)))"
proof -
  have refused: "\<not> script_refused parse cmd st"
    using assms grant_refused [of parse cmd st True pin opts] by auto
  show ?thesis
  proof (cases "script_commands parse cmd")
    case None
    then show ?thesis
      using assms refused
      by (auto simp: bash_grant_pre_decision_def evaluate_bash_segments persisted_bash_auto_allows_def split: if_splits)
  next
    case (Some raws)
    then have "\<not> list_ex (command_refused st) (active_commands raws)" using refused by (simp add: script_refused_def)
    from evaluate_segments_kept [OF this] Some refused assms show ?thesis
      by (auto simp: bash_grant_pre_decision_def evaluate_bash_segments script_passes_def script_granted_def
          persisted_bash_auto_allows_def split: if_splits)
  qed
qed

lemma pre_classifier_allows:
  assumes "bash_grant_pre_decision cmd (evaluate_bash parse cmd st True) st pin PRE_CLASSIFIER = Some (AllowAccess, why)"
    and "script_commands parse cmd = Some raws"
  shows "\<not> list_ex is_dangerous_command_words (active_commands raws)"
proof -
  have "\<not> script_refused parse cmd st"
    using assms(1) grant_refused [of parse cmd st True pin PRE_CLASSIFIER] by auto
  then have "\<not> list_ex (command_refused st) (active_commands raws)" using assms(2) by (simp add: script_refused_def)
  from evaluate_segments_kept [OF this] assms show ?thesis
    by (auto simp: bash_grant_pre_decision_def evaluate_bash_segments PRE_CLASSIFIER_def command_passes_def
        list_all_iff list_ex_iff split: if_splits)
qed

lemma grant_decisions:
  "bash_grant_pre_decision cmd ev st pin opts = Some (d, why) \<Longrightarrow>
     d = AllowAccess \<and> why \<in> {SessionGrant, SafeCommand} \<or> (\<exists>r. d = Reject r) \<and> why = SessionDeny"
  by (auto simp: bash_grant_pre_decision_def split: SegmentEvaluation.splits if_splits)

end
