(* ===== verification/Perm_Prompt.thy ===== *)
theory Perm_Prompt
  imports Perm_State
begin

text \<open>
  Asking the user (\<^verbatim>\<open>permission/prompter.rs\<close>, \<^verbatim>\<open>permission/hub_permission.rs\<close>): the options of a prompt for each
  kind of access and client, the reading of the client's answer, and the same over the hub.
\<close>

section \<open>Options\<close>

datatype ClientType = Generic | GrokTUI | GrokWeb | Nebula | Extension | GrokPager | Desktop

datatype OptionKind = AllowOnceKind | AllowAlwaysKind | RejectOnceKind | RejectAlwaysKind

record PermissionOption =
  option_id :: string
  option_label :: string
  option_kind :: OptionKind

datatype PromptOutcome =
    AllowOnce
  | AllowAlways
  | AllowEditsForSession
  | AllowAlwaysBashCommand string
  | AllowAlwaysDomain string
  | AllowAlwaysMcpTool string
  | AllowAlwaysMcpServer string
  | RejectOnce
  | RejectAlwaysBashCommand string
  | PromptCancelled
  | PromptFollowup string
  | PromptError string

definition new_option :: "string \<Rightarrow> string \<Rightarrow> OptionKind \<Rightarrow> PermissionOption" where
  "new_option oid label kind = \<lparr>option_id = oid, option_label = label, option_kind = kind\<rparr>"

text \<open>\<^verbatim>\<open>IndexMap::insert\<close>: an entry with the same key is replaced in its place.\<close>

fun index_insert :: "PermissionOption \<Rightarrow> PermissionOption list \<Rightarrow> PermissionOption list" where
  "index_insert opt [] = [opt]"
| "index_insert opt (o' # os) = (if option_id o' = option_id opt then opt # os else o' # index_insert opt os)"

definition index_get :: "string \<Rightarrow> PermissionOption list \<Rightarrow> PermissionOption option" where
  "index_get oid os = find (\<lambda>opt. option_id opt = oid) os"

definition REJECT_ONCE_LABEL :: string where
  "REJECT_ONCE_LABEL = ''No, and tell Grok what to do differently''"

definition ALLOW_EDITS_SESSION_OPTION_ID :: string where
  "ALLOW_EDITS_SESSION_OPTION_ID = ''allow-edits-session''"

definition ENABLE_ALWAYS_APPROVE_OPTION_ID :: string where
  "ENABLE_ALWAYS_APPROVE_OPTION_ID = ''enable-always-approve''"

definition enable_always_approve_option :: PermissionOption where
  "enable_always_approve_option =
     new_option ENABLE_ALWAYS_APPROVE_OPTION_ID
       (''Yes, and don'' @ [sq] @ ''t ask again for anything (always-approve mode)'') AllowOnceKind"

definition client_supports_enable_always_approve :: "ClientType \<Rightarrow> bool" where
  "client_supports_enable_always_approve client \<longleftrightarrow> client \<in> {GrokTUI, GrokPager, Desktop}"

definition prepend_enable_always_approve :: "ClientType \<Rightarrow> PermissionOption list \<Rightarrow> PermissionOption list" where
  "prepend_enable_always_approve client base =
     (if \<not> client_supports_enable_always_approve client then base
      else fold index_insert base [enable_always_approve_option])"

definition edit_options :: "PermissionOption list" where
  "edit_options =
     [new_option ALLOW_EDITS_SESSION_OPTION_ID ''Yes, allow all edits during this session'' AllowAlwaysKind,
      new_option ''allow-once'' ''Yes'' AllowOnceKind,
      new_option ''reject-once'' REJECT_ONCE_LABEL RejectOnceKind]"

definition bash_options :: "PermissionOption list" where
  "bash_options =
     [new_option ''allow-once'' ''Yes, proceed'' AllowOnceKind,
      new_option ''reject-once'' REJECT_ONCE_LABEL RejectOnceKind]"

definition generic_bash_options :: "PermissionOption list" where
  "generic_bash_options =
     [new_option ''always-allow'' (''Yes, and don'' @ [sq] @ ''t ask again for bash commands'') AllowAlwaysKind,
      new_option ''allow-once'' ''Yes, proceed'' AllowOnceKind,
      new_option ''reject-once'' REJECT_ONCE_LABEL RejectOnceKind,
      new_option ''reject-always'' (''No, and don'' @ [sq] @ ''t run bash commands'') RejectAlwaysKind]"

definition fallback_options :: "PermissionOption list" where
  "fallback_options =
     [new_option ''always-allow'' ''always allow'' AllowAlwaysKind,
      new_option ''allow-once'' ''allow once'' AllowOnceKind,
      new_option ''reject-once'' ''reject once'' RejectOnceKind]"

definition bash_scope_option :: "string \<Rightarrow> string \<Rightarrow> OptionKind \<Rightarrow> BashCommandHighlights \<Rightarrow> PermissionOption" where
  "bash_scope_option oid prefx kind primary =
     new_option oid (prefx @ '' '' @ join_with '' '' (highlighted_words primary)) kind"

definition build_options_inner :: "'g perm_lib \<Rightarrow> ClientType \<Rightarrow> AccessKind \<Rightarrow> PermissionOption list" where
  "build_options_inner lib client access =
     (case access of
        EditAccess _ \<Rightarrow> edit_options
      | BashAccess bash_command \<Rightarrow>
          (if client \<in> {GrokTUI, GrokPager, Desktop} then
             (case primary_command_from_script (parse_shell lib) bash_command of
                Some primary \<Rightarrow>
                  index_insert (bash_scope_option ''reject-always-command'' ''Never allow:'' RejectAlwaysKind primary)
                    (fold index_insert bash_options
                      [bash_scope_option ''allow-always-command'' ''Always allow:'' AllowAlwaysKind primary])
              | None \<Rightarrow> bash_options)
           else generic_bash_options)
      | WebFetchAccess url \<Rightarrow>
          (let domain = (case domain_from_url lib url of Some d \<Rightarrow> d | None \<Rightarrow> ''unknown domain'')
           in [new_option ''allow-always-domain'' (''Yes, always allow '' @ domain @ '' this session'') AllowAlwaysKind,
               new_option ''allow-once'' ''Yes, allow once'' AllowOnceKind,
               new_option ''reject-once'' REJECT_ONCE_LABEL RejectOnceKind])
      | MCPToolAccess tool_name _ \<Rightarrow>
          (if client \<in> {GrokTUI, GrokPager, Desktop} then
             [new_option ''allow-always-mcp'' (''Always allow: '' @ tool_name) AllowAlwaysKind,
              new_option ''allow-once'' ''Yes'' AllowOnceKind,
              new_option ''reject-once'' REJECT_ONCE_LABEL RejectOnceKind]
           else fallback_options)
      | _ \<Rightarrow> fallback_options)"

definition REMEMBER_TOOL_APPROVALS_GATED_IDS :: "string list" where
  "REMEMBER_TOOL_APPROVALS_GATED_IDS =
     [''allow-always-command'', ''reject-always-command'', ''allow-always-mcp'', ''allow-always-domain'', ''always-allow'',
      ''reject-always'']"

definition build_options :: "'g perm_lib \<Rightarrow> ClientType \<Rightarrow> bool \<Rightarrow> AccessKind \<Rightarrow> PermissionOption list" where
  "build_options lib client remember_tool_approvals access =
     (let base = build_options_inner lib client access;
          base = (if \<not> remember_tool_approvals
                  then filter (\<lambda>opt. option_id opt \<notin> set REMEMBER_TOOL_APPROVALS_GATED_IDS) base else base)
      in prepend_enable_always_approve client base)"

section \<open>Answers\<close>

datatype McpScopeSelection = ToolScope string | ServerScope string

text \<open>The metadata of an answer, read as the two structures a client may send.\<close>

definition scope_selection :: "json \<Rightarrow> McpScopeSelection option" where
  "scope_selection m =
     (case Option.bind (json_get ''kind'' m) json_as_str of
        None \<Rightarrow> None
      | Some kind \<Rightarrow>
          (if kind = ''tool'' then map_option ToolScope (Option.bind (json_get ''tool_name'' m) json_as_str)
           else if kind = ''server'' then map_option ServerScope (Option.bind (json_get ''server'' m) json_as_str)
           else None))"

fun json_strings :: "json list \<Rightarrow> string list option" where
  "json_strings [] = Some []"
| "json_strings (v # vs) =
     (case json_as_str v of Some s \<Rightarrow> map_option (\<lambda>ss. s # ss) (json_strings vs) | None \<Rightarrow> None)"

definition selected_terms :: "json \<Rightarrow> string list option" where
  "selected_terms m =
     (case json_get ''command_parts'' m of Some (JArray vs) \<Rightarrow> json_strings vs | _ \<Rightarrow> None)"

definition mcp_always_outcome :: "json option \<Rightarrow> AccessKind \<Rightarrow> PromptOutcome" where
  "mcp_always_outcome meta access =
     (let by_access = (case access of MCPToolAccess name _ \<Rightarrow> AllowAlwaysMcpTool name | _ \<Rightarrow> AllowAlways)
      in case Option.bind meta scope_selection of
           Some (ToolScope tool_name) \<Rightarrow> AllowAlwaysMcpTool tool_name
         | Some (ServerScope server) \<Rightarrow> (if server = [] then by_access else AllowAlwaysMcpServer server)
         | None \<Rightarrow> by_access)"

definition domain_always_outcome :: "'g perm_lib \<Rightarrow> AccessKind \<Rightarrow> PromptOutcome" where
  "domain_always_outcome lib access =
     (case access of
        WebFetchAccess url \<Rightarrow>
          (case domain_from_url lib url of
             Some domain \<Rightarrow> (if domain \<noteq> [] then AllowAlwaysDomain domain else AllowOnce)
           | None \<Rightarrow> AllowOnce)
      | _ \<Rightarrow> AllowOnce)"

text \<open>The command an always-row is about: the terms of the client, else the script's primary command.\<close>

definition command_outcome :: "'g perm_lib \<Rightarrow> json option \<Rightarrow> AccessKind \<Rightarrow> (string \<Rightarrow> PromptOutcome) \<Rightarrow> PromptOutcome
    \<Rightarrow> PromptOutcome" where
  "command_outcome lib meta access always otherwise =
     (case Option.bind meta selected_terms of
        Some parts \<Rightarrow> always (join_with '' '' parts)
      | None \<Rightarrow>
          (case access of
             BashAccess cmd \<Rightarrow>
               (case primary_command_from_script (parse_shell lib) cmd of
                  Some primary \<Rightarrow> always (join_with '' '' (highlighted_words primary))
                | None \<Rightarrow> otherwise)
           | _ \<Rightarrow> otherwise))"

definition allow_always_outcome :: "'g perm_lib \<Rightarrow> string \<Rightarrow> json option \<Rightarrow> AccessKind \<Rightarrow> PromptOutcome" where
  "allow_always_outcome lib oid meta access =
     (if oid = ENABLE_ALWAYS_APPROVE_OPTION_ID then AllowOnce
      else if oid = ''allow-always-mcp'' then mcp_always_outcome meta access
      else if oid = ''allow-always-domain'' then domain_always_outcome lib access
      else if oid = ''allow-always-command'' then command_outcome lib meta access AllowAlwaysBashCommand AllowAlways
      else if oid = ALLOW_EDITS_SESSION_OPTION_ID then AllowEditsForSession
      else AllowAlways)"

definition reject_once_outcome :: "json option \<Rightarrow> PromptOutcome" where
  "reject_once_outcome meta =
     (case Option.bind (Option.bind meta (json_get ''followup_message'')) json_as_str of
        Some followup \<Rightarrow> (if trim followup \<noteq> [] then PromptFollowup followup else RejectOnce)
      | None \<Rightarrow> RejectOnce)"

definition map_selected_outcome :: "'g perm_lib \<Rightarrow> PermissionOption list \<Rightarrow> string \<Rightarrow> json option \<Rightarrow> AccessKind
    \<Rightarrow> PromptOutcome" where
  "map_selected_outcome lib options oid meta access =
     (case index_get oid options of
        None \<Rightarrow> PromptError ''unknown permission option''
      | Some opt \<Rightarrow>
          (case option_kind opt of
             AllowOnceKind \<Rightarrow> AllowOnce
           | AllowAlwaysKind \<Rightarrow> allow_always_outcome lib oid meta access
           | RejectOnceKind \<Rightarrow> reject_once_outcome meta
           | RejectAlwaysKind \<Rightarrow>
               (if oid = ''reject-always-command''
                then command_outcome lib meta access RejectAlwaysBashCommand RejectOnce
                else RejectOnce)))"

text \<open>What the client sends back.\<close>

datatype client_response = ClientCancelled | ClientSelected string "json option" | ClientFailed

definition prompt_request :: "'g perm_lib \<Rightarrow> ClientType \<Rightarrow> bool \<Rightarrow> AccessKind \<Rightarrow> client_response \<Rightarrow> PromptOutcome" where
  "prompt_request lib client remember access response =
     (case response of
        ClientCancelled \<Rightarrow> PromptCancelled
      | ClientSelected oid meta \<Rightarrow>
          map_selected_outcome lib (build_options lib client remember access) oid meta access
      | ClientFailed \<Rightarrow> PromptError ''failed to request permission'')"

section \<open>Answers over the hub\<close>

fun reply_outcome_name :: "json option \<Rightarrow> string" where
  "reply_outcome_name (Some (JString s)) = s"
| "reply_outcome_name (Some (JNumber n)) =
     (case parse_signed 64 n of
        Some k \<Rightarrow>
          (if k = 1 then ''approve'' else if k = 2 then ''reject'' else if k = 3 then ''always_approve''
           else if k = 4 then ''always_reject'' else [])
      | None \<Rightarrow> [])"
| "reply_outcome_name _ = []"

definition scope_kind_value :: "json \<Rightarrow> (string \<times> string option) option" where
  "scope_kind_value reply =
     Option.bind (json_get ''scope'' reply) (\<lambda>scope.
       map_option (\<lambda>kind. (kind, Option.bind (json_get ''value'' scope) json_as_str))
         (Option.bind (json_get ''kind'' scope) json_as_str))"

definition reply_to_outcome :: "json \<Rightarrow> PromptOutcome" where
  "reply_to_outcome reply =
     (let outcome = reply_outcome_name (json_get ''outcome'' reply)
      in if outcome = ''approve'' then AllowOnce
         else if outcome = ''always_approve'' then
           (case scope_kind_value reply of
              Some (kind, Some v) \<Rightarrow>
                (if kind = ''bash_command'' then AllowAlwaysBashCommand v
                 else if kind = ''server_prefix'' then AllowAlwaysMcpServer v
                 else if kind = ''domain'' then AllowAlwaysDomain v
                 else AllowAlways)
            | _ \<Rightarrow> AllowAlways)
         else if outcome = ''reject'' then
           (case Option.bind (json_get ''followup_message'' reply) json_as_str of
              Some message \<Rightarrow> (if message \<noteq> [] then PromptFollowup message else RejectOnce)
            | None \<Rightarrow> RejectOnce)
         else if outcome = ''always_reject'' then
           (case scope_kind_value reply of
              Some (kind, Some v) \<Rightarrow> (if kind = ''bash_command'' then RejectAlwaysBashCommand v else RejectOnce)
            | _ \<Rightarrow> RejectOnce)
         else if outcome = ''cancelled'' then PromptCancelled
         else RejectOnce)"

definition prompt_outcome_allows :: "PromptOutcome \<Rightarrow> bool" where
  "prompt_outcome_allows o' \<longleftrightarrow>
     (case o' of
        AllowOnce \<Rightarrow> True | AllowAlways \<Rightarrow> True | AllowEditsForSession \<Rightarrow> True | AllowAlwaysBashCommand _ \<Rightarrow> True
      | AllowAlwaysDomain _ \<Rightarrow> True | AllowAlwaysMcpTool _ \<Rightarrow> True | AllowAlwaysMcpServer _ \<Rightarrow> True | _ \<Rightarrow> False)"

text \<open>The reply of the hub, or the error of the transport.\<close>

definition request_permission_via_hub :: "AccessKind \<Rightarrow> json res \<Rightarrow> PromptOutcome" where
  "request_permission_via_hub access reply =
     (case reply of
        Inl e \<Rightarrow> PromptError (''hub permission request failed: '' @ e)
      | Inr r \<Rightarrow>
          (case (reply_to_outcome r, access) of
             (AllowAlways, EditAccess _) \<Rightarrow> AllowEditsForSession
           | (other, _) \<Rightarrow> other))"

section \<open>Names\<close>

definition tool_name_for_access :: "AccessKind \<Rightarrow> string" where
  "tool_name_for_access access =
     (case access of
        ReadAccess _ \<Rightarrow> ''read_file'' | GrepAccess _ _ \<Rightarrow> ''grep'' | EditAccess _ \<Rightarrow> ''search_replace''
      | BashAccess _ \<Rightarrow> ''run_terminal_command'' | MCPToolAccess name _ \<Rightarrow> ''mcp:'' @ name
      | WebFetchAccess _ \<Rightarrow> ''web_fetch'' | WebSearchAccess _ \<Rightarrow> ''web_search'')"

definition mcp_tool_action :: "string \<Rightarrow> string option \<Rightarrow> string" where
  "mcp_tool_action tool_name server_prefix =
     (case server_prefix of
        None \<Rightarrow> tool_name
      | Some p \<Rightarrow>
          (case Option.bind (strip_prefix tool_name p) (\<lambda>rest. strip_prefix rest MCP_TOOL_NAME_DELIMITER) of
             Some action \<Rightarrow> action
           | None \<Rightarrow> tool_name))"

definition mcp_titleize_segment :: "string \<Rightarrow> string" where
  "mcp_titleize_segment name =
     join_with '' '' (map (\<lambda>w. case w of [] \<Rightarrow> [] | c # cs \<Rightarrow> to_upper_char c # cs) (split_pred (\<lambda>c. c = CHR ''_'') name))"

definition mcp_tool_display_name :: "string \<Rightarrow> string option \<Rightarrow> string" where
  "mcp_tool_display_name tool_name server_prefix =
     (case server_prefix of
        Some server \<Rightarrow>
          ''('' @ mcp_titleize_segment server @ '') '' @ mcp_titleize_segment (mcp_tool_action tool_name server_prefix)
      | None \<Rightarrow> mcp_titleize_segment tool_name)"

definition mcp_pretty_name_if_qualified :: "string \<Rightarrow> string" where
  "mcp_pretty_name_if_qualified name =
     (case parse_mcp_qualified_name name of
        Some (server, action) \<Rightarrow> ''('' @ mcp_titleize_segment server @ '') '' @ mcp_titleize_segment action
      | None \<Rightarrow> name)"

section \<open>What an answer can grant\<close>

lemma index_get_Some: "index_get oid os = Some opt \<Longrightarrow> opt \<in> set os \<and> option_id opt = oid"
  by (auto simp: index_get_def find_Some_iff)

lemma index_insert_set: "set (index_insert opt os) \<subseteq> insert opt (set os)"
  by (induction os) auto

lemma fold_index_insert_set: "set (fold index_insert base os) \<subseteq> set base \<union> set os"
  by (induction base arbitrary: os) (use index_insert_set in \<open>fastforce+\<close>)

lemma inner_options_always:
  assumes "opt \<in> set (build_options_inner lib client access)" "option_kind opt \<in> {AllowAlwaysKind, RejectAlwaysKind}"
  shows "option_id opt \<in> set REMEMBER_TOOL_APPROVALS_GATED_IDS
    \<or> option_id opt = ALLOW_EDITS_SESSION_OPTION_ID \<and> option_kind opt = AllowAlwaysKind \<and> (\<exists>p. access = EditAccess p)"
  using assms
  by (auto simp: build_options_inner_def edit_options_def bash_options_def generic_bash_options_def fallback_options_def
      bash_scope_option_def new_option_def Let_def REMEMBER_TOOL_APPROVALS_GATED_IDS_def
      split: AccessKind.splits if_splits option.splits)

lemma offered_option:
  assumes "opt \<in> set (build_options lib client remember access)"
  shows "opt = enable_always_approve_option
    \<or> opt \<in> set (build_options_inner lib client access)
      \<and> (remember \<or> option_id opt \<notin> set REMEMBER_TOOL_APPROVALS_GATED_IDS)"
  using assms fold_index_insert_set
  by (fastforce simp: build_options_def prepend_enable_always_approve_def Let_def split: if_splits)

lemma allow_always_allows: "prompt_outcome_allows (allow_always_outcome lib oid meta access)"
  by (simp add: allow_always_outcome_def mcp_always_outcome_def domain_always_outcome_def command_outcome_def
      prompt_outcome_allows_def Let_def split: option.splits AccessKind.splits McpScopeSelection.splits)

lemma reject_outcomes:
  "\<not> prompt_outcome_allows (reject_once_outcome meta)"
  "\<not> prompt_outcome_allows (command_outcome lib meta access RejectAlwaysBashCommand RejectOnce)"
  by (simp_all add: reject_once_outcome_def command_outcome_def prompt_outcome_allows_def split: option.splits AccessKind.splits)

text \<open>Answers that leave nothing behind beyond the session.\<close>

definition one_time :: "PromptOutcome \<Rightarrow> bool" where
  "one_time o' \<longleftrightarrow>
     (case o' of
        AllowOnce \<Rightarrow> True | AllowEditsForSession \<Rightarrow> True | RejectOnce \<Rightarrow> True | PromptCancelled \<Rightarrow> True
      | PromptFollowup _ \<Rightarrow> True | PromptError _ \<Rightarrow> True | _ \<Rightarrow> False)"

lemma reject_once_one_time: "one_time (reject_once_outcome meta)"
  by (simp add: reject_once_outcome_def one_time_def split: option.splits)


text \<open>
  The option \<^verbatim>\<open>No, and don't run bash commands\<close> of the clients without the interactive
  prompt is read as a single rejection: it leaves nothing behind that would refuse the next
  command.
\<close>

theorem generic_reject_always_forgotten:
  "new_option ''reject-always'' (''No, and don'' @ [sq] @ ''t run bash commands'') RejectAlwaysKind
     \<in> set (build_options lib Generic True (BashAccess cmd))
   \<and> prompt_request lib Generic True (BashAccess cmd) (ClientSelected ''reject-always'' meta) = RejectOnce"
  by (simp add: prompt_request_def map_selected_outcome_def build_options_def build_options_inner_def
      prepend_enable_always_approve_def client_supports_enable_always_approve_def generic_bash_options_def new_option_def
      index_get_def)

end
