(* ===== verification/Model_Path.thy ===== *)
theory Model_Path
  imports Shell_Paths
begin

text \<open>
  Paths that the model writes (\<^verbatim>\<open>xai-grok-tools/src/types/resources.rs\<close>): the clean-up of quotes, white
  space and literal escapes around a path, and its resolution against the working directory and
  the directory that is displayed to the model. The expansion of a leading tilde is a library
  function the resolution takes.
\<close>

section \<open>Definitions\<close>

definition ends_in_escape :: "string \<Rightarrow> bool" where
  "ends_in_escape s \<longleftrightarrow> ends_with s [bsl, CHR ''n''] \<or> ends_with s [bsl, CHR ''r''] \<or> ends_with s [bsl, CHR ''t'']"

lemma ends_in_escape_length: "ends_in_escape s \<Longrightarrow> 2 \<le> length s"
  by (auto simp: ends_in_escape_def ends_with_iff dest: suffix_length_le)

definition trim_end :: "string \<Rightarrow> string" where
  "trim_end s = trim_end_pred is_whitespace s"

lemma trim_end_length: "length (trim_end s) \<le> length s"
  using length_dropWhile_le [of is_whitespace "rev s"] by (simp add: trim_end_def trim_end_pred_def)

function strip_escapes :: "string \<Rightarrow> string" where
  "strip_escapes s = (if ends_in_escape s then strip_escapes (trim_end (take (length s - 2) s)) else s)"
  by pat_completeness auto
termination
proof (relation "measure length")
  fix s assume "ends_in_escape s"
  then have "2 \<le> length s" by (rule ends_in_escape_length)
  then show "(trim_end (take (length s - 2) s), s) \<in> measure length"
    using trim_end_length [of "take (length s - 2) s"] by simp
qed simp

declare strip_escapes.simps [simp del]

definition sanitize_model_path_arg :: "string \<Rightarrow> string" where
  "sanitize_model_path_arg input =
     (let trimmed = trim input;
          quote_wrapped = (2 \<le> length trimmed \<and> quote_char (hd trimmed) \<and> quote_char (last trimmed));
          unquoted = trim (trim_end_pred quote_char (dropWhile quote_char trimmed))
      in if \<not> quote_wrapped then unquoted else strip_escapes unquoted)"

definition resolve_model_path :: "(string \<Rightarrow> string) \<Rightarrow> path \<Rightarrow> path option \<Rightarrow> string \<Rightarrow> path" where
  "resolve_model_path tilde cwd display_cwd input =
     (let expanded = tilde (sanitize_model_path_arg input);
          input_path = components expanded
      in if display_cwd \<noteq> None \<and> is_absolute input_path then
           (case strip_prefix input_path (the display_cwd) of
              Some suffx \<Rightarrow> path_join cwd suffx
            | None \<Rightarrow> input_path)
         else if \<not> is_absolute input_path \<and> expanded \<noteq> [] then
           (case strip_prefix (components (''/'' @ expanded)) (case display_cwd of Some d \<Rightarrow> d | None \<Rightarrow> cwd) of
              Some suffx \<Rightarrow> path_join cwd suffx
            | None \<Rightarrow> path_join cwd input_path)
         else path_join cwd input_path)"

section \<open>Spellings of a path\<close>

text \<open>A path with nothing around it, and the ways the model is seen to write it.\<close>

definition bare :: "string \<Rightarrow> bool" where
  "bare p \<longleftrightarrow> p \<noteq> [] \<and> \<not> is_whitespace (hd p) \<and> \<not> is_whitespace (last p) \<and> \<not> quote_char (hd p) \<and> \<not> quote_char (last p)
     \<and> \<not> ends_in_escape p"

definition escape_text :: "string \<Rightarrow> bool" where
  "escape_text e \<longleftrightarrow> e \<in> {[bsl, CHR ''n''], [bsl, CHR ''r''], [bsl, CHR ''t'']}"

inductive spelling :: "string \<Rightarrow> string \<Rightarrow> bool" for p where
  plain: "list_all is_whitespace a \<Longrightarrow> list_all is_whitespace b \<Longrightarrow> spelling p (a @ p @ b)"
| quoted: "list_all is_whitespace a \<Longrightarrow> list_all is_whitespace b \<Longrightarrow> quote_char q \<Longrightarrow> quote_char r
    \<Longrightarrow> list_all escape_text es \<Longrightarrow> spelling p (a @ q # p @ concat es @ r # b)"

lemma dropWhile_all: "list_all P a \<Longrightarrow> dropWhile P (a @ s) = dropWhile P s"
  by (induction a) auto

lemma dropWhile_solid: "s \<noteq> [] \<Longrightarrow> \<not> P (hd s) \<Longrightarrow> dropWhile P s = s"
  by (cases s) auto

lemma trim_end_solid: "s \<noteq> [] \<Longrightarrow> \<not> is_whitespace (last s) \<Longrightarrow> trim_end s = s"
  by (simp add: trim_end_def trim_end_pred_def dropWhile_solid hd_rev)

lemma trim_both:
  assumes "list_all P a" "list_all P b" "s \<noteq> []" "\<not> P (hd s)" "\<not> P (last s)"
  shows "trim_end_pred P (dropWhile P (a @ s @ b)) = s"
proof -
  have "dropWhile P (a @ s @ b) = s @ b" using assms by (simp add: dropWhile_all dropWhile_solid)
  moreover have "dropWhile P (rev b @ rev s) = rev s"
    using assms by (simp add: dropWhile_all list_all_rev dropWhile_solid hd_rev)
  ultimately show ?thesis by (simp add: trim_end_pred_def)
qed

lemma trim_around:
  assumes "list_all is_whitespace a" "list_all is_whitespace b" "s \<noteq> []" "\<not> is_whitespace (hd s)" "\<not> is_whitespace (last s)"
  shows "trim (a @ s @ b) = s"
  using trim_both [OF assms] by (simp add: trim_def)

lemma escape_text_facts:
  "escape_text e \<Longrightarrow> e \<noteq> [] \<and> length e = 2 \<and> \<not> is_whitespace (last e) \<and> \<not> quote_char (last e) \<and> ends_in_escape (p @ e)"
  by (auto simp: escape_text_def is_whitespace_def quote_char_def ends_in_escape_def ends_with_iff suffix_def)

lemma escapes_last:
  assumes "bare p" "list_all escape_text es"
  shows "\<not> is_whitespace (last (p @ concat es)) \<and> \<not> quote_char (last (p @ concat es))"
proof (cases es rule: rev_cases)
  case (snoc es' e)
  then have "escape_text e" using assms(2) by simp
  then show ?thesis using snoc escape_text_facts [of e] by (simp add: last_append)
qed (use assms in \<open>simp add: bare_def\<close>)

lemma strip_escapes_all:
  assumes "bare p" "list_all escape_text es"
  shows "strip_escapes (p @ concat es) = p"
  using assms(2)
proof (induction es rule: rev_induct)
  case Nil
  with assms(1) show ?case by (simp add: strip_escapes.simps [of p] bare_def)
next
  case (snoc e es)
  have e: "length e = 2" "ends_in_escape (p @ concat es @ e)"
    using snoc(2) escape_text_facts [of e "p @ concat es"] by simp_all
  have "trim_end (p @ concat es) = p @ concat es"
    using escapes_last [OF assms(1), of es] snoc(2) assms(1) by (intro trim_end_solid) (auto simp: bare_def)
  with e snoc show ?case by (subst strip_escapes.simps) simp
qed

lemma sanitize_spelling:
  assumes "bare p" "spelling p s"
  shows "sanitize_model_path_arg s = p"
  using assms(2)
proof cases
  case (plain a b)
  have "trim s = p" unfolding plain using assms(1) plain by (intro trim_around) (auto simp: bare_def)
  moreover have "trim_end_pred quote_char (dropWhile quote_char p) = p"
    using trim_both [of quote_char "[]" "[]" p] assms(1) by (simp add: bare_def)
  moreover have "trim p = p" using trim_around [of "[]" "[]" p] assms(1) by (simp add: bare_def)
  ultimately show ?thesis using assms(1) by (simp add: sanitize_model_path_arg_def bare_def)
next
  case (quoted a b q r es)
  let ?c = "p @ concat es"
  have q: "\<not> is_whitespace q" "\<not> is_whitespace r" using quoted by (auto simp: quote_char_def is_whitespace_def)
  have c: "?c \<noteq> []" "\<not> quote_char (hd ?c)" "\<not> is_whitespace (hd ?c)"
    and l: "\<not> is_whitespace (last ?c)" "\<not> quote_char (last ?c)"
    using assms(1) escapes_last [OF assms(1) quoted(6)] by (auto simp: bare_def)
  have "trim s = [q] @ ?c @ [r]"
    unfolding quoted(1) using quoted q trim_around [of a b "[q] @ ?c @ [r]"] by simp
  moreover have "trim_end_pred quote_char (dropWhile quote_char ([q] @ ?c @ [r])) = ?c"
    using quoted c l by (intro trim_both) auto
  moreover have "trim ?c = ?c" using trim_around [of "[]" "[]" ?c] c l by simp
  ultimately show ?thesis
    using quoted strip_escapes_all [OF assms(1) quoted(6)] by (simp add: sanitize_model_path_arg_def Let_def)
qed

text \<open>
  How the model writes a path does not matter: with white space around it, in quotes, and in
  quotes with literal escapes at its end it resolves to the same place, so whether its edit
  is always asked about is also the same.
\<close>

theorem edit_spelling_irrelevant:
  assumes "bare p" "spelling p s"
  shows "resolve_model_path tilde cwd display_cwd s = resolve_model_path tilde cwd display_cwd p
    \<and> edit_target_requires_prompt fs (resolve_model_path tilde cwd display_cwd s)
        = edit_target_requires_prompt fs (resolve_model_path tilde cwd display_cwd p)"
proof -
  have "sanitize_model_path_arg p = p" using sanitize_spelling [OF assms(1) plain [of "[]" "[]"]] by simp
  then show ?thesis by (simp add: resolve_model_path_def sanitize_spelling [OF assms])
qed

theorem edit_spelling_irrelevant_witness:
  "resolve_model_path (\<lambda>s. s) [RootDir] None ([CHR '' '', dq] @ ''/etc/hosts'' @ [bsl, CHR ''n'', dq, newline])
     = components ''/etc/hosts''"
proof -
  have "bare ''/etc/hosts''" by code_simp
  moreover have "spelling ''/etc/hosts'' ('' '' @ dq # ''/etc/hosts'' @ concat [[bsl, CHR ''n'']] @ dq # [newline])"
    by (rule quoted) (simp_all add: is_whitespace_def quote_char_def escape_text_def)
  ultimately have "resolve_model_path (\<lambda>s. s) [RootDir] None ('' '' @ dq # ''/etc/hosts'' @ concat [[bsl, CHR ''n'']] @ dq # [newline])
     = resolve_model_path (\<lambda>s. s) [RootDir] None ''/etc/hosts''"
    using edit_spelling_irrelevant by blast
  moreover have "resolve_model_path (\<lambda>s. s) [RootDir] None ''/etc/hosts'' = components ''/etc/hosts''" by code_simp
  ultimately show ?thesis by simp
qed

end
