(* ===== verification/Truncate.thy ===== *)
theory Truncate
  imports Rust_Prelude
begin

text \<open>
  Cutting text to a budget (\<^verbatim>\<open>xai-grok-tools/src/util/truncate.rs\<close>). The text is its UTF-8 bytes; a
  cut is allowed only where a character begins.
\<close>

section \<open>Definitions\<close>

definition continuation_byte :: "char \<Rightarrow> bool" where
  "continuation_byte c \<longleftrightarrow> 128 \<le> (of_char c :: nat) \<and> (of_char c :: nat) < 192"

definition is_char_boundary :: "string \<Rightarrow> nat \<Rightarrow> bool" where
  "is_char_boundary s i \<longleftrightarrow> i = 0 \<or> i = length s \<or> i < length s \<and> \<not> continuation_byte (s ! i)"

text \<open>\<^verbatim>\<open>while !s.is_char_boundary(end) { end -= 1; }\<close>\<close>

fun boundary_below :: "string \<Rightarrow> nat \<Rightarrow> nat" where
  "boundary_below s 0 = 0"
| "boundary_below s (Suc i) = (if is_char_boundary s (Suc i) then Suc i else boundary_below s i)"

definition TRUNCATION_MARKER :: string where
  "TRUNCATION_MARKER = [CHR 0xE2, CHR 0x80, CHR 0xA6]"

definition char_starts :: "string \<Rightarrow> nat list" where
  "char_starts s = filter (\<lambda>i. \<not> continuation_byte (s ! i)) [0..<length s]"

fun show_decimal :: "nat \<Rightarrow> string" where
  "show_decimal n = (if n < 10 then [char_of (48 + n)] else show_decimal (n div 10) @ [char_of (48 + n mod 10)])"

declare show_decimal.simps [simp del]

definition truncate_line :: "string \<Rightarrow> nat \<Rightarrow> string" where
  "truncate_line line max_chars =
     (if length line \<le> max_chars then line
      else
        (let char_count = length (char_starts line)
         in if char_count \<le> max_chars then line
            else
              (let end_byte = (if max_chars < char_count then char_starts line ! max_chars else length line)
               in take end_byte line @ '' [... truncated ('' @ show_decimal char_count @ '' chars total)]'')))"

definition truncate_str :: "string \<Rightarrow> nat \<Rightarrow> string" where
  "truncate_str s max_bytes = (if length s \<le> max_bytes then s else take (boundary_below s max_bytes) s)"

definition truncate_str_with_marker :: "string \<Rightarrow> nat \<Rightarrow> string" where
  "truncate_str_with_marker s max_bytes =
     (if length s \<le> max_bytes then s
      else if length TRUNCATION_MARKER > max_bytes then truncate_str s max_bytes
      else take (boundary_below s (max_bytes - length TRUNCATION_MARKER)) s @ TRUNCATION_MARKER)"

definition floor_char_boundary :: "string \<Rightarrow> nat \<Rightarrow> nat" where
  "floor_char_boundary s index = (if index \<ge> length s then length s else boundary_below s index)"

section \<open>Cuts\<close>

lemma boundary_below_le: "boundary_below s i \<le> i"
  by (induction i) auto

lemma boundary_below_boundary: "is_char_boundary s (boundary_below s i)"
  by (induction i) (auto simp: is_char_boundary_def)

lemma boundary_below_greatest: "is_char_boundary s j \<Longrightarrow> j \<le> i \<Longrightarrow> j \<le> boundary_below s i"
  by (induction i) (auto simp: le_Suc_eq)

text \<open>
  Cutting keeps to the budget and never splits a character: the result is at most the given
  number of bytes; what is kept is a prefix of the text that ends where a character ends, the
  longest that fits with the marker; and text that fits is not changed.
\<close>

theorem truncate_with_marker_spec:
  assumes "length TRUNCATION_MARKER \<le> max_bytes"
  shows "length (truncate_str_with_marker s max_bytes) \<le> max_bytes
    \<and> (truncate_str_with_marker s max_bytes = s \<and> length s \<le> max_bytes
       \<or> (\<exists>i. truncate_str_with_marker s max_bytes = take i s @ TRUNCATION_MARKER \<and> i < length s \<and> is_char_boundary s i
            \<and> (\<forall>j. is_char_boundary s j \<and> j + length TRUNCATION_MARKER \<le> max_bytes \<longrightarrow> j \<le> i)))"
proof (cases "length s \<le> max_bytes")
  case False
  let ?i = "boundary_below s (max_bytes - length TRUNCATION_MARKER)"
  have le: "?i \<le> max_bytes - length TRUNCATION_MARKER" by (rule boundary_below_le)
  have eq: "truncate_str_with_marker s max_bytes = take ?i s @ TRUNCATION_MARKER"
    using False assms by (simp add: truncate_str_with_marker_def)
  have "?i < length s" using False le by linarith
  moreover have "j \<le> ?i" if "is_char_boundary s j" "j + length TRUNCATION_MARKER \<le> max_bytes" for j
    using that by (intro boundary_below_greatest) auto
  ultimately show ?thesis
    using eq le assms boundary_below_boundary [of s "max_bytes - length TRUNCATION_MARKER"] by auto
qed (simp add: truncate_str_with_marker_def)

theorem truncate_with_marker_spec_witness:
  "length TRUNCATION_MARKER \<le> 4 \<and> length (truncate_str_with_marker [CHR ''a'', CHR 0xC3, CHR 0xA9, CHR ''b'', CHR ''c''] 4) \<le> 4
   \<and> truncate_str_with_marker [CHR ''a'', CHR 0xC3, CHR 0xA9, CHR ''b'', CHR ''c''] 4 = CHR ''a'' # TRUNCATION_MARKER"
proof -
  have "length TRUNCATION_MARKER \<le> 4" by (simp add: TRUNCATION_MARKER_def)
  moreover have "truncate_str_with_marker [CHR ''a'', CHR 0xC3, CHR 0xA9, CHR ''b'', CHR ''c''] 4 = CHR ''a'' # TRUNCATION_MARKER"
    by code_simp
  ultimately show ?thesis using truncate_with_marker_spec [of 4 "[CHR ''a'', CHR 0xC3, CHR 0xA9, CHR ''b'', CHR ''c'']"] by simp
qed

end
