(* ===== verification/Perm_Manager.thy ===== *)
theory Perm_Manager
  imports Perm_Bash Perm_Prompt Model_Path Truncate
begin

text \<open>
  The permission manager (\<^verbatim>\<open>xai-grok-workspace/src/permission/manager.rs\<close>): the actor that answers every
  request of a tool, its modes and what it remembers, the handles that send it commands, and the
  mapping of tool inputs to accesses (\<^verbatim>\<open>types.rs\<close>). What happens outside the actor while it handles a
  request (the requester giving up, the sandbox, the user's answer) is given with the request.
\<close>

section \<open>The actor\<close>

type_synonym classifier = "string \<Rightarrow> AccessKind \<Rightarrow> string option \<Rightarrow> ClassifierContext \<Rightarrow> ClassifierVerdict"

text \<open>What the actor captures when it is spawned.\<close>

record 'g manager =
  mgr_web :: "'g web_lib"
  mgr_fs :: file_system
  mgr_tilde :: "string \<Rightarrow> string"
  mgr_to_json :: "json \<Rightarrow> string"
  mgr_clf :: classifier_lib
  mgr_io :: state_io
  mgr_cwd :: string
  mgr_client_id :: "string option"
  mgr_config :: "PermissionConfig option"
  mgr_domains :: domain_matcher
  mgr_remember :: bool
  mgr_pin :: "string option"

record actor =
  perm_state :: PermissionState
  yolo_mode :: bool
  auto_mode :: bool
  auto_classifier :: "classifier option"
  classifier_turns :: "ClassifierTurn list"
  recorded_decisions :: "ClassifierTurn list"
  instructions :: "string option"
  pin_refusal_logged :: bool
  allow_edits_for_session :: bool
  state_files :: state_dir

record EditPathContext =
  real_cwd :: path
  display_cwd :: "path option"

record request =
  req_access :: AccessKind
  req_edit_context :: "EditPathContext option"

record surroundings =
  gone_at_dequeue :: bool
  gone_in_classify :: bool
  gone_before_prompt :: bool
  gone_at_end :: bool
  sandbox_active :: bool
  user_answer :: PromptOutcome

definition compiled_policy :: "'g manager \<Rightarrow> 'g CompiledPolicy option" where
  "compiled_policy m = map_option (policy_new (web_perm (mgr_web m))) (mgr_config m)"

definition effective_prompt_policy :: "'g manager \<Rightarrow> PromptPolicy" where
  "effective_prompt_policy m = (case mgr_config m of Some c \<Rightarrow> prompt_policy c | None \<Rightarrow> PromptAsk)"

definition default_auto_mode_classifier :: "'g manager \<Rightarrow> classifier" where
  "default_auto_mode_classifier m = llm_classify (mgr_clf m) production_default"

section \<open>Details of an access\<close>

definition MCP_ACCESS_DETAIL_MAX_LEN :: nat where "MCP_ACCESS_DETAIL_MAX_LEN = 1024"
definition CLASSIFIER_TURN_MAX_LEN :: nat where "CLASSIFIER_TURN_MAX_LEN = 400"

definition mcp_access_detail :: "(json \<Rightarrow> string) \<Rightarrow> string \<Rightarrow> json \<Rightarrow> string" where
  "mcp_access_detail to_json name input =
     (if input = JNull then name else truncate_line (name @ '' '' @ to_json input) MCP_ACCESS_DETAIL_MAX_LEN)"

definition access_detail :: "(json \<Rightarrow> string) \<Rightarrow> AccessKind \<Rightarrow> string option" where
  "access_detail to_json access =
     (case access of
        ReadAccess _ \<Rightarrow> None
      | GrepAccess path _ \<Rightarrow> path
      | EditAccess path \<Rightarrow> Some path
      | BashAccess cmd \<Rightarrow> Some cmd
      | MCPToolAccess name input \<Rightarrow> Some (mcp_access_detail to_json name input)
      | WebFetchAccess url \<Rightarrow> Some url
      | WebSearchAccess query \<Rightarrow> Some query)"

definition permission_decision_args :: "(json \<Rightarrow> string) \<Rightarrow> AccessKind \<Rightarrow> string option \<Rightarrow> string" where
  "permission_decision_args to_json access detail =
     truncate_str_with_marker
       (case access of
          BashAccess cmd \<Rightarrow> to_json (JObject [(''command'', JString cmd)])
        | _ \<Rightarrow> (case detail of Some d \<Rightarrow> d | None \<Rightarrow> ''(none)''))
       CLASSIFIER_TURN_MAX_LEN"

section \<open>The gates in front of every mode\<close>

record gates =
  g_bash :: "BashEvaluation option"
  g_protected_edit :: bool
  g_policy :: "PolicyDecision option"
  g_file_forced :: bool
  g_shell_forced :: bool

definition shell_parser :: "'g manager \<Rightarrow> string \<Rightarrow> tree option" where
  "shell_parser m = parse_shell (web_perm (mgr_web m))"

definition protected_edit :: "'g manager \<Rightarrow> request \<Rightarrow> bool" where
  "protected_edit m req =
     (case (req_access req, req_edit_context req) of
        (EditAccess p, Some context) \<Rightarrow>
          edit_target_requires_prompt (mgr_fs m) (resolve_model_path (mgr_tilde m) (real_cwd context) (display_cwd context) p)
      | (EditAccess p, None) \<Rightarrow>
          edit_target_requires_prompt (mgr_fs m) (resolve_model_path (mgr_tilde m) (components (mgr_cwd m)) None p)
      | _ \<Rightarrow> False)"

definition direct_decision :: "'g manager \<Rightarrow> AccessKind \<Rightarrow> PolicyDecision option" where
  "direct_decision m access =
     (case compiled_policy m of Some pol \<Rightarrow> evaluate_access (web_perm (mgr_web m)) pol access | None \<Rightarrow> None)"

definition shell_command_decision :: "'g manager \<Rightarrow> AccessKind \<Rightarrow> PolicyDecision option" where
  "shell_command_decision m access =
     (case (compiled_policy m, access) of
        (Some pol, BashAccess cmd) \<Rightarrow> evaluate_bash_command_policy (web_perm (mgr_web m)) pol cmd
      | _ \<Rightarrow> None)"

definition shell_file_decision :: "'g manager \<Rightarrow> AccessKind \<Rightarrow> PolicyDecision option" where
  "shell_file_decision m access =
     (case (compiled_policy m, access) of
        (Some pol, BashAccess cmd) \<Rightarrow> evaluate_shell_file_access (web_perm (mgr_web m)) (mgr_fs m) pol (mgr_cwd m) cmd
      | _ \<Rightarrow> None)"

definition request_gates :: "'g manager \<Rightarrow> actor \<Rightarrow> request \<Rightarrow> gates" where
  "request_gates m st req =
     (let access = req_access req;
          command = shell_command_decision m access; file_access = shell_file_decision m access
      in \<lparr>g_bash = (case access of BashAccess cmd \<Rightarrow> Some (evaluate_bash (shell_parser m) cmd (perm_state st) True) | _ \<Rightarrow> None),
          g_protected_edit = protected_edit m req,
          g_policy = combine_decisions (combine_decisions (direct_decision m access) command) file_access,
          g_file_forced = (file_access = Some AskUser),
          g_shell_forced = (file_access = Some AskUser \<or> command = Some AskUser)\<rparr>)"

abbreviation policy_forced :: "gates \<Rightarrow> bool" where
  "policy_forced g \<equiv> g_policy g = Some AskUser"

section \<open>Auto mode\<close>

datatype auto_result = AutoAnswered reason | AutoGone | AutoPasses "reason option"

definition classifier_verdict :: "'g manager \<Rightarrow> actor \<Rightarrow> AccessKind \<Rightarrow> surroundings \<Rightarrow> ClassifierVerdict option" where
  "classifier_verdict m st access env =
     (case auto_classifier st of
        Some clf \<Rightarrow>
          (if gone_in_classify env then None
           else Some (clf (tool_name_for_access access) access (access_detail (mgr_to_json m) access)
                  \<lparr>turns = classifier_turns st @ recorded_decisions st, project_instructions = instructions st\<rparr>))
      | None \<Rightarrow> Some VerdictUnavailable)"

definition auto_mode_step :: "'g manager \<Rightarrow> actor \<Rightarrow> AccessKind \<Rightarrow> gates \<Rightarrow> surroundings \<Rightarrow> auto_result" where
  "auto_mode_step m st access g env =
     (if auto_mode st \<and> \<not> policy_forced g \<and> \<not> g_shell_forced g \<and> \<not> bash_request_floor_requires_prompt (g_bash g) then
        (let tool_name = tool_name_for_access access;
             needs_user = (g_protected_edit g \<or> access_requires_user_interaction tool_name access)
         in case auto_mode_fast_path access tool_name needs_user of
              FastAllow \<Rightarrow> AutoAnswered AutoFastPathAllow
            | FastPromptUser \<Rightarrow> AutoPasses (Some NeedsUser)
            | FastClassify \<Rightarrow>
                (case classifier_verdict m st access env of
                   None \<Rightarrow> AutoGone
                 | Some VerdictAllow \<Rightarrow> AutoAnswered AutoClassifierAllow
                 | Some _ \<Rightarrow> AutoPasses (Some AutoClassifierBlock)))
      else AutoPasses None)"

section \<open>Decisions without the user\<close>

definition policy_answer :: "gates \<Rightarrow> PolicyDecision option" where
  "policy_answer g =
     (case g_policy g of
        Some AskUser \<Rightarrow> None
      | Some AllowAccess \<Rightarrow>
          (if g_protected_edit g \<or> bash_request_floor_requires_prompt (g_bash g) then None else Some AllowAccess)
      | Some d \<Rightarrow> Some d
      | None \<Rightarrow> None)"

definition bash_pre_decision :: "'g manager \<Rightarrow> actor \<Rightarrow> string \<Rightarrow> gates \<Rightarrow> bool \<Rightarrow> (PolicyDecision \<times> reason) option" where
  "bash_pre_decision m st cmd g auto_forced_prompt =
     (if bash_request_floor_requires_prompt (g_bash g) then None
      else if policy_forced g then
        (if mgr_remember m \<and> \<not> auto_forced_prompt \<and> \<not> g_file_forced g
         then Option.bind (g_bash g) (\<lambda>ev. bash_grant_pre_decision cmd ev (perm_state st) (mgr_pin m) ASK_FLOOR_REMEMBER)
         else None)
      else Option.bind (g_bash g) (\<lambda>ev.
             bash_grant_pre_decision cmd ev (perm_state st) (mgr_pin m) (post_classify auto_forced_prompt)))"

definition edit_pre_decision :: "actor \<Rightarrow> gates \<Rightarrow> (PolicyDecision \<times> reason) option" where
  "edit_pre_decision st g =
     (if allow_edits_for_session st \<and> \<not> g_protected_edit g then Some (AllowAccess, PersistedGrant)
      else case edit_policy (perm_state st) of
             EditReject \<Rightarrow> Some (Reject ''edits prohibited'', SessionDeny)
           | _ \<Rightarrow> None)"

definition access_pre_decision :: "'g manager \<Rightarrow> actor \<Rightarrow> AccessKind \<Rightarrow> gates \<Rightarrow> bool \<Rightarrow> (PolicyDecision \<times> reason) option" where
  "access_pre_decision m st access g auto_forced_prompt =
     (case access of
        ReadAccess _ \<Rightarrow> (if policy_forced g then None else Some (AllowAccess, SafeCommand))
      | GrepAccess _ _ \<Rightarrow> (if policy_forced g then None else Some (AllowAccess, SafeCommand))
      | WebSearchAccess _ \<Rightarrow> Some (AllowAccess, SafeCommand)
      | MCPToolAccess name _ \<Rightarrow>
          map_option (\<lambda>d. (d, PersistedGrant)) (mcp_pre_decision name (perm_state st) (policy_forced g) (mgr_remember m))
      | EditAccess _ \<Rightarrow> edit_pre_decision st g
      | BashAccess cmd \<Rightarrow> bash_pre_decision m st cmd g auto_forced_prompt
      | WebFetchAccess url \<Rightarrow> web_fetch_pre_decision (mgr_web m) (mgr_domains m) (perm_state st) PersistedGrant url)"

definition pre_decision :: "'g manager \<Rightarrow> actor \<Rightarrow> AccessKind \<Rightarrow> gates \<Rightarrow> bool \<Rightarrow> (PolicyDecision \<times> reason) option" where
  "pre_decision m st access g auto_forced_prompt =
     (case access_pre_decision m st access g auto_forced_prompt of
        Some (AllowAccess, why) \<Rightarrow>
          (if auto_forced_prompt \<and> auto_prompt_blocks_allow access then None else Some (AllowAccess, why))
      | d \<Rightarrow> d)"

text \<open>Nothing changes before the user is asked, so that part of the request is a pure decision.\<close>

datatype verdict = Gone | Decided PolicyDecision bool reason | AskThe reason

definition after_auto :: "'g manager \<Rightarrow> actor \<Rightarrow> AccessKind \<Rightarrow> gates \<Rightarrow> surroundings \<Rightarrow> reason option \<Rightarrow> verdict" where
  "after_auto m st access g env auto_prompt_reason =
     (let auto_forced_prompt = (auto_prompt_reason \<noteq> None)
      in if (case access of BashAccess _ \<Rightarrow> True | _ \<Rightarrow> False)
            \<and> sandbox_may_auto_allow_bash (g_bash g) (sandbox_active env)
            \<and> \<not> policy_forced g \<and> \<not> auto_forced_prompt
         then Decided AllowAccess True SandboxAuto
         else case policy_answer g of
                Some d \<Rightarrow> Decided d True PolicyAllowed
              | None \<Rightarrow>
                  (case pre_decision m st access g auto_forced_prompt of
                     Some (d, why) \<Rightarrow> Decided d True why
                   | None \<Rightarrow>
                       (if effective_prompt_policy m = PromptDeny
                        then Decided (PolicyDeny ''denied by prompt policy (tool not pre-approved)'') False PromptDenied
                        else if gone_before_prompt env then Gone
                        else AskThe (if policy_forced g \<or> g_shell_forced g then PolicyAsk
                                     else case auto_prompt_reason of Some why \<Rightarrow> why | None \<Rightarrow> NeedsUser))))"

definition session_grant :: "'g manager \<Rightarrow> actor \<Rightarrow> AccessKind \<Rightarrow> gates \<Rightarrow> (PolicyDecision \<times> reason) option" where
  "session_grant m st access g =
     (if \<not> policy_forced g \<and> \<not> g_shell_forced g \<and> \<not> g_protected_edit g
      then session_grant_pre_decision (mgr_web m) access (g_bash g) (perm_state st) (allow_edits_for_session st)
             (mgr_domains m) (mgr_pin m)
      else None)"

definition decide_allowed :: "'g manager \<Rightarrow> actor \<Rightarrow> AccessKind \<Rightarrow> gates \<Rightarrow> surroundings \<Rightarrow> verdict" where
  "decide_allowed m st access g env =
     (if yolo_mode st \<and> \<not> g_shell_forced g then Decided AllowAccess True Yolo
      else case session_grant m st access g of
             Some (d, why) \<Rightarrow> Decided d True why
           | None \<Rightarrow>
               (case auto_mode_step m st access g env of
                  AutoAnswered why \<Rightarrow> Decided AllowAccess True why
                | AutoGone \<Rightarrow> Gone
                | AutoPasses why \<Rightarrow> after_auto m st access g env why))"

definition decide :: "'g manager \<Rightarrow> actor \<Rightarrow> request \<Rightarrow> surroundings \<Rightarrow> verdict" where
  "decide m st req env =
     (if gone_at_dequeue env then Gone
      else
        (let g = request_gates m st req
         in case g_policy g of
              Some (Reject why) \<Rightarrow> Decided (PolicyDeny why) False PolicyDenied
            | _ \<Rightarrow> decide_allowed m st (req_access req) g env))"

section \<open>The user's answer\<close>

definition store_state :: "'g manager \<Rightarrow> PermissionState \<Rightarrow> actor \<Rightarrow> actor" where
  "store_state m ps st =
     st\<lparr>perm_state := ps, state_files := persist_state (mgr_io m) (mgr_client_id m) ps (state_files st)\<rparr>"

definition prompt_failed :: "string \<Rightarrow> PolicyDecision" where
  "prompt_failed e = Reject (''Failed to request permission from user: '' @ e)"

definition bash_answer :: "'g manager \<Rightarrow> string \<Rightarrow> PromptOutcome \<Rightarrow> actor \<Rightarrow> PolicyDecision \<times> string \<times> actor" where
  "bash_answer m cmd outcome st =
     (let ps = perm_state st
      in case outcome of
           AllowOnce \<Rightarrow> (AllowAccess, ''allow_once'', st)
         | AllowAlways \<Rightarrow>
             (AllowAccess, ''allow_always'',
              store_state m (ps\<lparr>allowed_bash_commands := List.insert cmd (allowed_bash_commands ps)\<rparr>) st)
         | AllowAlwaysBashCommand p \<Rightarrow>
             (AllowAccess, ''allow_always_bash'',
              store_state m (ps\<lparr>allowed_bash_commands := List.insert p (allowed_bash_commands ps)\<rparr>) st)
         | AllowAlwaysDomain _ \<Rightarrow> (AllowAccess, ''allow_once'', st)
         | AllowAlwaysMcpTool _ \<Rightarrow> (AllowAccess, ''allow_once'', st)
         | AllowAlwaysMcpServer _ \<Rightarrow> (AllowAccess, ''allow_once'', st)
         | AllowEditsForSession \<Rightarrow> (AllowAccess, ''allow_once'', st)
         | RejectOnce \<Rightarrow> (Reject ''User rejected the execution'', ''reject_once'', st)
         | RejectAlwaysBashCommand p \<Rightarrow>
             (Reject (''User rejected the execution and excluded '' @ p @ '' from this session''), ''reject_always_bash'',
              store_state m (ps\<lparr>disallowed_bash_commands := List.insert p (disallowed_bash_commands ps)\<rparr>) st)
         | PromptCancelled \<Rightarrow> (Cancelled, ''cancelled'', st)
         | PromptFollowup msg \<Rightarrow> (FollowupMessage msg, ''followup'', st)
         | PromptError e \<Rightarrow> (prompt_failed e, ''error'', st))"

definition grant_mcp_tool :: "'g manager \<Rightarrow> AccessKind \<Rightarrow> actor \<Rightarrow> actor" where
  "grant_mcp_tool m access st =
     (case access of
        MCPToolAccess name _ \<Rightarrow>
          store_state m ((perm_state st)\<lparr>allowed_mcp_tools := List.insert name (allowed_mcp_tools (perm_state st))\<rparr>) st
      | _ \<Rightarrow> st)"

definition grant_mcp_server :: "'g manager \<Rightarrow> AccessKind \<Rightarrow> string \<Rightarrow> actor \<Rightarrow> actor" where
  "grant_mcp_server m access server_prefix st =
     (case access of
        MCPToolAccess name _ \<Rightarrow>
          (case parse_mcp_qualified_name name of
             Some (canonical, _) \<Rightarrow>
               (if canonical = server_prefix
                then store_state m ((perm_state st)\<lparr>allowed_mcp_servers := List.insert canonical (allowed_mcp_servers (perm_state st))\<rparr>) st
                else grant_mcp_tool m access st)
           | None \<Rightarrow> grant_mcp_tool m access st)
      | _ \<Rightarrow> st)"

definition other_answer :: "'g manager \<Rightarrow> AccessKind \<Rightarrow> PromptOutcome \<Rightarrow> actor \<Rightarrow> PolicyDecision \<times> string \<times> actor" where
  "other_answer m access outcome st =
     (let ps = perm_state st
      in case outcome of
           AllowOnce \<Rightarrow> (AllowAccess, ''allow_once'', st)
         | AllowEditsForSession \<Rightarrow> (AllowAccess, ''allow_edits_for_session'', st\<lparr>allow_edits_for_session := True\<rparr>)
         | AllowAlways \<Rightarrow>
             (AllowAccess, ''allow_always'',
              (case access of MCPToolAccess _ _ \<Rightarrow> grant_mcp_tool m access st | _ \<Rightarrow> store_state m ps st))
         | AllowAlwaysBashCommand _ \<Rightarrow> (AllowAccess, ''allow_always_bash'', st)
         | AllowAlwaysDomain domain \<Rightarrow>
             (AllowAccess, ''allow_always_domain'',
              (case access of
                 WebFetchAccess _ \<Rightarrow>
                   store_state m (ps\<lparr>allowed_web_fetch_domains := List.insert domain (allowed_web_fetch_domains ps)\<rparr>) st
               | _ \<Rightarrow> st))
         | AllowAlwaysMcpTool _ \<Rightarrow> (AllowAccess, ''allow_always_mcp_tool'', grant_mcp_tool m access st)
         | AllowAlwaysMcpServer server_prefix \<Rightarrow>
             (AllowAccess, ''allow_always_mcp_server'', grant_mcp_server m access server_prefix st)
         | RejectAlwaysBashCommand _ \<Rightarrow> (Reject ''User rejected the execution'', ''reject_always_bash'', st)
         | RejectOnce \<Rightarrow> (Reject ''User rejected the execution'', ''reject_once'', st)
         | PromptCancelled \<Rightarrow> (Cancelled, ''cancelled'', st)
         | PromptError e \<Rightarrow> (prompt_failed e, ''error'', st)
         | PromptFollowup msg \<Rightarrow> (FollowupMessage msg, ''followup'', st))"

definition record_decision :: "'g manager \<Rightarrow> AccessKind \<Rightarrow> PolicyDecision \<Rightarrow> string \<Rightarrow> actor \<Rightarrow> actor" where
  "record_decision m access decision outcome_str st =
     (case prompted_decision_approved decision outcome_str of
        None \<Rightarrow> st
      | Some approved \<Rightarrow>
          (let ds = recorded_decisions st @
                 [PermissionDecisionTurn (tool_name_for_access access)
                    (permission_decision_args (mgr_to_json m) access (access_detail (mgr_to_json m) access)) approved]
           in st\<lparr>recorded_decisions := drop (length ds - MAX_RECORDED_PERMISSION_DECISIONS) ds\<rparr>))"

text \<open>The event of a decision, without the identifiers and times it is uploaded with.\<close>

record PermissionEvent =
  ev_tool_name :: string
  ev_access_detail :: "string option"
  ev_yolo_mode :: bool
  ev_decision :: PolicyDecision
  ev_auto_approved :: bool
  ev_user_prompted :: bool
  ev_prompt_outcome :: "string option"
  ev_permission_mode :: string
  ev_decision_reason :: reason

definition permission_mode_artifact_str :: "actor \<Rightarrow> string" where
  "permission_mode_artifact_str st =
     (if yolo_mode st then ''always-approve'' else if auto_mode st then ''auto'' else ''ask'')"

definition emit_event :: "'g manager \<Rightarrow> actor \<Rightarrow> AccessKind \<Rightarrow> PolicyDecision \<Rightarrow> bool \<Rightarrow> bool \<Rightarrow> string option \<Rightarrow> reason
    \<Rightarrow> PermissionEvent" where
  "emit_event m st access decision auto_approved user_prompted prompt_outcome why =
     \<lparr>ev_tool_name = tool_name_for_access access, ev_access_detail = access_detail (mgr_to_json m) access,
      ev_yolo_mode = yolo_mode st, ev_decision = decision, ev_auto_approved = auto_approved,
      ev_user_prompted = user_prompted, ev_prompt_outcome = prompt_outcome,
      ev_permission_mode = permission_mode_artifact_str st, ev_decision_reason = why\<rparr>"

text \<open>The whole request: the new state, what the requester is sent, and the event.\<close>

definition handle_request :: "'g manager \<Rightarrow> request \<Rightarrow> surroundings \<Rightarrow> actor
    \<Rightarrow> actor \<times> PolicyDecision option \<times> PermissionEvent" where
  "handle_request m req env st =
     (let access = req_access req
      in case decide m st req env of
           Gone \<Rightarrow> (st, None, emit_event m st access Cancelled False False None RequesterGone)
         | Decided d auto_approved why \<Rightarrow> (st, Some d, emit_event m st access d auto_approved False None why)
         | AskThe prompt_trigger \<Rightarrow>
             (case (case access of
                      BashAccess cmd \<Rightarrow> bash_answer m cmd (user_answer env) st
                    | _ \<Rightarrow> other_answer m access (user_answer env) st) of
                (d, outcome_str, st') \<Rightarrow>
                  (let trigger = (if d = Cancelled \<and> gone_at_end env then RequesterGone else prompt_trigger)
                   in (record_decision m access d outcome_str st',
                       Some d,
                       emit_event m st access d False True (Some outcome_str) trigger))))"

section \<open>Commands\<close>

datatype command =
    Request request
  | SetYoloMode bool
  | SetAutoMode bool
  | SetClassifier "classifier option"
  | SetClassifierTranscript "ClassifierTurn list"
  | SetProjectInstructions "string option"
  | ResetState
  | Shutdown

definition set_yolo :: "'g manager \<Rightarrow> bool \<Rightarrow> actor \<Rightarrow> actor" where
  "set_yolo m enabled st =
     (let clamped = clamp_yolo enabled (mgr_pin m)
      in st\<lparr>pin_refusal_logged := pin_refusal_logged st \<or> enabled \<and> \<not> clamped,
            yolo_mode := clamped,
            auto_mode := auto_mode st \<and> \<not> clamped\<rparr>)"

definition set_auto :: "'g manager \<Rightarrow> bool \<Rightarrow> actor \<Rightarrow> actor" where
  "set_auto m enabled st =
     (if enabled
      then st\<lparr>auto_mode := True, yolo_mode := False,
              auto_classifier := (case auto_classifier st of
                                    None \<Rightarrow> Some (default_auto_mode_classifier m)
                                  | Some c \<Rightarrow> Some c)\<rparr>
      else st\<lparr>auto_mode := False\<rparr>)"

text \<open>One turn of the actor's loop; \<open>Shutdown\<close> ends it.\<close>

definition handle_command :: "'g manager \<Rightarrow> surroundings \<Rightarrow> command \<Rightarrow> actor \<Rightarrow> actor" where
  "handle_command m env cmd st =
     (case cmd of
        Request req \<Rightarrow> fst (handle_request m req env st)
      | SetYoloMode enabled \<Rightarrow> set_yolo m enabled st
      | SetAutoMode enabled \<Rightarrow> set_auto m enabled st
      | SetClassifier c \<Rightarrow> st\<lparr>auto_classifier := c\<rparr>
      | SetClassifierTranscript ts \<Rightarrow> st\<lparr>classifier_turns := ts\<rparr>
      | SetProjectInstructions i \<Rightarrow> st\<lparr>instructions := i\<rparr>
      | ResetState \<Rightarrow> (store_state m default_state st)\<lparr>allow_edits_for_session := False\<rparr>
      | Shutdown \<Rightarrow> st)"

definition migrate_edit_policy :: "'g manager \<Rightarrow> PermissionState \<Rightarrow> state_dir \<Rightarrow> PermissionState \<times> state_dir" where
  "migrate_edit_policy m ps files =
     (if edit_policy ps = EditAllow
      then (ps\<lparr>edit_policy := EditAsk\<rparr>, persist_state (mgr_io m) (mgr_client_id m) (ps\<lparr>edit_policy := EditAsk\<rparr>) files)
      else (ps, files))"

definition start_actor :: "'g manager \<Rightarrow> bool \<Rightarrow> state_dir \<Rightarrow> actor" where
  "start_actor m initial_yolo files =
     (let yolo = clamp_yolo initial_yolo (mgr_pin m);
          (loaded, files) = load_state_from_dir (mgr_io m) (mgr_client_id m) files;
          (ps, files) = migrate_edit_policy m loaded files
      in \<lparr>perm_state = ps, yolo_mode = yolo,
          auto_mode = (\<not> yolo \<and> (case mgr_config m of Some c \<Rightarrow> prompt_policy c = PromptAuto | None \<Rightarrow> False)),
          auto_classifier = Some (default_auto_mode_classifier m), classifier_turns = [], recorded_decisions = [],
          instructions = None, pin_refusal_logged = False, allow_edits_for_session = False, state_files = files\<rparr>)"

section \<open>Tool inputs\<close>

text \<open>What a tool is called with, as far as the permission system looks at it (\<^verbatim>\<open>types.rs\<close>).\<close>

datatype ToolInput =
    ReadFileInput string
  | ListDirInput string
  | GrepInput "string option" "string option"
  | TodoWriteInput
  | TaskOutputInput
  | WaitTasksInput
  | KillTaskInput
  | SkillInput
  | WebSearchInput string
  | SearchReplaceInput string
  | ApplyPatchInput string
  | HashlineEditInput string
  | WriteInput string
  | BashInput string
  | MonitorInput string
  | MCPToolInput string json
  | UseToolInput string json
  | WebFetchInput string
  | DynamicInput

fun access_from_input :: "ToolInput \<Rightarrow> AccessKind" where
  "access_from_input (ReadFileInput path) = ReadAccess (Some path)"
| "access_from_input (ListDirInput target) = ReadAccess (Some target)"
| "access_from_input (GrepInput path glob) = GrepAccess path glob"
| "access_from_input TodoWriteInput = ReadAccess None"
| "access_from_input TaskOutputInput = ReadAccess None"
| "access_from_input WaitTasksInput = ReadAccess None"
| "access_from_input KillTaskInput = ReadAccess None"
| "access_from_input SkillInput = ReadAccess None"
| "access_from_input (WebSearchInput query) = WebSearchAccess query"
| "access_from_input (SearchReplaceInput file_path) = EditAccess file_path"
| "access_from_input (ApplyPatchInput patch) = EditAccess ''apply_patch''"
| "access_from_input (HashlineEditInput file_path) = EditAccess file_path"
| "access_from_input (WriteInput file_path) = EditAccess file_path"
| "access_from_input (BashInput cmd) = BashAccess cmd"
| "access_from_input (MonitorInput cmd) = BashAccess cmd"
| "access_from_input (MCPToolInput name input) = MCPToolAccess name input"
| "access_from_input (UseToolInput name input) = MCPToolAccess name input"
| "access_from_input (WebFetchInput url) = WebFetchAccess url"
| "access_from_input DynamicInput = ReadAccess None"

section \<open>The gates\<close>

lemma direct_outcome: "rule_outcome (direct_decision m access)"
  by (simp add: direct_decision_def compiled_policy_def direct_gate.gate_outcome split: option.splits)

lemma command_escalation: "escalation (shell_command_decision m access)"
  by (simp add: shell_command_decision_def compiled_policy_def command_gate.gate_escalation split: option.splits AccessKind.splits)

lemma file_escalation: "escalation (shell_file_decision m access)"
  by (simp add: shell_file_decision_def compiled_policy_def file_gate.gate_escalation split: option.splits AccessKind.splits)

interpretation shell_command_gate: escalating_gate "shell_command_decision m" for m
  by unfold_locales (rule command_escalation)

interpretation shell_file_gate: escalating_gate "shell_file_decision m" for m
  by unfold_locales (rule file_escalation)

lemmas gate_rules = direct_outcome shell_command_gate.combined_outcome shell_command_gate.combined_refusal
  shell_file_gate.combined_outcome shell_file_gate.combined_refusal

lemma gates_simps [simp]:
  "g_protected_edit (request_gates m st req) = protected_edit m req"
  "g_file_forced (request_gates m st req) \<longleftrightarrow> shell_file_decision m (req_access req) = Some AskUser"
  "g_shell_forced (request_gates m st req) \<longleftrightarrow>
     shell_file_decision m (req_access req) = Some AskUser \<or> shell_command_decision m (req_access req) = Some AskUser"
  "g_bash (request_gates m st req) =
     (case req_access req of BashAccess cmd \<Rightarrow> Some (evaluate_bash (shell_parser m) cmd (perm_state st) True) | _ \<Rightarrow> None)"
  by (simp_all add: request_gates_def Let_def)

lemma gates_policy:
  "g_policy (request_gates m st req) =
     combine_decisions (combine_decisions (direct_decision m (req_access req)) (shell_command_decision m (req_access req)))
       (shell_file_decision m (req_access req))"
  by (simp add: request_gates_def Let_def)

text \<open>Some rule refuses the access, a command of its script, or a file the script touches.\<close>

definition rule_refuses :: "'g manager \<Rightarrow> AccessKind \<Rightarrow> bool" where
  "rule_refuses m access \<longleftrightarrow>
     (\<exists>r. direct_decision m access = Some (Reject r)) \<or> (\<exists>r. shell_command_decision m access = Some (Reject r))
     \<or> (\<exists>r. shell_file_decision m access = Some (Reject r))"

lemma gates_refusal: "(\<exists>r. g_policy (request_gates m st req) = Some (Reject r)) \<longleftrightarrow> rule_refuses m (req_access req)"
  by (auto simp: gates_policy gate_rules rule_refuses_def)

lemma gates_outcome: "rule_outcome (g_policy (request_gates m st req))"
  by (simp add: gates_policy gate_rules)

lemma gates_forced:
  assumes "\<not> rule_refuses m (req_access req)" "g_shell_forced (request_gates m st req)"
  shows "policy_forced (request_gates m st req)"
proof -
  have "\<nexists>r. g_policy (request_gates m st req) = Some (Reject r)" using assms(1) gates_refusal by blast
  moreover from this have "\<nexists>r. combine_decisions (direct_decision m (req_access req)) (shell_command_decision m (req_access req)) = Some (Reject r)"
    by (simp add: gates_policy gate_rules)
  ultimately show ?thesis
    using assms(2) shell_command_gate.combined_ask [OF direct_outcome, of m "req_access req" m "req_access req"]
      shell_file_gate.combined_ask [OF shell_command_gate.combined_outcome [OF direct_outcome], of m "req_access req" m "req_access req" m "req_access req"]
    by (auto simp: gates_policy)
qed

lemma decide_refused: "rule_refuses m (req_access req) \<Longrightarrow> \<not> gone_at_dequeue env \<Longrightarrow>
  \<exists>why. decide m st req env = Decided (PolicyDeny why) False PolicyDenied"
  using gates_refusal [of m st req] by (auto simp: decide_def Let_def)

lemma decide_not_refused:
  assumes "\<not> rule_refuses m (req_access req)" "\<not> gone_at_dequeue env"
  shows "decide m st req env = decide_allowed m st (req_access req) (request_gates m st req) env"
  using assms gates_refusal [of m st req] gates_outcome [of m st req]
  by (auto simp: decide_def Let_def rule_outcome_def escalation_def split: option.splits PolicyDecision.splits)

lemma decide_Decided:
  assumes "decide m st req env = Decided AllowAccess auto why"
  shows "\<not> rule_refuses m (req_access req)
    \<and> decide_allowed m st (req_access req) (request_gates m st req) env = Decided AllowAccess auto why"
proof -
  have here: "\<not> gone_at_dequeue env" using assms by (auto simp: decide_def)
  have "\<not> rule_refuses m (req_access req)" using assms decide_refused [OF _ here, of m req st] by auto
  with assms decide_not_refused [OF this here, of st] show ?thesis by simp
qed

section \<open>Why a request is allowed without asking\<close>

lemma pre_decision_allow: "pre_decision m st access g forced = Some (AllowAccess, why) \<Longrightarrow>
  access_pre_decision m st access g forced = Some (AllowAccess, why) \<and> \<not> (forced \<and> auto_prompt_blocks_allow access)"
  by (auto simp: pre_decision_def split: option.splits prod.splits PolicyDecision.splits if_splits)

lemma policy_answer_allow: "rule_outcome (g_policy g) \<Longrightarrow> policy_answer g = Some d \<Longrightarrow>
  (\<exists>r. g_policy g = Some (Reject r)) \<or> g_policy g = Some AllowAccess \<and> d = AllowAccess
    \<and> \<not> g_protected_edit g \<and> \<not> bash_request_floor_requires_prompt (g_bash g)"
  by (auto simp: policy_answer_def rule_outcome_def escalation_def split: if_splits)

text \<open>
  The ways through \<open>decide_allowed\<close> that end in permission: always-approve mode, a grant, auto mode, the
  sandbox, an allow rule, and what the kind of access is pre-decided to.
\<close>

lemma decide_allowed_cases:
  assumes "decide_allowed m st access g env = Decided AllowAccess auto why" "rule_outcome (g_policy g)"
    and "\<nexists>r. g_policy g = Some (Reject r)"
  obtains (yolo) "yolo_mode st" "\<not> g_shell_forced g" "why = Yolo"
  | (grant) "session_grant m st access g = Some (AllowAccess, why)"
  | (auto) "auto_mode_step m st access g env = AutoAnswered why"
  | (sandbox) cmd where "access = BashAccess cmd" "sandbox_may_auto_allow_bash (g_bash g) (sandbox_active env)"
      "\<not> policy_forced g" "why = SandboxAuto"
  | (rule) "g_policy g = Some AllowAccess" "\<not> g_protected_edit g" "\<not> bash_request_floor_requires_prompt (g_bash g)"
      "why = PolicyAllowed"
  | (pre) forced where "access_pre_decision m st access g (forced \<noteq> None) = Some (AllowAccess, why)"
      "auto_mode_step m st access g env = AutoPasses forced" "\<not> (forced \<noteq> None \<and> auto_prompt_blocks_allow access)"
proof (cases "yolo_mode st \<and> \<not> g_shell_forced g")
  case True
  with assms(1) yolo show ?thesis by (simp add: decide_allowed_def)
next
  case not_yolo: False
  show ?thesis
  proof (cases "session_grant m st access g")
    case (Some dw)
    with assms(1) not_yolo grant show ?thesis by (cases dw) (simp add: decide_allowed_def)
  next
    case no_grant: None
    show ?thesis
    proof (cases "auto_mode_step m st access g env")
      case (AutoAnswered w)
      with assms(1) not_yolo no_grant auto show ?thesis by (simp add: decide_allowed_def)
    next
      case AutoGone
      with assms(1) not_yolo no_grant show ?thesis by (simp add: decide_allowed_def)
    next
      case (AutoPasses forced)
      then have after: "after_auto m st access g env forced = Decided AllowAccess auto why"
        using assms(1) not_yolo no_grant by (simp add: decide_allowed_def)
      consider "why = SandboxAuto" "\<exists>cmd. access = BashAccess cmd" "sandbox_may_auto_allow_bash (g_bash g) (sandbox_active env)" "\<not> policy_forced g"
        | "policy_answer g = Some AllowAccess" "why = PolicyAllowed"
        | "pre_decision m st access g (forced \<noteq> None) = Some (AllowAccess, why)"
        using after
        by (auto simp: after_auto_def Let_def split: if_splits option.splits prod.splits AccessKind.splits)
      then show ?thesis
      proof cases
        case 1
        with sandbox show ?thesis by blast
      next
        case 2
        with policy_answer_allow [OF assms(2) 2(1)] assms(3) rule show ?thesis by blast
      next
        case 3
        with pre_decision_allow [OF 3] pre AutoPasses show ?thesis by blast
      qed
    qed
  qed
qed

section \<open>Running unasked\<close>

text \<open>The requester is told to go ahead and the user was not asked.\<close>

definition runs_unasked :: "'g manager \<Rightarrow> request \<Rightarrow> surroundings \<Rightarrow> actor \<Rightarrow> bool" where
  "runs_unasked m req env st =
     (case handle_request m req env st of (_, response, ev) \<Rightarrow> response = Some AllowAccess \<and> \<not> ev_user_prompted ev)"

lemma handle_decided:
  "decide m st req env = Decided d auto why \<Longrightarrow>
     handle_request m req env st = (st, Some d, emit_event m st (req_access req) d auto False None why)"
  by (simp add: handle_request_def)

lemma runs_unasked_iff: "runs_unasked m req env st \<longleftrightarrow> (\<exists>auto why. decide m st req env = Decided AllowAccess auto why)"
  by (cases "decide m st req env")
    (auto simp: runs_unasked_def handle_request_def emit_event_def Let_def split: prod.splits)

lemma runs_unasked_cases:
  assumes "runs_unasked m req env st"
  obtains why auto where "\<not> rule_refuses m (req_access req)"
    "decide_allowed m st (req_access req) (request_gates m st req) env = Decided AllowAccess auto why"
    "\<nexists>r. g_policy (request_gates m st req) = Some (Reject r)"
proof -
  obtain auto why where "decide m st req env = Decided AllowAccess auto why" using assms runs_unasked_iff by blast
  from decide_Decided [OF this] that show ?thesis using gates_refusal by blast
qed

lemma stopped_by_rule:
  assumes "rule_refuses m (req_access req)" "\<not> gone_at_dequeue env"
  shows "\<exists>why. handle_request m req env st =
    (st, Some (PolicyDeny why), emit_event m st (req_access req) (PolicyDeny why) False False None PolicyDenied)"
  using decide_refused [OF assms, of st] by (auto dest: handle_decided)

text \<open>
  C1. A denied command is stopped in every mode. When a deny rule refuses a command that a script
  runs, as any command of the script, behind up to eight wrappers and in shells run with
  \<^verbatim>\<open>-c\<close> within each other up to seven deep, the requester is told that the policy denies it and
  nothing is remembered, whether always-approve or auto mode is on, whatever was granted before
  and whatever the sandbox and the user would say.
\<close>

theorem denied_command_stopped:
  assumes "mgr_config m = Some cfg" "req_access req = BashAccess script" "\<not> gone_at_dequeue env"
    and "nested_script (web_perm (mgr_web m)) k script inner" "k < 8" "runs_here (web_perm (mgr_web m)) inner c"
    and "evaluate_access (web_perm (mgr_web m)) (policy_new (web_perm (mgr_web m)) cfg) (BashAccess (join_with '' '' c)) = Some (Reject r)"
  shows "\<exists>why. handle_request m req env st =
    (st, Some (PolicyDeny why), emit_event m st (req_access req) (PolicyDeny why) False False None PolicyDenied)"
proof -
  have "rule_refuses m (req_access req)"
    using denied_command_found [OF assms(4-7)] assms(1,2)
    by (simp add: rule_refuses_def shell_command_decision_def compiled_policy_def)
  then show ?thesis using assms(3) by (rule stopped_by_rule)
qed


section \<open>Confirmation that cannot be skipped\<close>

lemma session_grant_bash:
  assumes "session_grant m st (BashAccess cmd) (request_gates m st req) = Some (AllowAccess, why)" "req_access req = BashAccess cmd"
  shows "bash_grant_pre_decision cmd (evaluate_bash (shell_parser m) cmd (perm_state st) True) (perm_state st) (mgr_pin m) PRE_CLASSIFIER
      = Some (AllowAccess, why)"
    "\<not> policy_forced (request_gates m st req)" "\<not> g_shell_forced (request_gates m st req)"
  using assms by (auto simp: session_grant_def session_grant_pre_decision_def split: if_splits)

lemma auto_answered:
  assumes "auto_mode_step m st access g env = AutoAnswered why"
  shows "auto_mode st" "\<not> policy_forced g" "\<not> g_shell_forced g" "\<not> bash_request_floor_requires_prompt (g_bash g)"
    "\<not> g_protected_edit g"
  using assms by (auto simp: auto_mode_step_def auto_mode_fast_path_def Let_def split: if_splits)

text \<open>
  C3. An ask of the gates for shell scripts is binding, also in always-approve mode: when the rules
  ask about a command of a script or about a file it touches, or cannot tell, the script runs without
  asking only if remembering approvals is on, the question is about commands and not files, and
  every command of the script was granted by the user before.
\<close>

theorem shell_ask_binding:
  assumes "req_access req = BashAccess cmd"
    and "shell_command_decision m (BashAccess cmd) = Some AskUser \<or> shell_file_decision m (BashAccess cmd) = Some AskUser"
    and "runs_unasked m req env st"
  shows "mgr_remember m \<and> shell_file_decision m (BashAccess cmd) \<noteq> Some AskUser
    \<and> script_granted (shell_parser m) cmd (perm_state st) \<and> script_passes (shell_parser m) cmd (perm_state st)"
proof -
  let ?g = "request_gates m st req"
  obtain why auto where nr: "\<not> rule_refuses m (req_access req)"
    and d: "decide_allowed m st (req_access req) ?g env = Decided AllowAccess auto why"
    and no: "\<nexists>r. g_policy ?g = Some (Reject r)"
    using assms(3) by (rule runs_unasked_cases)
  have forced: "g_shell_forced ?g" using assms(1,2) by auto
  then have ask: "policy_forced ?g" using gates_forced [OF nr] by blast
  from d gates_outcome no show ?thesis
  proof (cases rule: decide_allowed_cases)
    case grant
    then show ?thesis using ask by (simp add: session_grant_def)
  next
    case auto
    then show ?thesis using auto_answered(3) forced by blast
  next
    case (pre f)
    then have "mgr_remember m" "\<not> g_file_forced ?g"
      and "bash_grant_pre_decision cmd (evaluate_bash (shell_parser m) cmd (perm_state st) True) (perm_state st) (mgr_pin m)
        ASK_FLOOR_REMEMBER = Some (AllowAccess, why)"
      using assms(1) ask by (auto simp: access_pre_decision_def bash_pre_decision_def split: if_splits)
    then show ?thesis using grant_allows assms(1) by (fastforce simp: ASK_FLOOR_REMEMBER_def)
  qed (use forced ask in auto)
qed

text \<open>
  C4. Outside always-approve mode, an edit of a protected file and a script that writes a real file or
  sets a variable that can change what runs are always confirmed by the user, unless this very
  script was granted: no earlier grant, no allow rule, no verdict of auto mode and no sandbox lets
  them run unasked.
\<close>

theorem floors_confirmed:
  assumes "\<not> yolo_mode st" "runs_unasked m req env st"
  shows "\<not> protected_edit m req
    \<and> (\<forall>cmd. req_access req = BashAccess cmd \<longrightarrow>
         \<not> (script_writes_file (shell_parser m) cmd \<or> script_sets_env (shell_parser m) cmd)
         \<or> cmd \<in> set (allowed_bash_commands (perm_state st)))"
proof -
  let ?g = "request_gates m st req"
  obtain why auto where d: "decide_allowed m st (req_access req) ?g env = Decided AllowAccess auto why"
    and no: "\<nexists>r. g_policy ?g = Some (Reject r)"
    using assms(2) by (rule runs_unasked_cases)
  have not_edit: "\<not> protected_edit m req" if "\<nexists>p. req_access req = EditAccess p"
    using that by (auto simp: protected_edit_def split: AccessKind.splits)
  have "\<not> protected_edit m req \<and> (\<forall>cmd. req_access req = BashAccess cmd \<longrightarrow> \<not> floored (shell_parser m) cmd (perm_state st))"
    using d gates_outcome no
  proof (cases rule: decide_allowed_cases)
    case grant
    then have "\<not> protected_edit m req" by (simp add: session_grant_def split: if_splits)
    with grant show ?thesis using session_grant_bash(1) [of m st _ req why] grant_allows by fastforce
  next
    case auto
    then show ?thesis using auto_answered(4,5) by fastforce
  next
    case (sandbox cmd)
    then show ?thesis using not_edit by (simp add: sandbox_may_auto_allow_bash_def)
  next
    case (pre forced)
    show ?thesis
    proof (cases "req_access req")
      case (EditAccess p)
      with pre(1) show ?thesis by (auto simp: access_pre_decision_def edit_pre_decision_def split: if_splits EditPolicy.splits)
    next
      case (BashAccess cmd)
      with pre(1) show ?thesis using not_edit by (auto simp: access_pre_decision_def bash_pre_decision_def split: if_splits)
    qed (use not_edit in auto)
  qed (use assms(1) in auto)
  then show ?thesis by (auto simp: floored_def)
qed


section \<open>Examples\<close>

definition demo_manager :: "PermissionConfig \<Rightarrow> string manager" where
  "demo_manager cfg =
     \<lparr>mgr_web = \<lparr>web_perm = demo_perm_lib, url_path = (\<lambda>u. [])\<rparr>, mgr_fs = demo_fs, mgr_tilde = (\<lambda>s. s),
      mgr_to_json = (\<lambda>j. []), mgr_clf = demo_clf_lib, mgr_io = demo_io, mgr_cwd = ''/w'', mgr_client_id = None,
      mgr_config = Some cfg, mgr_domains = Map.empty, mgr_remember = True, mgr_pin = None\<rparr>"

definition demo_actor :: "string list \<Rightarrow> bool \<Rightarrow> bool \<Rightarrow> actor" where
  "demo_actor granted yolo auto =
     \<lparr>perm_state = default_state\<lparr>allowed_bash_commands := granted\<rparr>, yolo_mode = yolo, auto_mode = auto, auto_classifier = None,
      classifier_turns = [], recorded_decisions = [], instructions = None, pin_refusal_logged = False,
      allow_edits_for_session = False, state_files = Map.empty\<rparr>"

definition demo_request :: "AccessKind \<Rightarrow> request" where
  "demo_request access = \<lparr>req_access = access, req_edit_context = None\<rparr>"

definition demo_env :: "PromptOutcome \<Rightarrow> surroundings" where
  "demo_env answer =
     \<lparr>gone_at_dequeue = False, gone_in_classify = False, gone_before_prompt = False, gone_at_end = False,
      sandbox_active = False, user_answer = answer\<rparr>"

definition cargo_asked :: PermissionConfig where
  "cargo_asked = permission_config_new
     [\<lparr>rule_action = AskRule, rule_tool = BashTool, rule_pattern = Some ''cargo'', rule_pattern_mode = GlobMode\<rparr>]"

lemma demo_simps [simp]:
  "mgr_config (demo_manager cfg) = Some cfg" "web_perm (mgr_web (demo_manager cfg)) = demo_perm_lib"
  "mgr_fs (demo_manager cfg) = demo_fs" "mgr_cwd (demo_manager cfg) = ''/w''"
  "shell_parser (demo_manager cfg) = (\<lambda>s. Some (demo_tree s))"
  "req_access (demo_request access) = access" "gone_at_dequeue (demo_env a) = False" "user_answer (demo_env a) = a"
  "sandbox_active (demo_env a) = False" "yolo_mode (demo_actor g y b) = y" "auto_mode (demo_actor g y b) = b"
  by (simp_all add: demo_manager_def demo_request_def demo_env_def demo_actor_def shell_parser_def demo_perm_lib_def)

theorem denied_command_stopped_witness:
  "\<exists>why. fst (snd (handle_request (demo_manager rm_denied) (demo_request (BashAccess ''nice rm -rf /'')) (demo_env AllowOnce)
     (demo_actor [''nice rm -rf /''] True False))) = Some (PolicyDeny why)"
proof -
  have "evaluate_access demo_perm_lib (policy_new demo_perm_lib rm_denied) (BashAccess (join_with '' '' [''rm'', ''-rf'', ''/'']))
      = Some (Reject (deny_reason (hd (rules rm_denied))))"
    by code_simp
  then show ?thesis
    using denied_command_stopped [where m = "demo_manager rm_denied" and req = "demo_request (BashAccess ''nice rm -rf /'')"
        and env = "demo_env AllowOnce" and st = "demo_actor [''nice rm -rf /''] True False" and cfg = rm_denied
        and k = 0 and inner = "''nice rm -rf /''"] runs_here_demo nested_script.itself
    by fastforce
qed


theorem shell_ask_binding_witness:
  "shell_command_decision (demo_manager cargo_asked) (BashAccess ''cargo test'') = Some AskUser
   \<and> runs_unasked (demo_manager cargo_asked) (demo_request (BashAccess ''cargo test'')) (demo_env AllowOnce) (demo_actor [''cargo''] True False)
   \<and> script_granted (shell_parser (demo_manager cargo_asked)) ''cargo test'' (perm_state (demo_actor [''cargo''] True False))"
proof -
  have "shell_command_decision (demo_manager cargo_asked) (BashAccess ''cargo test'') = Some AskUser" by code_simp
  moreover have "runs_unasked (demo_manager cargo_asked) (demo_request (BashAccess ''cargo test'')) (demo_env AllowOnce)
      (demo_actor [''cargo''] True False)"
    by code_simp
  ultimately show ?thesis 
    using shell_ask_binding [of "demo_request (BashAccess ''cargo test'')" "''cargo test''" "demo_manager cargo_asked"
        "demo_env AllowOnce" "demo_actor [''cargo''] True False"] by simp
qed

lemma demo_ls: "runs_unasked (demo_manager cargo_asked) (demo_request (BashAccess ''ls'')) (demo_env AllowOnce) (demo_actor [] False False)"
  by code_simp

theorem floors_confirmed_witness:
  "runs_unasked (demo_manager cargo_asked) (demo_request (BashAccess ''ls'')) (demo_env AllowOnce) (demo_actor [] False False)
   \<and> \<not> script_writes_file (shell_parser (demo_manager cargo_asked)) ''ls''"
  using floors_confirmed [OF _ demo_ls] demo_ls by (simp add: demo_actor_def default_state_def)


end
