(* ===== verification/Perm_System.thy ===== *)
theory Perm_System
  imports Perm_Manager
begin

text \<open>
  The permission manager over time (\<^verbatim>\<open>xai-grok-workspace/src/permission/manager.rs\<close>): what requests leave
  behind in the manager, and the handles, the command queue and the actor running together.
\<close>

section \<open>Handles and queue\<close>

text \<open>
  The atomic flags that handles read and write, the commands that are under way, and the actor. A
  handle stores its flags and then sends; these steps of one call are taken together.
\<close>

record 'g permission_system =
  sys_manager :: "'g manager"
  yolo_flag :: bool
  auto_flag :: bool
  side_query_wired :: bool
  queue :: "command list"
  sys_actor :: actor

definition spawn_permission_manager :: "'g manager \<Rightarrow> bool \<Rightarrow> state_dir \<Rightarrow> 'g permission_system" where
  "spawn_permission_manager m initial_yolo files =
     (let st = start_actor m initial_yolo files
      in \<lparr>sys_manager = m, yolo_flag = yolo_mode st, auto_flag = auto_mode st, side_query_wired = False, queue = [],
          sys_actor = st\<rparr>)"

definition send_command :: "command \<Rightarrow> 'g permission_system \<Rightarrow> 'g permission_system" where
  "send_command c s = s\<lparr>queue := queue s @ [c]\<rparr>"

definition store_yolo_flags :: "bool \<Rightarrow> 'g permission_system \<Rightarrow> 'g permission_system" where
  "store_yolo_flags enabled s =
     (let clamped = clamp_yolo enabled (mgr_pin (sys_manager s))
      in s\<lparr>yolo_flag := clamped, auto_flag := (if clamped then False else auto_flag s)\<rparr>)"

definition store_auto_flags :: "bool \<Rightarrow> 'g permission_system \<Rightarrow> 'g permission_system" where
  "store_auto_flags enabled s = s\<lparr>auto_flag := enabled, yolo_flag := (if enabled then False else yolo_flag s)\<rparr>"

definition set_yolo_mode :: "bool \<Rightarrow> 'g permission_system \<Rightarrow> 'g permission_system" where
  "set_yolo_mode enabled s = send_command (SetYoloMode enabled) (store_yolo_flags enabled s)"

definition set_auto_mode :: "bool \<Rightarrow> 'g permission_system \<Rightarrow> 'g permission_system" where
  "set_auto_mode enabled s = send_command (SetAutoMode enabled) (store_auto_flags enabled s)"

definition set_classifier :: "classifier option \<Rightarrow> 'g permission_system \<Rightarrow> 'g permission_system" where
  "set_classifier c s = send_command (SetClassifier c) (s\<lparr>side_query_wired := False\<rparr>)"

definition set_classifier_with_side_query :: "classifier \<Rightarrow> bool \<Rightarrow> 'g permission_system \<Rightarrow> 'g permission_system" where
  "set_classifier_with_side_query c wired s = send_command (SetClassifier (Some c)) (s\<lparr>side_query_wired := wired\<rparr>)"

definition set_llm_side_query_wired :: "bool \<Rightarrow> 'g permission_system \<Rightarrow> 'g permission_system" where
  "set_llm_side_query_wired wired s = s\<lparr>side_query_wired := wired\<rparr>"

text \<open>The actor takes the next command; the two mode commands also store the flags again.\<close>

definition actor_flags :: "command \<Rightarrow> 'g permission_system \<Rightarrow> 'g permission_system" where
  "actor_flags c s =
     (case c of
        SetYoloMode enabled \<Rightarrow> store_yolo_flags enabled s
      | SetAutoMode enabled \<Rightarrow> store_auto_flags enabled s
      | _ \<Rightarrow> s)"

definition actor_step :: "surroundings \<Rightarrow> command \<Rightarrow> 'g permission_system \<Rightarrow> 'g permission_system" where
  "actor_step env c s = actor_flags c (s\<lparr>sys_actor := handle_command (sys_manager s) env c (sys_actor s)\<rparr>)"

inductive sys_step :: "'g permission_system \<Rightarrow> 'g permission_system \<Rightarrow> bool" where
  yolo: "sys_step s (set_yolo_mode enabled s)"
| auto: "sys_step s (set_auto_mode enabled s)"
| classifier: "sys_step s (set_classifier c s)"
| side_query: "sys_step s (set_classifier_with_side_query d wired s)"
| wired: "sys_step s (set_llm_side_query_wired wired s)"
| transcript: "sys_step s (send_command (SetClassifierTranscript ts) s)"
| agents_md: "sys_step s (send_command (SetProjectInstructions i) s)"
| reset: "sys_step s (send_command ResetState s)"
| request: "sys_step s (send_command (Request req) s)"
| shutdown: "sys_step s (send_command Shutdown s)"
| actor: "queue s = c # cs \<Longrightarrow> c \<noteq> Shutdown \<Longrightarrow> sys_step s (actor_step env c (s\<lparr>queue := cs\<rparr>))"

inductive sys_reachable :: "'g permission_system \<Rightarrow> bool" where
  spawned: "sys_reachable (spawn_permission_manager m initial_yolo files)"
| stepped: "sys_reachable s \<Longrightarrow> sys_step s s' \<Longrightarrow> sys_reachable s'"

section \<open>What a request leaves behind\<close>

lemma answer_fst:
  "fst (handle_request m req env st) =
     (case decide m st req env of
        AskThe _ \<Rightarrow>
          (case (case req_access req of
                   BashAccess cmd \<Rightarrow> bash_answer m cmd (user_answer env) st
                 | _ \<Rightarrow> other_answer m (req_access req) (user_answer env) st) of
             (d, out, st') \<Rightarrow> record_decision m (req_access req) d out st')
      | _ \<Rightarrow> st)"
  by (simp add: handle_request_def Let_def split: verdict.splits prod.splits)

lemma record_decision_simps [simp]:
  "perm_state (record_decision m a d out st) = perm_state st" "yolo_mode (record_decision m a d out st) = yolo_mode st"
  "auto_mode (record_decision m a d out st) = auto_mode st"
  "allow_edits_for_session (record_decision m a d out st) = allow_edits_for_session st"
  by (simp_all add: record_decision_def Let_def split: option.splits)

lemma store_state_simps [simp]:
  "perm_state (store_state m ps st) = ps" "yolo_mode (store_state m ps st) = yolo_mode st"
  "auto_mode (store_state m ps st) = auto_mode st" "allow_edits_for_session (store_state m ps st) = allow_edits_for_session st"
  "recorded_decisions (store_state m ps st) = recorded_decisions st"
  by (simp_all add: store_state_def)

lemmas answer_defs = bash_answer_def other_answer_def grant_mcp_tool_def grant_mcp_server_def Let_def

text \<open>The states of the grants that an answer about an access can lead to.\<close>

inductive remembers :: "AccessKind \<Rightarrow> PromptOutcome \<Rightarrow> PermissionState \<Rightarrow> PermissionState \<Rightarrow> bool" where
  nothing: "remembers access answer ps ps"
| script: "remembers (BashAccess cmd) AllowAlways ps (ps\<lparr>allowed_bash_commands := List.insert cmd (allowed_bash_commands ps)\<rparr>)"
| command: "remembers (BashAccess cmd) (AllowAlwaysBashCommand p) ps
    (ps\<lparr>allowed_bash_commands := List.insert p (allowed_bash_commands ps)\<rparr>)"
| refusal: "remembers (BashAccess cmd) (RejectAlwaysBashCommand p) ps
    (ps\<lparr>disallowed_bash_commands := List.insert p (disallowed_bash_commands ps)\<rparr>)"
| domain: "remembers (WebFetchAccess url) (AllowAlwaysDomain d) ps
    (ps\<lparr>allowed_web_fetch_domains := List.insert d (allowed_web_fetch_domains ps)\<rparr>)"
| tool: "answer \<in> {AllowAlways, AllowAlwaysMcpTool t, AllowAlwaysMcpServer t} \<Longrightarrow>
    remembers (MCPToolAccess name i) answer ps (ps\<lparr>allowed_mcp_tools := List.insert name (allowed_mcp_tools ps)\<rparr>)"
| server: "parse_mcp_qualified_name name = Some (server, t) \<Longrightarrow>
    remembers (MCPToolAccess name i) (AllowAlwaysMcpServer server) ps
      (ps\<lparr>allowed_mcp_servers := List.insert server (allowed_mcp_servers ps)\<rparr>)"

lemma bash_answer_remembers:
  "bash_answer m cmd answer st = (d, out, st') \<Longrightarrow> remembers (BashAccess cmd) answer (perm_state st) (perm_state st')
     \<and> yolo_mode st' = yolo_mode st \<and> auto_mode st' = auto_mode st
     \<and> allow_edits_for_session st' = allow_edits_for_session st \<and> recorded_decisions st' = recorded_decisions st"
  by (cases answer) (auto simp: bash_answer_def Let_def intro: remembers.intros)

lemma other_answer_remembers:
  assumes "other_answer m access answer st = (d, out, st')"
  shows "remembers access answer (perm_state st) (perm_state st')
     \<and> yolo_mode st' = yolo_mode st \<and> auto_mode st' = auto_mode st \<and> recorded_decisions st' = recorded_decisions st
     \<and> (allow_edits_for_session st' = allow_edits_for_session st \<or> answer = AllowEditsForSession)"
proof -
  have tool: "remembers access answer (perm_state st) (perm_state (grant_mcp_tool m access st))"
    if "answer \<in> {AllowAlways, AllowAlwaysMcpTool t, AllowAlwaysMcpServer t}" for t
    using that by (auto simp: grant_mcp_tool_def intro: remembers.intros split: AccessKind.splits)
  have server: "remembers access (AllowAlwaysMcpServer p) (perm_state st) (perm_state (grant_mcp_server m access p st))"
    if "answer = AllowAlwaysMcpServer p" for p
    using that tool [of p]
    by (auto simp: grant_mcp_server_def intro: remembers.intros split: AccessKind.splits option.splits if_splits)
  have frame: "yolo_mode (grant_mcp_tool m access st) = yolo_mode st" "auto_mode (grant_mcp_tool m access st) = auto_mode st"
    "recorded_decisions (grant_mcp_tool m access st) = recorded_decisions st"
    "allow_edits_for_session (grant_mcp_tool m access st) = allow_edits_for_session st"
    by (simp_all add: grant_mcp_tool_def split: AccessKind.splits)
  have frame2: "yolo_mode (grant_mcp_server m access p st) = yolo_mode st" "auto_mode (grant_mcp_server m access p st) = auto_mode st"
    "recorded_decisions (grant_mcp_server m access p st) = recorded_decisions st"
    "allow_edits_for_session (grant_mcp_server m access p st) = allow_edits_for_session st" for p
    using frame by (simp_all add: grant_mcp_server_def split: AccessKind.splits option.splits)
  show ?thesis
    using assms tool server frame frame2
    by (cases answer) (auto simp: other_answer_def Let_def intro: remembers.intros split: AccessKind.splits)
qed


section \<open>The modes over time\<close>

lemma recorded_bound:
  assumes "length (recorded_decisions st) \<le> MAX_RECORDED_PERMISSION_DECISIONS"
  shows "length (recorded_decisions (record_decision m a d out st)) \<le> MAX_RECORDED_PERMISSION_DECISIONS"
  using assms by (auto simp: record_decision_def Let_def MAX_RECORDED_PERMISSION_DECISIONS_def split: option.splits)

text \<open>What holds of the actor after every command.\<close>

definition actor_ok :: "'g manager \<Rightarrow> actor \<Rightarrow> bool" where
  "actor_ok m st \<longleftrightarrow>
     \<not> (yolo_mode st \<and> auto_mode st) \<and> (mgr_pin m = None \<or> \<not> yolo_mode st) \<and> edit_policy (perm_state st) \<noteq> EditAllow
     \<and> length (recorded_decisions st) \<le> MAX_RECORDED_PERMISSION_DECISIONS"

lemma remembers_edit_policy: "remembers a o' ps ps' \<Longrightarrow> edit_policy ps' = edit_policy ps"
  by (induction rule: remembers.induct) auto

lemma request_ok:
  assumes "actor_ok m st"
  shows "actor_ok m (fst (handle_request m req env st))"
proof (cases "decide m st req env")
  case (AskThe why)
  show ?thesis
    using assms AskThe bash_answer_remembers [of m _ "user_answer env" st] other_answer_remembers [of m "req_access req" "user_answer env" st]
    by (fastforce simp: answer_fst actor_ok_def dest: remembers_edit_policy intro: recorded_bound split: AccessKind.splits prod.splits)
qed (use assms in \<open>simp_all add: answer_fst\<close>)

lemma command_ok: "actor_ok m st \<Longrightarrow> actor_ok m (handle_command m env c st)"
  using request_ok [of m st _ env]
  by (cases c) (auto simp: handle_command_def set_yolo_def set_auto_def clamp_yolo_def Let_def default_state_def actor_ok_def store_state_def)

lemma start_ok: "actor_ok m (start_actor m initial_yolo files)"
  by (auto simp: actor_ok_def start_actor_def migrate_edit_policy_def clamp_yolo_def Let_def split: prod.splits)

text \<open>A flag that no command under way will store is what the actor has.\<close>

definition stores_yolo :: "command \<Rightarrow> bool" where
  "stores_yolo c = (case c of SetYoloMode _ \<Rightarrow> True | SetAutoMode e \<Rightarrow> e | _ \<Rightarrow> False)"

definition stores_auto :: "'g manager \<Rightarrow> command \<Rightarrow> bool" where
  "stores_auto m c = (case c of SetYoloMode e \<Rightarrow> clamp_yolo e (mgr_pin m) | SetAutoMode _ \<Rightarrow> True | _ \<Rightarrow> False)"

definition sys_ok :: "'g permission_system \<Rightarrow> bool" where
  "sys_ok s \<longleftrightarrow>
     actor_ok (sys_manager s) (sys_actor s)
     \<and> (mgr_pin (sys_manager s) = None \<or> \<not> yolo_flag s)
     \<and> (list_ex stores_yolo (queue s) \<or> yolo_flag s = yolo_mode (sys_actor s))
     \<and> (list_ex (stores_auto (sys_manager s)) (queue s) \<or> auto_flag s = auto_mode (sys_actor s))"

lemma request_modes:
  "yolo_mode (fst (handle_request m req env st)) = yolo_mode st" "auto_mode (fst (handle_request m req env st)) = auto_mode st"
  using bash_answer_remembers [of m _ "user_answer env" st] other_answer_remembers [of m "req_access req" "user_answer env" st]
  by (auto simp: answer_fst split: verdict.splits AccessKind.splits prod.splits)

lemmas sys_defs = set_yolo_mode_def set_auto_mode_def set_classifier_def set_classifier_with_side_query_def
  set_llm_side_query_wired_def send_command_def store_yolo_flags_def store_auto_flags_def Let_def

lemma actor_step_ok:
  assumes "sys_ok s" "queue s = c # cs"
  shows "sys_ok (actor_step env c (s\<lparr>queue := cs\<rparr>))"
proof -
  have ok: "actor_ok (sys_manager s) (handle_command (sys_manager s) env c (sys_actor s))"
    using assms(1) by (simp add: sys_ok_def command_ok)
  show ?thesis
    using assms ok request_modes [of "sys_manager s" _ env "sys_actor s"]
    by (cases c)
      (auto simp: sys_ok_def actor_step_def actor_flags_def store_yolo_flags_def store_auto_flags_def handle_command_def
        set_yolo_def set_auto_def store_state_def stores_yolo_def stores_auto_def clamp_yolo_def Let_def)
qed

lemma sys_step_ok: "sys_step s s' \<Longrightarrow> sys_ok s \<Longrightarrow> sys_ok s'"
proof (induction rule: sys_step.induct)
  case (actor s c cs env)
  then show ?case by (intro actor_step_ok)
qed (auto simp: sys_ok_def sys_defs stores_yolo_def stores_auto_def clamp_yolo_def)

lemma reachable_ok: "sys_reachable s \<Longrightarrow> sys_ok s"
proof (induction rule: sys_reachable.induct)
  case (spawned m initial_yolo files)
  then show ?case
    using start_ok [of m initial_yolo files] by (simp add: sys_ok_def spawn_permission_manager_def Let_def actor_ok_def)
qed (rule sys_step_ok)

text \<open>
  C8. The modes stay consistent however handles and actor interleave: in every reachable state
  always-approve and auto mode are not both on; under a managed pin always-approve is off, for the
  actor and for every handle; no stored edit permission survives; at most twelve decisions are
  kept for the classifier; and once no command is under way, what the handles report is what the
  actor enforces.
\<close>

theorem modes_consistent:
  assumes "sys_reachable s"
  shows "\<not> (yolo_mode (sys_actor s) \<and> auto_mode (sys_actor s))
    \<and> (mgr_pin (sys_manager s) \<noteq> None \<longrightarrow> \<not> yolo_mode (sys_actor s) \<and> \<not> yolo_flag s)
    \<and> edit_policy (perm_state (sys_actor s)) \<noteq> EditAllow
    \<and> length (recorded_decisions (sys_actor s)) \<le> 12
    \<and> (queue s = [] \<longrightarrow> yolo_flag s = yolo_mode (sys_actor s) \<and> auto_flag s = auto_mode (sys_actor s))"
  using reachable_ok [OF assms] by (auto simp: sys_ok_def actor_ok_def MAX_RECORDED_PERMISSION_DECISIONS_def)

section \<open>Refused commands\<close>

lemma refused_script_decided:
  assumes "req_access req = BashAccess cmd" "script_refused (shell_parser m) cmd (perm_state st)" "\<not> yolo_mode st"
    and "\<not> rule_refuses m (req_access req)" "\<not> gone_at_dequeue env" "\<not> policy_forced (request_gates m st req)"
  shows "\<exists>why. decide m st req env = Decided (Reject why) True SessionDeny"
proof -
  obtain why where "bash_grant_pre_decision cmd (evaluate_bash (shell_parser m) cmd (perm_state st) True) (perm_state st) (mgr_pin m)
      PRE_CLASSIFIER = Some (Reject why, SessionDeny)"
    using grant_refused [OF assms(2)] by blast
  moreover have "\<not> protected_edit m req" using assms(1) by (simp add: protected_edit_def)
  moreover have "\<not> g_shell_forced (request_gates m st req)" using gates_forced assms(4,6) by blast
  ultimately have "session_grant m st (req_access req) (request_gates m st req) = Some (Reject why, SessionDeny)"
    using assms(1,6) by (simp add: session_grant_def session_grant_pre_decision_def)
  then have "decide_allowed m st (req_access req) (request_gates m st req) env = Decided (Reject why) True SessionDeny"
    using assms(3) by (simp add: decide_allowed_def)
  then show ?thesis using decide_not_refused [OF assms(4,5)] by simp
qed

lemma refused_script_asked:
  assumes "req_access req = BashAccess cmd" "script_refused (shell_parser m) cmd (perm_state st)" "\<not> yolo_mode st"
  shows "\<not> runs_unasked m req env st"
proof
  assume runs: "runs_unasked m req env st"
  let ?g = "request_gates m st req"
  obtain why auto where nr: "\<not> rule_refuses m (req_access req)"
    and d: "decide_allowed m st (req_access req) ?g env = Decided AllowAccess auto why"
    and no: "\<nexists>r. g_policy ?g = Some (Reject r)"
    using runs by (rule runs_unasked_cases)
  have here: "\<not> gone_at_dequeue env" using runs by (auto simp: runs_unasked_iff decide_def)
  have forced: "policy_forced ?g"
  proof (rule ccontr)
    assume "\<not> policy_forced ?g"
    from refused_script_decided [OF assms nr here this] runs show False by (auto simp: runs_unasked_iff)
  qed
  from d gates_outcome no show False
  proof (cases rule: decide_allowed_cases)
    case grant
    then show ?thesis using session_grant_bash(2) [of m st cmd req why] assms(1) forced by simp
  next
    case auto
    then show ?thesis using auto_answered(2) forced by blast
  next
    case (pre f)
    then have "bash_grant_pre_decision cmd (evaluate_bash (shell_parser m) cmd (perm_state st) True) (perm_state st) (mgr_pin m)
        ASK_FLOOR_REMEMBER = Some (AllowAccess, why)"
      using assms(1) forced by (auto simp: access_pre_decision_def bash_pre_decision_def split: if_splits)
    then show ?thesis using grant_allows assms(2) by blast
  qed (use assms(3) forced in auto)
qed

lemma refusal_remembered:
  assumes "handle_request m req env st = (st', response, ev)" "ev_user_prompted ev"
    and "req_access req = BashAccess cmd" "user_answer env = RejectAlwaysBashCommand p"
  shows "p \<in> set (disallowed_bash_commands (perm_state st')) \<and> yolo_mode st' = yolo_mode st"
  using assms by (auto simp: handle_request_def emit_event_def bash_answer_def Let_def split: verdict.splits)



text \<open>
  The option to never allow a command does nothing for a command behind a wrapper. The prompt
  offers, and the manager stores, the command as it is written, but compares with the command
  behind its wrappers: after the user chose never to allow \<^verbatim>\<open>nice cargo build\<close>, the same script is
  asked about again, whereas \<^verbatim>\<open>cargo build\<close> is rejected after the same choice.
\<close>

theorem wrapped_refusal_forgotten:
  "prompt_request demo_perm_lib GrokTUI True (BashAccess ''nice cargo build'') (ClientSelected ''reject-always-command'' None)
     = RejectAlwaysBashCommand ''nice cargo build''
   \<and> decide (demo_manager rm_denied)
       (fst (handle_request (demo_manager rm_denied) (demo_request (BashAccess ''nice cargo build''))
         (demo_env (RejectAlwaysBashCommand ''nice cargo build'')) (demo_actor [] False False)))
       (demo_request (BashAccess ''nice cargo build'')) (demo_env AllowOnce) = AskThe NeedsUser
   \<and> decide (demo_manager rm_denied)
       (fst (handle_request (demo_manager rm_denied) (demo_request (BashAccess ''cargo build''))
         (demo_env (RejectAlwaysBashCommand ''cargo build'')) (demo_actor [] False False)))
       (demo_request (BashAccess ''cargo build'')) (demo_env AllowOnce) = Decided (Reject (denied_segment ''cargo build'')) True SessionDeny"
  by code_simp

section \<open>Edits by patches\<close>

lemma patch_demo:
  "fst (snd (handle_request (demo_manager (file_denied EditTool)) (demo_request (EditAccess ''/w/f'')) (demo_env RejectOnce)
     (demo_actor [] False True))) = Some (PolicyDeny (deny_reason (hd (rules (file_denied EditTool)))))"
  "decide (demo_manager (file_denied EditTool)) (demo_actor [] False True) (demo_request (EditAccess ''/etc/hosts'')) (demo_env RejectOnce)
     = AskThe NeedsUser"
  "runs_unasked (demo_manager (file_denied EditTool)) (demo_request (EditAccess ''apply_patch'')) (demo_env RejectOnce) (demo_actor [] False True)"
  by code_simp+

text \<open>
  Patches escape the rules for edits: the permission system sees the placeholder \<^verbatim>\<open>apply_patch\<close>
  instead of the files of a patch. In auto mode, under a rule that denies editing a file, a
  replacement in that file is refused and one in \<^verbatim>\<open>/etc/hosts\<close> is asked about, but every patch,
  whatever files it names, is applied without asking.
\<close>

theorem patch_escapes_edit_rules:
  "fst (snd (handle_request (demo_manager (file_denied EditTool)) (demo_request (access_from_input (SearchReplaceInput ''/w/f'')))
     (demo_env RejectOnce) (demo_actor [] False True))) = Some (PolicyDeny (deny_reason (hd (rules (file_denied EditTool)))))
   \<and> decide (demo_manager (file_denied EditTool)) (demo_actor [] False True) (demo_request (access_from_input (SearchReplaceInput ''/etc/hosts'')))
       (demo_env RejectOnce) = AskThe NeedsUser
   \<and> runs_unasked (demo_manager (file_denied EditTool)) (demo_request (access_from_input (ApplyPatchInput patch))) (demo_env RejectOnce)
       (demo_actor [] False True)"
  by (simp add: patch_demo)

text \<open>A rule that asks about web searches never leads to a question.\<close>

lemma web_search_ask_ignored:
  assumes "req_access req = WebSearchAccess query" "direct_decision m (WebSearchAccess query) = Some AskUser" "\<not> gone_at_dequeue env"
  shows "runs_unasked m req env st"
proof -
  let ?g = "request_gates m st req"
  have shell: "shell_command_decision m (WebSearchAccess query) = None" "shell_file_decision m (WebSearchAccess query) = None"
    by (simp_all add: shell_command_decision_def shell_file_decision_def split: option.splits)
  then have forced: "policy_forced ?g" using assms(1,2) by (simp add: gates_policy)
  have "\<not> rule_refuses m (req_access req)" using assms(1,2) shell by (simp add: rule_refuses_def)
  moreover have "\<exists>auto why. decide_allowed m st (WebSearchAccess query) ?g env = Decided AllowAccess auto why"
    using forced by (auto simp: decide_allowed_def session_grant_def auto_mode_step_def after_auto_def policy_answer_def
        pre_decision_def access_pre_decision_def)
  ultimately show ?thesis
    using decide_not_refused [of m req env st] assms(1,3) by (simp add: runs_unasked_iff)
qed

section \<open>Examples\<close>


theorem modes_consistent_witness:
  "queue (spawn_permission_manager (demo_manager rm_denied) True Map.empty) = []
   \<and> yolo_flag (spawn_permission_manager (demo_manager rm_denied) True Map.empty)
   \<and> \<not> auto_mode (sys_actor (spawn_permission_manager (demo_manager rm_denied) True Map.empty))"
proof -
  have "yolo_mode (sys_actor (spawn_permission_manager (demo_manager rm_denied) True Map.empty))"
    by (simp add: spawn_permission_manager_def start_actor_def clamp_yolo_def demo_manager_def Let_def split: prod.splits)
  moreover have "queue (spawn_permission_manager (demo_manager rm_denied) True Map.empty) = []"
    by (simp add: spawn_permission_manager_def Let_def)
  ultimately show ?thesis using modes_consistent [OF spawned] by blast
qed

end
