(* ===== verification/Perm_Settings.thy ===== *)
theory Perm_Settings
  imports Perm_Rules Shell_Paths Truncate Json
begin

text \<open>
  Vendor settings (\<^verbatim>\<open>xai-grok-workspace/src/permission/claude_settings.rs\<close>): the tolerant reading of
  \<^verbatim>\<open>.claude/settings.json\<close>, where the files are looked for, and the environment variables they set. The
  machine (files, home directory, JSON and TOML parsers) is a record of functions.
\<close>

section \<open>Values\<close>

datatype toml =
    TString string
  | TInteger int
  | TFloat string
  | TBoolean bool
  | TDatetime string
  | TArray "toml list"
  | TTable "(string \<times> toml) list"

fun toml_get :: "string \<Rightarrow> toml \<Rightarrow> toml option" where
  "toml_get k (TTable kvs) = map_of kvs k"
| "toml_get k _ = None"

fun toml_as_str :: "toml \<Rightarrow> string option" where
  "toml_as_str (TString s) = Some s"
| "toml_as_str _ = None"

fun toml_as_bool :: "toml \<Rightarrow> bool option" where
  "toml_as_bool (TBoolean b) = Some b"
| "toml_as_bool _ = None"

fun type_of :: "json \<Rightarrow> string" where
  "type_of JNull = ''null''"
| "type_of (JBool _) = ''boolean''"
| "type_of (JNumber _) = ''number''"
| "type_of (JString _) = ''string''"
| "type_of (JArray _) = ''array''"
| "type_of (JObject _) = ''object''"

fun json_as_array :: "json \<Rightarrow> json list option" where
  "json_as_array (JArray vs) = Some vs"
| "json_as_array _ = None"

text \<open>\<^verbatim>\<open>split_once\<close> with a text: what stands before its first occurrence and after it.\<close>

fun split_once_str :: "string \<Rightarrow> string \<Rightarrow> (string \<times> string) option" where
  "split_once_str p [] = (if p = [] then Some ([], []) else None)"
| "split_once_str p (c # s) =
     (case strip_prefix (c # s) p of
        Some rest \<Rightarrow> Some ([], rest)
      | None \<Rightarrow> map_option (\<lambda>(a, b). (c # a, b)) (split_once_str p s))"

lemma split_once_str_first:
  assumes "p \<noteq> []" "hd p \<notin> set a"
  shows "split_once_str p (a @ p @ b) = Some (a, b)"
  using assms
proof (induction a)
  case Nil
  then obtain c q where "p = c # q" by (cases p) auto
  moreover have "strip_prefix (p @ b) p = Some b" by (simp add: strip_prefix_Some)
  ultimately show ?case by simp
next
  case (Cons c a)
  then have "strip_prefix (c # a @ p @ b) p = None" by (cases p) (auto simp: strip_prefix_None)
  with Cons show ?case by simp
qed

section \<open>The machine\<close>

record machine =
  read_to_string :: "path \<Rightarrow> string option"
  parse_json :: "string \<Rightarrow> json option"
  parse_toml :: "string \<Rightarrow> toml option"
  path_exists :: "path \<Rightarrow> bool"
  path_is_file :: "path \<Rightarrow> bool"
  canonicalize :: "path \<Rightarrow> path option"
  home_dir :: "path option"
  user_grok_home :: "path option"
  marker_override :: bool

definition in_dir :: "path \<Rightarrow> string \<Rightarrow> path" where
  "in_dir dir name = path_join dir [Normal name]"

section \<open>Settings\<close>

record ParsedPermissions =
  allow_entries :: "string list"
  deny_entries :: "string list"
  ask_entries :: "string list"

record ClaudeSettings =
  settings_permissions :: "ParsedPermissions option"
  settings_default_mode :: "string option"
  additional_directories :: "string list option"
  settings_env :: "(string \<rightharpoonup> string) option"

fun rule_error_text :: "RuleParseError \<Rightarrow> string" where
  "rule_error_text (UnsupportedToolPrefix p) = ''unsupported tool prefix: '' @ p"
| "rule_error_text (UnknownToolPrefix p) = ''unknown tool prefix: '' @ p"
| "rule_error_text (MalformedRule detail) = ''malformed rule: '' @ detail"

text \<open>The entries of one list: the rules and the warnings.\<close>

fun translate_entries :: "RuleAction \<Rightarrow> string \<Rightarrow> string list \<Rightarrow> PermissionRule list \<times> string list" where
  "translate_entries action label [] = ([], [])"
| "translate_entries action label (rule_str # entries) =
     (let (rs, ws) = translate_entries action label entries
      in case parse_permission_rule rule_str action of
           Inr rule \<Rightarrow> (rule # rs, ws)
         | Inl e \<Rightarrow> (rs, (''permissions.'' @ label @ '': '' @ rule_str @ '' -- '' @ rule_error_text e) # ws))"

definition into_permission_config :: "ParsedPermissions \<Rightarrow> PermissionConfig \<times> string list" where
  "into_permission_config p =
     (let (allows, w1) = translate_entries AllowRule ''allow'' (allow_entries p);
          (denies, w2) = translate_entries DenyRule ''deny'' (deny_entries p);
          (asks, w3) = translate_entries AskRule ''ask'' (ask_entries p)
      in (permission_config_new (allows @ denies @ asks), w1 @ w2 @ w3))"

fun string_elements :: "nat \<Rightarrow> json list \<Rightarrow> string list \<times> string list" where
  "string_elements i [] = ([], [])"
| "string_elements i (v # vs) =
     (let (strings, warnings) = string_elements (Suc i) vs
      in case json_as_str v of
           Some s \<Rightarrow> (s # strings, warnings)
         | None \<Rightarrow>
             (strings,
              (''permissions array index '' @ show_decimal i @ '': expected string, got '' @ type_of v) # warnings))"

definition extract_string_array :: "json option \<Rightarrow> string list \<times> string list" where
  "extract_string_array value =
     (case value of
        Some (JArray arr) \<Rightarrow> string_elements 0 arr
      | Some other \<Rightarrow> ([], [''permissions field: expected array, got '' @ type_of other])
      | None \<Rightarrow> ([], []))"

definition extract_default_mode :: "json \<Rightarrow> string option" where
  "extract_default_mode value =
     (case Option.bind (json_get ''permissions'' value) (json_get ''defaultMode'') of
        Some dm \<Rightarrow> json_as_str dm
      | None \<Rightarrow> Option.bind (json_get ''defaultMode'' value) json_as_str)"

definition extract_additional_directories :: "json \<Rightarrow> string list option" where
  "extract_additional_directories value =
     map_option (\<lambda>arr. List.map_filter json_as_str arr)
       (case Option.bind (json_get ''permissions'' value) (json_get ''additionalDirectories'') of
          Some nested \<Rightarrow> json_as_array nested
        | None \<Rightarrow> Option.bind (json_get ''additionalDirectories'' value) json_as_array)"

text \<open>A scalar as the value of a variable; the text of a number is the one it is printed with.\<close>

fun env_value :: "json \<Rightarrow> string option" where
  "env_value (JString s) = Some s"
| "env_value (JNumber n) = Some n"
| "env_value (JBool b) = Some (if b then ''true'' else ''false'')"
| "env_value _ = None"

definition extract_string_map :: "json option \<Rightarrow> (string \<rightharpoonup> string) option" where
  "extract_string_map value =
     (case value of
        Some (JObject kvs) \<Rightarrow>
          (let result = (\<lambda>key. Option.bind (map_of kvs key) env_value)
           in if list_all (\<lambda>kv. result (fst kv) = None) kvs then None else Some result)
      | _ \<Rightarrow> None)"

definition settings_of_json :: "json \<Rightarrow> ClaudeSettings" where
  "settings_of_json value =
     \<lparr>settings_permissions =
        Option.bind (json_get ''permissions'' value) (\<lambda>p.
          let allow = fst (extract_string_array (json_get ''allow'' p));
              deny = fst (extract_string_array (json_get ''deny'' p));
              ask = fst (extract_string_array (json_get ''ask'' p))
          in if allow = [] \<and> deny = [] \<and> ask = [] then None
             else Some \<lparr>allow_entries = allow, deny_entries = deny, ask_entries = ask\<rparr>),
      settings_default_mode = extract_default_mode value,
      additional_directories = extract_additional_directories value,
      settings_env = extract_string_map (json_get ''env'' value)\<rparr>"

definition load_claude_settings :: "machine \<Rightarrow> path \<Rightarrow> ClaudeSettings option" where
  "load_claude_settings mc p =
     map_option settings_of_json (Option.bind (read_to_string mc p) (parse_json mc))"

section \<open>Where the files are\<close>

definition global_claude_settings_paths :: "machine \<Rightarrow> path list" where
  "global_claude_settings_paths mc =
     (case home_dir mc of
        Some home \<Rightarrow>
          (let global = in_dir home ''.claude'' in [in_dir global ''settings.local.json'', in_dir global ''settings.json''])
      | None \<Rightarrow> [])"

lemma path_parent_shorter: "path_parent p = Some q \<Longrightarrow> length q < length p"
  by (auto simp: path_parent_def split: if_splits)

function find_repo_root :: "machine \<Rightarrow> path \<Rightarrow> path option" where
  "find_repo_root mc current =
     (if path_exists mc (in_dir current ''.git'') then Some current
      else case path_parent current of Some parent \<Rightarrow> find_repo_root mc parent | None \<Rightarrow> None)"
  by pat_completeness auto
termination by (relation "measure (\<lambda>(_, p). length p)") (auto dest: path_parent_shorter)

declare find_repo_root.simps [simp del]

definition canonicalize_or_owned :: "machine \<Rightarrow> path \<Rightarrow> path" where
  "canonicalize_or_owned mc p = (case canonicalize mc p of Some q \<Rightarrow> q | None \<Rightarrow> p)"

definition is_home_dir :: "machine \<Rightarrow> path \<Rightarrow> bool" where
  "is_home_dir mc p =
     (case home_dir mc of
        None \<Rightarrow> False
      | Some home \<Rightarrow> canonicalize_or_owned mc p = canonicalize_or_owned mc home)"

text \<open>The directories from one up to another, or up to the top.\<close>

function dirs_up_to :: "path \<Rightarrow> path \<Rightarrow> path list" where
  "dirs_up_to root current =
     current # (if current = root then []
                else case path_parent current of Some parent \<Rightarrow> dirs_up_to root parent | None \<Rightarrow> [])"
  by pat_completeness auto
termination by (relation "measure (\<lambda>(_, p). length p)") (auto dest: path_parent_shorter)

declare dirs_up_to.simps [simp del]

definition project_root :: "machine \<Rightarrow> path \<Rightarrow> path" where
  "project_root mc cwd =
     (case find_repo_root mc cwd of
        Some root \<Rightarrow> (if is_home_dir mc root then cwd else root)
      | None \<Rightarrow> cwd)"

definition collect_project_claude_paths :: "machine \<Rightarrow> path \<Rightarrow> path list" where
  "collect_project_claude_paths mc cwd =
     concat (map (\<lambda>dir. let claude_dir = in_dir dir ''.claude''
                        in [in_dir claude_dir ''settings.local.json'', in_dir claude_dir ''settings.json''])
       (dirs_up_to (project_root mc cwd) cwd))"

definition find_claude_settings_paths :: "machine \<Rightarrow> path \<Rightarrow> path list" where
  "find_claude_settings_paths mc cwd = collect_project_claude_paths mc cwd @ global_claude_settings_paths mc"

definition has_claude_compat :: "machine \<Rightarrow> path \<Rightarrow> bool" where
  "has_claude_compat mc cwd = list_ex (path_exists mc) (find_claude_settings_paths mc cwd)"

definition project_claude_settings_present :: "machine \<Rightarrow> path \<Rightarrow> bool" where
  "project_claude_settings_present mc cwd = list_ex (path_is_file mc) (collect_project_claude_paths mc cwd)"

section \<open>Environment variables\<close>

definition is_claude_import_marked :: "machine \<Rightarrow> bool" where
  "is_claude_import_marked mc \<longleftrightarrow>
     marker_override mc
     \<or> (case Option.bind (Option.bind (Option.bind (user_grok_home mc) (\<lambda>g. read_to_string mc (in_dir g ''config.toml'')))
             (parse_toml mc)) (\<lambda>value. Option.bind (Option.bind (toml_get ''claude_compat'' value) (toml_get ''imported'')) toml_as_bool) of
          Some imported \<Rightarrow> imported
        | None \<Rightarrow> False)"

definition load_claude_env_with_project :: "machine \<Rightarrow> path \<Rightarrow> bool \<Rightarrow> string \<rightharpoonup> string" where
  "load_claude_env_with_project mc cwd project_trusted =
     (if is_claude_import_marked mc then Map.empty
      else
        (let paths = (if project_trusted then find_claude_settings_paths mc cwd else global_claude_settings_paths mc)
         in fold (\<lambda>p merged.
              case Option.bind (load_claude_settings mc p) settings_env of Some env \<Rightarrow> merged ++ env | None \<Rightarrow> merged)
              (rev paths) Map.empty))"

section \<open>Precedence of the files\<close>

text \<open>The value a single file gives to a variable.\<close>

definition env_in_file :: "machine \<Rightarrow> string \<Rightarrow> path \<Rightarrow> string option" where
  "env_in_file mc key p = Option.bind (Option.bind (load_claude_settings mc p) settings_env) (\<lambda>env. env key)"

text \<open>The first file of a list that gives one.\<close>

fun first_some :: "('a \<Rightarrow> 'b option) \<Rightarrow> 'a list \<Rightarrow> 'b option" where
  "first_some f [] = None"
| "first_some f (x # xs) = (case f x of Some y \<Rightarrow> Some y | None \<Rightarrow> first_some f xs)"

lemma first_some_append: "first_some f (xs @ ys) = (case first_some f xs of Some y \<Rightarrow> Some y | None \<Rightarrow> first_some f ys)"
  by (induction xs) (auto split: option.split)

lemma env_fold:
  "fold (\<lambda>p merged. case Option.bind (load_claude_settings mc p) settings_env of Some env \<Rightarrow> merged ++ env | None \<Rightarrow> merged)
     (rev paths) Map.empty key = first_some (env_in_file mc key) paths"
proof (induction paths)
  case (Cons p paths)
  have "env_in_file mc key p = (case Option.bind (load_claude_settings mc p) settings_env of Some env \<Rightarrow> env key | None \<Rightarrow> None)"
    unfolding env_in_file_def by (cases "Option.bind (load_claude_settings mc p) settings_env") (simp_all del: bind_assoc)
  with Cons show ?case
    by (cases "Option.bind (load_claude_settings mc p) settings_env") (simp_all add: map_add_def split: option.split)
qed simp

lemma project_dirs_under: "d \<in> set (dirs_up_to root cwd) \<Longrightarrow> \<exists>rest. cwd = d @ rest"
proof (induction root cwd rule: dirs_up_to.induct)
  case (1 root current)
  show ?case
  proof (cases "d = current")
    case False
    with 1(2) obtain parent where p: "current \<noteq> root" "path_parent current = Some parent" "d \<in> set (dirs_up_to root parent)"
      using dirs_up_to.simps [of root current] by (auto split: if_splits option.splits)
    from 1(1) [OF this] obtain rest where "parent = d @ rest" by auto
    with p(2) show ?thesis by (auto simp: path_parent_def split: if_splits) (metis append.assoc append_butlast_last_id)
  qed simp
qed

text \<open>
  The variables that settings files put into every process follow their precedence: a variable has
  the value of the first file that sets it, files of the project before those of the user, nearer
  directories before farther ones and local files before shared ones. A folder that is not
  trusted contributes nothing: there only the files of the user count, whatever the project's files
  say.
\<close>

theorem env_precedence:
  assumes "\<not> is_claude_import_marked mc"
  shows "load_claude_env_with_project mc cwd True key =
      (case first_some (env_in_file mc key) (collect_project_claude_paths mc cwd) of
         Some v \<Rightarrow> Some v
       | None \<Rightarrow> first_some (env_in_file mc key) (global_claude_settings_paths mc))
    \<and> load_claude_env_with_project mc cwd False key = first_some (env_in_file mc key) (global_claude_settings_paths mc)
    \<and> (\<forall>p. p \<in> set (collect_project_claude_paths mc cwd) \<longrightarrow> (\<exists>dir rest. cwd = dir @ rest
         \<and> p \<in> {in_dir (in_dir dir ''.claude'') ''settings.local.json'', in_dir (in_dir dir ''.claude'') ''settings.json''}))"
proof -
  have "\<exists>dir rest. cwd = dir @ rest
      \<and> p \<in> {in_dir (in_dir dir ''.claude'') ''settings.local.json'', in_dir (in_dir dir ''.claude'') ''settings.json''}"
    if p: "p \<in> set (collect_project_claude_paths mc cwd)" for p
    using p project_dirs_under by (fastforce simp: collect_project_claude_paths_def Let_def)
  moreover have "load_claude_env_with_project mc cwd trusted key =
      first_some (env_in_file mc key) (if trusted then find_claude_settings_paths mc cwd else global_claude_settings_paths mc)" for trusted
    using assms by (simp add: load_claude_env_with_project_def env_fold)
  ultimately show ?thesis by (simp add: find_claude_settings_paths_def first_some_append)
qed

text \<open>A home directory with settings, and a project below it.\<close>

definition demo_machine :: machine where
  "demo_machine =
     \<lparr>read_to_string = (\<lambda>p.
        if p = components ''/h/w/.claude/settings.json'' then Some ''project''
        else if p = components ''/h/.claude/settings.json'' then Some ''user'' else None),
      parse_json = (\<lambda>text. Some (JObject [(''env'', JObject [(''PATH'', JString text)])])),
      parse_toml = (\<lambda>_. None), path_exists = (\<lambda>p. p = components ''/h/w/.git''), path_is_file = (\<lambda>_. False),
      canonicalize = Some, home_dir = Some (components ''/h''), user_grok_home = None, marker_override = False\<rparr>"

theorem env_precedence_witness:
  "load_claude_env_with_project demo_machine (components ''/h/w/src'') True ''PATH'' = Some ''project''
   \<and> load_claude_env_with_project demo_machine (components ''/h/w/src'') False ''PATH'' = Some ''user''"
proof -
  have "\<not> is_claude_import_marked demo_machine" by code_simp
  note precedence = env_precedence [OF this, of "components ''/h/w/src''" "''PATH''"]
  have "first_some (env_in_file demo_machine ''PATH'') (collect_project_claude_paths demo_machine (components ''/h/w/src'')) = Some ''project''"
    "first_some (env_in_file demo_machine ''PATH'') (global_claude_settings_paths demo_machine) = Some ''user''"
    by code_simp+
  with precedence show ?thesis by simp
qed

end
