(* ===== verification/Mcp_Policy.thy ===== *)
theory Mcp_Policy
  imports Perm_Settings
begin

text \<open>
  Which MCP servers and plug-in sources managed settings permit
  (\<^verbatim>\<open>xai-grok-workspace/src/permission/resolution.rs\<close>). The glob library is a parameter: the compiled pattern,
  matched without regard to case and across separators, or nothing when the pattern does not compile.
\<close>

section \<open>Entries\<close>

datatype AllowedMcpServer = HttpEntry string | StdioEntry string | NameEntry string

definition ALLOWED_MCP_SERVERS_KEY :: string where "ALLOWED_MCP_SERVERS_KEY = ''allowedMcpServers''"
definition DENIED_MCP_SERVERS_KEY :: string where "DENIED_MCP_SERVERS_KEY = ''deniedMcpServers''"

definition mcp_entry :: "json \<Rightarrow> AllowedMcpServer option" where
  "mcp_entry entry =
     (case Option.bind (json_get ''serverUrl'' entry) json_as_str of
        Some url \<Rightarrow> Some (HttpEntry url)
      | None \<Rightarrow>
          (case Option.bind (json_get ''command'' entry) json_as_str of
             Some cmd \<Rightarrow> Some (StdioEntry cmd)
           | None \<Rightarrow> map_option NameEntry (Option.bind (json_get ''serverName'' entry) json_as_str)))"

definition parse_mcp_entries :: "json \<Rightarrow> string \<Rightarrow> AllowedMcpServer list" where
  "parse_mcp_entries json key =
     (case Option.bind (json_get key json) json_as_array of
        Some arr \<Rightarrow> List.map_filter mcp_entry arr
      | None \<Rightarrow> [])"

text \<open>The entries by their kind, in order.\<close>

fun split_mcp_entries :: "AllowedMcpServer list \<Rightarrow> string list \<times> string list \<times> string list" where
  "split_mcp_entries [] = ([], [], [])"
| "split_mcp_entries (entry # entries) =
     (let (urls, commands, names) = split_mcp_entries entries
      in case entry of
           HttpEntry url \<Rightarrow> (url # urls, commands, names)
         | StdioEntry cmd \<Rightarrow> (urls, cmd # commands, names)
         | NameEntry name \<Rightarrow> (urls, commands, name # names))"

record McpServerAllowlist =
  mcp_entries :: "AllowedMcpServer list"
  mcp_deny_entries :: "AllowedMcpServer list"
  url_patterns :: "string list"
  mcp_commands :: "string list"
  mcp_names :: "string list"
  deny_url_patterns :: "string list"
  deny_commands :: "string list"
  deny_names :: "string list"

definition mcp_allowlist_new :: "AllowedMcpServer list \<Rightarrow> AllowedMcpServer list \<Rightarrow> McpServerAllowlist" where
  "mcp_allowlist_new entries denied =
     (let (urls, commands, names) = split_mcp_entries entries;
          (deny_urls, deny_cmds, deny_nms) = split_mcp_entries denied
      in \<lparr>mcp_entries = entries, mcp_deny_entries = denied, url_patterns = urls, mcp_commands = commands, mcp_names = names,
          deny_url_patterns = deny_urls, deny_commands = deny_cmds, deny_names = deny_nms\<rparr>)"

definition mcp_is_restricted :: "McpServerAllowlist \<Rightarrow> bool" where
  "mcp_is_restricted al \<longleftrightarrow> mcp_entries al \<noteq> [] \<or> mcp_deny_entries al \<noteq> []"

section \<open>Names\<close>

definition MANAGED_MCP_PREFIX :: string where "MANAGED_MCP_PREFIX = ''grok_com_''"
definition MANAGED_MCP_NAME_MAX_CHARS :: nat where "MANAGED_MCP_NAME_MAX_CHARS = 39"

definition normalize_managed_name :: "string \<Rightarrow> string" where
  "normalize_managed_name bare = replace_char (CHR '' '') (CHR ''_'') (to_lowercase bare)"

definition mcp_name_key :: "string \<Rightarrow> string" where
  "mcp_name_key s =
     (let bare = (case strip_prefix s MANAGED_MCP_PREFIX of Some t \<Rightarrow> t | None \<Rightarrow> s);
          normalized = normalize_managed_name bare;
          max_bare = MANAGED_MCP_NAME_MAX_CHARS - length MANAGED_MCP_PREFIX
      in if max_bare < length (char_starts normalized) then take (char_starts normalized ! max_bare) normalized
         else normalized)"

definition mcp_name_matches :: "string \<Rightarrow> string \<Rightarrow> bool" where
  "mcp_name_matches pattern name \<longleftrightarrow> mcp_name_key pattern \<noteq> [] \<and> mcp_name_key pattern = mcp_name_key name"

section \<open>URLs\<close>

type_synonym glob_lib = "string \<Rightarrow> (string \<Rightarrow> bool) option"

definition glob_match :: "glob_lib \<Rightarrow> string \<Rightarrow> string \<Rightarrow> bool" where
  "glob_match glob pat s = (case glob pat of Some matches \<Rightarrow> matches s | None \<Rightarrow> False)"

definition strip_url_query :: "string \<Rightarrow> string" where
  "strip_url_query url = hd (split_pred (\<lambda>c. c = CHR ''?'') (hd (split_pred (\<lambda>c. c = CHR ''#'') url)))"

definition url_glob_matches :: "glob_lib \<Rightarrow> string \<Rightarrow> string \<Rightarrow> bool" where
  "url_glob_matches glob pattern url = glob_match glob pattern (strip_url_query url)"

definition split_authority :: "string \<Rightarrow> string \<times> string" where
  "split_authority after_scheme =
     (case find_idx (\<lambda>c. c = CHR ''/'') after_scheme of
        Some i \<Rightarrow> (take i after_scheme, drop i after_scheme)
      | None \<Rightarrow> (after_scheme, []))"

definition split_host_path :: "string \<Rightarrow> string option \<times> string" where
  "split_host_path s =
     (let after_scheme = (case split_once_str ''://'' s of Some (_, rest) \<Rightarrow> rest | None \<Rightarrow> s);
          (authority, path) = split_authority after_scheme;
          authority = last (split_pred (\<lambda>c. c = CHR ''@'') authority);
          host = hd (split_pred (\<lambda>c. c = CHR '':'') authority);
          host = to_lowercase (trim_end_pred (\<lambda>c. c = CHR ''.'') host)
      in if host = [] then (None, path) else (Some host, path))"

definition url_deny_matches :: "glob_lib \<Rightarrow> string \<Rightarrow> string \<Rightarrow> bool" where
  "url_deny_matches glob pattern url =
     (case (split_host_path pattern, split_host_path (strip_url_query url)) of
        ((Some pat_host, pat_path), (Some url_host, url_path)) \<Rightarrow>
          (if \<not> glob_match glob pat_host url_host then False
           else if pat_path = [] then True
           else glob_match glob pat_path (if url_path = [] then ''/'' else url_path))
      | _ \<Rightarrow> False)"

section \<open>Servers\<close>

datatype McpServer =
    HttpServer string string
  | SseServer string string
  | StdioServer string string
  | OtherServer

fun mcp_server_name :: "McpServer \<Rightarrow> string" where
  "mcp_server_name (HttpServer name url) = name"
| "mcp_server_name (SseServer name url) = name"
| "mcp_server_name (StdioServer name command) = name"
| "mcp_server_name OtherServer = []"

definition is_server_denied :: "glob_lib \<Rightarrow> McpServerAllowlist \<Rightarrow> McpServer \<Rightarrow> bool" where
  "is_server_denied glob al server =
     (if list_ex (\<lambda>pat. mcp_name_matches pat (mcp_server_name server)) (deny_names al) then True
      else case server of
             HttpServer _ url \<Rightarrow> list_ex (\<lambda>pat. url_deny_matches glob pat url) (deny_url_patterns al)
           | SseServer _ url \<Rightarrow> list_ex (\<lambda>pat. url_deny_matches glob pat url) (deny_url_patterns al)
           | StdioServer _ command \<Rightarrow> command \<in> set (deny_commands al)
           | OtherServer \<Rightarrow> False)"

text \<open>The two flags \<open>restricted\<close> and \<open>matched\<close> for the transport of the server.\<close>

definition transport_match :: "glob_lib \<Rightarrow> McpServerAllowlist \<Rightarrow> McpServer \<Rightarrow> bool \<times> bool" where
  "transport_match glob al server =
     (case server of
        HttpServer _ url \<Rightarrow> (url_patterns al \<noteq> [], list_ex (\<lambda>pat. url_glob_matches glob pat url) (url_patterns al))
      | SseServer _ url \<Rightarrow> (url_patterns al \<noteq> [], list_ex (\<lambda>pat. url_glob_matches glob pat url) (url_patterns al))
      | StdioServer _ command \<Rightarrow> (mcp_commands al \<noteq> [], command \<in> set (mcp_commands al))
      | OtherServer \<Rightarrow> (False, False))"

definition is_server_allowed :: "glob_lib \<Rightarrow> McpServerAllowlist \<Rightarrow> McpServer \<Rightarrow> bool" where
  "is_server_allowed glob al server =
     (if \<not> mcp_is_restricted al then True
      else if is_server_denied glob al server then False
      else
        (let name_matched = list_ex (\<lambda>pat. mcp_name_matches pat (mcp_server_name server)) (mcp_names al);
             (by_transport, transport_matched) = transport_match glob al server;
             restricted = (mcp_names al \<noteq> [] \<or> by_transport)
         in \<not> restricted \<or> name_matched \<or> transport_matched))"

section \<open>Sources of plug-ins\<close>

function strip_git_suffix :: "string \<Rightarrow> string" where
  "strip_git_suffix s = (if ends_with s ''.git'' then strip_git_suffix (take (length s - 4) s) else s)"
  by pat_completeness auto
termination by (relation "measure length") (auto simp: ends_with_iff dest: suffix_length_le)

declare strip_git_suffix.simps [simp del]

definition normalize_git_url :: "string \<Rightarrow> string" where
  "normalize_git_url url = strip_git_suffix (to_lowercase url)"

definition is_url_allowed :: "string list \<Rightarrow> string \<Rightarrow> bool" where
  "is_url_allowed allowed_urls url \<longleftrightarrow>
     allowed_urls = [] \<or> list_ex (\<lambda>allowed. normalize_git_url allowed = normalize_git_url url) allowed_urls"

definition marketplace_url :: "json \<Rightarrow> string option" where
  "marketplace_url entry =
     (case Option.bind (json_get ''source'' entry) json_as_str of
        Some source \<Rightarrow> (if source \<noteq> ''git'' then None else Option.bind (json_get ''url'' entry) json_as_str)
      | None \<Rightarrow> None)"

definition marketplace_urls :: "json \<Rightarrow> string list" where
  "marketplace_urls json =
     (case Option.bind (json_get ''strictKnownMarketplaces'' json) json_as_array of
        Some arr \<Rightarrow> List.map_filter marketplace_url arr
      | None \<Rightarrow> [])"

section \<open>Which servers pass\<close>

lemma split_mcp_set:
  assumes "split_mcp_entries es = (urls, cmds, names)"
  shows "set urls = {u. HttpEntry u \<in> set es}" "set cmds = {c. StdioEntry c \<in> set es}" "set names = {n. NameEntry n \<in> set es}"
  using assms by (induction es arbitrary: urls cmds names) (auto split: prod.splits AllowedMcpServer.splits)

lemma mcp_allowlist_sets:
  "set (url_patterns (mcp_allowlist_new al dn)) = {u. HttpEntry u \<in> set al}"
  "set (mcp_commands (mcp_allowlist_new al dn)) = {c. StdioEntry c \<in> set al}"
  "set (mcp_names (mcp_allowlist_new al dn)) = {n. NameEntry n \<in> set al}"
  "set (deny_url_patterns (mcp_allowlist_new al dn)) = {u. HttpEntry u \<in> set dn}"
  "set (deny_commands (mcp_allowlist_new al dn)) = {c. StdioEntry c \<in> set dn}"
  "set (deny_names (mcp_allowlist_new al dn)) = {n. NameEntry n \<in> set dn}"
  using split_mcp_set [of al] split_mcp_set [of dn] by (auto simp: mcp_allowlist_new_def split: prod.split)

text \<open>Whether one entry speaks of a server, as a permission and as a refusal.\<close>

definition entry_permits :: "glob_lib \<Rightarrow> McpServer \<Rightarrow> AllowedMcpServer \<Rightarrow> bool" where
  "entry_permits glob server e =
     (case (e, server) of
        (NameEntry n, _) \<Rightarrow> mcp_name_matches n (mcp_server_name server)
      | (HttpEntry p, HttpServer _ url) \<Rightarrow> url_glob_matches glob p url
      | (HttpEntry p, SseServer _ url) \<Rightarrow> url_glob_matches glob p url
      | (StdioEntry c, StdioServer _ command) \<Rightarrow> command = c
      | _ \<Rightarrow> False)"

definition entry_refuses :: "glob_lib \<Rightarrow> McpServer \<Rightarrow> AllowedMcpServer \<Rightarrow> bool" where
  "entry_refuses glob server e =
     (case (e, server) of
        (NameEntry n, _) \<Rightarrow> mcp_name_matches n (mcp_server_name server)
      | (HttpEntry p, HttpServer _ url) \<Rightarrow> url_deny_matches glob p url
      | (HttpEntry p, SseServer _ url) \<Rightarrow> url_deny_matches glob p url
      | (StdioEntry c, StdioServer _ command) \<Rightarrow> command = c
      | _ \<Rightarrow> False)"

text \<open>Whether an entry could speak of the server: names always, the others by their transport.\<close>

definition entry_concerns :: "McpServer \<Rightarrow> AllowedMcpServer \<Rightarrow> bool" where
  "entry_concerns server e =
     (case (e, server) of
        (NameEntry n, _) \<Rightarrow> True
      | (HttpEntry p, HttpServer _ url) \<Rightarrow> True
      | (HttpEntry p, SseServer _ url) \<Rightarrow> True
      | (StdioEntry c, StdioServer _ command) \<Rightarrow> True
      | _ \<Rightarrow> False)"

lemma list_ex_entries:
  "list_ex P es \<longleftrightarrow> (\<exists>u. HttpEntry u \<in> set es \<and> P (HttpEntry u)) \<or> (\<exists>c. StdioEntry c \<in> set es \<and> P (StdioEntry c))
     \<or> (\<exists>n. NameEntry n \<in> set es \<and> P (NameEntry n))"
  unfolding list_ex_iff by (metis AllowedMcpServer.exhaust)

lemma list_ex_by_set: "list_ex P xs \<longleftrightarrow> (\<exists>x. x \<in> set xs \<and> P x)"
  by (auto simp: list_ex_iff)

lemma nonempty_by_set: "xs \<noteq> [] \<longleftrightarrow> (\<exists>x. x \<in> set xs)"
  by (cases xs) auto

lemma denied_by_entries:
  "is_server_denied glob (mcp_allowlist_new al dn) server \<longleftrightarrow> list_ex (entry_refuses glob server) dn"
  by (cases server)
    (auto simp: is_server_denied_def list_ex_entries entry_refuses_def mcp_allowlist_sets list_ex_by_set [where 'a = string])

lemma restricted_by_entries: "mcp_is_restricted (mcp_allowlist_new al dn) \<longleftrightarrow> al \<noteq> [] \<or> dn \<noteq> []"
  by (simp add: mcp_is_restricted_def mcp_allowlist_new_def split: prod.split)

text \<open>
  A server may run exactly when no entry of the deny list refuses it and, if the allow list has an
  entry that concerns its transport or its name, one of these permits it. Deny wins, and a
  policy that only denies lets every other server run.
\<close>

theorem server_allowed_iff:
  "is_server_allowed glob (mcp_allowlist_new al dn) server \<longleftrightarrow>
     \<not> list_ex (entry_refuses glob server) dn
     \<and> (if list_ex (entry_concerns server) al then list_ex (entry_permits glob server) al else True)"
proof -
  have "list_ex (entry_concerns server) al \<longleftrightarrow>
      mcp_names (mcp_allowlist_new al dn) \<noteq> [] \<or> fst (transport_match glob (mcp_allowlist_new al dn) server)"
    by (cases server)
      (auto simp: list_ex_entries entry_concerns_def transport_match_def mcp_allowlist_sets nonempty_by_set [where 'a = string])
  moreover have "list_ex (entry_permits glob server) al \<longleftrightarrow>
      list_ex (\<lambda>pat. mcp_name_matches pat (mcp_server_name server)) (mcp_names (mcp_allowlist_new al dn))
      \<or> snd (transport_match glob (mcp_allowlist_new al dn) server)"
    by (cases server)
      (auto simp: list_ex_entries entry_permits_def transport_match_def mcp_allowlist_sets list_ex_by_set [where 'a = string])
  ultimately show ?thesis
    by (auto simp: is_server_allowed_def denied_by_entries restricted_by_entries split: prod.split)
qed

section \<open>Denied hosts\<close>

text \<open>
  The URLs of a host: any scheme, user information, trailing dots, port, path, query and fragment, in
  any letter case.
\<close>

definition no_delims :: "string \<Rightarrow> bool" where
  "no_delims s \<longleftrightarrow> list_all (\<lambda>c. c \<noteq> CHR ''/'' \<and> c \<noteq> CHR ''?'' \<and> c \<noteq> CHR ''#'') s"

definition host_text :: "string \<Rightarrow> bool" where
  "host_text h \<longleftrightarrow> h \<noteq> [] \<and> last h \<noteq> CHR ''.'' \<and> no_delims h \<and> CHR ''@'' \<notin> set h \<and> CHR '':'' \<notin> set h"

inductive url_on :: "string \<Rightarrow> string \<Rightarrow> bool" where
  url: "host_text h \<Longrightarrow> no_delims scheme \<Longrightarrow> CHR '':'' \<notin> set scheme \<Longrightarrow> user = [] \<or> no_delims user \<and> (\<exists>u. user = u @ ''@'')
    \<Longrightarrow> port = [] \<or> hd port = CHR '':'' \<and> no_delims port \<and> CHR ''@'' \<notin> set port
    \<Longrightarrow> path = [] \<or> hd path = CHR ''/'' \<and> CHR ''?'' \<notin> set path \<and> CHR ''#'' \<notin> set path
    \<Longrightarrow> tail = [] \<or> hd tail = CHR ''?'' \<or> hd tail = CHR ''#''
    \<Longrightarrow> url_on (to_lowercase h) (scheme @ ''://'' @ user @ h @ replicate n (CHR ''.'') @ port @ path @ tail)"

definition no_query :: "string \<Rightarrow> bool" where
  "no_query s \<longleftrightarrow> list_all (\<lambda>c. c \<noteq> CHR ''?'' \<and> c \<noteq> CHR ''#'') s"

lemma no_query_simps [simp]: "no_query []" "no_query (c # s) \<longleftrightarrow> c \<noteq> CHR ''?'' \<and> c \<noteq> CHR ''#'' \<and> no_query s"
  "no_query (a @ b) \<longleftrightarrow> no_query a \<and> no_query b" "no_query (replicate n (CHR ''.''))"
  by (auto simp: no_query_def list_all_iff)

lemma no_delims_simps [simp]:
  "no_delims []" "no_delims (a @ b) \<longleftrightarrow> no_delims a \<and> no_delims b" "no_delims (replicate n (CHR ''.''))"
  by (auto simp: no_delims_def list_all_iff)

lemma hd_split_pred: "hd (split_pred P s) = takeWhile (\<lambda>c. \<not> P c) s"
  by (induction s) (auto split: list.split)

lemma strip_query_tail:
  assumes "list_all (\<lambda>c. c \<noteq> CHR ''?'' \<and> c \<noteq> CHR ''#'') s" "tail = [] \<or> hd tail = CHR ''?'' \<or> hd tail = CHR ''#''"
  shows "strip_url_query (s @ tail) = s"
proof (cases tail)
  case Nil
  with assms(1) have "takeWhile (\<lambda>c. c \<noteq> CHR ''#'') s = s" "takeWhile (\<lambda>c. c \<noteq> CHR ''?'') s = s"
    by (auto intro: takeWhile_eq_all_conv [THEN iffD2] simp: list_all_iff)
  with Nil show ?thesis by (simp only: strip_url_query_def hd_split_pred append_Nil2)
next
  case (Cons c t)
  have "takeWhile (\<lambda>c. c \<noteq> CHR ''#'') (s @ tail) = s @ takeWhile (\<lambda>c. c \<noteq> CHR ''#'') tail"
    using assms(1) by (subst takeWhile_append2) (auto simp: list_all_iff)
  moreover have "takeWhile (\<lambda>c. c \<noteq> CHR ''?'') (s @ takeWhile (\<lambda>c. c \<noteq> CHR ''#'') tail) = s"
    using assms Cons by (subst takeWhile_append2) (auto simp: list_all_iff)
  ultimately show ?thesis by (simp add: strip_url_query_def hd_split_pred)
qed

lemma split_authority_append:
  assumes "no_delims a" "path = [] \<or> hd path = CHR ''/''"
  shows "split_authority (a @ path) = (a, path)"
proof (cases path)
  case Nil
  then have "find_idx (\<lambda>c. c = CHR ''/'') (a @ path) = None"
    using assms(1) by (auto simp: find_idx_None no_delims_def list_all_iff)
  with Nil show ?thesis by (simp add: split_authority_def)
next
  case (Cons c p)
  then have "find_idx (\<lambda>c. c = CHR ''/'') (a @ path) = Some (length a)"
    using assms by (auto simp: find_idx_Some nth_append no_delims_def list_all_iff)
  then show ?thesis by (simp add: split_authority_def)
qed

lemma last_split_at: "CHR ''@'' \<notin> set t \<Longrightarrow> user = [] \<or> (\<exists>u. user = u @ ''@'') \<Longrightarrow> last (split_pred (\<lambda>c. c = CHR ''@'') (user @ t)) = t"
proof -
  assume t: "CHR ''@'' \<notin> set t" and user: "user = [] \<or> (\<exists>u. user = u @ ''@'')"
  have "list_all (\<lambda>c. c \<noteq> CHR ''@'') t" using t by (induction t) auto
  then have "split_pred (\<lambda>c. c = CHR ''@'') t = [t]" by (rule split_pred_id)
  with user show ?thesis using split_pred_append [of "\<lambda>c. c = CHR ''@''" "CHR ''@''" _ t] by auto
qed

lemma host_of_authority:
  assumes "host_text h" "port = [] \<or> hd port = CHR '':''"
  shows "trim_end_pred (\<lambda>c. c = CHR ''.'') (hd (split_pred (\<lambda>c. c = CHR '':'') (h @ replicate n (CHR ''.'') @ port))) = h"
proof -
  let ?d = "replicate n (CHR ''.'')"
  have "takeWhile (\<lambda>c. c \<noteq> CHR '':'') port = []" using assms(2) by (cases port) auto
  moreover have "takeWhile (\<lambda>c. c \<noteq> CHR '':'') ((h @ ?d) @ port) = (h @ ?d) @ takeWhile (\<lambda>c. c \<noteq> CHR '':'') port"
    using assms(1) by (intro takeWhile_append2) (auto simp: host_text_def)
  ultimately have "hd (split_pred (\<lambda>c. c = CHR '':'') (h @ ?d @ port)) = h @ ?d" by (simp add: hd_split_pred)
  moreover have "dropWhile (\<lambda>c. c = CHR ''.'') (rev h) = rev h"
    using assms(1) by (intro dropWhile_hd) (simp add: host_text_def hd_rev)
  then have "dropWhile (\<lambda>c. c = CHR ''.'') (?d @ rev h) = rev h" by (induction n) auto
  ultimately show ?thesis by (simp add: trim_end_pred_def)
qed

lemma split_host_of:
  assumes "host_text h" "user = [] \<or> no_delims user \<and> (\<exists>u. user = u @ ''@'')"
    and "port = [] \<or> hd port = CHR '':'' \<and> no_delims port \<and> CHR ''@'' \<notin> set port" "path = [] \<or> hd path = CHR ''/''"
    and "s = user @ h @ replicate n (CHR ''.'') @ port @ path \<and> split_once_str ''://'' s = None
      \<or> (\<exists>scheme. CHR '':'' \<notin> set scheme \<and> s = scheme @ ''://'' @ user @ h @ replicate n (CHR ''.'') @ port @ path)"
  shows "split_host_path s = (Some (to_lowercase h), path)"
proof -
  let ?a = "h @ replicate n (CHR ''.'') @ port"
  have "(case split_once_str ''://'' s of Some (_, rest) \<Rightarrow> rest | None \<Rightarrow> s) = (user @ ?a) @ path"
    using assms(5)
  proof (elim disjE exE conjE)
    fix scheme assume scheme: "CHR '':'' \<notin> set scheme" "s = scheme @ ''://'' @ user @ h @ replicate n (CHR ''.'') @ port @ path"
    have "split_once_str ''://'' s = Some (scheme, user @ h @ replicate n (CHR ''.'') @ port @ path)"
      unfolding scheme(2) by (rule split_once_str_first) (simp_all add: scheme(1))
    then show ?thesis by simp
  qed simp
  moreover have "no_delims (user @ ?a)" using assms(1-3) by (auto simp: host_text_def)
  then have "split_authority ((user @ ?a) @ path) = (user @ ?a, path)" using assms(4) by (rule split_authority_append)
  moreover have "last (split_pred (\<lambda>c. c = CHR ''@'') (user @ ?a)) = ?a"
    using assms(1-3) by (intro last_split_at) (auto simp: host_text_def)
  moreover have "trim_end_pred (\<lambda>c. c = CHR ''.'') (hd (split_pred (\<lambda>c. c = CHR '':'') ?a)) = h"
    using assms(1,3) by (intro host_of_authority) auto
  moreover have "to_lowercase h \<noteq> []" using assms(1) by (cases h) (auto simp: host_text_def)
  ultimately show ?thesis by (simp add: split_host_path_def)
qed

lemma url_host_split: "url_on host url \<Longrightarrow> \<exists>path. split_host_path (strip_url_query url) = (Some host, path) \<and> (path = [] \<or> hd path = CHR ''/'')"
proof (induction rule: url_on.induct)
  case (url h scheme user port path tail n)
  let ?s = "scheme @ ''://'' @ user @ h @ replicate n (CHR ''.'') @ port @ path"
  have "no_query t" if "no_delims t" for t using that by (auto simp: no_query_def no_delims_def list_all_iff)
  moreover have "no_query path" using url(6) by (auto simp: no_query_def list_all_iff)
  ultimately have "no_query ?s" using url(1-5) by (auto simp: host_text_def)
  then have "strip_url_query (?s @ tail) = ?s" using url(7) unfolding no_query_def by (rule strip_query_tail)
  moreover have "split_host_path ?s = (Some (to_lowercase h), path)"
    using url by (intro split_host_of [of h user port path _ n]) blast+
  ultimately show ?case using url(6) by auto
qed

text \<open>The two ways to write that a host is denied: by its name alone, or with a scheme and any path.\<close>

definition denies_host :: "string \<Rightarrow> string \<Rightarrow> bool" where
  "denies_host h pattern \<longleftrightarrow>
     host_text h \<and> (pattern = h \<or> (\<exists>scheme. CHR '':'' \<notin> set scheme \<and> pattern = scheme @ ''://'' @ h @ ''/*''))"

lemma no_scheme: "CHR '':'' \<notin> set s \<Longrightarrow> split_once_str ''://'' s = None"
proof (induction s)
  case (Cons c s)
  then have "\<not> starts_with (c # s) ''://''" by simp
  with Cons show ?case by (simp add: strip_prefix_None [THEN iffD2])
qed simp

lemma denies_host_split:
  assumes "denies_host h pattern"
  shows "split_host_path pattern = (Some (to_lowercase h), []) \<or> split_host_path pattern = (Some (to_lowercase h), ''/*'')"
proof -
  have h: "host_text h" using assms by (simp add: denies_host_def)
  have "pattern = h \<or> (\<exists>scheme. CHR '':'' \<notin> set scheme \<and> pattern = scheme @ ''://'' @ h @ ''/*'')"
    using assms by (simp add: denies_host_def)
  then show ?thesis
  proof (elim disjE exE conjE)
    assume "pattern = h"
    then show ?thesis using h no_scheme [of h] by (intro disjI1 split_host_of [of h "[]" "[]" "[]" _ 0]) (auto simp: host_text_def)
  next
    fix scheme assume "CHR '':'' \<notin> set scheme" "pattern = scheme @ ''://'' @ h @ ''/*''"
    then have "split_host_path pattern = (Some (to_lowercase h), ''/*'')"
      using h by (intro split_host_of [of h "[]" "[]" "''/*''" _ 0]) auto
    then show ?thesis by simp
  qed
qed

text \<open>
  C11. Denying a host blocks it however it is written: given that a glob without wildcards matches itself
  and that \<^verbatim>\<open>/*\<close> matches every path, a denied host blocks every HTTP and SSE server on it, on any
  scheme and port, with any user information, trailing dots, path, query and fragment and in any
  letter case, whatever the allow list says.
\<close>

theorem denied_host_blocked:
  assumes "HttpEntry pattern \<in> set dn" "denies_host h pattern"
    and "glob (to_lowercase h) = Some host_glob" "host_glob (to_lowercase h)"
    and "glob ''/*'' = Some path_glob" "\<And>p. starts_with p ''/'' \<Longrightarrow> path_glob p"
    and "url_on (to_lowercase h) url"
  shows "\<not> is_server_allowed glob (mcp_allowlist_new al dn) (HttpServer name url)
    \<and> \<not> is_server_allowed glob (mcp_allowlist_new al dn) (SseServer name url)"
proof -
  obtain path where path: "split_host_path (strip_url_query url) = (Some (to_lowercase h), path)" "path = [] \<or> hd path = CHR ''/''"
    using url_host_split [OF assms(7)] by blast
  have host: "glob_match glob (to_lowercase h) (to_lowercase h)" using assms(3,4) by (simp add: glob_match_def)
  have any: "glob_match glob ''/*'' (if path = [] then ''/'' else path)"
    using path(2) assms(5,6) by (cases path) (auto simp: glob_match_def)
  have "url_deny_matches glob pattern url"
    using denies_host_split [OF assms(2)] path(1) host any by (auto simp: url_deny_matches_def)
  then have "is_server_denied glob (mcp_allowlist_new al dn) server" if "server \<in> {HttpServer name url, SseServer name url}" for server
    using that assms(1) unfolding denied_by_entries list_ex_iff
    by (intro bexI [of _ "HttpEntry pattern"]) (auto simp: entry_refuses_def)
  then show ?thesis using assms(1) by (auto simp: is_server_allowed_def restricted_by_entries)
qed

text \<open>A glob without wildcards matches itself; the one for any path is the only other one here.\<close>

definition demo_glob :: glob_lib where
  "demo_glob pat = (if pat = ''['' then None else if pat = ''/*'' then Some (\<lambda>s. starts_with s ''/'') else Some (\<lambda>s. s = pat))"

theorem denied_host_blocked_witness:
  "\<not> is_server_allowed demo_glob (mcp_allowlist_new [NameEntry ''x''] [HttpEntry ''https://evil.com/*''])
       (HttpServer ''x'' ''http://a@EVIL.com.:8080?q'')"
proof -
  have h: "host_text ''evil.com''" "host_text ''EVIL.com''" by code_simp+
  have "denies_host ''evil.com'' ''https://evil.com/*''"
    using h(1) unfolding denies_host_def by (intro conjI disjI2 exI [of _ "''https''"]) simp_all
  moreover have "url_on (to_lowercase ''EVIL.com'')
      (''http'' @ ''://'' @ ''a@'' @ ''EVIL.com'' @ replicate 1 (CHR ''.'') @ '':8080'' @ [] @ ''?q'')"
    using h(2) by (intro url) (simp_all add: no_delims_def)
  moreover have "to_lowercase ''EVIL.com'' = to_lowercase ''evil.com''" by code_simp
  ultimately have "url_on (to_lowercase ''evil.com'') ''http://a@EVIL.com.:8080?q''" and "denies_host ''evil.com'' ''https://evil.com/*''"
    by simp_all
  moreover have "demo_glob (to_lowercase ''evil.com'') = Some (\<lambda>s. s = to_lowercase ''evil.com'')" by (simp add: demo_glob_def)
  moreover have "demo_glob ''/*'' = Some (\<lambda>s. starts_with s ''/'')" by (simp add: demo_glob_def)
  ultimately show ?thesis
    using denied_host_blocked [of "''https://evil.com/*''" "[HttpEntry ''https://evil.com/*'']" "''evil.com''" demo_glob] by auto
qed

text \<open>
  Addresses in brackets are not told apart: the host of every such URL is the opening bracket, which no
  glob library compiles, so that a deny entry for one never applies.
\<close>

lemma bracket_hosts:
  assumes "glob ''['' = None" "url_deny_matches glob ''http://[::1]/*'' url"
  shows False
proof -
  have "split_host_path ''http://[::1]/*'' = (Some ''['', ''/*'')" by code_simp
  with assms show False by (auto simp: url_deny_matches_def glob_match_def split: option.splits prod.splits)
qed

end
