(* ===== verification/Perm_Resolve.thy ===== *)
theory Perm_Resolve
  imports Mcp_Policy Perm_Manager
begin

text \<open>
  From the settings files to the rules of the permission manager
  (\<^verbatim>\<open>xai-grok-workspace/src/permission/resolution.rs\<close>): the layers and their provenance, default modes, the pin
  of always-approve and the catch-all rules it drops, and what this means for a request. The values
  that were loaded from the files are data; the verbose form of TOML rules, whose reader is derived
  by \<^verbatim>\<open>serde\<close>, is a function.
\<close>

section \<open>Sources\<close>

datatype RequirementSource =
    UnknownSource
  | Requirements path
  | SystemRequirements path
  | ManagedSettingsFile path
  | ManagedConfigFile path
  | ConfigFile path
  | SettingsFile path

record Sourced =
  sourced_rule :: PermissionRule
  sourced_from :: RequirementSource

record SkippedPermission =
  skipped_rule :: string
  skipped_reason :: string

record RequirementsLayer =
  layer_value :: toml
  layer_path :: path
  is_system :: bool

text \<open>What is found on the machine besides the settings of vendors.\<close>

record world =
  world_machine :: machine
  git_workdir :: "path \<Rightarrow> path option"
  load_config_file :: "path \<Rightarrow> toml option"
  verbose_rules :: "toml \<Rightarrow> PermissionRule list res"
  requirements_layers :: "RequirementsLayer list"
  managed_config_layers :: "(toml \<times> path) list"
  claude_managed_settings_path :: "path option"

section \<open>Default modes\<close>

datatype UserDefaultModeLoad = ApplyMode | SkipManagedOwns

definition allow_all_of :: "ToolFilter \<Rightarrow> PermissionRule" where
  "allow_all_of tool = \<lparr>rule_action = AllowRule, rule_tool = tool, rule_pattern = None, rule_pattern_mode = GlobMode\<rparr>"

definition synthetic_rules_for_default_mode :: "DefaultPermissionMode \<Rightarrow> string option
    \<Rightarrow> PermissionRule list \<times> SkippedPermission list \<times> bool" where
  "synthetic_rules_for_default_mode mode policy_block =
     (let effects = mode_effects mode
      in if bypass_permissions effects then
           (case policy_block of
              Some reason \<Rightarrow>
                ([], [\<lparr>skipped_rule = ''defaultMode=bypassPermissions'', skipped_reason = reason\<rparr>], True)
            | None \<Rightarrow> ([allow_all_of AnyTool], [], False))
         else if accept_edits effects then ([allow_all_of EditTool], [], False)
         else ([], [], False))"

definition parse_default_mode_claiming_scope :: "string \<Rightarrow> DefaultPermissionMode \<times> SkippedPermission list" where
  "parse_default_mode_claiming_scope raw =
     (case default_mode_from_str raw of
        Inr mode \<Rightarrow> (mode, [])
      | Inl invalid \<Rightarrow>
          (DefaultMode, [\<lparr>skipped_rule = ''defaultMode='' @ invalid, skipped_reason = ''unrecognized value; treated as default''\<rparr>]))"

section \<open>Rules in TOML\<close>

definition compact_rule :: "RuleAction \<Rightarrow> toml \<Rightarrow> PermissionRule option" where
  "compact_rule action item =
     (case toml_as_str item of
        Some s \<Rightarrow> (case parse_permission_rule s action of Inr rule \<Rightarrow> Some rule | Inl _ \<Rightarrow> None)
      | None \<Rightarrow> None)"

fun toml_as_array :: "toml \<Rightarrow> toml list option" where
  "toml_as_array (TArray xs) = Some xs"
| "toml_as_array _ = None"

definition compact_list :: "toml \<Rightarrow> string \<Rightarrow> toml list option" where
  "compact_list permission_value key = Option.bind (toml_get key permission_value) toml_as_array"

definition rule_keys :: "(RuleAction \<times> string) list" where
  "rule_keys = [(DenyRule, ''deny''), (AllowRule, ''allow''), (AskRule, ''ask'')]"

definition parse_toml_permission_section :: "(toml \<Rightarrow> PermissionRule list res) \<Rightarrow> toml \<Rightarrow> PermissionRule list res" where
  "parse_toml_permission_section verbose permission_value =
     (if list_ex (\<lambda>(action, key). compact_list permission_value key \<noteq> None) rule_keys
      then Inr (concat (map (\<lambda>(action, key).
             case compact_list permission_value key of
               Some arr \<Rightarrow> List.map_filter (compact_rule action) arr
             | None \<Rightarrow> []) rule_keys))
      else verbose permission_value)"

definition extract_toml_permissions :: "(toml \<Rightarrow> PermissionRule list res) \<Rightarrow> toml \<Rightarrow> RequirementSource \<Rightarrow> Sourced list" where
  "extract_toml_permissions verbose config source =
     (case toml_get ''permission'' config of
        None \<Rightarrow> []
      | Some permission_value \<Rightarrow>
          (case parse_toml_permission_section verbose permission_value of
             Inr rs \<Rightarrow> map (\<lambda>rule. \<lparr>sourced_rule = rule, sourced_from = source\<rparr>) rs
           | Inl _ \<Rightarrow> []))"

definition layer_source :: "RequirementsLayer \<Rightarrow> RequirementSource" where
  "layer_source layer =
     (if is_system layer then SystemRequirements (layer_path layer) else Requirements (layer_path layer))"

definition load_requirements_permissions :: "world \<Rightarrow> Sourced list" where
  "load_requirements_permissions w =
     concat (map (\<lambda>layer. extract_toml_permissions (verbose_rules w) (layer_value layer) (layer_source layer)) (requirements_layers w))"

definition find_project_grok_configs :: "world \<Rightarrow> path \<Rightarrow> path list" where
  "find_project_grok_configs w cwd =
     (let config_of = (\<lambda>dir. in_dir (in_dir dir ''.grok'') ''config.toml''); there = path_is_file (world_machine w)
      in case git_workdir w cwd of
           Some root \<Rightarrow> rev (filter there (map config_of (dirs_up_to root cwd)))
         | None \<Rightarrow> filter there [config_of cwd])"

definition config_rules_of :: "world \<Rightarrow> path \<Rightarrow> Sourced list" where
  "config_rules_of w p =
     (case load_config_file w p of
        Some value \<Rightarrow> extract_toml_permissions (verbose_rules w) value (ConfigFile p)
      | None \<Rightarrow> [])"

definition load_config_toml_permissions :: "world \<Rightarrow> path \<Rightarrow> Sourced list" where
  "load_config_toml_permissions w cwd =
     (case user_grok_home (world_machine w) of
        Some g \<Rightarrow>
          (let global_path = in_dir g ''config.toml''
           in if path_is_file (world_machine w) global_path then config_rules_of w global_path else [])
      | None \<Rightarrow> []) @
     concat (map (config_rules_of w) (find_project_grok_configs w cwd))"

definition managed_config_permissions :: "world \<Rightarrow> Sourced list" where
  "managed_config_permissions w =
     concat (map (\<lambda>(value, p). extract_toml_permissions (verbose_rules w) value (ManagedConfigFile p)) (managed_config_layers w))"

section \<open>Managed settings\<close>

record ManagedSettingsFeatures =
  disable_telemetry :: "bool option"
  disable_feedback :: "bool option"
  disable_yolo :: "bool option"
  managed_source_path :: "path option"

record ManagedSettings =
  managed_features :: ManagedSettingsFeatures
  managed_permissions :: "Sourced list"
  managed_default_mode :: "DefaultPermissionMode option"
  managed_mcp_allowlist :: McpServerAllowlist
  managed_marketplaces :: "string list"

definition json_env_flag :: "json option \<Rightarrow> string \<Rightarrow> bool option" where
  "json_env_flag env key =
     (case Option.bind env (json_get key) of
        Some (JNumber n) \<Rightarrow> Some ((case parse_signed 64 n of Some k \<Rightarrow> k | None \<Rightarrow> 0) \<noteq> 0)
      | Some (JBool b) \<Rightarrow> Some b
      | Some (JString s) \<Rightarrow> Some (s \<notin> set [''0'', [], ''false''])
      | _ \<Rightarrow> None)"

definition parse_disable_bypass_permissions :: "json \<Rightarrow> bool option" where
  "parse_disable_bypass_permissions json =
     map_option (\<lambda>val. json_as_str val = Some ''disable'')
       (Option.bind (json_get ''permissions'' json) (json_get ''disableBypassPermissionsMode''))"

text \<open>
  The derived reader of \<^verbatim>\<open>ParsedPermissions\<close>: a missing list is empty, a list with anything but strings
  is an error, and the three lists may also come as an array in the order of the fields.
\<close>

fun all_strings :: "json list \<Rightarrow> string list option" where
  "all_strings [] = Some []"
| "all_strings (v # vs) =
     (case (json_as_str v, all_strings vs) of (Some s, Some ss) \<Rightarrow> Some (s # ss) | _ \<Rightarrow> None)"

definition string_list_field :: "json option \<Rightarrow> string list option" where
  "string_list_field field =
     (case field of
        None \<Rightarrow> Some []
      | Some (JArray vs) \<Rightarrow> all_strings vs
      | Some _ \<Rightarrow> None)"

definition parsed_permissions_of :: "json option \<Rightarrow> json option \<Rightarrow> json option \<Rightarrow> ParsedPermissions option" where
  "parsed_permissions_of allow deny ask =
     (case (string_list_field allow, string_list_field deny, string_list_field ask) of
        (Some a, Some d, Some k) \<Rightarrow> Some \<lparr>allow_entries = a, deny_entries = d, ask_entries = k\<rparr>
      | _ \<Rightarrow> None)"

fun deserialize_permissions :: "json \<Rightarrow> ParsedPermissions option" where
  "deserialize_permissions (JObject kvs) =
     parsed_permissions_of (map_of kvs ''allow'') (map_of kvs ''deny'') (map_of kvs ''ask'')"
| "deserialize_permissions (JArray vs) =
     (let field = (\<lambda>i. if i < length vs then Some (vs ! i) else None)
      in if length vs \<le> 3 then parsed_permissions_of (field 0) (field 1) (field 2) else None)"
| "deserialize_permissions _ = None"

definition parse_managed_settings_permissions :: "json \<Rightarrow> path \<Rightarrow> Sourced list" where
  "parse_managed_settings_permissions json p =
     (case Option.bind (json_get ''permissions'' json) deserialize_permissions of
        None \<Rightarrow> []
      | Some permissions \<Rightarrow>
          map (\<lambda>rule. \<lparr>sourced_rule = rule, sourced_from = ManagedSettingsFile p\<rparr>)
            (rules (fst (into_permission_config permissions))))"

definition parse_managed_settings_json :: "json \<Rightarrow> path \<Rightarrow> ManagedSettings" where
  "parse_managed_settings_json json p =
     (let env = json_get ''env'' json
      in \<lparr>managed_features =
            \<lparr>disable_telemetry = json_env_flag env ''DISABLE_TELEMETRY'',
             disable_feedback = json_env_flag env ''DISABLE_FEEDBACK_COMMAND'',
             disable_yolo = parse_disable_bypass_permissions json,
             managed_source_path = Some p\<rparr>,
          managed_permissions = parse_managed_settings_permissions json p,
          managed_default_mode = map_option (\<lambda>raw. fst (parse_default_mode_claiming_scope raw)) (extract_default_mode json),
          managed_mcp_allowlist =
            mcp_allowlist_new (parse_mcp_entries json ALLOWED_MCP_SERVERS_KEY) (parse_mcp_entries json DENIED_MCP_SERVERS_KEY),
          managed_marketplaces = marketplace_urls json\<rparr>)"

definition no_managed_settings :: ManagedSettings where
  "no_managed_settings =
     \<lparr>managed_features = \<lparr>disable_telemetry = None, disable_feedback = None, disable_yolo = None, managed_source_path = None\<rparr>,
      managed_permissions = [], managed_default_mode = None, managed_mcp_allowlist = mcp_allowlist_new [] [],
      managed_marketplaces = []\<rparr>"

definition load_managed_settings :: "world \<Rightarrow> ManagedSettings" where
  "load_managed_settings w =
     (case claude_managed_settings_path w of
        None \<Rightarrow> no_managed_settings
      | Some p \<Rightarrow>
          (case Option.bind (read_to_string (world_machine w) p) (parse_json (world_machine w)) of
             Some json \<Rightarrow> parse_managed_settings_json json p
           | None \<Rightarrow> no_managed_settings))"

section \<open>The pin of always-approve\<close>

definition YOLO_PIN_REASON_REQUIREMENTS :: string where
  "YOLO_PIN_REASON_REQUIREMENTS =
     ''always-approve disabled by managed policy ([ui] disable_bypass_permissions_mode = true in requirements.toml)''"

definition YOLO_PIN_REASON_LEGACY_YOLO :: string where
  "YOLO_PIN_REASON_LEGACY_YOLO = ''always-approve disabled by managed policy ([ui] yolo = false in requirements.toml)''"

definition requirements_lock_bool :: "toml option \<Rightarrow> string \<Rightarrow> bool option" where
  "requirements_lock_bool ui key = Option.bind (Option.bind ui (toml_get key)) toml_as_bool"

fun resolve_yolo_policy_block :: "toml list \<Rightarrow> string option" where
  "resolve_yolo_policy_block [] = None"
| "resolve_yolo_policy_block (layer # layers) =
     (let ui = toml_get ''ui'' layer
      in if requirements_lock_bool ui ''disable_bypass_permissions_mode'' = Some True then Some YOLO_PIN_REASON_REQUIREMENTS
         else if requirements_lock_bool ui ''yolo'' = Some False then Some YOLO_PIN_REASON_LEGACY_YOLO
         else resolve_yolo_policy_block layers)"

definition yolo_disabled_by_policy :: "world \<Rightarrow> string option" where
  "yolo_disabled_by_policy w = resolve_yolo_policy_block (map layer_value (requirements_layers w))"

definition is_catchall_allow :: "'g perm_lib \<Rightarrow> PermissionRule \<Rightarrow> bool" where
  "is_catchall_allow lib rule \<longleftrightarrow>
     rule_action rule = AllowRule \<and> rule_tool rule \<notin> {ReadTool, EditTool, GrepTool} \<and> rule_is_catchall lib rule"

fun is_admin_source :: "RequirementSource \<Rightarrow> bool" where
  "is_admin_source (SystemRequirements _) = True"
| "is_admin_source (ManagedSettingsFile _) = True"
| "is_admin_source _ = False"

definition dropped_by_pin :: "'g perm_lib \<Rightarrow> Sourced \<Rightarrow> bool" where
  "dropped_by_pin lib s \<longleftrightarrow> is_catchall_allow lib (sourced_rule s) \<and> \<not> is_admin_source (sourced_from s)"

definition drop_untrusted_catchall_allows :: "'g perm_lib \<Rightarrow> Sourced list \<Rightarrow> string option \<Rightarrow> Sourced list \<times> SkippedPermission list" where
  "drop_untrusted_catchall_allows lib rs policy_block =
     (case policy_block of
        None \<Rightarrow> (rs, [])
      | Some reason \<Rightarrow>
          (filter (\<lambda>s. \<not> dropped_by_pin lib s) rs,
           map (\<lambda>s. \<lparr>skipped_rule = ''allow '' @ (case rule_pattern (sourced_rule s) of Some p \<Rightarrow> p | None \<Rightarrow> ''*'') @ '' (catch-all)'',
                     skipped_reason = reason\<rparr>) (filter (dropped_by_pin lib) rs)))"

section \<open>Vendor settings\<close>

record claude_acc =
  acc_rules :: "PermissionRule list"
  acc_skipped :: "SkippedPermission list"
  primary_source_path :: "path option"
  default_mode_source :: "path option"
  applied_mode :: "DefaultPermissionMode option"
  acc_prompt_policy :: PromptPolicy

definition claude_start :: claude_acc where
  "claude_start =
     \<lparr>acc_rules = [], acc_skipped = [], primary_source_path = None, default_mode_source = None, applied_mode = None,
      acc_prompt_policy = PromptAsk\<rparr>"

text \<open>The em dash between blanks, and the two hyphens.\<close>

definition skipped_of_warning :: "string \<Rightarrow> SkippedPermission" where
  "skipped_of_warning w =
     (let parts = (case split_once_str ([CHR '' '', CHR 0xE2, CHR 0x80, CHR 0x94, CHR '' '']) w of
                     Some p \<Rightarrow> Some p
                   | None \<Rightarrow> split_once_str '' -- '' w)
      in case parts of
           Some (rule, reason) \<Rightarrow> \<lparr>skipped_rule = rule, skipped_reason = reason\<rparr>
         | None \<Rightarrow> \<lparr>skipped_rule = w, skipped_reason = []\<rparr>)"

text \<open>The first half of the loop's body: the default mode of the file.\<close>

definition claim_default_mode :: "UserDefaultModeLoad \<Rightarrow> path \<Rightarrow> ClaudeSettings \<Rightarrow> claude_acc \<Rightarrow> claude_acc" where
  "claim_default_mode user_mode_load p settings acc =
     (case settings_default_mode settings of
        Some raw \<Rightarrow>
          (if user_mode_load = ApplyMode \<and> default_mode_source acc = None
           then
             (let (mode, skipped) = parse_default_mode_claiming_scope raw
              in acc\<lparr>default_mode_source := Some p, acc_skipped := acc_skipped acc @ skipped, applied_mode := Some mode,
                     acc_prompt_policy := mode_prompt_policy (mode_effects mode)\<rparr>)
           else acc)
      | None \<Rightarrow> acc)"

definition add_settings_rules :: "path \<Rightarrow> ClaudeSettings \<Rightarrow> claude_acc \<Rightarrow> claude_acc" where
  "add_settings_rules p settings acc =
     (case settings_permissions settings of
        None \<Rightarrow> acc
      | Some perms \<Rightarrow>
          (let (cfg, warnings) = into_permission_config perms
           in acc\<lparr>primary_source_path :=
                    (if (rules cfg \<noteq> [] \<or> warnings \<noteq> []) \<and> primary_source_path acc = None then Some p
                     else primary_source_path acc),
                  acc_rules := acc_rules acc @ rules cfg,
                  acc_skipped := acc_skipped acc @ map skipped_of_warning warnings\<rparr>))"

definition read_claude_file :: "machine \<Rightarrow> UserDefaultModeLoad \<Rightarrow> path \<Rightarrow> claude_acc \<Rightarrow> claude_acc" where
  "read_claude_file mc user_mode_load p acc =
     (case load_claude_settings mc p of
        None \<Rightarrow> acc
      | Some settings \<Rightarrow> add_settings_rules p settings (claim_default_mode user_mode_load p settings acc))"

definition resolve_claude_settings_inner :: "machine \<Rightarrow> path \<Rightarrow> string option \<Rightarrow> UserDefaultModeLoad
    \<Rightarrow> (PermissionConfig \<times> SkippedPermission list \<times> path) option" where
  "resolve_claude_settings_inner mc cwd policy_block user_mode_load =
     (let acc = fold (read_claude_file mc user_mode_load) (find_claude_settings_paths mc cwd) claude_start;
          (syn_rules, syn_skipped, bypass_blocked) =
            (case applied_mode acc of
               Some mode \<Rightarrow> synthetic_rules_for_default_mode mode policy_block
             | None \<Rightarrow> ([], [], False));
          all_rules = acc_rules acc @ syn_rules;
          all_skipped = acc_skipped acc @ syn_skipped
      in if all_rules = [] \<and> acc_prompt_policy acc = PromptAsk \<and> \<not> bypass_blocked \<and> default_mode_source acc = None \<and> all_skipped = []
         then None
         else Some (\<lparr>rules = all_rules, prompt_policy = acc_prompt_policy acc\<rparr>, all_skipped,
                    (case primary_source_path acc of
                       Some p \<Rightarrow> p
                     | None \<Rightarrow> (case default_mode_source acc of Some p \<Rightarrow> p | None \<Rightarrow> cwd))))"

section \<open>Resolution\<close>

record ResolvedPermissions =
  resolved_config :: PermissionConfig
  resolved_sources :: "RequirementSource list"
  resolved_skipped :: "SkippedPermission list"

text \<open>The rules of the default mode that managed settings prescribe.\<close>

definition managed_mode_rules :: "ManagedSettings \<Rightarrow> string option \<Rightarrow> Sourced list \<times> SkippedPermission list" where
  "managed_mode_rules managed policy_block =
     (case managed_default_mode managed of
        None \<Rightarrow> ([], [])
      | Some mode \<Rightarrow>
          (let p = (case managed_source_path (managed_features managed) of
                      Some p \<Rightarrow> p
                    | None \<Rightarrow> components ''managed-settings.json'');
               (syn_rules, syn_skipped, _) = synthetic_rules_for_default_mode mode policy_block
           in (map (\<lambda>rule. \<lparr>sourced_rule = rule, sourced_from = ManagedSettingsFile p\<rparr>) syn_rules, syn_skipped)))"

definition resolve_permissions_inner :: "'g perm_lib \<Rightarrow> world \<Rightarrow> path \<Rightarrow> string option \<Rightarrow> ManagedSettings \<Rightarrow> Sourced list
    \<Rightarrow> ResolvedPermissions option" where
  "resolve_permissions_inner lib w cwd policy_block managed managed_config_rules =
     (let mc = world_machine w;
          settings_json =
            (if is_claude_import_marked mc then None
             else resolve_claude_settings_inner mc cwd policy_block
               (if managed_default_mode managed = None then ApplyMode else SkipManagedOwns));
          (mode_rules, mode_skipped) = managed_mode_rules managed policy_block;
          (settings_rules, settings_skipped) =
            (case settings_json of
               Some (config, skipped, p) \<Rightarrow>
                 (map (\<lambda>rule. \<lparr>sourced_rule = rule, sourced_from = SettingsFile p\<rparr>) (rules config), skipped)
             | None \<Rightarrow> ([], []));
          policy =
            (case managed_default_mode managed of
               Some mode \<Rightarrow> mode_prompt_policy (mode_effects mode)
             | None \<Rightarrow> (case settings_json of Some (config, _) \<Rightarrow> prompt_policy config | None \<Rightarrow> PromptAsk));
          all_rules = load_requirements_permissions w @ managed_permissions managed @ mode_rules @ managed_config_rules @
            load_config_toml_permissions w cwd @ settings_rules;
          (kept, drop_skipped) = drop_untrusted_catchall_allows lib all_rules policy_block;
          skipped = mode_skipped @ settings_skipped @ drop_skipped
      in if kept = [] \<and> policy = PromptAsk \<and> skipped = [] then None
         else Some \<lparr>resolved_config = \<lparr>rules = map sourced_rule kept, prompt_policy = policy\<rparr>,
                    resolved_sources = map sourced_from kept, resolved_skipped = skipped\<rparr>)"

definition resolve_permissions :: "'g perm_lib \<Rightarrow> world \<Rightarrow> path \<Rightarrow> ResolvedPermissions option" where
  "resolve_permissions lib w cwd =
     resolve_permissions_inner lib w cwd (yolo_disabled_by_policy w) (load_managed_settings w) (managed_config_permissions w)"

definition deny_read_globs_from_config :: "PermissionConfig \<Rightarrow> string list" where
  "deny_read_globs_from_config config =
     List.map_filter rule_pattern
       (filter (\<lambda>r. rule_action r = DenyRule \<and> rule_tool r \<in> {ReadTool, GrepTool, AnyTool}) (rules config))"

section \<open>What is configured\<close>

text \<open>The rule strings of a TOML document, read as its author means them.\<close>

definition toml_lists :: "toml \<Rightarrow> PermissionRule \<Rightarrow> bool" where
  "toml_lists value rule \<longleftrightarrow>
     (\<exists>section action key arr s. toml_get ''permission'' value = Some section \<and> (action, key) \<in> set rule_keys
        \<and> toml_get key section = Some (TArray arr) \<and> TString s \<in> set arr \<and> parse_permission_rule s action = Inr rule)"

definition entries_list :: "ParsedPermissions \<Rightarrow> PermissionRule \<Rightarrow> bool" where
  "entries_list perms rule \<longleftrightarrow>
     (\<exists>s. s \<in> set (allow_entries perms) \<and> parse_permission_rule s AllowRule = Inr rule)
     \<or> (\<exists>s. s \<in> set (deny_entries perms) \<and> parse_permission_rule s DenyRule = Inr rule)
     \<or> (\<exists>s. s \<in> set (ask_entries perms) \<and> parse_permission_rule s AskRule = Inr rule)"

text \<open>Where a rule can be written down, one case for each kind of file.\<close>

inductive configured :: "world \<Rightarrow> path \<Rightarrow> PermissionRule \<Rightarrow> bool" for w cwd where
  in_requirements: "layer \<in> set (requirements_layers w) \<Longrightarrow> toml_lists (layer_value layer) rule \<Longrightarrow> configured w cwd rule"
| in_managed_settings: "claude_managed_settings_path w = Some p \<Longrightarrow> read_to_string (world_machine w) p = Some text
    \<Longrightarrow> parse_json (world_machine w) text = Some json \<Longrightarrow> json_get ''permissions'' json = Some value
    \<Longrightarrow> deserialize_permissions value = Some perms \<Longrightarrow> entries_list perms rule \<Longrightarrow> configured w cwd rule"
| in_managed_config: "(value, p) \<in> set (managed_config_layers w) \<Longrightarrow> toml_lists value rule \<Longrightarrow> configured w cwd rule"
| in_user_config: "user_grok_home (world_machine w) = Some g \<Longrightarrow> path_is_file (world_machine w) (in_dir g ''config.toml'')
    \<Longrightarrow> load_config_file w (in_dir g ''config.toml'') = Some value \<Longrightarrow> toml_lists value rule \<Longrightarrow> configured w cwd rule"
| in_project_config: "p \<in> set (find_project_grok_configs w cwd) \<Longrightarrow> load_config_file w p = Some value \<Longrightarrow> toml_lists value rule
    \<Longrightarrow> configured w cwd rule"
| in_vendor_settings: "\<not> is_claude_import_marked (world_machine w) \<Longrightarrow> p \<in> set (find_claude_settings_paths (world_machine w) cwd)
    \<Longrightarrow> load_claude_settings (world_machine w) p = Some settings \<Longrightarrow> settings_permissions settings = Some perms
    \<Longrightarrow> entries_list perms rule \<Longrightarrow> configured w cwd rule"

section \<open>No rule is lost\<close>

lemma parsed_action: "parse_permission_rule s action = Inr rule \<Longrightarrow> rule_action rule = action"
  by (auto simp: parse_permission_rule_def Let_def split: if_splits option.splits sum.splits prod.splits)

lemma toml_listsI:
  "toml_get ''permission'' value = Some sect \<Longrightarrow> (action, key) \<in> set rule_keys \<Longrightarrow> toml_get key sect = Some (TArray arr)
   \<Longrightarrow> TString s \<in> set arr \<Longrightarrow> parse_permission_rule s action = Inr rule \<Longrightarrow> toml_lists value rule"
  unfolding toml_lists_def by blast

lemma toml_lists_parsed:
  assumes "toml_lists value rule"
  shows "rule \<in> sourced_rule ` set (extract_toml_permissions verbose value source)"
proof -
  obtain sect action key arr s where at: "toml_get ''permission'' value = Some sect" "(action, key) \<in> set rule_keys"
      "toml_get key sect = Some (TArray arr)" "TString s \<in> set arr" "parse_permission_rule s action = Inr rule"
    using assms by (auto simp: toml_lists_def)
  have lst: "compact_list sect key = Some arr" using at(3) by (simp add: compact_list_def)
  have "rule \<in> set (List.map_filter (compact_rule action) arr)"
    using at(4,5) by (force simp: List.map_filter_def compact_rule_def image_iff)
  moreover have "list_ex (\<lambda>(action, key). compact_list sect key \<noteq> None) rule_keys"
    using at(2) lst by (force simp: list_ex_iff)
  ultimately show ?thesis
    using at(1,2) lst by (force simp: extract_toml_permissions_def parse_toml_permission_section_def image_iff)
qed

lemma translated:
  "s \<in> set entries \<Longrightarrow> parse_permission_rule s action = Inr rule \<Longrightarrow> rule \<in> set (fst (translate_entries action label entries))"
  by (induction entries) (auto split: sum.splits prod.splits)

lemma config_of_entries:
  "rules (fst (into_permission_config perms)) =
     fst (translate_entries AllowRule ''allow'' (allow_entries perms))
     @ fst (translate_entries DenyRule ''deny'' (deny_entries perms))
     @ fst (translate_entries AskRule ''ask'' (ask_entries perms))"
  by (simp add: into_permission_config_def permission_config_new_def split: prod.split)

lemma entries_list_parsed: "entries_list perms rule \<Longrightarrow> rule \<in> set (rules (fst (into_permission_config perms)))"
  by (auto simp: entries_list_def config_of_entries intro: translated)

text \<open>
  One entry that is not a string empties all three lists of the managed settings: a mistake in the
  allow list takes the deny list with it.
\<close>

lemma all_strings_None: "list_ex (\<lambda>v. json_as_str v = None) vs \<Longrightarrow> all_strings vs = None"
  by (induction vs) (auto split: option.split)

lemma managed_rules_lost:
  assumes "json_get ''permissions'' json = Some (JObject kvs)" "map_of kvs ''allow'' = Some (JArray vs)"
    and "list_ex (\<lambda>v. json_as_str v = None) vs"
  shows "parse_managed_settings_permissions json p = []"
  using assms all_strings_None
  by (simp add: parse_managed_settings_permissions_def parsed_permissions_of_def string_list_field_def)

lemma claimed_rules [simp]: "acc_rules (claim_default_mode load p settings acc) = acc_rules acc"
  by (simp add: claim_default_mode_def split: option.split prod.split)

lemma added_rules [simp]:
  "acc_rules (add_settings_rules p settings acc) =
     acc_rules acc @ (case settings_permissions settings of Some perms \<Rightarrow> rules (fst (into_permission_config perms)) | None \<Rightarrow> [])"
  by (simp add: add_settings_rules_def split: option.split prod.split)

text \<open>What the vendor files contribute, file by file.\<close>

definition vendor_file_rules :: "machine \<Rightarrow> path \<Rightarrow> PermissionRule list" where
  "vendor_file_rules mc p =
     (case Option.bind (load_claude_settings mc p) settings_permissions of
        Some perms \<Rightarrow> rules (fst (into_permission_config perms))
      | None \<Rightarrow> [])"

lemma vendor_rules:
  "acc_rules (fold (read_claude_file mc load) paths acc) = acc_rules acc @ concat (map (vendor_file_rules mc) paths)"
  by (induction paths arbitrary: acc)
     (auto simp: read_claude_file_def vendor_file_rules_def split: option.split)

lemma vendor_config:
  "(case resolve_claude_settings_inner mc cwd block load of Some (cfg, _) \<Rightarrow> rules cfg | None \<Rightarrow> []) =
     concat (map (vendor_file_rules mc) (find_claude_settings_paths mc cwd)) @
     (case applied_mode (fold (read_claude_file mc load) (find_claude_settings_paths mc cwd) claude_start) of
        Some mode \<Rightarrow> fst (synthetic_rules_for_default_mode mode block)
      | None \<Rightarrow> [])"
  by (auto simp: resolve_claude_settings_inner_def Let_def vendor_rules claude_start_def
      split: option.split prod.split)

definition vendor_resolution :: "world \<Rightarrow> path \<Rightarrow> (PermissionConfig \<times> SkippedPermission list \<times> path) option" where
  "vendor_resolution w cwd =
     (if is_claude_import_marked (world_machine w) then None
      else resolve_claude_settings_inner (world_machine w) cwd (yolo_disabled_by_policy w)
        (if managed_default_mode (load_managed_settings w) = None then ApplyMode else SkipManagedOwns))"

text \<open>All rules with their sources, before the pin takes any away.\<close>

definition collected :: "world \<Rightarrow> path \<Rightarrow> Sourced list" where
  "collected w cwd =
     load_requirements_permissions w @ managed_permissions (load_managed_settings w)
     @ fst (managed_mode_rules (load_managed_settings w) (yolo_disabled_by_policy w))
     @ managed_config_permissions w @ load_config_toml_permissions w cwd
     @ (case vendor_resolution w cwd of
          Some (config, _, p) \<Rightarrow> map (\<lambda>rule. \<lparr>sourced_rule = rule, sourced_from = SettingsFile p\<rparr>) (rules config)
        | None \<Rightarrow> [])"

definition kept_rules :: "'g perm_lib \<Rightarrow> world \<Rightarrow> path \<Rightarrow> Sourced list" where
  "kept_rules lib w cwd = fst (drop_untrusted_catchall_allows lib (collected w cwd) (yolo_disabled_by_policy w))"

lemma resolve_result:
  "case resolve_permissions lib w cwd of
     Some res \<Rightarrow> rules (resolved_config res) = map sourced_rule (kept_rules lib w cwd)
       \<and> resolved_sources res = map sourced_from (kept_rules lib w cwd)
   | None \<Rightarrow> kept_rules lib w cwd = []"
  unfolding resolve_permissions_def resolve_permissions_inner_def kept_rules_def collected_def vendor_resolution_def Let_def
  by (simp add: case_prod_unfold split: option.split)

lemma kept_in_result: "s \<in> set (kept_rules lib w cwd) \<Longrightarrow> \<exists>res. resolve_permissions lib w cwd = Some res \<and> sourced_rule s \<in> set (rules (resolved_config res))"
  using resolve_result [of lib w cwd] by (auto split: option.splits)

lemma kept_iff:
  "s \<in> set (kept_rules lib w cwd) \<longleftrightarrow> s \<in> set (collected w cwd) \<and> (yolo_disabled_by_policy w = None \<or> \<not> dropped_by_pin lib s)"
  by (auto simp: kept_rules_def drop_untrusted_catchall_allows_def split: option.split)

lemma vendor_rule_resolved:
  assumes "p \<in> set (find_claude_settings_paths mc cwd)" "rule \<in> set (vendor_file_rules mc p)"
  shows "\<exists>cfg skipped q. resolve_claude_settings_inner mc cwd block load = Some (cfg, skipped, q) \<and> rule \<in> set (rules cfg)"
proof -
  have "rule \<in> set (case resolve_claude_settings_inner mc cwd block load of Some (cfg, _) \<Rightarrow> rules cfg | None \<Rightarrow> [])"
    using assms unfolding vendor_config by auto
  then show ?thesis by (cases "resolve_claude_settings_inner mc cwd block load") auto
qed

lemma configured_collected: "configured w cwd rule \<Longrightarrow> rule \<in> sourced_rule ` set (collected w cwd)"
proof (induction rule: configured.induct)
  case (in_requirements layer rule)
  then show ?case
    using toml_lists_parsed [of "layer_value layer" rule "verbose_rules w" "layer_source layer"]
    by (fastforce simp: collected_def load_requirements_permissions_def image_Un image_UN)
next
  case (in_managed_settings p content json sect perms rule)
  then show ?case using entries_list_parsed [of perms rule]
    by (auto simp: collected_def load_managed_settings_def parse_managed_settings_json_def parse_managed_settings_permissions_def
        Let_def image_Un image_image)
next
  case (in_managed_config val p rule)
  then show ?case using toml_lists_parsed [of val rule "verbose_rules w" "ManagedConfigFile p"]
    by (fastforce simp: collected_def managed_config_permissions_def image_Un image_UN)
next
  case (in_user_config g val rule)
  then show ?case using toml_lists_parsed [of val rule "verbose_rules w" "ConfigFile (in_dir g ''config.toml'')"]
    by (auto simp: collected_def load_config_toml_permissions_def config_rules_of_def image_Un)
next
  case (in_project_config p val rule)
  then show ?case using toml_lists_parsed [of val rule "verbose_rules w" "ConfigFile p"]
    by (fastforce simp: collected_def load_config_toml_permissions_def config_rules_of_def image_Un image_UN)
next
  case (in_vendor_settings p settings perms rule)
  then have "rule \<in> set (vendor_file_rules (world_machine w) p)"
    by (simp add: vendor_file_rules_def entries_list_parsed)
  from vendor_rule_resolved [OF in_vendor_settings(2) this] in_vendor_settings(1)
  obtain cfg skipped q where "vendor_resolution w cwd = Some (cfg, skipped, q)" "rule \<in> set (rules cfg)"
    unfolding vendor_resolution_def by metis
  then show ?case by (simp add: collected_def image_Un image_image)
qed

lemma configured_kept:
  assumes "configured w cwd rule" "\<not> is_catchall_allow lib rule \<or> yolo_disabled_by_policy w = None"
  shows "\<exists>res. resolve_permissions lib w cwd = Some res \<and> rule \<in> set (rules (resolved_config res))"
proof -
  from configured_collected [OF assms(1)] obtain s where "s \<in> set (collected w cwd)" "rule = sourced_rule s" by auto
  with assms(2) show ?thesis using kept_in_result [of s lib w cwd] by (auto simp: kept_iff dropped_by_pin_def)
qed


section \<open>Catch-all rules under the pin\<close>

text \<open>A rule written by the administrator: in a system layer of the requirements or in the managed settings.\<close>

definition admin_rule :: "world \<Rightarrow> PermissionRule \<Rightarrow> bool" where
  "admin_rule w rule \<longleftrightarrow>
     (\<exists>layer source. layer \<in> set (requirements_layers w) \<and> is_system layer
        \<and> \<lparr>sourced_rule = rule, sourced_from = source\<rparr> \<in> set (extract_toml_permissions (verbose_rules w) (layer_value layer) source))
     \<or> (\<exists>p. claude_managed_settings_path w = Some p
        \<and> \<lparr>sourced_rule = rule, sourced_from = ManagedSettingsFile p\<rparr> \<in> set (managed_permissions (load_managed_settings w)))"

lemma extracted_source: "s \<in> set (extract_toml_permissions verbose value source) \<Longrightarrow> sourced_from s = source"
  by (auto simp: extract_toml_permissions_def split: option.splits sum.splits)

lemma managed_source: "s \<in> set (managed_permissions (load_managed_settings w)) \<Longrightarrow>
    \<exists>p. claude_managed_settings_path w = Some p \<and> sourced_from s = ManagedSettingsFile p"
  by (auto simp: load_managed_settings_def no_managed_settings_def parse_managed_settings_json_def
      parse_managed_settings_permissions_def Let_def split: option.splits)

lemma config_sources:
  "s \<in> set (managed_config_permissions w) \<Longrightarrow> \<not> is_admin_source (sourced_from s)"
  "s \<in> set (load_config_toml_permissions w cwd) \<Longrightarrow> \<not> is_admin_source (sourced_from s)"
  by (auto simp: managed_config_permissions_def load_config_toml_permissions_def config_rules_of_def Let_def
      dest!: extracted_source split: option.splits if_splits)

lemma mode_rules_harmless:
  assumes "s \<in> set (fst (managed_mode_rules managed (Some reason)))"
  shows "\<not> is_catchall_allow lib (sourced_rule s)"
  using assms
  by (auto simp: managed_mode_rules_def synthetic_rules_for_default_mode_def Let_def is_catchall_allow_def allow_all_of_def
      split: option.splits if_splits)

lemma admin_source_written:
  assumes "s \<in> set (collected w cwd)" "is_admin_source (sourced_from s)"
    and "yolo_disabled_by_policy w = Some reason" "is_catchall_allow lib (sourced_rule s)"
  shows "admin_rule w (sourced_rule s)"
proof -
  consider (req) "s \<in> set (load_requirements_permissions w)" | (man) "s \<in> set (managed_permissions (load_managed_settings w))"
    | (other) "s \<in> set (managed_config_permissions w @ load_config_toml_permissions w cwd) \<or> (\<exists>p. sourced_from s = SettingsFile p)"
    using assms mode_rules_harmless by (fastforce simp: collected_def split: option.splits)
  then show ?thesis
  proof cases
    case req
    then obtain layer where "layer \<in> set (requirements_layers w)"
        "s \<in> set (extract_toml_permissions (verbose_rules w) (layer_value layer) (layer_source layer))"
      by (auto simp: load_requirements_permissions_def)
    moreover from this have "sourced_from s = layer_source layer" using extracted_source by blast
    moreover from this assms(2) have "is_system layer" by (auto simp: layer_source_def split: if_splits)
    ultimately show ?thesis unfolding admin_rule_def by (metis Sourced.surjective old.unit.exhaust)
  next
    case man
    then show ?thesis unfolding admin_rule_def using managed_source [OF man] by (metis Sourced.surjective old.unit.exhaust)
  next
    case other
    then show ?thesis using assms(2) config_sources by auto
  qed
qed

text \<open>
  C7. While always-approve is pinned off, no file a user can write replaces it: every catch-all
  allow rule that is in force was written by the administrator, and each rule in force is paired
  with its source. Every other rule of the files survives the pin.
\<close>

theorem pin_keeps_admin_catchalls:
  assumes "yolo_disabled_by_policy w = Some reason" "resolve_permissions lib w cwd = Some res"
  shows "length (resolved_sources res) = length (rules (resolved_config res))
    \<and> (\<forall>rule. rule \<in> set (rules (resolved_config res)) \<longrightarrow> is_catchall_allow lib rule \<longrightarrow> admin_rule w rule)
    \<and> (\<forall>rule. configured w cwd rule \<longrightarrow> \<not> is_catchall_allow lib rule \<longrightarrow> rule \<in> set (rules (resolved_config res)))"
proof (intro conjI allI impI)
  have res: "rules (resolved_config res) = map sourced_rule (kept_rules lib w cwd)"
      "resolved_sources res = map sourced_from (kept_rules lib w cwd)"
    using resolve_result [of lib w cwd] assms(2) by simp_all
  then show "length (resolved_sources res) = length (rules (resolved_config res))" by simp
  show "admin_rule w rule" if r: "rule \<in> set (rules (resolved_config res))" and c: "is_catchall_allow lib rule" for rule
  proof -
    from r res(1) obtain s where s: "s \<in> set (kept_rules lib w cwd)" "rule = sourced_rule s" by auto
    then have "s \<in> set (collected w cwd)" "is_admin_source (sourced_from s)"
      using c assms(1) by (auto simp: kept_iff dropped_by_pin_def)
    then show ?thesis using admin_source_written [OF _ _ assms(1)] c s(2) by blast
  qed
  show "rule \<in> set (rules (resolved_config res))" if "configured w cwd rule" "\<not> is_catchall_allow lib rule" for rule
    using configured_kept [OF that(1), of lib] that(2) assms(2) by auto
qed

section \<open>The default mode\<close>

definition mode_in_file :: "machine \<Rightarrow> path \<Rightarrow> string option" where
  "mode_in_file mc p = Option.bind (load_claude_settings mc p) settings_default_mode"

definition policy_of_raw :: "string option \<Rightarrow> PromptPolicy" where
  "policy_of_raw raw =
     (case raw of Some r \<Rightarrow> mode_prompt_policy (mode_effects (fst (parse_default_mode_claiming_scope r))) | None \<Rightarrow> PromptAsk)"

lemma added_mode [simp]:
  "default_mode_source (add_settings_rules p settings acc) = default_mode_source acc"
  "acc_prompt_policy (add_settings_rules p settings acc) = acc_prompt_policy acc"
  by (simp_all add: add_settings_rules_def split: option.split prod.split)

lemma claimed_once:
  "default_mode_source acc \<noteq> None \<Longrightarrow> acc_prompt_policy (fold (read_claude_file mc load) paths acc) = acc_prompt_policy acc"
  by (induction paths arbitrary: acc) (auto simp: read_claude_file_def claim_default_mode_def split: option.split)

lemma first_mode:
  "default_mode_source acc = None \<Longrightarrow> acc_prompt_policy acc = PromptAsk \<Longrightarrow>
   acc_prompt_policy (fold (read_claude_file mc ApplyMode) paths acc) = policy_of_raw (first_some (mode_in_file mc) paths)"
proof (induction paths arbitrary: acc)
  case (Cons p paths)
  show ?case
  proof (cases "mode_in_file mc p")
    case None
    then have "default_mode_source (read_claude_file mc ApplyMode p acc) = None" "acc_prompt_policy (read_claude_file mc ApplyMode p acc) = PromptAsk"
      using Cons.prems by (auto simp: mode_in_file_def read_claude_file_def claim_default_mode_def split: option.split)
    from Cons.IH [OF this] None show ?thesis by simp
  next
    case (Some raw)
    then have "default_mode_source (read_claude_file mc ApplyMode p acc) \<noteq> None" "acc_prompt_policy (read_claude_file mc ApplyMode p acc) = policy_of_raw (Some raw)"
      using Cons.prems by (auto simp: mode_in_file_def read_claude_file_def claim_default_mode_def policy_of_raw_def
          bind_eq_Some_conv split: prod.split)
    with claimed_once [OF this(1)] Some show ?thesis by simp
  qed
qed (simp add: policy_of_raw_def)

text \<open>
  Who decides what happens to requests no rule covers: the managed settings if they set a default
  mode, and then no file of the user or the project can loosen it; otherwise the first of the
  vendor files that sets one, the most specific one first, where a value that is not a known mode
  counts as the default and still hides the files after it; otherwise the user is asked.
\<close>

theorem default_mode_precedence:
  "(case resolve_permissions lib w cwd of Some res \<Rightarrow> prompt_policy (resolved_config res) | None \<Rightarrow> PromptAsk) =
   (case managed_default_mode (load_managed_settings w) of
      Some mode \<Rightarrow> mode_prompt_policy (mode_effects mode)
    | None \<Rightarrow>
        if is_claude_import_marked (world_machine w) then PromptAsk
        else policy_of_raw (first_some (mode_in_file (world_machine w)) (find_claude_settings_paths (world_machine w) cwd)))"
proof -
  let ?mc = "world_machine w"
  have vendor: "(case resolve_claude_settings_inner ?mc cwd block ApplyMode of Some (cfg, _) \<Rightarrow> prompt_policy cfg | None \<Rightarrow> PromptAsk)
      = policy_of_raw (first_some (mode_in_file ?mc) (find_claude_settings_paths ?mc cwd))" for block
    using first_mode [of claude_start ?mc "find_claude_settings_paths ?mc cwd"]
    by (auto simp: resolve_claude_settings_inner_def Let_def claude_start_def split: option.split prod.split)
  have "(case resolve_permissions lib w cwd of Some res \<Rightarrow> prompt_policy (resolved_config res) | None \<Rightarrow> PromptAsk) =
      (case managed_default_mode (load_managed_settings w) of
         Some mode \<Rightarrow> mode_prompt_policy (mode_effects mode)
       | None \<Rightarrow> (case vendor_resolution w cwd of Some (config, _) \<Rightarrow> prompt_policy config | None \<Rightarrow> PromptAsk))"
    unfolding resolve_permissions_def resolve_permissions_inner_def vendor_resolution_def Let_def
    by (simp add: case_prod_unfold split: option.split)
  then show ?thesis unfolding vendor_resolution_def using vendor by (auto split: option.split)
qed

section \<open>A machine with an administrator\<close>

text \<open>
  The administrator denies a command, allows the others and pins always-approve off; the vendor
  settings of the user and of the project allow all fetches and one command, and ask for
  \<^verbatim>\<open>bypassPermissions\<close>.
\<close>

definition demo_layer :: RequirementsLayer where
  "demo_layer =
     \<lparr>layer_value = TTable
        [(''permission'', TTable [(''deny'', TArray [TString ''Bash(rm)'']), (''allow'', TArray [TString ''Bash(*)''])]),
         (''ui'', TTable [(''disable_bypass_permissions_mode'', TBoolean True)])],
      layer_path = components ''/etc/grok/requirements.toml'', is_system = True\<rparr>"

definition demo_world :: world where
  "demo_world =
     \<lparr>world_machine = demo_machine
        \<lparr>parse_json := (\<lambda>_. Some (JObject [(''permissions'', JObject
           [(''allow'', JArray [JString ''WebFetch'', JString ''Bash(ls)'']), (''defaultMode'', JString ''bypassPermissions'')])]))\<rparr>,
      git_workdir = (\<lambda>_. None), load_config_file = (\<lambda>_. None), verbose_rules = (\<lambda>_. Inl []),
      requirements_layers = [demo_layer], managed_config_layers = [], claude_managed_settings_path = None\<rparr>"

definition rm_rule :: PermissionRule where
  "rm_rule = (case parse_permission_rule ''Bash(rm)'' DenyRule of Inr r \<Rightarrow> r | Inl _ \<Rightarrow> allow_all_of AnyTool)"

definition demo_dir :: path where
  "demo_dir = components ''/h/w/src''"

definition demo_resolved :: ResolvedPermissions where
  "demo_resolved = (case resolve_permissions demo_perm_lib demo_world demo_dir of
     Some res \<Rightarrow> res
   | None \<Rightarrow> \<lparr>resolved_config = permission_config_new [], resolved_sources = [], resolved_skipped = []\<rparr>)"

lemma demo_resolution:
  "resolve_permissions demo_perm_lib demo_world demo_dir = Some demo_resolved"
  "yolo_disabled_by_policy demo_world = Some YOLO_PIN_REASON_REQUIREMENTS"
  by code_simp+

lemma demo_configured:
  "toml_lists (layer_value demo_layer) rm_rule" "configured demo_world demo_dir rm_rule" "rule_action rm_rule = DenyRule"
proof -
  have there: "toml_get ''permission'' (layer_value demo_layer) =
        Some (TTable [(''deny'', TArray [TString ''Bash(rm)'']), (''allow'', TArray [TString ''Bash(*)''])])"
      "parse_permission_rule ''Bash(rm)'' DenyRule = Inr rm_rule"
    by code_simp+
  show lists: "toml_lists (layer_value demo_layer) rm_rule"
    by (rule toml_listsI [where key = "''deny''" and arr = "[TString ''Bash(rm)'']", OF there(1) _ _ _ there(2)])
       (simp_all add: rule_keys_def)
  have "demo_layer \<in> set (requirements_layers demo_world)" by (simp add: demo_world_def)
  then show "configured demo_world demo_dir rm_rule" using lists by (rule configured.in_requirements)
  show "rule_action rm_rule = DenyRule" by code_simp
qed


theorem pin_keeps_admin_catchalls_witness:
  "allow_all_of BashTool \<in> set (rules (resolved_config demo_resolved)) \<and> is_catchall_allow demo_perm_lib (allow_all_of BashTool)
   \<and> admin_rule demo_world (allow_all_of BashTool) \<and> rm_rule \<in> set (rules (resolved_config demo_resolved))"
proof -
  have "allow_all_of BashTool \<in> set (rules (resolved_config demo_resolved))" "is_catchall_allow demo_perm_lib (allow_all_of BashTool)"
    by code_simp+
  moreover have "\<not> is_catchall_allow demo_perm_lib rm_rule" by (simp add: is_catchall_allow_def demo_configured(3))
  ultimately show ?thesis
    using pin_keeps_admin_catchalls [OF demo_resolution(2,1)] demo_configured(2) by blast
qed

end
