(* ===== verification/Hunk_Diff.thy ===== *)
theory Hunk_Diff
  imports Shell_Paths Truncate "HOL-Library.Multiset"
begin

text \<open>
  Hunks of tracked files (\<^verbatim>\<open>xai-hunk-tracker/src/types.rs\<close>, \<^verbatim>\<open>diff.rs\<close>): from a line diff of two texts to the
  hunks between them, patching text by line numbers, and the matching of hunks with older ones. The
  diff library is a function from two texts to the changes, or to nothing when it ran out of time;
  the \<open>n\<close>-th hunk made takes its identifier and its time from a function.
\<close>

section \<open>Hunks\<close>

record HunkLineInfo =
  old_start :: nat
  old_count :: nat
  new_start :: nat
  new_count :: nat

datatype HunkSource = AgentEdit nat | ExternalEditOnAgentFile | External

fun is_agent_edit :: "HunkSource \<Rightarrow> bool" where
  "is_agent_edit (AgentEdit _) = True"
| "is_agent_edit _ = False"

fun is_agent_tracked :: "HunkSource \<Rightarrow> bool" where
  "is_agent_tracked (AgentEdit _) = True"
| "is_agent_tracked ExternalEditOnAgentFile = True"
| "is_agent_tracked External = False"

fun is_external :: "HunkSource \<Rightarrow> bool" where
  "is_external External = True"
| "is_external ExternalEditOnAgentFile = True"
| "is_external (AgentEdit _) = False"

fun prompt_index :: "HunkSource \<Rightarrow> nat option" where
  "prompt_index (AgentEdit i) = Some i"
| "prompt_index _ = None"

record TrackedHunk =
  hunk_id :: string
  hunk_path :: path
  line_info :: HunkLineInfo
  hunk_source :: HunkSource
  old_text :: "string option"
  new_text :: string
  hunk_patch :: "string option"
  created_at :: nat
  hunk_selected :: bool

datatype ChangeTag = Same | Delete | Insert

record hunk_lib =
  mint :: "nat \<Rightarrow> string \<times> nat"
  diff_lines :: "string \<Rightarrow> string \<Rightarrow> (ChangeTag \<times> string) list option"

definition make_hunk :: "hunk_lib \<Rightarrow> nat \<Rightarrow> path \<Rightarrow> HunkLineInfo \<Rightarrow> HunkSource \<Rightarrow> string option \<Rightarrow> string \<Rightarrow> TrackedHunk" where
  "make_hunk lib n p info source old new =
     \<lparr>hunk_id = fst (mint lib n), hunk_path = p, line_info = info, hunk_source = source, old_text = old, new_text = new,
      hunk_patch = None, created_at = snd (mint lib n), hunk_selected = False\<rparr>"

definition file_created :: "hunk_lib \<Rightarrow> nat \<Rightarrow> path \<Rightarrow> string \<Rightarrow> HunkSource \<Rightarrow> TrackedHunk" where
  "file_created lib n p content source =
     make_hunk lib n p \<lparr>old_start = 0, old_count = 0, new_start = 1, new_count = max (length (str_lines content)) 1\<rparr> source None content"

definition file_deleted :: "hunk_lib \<Rightarrow> nat \<Rightarrow> path \<Rightarrow> string \<Rightarrow> HunkSource \<Rightarrow> TrackedHunk" where
  "file_deleted lib n p content source =
     make_hunk lib n p \<lparr>old_start = 1, old_count = max (length (str_lines content)) 1, new_start = 0, new_count = 0\<rparr> source (Some content) []"

definition summary :: "TrackedHunk \<Rightarrow> string" where
  "summary h =
     ''+'' @ show_decimal (length (str_lines (new_text h))) @ ''/-''
       @ show_decimal (case old_text h of Some t \<Rightarrow> length (str_lines t) | None \<Rightarrow> 0)"

definition line_info_text :: "HunkLineInfo \<Rightarrow> string" where
  "line_info_text i =
     ''@@ -'' @ show_decimal (old_start i) @ '','' @ show_decimal (old_count i) @ '' +''
       @ show_decimal (new_start i) @ '','' @ show_decimal (new_count i) @ '' @@''"

section \<open>From changes to hunks\<close>

definition MAX_DIFF_FILE_SIZE :: nat where "MAX_DIFF_FILE_SIZE = 1024 * 1024"

record HunkBuilder =
  b_old_start :: nat
  b_new_start :: nat
  b_old_lines :: "string list"
  b_new_lines :: "string list"

definition builder_new :: "nat \<Rightarrow> nat \<Rightarrow> HunkBuilder" where
  "builder_new o_start n_start = \<lparr>b_old_start = o_start, b_new_start = n_start, b_old_lines = [], b_new_lines = []\<rparr>"

definition builder_info :: "HunkBuilder \<Rightarrow> HunkLineInfo" where
  "builder_info b =
     \<lparr>old_start = b_old_start b, old_count = length (b_old_lines b),
      new_start = b_new_start b, new_count = length (b_new_lines b)\<rparr>"

definition build :: "hunk_lib \<Rightarrow> nat \<Rightarrow> path \<Rightarrow> HunkSource \<Rightarrow> HunkBuilder \<Rightarrow> TrackedHunk" where
  "build lib n p source b =
     make_hunk lib n p (builder_info b) source
       (if b_old_lines b = [] then None else Some (concat (b_old_lines b))) (concat (b_new_lines b))"

text \<open>The loop over the changes: finished builders, the one in progress, and the two line numbers.\<close>

record diff_state =
  finished :: "HunkBuilder list"
  current_hunk :: "HunkBuilder option"
  old_line :: nat
  new_line :: nat

definition diff_start :: diff_state where
  "diff_start = \<lparr>finished = [], current_hunk = None, old_line = 1, new_line = 1\<rparr>"

definition close_hunk :: "diff_state \<Rightarrow> HunkBuilder list" where
  "close_hunk st = finished st @ (case current_hunk st of Some b \<Rightarrow> [b] | None \<Rightarrow> [])"

definition in_progress :: "diff_state \<Rightarrow> HunkBuilder" where
  "in_progress st = (case current_hunk st of Some b \<Rightarrow> b | None \<Rightarrow> builder_new (old_line st) (new_line st))"

fun diff_change :: "ChangeTag \<times> string \<Rightarrow> diff_state \<Rightarrow> diff_state" where
  "diff_change (Same, v) st =
     st\<lparr>finished := close_hunk st, current_hunk := None, old_line := old_line st + 1, new_line := new_line st + 1\<rparr>"
| "diff_change (Delete, v) st =
     st\<lparr>current_hunk := Some ((in_progress st)\<lparr>b_old_lines := b_old_lines (in_progress st) @ [v]\<rparr>), old_line := old_line st + 1\<rparr>"
| "diff_change (Insert, v) st =
     st\<lparr>current_hunk := Some ((in_progress st)\<lparr>b_new_lines := b_new_lines (in_progress st) @ [v]\<rparr>), new_line := new_line st + 1\<rparr>"

definition builders :: "(ChangeTag \<times> string) list \<Rightarrow> HunkBuilder list" where
  "builders changes = close_hunk (fold diff_change changes diff_start)"

definition build_all :: "hunk_lib \<Rightarrow> nat \<Rightarrow> path \<Rightarrow> HunkSource \<Rightarrow> HunkBuilder list \<Rightarrow> TrackedHunk list" where
  "build_all lib n p source bs = map (\<lambda>(i, b). build lib (n + i) p source b) (enumerate 0 bs)"

definition compute_hunks :: "hunk_lib \<Rightarrow> nat \<Rightarrow> path \<Rightarrow> string \<Rightarrow> string \<Rightarrow> HunkSource \<Rightarrow> TrackedHunk list" where
  "compute_hunks lib n p baseline current source =
     (if baseline = current then []
      else if MAX_DIFF_FILE_SIZE < length baseline \<or> MAX_DIFF_FILE_SIZE < length current then []
      else case diff_lines lib baseline current of
             None \<Rightarrow> []
           | Some changes \<Rightarrow> build_all lib n p source (builders changes))"

section \<open>Patching and printing\<close>

definition patch_lines :: "string \<Rightarrow> nat \<Rightarrow> nat \<Rightarrow> string \<Rightarrow> string" where
  "patch_lines content start_line remove_count insert_text =
     (let lines = str_lines content;
          start_idx = start_line - 1;
          result = take (min start_idx (length lines)) lines
            @ (if insert_text \<noteq> [] then str_lines insert_text else [])
            @ drop (min (start_idx + remove_count) (length lines)) lines;
          out = join_with [LF] result
      in if ends_with content [LF] \<and> out \<noteq> [] then out @ [LF] else out)"

definition CONTEXT_LINES :: nat where "CONTEXT_LINES = 3"

definition marked_lines :: "char \<Rightarrow> string list \<Rightarrow> string" where
  "marked_lines mark ls = concat (map (\<lambda>l. mark # l @ [LF]) ls)"

text \<open>The lines with indices from the first number up to the second, as far as they exist.\<close>

definition lines_between :: "string list \<Rightarrow> nat \<Rightarrow> nat \<Rightarrow> string list" where
  "lines_between ls i j = take (j - i) (drop i ls)"

text \<open>
  The fragment shown for a hunk. The two numbers of context lines after the hunk are differences of
  unsigned numbers, so that a hunk that reaches past the end of the text is an overflow.
\<close>

definition generate_hunk_patch :: "string \<Rightarrow> string \<Rightarrow> TrackedHunk \<Rightarrow> string option" where
  "generate_hunk_patch baseline current h =
     (let old_lines = str_lines baseline; new_lines = str_lines current;
          old_start_idx = old_start (line_info h) - 1; new_start_idx = new_start (line_info h) - 1;
          context_before_start = old_start_idx - CONTEXT_LINES;
          changes_end_new = new_start_idx + new_count (line_info h);
          context_after_end = min (changes_end_new + CONTEXT_LINES) (length new_lines);
          changes_end_old = old_start_idx + old_count (line_info h);
          context_after_end_old = min (changes_end_old + CONTEXT_LINES) (length old_lines)
      in if context_after_end_old < changes_end_old \<or> context_after_end < changes_end_new then None
         else
           (let before = old_start_idx - context_before_start;
                total_old = before + old_count (line_info h) + (context_after_end_old - changes_end_old);
                total_new = before + new_count (line_info h) + (context_after_end - changes_end_new)
            in Some (line_info_text \<lparr>old_start = context_before_start + 1, old_count = total_old,
                                     new_start = context_before_start + 1, new_count = total_new\<rparr> @ [LF]
                 @ marked_lines (CHR '' '') (lines_between old_lines context_before_start old_start_idx)
                 @ (case old_text h of Some t \<Rightarrow> marked_lines (CHR ''-'') (str_lines t) | None \<Rightarrow> [])
                 @ marked_lines (CHR ''+'') (str_lines (new_text h))
                 @ marked_lines (CHR '' '') (lines_between new_lines changes_end_new context_after_end))))"

definition format_unified_diff :: "(path \<Rightarrow> string) \<Rightarrow> TrackedHunk \<Rightarrow> string" where
  "format_unified_diff display h =
     ''--- a/'' @ display (hunk_path h) @ [LF] @ ''+++ b/'' @ display (hunk_path h) @ [LF] @ line_info_text (line_info h) @ [LF]
       @ (case old_text h of Some t \<Rightarrow> marked_lines (CHR ''-'') (str_lines t) | None \<Rightarrow> [])
       @ marked_lines (CHR ''+'') (str_lines (new_text h))"

section \<open>Matching hunks with older ones\<close>

definition hunks_match_content :: "TrackedHunk \<Rightarrow> TrackedHunk \<Rightarrow> bool" where
  "hunks_match_content a b \<longleftrightarrow> hunk_path a = hunk_path b \<and> old_text a = old_text b \<and> new_text a = new_text b"

definition hunk_moved :: "TrackedHunk \<Rightarrow> TrackedHunk \<Rightarrow> bool" where
  "hunk_moved old new \<longleftrightarrow> hunks_match_content old new \<and> line_info old \<noteq> line_info new"

definition hunks_overlap :: "TrackedHunk \<Rightarrow> TrackedHunk \<Rightarrow> bool" where
  "hunks_overlap a b =
     (if hunk_path a \<noteq> hunk_path b then False
      else
        (let a_start = old_start (line_info a); a_end = a_start + old_count (line_info a);
             b_start = old_start (line_info b); b_end = b_start + old_count (line_info b)
         in if old_count (line_info a) = 0 \<and> old_count (line_info b) = 0 then a_start = b_start
            else if old_count (line_info a) = 0 then b_start \<le> a_start \<and> a_start \<le> b_end
            else if old_count (line_info b) = 0 then a_start \<le> b_start \<and> b_start \<le> a_end
            else \<not> (a_end < b_start \<or> b_end < a_start)))"

definition calculate_overlap_size :: "HunkLineInfo \<Rightarrow> HunkLineInfo \<Rightarrow> nat" where
  "calculate_overlap_size a b =
     min (old_start a + old_count a) (old_start b + old_count b) - max (old_start a) (old_start b)"

definition abs_diff :: "nat \<Rightarrow> nat \<Rightarrow> nat" where
  "abs_diff a b = (if a < b then b - a else a - b)"

text \<open>\<^verbatim>\<open>min_by_key\<close> gives the first of the smallest elements, \<^verbatim>\<open>max_by_key\<close> the last of the greatest.\<close>

fun min_by_key :: "('a \<Rightarrow> nat) \<Rightarrow> 'a list \<Rightarrow> 'a option" where
  "min_by_key f [] = None"
| "min_by_key f (x # xs) =
     (case min_by_key f xs of Some y \<Rightarrow> (if f y < f x then Some y else Some x) | None \<Rightarrow> Some x)"

fun max_by_key :: "('a \<Rightarrow> nat) \<Rightarrow> 'a list \<Rightarrow> 'a option" where
  "max_by_key f [] = None"
| "max_by_key f (x # xs) =
     (case max_by_key f xs of Some y \<Rightarrow> (if f y < f x then Some x else Some y) | None \<Rightarrow> Some x)"

definition find_matching_old_hunk :: "TrackedHunk \<Rightarrow> TrackedHunk list \<Rightarrow> TrackedHunk option" where
  "find_matching_old_hunk new_hunk old_hunks =
     (let content_matches = filter (\<lambda>old. hunks_match_content old new_hunk) old_hunks
      in if content_matches \<noteq> []
         then min_by_key (\<lambda>old. abs_diff (new_start (line_info old)) (new_start (line_info new_hunk))) content_matches
         else max_by_key (\<lambda>old. calculate_overlap_size (line_info old) (line_info new_hunk))
                (filter (\<lambda>old. hunks_overlap old new_hunk) old_hunks))"

definition find_overlapping_hunks :: "TrackedHunk \<Rightarrow> TrackedHunk list \<Rightarrow> TrackedHunk list" where
  "find_overlapping_hunks new_hunk old_hunks = filter (\<lambda>old. hunks_overlap old new_hunk) old_hunks"

section \<open>Taking several hunks over, or back\<close>

text \<open>One hunk, on the baseline or on the current text.\<close>

definition take_over :: "TrackedHunk \<Rightarrow> string \<Rightarrow> string" where
  "take_over h baseline = patch_lines baseline (old_start (line_info h)) (old_count (line_info h)) (new_text h)"

definition take_back :: "TrackedHunk \<Rightarrow> string \<Rightarrow> string" where
  "take_back h current =
     patch_lines current (new_start (line_info h)) (new_count (line_info h)) (case old_text h of Some t \<Rightarrow> t | None \<Rightarrow> [])"

text \<open>Several hunks, the one with the greatest line number first.\<close>

definition take_over_all :: "TrackedHunk list \<Rightarrow> string \<Rightarrow> string" where
  "take_over_all hs baseline = fold take_over (sort_key (\<lambda>h. - int (old_start (line_info h))) hs) baseline"

definition take_back_all :: "TrackedHunk list \<Rightarrow> string \<Rightarrow> string" where
  "take_back_all hs current = fold take_back (sort_key (\<lambda>h. - int (new_start (line_info h))) hs) current"

section \<open>What the hunks say\<close>

text \<open>
  Builders describe how the lines \<open>B\<close> become the lines \<open>C\<close>, counting from two line numbers: unchanged
  lines, then a replaced stretch, and so on. The flag demands an unchanged line in front; \<open>U\<close> are all
  unchanged lines.
\<close>

inductive describes :: "bool \<Rightarrow> nat \<Rightarrow> nat \<Rightarrow> string list \<Rightarrow> string list \<Rightarrow> string list \<Rightarrow> HunkBuilder list \<Rightarrow> bool" where
  rest: "describes gap i j same same same []"
| hunk: "(gap \<Longrightarrow> same \<noteq> []) \<Longrightarrow> old \<noteq> [] \<or> new \<noteq> []
    \<Longrightarrow> b = \<lparr>b_old_start = i + length same, b_new_start = j + length same, b_old_lines = old, b_new_lines = new\<rparr>
    \<Longrightarrow> describes True (i + length same + length old) (j + length same + length new) U B C bs
    \<Longrightarrow> describes gap i j (same @ U) (same @ old @ B) (same @ new @ C) (b # bs)"

definition old_side :: "(ChangeTag \<times> string) list \<Rightarrow> string list" where
  "old_side changes = map snd (filter (\<lambda>c. fst c \<noteq> Insert) changes)"

definition new_side :: "(ChangeTag \<times> string) list \<Rightarrow> string list" where
  "new_side changes = map snd (filter (\<lambda>c. fst c \<noteq> Delete) changes)"

definition unchanged :: "(ChangeTag \<times> string) list \<Rightarrow> string list" where
  "unchanged changes = map snd (filter (\<lambda>c. fst c = Same) changes)"

lemma side_simps [simp]:
  "unchanged [] = []" "unchanged ((Same, v) # cs) = v # unchanged cs"
  "unchanged ((Delete, v) # cs) = unchanged cs" "unchanged ((Insert, v) # cs) = unchanged cs"
  "old_side [] = []" "new_side [] = []"
  "old_side ((Same, v) # cs) = v # old_side cs" "new_side ((Same, v) # cs) = v # new_side cs"
  "old_side ((Delete, v) # cs) = v # old_side cs" "new_side ((Delete, v) # cs) = new_side cs"
  "old_side ((Insert, v) # cs) = old_side cs" "new_side ((Insert, v) # cs) = v # new_side cs"
  by (simp_all add: old_side_def new_side_def unchanged_def)

lemma describes_same: "describes True i j U B C bs \<Longrightarrow> describes gap i j U B C bs"
  by (cases gap) (auto elim: describes.cases intro: describes.intros)

lemma describes_cons:
  assumes "describes gap (Suc i) (Suc j) U B C bs"
  shows "describes gap' i j (v # U) (v # B) (v # C) bs"
  using assms
proof (cases rule: describes.cases)
  case rest
  then show ?thesis using describes.rest [of gap' i j "v # B"] by simp
next
  case (hunk same old new b U' B' C' bs')
  then show ?thesis using describes.hunk [of gap' "v # same" old new b i j U' B' C' bs'] by simp
qed

text \<open>
  The loop from a state without a hunk in progress, and from one with a hunk: what it adds to the
  finished builders.
\<close>

definition later :: "nat \<Rightarrow> nat \<Rightarrow> (ChangeTag \<times> string) list \<Rightarrow> HunkBuilder list" where
  "later i j changes = close_hunk (fold diff_change changes \<lparr>finished = [], current_hunk = None, old_line = i, new_line = j\<rparr>)"

lemma fold_finished:
  "close_hunk (fold diff_change changes st) =
     finished st @ close_hunk (fold diff_change changes (st\<lparr>finished := []\<rparr>))"
proof (induction changes arbitrary: st)
  case (Cons c changes)
  obtain tag v where c: "c = (tag, v)" by (cases c)
  show ?case
  proof (cases tag)
    case Same
    then show ?thesis
      using Cons [of "diff_change c st"] Cons [of "diff_change c (st\<lparr>finished := []\<rparr>)"]
      by (simp add: c close_hunk_def split: option.split)
  qed (use Cons [of "diff_change c st"] Cons [of "diff_change c (st\<lparr>finished := []\<rparr>)"] in
      \<open>simp_all add: c in_progress_def split: option.split\<close>)
qed (simp add: close_hunk_def)

lemma close_hunk_simps [simp]:
  "close_hunk \<lparr>finished = fs, current_hunk = None, old_line = i, new_line = j\<rparr> = fs"
  "close_hunk \<lparr>finished = fs, current_hunk = Some b, old_line = i, new_line = j\<rparr> = fs @ [b]"
  by (simp_all add: close_hunk_def)

lemma later_after:
  "close_hunk (fold diff_change cs \<lparr>finished = fs, current_hunk = None, old_line = i, new_line = j\<rparr>) = fs @ later i j cs"
  by (subst fold_finished) (simp add: later_def)

lemma later_same: "later i j ((Same, v) # cs) = later (Suc i) (Suc j) cs"
  by (simp add: later_def)

lemma describes_here:
  "old \<noteq> [] \<or> new \<noteq> [] \<Longrightarrow> describes True (i + length old) (j + length new) U B C bs \<Longrightarrow>
   describes False i j U (old @ B) (new @ C)
     (\<lparr>b_old_start = i, b_new_start = j, b_old_lines = old, b_new_lines = new\<rparr> # bs)"
  using describes.hunk [of False "[]" old new _ i j U B C bs] by simp

lemma loop_describes:
  "describes False i j (unchanged cs) (old_side cs) (new_side cs) (later i j cs)
   \<and> (\<forall>bi bj old new. old \<noteq> [] \<or> new \<noteq> [] \<longrightarrow>
       describes False bi bj (unchanged cs) (old @ old_side cs) (new @ new_side cs)
         (close_hunk (fold diff_change cs
            \<lparr>finished = [], current_hunk = Some \<lparr>b_old_start = bi, b_new_start = bj, b_old_lines = old, b_new_lines = new\<rparr>,
             old_line = bi + length old, new_line = bj + length new\<rparr>)))"
proof (induction cs arbitrary: i j)
  case Nil
  have "describes False bi bj [] old new [\<lparr>b_old_start = bi, b_new_start = bj, b_old_lines = old, b_new_lines = new\<rparr>]"
    if "old \<noteq> [] \<or> new \<noteq> []" for bi bj old new
    using describes_here [OF that describes.rest [of True _ _ "[]"]] by simp
  then show ?case using describes.rest [of False i j "[]"] by (simp add: later_def close_hunk_def)
next
  case (Cons c cs)
  note free = conjunct1 [OF Cons.IH] and busy = conjunct2 [OF Cons.IH, rule_format]
  obtain tag v where c: "c = (tag, v)" by (cases c)
  show ?case
  proof (cases tag)
    case Same
    have gap: "describes g bi bj (v # unchanged cs) (v # old_side cs) (v # new_side cs) (later (Suc bi) (Suc bj) cs)" for g bi bj
      by (rule describes_cons [OF free])
    show ?thesis
    proof (intro conjI allI impI)
      show "describes False i j (unchanged (c # cs)) (old_side (c # cs)) (new_side (c # cs)) (later i j (c # cs))"
        using gap by (simp add: c Same later_same)
    next
      fix bi bj and old new :: "string list"
      assume "old \<noteq> [] \<or> new \<noteq> []"
      from describes_here [OF this gap] show "describes False bi bj (unchanged (c # cs)) (old @ old_side (c # cs)) (new @ new_side (c # cs))
         (close_hunk (fold diff_change (c # cs)
            \<lparr>finished = [], current_hunk = Some \<lparr>b_old_start = bi, b_new_start = bj, b_old_lines = old, b_new_lines = new\<rparr>,
             old_line = bi + length old, new_line = bj + length new\<rparr>))"
        by (simp add: c Same later_after)
    qed
  next
    case Delete
    then show ?thesis
      using busy [where old = "[v]" and new = "[]" and bi = i and bj = j] busy [where old = "_ @ [v]"]
      by (auto simp: c later_def in_progress_def builder_new_def)
  next
    case Insert
    then show ?thesis
      using busy [where new = "[v]" and old = "[]" and bi = i and bj = j] busy [where new = "_ @ [v]"]
      by (auto simp: c later_def in_progress_def builder_new_def)
  qed
qed

lemma builders_describe: "describes False 1 1 (unchanged changes) (old_side changes) (new_side changes) (builders changes)"
  using loop_describes [of 1 1 changes] by (simp add: builders_def later_def diff_start_def)

section \<open>Undoing and redoing hunks\<close>

definition splice_lines :: "nat \<Rightarrow> nat \<Rightarrow> 'a list \<Rightarrow> 'a list \<Rightarrow> 'a list" where
  "splice_lines start k X L = take (start - 1) L @ X @ drop (start - 1 + k) L"

lemma splice_at: "splice_lines (Suc (length pre)) (length old) new (pre @ old @ rest) = pre @ new @ rest"
  by (simp add: splice_lines_def)

text \<open>Lines that end in a line feed and have no carriage return before it.\<close>

definition raw_line :: "string \<Rightarrow> bool" where
  "raw_line r \<longleftrightarrow> (\<exists>l. plain_line l \<and> r = l @ [LF])"

lemma raw_lines_obtain:
  assumes "list_all raw_line R"
  obtains ls where "list_all plain_line ls" "R = map (\<lambda>l. l @ [LF]) ls"
proof -
  have "\<exists>ls. list_all plain_line ls \<and> R = map (\<lambda>l. l @ [LF]) ls"
    using assms
  proof (induction R)
    case (Cons r R)
    then obtain ls l where "list_all plain_line ls" "R = map (\<lambda>l. l @ [LF]) ls" "plain_line l" "r = l @ [LF]"
      by (auto simp: raw_line_def)
    then show ?case by (intro exI [of _ "l # ls"]) simp
  qed simp
  with that show ?thesis by blast
qed

lemma join_lines: "ls \<noteq> [] \<Longrightarrow> join_with [LF] ls @ [LF] = unlines ls"
  by (induction "[LF]" ls rule: join_with.induct) (auto simp: end_lines_def)

lemma join_lines_Nil: "join_with [LF] ls = [] \<longleftrightarrow> ls = [] \<or> ls = [[]]"
  by (cases ls rule: remdups_adj.cases) auto

lemma unlines_ends: "ls \<noteq> [] \<Longrightarrow> ends_with (unlines ls) [LF]"
  using join_lines [of ls] by (metis ends_with_iff suffixI)

lemma patch_text:
  assumes "list_all raw_line L" "list_all raw_line X" "L \<noteq> []" "splice_lines start k X L \<noteq> [[LF]]"
  shows "patch_lines (concat L) start k (concat X) = concat (splice_lines start k X L)"
proof -
  obtain ls where ls: "list_all plain_line ls" "L = map (\<lambda>l. l @ [LF]) ls" using raw_lines_obtain [OF assms(1)] .
  obtain xs where xs: "list_all plain_line xs" "X = map (\<lambda>l. l @ [LF]) xs" using raw_lines_obtain [OF assms(2)] .
  let ?R = "splice_lines start k xs ls"
  have texts: "concat L = unlines ls" "concat X = unlines xs" by (simp_all add: ls(2) xs(2) end_lines_def)
  have R: "splice_lines start k X L = map (\<lambda>l. l @ [LF]) ?R"
    by (simp add: splice_lines_def ls(2) xs(2) take_map drop_map)
  then have "concat (splice_lines start k X L) = unlines ?R" by (simp add: end_lines_def)
  moreover have "(if unlines xs \<noteq> [] then str_lines (unlines xs) else []) = xs"
    using str_lines_unlines [OF xs(1)] by (cases xs) (auto simp: end_lines_def)
  then have "patch_lines (unlines ls) start k (unlines xs) =
      (if join_with [LF] ?R \<noteq> [] then join_with [LF] ?R @ [LF] else join_with [LF] ?R)"
    using unlines_ends [of ls] assms(3) ls(2)
    by (simp add: patch_lines_def Let_def str_lines_unlines [OF ls(1)] splice_lines_def min_def)
  ultimately show ?thesis
    using assms(4) R join_lines [of ?R] unfolding texts by (auto simp: join_lines_Nil end_lines_def)
qed

text \<open>Undoing the hunks from the last to the first.\<close>

definition undo :: "HunkBuilder \<Rightarrow> string \<Rightarrow> string" where
  "undo b t = patch_lines t (b_new_start b) (length (b_new_lines b)) (concat (b_old_lines b))"

definition redo :: "HunkBuilder \<Rightarrow> string \<Rightarrow> string" where
  "redo b t = patch_lines t (b_old_start b) (length (b_old_lines b)) (concat (b_new_lines b))"

lemma undo_one:
  assumes "list_all raw_line (pre @ old @ new @ rest)" "pre @ new @ rest \<noteq> []" "pre @ old @ rest \<noteq> [[LF]]"
    and "b_new_start b = Suc (length pre)" "b_new_lines b = new" "b_old_lines b = old"
  shows "undo b (concat (pre @ new @ rest)) = concat (pre @ old @ rest)"
  unfolding undo_def assms(4,5,6)
  using patch_text [of "pre @ new @ rest" old "Suc (length pre)" "length new"] assms(1,2,3) splice_at [of pre new old rest]
  by simp

lemma in_two: "l \<noteq> x \<Longrightarrow> l \<in> set ls \<Longrightarrow> ls \<noteq> [] \<and> ls \<noteq> [x]"
  by auto

lemma describes_unchanged: "describes gap i j U B C bs \<Longrightarrow> set U \<subseteq> set B \<and> set U \<subseteq> set C"
  by (induction rule: describes.induct) auto

lemma undo_fold:
  assumes "describes gap i j U B C bs" "Suc (length pre) = j" "list_all raw_line (pre @ B @ C)" "l \<noteq> [LF]" "l \<in> set (pre @ U)"
  shows "foldr undo bs (concat (pre @ C)) = concat (pre @ B)"
  using assms
proof (induction arbitrary: pre rule: describes.induct)
  case (hunk gap same old new b i j U B C bs)
  have "foldr undo bs (concat ((pre @ same @ new) @ C)) = concat ((pre @ same @ new) @ B)"
    using hunk.prems by (intro hunk.IH) auto
  moreover have "l \<in> set ((pre @ same) @ new @ B)" "l \<in> set ((pre @ same) @ old @ B)"
    using hunk.prems(4) describes_unchanged [OF hunk.hyps(4)] by auto
  then have "undo b (concat ((pre @ same) @ new @ B)) = concat ((pre @ same) @ old @ B)"
    using hunk.prems hunk.hyps(3) in_two [OF hunk.prems(3)] by (intro undo_one) auto
  ultimately show ?case by simp
qed simp

lemma no_gap: "describes True i j [] B C bs \<Longrightarrow> bs = []"
  by (cases rule: describes.cases) auto

lemma undo_single:
  assumes "describes False 1 1 [] B C bs" "list_all raw_line (B @ C)" "C \<noteq> []" "B \<noteq> [[LF]]"
  shows "foldr undo bs (concat C) = concat B"
  using assms(1)
proof (cases rule: describes.cases)
  case (hunk same old new b U' B' C' bs')
  then have "same = []" "U' = []" by auto
  with hunk(8) no_gap [of _ _ B' C' bs'] have "bs' = []" by simp
  moreover from this \<open>U' = []\<close> hunk(8) have "B' = []" "C' = []" by (auto elim: describes.cases)
  ultimately show ?thesis
    using undo_one [of "[]" old new "[]" b] assms(2,3,4) hunk \<open>same = []\<close> by auto
qed simp

definition flip_builder :: "HunkBuilder \<Rightarrow> HunkBuilder" where
  "flip_builder b =
     \<lparr>b_old_start = b_new_start b, b_new_start = b_old_start b, b_old_lines = b_new_lines b, b_new_lines = b_old_lines b\<rparr>"

lemma describes_flip: "describes gap i j U B C bs \<Longrightarrow> describes gap j i U C B (map flip_builder bs)"
proof (induction rule: describes.induct)
  case (hunk gap same old new b i j U B C bs)
  show ?case
    unfolding list.map
    by (rule describes.hunk [OF hunk.hyps(1) _ _ hunk.IH]) (use hunk.hyps(2,3) in \<open>auto simp: flip_builder_def\<close>)
qed (simp add: describes.rest)

lemma flip_undo: "undo (flip_builder b) = redo b"
  by (simp add: fun_eq_iff undo_def redo_def flip_builder_def)

lemma foldr_flip: "foldr undo (map flip_builder bs) t = foldr redo bs t"
  by (induction bs) (simp_all add: flip_undo)

lemma increasing:
  assumes "describes gap i j U B C bs"
  shows "list_all (\<lambda>b. j \<le> b_new_start b \<and> (gap \<longrightarrow> j < b_new_start b)) bs \<and> sorted_wrt (\<lambda>a b. b_new_start a < b_new_start b) bs"
  using assms
proof (induction rule: describes.induct)
  case (hunk gap same old new b i j U B C bs)
  then show ?case by (fastforce simp: list_all_iff)
qed simp

section \<open>Hunks and builders\<close>

text \<open>What of a hunk the patches depend on.\<close>

definition shape :: "TrackedHunk \<Rightarrow> path \<times> HunkLineInfo \<times> string option \<times> string" where
  "shape h = (hunk_path h, line_info h, old_text h, new_text h)"

lemma sort_descending:
  fixes f :: "'a \<Rightarrow> nat"
  assumes "sorted_wrt (\<lambda>a b. f a < f b) xs"
  shows "sort_key (\<lambda>x. - int (f x)) xs = rev xs"
proof (rule sort_key_inj_key_eq)
  have "sorted_wrt (<) (map f xs)" using assms by (simp add: sorted_wrt_map)
  then have "inj_on f (set xs)" by (simp add: strict_sorted_iff distinct_map)
  then show "inj_on (\<lambda>x. - int (f x)) (set xs)" by (auto simp: inj_on_def)
  show "sorted (map (\<lambda>x. - int (f x)) (rev xs))"
    using assms by (induction xs) (auto simp: sorted_append)
qed simp

definition builder_shape :: "path \<Rightarrow> HunkBuilder \<Rightarrow> path \<times> HunkLineInfo \<times> string option \<times> string" where
  "builder_shape p b =
     (p, builder_info b, if b_old_lines b = [] then None else Some (concat (b_old_lines b)), concat (b_new_lines b))"

lemma build_all_shape: "map shape (build_all lib n p source bs) = map (builder_shape p) bs"
  by (intro nth_equalityI)
     (simp_all add: build_all_def builder_shape_def shape_def build_def make_hunk_def enumerate_eq_zip)

lemma shape_patches:
  assumes "shape h = builder_shape p b"
  shows "take_back h = undo b" "take_over h = redo b" "new_start (line_info h) = b_new_start b" "old_start (line_info h) = b_old_start b"
  using assms by (auto simp: fun_eq_iff shape_def builder_shape_def take_back_def undo_def take_over_def redo_def builder_info_def)

lemma patches_by_builders:
  assumes "map shape hs = map (builder_shape p) bs"
  shows "foldr take_back hs t = foldr undo bs t \<and> foldr take_over hs t = foldr redo bs t
    \<and> map (\<lambda>h. new_start (line_info h)) hs = map b_new_start bs \<and> map (\<lambda>h. old_start (line_info h)) hs = map b_old_start bs"
  using assms
proof (induction hs arbitrary: bs)
  case (Cons h hs)
  then obtain b bs' where "bs = b # bs'" "shape h = builder_shape p b" "map shape hs = map (builder_shape p) bs'" by auto
  with Cons.IH [of bs'] show ?case by (simp add: shape_patches)
qed simp

text \<open>
  What is assumed of the diff library for two texts: its changes, read for the old and for the new
  side, are the lines of the texts, each with its line feed and no carriage return; there are a few
  words about blank lines, since patched text that becomes empty loses its final line feed.
\<close>

definition clean_diff :: "hunk_lib \<Rightarrow> string \<Rightarrow> string \<Rightarrow> bool" where
  "clean_diff lib baseline current \<longleftrightarrow>
     (case diff_lines lib baseline current of
        None \<Rightarrow> False
      | Some changes \<Rightarrow>
          concat (old_side changes) = baseline \<and> concat (new_side changes) = current
          \<and> list_all raw_line (old_side changes) \<and> list_all raw_line (new_side changes)
          \<and> baseline \<notin> {[], [LF]} \<and> current \<notin> {[], [LF]}
          \<and> (unchanged changes = [] \<or> list_ex (\<lambda>l. l \<noteq> [LF]) (unchanged changes)))"

lemma fold_descending:
  assumes "sorted_wrt (<) (map f xs)"
  shows "fold g (sort_key (\<lambda>x. - int (f x)) xs) t = foldr g xs t"
  using assms by (simp add: sort_descending sorted_wrt_map foldr_conv_fold)

lemma batch_patches:
  assumes "clean_diff lib baseline current" "baseline \<noteq> current"
    and "map shape hs = map (builder_shape p) (builders changes)" "diff_lines lib baseline current = Some changes"
  shows "take_back_all hs current = baseline" "take_over_all hs baseline = current"
proof -
  let ?B = "old_side changes" and ?C = "new_side changes" and ?U = "unchanged changes" and ?bs = "builders changes"
  have diff: "concat ?B = baseline" "concat ?C = current" "list_all raw_line (?B @ ?C)" "list_all raw_line (?C @ ?B)"
      and ends: "baseline \<notin> {[], [LF]}" "current \<notin> {[], [LF]}"
      and common: "?U = [] \<or> (\<exists>l. l \<noteq> [LF] \<and> l \<in> set ?U)"
    using assms(1,4) by (auto simp: clean_diff_def list_ex_iff)
  have solid: "?B \<noteq> []" "?B \<noteq> [[LF]]" "?C \<noteq> []" "?C \<noteq> [[LF]]" using diff(1,2) ends by auto
  note there = builders_describe [of changes] and flipped = describes_flip [OF builders_describe [of changes]]
  have order: "sorted_wrt (<) (map b_new_start ?bs)" "sorted_wrt (<) (map b_old_start ?bs)"
    using increasing [OF there] increasing [OF flipped] by (simp_all add: sorted_wrt_map flip_builder_def)
  have "foldr undo ?bs (concat ?C) = concat ?B"
    using common there undo_fold [OF there, of "[]"] undo_single [of ?B ?C ?bs] diff(3) solid by auto
  then show "take_back_all hs current = baseline"
    using patches_by_builders [OF assms(3)] order(1) diff(1,2) by (simp add: take_back_all_def fold_descending)
  have "foldr redo ?bs (concat ?B) = concat ?C"
    using common flipped undo_fold [OF flipped, of "[]"] undo_single [of ?C ?B "map flip_builder ?bs"] diff(4) solid
    by (auto simp: foldr_flip)
  then show "take_over_all hs baseline = current"
    using patches_by_builders [OF assms(3)] order(2) diff(1,2) by (simp add: take_over_all_def fold_descending)
qed

end
