(* ===== verification/Hunk_Tracker.thy ===== *)
theory Hunk_Tracker
  imports Hunk_Diff "HOL-Library.AList"
begin

text \<open>
  The state of the hunk tracker (\<^verbatim>\<open>xai-hunk-tracker/src/actor/state.rs\<close>, \<^verbatim>\<open>file_utils.rs\<close>, \<^verbatim>\<open>hunks.rs\<close>): contents of
  files, the hunks of a file and how they are computed anew after a change, with the identifiers and
  authors of old hunks carried over, the index by turn, and the events. A hash map of files is a list
  of pairs, about whose order nothing is assumed. The disk is part of the state, because rejected
  hunks are written to it.
\<close>

section \<open>Contents\<close>

datatype FileContentState =
    Missing
  | Binary "nat option"
  | TooLarge nat
  | LfsPointer nat
  | Symlink
  | Full string

fun content_text :: "FileContentState \<Rightarrow> string option" where
  "content_text (Full s) = Some s"
| "content_text _ = None"

definition is_diffable :: "FileContentState \<Rightarrow> bool" where
  "is_diffable c \<longleftrightarrow> content_text c \<noteq> None"

fun content_byte_len :: "FileContentState \<Rightarrow> nat option" where
  "content_byte_len Missing = Some 0"
| "content_byte_len (Binary n) = n"
| "content_byte_len (TooLarge n) = Some n"
| "content_byte_len (LfsPointer n) = Some n"
| "content_byte_len Symlink = None"
| "content_byte_len (Full s) = Some (length s)"

definition MAX_TRACKED_TEXT_BYTES :: nat where "MAX_TRACKED_TEXT_BYTES = 1024 * 1024"

definition LFS_POINTER_PREFIX :: string where
  "LFS_POINTER_PREFIX = ''version https://git-lfs.github.com/spec/v1'' @ [LF]"

definition is_lfs_pointer :: "string \<Rightarrow> bool" where
  "is_lfs_pointer bytes \<longleftrightarrow> length bytes < 1024 \<and> starts_with bytes LFS_POINTER_PREFIX"

definition is_binary :: "string \<Rightarrow> bool" where
  "is_binary content \<longleftrightarrow> CHR 0x00 \<in> set (take 8000 content)"

text \<open>\<^verbatim>\<open>String::from_utf8\<close>: well-formed byte sequences.\<close>

definition in_range :: "char \<Rightarrow> nat \<Rightarrow> nat \<Rightarrow> bool" where
  "in_range c lo hi \<longleftrightarrow> lo \<le> of_char c \<and> of_char c \<le> hi"

fun valid_utf8 :: "string \<Rightarrow> bool" where
  "valid_utf8 [] = True"
| "valid_utf8 (a # s) =
     (if in_range a 0 0x7F then valid_utf8 s
      else case s of
        [] \<Rightarrow> False
      | b # t \<Rightarrow>
          if in_range a 0xC2 0xDF then in_range b 0x80 0xBF \<and> valid_utf8 t
          else (case t of
            [] \<Rightarrow> False
          | c # u \<Rightarrow>
              if in_range a 0xE0 0xEF then
                in_range b (if in_range a 0xE0 0xE0 then 0xA0 else 0x80) (if in_range a 0xED 0xED then 0x9F else 0xBF)
                \<and> in_range c 0x80 0xBF \<and> valid_utf8 u
              else (case u of
                [] \<Rightarrow> False
              | d # v \<Rightarrow>
                  in_range a 0xF0 0xF4
                  \<and> in_range b (if in_range a 0xF0 0xF0 then 0x90 else 0x80) (if in_range a 0xF4 0xF4 then 0x8F else 0xBF)
                  \<and> in_range c 0x80 0xBF \<and> in_range d 0x80 0xBF \<and> valid_utf8 v)))"

definition classify_string :: "string \<Rightarrow> FileContentState" where
  "classify_string s =
     (if MAX_TRACKED_TEXT_BYTES < length s then TooLarge (length s)
      else if is_lfs_pointer s then LfsPointer (length s)
      else if is_binary s then Binary (Some (length s))
      else Full s)"

definition classify_bytes :: "string \<Rightarrow> FileContentState" where
  "classify_bytes bytes =
     (if MAX_TRACKED_TEXT_BYTES < length bytes then TooLarge (length bytes)
      else if is_lfs_pointer bytes then LfsPointer (length bytes)
      else if is_binary bytes then Binary (Some (length bytes))
      else if valid_utf8 bytes then Full bytes else Binary (Some (length bytes)))"

text \<open>What stands under a path on disk.\<close>

datatype disk_node = LinkNode | DirNode | FileNode bool string

text \<open>
  A bounded read. The flag of a file says whether it can be opened; its first 8,000 bytes are looked
  at before the rest is read.
\<close>

definition read_file_bounded :: "disk_node option \<Rightarrow> FileContentState" where
  "read_file_bounded node =
     (case node of
        None \<Rightarrow> Missing
      | Some LinkNode \<Rightarrow> Symlink
      | Some DirNode \<Rightarrow> Missing
      | Some (FileNode readable bytes) \<Rightarrow>
          (let byte_len = length bytes; prefix_buf = take 8000 bytes
           in if MAX_TRACKED_TEXT_BYTES < byte_len then TooLarge byte_len
              else if \<not> readable then Missing
              else if is_lfs_pointer prefix_buf then LfsPointer byte_len
              else if is_binary prefix_buf then Binary (Some byte_len)
              else if valid_utf8 bytes then Full bytes else Binary (Some byte_len)))"

section \<open>State\<close>

record FileHunkState =
  baseline :: FileContentState
  current_content :: FileContentState
  file_hunks :: "TrackedHunk list"
  is_agent_file :: bool
  baseline_accepted :: bool

record SessionStats =
  accepted_hunks :: nat
  rejected_hunks :: nat
  accepted_lines_added :: nat
  accepted_lines_removed :: nat
  rejected_lines_added :: nat
  rejected_lines_removed :: nat

definition no_stats :: SessionStats where
  "no_stats =
     \<lparr>accepted_hunks = 0, rejected_hunks = 0, accepted_lines_added = 0, accepted_lines_removed = 0,
      rejected_lines_added = 0, rejected_lines_removed = 0\<rparr>"

datatype TrackingMode = AgentOnly | AllDirty

datatype GitRepoState = UnknownRepo | NotARepo | Discovered path

record RepoSyncState =
  head_oid :: "string option"
  index_mtime :: "nat option"

datatype HunkRemovalReason = AcceptedHunk | RejectedHunk | Superseded

datatype HunkEvent =
    HunkAdded path TrackedHunk
  | HunkRemoved path string HunkRemovalReason
  | HunkMoved path string HunkLineInfo
  | HunkContentChanged path TrackedHunk HunkSource nat nat
  | FileAdded path bool
  | FileRemoved path
  | BaselineUpdated path

type_synonym turn_table = "nat \<rightharpoonup> string set"

record tracker =
  working_dir :: path
  file_states :: "(path \<times> FileHunkState) list"
  turn_index :: turn_table
  git_dirty_cache :: "path list"
  git_staged_cache :: "path list"
  git_repo_state :: GitRepoState
  repo_sync_state :: RepoSyncState
  tracking_mode :: TrackingMode
  session_stats :: SessionStats
  disk :: "path \<rightharpoonup> disk_node"
  minted :: nat
  sent :: "HunkEvent list"

definition file_state :: "tracker \<Rightarrow> path \<Rightarrow> FileHunkState option" where
  "file_state st p = map_of (file_states st) p"

definition put_file :: "path \<Rightarrow> FileHunkState \<Rightarrow> tracker \<Rightarrow> tracker" where
  "put_file p fs st = st\<lparr>file_states := AList.update p fs (file_states st)\<rparr>"

definition drop_file :: "path \<Rightarrow> tracker \<Rightarrow> tracker" where
  "drop_file p st = st\<lparr>file_states := AList.delete p (file_states st)\<rparr>"

definition send_events :: "HunkEvent list \<Rightarrow> tracker \<Rightarrow> tracker" where
  "send_events es st = st\<lparr>sent := sent st @ es\<rparr>"

section \<open>The index by turn\<close>

definition turn_remove :: "TrackedHunk \<Rightarrow> turn_table \<Rightarrow> turn_table" where
  "turn_remove h ix =
     (case prompt_index (hunk_source h) of
        Some i \<Rightarrow> (case ix i of Some ids \<Rightarrow> ix(i \<mapsto> ids - {hunk_id h}) | None \<Rightarrow> ix)
      | None \<Rightarrow> ix)"

definition turn_insert :: "TrackedHunk \<Rightarrow> turn_table \<Rightarrow> turn_table" where
  "turn_insert h ix =
     (case prompt_index (hunk_source h) of
        Some i \<Rightarrow> ix(i \<mapsto> insert (hunk_id h) (case ix i of Some ids \<Rightarrow> ids | None \<Rightarrow> {}))
      | None \<Rightarrow> ix)"

section \<open>Computing the hunks of a file anew\<close>

definition fresh_hunks :: "hunk_lib \<Rightarrow> nat \<Rightarrow> path \<Rightarrow> FileContentState \<Rightarrow> FileContentState \<Rightarrow> HunkSource \<Rightarrow> TrackedHunk list" where
  "fresh_hunks lib n p base cur source =
     (case (base, cur) of
        (Full b, Full c) \<Rightarrow> compute_hunks lib n p b c source
      | (Full b, Missing) \<Rightarrow> (if b = [] then [] else [file_deleted lib n p b source])
      | (Missing, Full c) \<Rightarrow> (if c = [] then [] else [file_created lib n p c source])
      | _ \<Rightarrow> [])"

definition inherit :: "TrackedHunk \<Rightarrow> TrackedHunk \<Rightarrow> TrackedHunk" where
  "inherit best_match h =
     h\<lparr>hunk_id := hunk_id best_match,
       hunk_source := (if is_external (hunk_source h) \<and> is_agent_edit (hunk_source best_match) then hunk_source best_match
                       else hunk_source h)\<rparr>"

text \<open>Identifiers and authors from matching old hunks, each old hunk at most once.\<close>

fun carry_over :: "TrackedHunk list \<Rightarrow> string set \<Rightarrow> TrackedHunk list \<Rightarrow> TrackedHunk list" where
  "carry_over old_hunks claimed [] = []"
| "carry_over old_hunks claimed (h # hs) =
     (case find_matching_old_hunk h old_hunks of
        Some best_match \<Rightarrow>
          (if hunk_id best_match \<in> claimed then h # carry_over old_hunks claimed hs
           else inherit best_match h # carry_over old_hunks (insert (hunk_id best_match) claimed) hs)
      | None \<Rightarrow> h # carry_over old_hunks claimed hs)"

definition removed_event :: "path \<Rightarrow> TrackedHunk list \<Rightarrow> TrackedHunk \<Rightarrow> HunkEvent list" where
  "removed_event p new_hunks old_hunk =
     (if list_ex (\<lambda>n. hunks_overlap old_hunk n \<or> hunks_match_content old_hunk n) new_hunks then []
      else [HunkRemoved p (hunk_id old_hunk) Superseded])"

definition changed_event :: "path \<Rightarrow> TrackedHunk list \<Rightarrow> HunkSource \<Rightarrow> TrackedHunk \<Rightarrow> HunkEvent" where
  "changed_event p old_hunks trigger_source new_hunk =
     (let previous = (case find (\<lambda>old. hunk_id old = hunk_id new_hunk) old_hunks of
                        Some old \<Rightarrow> Some old
                      | None \<Rightarrow> find (\<lambda>old. hunks_overlap old new_hunk) old_hunks);
          (lines_added, lines_removed) =
            (case previous of Some h \<Rightarrow> (new_count (line_info h), old_count (line_info h)) | None \<Rightarrow> (0, 0))
      in HunkContentChanged p new_hunk trigger_source lines_added lines_removed)"

definition added_event :: "path \<Rightarrow> TrackedHunk list \<Rightarrow> HunkSource \<Rightarrow> TrackedHunk \<Rightarrow> HunkEvent list" where
  "added_event p old_hunks trigger_source new_hunk =
     (case find (\<lambda>old. hunks_match_content old new_hunk) old_hunks of
        Some old_hunk \<Rightarrow>
          (if hunk_moved old_hunk new_hunk then [HunkMoved p (hunk_id old_hunk) (line_info new_hunk)] else [])
      | None \<Rightarrow>
          (if \<not> list_ex (\<lambda>old. hunks_overlap old new_hunk) old_hunks then [HunkAdded p new_hunk]
           else [changed_event p old_hunks trigger_source new_hunk]))"

definition emit_hunk_diff_events :: "path \<Rightarrow> TrackedHunk list \<Rightarrow> TrackedHunk list \<Rightarrow> HunkSource \<Rightarrow> HunkEvent list" where
  "emit_hunk_diff_events p old_hunks new_hunks trigger_source =
     concat (map (removed_event p new_hunks) old_hunks) @ concat (map (added_event p old_hunks trigger_source) new_hunks)"

definition recompute_hunks :: "hunk_lib \<Rightarrow> path \<Rightarrow> FileContentState option \<Rightarrow> HunkSource \<Rightarrow> tracker \<Rightarrow> tracker" where
  "recompute_hunks lib p new_current source st =
     (case file_state st p of
        None \<Rightarrow> st
      | Some fs \<Rightarrow>
          (let old_hunks = file_hunks fs;
               cur = (case new_current of Some c \<Rightarrow> c | None \<Rightarrow> Missing);
               made = fresh_hunks lib (minted st) p (baseline fs) cur source;
               new_hunks = carry_over old_hunks {} made;
               ix = fold turn_insert new_hunks (fold turn_remove old_hunks (turn_index st))
           in send_events (emit_hunk_diff_events p old_hunks new_hunks source)
                ((put_file p (fs\<lparr>current_content := cur, file_hunks := new_hunks\<rparr>) st)
                  \<lparr>turn_index := ix, minted := minted st + length made\<rparr>)))"

end
