(* ===== verification/Hunk_Actions.thy ===== *)
theory Hunk_Actions
  imports Hunk_Tracker
begin

text \<open>
  Accepting and rejecting hunks (\<^verbatim>\<open>xai-hunk-tracker/src/actor/actions.rs\<close>): an accepted hunk is taken over
  into the baseline, a rejected one is taken back in the file on disk. Whether the disk lets a file be
  written or removed is a function of the path.
\<close>

section \<open>Actions\<close>

datatype HunkAction = Accept | Reject

datatype HunkActionError =
    HunkNotFound string
  | WriteError path
  | DeleteError path
  | ReadError path

record disk_rights =
  can_write :: "path \<Rightarrow> bool"
  can_remove :: "path \<Rightarrow> bool"

definition USIZE_MAX :: nat where "USIZE_MAX = 2 ^ 64 - 1"

definition saturating_add :: "nat \<Rightarrow> nat \<Rightarrow> nat" where
  "saturating_add a b = min (a + b) USIZE_MAX"

definition update_session_stats :: "HunkLineInfo \<Rightarrow> bool \<Rightarrow> tracker \<Rightarrow> tracker" where
  "update_session_stats info accepted st =
     (let s = session_stats st
      in st\<lparr>session_stats :=
           (if accepted
            then s\<lparr>accepted_hunks := saturating_add (accepted_hunks s) 1,
                   accepted_lines_added := saturating_add (accepted_lines_added s) (new_count info),
                   accepted_lines_removed := saturating_add (accepted_lines_removed s) (old_count info)\<rparr>
            else s\<lparr>rejected_hunks := saturating_add (rejected_hunks s) 1,
                   rejected_lines_added := saturating_add (rejected_lines_added s) (new_count info),
                   rejected_lines_removed := saturating_add (rejected_lines_removed s) (old_count info)\<rparr>)\<rparr>)"

definition remove_from_turn_index :: "TrackedHunk \<Rightarrow> tracker \<Rightarrow> tracker" where
  "remove_from_turn_index h st = st\<lparr>turn_index := turn_remove h (turn_index st)\<rparr>"

definition write_file :: "disk_rights \<Rightarrow> path \<Rightarrow> string \<Rightarrow> tracker \<Rightarrow> HunkActionError + tracker" where
  "write_file rights p content st =
     (if can_write rights p then Inr (st\<lparr>disk := (disk st)(p \<mapsto> FileNode True content)\<rparr>) else Inl (WriteError p))"

definition remove_file :: "disk_rights \<Rightarrow> path \<Rightarrow> tracker \<Rightarrow> HunkActionError + tracker" where
  "remove_file rights p st =
     (if can_remove rights p then Inr (st\<lparr>disk := (disk st)(p := None)\<rparr>) else Inl (DeleteError p))"

definition remaining_source :: "path \<Rightarrow> tracker \<Rightarrow> HunkSource" where
  "remaining_source p st =
     (case map_option file_hunks (file_state st p) of Some (h # _) \<Rightarrow> hunk_source h | _ \<Rightarrow> External)"

definition without_hunks :: "TrackedHunk list \<Rightarrow> TrackedHunk list \<Rightarrow> TrackedHunk list" where
  "without_hunks done_with hs = filter (\<lambda>h. hunk_id h \<notin> hunk_id ` set done_with) hs"

definition removal_events :: "path \<Rightarrow> HunkRemovalReason \<Rightarrow> TrackedHunk list \<Rightarrow> HunkEvent list" where
  "removal_events p reason hs = map (\<lambda>h. HunkRemoved p (hunk_id h) reason) hs"

section \<open>One hunk\<close>

definition accept_hunk :: "hunk_lib \<Rightarrow> path \<Rightarrow> TrackedHunk \<Rightarrow> tracker \<Rightarrow> tracker" where
  "accept_hunk lib p h st =
     (case file_state st p of
        None \<Rightarrow> st
      | Some fs \<Rightarrow>
          (let note = send_events [HunkRemoved p (hunk_id h) AcceptedHunk, BaselineUpdated p];
               left = without_hunks [h] (file_hunks fs)
           in if baseline fs = Missing
              then note (put_file p (fs\<lparr>baseline := current_content fs, baseline_accepted := True, file_hunks := left\<rparr>) st)
              else
                (let patched = (case baseline fs of Full b \<Rightarrow> Full (take_over h b) | other \<Rightarrow> other);
                     st = note (put_file p (fs\<lparr>baseline := patched, baseline_accepted := True, file_hunks := left\<rparr>) st)
                 in recompute_hunks lib p (Some (current_content fs)) (remaining_source p st) st)))"

text \<open>What rejecting does with the file.\<close>

datatype RejectAction = RestoreDeleted string | DeleteCreated | RevertChange string | NoOp

definition reject_action :: "FileHunkState \<Rightarrow> TrackedHunk \<Rightarrow> RejectAction" where
  "reject_action fs h =
     (case (current_content fs, baseline fs) of
        (Missing, Full b) \<Rightarrow> RestoreDeleted b
      | (Full _, Missing) \<Rightarrow> DeleteCreated
      | (Full current, _) \<Rightarrow> RevertChange (take_back h current)
      | _ \<Rightarrow> NoOp)"

definition reject_hunk :: "hunk_lib \<Rightarrow> disk_rights \<Rightarrow> path \<Rightarrow> TrackedHunk \<Rightarrow> tracker \<Rightarrow> tracker \<times> HunkActionError option" where
  "reject_hunk lib rights p h st =
     (case file_state st p of
        None \<Rightarrow> (st, None)
      | Some fs \<Rightarrow>
          (let note = send_events [HunkRemoved p (hunk_id h) RejectedHunk];
               left = without_hunks [h] (file_hunks fs);
               keep = (\<lambda>content st. put_file p (fs\<lparr>current_content := content, file_hunks := left\<rparr>) st)
           in case reject_action fs h of
                NoOp \<Rightarrow> (st, None)
              | RestoreDeleted b \<Rightarrow>
                  (case write_file rights p b st of Inl e \<Rightarrow> (st, Some e) | Inr st \<Rightarrow> (note (keep (Full b) st), None))
              | DeleteCreated \<Rightarrow>
                  (case remove_file rights p st of Inl e \<Rightarrow> (st, Some e) | Inr st \<Rightarrow> (note (keep Missing st), None))
              | RevertChange patched \<Rightarrow>
                  (case write_file rights p patched st of
                     Inl e \<Rightarrow> (st, Some e)
                   | Inr st \<Rightarrow>
                       (let st = note (keep (Full patched) st)
                        in (recompute_hunks lib p (Some (Full patched)) (remaining_source p st) st, None)))))"

fun find_hunk :: "string \<Rightarrow> (path \<times> FileHunkState) list \<Rightarrow> (path \<times> TrackedHunk) option" where
  "find_hunk i [] = None"
| "find_hunk i ((p, fs) # rest) =
     (case find (\<lambda>h. hunk_id h = i) (file_hunks fs) of Some h \<Rightarrow> Some (p, h) | None \<Rightarrow> find_hunk i rest)"

definition apply_hunk_action :: "hunk_lib \<Rightarrow> disk_rights \<Rightarrow> string \<Rightarrow> HunkAction \<Rightarrow> tracker \<Rightarrow> tracker \<times> HunkActionError option" where
  "apply_hunk_action lib rights i action st =
     (case find_hunk i (file_states st) of
        None \<Rightarrow> (st, Some (HunkNotFound i))
      | Some (p, h) \<Rightarrow>
          (let st = remove_from_turn_index h (update_session_stats (line_info h) (action = Accept) st)
           in case action of
                Accept \<Rightarrow> (accept_hunk lib p h st, None)
              | Reject \<Rightarrow> reject_hunk lib rights p h st))"

section \<open>Several hunks\<close>

definition accept_hunks_batch :: "hunk_lib \<Rightarrow> path \<Rightarrow> TrackedHunk list \<Rightarrow> tracker \<Rightarrow> tracker" where
  "accept_hunks_batch lib p hs st =
     (if hs = [] then st
      else case file_state st p of
        None \<Rightarrow> st
      | Some fs \<Rightarrow>
          (let note = send_events (removal_events p AcceptedHunk hs @ [BaselineUpdated p]);
               left = without_hunks hs (file_hunks fs)
           in if baseline fs = Missing
              then note (put_file p (fs\<lparr>baseline := current_content fs, baseline_accepted := True, file_hunks := left\<rparr>) st)
              else
                (let patched = (case baseline fs of Full b \<Rightarrow> Full (take_over_all hs b) | other \<Rightarrow> other);
                     st = note (put_file p (fs\<lparr>baseline := patched, baseline_accepted := True, file_hunks := left\<rparr>) st)
                 in recompute_hunks lib p (Some (current_content fs)) (remaining_source p st) st)))"

definition reject_hunks_batch :: "hunk_lib \<Rightarrow> disk_rights \<Rightarrow> path \<Rightarrow> TrackedHunk list \<Rightarrow> tracker \<Rightarrow> tracker \<times> HunkActionError option" where
  "reject_hunks_batch lib rights p hs st =
     (if hs = [] then (st, None)
      else case file_state st p of
        None \<Rightarrow> (st, None)
      | Some fs \<Rightarrow>
          (let note = send_events (removal_events p RejectedHunk hs);
               left = without_hunks hs (file_hunks fs);
               keep = (\<lambda>content st. put_file p (fs\<lparr>current_content := content, file_hunks := left\<rparr>) st)
           in case (current_content fs, baseline fs) of
                (Missing, Full b) \<Rightarrow>
                  (case write_file rights p b st of Inl e \<Rightarrow> (st, Some e) | Inr st \<Rightarrow> (note (keep (Full b) st), None))
              | (Full _, Missing) \<Rightarrow>
                  (case remove_file rights p st of Inl e \<Rightarrow> (st, Some e) | Inr st \<Rightarrow> (note (keep Missing st), None))
              | (Full current, _) \<Rightarrow>
                  (let patched = take_back_all hs current
                   in case write_file rights p patched st of
                        Inl e \<Rightarrow> (st, Some e)
                      | Inr st \<Rightarrow>
                          (let st = note (keep (Full patched) st)
                           in (recompute_hunks lib p (Some (Full patched)) (remaining_source p st) st, None)))
              | _ \<Rightarrow> (st, None)))"

text \<open>Statistics and index of the hunks of one file, before they are acted on.\<close>

definition count_off :: "HunkAction \<Rightarrow> TrackedHunk list \<Rightarrow> tracker \<Rightarrow> tracker" where
  "count_off action hs st =
     fold (\<lambda>h st. remove_from_turn_index h (update_session_stats (line_info h) (action = Accept) st)) hs st"

fun apply_action_batch :: "hunk_lib \<Rightarrow> disk_rights \<Rightarrow> (path \<times> TrackedHunk list) list \<Rightarrow> HunkAction \<Rightarrow> tracker
    \<Rightarrow> tracker \<times> (HunkActionError + string list)" where
  "apply_action_batch lib rights [] action st = (st, Inr [])"
| "apply_action_batch lib rights ((p, hs) # rest) action st =
     (let st = count_off action hs st;
          (st, failed) = (case action of
                            Accept \<Rightarrow> (accept_hunks_batch lib p hs st, None)
                          | Reject \<Rightarrow> reject_hunks_batch lib rights p hs st)
      in case failed of
           Some e \<Rightarrow> (st, Inl e)
         | None \<Rightarrow>
             (let (st, result) = apply_action_batch lib rights rest action st
              in (st, map_sum id ((@) (map hunk_id hs)) result)))"

definition apply_file_action :: "hunk_lib \<Rightarrow> disk_rights \<Rightarrow> path \<Rightarrow> HunkAction \<Rightarrow> tracker \<Rightarrow> tracker \<times> (HunkActionError + string list)" where
  "apply_file_action lib rights p action st =
     (case file_state st p of
        None \<Rightarrow> (st, Inr [])
      | Some fs \<Rightarrow>
          (if file_hunks fs = [] then (st, Inr []) else apply_action_batch lib rights [(p, file_hunks fs)] action st))"

definition apply_all_action :: "hunk_lib \<Rightarrow> disk_rights \<Rightarrow> HunkAction \<Rightarrow> tracker \<Rightarrow> tracker \<times> (HunkActionError + string list)" where
  "apply_all_action lib rights action st =
     (let files_with_hunks = filter (\<lambda>(p, hs). hs \<noteq> []) (map (\<lambda>(p, fs). (p, file_hunks fs)) (file_states st))
      in if files_with_hunks = [] then (st, Inr []) else apply_action_batch lib rights files_with_hunks action st)"

definition apply_turn_action :: "hunk_lib \<Rightarrow> disk_rights \<Rightarrow> nat \<Rightarrow> HunkAction \<Rightarrow> tracker \<Rightarrow> tracker \<times> (HunkActionError + string list)" where
  "apply_turn_action lib rights turn action st =
     (let files_with_hunks =
            filter (\<lambda>(p, hs). hs \<noteq> [])
              (map (\<lambda>(p, fs). (p, filter (\<lambda>h. prompt_index (hunk_source h) = Some turn) (file_hunks fs))) (file_states st))
      in if files_with_hunks = [] then (st, Inr []) else apply_action_batch lib rights files_with_hunks action st)"

end
