(* ===== verification/Hunk_Actor.thy ===== *)
theory Hunk_Actor
  imports Hunk_Actions
begin

text \<open>
  The actor of the hunk tracker (\<^verbatim>\<open>xai-hunk-tracker/src/actor/mutations.rs\<close>, \<^verbatim>\<open>git.rs\<close>, \<^verbatim>\<open>queries.rs\<close>, \<^verbatim>\<open>mod.rs\<close>): writes of
  the agent, changes seen on disk, refreshed baselines, modes, queries, snapshots, and commands with
  their coalescing. What git answers is a record of functions.
\<close>

section \<open>Git\<close>

datatype tree_entry = LinkEntry | BlobEntry string | OtherEntry

record git_view =
  discover :: "path option"
  head_entry :: "path \<Rightarrow> tree_entry option"
  canonical :: "path \<Rightarrow> path option"
  git_status :: "path list \<Rightarrow> (path \<times> bool) list option"
  sync_now :: RepoSyncState
  link_exists :: "path \<Rightarrow> bool"
  link_is_dir :: "path \<Rightarrow> bool"

definition open_or_discover :: "git_view \<Rightarrow> tracker \<Rightarrow> path option" where
  "open_or_discover w st =
     (case git_repo_state st of Discovered pre \<Rightarrow> Some pre | UnknownRepo \<Rightarrow> discover w | NotARepo \<Rightarrow> None)"

definition remember_repo :: "git_view \<Rightarrow> tracker \<Rightarrow> tracker" where
  "remember_repo w st =
     (case git_repo_state st of
        UnknownRepo \<Rightarrow> st\<lparr>git_repo_state := (case discover w of Some pre \<Rightarrow> Discovered pre | None \<Rightarrow> NotARepo)\<rparr>
      | _ \<Rightarrow> st)"

definition file_name :: "path \<Rightarrow> component option" where
  "file_name p = (case rev p of Normal f # _ \<Rightarrow> Some (Normal f) | _ \<Rightarrow> None)"

definition canonicalize_or_parent :: "git_view \<Rightarrow> path \<Rightarrow> path" where
  "canonicalize_or_parent w p =
     (case canonical w p of
        Some c \<Rightarrow> c
      | None \<Rightarrow>
          (case (Option.bind (path_parent p) (canonical w), file_name p) of
             (Some cp, Some f) \<Rightarrow> path_join cp [f]
           | _ \<Rightarrow> p))"

definition head_content :: "git_view \<Rightarrow> path \<Rightarrow> path \<Rightarrow> path \<Rightarrow> FileContentState" where
  "head_content w pre wd p =
     (case strip_prefix (canonicalize_or_parent w p) (case canonical w wd of Some c \<Rightarrow> c | None \<Rightarrow> wd) of
        None \<Rightarrow> Missing
      | Some rel \<Rightarrow>
          (case head_entry w (path_join pre rel) of
             Some LinkEntry \<Rightarrow> Symlink
           | Some (BlobEntry bytes) \<Rightarrow> classify_bytes bytes
           | _ \<Rightarrow> Missing))"

definition read_baseline :: "git_view \<Rightarrow> path \<Rightarrow> tracker \<Rightarrow> tracker \<times> FileContentState" where
  "read_baseline w p st =
     (remember_repo w st,
      (case open_or_discover w st of Some pre \<Rightarrow> head_content w pre (working_dir st) p | None \<Rightarrow> Missing))"

definition read_baselines_batch :: "git_view \<Rightarrow> path list \<Rightarrow> tracker \<Rightarrow> tracker \<times> (path \<rightharpoonup> FileContentState)" where
  "read_baselines_batch w ps st =
     (if ps = [] \<or> git_repo_state st = NotARepo then (st, Map.empty)
      else (remember_repo w st, \<lambda>p. if p \<in> set ps then Some (snd (read_baseline w p st)) else None))"

definition working_rel :: "tracker \<Rightarrow> path \<Rightarrow> path" where
  "working_rel st p = (case strip_prefix p (working_dir st) of Some rel \<Rightarrow> rel | None \<Rightarrow> p)"

definition is_dirty :: "tracker \<Rightarrow> path \<Rightarrow> bool" where
  "is_dirty st p \<longleftrightarrow> working_rel st p \<in> set (git_dirty_cache st)"

definition on_disk :: "git_view \<Rightarrow> tracker \<Rightarrow> path \<Rightarrow> bool" where
  "on_disk w st p = (case disk st p of None \<Rightarrow> False | Some LinkNode \<Rightarrow> link_exists w p | Some _ \<Rightarrow> True)"

definition is_dir :: "git_view \<Rightarrow> tracker \<Rightarrow> path \<Rightarrow> bool" where
  "is_dir w st p = (case disk st p of Some DirNode \<Rightarrow> True | Some LinkNode \<Rightarrow> link_is_dir w p | _ \<Rightarrow> False)"

section \<open>Writes of the agent\<close>

definition new_file_state :: "FileContentState \<Rightarrow> FileContentState \<Rightarrow> bool \<Rightarrow> FileHunkState" where
  "new_file_state base cur agent =
     \<lparr>baseline = base, current_content = cur, file_hunks = [], is_agent_file = agent, baseline_accepted = False\<rparr>"

definition track_file :: "path \<Rightarrow> FileHunkState \<Rightarrow> tracker \<Rightarrow> tracker" where
  "track_file p fs st = send_events [FileAdded p (is_agent_file fs)] (put_file p fs st)"

definition record_agent_write :: "hunk_lib \<Rightarrow> git_view \<Rightarrow> path \<Rightarrow> string \<Rightarrow> nat \<Rightarrow> string option \<Rightarrow> tracker \<Rightarrow> tracker" where
  "record_agent_write lib w p content turn previous_content st =
     (let current_state = classify_string content
      in if \<not> is_diffable current_state then
           (case file_state st p of
              None \<Rightarrow>
                (let (st, base) = (case previous_content of
                                     Some prev \<Rightarrow> (st, classify_string prev)
                                   | None \<Rightarrow> read_baseline w p st)
                 in track_file p (new_file_state base current_state True) st)
            | Some fs \<Rightarrow> put_file p (fs\<lparr>is_agent_file := True, current_content := current_state, file_hunks := []\<rparr>) st)
         else
           (let st = (case file_state st p of
                        None \<Rightarrow>
                          (let (st, head) = read_baseline w p st;
                               base = (if head = Missing
                                       then (case previous_content of Some prev \<Rightarrow> classify_string prev | None \<Rightarrow> Missing)
                                       else head)
                           in track_file p (new_file_state base current_state True) st)
                      | Some fs \<Rightarrow> put_file p (fs\<lparr>is_agent_file := True\<rparr>) st)
            in recompute_hunks lib p (Some current_state) (AgentEdit turn) st))"

section \<open>Changes on disk\<close>

definition strip_single_trailing_newline :: "string \<Rightarrow> string" where
  "strip_single_trailing_newline content =
     (if ends_with content [CR, LF] then take (length content - 2) content
      else if ends_with content [LF] then butlast content else content)"

definition take_baseline :: "git_view \<Rightarrow> path \<Rightarrow> FileContentState option \<Rightarrow> tracker \<Rightarrow> tracker \<times> FileContentState" where
  "take_baseline w p preloaded st = (case preloaded of Some b \<Rightarrow> (st, b) | None \<Rightarrow> read_baseline w p st)"

text \<open>Not in HEAD and not dirty: an ignored file, unless it is a directory.\<close>

definition gitignored :: "git_view \<Rightarrow> tracker \<Rightarrow> path \<Rightarrow> FileContentState \<Rightarrow> bool" where
  "gitignored w st p base \<longleftrightarrow>
     tracking_mode st = AllDirty \<and> base = Missing \<and> \<not> is_dir w st p \<and> \<not> is_dirty st p"

definition content_matches_head :: "tracker \<Rightarrow> path \<Rightarrow> FileContentState \<Rightarrow> FileContentState \<Rightarrow> bool" where
  "content_matches_head st p cur head =
     (case (cur, head) of
        (Full c, Full h) \<Rightarrow> strip_single_trailing_newline c = strip_single_trailing_newline h
      | (Missing, Missing) \<Rightarrow> True
      | (Binary _, Binary _) \<Rightarrow> True
      | (TooLarge _, TooLarge _) \<Rightarrow> True
      | (LfsPointer _, LfsPointer _) \<Rightarrow> True
      | (Symlink, Symlink) \<Rightarrow> True
      | (Symlink, Full _) \<Rightarrow> \<not> is_dirty st p
      | (Full _, Symlink) \<Rightarrow> \<not> is_dirty st p
      | _ \<Rightarrow> False)"

definition external_source :: "tracker \<Rightarrow> path \<Rightarrow> HunkSource" where
  "external_source st p =
     (case file_state st p of
        Some fs \<Rightarrow> (if is_agent_file fs then ExternalEditOnAgentFile else External)
      | None \<Rightarrow> External)"

definition process_untracked :: "hunk_lib \<Rightarrow> git_view \<Rightarrow> path \<Rightarrow> FileContentState option \<Rightarrow> FileContentState \<Rightarrow> tracker \<Rightarrow> tracker" where
  "process_untracked lib w p preloaded current_state st =
     (let (st, base) = (if \<not> is_diffable current_state \<and> tracking_mode st \<noteq> AllDirty then (st, Missing)
                        else take_baseline w p preloaded st)
      in if gitignored w st p base then st
         else if \<not> is_diffable current_state then
           (let st = track_file p (new_file_state base current_state False) st
            in if is_diffable base then recompute_hunks lib p None External st else st)
         else recompute_hunks lib p (Some current_state) External (track_file p (new_file_state base Missing False) st))"

definition process_tracked :: "hunk_lib \<Rightarrow> git_view \<Rightarrow> path \<Rightarrow> FileContentState option \<Rightarrow> FileContentState \<Rightarrow> FileHunkState \<Rightarrow> tracker \<Rightarrow> tracker" where
  "process_tracked lib w p preloaded current_state fs st =
     (if baseline_accepted fs then
        (let (st, head) = take_baseline w p preloaded st
         in if content_matches_head st p current_state head
            then put_file p (fs\<lparr>baseline := head, current_content := head, baseline_accepted := False, file_hunks := []\<rparr>) st
            else recompute_hunks lib p (Some current_state) (external_source st p) st)
      else recompute_hunks lib p (Some current_state) (external_source st p) st)"

definition process_file_change :: "hunk_lib \<Rightarrow> git_view \<Rightarrow> path \<Rightarrow> FileContentState option \<Rightarrow> tracker \<Rightarrow> tracker" where
  "process_file_change lib w p preloaded st =
     (case file_state st p of
        None \<Rightarrow>
          (if tracking_mode st = AgentOnly then st
           else process_untracked lib w p preloaded (read_file_bounded (disk st p)) st)
      | Some fs \<Rightarrow> process_tracked lib w p preloaded (read_file_bounded (disk st p)) fs st)"

definition handle_file_change :: "hunk_lib \<Rightarrow> git_view \<Rightarrow> path \<Rightarrow> tracker \<Rightarrow> tracker" where
  "handle_file_change lib w p st = process_file_change lib w p None st"

definition needs_baseline :: "tracker \<Rightarrow> path \<Rightarrow> bool" where
  "needs_baseline st p =
     (case file_state st p of None \<Rightarrow> tracking_mode st \<noteq> AgentOnly | Some fs \<Rightarrow> baseline_accepted fs)"

fun change_each :: "hunk_lib \<Rightarrow> git_view \<Rightarrow> path list \<Rightarrow> (path \<rightharpoonup> FileContentState) \<Rightarrow> tracker \<Rightarrow> tracker" where
  "change_each lib w [] baselines st = st"
| "change_each lib w (p # ps) baselines st =
     change_each lib w ps (baselines(p := None)) (process_file_change lib w p (baselines p) st)"

definition handle_file_changes_batch :: "hunk_lib \<Rightarrow> git_view \<Rightarrow> path list \<Rightarrow> tracker \<Rightarrow> tracker" where
  "handle_file_changes_batch lib w ps st =
     (let (st, baselines) = read_baselines_batch w (filter (needs_baseline st) ps) st
      in change_each lib w ps baselines st)"

definition handle_file_deleted :: "hunk_lib \<Rightarrow> git_view \<Rightarrow> path \<Rightarrow> tracker \<Rightarrow> tracker" where
  "handle_file_deleted lib w p st =
     (case file_state st p of
        None \<Rightarrow>
          (if tracking_mode st = AgentOnly \<or> on_disk w st p then st
           else
             (let (st, base) = read_baseline w p st
              in if base = Missing then st
                 else recompute_hunks lib p None External (track_file p (new_file_state base Missing False) st)))
      | Some fs \<Rightarrow>
          (if on_disk w st p then handle_file_change lib w p st
           else recompute_hunks lib p None (external_source st p) st))"

text \<open>The hunks of a file leave the index, and their removal is announced.\<close>

definition retire_hunks :: "path \<Rightarrow> TrackedHunk list \<Rightarrow> tracker \<Rightarrow> tracker" where
  "retire_hunks p hs st = send_events (removal_events p Superseded hs) (st\<lparr>turn_index := fold turn_remove hs (turn_index st)\<rparr>)"

definition reset_baseline :: "path \<Rightarrow> tracker \<Rightarrow> tracker" where
  "reset_baseline p st =
     (case file_state st p of
        None \<Rightarrow> st
      | Some fs \<Rightarrow>
          send_events [BaselineUpdated p] (retire_hunks p (file_hunks fs)
            (put_file p (fs\<lparr>baseline := current_content fs, baseline_accepted := False, file_hunks := []\<rparr>) st)))"

section \<open>Refreshing from git\<close>

definition status_items :: "git_view \<Rightarrow> path list option \<Rightarrow> path \<Rightarrow> (path \<times> bool) list" where
  "status_items w scope pre =
     (case git_status w (case scope of Some rels \<Rightarrow> map (path_join pre) rels | None \<Rightarrow> []) of
        None \<Rightarrow> []
      | Some items \<Rightarrow> List.map_filter (\<lambda>(p, staged). map_option (\<lambda>rel. (rel, staged)) (strip_prefix p pre)) items)"

definition refresh_git_dirty_cache :: "hunk_lib \<Rightarrow> git_view \<Rightarrow> path list option \<Rightarrow> tracker \<Rightarrow> tracker" where
  "refresh_git_dirty_cache lib w scope st =
     (if git_repo_state st = NotARepo then st
      else
        (let items = (case open_or_discover w st of Some pre \<Rightarrow> status_items w scope pre | None \<Rightarrow> []);
             dirty = remdups (map fst items);
             staged = remdups (map fst (filter snd items));
             to_track = filter (\<lambda>rel. file_state st (path_join (working_dir st) rel) = None) dirty;
             st = (remember_repo w st)\<lparr>git_dirty_cache := dirty, git_staged_cache := staged\<rparr>
         in if tracking_mode st = AllDirty
            then fold (\<lambda>rel st. handle_file_change lib w (path_join (working_dir st) rel) st) to_track st
            else st))"

definition is_clean :: "git_view \<Rightarrow> tracker \<Rightarrow> path \<Rightarrow> FileContentState \<Rightarrow> FileContentState \<Rightarrow> bool" where
  "is_clean w st p base cur =
     (case (base, cur) of
        (Full b, Full c) \<Rightarrow> strip_single_trailing_newline b = strip_single_trailing_newline c
      | (Binary _, Binary _) \<Rightarrow> \<not> is_dirty st p
      | (TooLarge _, TooLarge _) \<Rightarrow> \<not> is_dirty st p
      | (Symlink, Symlink) \<Rightarrow> \<not> is_dirty st p
      | (LfsPointer _, _) \<Rightarrow> \<not> is_dirty st p
      | (_, LfsPointer _) \<Rightarrow> \<not> is_dirty st p
      | (Symlink, Full _) \<Rightarrow> \<not> is_dirty st p
      | (Full _, Symlink) \<Rightarrow> \<not> is_dirty st p
      | (Missing, Missing) \<Rightarrow> \<not> on_disk w st p
      | (Missing, _) \<Rightarrow> \<not> is_dirty st p
      | _ \<Rightarrow> False)"

definition refresh_file :: "hunk_lib \<Rightarrow> git_view \<Rightarrow> (path \<rightharpoonup> FileContentState) \<Rightarrow> path \<Rightarrow> tracker \<Rightarrow> tracker" where
  "refresh_file lib w baselines p st =
     (let new_baseline = (case baselines p of Some b \<Rightarrow> b | None \<Rightarrow> Missing);
          new_current = read_file_bounded (disk st p)
      in case file_state st p of
           None \<Rightarrow> st
         | Some fs \<Rightarrow>
             (let fs' = fs\<lparr>baseline := new_baseline, current_content := new_current, baseline_accepted := False\<rparr>;
                  clean = is_clean w st p new_baseline new_current
              in if clean \<and> \<not> is_agent_file fs
                 then send_events [FileRemoved p] (retire_hunks p (file_hunks fs) (drop_file p st))
                 else if clean
                 then send_events [BaselineUpdated p] (retire_hunks p (file_hunks fs) (put_file p (fs'\<lparr>file_hunks := []\<rparr>) st))
                 else
                   (let st = put_file p fs' st
                    in send_events [BaselineUpdated p] (recompute_hunks lib p (Some new_current) (external_source st p) st))))"

definition refresh_caches :: "hunk_lib \<Rightarrow> git_view \<Rightarrow> tracker \<Rightarrow> tracker" where
  "refresh_caches lib w st =
     (case tracking_mode st of
        AllDirty \<Rightarrow> refresh_git_dirty_cache lib w None st
      | AgentOnly \<Rightarrow>
          (let rels = List.map_filter (\<lambda>p. strip_prefix p (working_dir st)) (map fst (file_states st))
           in if rels = [] then st\<lparr>git_dirty_cache := [], git_staged_cache := []\<rparr>
              else refresh_git_dirty_cache lib w (Some rels) st))"

definition read_repo_sync_state :: "git_view \<Rightarrow> tracker \<Rightarrow> tracker \<times> RepoSyncState option" where
  "read_repo_sync_state w st = (remember_repo w st, map_option (\<lambda>_. sync_now w) (open_or_discover w st))"

definition refresh_all_baselines_except :: "hunk_lib \<Rightarrow> git_view \<Rightarrow> path list \<Rightarrow> tracker \<Rightarrow> tracker" where
  "refresh_all_baselines_except lib w skip st =
     (if tracking_mode st = AgentOnly \<and> file_states st = [] then st
      else
        (let (st, sync) = read_repo_sync_state w st
         in if sync = Some (repo_sync_state st) then st
            else
              (let st = (case sync of Some s \<Rightarrow> st\<lparr>repo_sync_state := s\<rparr> | None \<Rightarrow> st);
                   st = refresh_caches lib w st;
                   ps = filter (\<lambda>p. p \<notin> set skip) (map fst (file_states st));
                   (st, baselines) = read_baselines_batch w ps st
               in fold (refresh_file lib w baselines) ps st)))"

definition set_mode :: "hunk_lib \<Rightarrow> git_view \<Rightarrow> TrackingMode \<Rightarrow> tracker \<Rightarrow> tracker" where
  "set_mode lib w mode st =
     (let old_mode = tracking_mode st; st = st\<lparr>tracking_mode := mode\<rparr>
      in if old_mode = AgentOnly \<and> mode = AllDirty then refresh_git_dirty_cache lib w None st
         else if old_mode = AllDirty \<and> mode = AgentOnly then
           fold (\<lambda>(p, fs) st. send_events [FileRemoved p] (retire_hunks p (file_hunks fs) (drop_file p st)))
             (filter (\<lambda>(p, fs). \<not> is_agent_file fs) (file_states st)) st
         else st)"

section \<open>Queries\<close>

definition get_all_hunks :: "tracker \<Rightarrow> TrackedHunk list" where
  "get_all_hunks st = concat (map (\<lambda>(p, fs). file_hunks fs) (file_states st))"

definition get_hunks_for_path :: "path \<Rightarrow> tracker \<Rightarrow> TrackedHunk list" where
  "get_hunks_for_path p st = (case file_state st p of Some fs \<Rightarrow> file_hunks fs | None \<Rightarrow> [])"

definition get_hunk :: "string \<Rightarrow> tracker \<Rightarrow> TrackedHunk option" where
  "get_hunk i st = find (\<lambda>h. hunk_id h = i) (get_all_hunks st)"

datatype HunkSourceFilter = AgentHunks | ExternalHunks

definition get_hunks_by_source :: "HunkSourceFilter \<Rightarrow> tracker \<Rightarrow> TrackedHunk list" where
  "get_hunks_by_source source st =
     filter (\<lambda>h. case source of AgentHunks \<Rightarrow> is_agent_edit (hunk_source h) | ExternalHunks \<Rightarrow> is_external (hunk_source h))
       (get_all_hunks st)"

definition get_hunks_for_turn :: "nat \<Rightarrow> tracker \<Rightarrow> TrackedHunk set" where
  "get_hunks_for_turn turn st =
     (case turn_index st turn of None \<Rightarrow> {} | Some ids \<Rightarrow> Option.these ((\<lambda>i. get_hunk i st) ` ids))"

definition get_all_tracked_paths :: "tracker \<Rightarrow> path list" where
  "get_all_tracked_paths st = map fst (file_states st)"

definition query_agent_file :: "path \<Rightarrow> tracker \<Rightarrow> bool" where
  "query_agent_file p st = (case file_state st p of Some fs \<Rightarrow> is_agent_file fs | None \<Rightarrow> False)"

definition get_staged_files :: "tracker \<Rightarrow> path set" where
  "get_staged_files st = path_join (working_dir st) ` set (git_staged_cache st)"

text \<open>Contents as clients see them.\<close>

datatype FileContentStatus = MissingStatus | BinaryStatus | TooLargeStatus | LfsPointerStatus | SymlinkStatus | FullStatus

record FileContentView =
  view_status :: FileContentStatus
  view_byte_len :: "nat option"
  view_content :: "string option"

fun from_content_state :: "FileContentState \<Rightarrow> FileContentView" where
  "from_content_state Missing = \<lparr>view_status = MissingStatus, view_byte_len = None, view_content = None\<rparr>"
| "from_content_state (Binary n) = \<lparr>view_status = BinaryStatus, view_byte_len = n, view_content = None\<rparr>"
| "from_content_state (TooLarge n) = \<lparr>view_status = TooLargeStatus, view_byte_len = Some n, view_content = None\<rparr>"
| "from_content_state (LfsPointer n) = \<lparr>view_status = LfsPointerStatus, view_byte_len = Some n, view_content = None\<rparr>"
| "from_content_state Symlink = \<lparr>view_status = SymlinkStatus, view_byte_len = None, view_content = None\<rparr>"
| "from_content_state (Full s) = \<lparr>view_status = FullStatus, view_byte_len = Some (length s), view_content = Some s\<rparr>"

record FileContentEntry =
  entry_path :: path
  entry_baseline :: FileContentView
  entry_current :: FileContentView
  entry_agent :: bool
  entry_staged :: bool

definition get_all_file_contents :: "tracker \<Rightarrow> FileContentEntry list" where
  "get_all_file_contents st =
     map (\<lambda>(p, fs). \<lparr>entry_path = p, entry_baseline = from_content_state (baseline fs),
        entry_current = from_content_state (current_content fs), entry_agent = is_agent_file fs,
        entry_staged = (working_rel st p \<in> set (git_staged_cache st))\<rparr>) (file_states st)"

text \<open>The hunks of a file with their fragments; nothing when a fragment cannot be computed.\<close>

definition shown_hunk :: "FileHunkState \<Rightarrow> TrackedHunk \<Rightarrow> TrackedHunk option" where
  "shown_hunk fs h =
     (case (content_text (baseline fs), content_text (current_content fs)) of
        (None, None) \<Rightarrow> Some (h\<lparr>hunk_patch := None\<rparr>)
      | (b, c) \<Rightarrow>
          map_option (\<lambda>t. h\<lparr>hunk_patch := Some t\<rparr>)
            (generate_hunk_patch (case b of Some t \<Rightarrow> t | None \<Rightarrow> []) (case c of Some t \<Rightarrow> t | None \<Rightarrow> []) h))"

record FileHunkData =
  data_hunks :: "TrackedHunk list"
  data_baseline :: FileContentView
  data_current :: FileContentView
  baseline_text :: "string option"
  current_text :: "string option"

definition get_file_hunk_data :: "path \<Rightarrow> tracker \<Rightarrow> FileHunkData option" where
  "get_file_hunk_data p st =
     (case file_state st p of
        None \<Rightarrow> Some \<lparr>data_hunks = [], data_baseline = from_content_state Missing, data_current = from_content_state Missing,
                      baseline_text = None, current_text = None\<rparr>
      | Some fs \<Rightarrow>
          map_option (\<lambda>hs. \<lparr>data_hunks = hs, data_baseline = from_content_state (baseline fs),
             data_current = from_content_state (current_content fs),
             baseline_text = view_content (from_content_state (baseline fs)),
             current_text = view_content (from_content_state (current_content fs))\<rparr>)
            (those (map (shown_hunk fs) (file_hunks fs))))"

text \<open>The summary of a session: pending hunks of the agent by turn, and the number of others.\<close>

record TurnSummary =
  turn_of :: nat
  turn_files :: "path list"
  turn_hunks :: "TrackedHunk list"
  turn_added :: nat
  turn_removed :: nat

record SessionSummary =
  summary_stats :: SessionStats
  turns :: "TurnSummary list"
  files_modified :: nat
  files_with_pending :: nat
  pending_hunks :: nat
  pending_lines_added :: nat
  pending_lines_removed :: nat
  unattributed_pending :: nat

definition add_to_turn :: "path \<Rightarrow> TrackedHunk \<Rightarrow> TurnSummary \<Rightarrow> TurnSummary" where
  "add_to_turn p h t =
     t\<lparr>turn_files := (if p \<in> set (turn_files t) then turn_files t else turn_files t @ [p]),
       turn_hunks := turn_hunks t @ [h],
       turn_added := turn_added t + new_count (line_info h),
       turn_removed := turn_removed t + old_count (line_info h)\<rparr>"

fun add_pending :: "path \<Rightarrow> TrackedHunk \<Rightarrow> nat \<Rightarrow> TurnSummary list \<Rightarrow> TurnSummary list" where
  "add_pending p h i [] =
     [add_to_turn p h \<lparr>turn_of = i, turn_files = [], turn_hunks = [], turn_added = 0, turn_removed = 0\<rparr>]"
| "add_pending p h i (t # ts) = (if turn_of t = i then add_to_turn p h t # ts else t # add_pending p h i ts)"

definition summarize_hunk :: "path \<Rightarrow> TrackedHunk \<Rightarrow> TurnSummary list \<times> nat \<Rightarrow> TurnSummary list \<times> nat" where
  "summarize_hunk p h acc =
     (case prompt_index (hunk_source h) of
        Some i \<Rightarrow> (add_pending p h i (fst acc), snd acc)
      | None \<Rightarrow> (fst acc, snd acc + 1))"

definition compute_session_summary :: "tracker \<Rightarrow> SessionSummary" where
  "compute_session_summary st =
     (let (by_prompt, unattributed) = fold (\<lambda>(p, fs). fold (summarize_hunk p) (file_hunks fs)) (file_states st) ([], 0);
          modified = filter (\<lambda>(p, fs). list_ex (\<lambda>h. prompt_index (hunk_source h) \<noteq> None) (file_hunks fs)) (file_states st);
          ts = sort_key turn_of by_prompt
      in \<lparr>summary_stats = session_stats st, turns = ts, files_modified = length modified, files_with_pending = length modified,
          pending_hunks = sum_list (map (\<lambda>t. length (turn_hunks t)) ts),
          pending_lines_added = sum_list (map turn_added ts), pending_lines_removed = sum_list (map turn_removed ts),
          unattributed_pending = unattributed\<rparr>)"

section \<open>Snapshots\<close>

record HunkTrackerSnapshot =
  snap_files :: "(path \<times> FileHunkState) list"
  snap_index :: turn_table
  snap_stats :: SessionStats

definition take_snapshot :: "tracker \<Rightarrow> HunkTrackerSnapshot" where
  "take_snapshot st = \<lparr>snap_files = file_states st, snap_index = turn_index st, snap_stats = session_stats st\<rparr>"

definition restore_snapshot :: "HunkTrackerSnapshot \<Rightarrow> tracker \<Rightarrow> tracker" where
  "restore_snapshot snap st =
     st\<lparr>file_states := snap_files snap, turn_index := snap_index snap, session_stats := snap_stats snap\<rparr>"

definition take_turn_delta :: "nat \<Rightarrow> tracker \<Rightarrow> (path \<times> FileHunkState) list \<times> string set" where
  "take_turn_delta turn st =
     (let ids = (case turn_index st turn of Some ids \<Rightarrow> ids | None \<Rightarrow> {})
      in (filter (\<lambda>(p, fs). list_ex (\<lambda>h. hunk_id h \<in> ids) (file_hunks fs)) (file_states st), ids))"

definition rewrite_single_path :: "path \<Rightarrow> path \<Rightarrow> path \<Rightarrow> path \<Rightarrow> path option" where
  "rewrite_single_path p old_cwd canonical_old new_cwd =
     map_option (path_join new_cwd)
       (case strip_prefix p canonical_old of Some rel \<Rightarrow> Some rel | None \<Rightarrow> strip_prefix p old_cwd)"

definition rewrite_paths :: "path \<Rightarrow> path \<Rightarrow> path \<Rightarrow> HunkTrackerSnapshot \<Rightarrow> HunkTrackerSnapshot" where
  "rewrite_paths old_cwd canonical_old new_cwd snap =
     snap\<lparr>snap_files := map (\<lambda>(p, fs).
        let target = (case rewrite_single_path p old_cwd canonical_old new_cwd of Some q \<Rightarrow> q | None \<Rightarrow> p)
        in (target, fs\<lparr>file_hunks := map (\<lambda>h. h\<lparr>hunk_path := target\<rparr>) (file_hunks fs)\<rparr>)) (snap_files snap)\<rparr>"

section \<open>Commands\<close>

datatype HunkQuery =
    GetAllHunks
  | GetHunksForPath path
  | GetFileHunkData path
  | GetHunksBySource HunkSourceFilter
  | GetHunk string
  | IsAgentFile path
  | GetAllTrackedPaths
  | GetStagedFiles
  | GetAllFileContents
  | GetSessionSummary
  | GetTurnHunks nat
  | SnapshotState
  | SnapshotTurnDelta nat

datatype HunkReply =
    HunksReply "TrackedHunk list"
  | HunkDataReply FileHunkData
  | HunkReply "TrackedHunk option"
  | FlagReply bool
  | PathsReply "path set"
  | ContentsReply "FileContentEntry list"
  | SummaryReply SessionSummary
  | HunkSetReply "TrackedHunk set"
  | SnapshotReply HunkTrackerSnapshot
  | DeltaReply nat "(path \<times> FileHunkState) list" "string set"

text \<open>Replies to queries, which change nothing; nothing when the actor fails on the overflow.\<close>

fun answer_query :: "HunkQuery \<Rightarrow> tracker \<Rightarrow> HunkReply option" where
  "answer_query GetAllHunks st = Some (HunksReply (get_all_hunks st))"
| "answer_query (GetHunksForPath p) st = Some (HunksReply (get_hunks_for_path p st))"
| "answer_query (GetFileHunkData p) st = map_option HunkDataReply (get_file_hunk_data p st)"
| "answer_query (GetHunksBySource source) st = Some (HunksReply (get_hunks_by_source source st))"
| "answer_query (GetHunk i) st = Some (HunkReply (get_hunk i st))"
| "answer_query (IsAgentFile p) st = Some (FlagReply (query_agent_file p st))"
| "answer_query GetAllTrackedPaths st = Some (PathsReply (set (get_all_tracked_paths st)))"
| "answer_query GetStagedFiles st = Some (PathsReply (get_staged_files st))"
| "answer_query GetAllFileContents st = Some (ContentsReply (get_all_file_contents st))"
| "answer_query GetSessionSummary st = Some (SummaryReply (compute_session_summary st))"
| "answer_query (GetTurnHunks i) st = Some (HunkSetReply (get_hunks_for_turn i st))"
| "answer_query SnapshotState st = Some (SnapshotReply (take_snapshot st))"
| "answer_query (SnapshotTurnDelta i) st = Some (case take_turn_delta i st of (files, ids) \<Rightarrow> DeltaReply i files ids)"

datatype HunkTrackerCommand =
    RecordAgentWrite path string nat "string option"
  | HandleFileChange path
  | HandleFileDeleted path
  | RefreshGitDirtyCache
  | ResetBaseline path
  | SetMode TrackingMode
  | HunkActionCommand string HunkAction
  | FileActionCommand path HunkAction
  | AllActionCommand HunkAction
  | TurnActionCommand nat HunkAction
  | QueryCommand HunkQuery
  | ResetStats
  | RefreshAllBaselines
  | RestoreState HunkTrackerSnapshot

text \<open>The new state; the replies are the results of the actions and the answers to the queries.\<close>

fun handle_hunk_command :: "hunk_lib \<Rightarrow> git_view \<Rightarrow> disk_rights \<Rightarrow> HunkTrackerCommand \<Rightarrow> tracker \<Rightarrow> tracker" where
  "handle_hunk_command lib w rights (RecordAgentWrite p content turn prev) st = record_agent_write lib w p content turn prev st"
| "handle_hunk_command lib w rights (HandleFileChange p) st = handle_file_change lib w p st"
| "handle_hunk_command lib w rights (HandleFileDeleted p) st = handle_file_deleted lib w p st"
| "handle_hunk_command lib w rights RefreshGitDirtyCache st = refresh_git_dirty_cache lib w None st"
| "handle_hunk_command lib w rights (ResetBaseline p) st = reset_baseline p st"
| "handle_hunk_command lib w rights (SetMode mode) st = set_mode lib w mode st"
| "handle_hunk_command lib w rights (HunkActionCommand i action) st = fst (apply_hunk_action lib rights i action st)"
| "handle_hunk_command lib w rights (FileActionCommand p action) st = fst (apply_file_action lib rights p action st)"
| "handle_hunk_command lib w rights (AllActionCommand action) st = fst (apply_all_action lib rights action st)"
| "handle_hunk_command lib w rights (TurnActionCommand turn action) st = fst (apply_turn_action lib rights turn action st)"
| "handle_hunk_command lib w rights (QueryCommand q) st = st"
| "handle_hunk_command lib w rights ResetStats st = st\<lparr>session_stats := no_stats\<rparr>"
| "handle_hunk_command lib w rights RefreshAllBaselines st = refresh_all_baselines_except lib w [] st"
| "handle_hunk_command lib w rights (RestoreState snap) st = restore_snapshot snap st"

datatype CoalescedPathAction = ChangedPath | DeletedPath | DeletedThenChanged

record CoalescedBatch =
  file_actions :: "(path \<times> CoalescedPathAction) list"
  refresh_all :: bool
  refresh_dirty :: bool
  other_commands :: "HunkTrackerCommand list"

definition empty_batch :: CoalescedBatch where
  "empty_batch = \<lparr>file_actions = [], refresh_all = False, refresh_dirty = False, other_commands = []\<rparr>"

fun batch_add :: "HunkTrackerCommand \<Rightarrow> CoalescedBatch \<Rightarrow> CoalescedBatch" where
  "batch_add (HandleFileChange p) b =
     b\<lparr>file_actions :=
         (case map_of (file_actions b) p of
            None \<Rightarrow> AList.update p ChangedPath (file_actions b)
          | Some DeletedPath \<Rightarrow> AList.update p DeletedThenChanged (file_actions b)
          | Some _ \<Rightarrow> file_actions b)\<rparr>"
| "batch_add (HandleFileDeleted p) b = b\<lparr>file_actions := AList.update p DeletedPath (file_actions b)\<rparr>"
| "batch_add RefreshAllBaselines b = b\<lparr>refresh_all := True\<rparr>"
| "batch_add RefreshGitDirtyCache b = b\<lparr>refresh_dirty := True\<rparr>"
| "batch_add cmd b = b\<lparr>other_commands := other_commands b @ [cmd]\<rparr>"

fun is_coalescable :: "HunkTrackerCommand \<Rightarrow> bool" where
  "is_coalescable (HandleFileChange p) = True"
| "is_coalescable (HandleFileDeleted p) = True"
| "is_coalescable RefreshAllBaselines = True"
| "is_coalescable RefreshGitDirtyCache = True"
| "is_coalescable _ = False"

definition refresh_action :: "hunk_lib \<Rightarrow> git_view \<Rightarrow> path \<times> CoalescedPathAction \<Rightarrow> tracker \<times> path list \<Rightarrow> tracker \<times> path list" where
  "refresh_action lib w pa acc =
     (let (p, action) = pa; (st, seen) = acc
      in if action = DeletedPath
         then (if file_state st p \<noteq> None then (handle_file_deleted lib w p st, seen) else (st, seen))
         else if file_state st p = None then (handle_file_change lib w p st, p # seen) else (st, seen))"

definition handle_coalesced_batch :: "hunk_lib \<Rightarrow> git_view \<Rightarrow> disk_rights \<Rightarrow> CoalescedBatch \<Rightarrow> tracker \<Rightarrow> tracker" where
  "handle_coalesced_batch lib w rights b st =
     (let st = (if refresh_dirty b \<and> \<not> refresh_all b then refresh_git_dirty_cache lib w None st else st);
          st = (if refresh_all b
                then
                  (let (st, seen) = fold (refresh_action lib w) (file_actions b) (st, [])
                   in refresh_all_baselines_except lib w seen st)
                else
                  (let gone = map fst (filter (\<lambda>(p, a). a = DeletedPath) (file_actions b));
                       changed = map fst (filter (\<lambda>(p, a). a \<noteq> DeletedPath) (file_actions b))
                   in handle_file_changes_batch lib w changed (fold (handle_file_deleted lib w) gone st)))
      in fold (handle_hunk_command lib w rights) (other_commands b) st)"

definition tracker_new :: "path \<Rightarrow> TrackingMode \<Rightarrow> (path \<rightharpoonup> disk_node) \<Rightarrow> tracker" where
  "tracker_new wd mode d =
     \<lparr>working_dir = wd, file_states = [], turn_index = Map.empty, git_dirty_cache = [], git_staged_cache = [],
      git_repo_state = UnknownRepo, repo_sync_state = \<lparr>head_oid = None, index_mtime = None\<rparr>, tracking_mode = mode,
      session_stats = no_stats, disk = d, minted = 0, sent = []\<rparr>"

definition actor_start :: "hunk_lib \<Rightarrow> git_view \<Rightarrow> tracker \<Rightarrow> tracker" where
  "actor_start lib w st = (if tracking_mode st = AllDirty then refresh_git_dirty_cache lib w None st else st)"

text \<open>One round of the actor's loop over the queued commands.\<close>

fun actor_round :: "hunk_lib \<Rightarrow> git_view \<Rightarrow> disk_rights \<Rightarrow> HunkTrackerCommand list \<Rightarrow> tracker \<Rightarrow> HunkTrackerCommand list \<times> tracker" where
  "actor_round lib w rights [] st = ([], st)"
| "actor_round lib w rights (cmd # queue) st =
     (if is_coalescable cmd
      then ([], handle_coalesced_batch lib w rights (fold batch_add (cmd # queue) empty_batch) st)
      else (queue, handle_hunk_command lib w rights cmd st))"

end
