(* ===== verification/Hunk_Invariant.thy ===== *)
theory Hunk_Invariant
  imports Hunk_Actor
begin

text \<open>
  What stays true of the tracker: identifiers are unique, the index by turn agrees with the hunks, and
  the hunks of a file are those between its baseline and its current content. The lemmas here are about
  the steps that the operations are made of.
\<close>

section \<open>The index\<close>

definition indexed :: "turn_table \<Rightarrow> nat \<Rightarrow> string \<Rightarrow> bool" where
  "indexed ix i x \<longleftrightarrow> (\<exists>ids. ix i = Some ids \<and> x \<in> ids)"

lemma indexed_remove [simp]:
  "indexed (turn_remove h ix) i x \<longleftrightarrow> indexed ix i x \<and> \<not> (prompt_index (hunk_source h) = Some i \<and> hunk_id h = x)"
  by (auto simp: indexed_def turn_remove_def split: option.split)

lemma indexed_insert [simp]:
  "indexed (turn_insert h ix) i x \<longleftrightarrow> indexed ix i x \<or> prompt_index (hunk_source h) = Some i \<and> hunk_id h = x"
  by (auto simp: indexed_def turn_insert_def split: option.split)

lemma indexed_fold_remove [simp]:
  "indexed (fold turn_remove hs ix) i x \<longleftrightarrow>
     indexed ix i x \<and> \<not> (\<exists>h\<in>set hs. prompt_index (hunk_source h) = Some i \<and> hunk_id h = x)"
  by (induction hs arbitrary: ix) auto

lemma indexed_fold_insert [simp]:
  "indexed (fold turn_insert hs ix) i x \<longleftrightarrow>
     indexed ix i x \<or> (\<exists>h\<in>set hs. prompt_index (hunk_source h) = Some i \<and> hunk_id h = x)"
  by (induction hs arbitrary: ix) auto

section \<open>The tracker\<close>

lemma file_state_put [simp]: "file_state (put_file p fs st) q = (if q = p then Some fs else file_state st q)"
  by (auto simp: file_state_def put_file_def update_conv')

lemma file_state_drop [simp]: "file_state (drop_file p st) q = (if q = p then None else file_state st q)"
  by (auto simp: file_state_def drop_file_def delete_conv')

lemma put_file_fields [simp]:
  "turn_index (put_file p fs st) = turn_index st" "minted (put_file p fs st) = minted st" "disk (put_file p fs st) = disk st"
  "turn_index (drop_file p st) = turn_index st" "minted (drop_file p st) = minted st"
  by (simp_all add: put_file_def drop_file_def)

lemma send_events_fields [simp]:
  "file_state (send_events es st) = file_state st" "turn_index (send_events es st) = turn_index st"
  "minted (send_events es st) = minted st" "file_states (send_events es st) = file_states st" "disk (send_events es st) = disk st"
  by (simp_all add: send_events_def file_state_def fun_eq_iff)

lemma file_state_other [simp]:
  "file_state (st\<lparr>turn_index := ix, minted := n\<rparr>) = file_state st" "file_state (st\<lparr>disk := d\<rparr>) = file_state st"
  "file_state (st\<lparr>turn_index := ix\<rparr>) = file_state st" "file_state (st\<lparr>session_stats := s\<rparr>) = file_state st"
  by (simp_all add: file_state_def fun_eq_iff)

definition keys_apart :: "tracker \<Rightarrow> bool" where
  "keys_apart st \<longleftrightarrow> distinct (map fst (file_states st))"

lemma keys_apart_steps [simp]:
  "keys_apart st \<Longrightarrow> keys_apart (put_file p fs st)" "keys_apart st \<Longrightarrow> keys_apart (drop_file p st)"
  "keys_apart (send_events es st) = keys_apart st" "keys_apart (st\<lparr>turn_index := ix, minted := n\<rparr>) = keys_apart st"
  "keys_apart (st\<lparr>disk := d\<rparr>) = keys_apart st" "keys_apart (st\<lparr>turn_index := ix\<rparr>) = keys_apart st"
  "keys_apart (st\<lparr>session_stats := s\<rparr>) = keys_apart st"
  by (simp_all add: keys_apart_def put_file_def drop_file_def send_events_def distinct_update distinct_delete)

definition has_hunk :: "tracker \<Rightarrow> path \<Rightarrow> TrackedHunk \<Rightarrow> bool" where
  "has_hunk st p h \<longleftrightarrow> (\<exists>fs. file_state st p = Some fs \<and> h \<in> set (file_hunks fs))"

definition made_ids :: "hunk_lib \<Rightarrow> nat \<Rightarrow> string set" where
  "made_ids lib n = (\<lambda>k. fst (mint lib k)) ` {..<n}"

lemma made_ids_mono: "x \<in> made_ids lib n \<Longrightarrow> x \<in> made_ids lib (n + k)"
  by (auto simp: made_ids_def)

text \<open>
  Identifiers are those of hunks that were made, and belong to one hunk each; the index lists a hunk
  under its turn and under no other. The hunks in \<open>lost\<close> may be missing from the index.
\<close>

definition ids_ok :: "hunk_lib \<Rightarrow> tracker \<Rightarrow> bool" where
  "ids_ok lib st \<longleftrightarrow>
     (\<forall>p fs. file_state st p = Some fs \<longrightarrow> distinct (map hunk_id (file_hunks fs)))
     \<and> (\<forall>p q h g. has_hunk st p h \<and> has_hunk st q g \<and> hunk_id h = hunk_id g \<longrightarrow> p = q)
     \<and> (\<forall>p h. has_hunk st p h \<longrightarrow> hunk_id h \<in> made_ids lib (minted st))
     \<and> (\<forall>i x. indexed (turn_index st) i x \<longrightarrow> x \<in> made_ids lib (minted st))"

definition index_ok :: "string set \<Rightarrow> tracker \<Rightarrow> bool" where
  "index_ok lost st \<longleftrightarrow>
     (\<forall>p h i. has_hunk st p h \<longrightarrow>
        (indexed (turn_index st) i (hunk_id h) \<longrightarrow> prompt_index (hunk_source h) = Some i)
        \<and> (hunk_id h \<notin> lost \<longrightarrow> prompt_index (hunk_source h) = Some i \<longrightarrow> indexed (turn_index st) i (hunk_id h)))"

definition struct_ok :: "hunk_lib \<Rightarrow> string set \<Rightarrow> tracker \<Rightarrow> bool" where
  "struct_ok lib lost st \<longleftrightarrow> keys_apart st \<and> ids_ok lib st \<and> index_ok lost st"

text \<open>Hunks of a file are none, or those between its two contents.\<close>

definition file_ok :: "hunk_lib \<Rightarrow> path \<Rightarrow> FileHunkState \<Rightarrow> bool" where
  "file_ok lib p fs \<longleftrightarrow>
     file_hunks fs = [] \<or> map shape (file_hunks fs) = map shape (fresh_hunks lib 0 p (baseline fs) (current_content fs) External)"

section \<open>Carrying identifiers over\<close>

lemma min_by_key_in: "min_by_key f xs = Some x \<Longrightarrow> x \<in> set xs"
  by (induction xs arbitrary: x) (auto split: option.splits if_splits)

lemma max_by_key_in: "max_by_key f xs = Some x \<Longrightarrow> x \<in> set xs"
  by (induction xs arbitrary: x) (auto split: option.splits if_splits)

lemma matching_in: "find_matching_old_hunk h old = Some m \<Longrightarrow> m \<in> set old"
  by (auto simp: find_matching_old_hunk_def Let_def dest!: min_by_key_in max_by_key_in split: if_splits)

lemma inherit_simps [simp]: "hunk_id (inherit m h) = hunk_id m" "shape (inherit m h) = shape h"
  by (simp_all add: inherit_def shape_def)

lemma carry_over_shape [simp]: "map shape (carry_over old claimed hs) = map shape hs"
  by (induction old claimed hs rule: carry_over.induct) (auto split: option.split)

lemma carry_over_ids:
  assumes "distinct (map hunk_id hs)" "hunk_id ` set hs \<inter> (hunk_id ` set old \<union> claimed) = {}"
  shows "distinct (map hunk_id (carry_over old claimed hs))
    \<and> hunk_id ` set (carry_over old claimed hs) \<subseteq> hunk_id ` set hs \<union> (hunk_id ` set old - claimed)"
  using assms
proof (induction old claimed hs rule: carry_over.induct)
  case (2 old claimed h hs)
  show ?case
  proof (cases "find_matching_old_hunk h old")
    case None
    with 2(1) [OF None] 2(4,5) show ?thesis by auto
  next
    case (Some m)
    note m = matching_in [OF Some]
    show ?thesis
    proof (cases "hunk_id m \<in> claimed")
      case True
      with 2(2) [OF Some True] Some 2(4,5) show ?thesis by auto
    next
      case False
      have "hunk_id ` set hs \<inter> (hunk_id ` set old \<union> insert (hunk_id m) claimed) = {}" using 2(5) m by auto
      with 2(3) [OF Some False] Some False 2(4,5) m show ?thesis by auto
    qed
  qed
qed simp

lemma made_hunks:
  assumes "inj (\<lambda>n. fst (mint lib n))"
  shows "distinct (map hunk_id (fresh_hunks lib n p base cur source))
    \<and> hunk_id ` set (fresh_hunks lib n p base cur source)
      \<subseteq> made_ids lib (n + length (fresh_hunks lib n p base cur source)) - made_ids lib n"
proof -
  have ids: "map hunk_id (build_all lib n p source bs) = map (\<lambda>k. fst (mint lib (n + k))) [0..<length bs]" for bs
    by (intro nth_equalityI) (simp_all add: build_all_def build_def make_hunk_def enumerate_eq_zip)
  have apart: "distinct (map (\<lambda>k. fst (mint lib (n + k))) [0..<m])
      \<and> set (map (\<lambda>k. fst (mint lib (n + k))) [0..<m]) \<subseteq> made_ids lib (n + m) - made_ids lib n" for m
    by (auto simp: distinct_map inj_on_def made_ids_def dest!: injD [OF assms])
  have one: "distinct [x] \<and> {x} \<subseteq> made_ids lib (n + 1) - made_ids lib n" if "x = fst (mint lib n)" for x
    using apart [of 1] that by simp
  have "map hunk_id (fresh_hunks lib n p base cur source) = [] \<or> (\<exists>bs. fresh_hunks lib n p base cur source = build_all lib n p source bs)
      \<or> (\<exists>h. fresh_hunks lib n p base cur source = [h] \<and> hunk_id h = fst (mint lib n))"
    by (auto simp: fresh_hunks_def compute_hunks_def file_created_def file_deleted_def make_hunk_def
        split: FileContentState.split option.split)
  then show ?thesis
  proof (elim disjE exE)
    fix bs
    assume bs: "fresh_hunks lib n p base cur source = build_all lib n p source bs"
    have "length (build_all lib n p source bs) = length bs" by (simp add: build_all_def)
    with ids [of bs] apart [of "length bs"] show ?thesis unfolding bs by (metis list.set_map)
  qed (use one in auto)
qed

section \<open>Steps of the operations\<close>

lemma struct_hunks:
  assumes "struct_ok lib lost st" "has_hunk st p h"
  shows "hunk_id h \<in> made_ids lib (minted st)"
    and "indexed (turn_index st) i (hunk_id h) \<Longrightarrow> prompt_index (hunk_source h) = Some i"
    and "hunk_id h \<notin> lost \<Longrightarrow> prompt_index (hunk_source h) = Some i \<Longrightarrow> indexed (turn_index st) i (hunk_id h)"
    and "has_hunk st q g \<Longrightarrow> hunk_id h = hunk_id g \<Longrightarrow> p = q"
  using assms unfolding struct_ok_def ids_ok_def index_ok_def by blast+

lemma struct_indexed: "struct_ok lib lost st \<Longrightarrow> indexed (turn_index st) i x \<Longrightarrow> x \<in> made_ids lib (minted st)"
  unfolding struct_ok_def ids_ok_def by blast

lemma struct_distinct: "struct_ok lib lost st \<Longrightarrow> file_state st p = Some fs \<Longrightarrow> distinct (map hunk_id (file_hunks fs))"
  unfolding struct_ok_def ids_ok_def by blast

lemma same_id: "distinct (map hunk_id hs) \<Longrightarrow> h \<in> set hs \<Longrightarrow> g \<in> set hs \<Longrightarrow> hunk_id h = hunk_id g \<Longrightarrow> h = g"
  by (auto simp: distinct_map inj_on_def)

lemma struct_okI:
  assumes "keys_apart st"
    and "\<And>p fs. file_state st p = Some fs \<Longrightarrow> distinct (map hunk_id (file_hunks fs))"
    and "\<And>p q h g. has_hunk st p h \<Longrightarrow> has_hunk st q g \<Longrightarrow> hunk_id h = hunk_id g \<Longrightarrow> p = q"
    and "\<And>p h. has_hunk st p h \<Longrightarrow> hunk_id h \<in> made_ids lib (minted st)"
    and "\<And>i x. indexed (turn_index st) i x \<Longrightarrow> x \<in> made_ids lib (minted st)"
    and "\<And>p h i. has_hunk st p h \<Longrightarrow> indexed (turn_index st) i (hunk_id h) \<Longrightarrow> prompt_index (hunk_source h) = Some i"
    and "\<And>p h i. has_hunk st p h \<Longrightarrow> hunk_id h \<notin> lost \<Longrightarrow> prompt_index (hunk_source h) = Some i \<Longrightarrow> indexed (turn_index st) i (hunk_id h)"
  shows "struct_ok lib lost st"
  using assms unfolding struct_ok_def ids_ok_def index_ok_def by blast

lemma struct_recompute:
  assumes inj: "inj (\<lambda>n. fst (mint lib n))" and ok: "struct_ok lib lost st"
  shows "struct_ok lib lost (recompute_hunks lib p new_current source st)"
proof (cases "file_state st p")
  case None
  then show ?thesis using ok by (simp add: recompute_hunks_def)
next
  case (Some fs)
  let ?st = "recompute_hunks lib p new_current source st" and ?old = "file_hunks fs"
  define made where "made = fresh_hunks lib (minted st) p (baseline fs) (case new_current of Some c \<Rightarrow> c | None \<Rightarrow> Missing) source"
  define new where "new = carry_over ?old {} made"
  have made: "distinct (map hunk_id made)" "hunk_id ` set made \<subseteq> made_ids lib (minted st + length made) - made_ids lib (minted st)"
    using made_hunks [OF inj] by (auto simp: made_def)
  have old_hunk: "has_hunk st p h" if "h \<in> set ?old" for h using that Some by (auto simp: has_hunk_def)
  have old_ids: "hunk_id ` set ?old \<subseteq> made_ids lib (minted st)" using struct_hunks(1) [OF ok] old_hunk by blast
  have new: "distinct (map hunk_id new)" "hunk_id ` set new \<subseteq> hunk_id ` set made \<union> hunk_id ` set ?old"
    using carry_over_ids [OF made(1), of ?old "{}"] made(2) old_ids unfolding new_def by auto
  have st: "file_state ?st q = (if q = p then Some (fs\<lparr>current_content := case new_current of Some c \<Rightarrow> c | None \<Rightarrow> Missing, file_hunks := new\<rparr>) else file_state st q)"
    "turn_index ?st = fold turn_insert new (fold turn_remove ?old (turn_index st))" "minted ?st = minted st + length made" for q
    using Some by (simp_all add: recompute_hunks_def Let_def made_def new_def)
  have hunk: "has_hunk ?st q h \<longleftrightarrow> (if q = p then h \<in> set new else has_hunk st q h)" for q h
    by (auto simp: has_hunk_def st(1))
  have new_ids: "hunk_id h \<in> made_ids lib (minted st + length made)" if "h \<in> set new" for h
  proof -
    have "hunk_id h \<in> hunk_id ` set made \<union> hunk_id ` set ?old" using new(2) that by blast
    then show ?thesis using made(2) old_ids made_ids_mono by blast
  qed
  have fresh: "\<exists>g. g \<in> set ?old \<and> hunk_id g = hunk_id h" if "h \<in> set new" "hunk_id h \<in> made_ids lib (minted st)" for h
  proof -
    have "hunk_id h \<in> hunk_id ` set made \<union> hunk_id ` set ?old" using new(2) that(1) by blast
    moreover have "hunk_id h \<notin> hunk_id ` set made" using made(2) that(2) by blast
    ultimately show ?thesis by auto
  qed
  have apart: "hunk_id h \<noteq> hunk_id g" if here: "h \<in> set new \<union> set ?old" "has_hunk st q g" "q \<noteq> p" for h q g
  proof
    assume eq: "hunk_id h = hunk_id g"
    from here(1) obtain k where "k \<in> set ?old" "hunk_id k = hunk_id g"
      using fresh [of h] struct_hunks(1) [OF ok here(2)] eq by auto
    with struct_hunks(4) [OF ok here(2), of p k] old_hunk here(3) show False by auto
  qed
  show ?thesis
  proof (rule struct_okI)
    show "keys_apart ?st" using ok Some by (simp add: recompute_hunks_def Let_def struct_ok_def)
    show "distinct (map hunk_id (file_hunks gs))" if "file_state ?st q = Some gs" for q gs
      using that new(1) struct_distinct [OF ok] by (auto simp: st(1) split: if_splits)
    show "q = r" if "has_hunk ?st q h" "has_hunk ?st r g" "hunk_id h = hunk_id g" for q r h g
      using that apart [of h r g] apart [of g q h] struct_hunks(4) [OF ok, of q h r g] by (auto simp: hunk split: if_splits)
    show "hunk_id h \<in> made_ids lib (minted ?st)" if "has_hunk ?st q h" for q h
      using that new_ids [of h] made_ids_mono [OF struct_hunks(1) [OF ok, of q h]] unfolding hunk st(3) by (simp split: if_splits)
    show "x \<in> made_ids lib (minted ?st)" if "indexed (turn_index ?st) i x" for i x
      using that new_ids made_ids_mono [OF struct_indexed [OF ok, of i x]] unfolding st(2,3) by auto
    show "prompt_index (hunk_source h) = Some i" if h: "has_hunk ?st q h" "indexed (turn_index ?st) i (hunk_id h)" for q h i
    proof (cases "q = p")
      case True
      show ?thesis
      proof (cases "\<exists>g\<in>set new. prompt_index (hunk_source g) = Some i \<and> hunk_id g = hunk_id h")
        case True
        with h(1) \<open>q = p\<close> same_id [OF new(1)] show ?thesis by (auto simp: hunk)
      next
        case False
        with h(2) have before: "indexed (turn_index st) i (hunk_id h)"
          "\<not> (\<exists>g\<in>set ?old. prompt_index (hunk_source g) = Some i \<and> hunk_id g = hunk_id h)" by (auto simp: st(2))
        with struct_indexed [OF ok] fresh [of h] h(1) \<open>q = p\<close> struct_hunks(2) [OF ok old_hunk] show ?thesis by (auto simp: hunk)
      qed
    next
      case False
      with h apart show ?thesis using struct_hunks(2) [OF ok, of q h i] by (auto simp: hunk st(2))
    qed
    show "indexed (turn_index ?st) i (hunk_id h)"
      if h: "has_hunk ?st q h" "hunk_id h \<notin> lost" "prompt_index (hunk_source h) = Some i" for q h i
    proof (cases "q = p")
      case False
      with h apart [of _ q h] struct_hunks(3) [OF ok, of q h i] show ?thesis by (auto simp: hunk st(2))
    qed (use h in \<open>auto simp: hunk st(2)\<close>)
  qed
qed

text \<open>Only the files, the index and the number of hunks made matter.\<close>

lemma struct_cong:
  assumes "file_states st = file_states st'" "turn_index st = turn_index st'" "minted st = minted st'"
  shows "struct_ok lib lost st \<longleftrightarrow> struct_ok lib lost st'"
  using assms by (simp add: struct_ok_def keys_apart_def ids_ok_def index_ok_def has_hunk_def file_state_def)

definition content_ok :: "hunk_lib \<Rightarrow> tracker \<Rightarrow> bool" where
  "content_ok lib st \<longleftrightarrow> (\<forall>p fs. file_state st p = Some fs \<longrightarrow> file_ok lib p fs)"

lemma content_cong: "file_states st = file_states st' \<Longrightarrow> content_ok lib st \<longleftrightarrow> content_ok lib st'"
  by (simp add: content_ok_def file_state_def)

definition tracker_ok :: "hunk_lib \<Rightarrow> string set \<Rightarrow> tracker \<Rightarrow> bool" where
  "tracker_ok lib lost st \<longleftrightarrow> struct_ok lib lost st \<and> content_ok lib st"

lemma tracker_cong:
  "file_states st = file_states st' \<Longrightarrow> turn_index st = turn_index st' \<Longrightarrow> minted st = minted st' \<Longrightarrow>
   tracker_ok lib lost st \<longleftrightarrow> tracker_ok lib lost st'"
  using struct_cong [of st st'] content_cong [of st st'] by (simp add: tracker_ok_def)

lemma struct_mono: "struct_ok lib lost st \<Longrightarrow> lost \<subseteq> lost' \<Longrightarrow> struct_ok lib lost' st"
  unfolding struct_ok_def index_ok_def by blast

lemma has_hunk_other [simp]: "has_hunk (st\<lparr>turn_index := ix\<rparr>) = has_hunk st"
  by (simp add: has_hunk_def fun_eq_iff)

text \<open>Fewer hunks and a smaller index keep the structure, when what leaves the index is accounted for.\<close>

lemma struct_fewer:
  assumes ok: "struct_ok lib lost st" and keys: "keys_apart st'" and n: "minted st' = minted st"
    and dist: "\<And>p fs. file_state st' p = Some fs \<Longrightarrow> distinct (map hunk_id (file_hunks fs))"
    and hunks: "\<And>p h. has_hunk st' p h \<Longrightarrow> has_hunk st p h"
    and index: "\<And>i x. indexed (turn_index st') i x \<Longrightarrow> indexed (turn_index st) i x"
    and kept: "\<And>p h i. has_hunk st' p h \<Longrightarrow> hunk_id h \<notin> lost' \<Longrightarrow> indexed (turn_index st) i (hunk_id h) \<Longrightarrow> indexed (turn_index st') i (hunk_id h)"
    and lost: "\<And>p h. has_hunk st' p h \<Longrightarrow> hunk_id h \<in> lost \<Longrightarrow> hunk_id h \<in> lost'"
  shows "struct_ok lib lost' st'"
proof (rule struct_okI)
  show "q = r" if "has_hunk st' q h" "has_hunk st' r g" "hunk_id h = hunk_id g" for q r h g
    using struct_hunks(4) [OF ok hunks [OF that(1)] hunks [OF that(2)] that(3)] .
  show "hunk_id h \<in> made_ids lib (minted st')" if "has_hunk st' q h" for q h
    using struct_hunks(1) [OF ok hunks [OF that]] n by simp
  show "x \<in> made_ids lib (minted st')" if "indexed (turn_index st') i x" for i x
    using struct_indexed [OF ok index [OF that]] n by simp
  show "prompt_index (hunk_source h) = Some i" if "has_hunk st' q h" "indexed (turn_index st') i (hunk_id h)" for q h i
    using struct_hunks(2) [OF ok hunks [OF that(1)] index [OF that(2)]] .
  show "indexed (turn_index st') i (hunk_id h)"
    if "has_hunk st' q h" "hunk_id h \<notin> lost'" "prompt_index (hunk_source h) = Some i" for q h i
    using kept [OF that(1,2)] struct_hunks(3) [OF ok hunks [OF that(1)]] lost [OF that(1)] that(2,3) by blast
qed (use keys dist in auto)

lemma struct_unindex:
  assumes "struct_ok lib lost st"
  shows "struct_ok lib (lost \<union> hunk_id ` set hs) (st\<lparr>turn_index := fold turn_remove hs (turn_index st)\<rparr>)"
proof (rule struct_fewer [OF assms])
  show "keys_apart (st\<lparr>turn_index := fold turn_remove hs (turn_index st)\<rparr>)" using assms by (simp add: struct_ok_def)
  show "distinct (map hunk_id (file_hunks fs))" if "file_state (st\<lparr>turn_index := fold turn_remove hs (turn_index st)\<rparr>) p = Some fs" for p fs
    using struct_distinct [OF assms] that by simp
  show "indexed (turn_index (st\<lparr>turn_index := fold turn_remove hs (turn_index st)\<rparr>)) i (hunk_id h)"
    if "hunk_id h \<notin> lost \<union> hunk_id ` set hs" "indexed (turn_index st) i (hunk_id h)" for h i
    using that by (simp add: image_iff) metis
qed auto

lemma struct_unindex_absent:
  assumes "struct_ok lib lost st" "\<And>p g h. has_hunk st p g \<Longrightarrow> h \<in> set hs \<Longrightarrow> hunk_id g \<noteq> hunk_id h"
  shows "struct_ok lib lost (st\<lparr>turn_index := fold turn_remove hs (turn_index st)\<rparr>)"
proof -
  let ?st = "st\<lparr>turn_index := fold turn_remove hs (turn_index st)\<rparr>"
  have "struct_ok lib (lost \<union> hunk_id ` set hs) ?st" by (rule struct_unindex [OF assms(1)])
  moreover have "hunk_id g \<notin> hunk_id ` set hs" if "has_hunk ?st p g" for p g using that assms(2) [of p g] by auto
  ultimately show ?thesis unfolding struct_ok_def index_ok_def by blast
qed

lemma has_hunk_put: "has_hunk (put_file p fs st) q h \<longleftrightarrow> (if q = p then h \<in> set (file_hunks fs) else has_hunk st q h)"
  by (auto simp: has_hunk_def)

lemma struct_put:
  assumes "struct_ok lib lost st" "distinct (map hunk_id (file_hunks fs))"
    and "\<And>h. h \<in> set (file_hunks fs) \<Longrightarrow> has_hunk st p h"
  shows "struct_ok lib lost (put_file p fs st)"
proof (rule struct_fewer [OF assms(1)])
  show "keys_apart (put_file p fs st)" using assms(1) by (simp add: struct_ok_def)
  show "distinct (map hunk_id (file_hunks gs))" if "file_state (put_file p fs st) q = Some gs" for q gs
    using that assms(2) struct_distinct [OF assms(1)] by (simp split: if_splits)
  show "has_hunk st q h" if "has_hunk (put_file p fs st) q h" for q h
    using that assms(3) by (simp add: has_hunk_put split: if_splits)
qed simp_all

lemma struct_put_empty: "struct_ok lib lost st \<Longrightarrow> file_hunks fs = [] \<Longrightarrow> struct_ok lib lost (put_file p fs st)"
  by (rule struct_put) auto

lemma has_hunk_drop: "has_hunk (drop_file p st) q h \<longleftrightarrow> q \<noteq> p \<and> has_hunk st q h"
  by (auto simp: has_hunk_def)

lemma struct_drop:
  assumes "struct_ok lib lost st"
  shows "struct_ok lib lost (drop_file p st)"
proof (rule struct_fewer [OF assms])
  show "keys_apart (drop_file p st)" using assms by (simp add: struct_ok_def)
  show "distinct (map hunk_id (file_hunks gs))" if "file_state (drop_file p st) q = Some gs" for q gs
    using that struct_distinct [OF assms] by (simp split: if_splits)
qed (simp_all add: has_hunk_drop)

text \<open>After their hunks left the index, acted-on hunks leave their file.\<close>

lemma struct_put_left:
  assumes ok: "struct_ok lib (lost \<union> hunk_id ` set hs) st" and fs: "file_state st p = Some fs"
    and hs: "set hs \<subseteq> set (file_hunks fs)" and gs: "file_hunks gs = without_hunks hs (file_hunks fs)"
  shows "struct_ok lib lost (put_file p gs st)"
proof -
  have put: "struct_ok lib (lost \<union> hunk_id ` set hs) (put_file p gs st)"
    using struct_distinct [OF ok fs] fs
    by (intro struct_put [OF ok]) (auto simp: gs has_hunk_def without_hunks_def distinct_map_filter)
  have "hunk_id g \<notin> hunk_id ` set hs" if g: "has_hunk (put_file p gs st) q g" for q g
  proof (cases "q = p")
    case True
    with g show ?thesis by (simp add: has_hunk_put gs without_hunks_def)
  next
    case False
    show ?thesis
    proof
      assume "hunk_id g \<in> hunk_id ` set hs"
      then obtain x where "x \<in> set hs" "hunk_id x = hunk_id g" by auto
      moreover from this(1) have "has_hunk st p x" using hs fs by (auto simp: has_hunk_def)
      ultimately show False using False g struct_hunks(4) [OF ok, of p x q g] by (simp add: has_hunk_put)
    qed
  qed
  with put show ?thesis unfolding struct_ok_def index_ok_def by blast
qed

section \<open>Contents\<close>

lemma fresh_shape: "map shape (fresh_hunks lib n p base cur source) = map shape (fresh_hunks lib 0 p base cur External)"
  by (auto simp: fresh_hunks_def compute_hunks_def build_all_shape file_created_def file_deleted_def make_hunk_def shape_def
      split: FileContentState.split option.split)

lemma recompute_file_state:
  "file_state (recompute_hunks lib p new_current source st) q =
     (if q = p then map_option (\<lambda>fs. fs\<lparr>current_content := case new_current of Some c \<Rightarrow> c | None \<Rightarrow> Missing,
         file_hunks := carry_over (file_hunks fs) {} (fresh_hunks lib (minted st) p (baseline fs)
           (case new_current of Some c \<Rightarrow> c | None \<Rightarrow> Missing) source)\<rparr>) (file_state st p)
      else file_state st q)"
  by (simp add: recompute_hunks_def Let_def split: option.split)

lemma content_recompute:
  assumes "\<And>q fs. q \<noteq> p \<Longrightarrow> file_state st q = Some fs \<Longrightarrow> file_ok lib q fs"
  shows "content_ok lib (recompute_hunks lib p new_current source st)"
  unfolding content_ok_def recompute_file_state
proof (intro allI impI)
  fix q fs
  assume "(if q = p then map_option (\<lambda>fs. fs\<lparr>current_content := case new_current of Some c \<Rightarrow> c | None \<Rightarrow> Missing,
         file_hunks := carry_over (file_hunks fs) {} (fresh_hunks lib (minted st) p (baseline fs)
           (case new_current of Some c \<Rightarrow> c | None \<Rightarrow> Missing) source)\<rparr>) (file_state st p)
      else file_state st q) = Some fs"
  then show "file_ok lib q fs"
    using assms fresh_shape by (cases "q = p") (auto simp: file_ok_def)
qed

lemma recompute_content: "content_ok lib st \<Longrightarrow> content_ok lib (recompute_hunks lib p new_current source st)"
  by (rule content_recompute) (simp add: content_ok_def)

lemma content_put: "content_ok lib st \<Longrightarrow> file_ok lib p fs \<Longrightarrow> content_ok lib (put_file p fs st)"
  by (auto simp: content_ok_def)

lemma content_drop: "content_ok lib st \<Longrightarrow> content_ok lib (drop_file p st)"
  by (auto simp: content_ok_def)

end
