(* ===== verification/Hunk_Reach.thy ===== *)
theory Hunk_Reach
  imports Hunk_Invariant
begin

text \<open>
  Every operation of the hunk tracker keeps the invariant, and so do the rounds of the actor, whatever
  happens on disk in between. From it: hunk identifiers are unique, and what the index says about a
  turn is what the hunks themselves say.
\<close>

section \<open>Sound steps\<close>

definition sound :: "hunk_lib \<Rightarrow> string set \<Rightarrow> tracker \<Rightarrow> tracker \<Rightarrow> bool" where
  "sound lib lost st st' \<longleftrightarrow> (tracker_ok lib lost st \<longrightarrow> tracker_ok lib lost st' \<and> minted st \<le> minted st')"

named_theorems sound

lemma sound_refl [sound, simp]: "sound lib lost st st"
  by (simp add: sound_def)

lemma sound_trans: "sound lib lost st st' \<Longrightarrow> sound lib lost st' st'' \<Longrightarrow> sound lib lost st st''"
  by (auto simp: sound_def)

lemma sound_cong:
  assumes "file_states st' = file_states st''" "turn_index st' = turn_index st''" "minted st' = minted st''"
  shows "sound lib lost st st' \<longleftrightarrow> sound lib lost st st''"
  using tracker_cong [OF assms] assms(3) by (simp add: sound_def)

lemma sound_send [simp]: "sound lib lost st (send_events es st') = sound lib lost st st'"
  by (rule sound_cong) simp_all

lemma sound_same: "file_states st' = file_states st \<Longrightarrow> turn_index st' = turn_index st \<Longrightarrow> minted st' = minted st \<Longrightarrow> sound lib lost st st'"
  using sound_cong [of st' st] by simp

lemma sound_fold: "(\<And>x st. sound lib lost st (f x st)) \<Longrightarrow> sound lib lost st (fold f xs st)"
  by (induction xs arbitrary: st) (auto intro: sound_trans)

lemma sound_recompute:
  assumes "inj (\<lambda>n. fst (mint lib n))"
  shows "sound lib lost st (recompute_hunks lib p new_current source st)"
proof -
  have "minted st \<le> minted (recompute_hunks lib p new_current source st)"
    by (simp add: recompute_hunks_def Let_def split: option.split)
  then show ?thesis using struct_recompute [OF assms] recompute_content by (auto simp: sound_def tracker_ok_def)
qed

lemma sound_put_empty: "file_hunks fs = [] \<Longrightarrow> sound lib lost st (put_file p fs st)"
  by (simp add: sound_def tracker_ok_def struct_put_empty content_put file_ok_def)

lemma sound_put_same:
  assumes "file_state st p = Some fs" "file_hunks gs = file_hunks fs" "baseline gs = baseline fs" "current_content gs = current_content fs"
  shows "sound lib lost st (put_file p gs st)"
proof -
  have "struct_ok lib lost (put_file p gs st)" if "struct_ok lib lost st"
    using struct_distinct [OF that assms(1)] assms by (intro struct_put [OF that]) (auto simp: has_hunk_def)
  moreover have "content_ok lib (put_file p gs st)" if "content_ok lib st"
    using that assms by (intro content_put) (auto simp: content_ok_def file_ok_def)
  ultimately show ?thesis by (simp add: sound_def tracker_ok_def)
qed

text \<open>New contents, with the hunks computed anew.\<close>

lemma sound_put_recompute:
  assumes inj: "inj (\<lambda>n. fst (mint lib n))" and fs: "file_state st p = Some fs" and hunks: "set (file_hunks gs) \<subseteq> set (file_hunks fs)"
    and dist: "distinct (map hunk_id (file_hunks fs)) \<Longrightarrow> distinct (map hunk_id (file_hunks gs))"
  shows "sound lib lost st (recompute_hunks lib p new_current source (put_file p gs st))"
proof -
  have "struct_ok lib lost (put_file p gs st)" if "struct_ok lib lost st"
    using struct_distinct [OF that fs] dist fs hunks by (intro struct_put [OF that]) (auto simp: has_hunk_def)
  moreover have "content_ok lib (recompute_hunks lib p new_current source (put_file p gs st))" if "content_ok lib st"
    using that by (intro content_recompute) (auto simp: content_ok_def)
  moreover have "minted st \<le> minted (recompute_hunks lib p new_current source (put_file p gs st))"
    by (simp add: recompute_hunks_def Let_def)
  ultimately show ?thesis using struct_recompute [OF inj] by (simp add: sound_def tracker_ok_def)
qed

text \<open>The hunks of a file that goes, or that is settled, leave the index.\<close>

lemma sound_retire:
  assumes fs: "file_state st p = Some fs" and st': "st' = drop_file p st \<or> (\<exists>gs. file_hunks gs = [] \<and> st' = put_file p gs st)"
  shows "sound lib lost st (retire_hunks p (file_hunks fs) st')"
proof -
  have "struct_ok lib lost (st'\<lparr>turn_index := fold turn_remove (file_hunks fs) (turn_index st')\<rparr>)" if ok: "struct_ok lib lost st"
  proof (rule struct_unindex_absent)
    show "struct_ok lib lost st'" using st' struct_drop [OF ok] struct_put_empty [OF ok] by auto
    show "hunk_id g \<noteq> hunk_id h" if here: "has_hunk st' q g" "h \<in> set (file_hunks fs)" for q g h
    proof -
      from here(1) have "q \<noteq> p" "has_hunk st q g" using st' by (auto simp: has_hunk_put has_hunk_drop split: if_splits)
      moreover have "has_hunk st p h" using here(2) fs by (auto simp: has_hunk_def)
      ultimately show ?thesis using struct_hunks(4) [OF ok, of q g p h] by auto
    qed
  qed
  moreover have "content_ok lib (st'\<lparr>turn_index := fold turn_remove (file_hunks fs) (turn_index st')\<rparr>)" if "content_ok lib st"
    using st' content_drop [OF that] content_put [OF that] content_cong [of "st'\<lparr>turn_index := fold turn_remove (file_hunks fs) (turn_index st')\<rparr>" st']
    by (auto simp: file_ok_def)
  moreover have "minted st' = minted st" using st' by auto
  ultimately show ?thesis
    unfolding retire_hunks_def sound_send by (simp add: sound_def tracker_ok_def)
qed

lemma sound_retired:
  assumes "file_state st p = Some fs"
  shows "sound lib lost st (retire_hunks p (file_hunks fs) (drop_file p st))"
    and "file_hunks gs = [] \<Longrightarrow> sound lib lost st (retire_hunks p (file_hunks fs) (put_file p gs st))"
  using sound_retire [OF assms] by auto

section \<open>Accepting and rejecting\<close>

definition rights_ok :: "string set \<Rightarrow> disk_rights \<Rightarrow> bool" where
  "rights_ok lost rights \<longleftrightarrow> lost = UNIV \<or> (\<forall>p. can_write rights p \<and> can_remove rights p)"

lemma single_accept: "accept_hunk lib p h st = accept_hunks_batch lib p [h] st"
  by (simp add: accept_hunk_def accept_hunks_batch_def take_over_all_def removal_events_def Let_def
      split: FileContentState.split option.split)

lemma single_reject: "reject_hunk lib rights p h st = reject_hunks_batch lib rights p [h] st"
  by (simp add: reject_hunk_def reject_hunks_batch_def reject_action_def take_back_all_def removal_events_def Let_def
      split: FileContentState.split option.split)

lemma some_hunks:
  assumes "file_ok lib p fs" "hs \<noteq> []" "set hs \<subseteq> set (file_hunks fs)"
  shows "(\<exists>b c. baseline fs = Full b \<and> current_content fs = Full c)
    \<or> ((\<exists>b. baseline fs = Full b \<and> current_content fs = Missing) \<or> (\<exists>c. baseline fs = Missing \<and> current_content fs = Full c))
      \<and> without_hunks hs (file_hunks fs) = []"
proof -
  have some: "file_hunks fs \<noteq> []" using assms(2,3) by auto
  then have made: "map shape (file_hunks fs) = map shape (fresh_hunks lib 0 p (baseline fs) (current_content fs) External)"
    using assms(1) by (simp add: file_ok_def)
  then have "fresh_hunks lib 0 p (baseline fs) (current_content fs) External \<noteq> []" using some by auto
  then have "(\<exists>b c. baseline fs = Full b \<and> current_content fs = Full c)
    \<or> ((\<exists>b. baseline fs = Full b \<and> current_content fs = Missing) \<or> (\<exists>c. baseline fs = Missing \<and> current_content fs = Full c))
      \<and> length (fresh_hunks lib 0 p (baseline fs) (current_content fs) External) = 1"
    by (auto simp: fresh_hunks_def split: FileContentState.splits if_splits)
  moreover have "without_hunks hs (file_hunks fs) = []" if "length (fresh_hunks lib 0 p (baseline fs) (current_content fs) External) = 1"
  proof -
    have "length (file_hunks fs) = 1" using arg_cong [OF made, of length] that by simp
    then obtain h where "file_hunks fs = [h]" by (auto simp: length_Suc_conv)
    with assms(2,3) show ?thesis by (cases hs) (auto simp: without_hunks_def)
  qed
  ultimately show ?thesis by blast
qed

lemma without_subset: "set (without_hunks hs ks) \<subseteq> set ks" "distinct (map hunk_id ks) \<Longrightarrow> distinct (map hunk_id (without_hunks hs ks))"
  by (auto simp: without_hunks_def distinct_map_filter)

lemma put_left_ok:
  assumes inj: "inj (\<lambda>n. fst (mint lib n))" and ok: "struct_ok lib (lost \<union> hunk_id ` set hs) st" "content_ok lib st"
    and fs: "file_state st p = Some fs" "set hs \<subseteq> set (file_hunks fs)" and gs: "file_hunks gs = without_hunks hs (file_hunks fs)"
  shows "without_hunks hs (file_hunks fs) = [] \<Longrightarrow> tracker_ok lib lost (put_file p gs st)"
    and "tracker_ok lib lost (recompute_hunks lib p new_current source (put_file p gs st))"
proof -
  have struct: "struct_ok lib lost (put_file p gs st)" using struct_put_left [OF ok(1) fs gs] .
  then show "tracker_ok lib lost (put_file p gs st)" if "without_hunks hs (file_hunks fs) = []"
    using that gs content_put [OF ok(2)] by (simp add: tracker_ok_def file_ok_def)
  have "content_ok lib (recompute_hunks lib p new_current source (put_file p gs st))"
    using ok(2) by (intro content_recompute) (simp add: content_ok_def)
  with struct_recompute [OF inj struct] show "tracker_ok lib lost (recompute_hunks lib p new_current source (put_file p gs st))"
    by (simp add: tracker_ok_def)
qed

lemma tracker_send [simp]: "tracker_ok lib lost (send_events es st) = tracker_ok lib lost st"
  by (rule tracker_cong) simp_all

lemma recompute_send [simp]:
  "tracker_ok lib lost (recompute_hunks lib p c source (send_events es st)) = tracker_ok lib lost (recompute_hunks lib p c source st)"
  by (rule tracker_cong) (simp_all add: recompute_hunks_def Let_def put_file_def file_state_def send_events_def split: option.split)

lemma minted_recompute: "minted st \<le> minted (recompute_hunks lib p c source st)"
  by (simp add: recompute_hunks_def Let_def split: option.split)

lemma accept_ok:
  assumes "inj (\<lambda>n. fst (mint lib n))" "struct_ok lib (lost \<union> hunk_id ` set hs) st" "content_ok lib st"
    and "file_state st p = Some fs" "set hs \<subseteq> set (file_hunks fs)" "hs \<noteq> []"
  shows "tracker_ok lib lost (accept_hunks_batch lib p hs st) \<and> minted st \<le> minted (accept_hunks_batch lib p hs st)"
proof -
  have "file_ok lib p fs" using assms(3,4) by (simp add: content_ok_def)
  from some_hunks [OF this assms(6,5)] show ?thesis
    using assms(4,6) put_left_ok [OF assms(1-5)] minted_recompute [of "send_events _ (put_file p _ st)"]
    by (auto simp: accept_hunks_batch_def Let_def)
qed

lemma reject_ok:
  assumes "inj (\<lambda>n. fst (mint lib n))" "struct_ok lib (lost \<union> hunk_id ` set hs) st" "content_ok lib st"
    and "file_state st p = Some fs" "set hs \<subseteq> set (file_hunks fs)" "hs \<noteq> []" "rights_ok lost rights"
  shows "tracker_ok lib lost (fst (reject_hunks_batch lib rights p hs st)) \<and> minted st \<le> minted (fst (reject_hunks_batch lib rights p hs st))"
proof -
  have stays: "tracker_ok lib lost st" if "\<not> (can_write rights p \<and> can_remove rights p)"
    using that assms(2,3,7) by (auto simp: rights_ok_def tracker_ok_def)
  have same: "struct_ok lib (lost \<union> hunk_id ` set hs) (st\<lparr>disk := d\<rparr>)" "content_ok lib (st\<lparr>disk := d\<rparr>)"
      "file_state (st\<lparr>disk := d\<rparr>) p = Some fs" for d
    using assms(2,3,4) struct_cong [of "st\<lparr>disk := d\<rparr>" st] content_cong [of "st\<lparr>disk := d\<rparr>" st] by simp_all
  have "file_ok lib p fs" using assms(3,4) by (simp add: content_ok_def)
  from some_hunks [OF this assms(6,5)] show ?thesis
    using stays assms(4,6) put_left_ok [OF assms(1) same assms(5)] minted_recompute [of "send_events _ (put_file p _ (st\<lparr>disk := _\<rparr>))"]
    by (auto simp: reject_hunks_batch_def Let_def write_file_def remove_file_def)
qed

lemma count_off_fields [simp]:
  "file_states (count_off action hs st) = file_states st" "minted (count_off action hs st) = minted st" "disk (count_off action hs st) = disk st"
  "turn_index (count_off action hs st) = fold turn_remove hs (turn_index st)" "file_state (count_off action hs st) = file_state st"
proof -
  have "file_states (count_off action hs st) = file_states st \<and> minted (count_off action hs st) = minted st
      \<and> disk (count_off action hs st) = disk st \<and> turn_index (count_off action hs st) = fold turn_remove hs (turn_index st)"
    unfolding count_off_def by (induction hs arbitrary: st) (simp_all add: remove_from_turn_index_def update_session_stats_def Let_def)
  then show "file_states (count_off action hs st) = file_states st" "minted (count_off action hs st) = minted st"
    "disk (count_off action hs st) = disk st"
    "turn_index (count_off action hs st) = fold turn_remove hs (turn_index st)" "file_state (count_off action hs st) = file_state st"
    by (simp_all add: file_state_def fun_eq_iff)
qed

lemma count_off_ok:
  assumes "tracker_ok lib lost st"
  shows "struct_ok lib (lost \<union> hunk_id ` set hs) (count_off action hs st)" "content_ok lib (count_off action hs st)"
proof -
  let ?st = "st\<lparr>turn_index := fold turn_remove hs (turn_index st)\<rparr>"
  show "struct_ok lib (lost \<union> hunk_id ` set hs) (count_off action hs st)"
    using struct_unindex [of lib lost st hs] struct_cong [of "count_off action hs st" ?st] assms by (simp add: tracker_ok_def)
  show "content_ok lib (count_off action hs st)" using assms content_cong [of "count_off action hs st" st] by (simp add: tracker_ok_def)
qed

definition act_on :: "hunk_lib \<Rightarrow> disk_rights \<Rightarrow> path \<Rightarrow> TrackedHunk list \<Rightarrow> HunkAction \<Rightarrow> tracker \<Rightarrow> tracker \<times> HunkActionError option" where
  "act_on lib rights p hs action st =
     (case action of
        Accept \<Rightarrow> (accept_hunks_batch lib p hs (count_off action hs st), None)
      | Reject \<Rightarrow> reject_hunks_batch lib rights p hs (count_off action hs st))"

lemma act_on_ok:
  assumes "inj (\<lambda>n. fst (mint lib n))" "rights_ok lost rights" "tracker_ok lib lost st"
    and "file_state st p = Some fs" "set hs \<subseteq> set (file_hunks fs)" "hs \<noteq> []"
  shows "tracker_ok lib lost (fst (act_on lib rights p hs action st)) \<and> minted st \<le> minted (fst (act_on lib rights p hs action st))"
proof -
  note ok = count_off_ok [OF assms(3), where hs = hs and action = action]
  have fs: "file_state (count_off action hs st) p = Some fs" using assms(4) by simp
  show ?thesis
    using accept_ok [OF assms(1) ok fs assms(5,6)] reject_ok [OF assms(1) ok fs assms(5,6,2)]
    by (cases action) (simp_all add: act_on_def)
qed

lemma recompute_elsewhere: "q \<noteq> p \<Longrightarrow> file_state (recompute_hunks lib p c source st) q = file_state st q"
  by (simp add: recompute_file_state)

lemma act_elsewhere:
  assumes "q \<noteq> p"
  shows "file_state (fst (act_on lib rights p hs action st)) q = file_state st q"
  using assms
  by (simp add: act_on_def accept_hunks_batch_def reject_hunks_batch_def Let_def recompute_elsewhere write_file_def remove_file_def
      split: HunkAction.split option.split FileContentState.split)

lemma apply_action_batch_Cons:
  "apply_action_batch lib rights ((p, hs) # rest) action st =
     (case act_on lib rights p hs action st of
        (st, Some e) \<Rightarrow> (st, Inl e)
      | (st, None) \<Rightarrow>
          (let (st, result) = apply_action_batch lib rights rest action st in (st, map_sum id ((@) (map hunk_id hs)) result)))"
  by (simp add: act_on_def Let_def split: HunkAction.split prod.split option.split)

lemma batch_ok:
  assumes "inj (\<lambda>n. fst (mint lib n))" "rights_ok lost rights" "tracker_ok lib lost st" "distinct (map fst files)"
    and "\<And>p hs. (p, hs) \<in> set files \<Longrightarrow> hs \<noteq> [] \<and> (\<exists>fs. file_state st p = Some fs \<and> set hs \<subseteq> set (file_hunks fs))"
  shows "tracker_ok lib lost (fst (apply_action_batch lib rights files action st)) \<and> minted st \<le> minted (fst (apply_action_batch lib rights files action st))"
  using assms(3-5)
proof (induction files arbitrary: st)
  case (Cons f files)
  obtain p hs where f: "f = (p, hs)" by (cases f)
  obtain fs where fs: "file_state st p = Some fs" "set hs \<subseteq> set (file_hunks fs)" "hs \<noteq> []" using Cons.prems(3) [of p hs] f by auto
  obtain st' failed where act: "act_on lib rights p hs action st = (st', failed)" by (cases "act_on lib rights p hs action st")
  have st': "tracker_ok lib lost st'" "minted st \<le> minted st'"
    using act_on_ok [OF assms(1,2) Cons.prems(1) fs, of action] act by auto
  have "hs' \<noteq> [] \<and> (\<exists>fs. file_state st' q = Some fs \<and> set hs' \<subseteq> set (file_hunks fs))" if "(q, hs') \<in> set files" for q hs'
  proof -
    have "q \<noteq> p" using that Cons.prems(2) f by force
    then show ?thesis using act_elsewhere [of q p lib rights hs action st] act Cons.prems(3) [of q hs'] that by simp
  qed
  then have "tracker_ok lib lost (fst (apply_action_batch lib rights files action st')) \<and> minted st' \<le> minted (fst (apply_action_batch lib rights files action st'))"
    using Cons.IH [OF st'(1)] Cons.prems(2) by simp
  then show ?case using st' unfolding f apply_action_batch_Cons act by (auto split: option.split prod.split)
qed simp

lemma tracker_keys: "tracker_ok lib lost st \<Longrightarrow> distinct (map fst (file_states st))"
  by (simp add: tracker_ok_def struct_ok_def keys_apart_def)

lemma listed_file: "tracker_ok lib lost st \<Longrightarrow> (p, fs) \<in> set (file_states st) \<Longrightarrow> file_state st p = Some fs"
  using tracker_keys by (simp add: file_state_def)

lemma sound_file_action:
  assumes "inj (\<lambda>n. fst (mint lib n))" "rights_ok lost rights"
  shows "sound lib lost st (fst (apply_file_action lib rights p action st))"
proof (cases "file_state st p")
  case (Some fs)
  then show ?thesis
    using batch_ok [OF assms, of st "[(p, file_hunks fs)]" action] by (simp add: apply_file_action_def sound_def del: apply_action_batch.simps)
qed (simp add: apply_file_action_def)

lemma sound_selected:
  assumes "inj (\<lambda>n. fst (mint lib n))" "rights_ok lost rights" "\<And>fs. set (sel fs) \<subseteq> set (file_hunks fs)"
  shows "sound lib lost st (fst (apply_action_batch lib rights (filter (\<lambda>(p, hs). hs \<noteq> []) (map (\<lambda>(p, fs). (p, sel fs)) (file_states st))) action st))"
  unfolding sound_def
proof
  let ?files = "filter (\<lambda>(p, hs). hs \<noteq> []) (map (\<lambda>(p, fs). (p, sel fs)) (file_states st))"
  assume ok: "tracker_ok lib lost st"
  have "map fst (map (\<lambda>(p, fs). (p, sel fs)) (file_states st)) = map fst (file_states st)" by (auto simp: split_def)
  then have "distinct (map fst ?files)" using tracker_keys [OF ok] by (metis distinct_map_filter)
  moreover have "hs \<noteq> [] \<and> (\<exists>fs. file_state st p = Some fs \<and> set hs \<subseteq> set (file_hunks fs))" if "(p, hs) \<in> set ?files" for p hs
    using that listed_file [OF ok] assms(3) by auto
  ultimately show "tracker_ok lib lost (fst (apply_action_batch lib rights ?files action st))
      \<and> minted st \<le> minted (fst (apply_action_batch lib rights ?files action st))"
    by (rule batch_ok [OF assms(1,2) ok])
qed

lemma sound_all_action:
  assumes "inj (\<lambda>n. fst (mint lib n))" "rights_ok lost rights"
  shows "sound lib lost st (fst (apply_all_action lib rights action st))"
    and "sound lib lost st (fst (apply_turn_action lib rights turn action st))"
  using sound_selected [OF assms, of file_hunks] sound_selected [OF assms, of "\<lambda>fs. filter (\<lambda>h. prompt_index (hunk_source h) = Some turn) (file_hunks fs)"]
  by (simp_all add: apply_all_action_def apply_turn_action_def Let_def)

lemma find_hunk_in: "find_hunk i files = Some (p, h) \<Longrightarrow> \<exists>fs. (p, fs) \<in> set files \<and> h \<in> set (file_hunks fs) \<and> hunk_id h = i"
  by (induction i files rule: find_hunk.induct) (auto simp: find_Some_iff split: option.splits)

lemma apply_hunk_action_act:
  "apply_hunk_action lib rights i action st =
     (case find_hunk i (file_states st) of None \<Rightarrow> (st, Some (HunkNotFound i)) | Some (p, h) \<Rightarrow> act_on lib rights p [h] action st)"
  by (simp add: apply_hunk_action_def act_on_def count_off_def single_accept single_reject Let_def split: option.split HunkAction.split)

lemma sound_hunk_action:
  assumes "inj (\<lambda>n. fst (mint lib n))" "rights_ok lost rights"
  shows "sound lib lost st (fst (apply_hunk_action lib rights i action st))"
proof (cases "find_hunk i (file_states st)")
  case (Some ph)
  obtain p h where ph: "ph = (p, h)" by (cases ph)
  obtain fs where fs: "(p, fs) \<in> set (file_states st)" "h \<in> set (file_hunks fs)" using find_hunk_in Some ph by blast
  then show ?thesis
    using act_on_ok [OF assms, of st p fs "[h]" action] listed_file Some ph by (auto simp: apply_hunk_action_act sound_def)
qed (simp add: apply_hunk_action_def)

section \<open>Writes, changes and baselines\<close>

lemma remember_repo_fields [simp]:
  "file_states (remember_repo w st) = file_states st" "turn_index (remember_repo w st) = turn_index st"
  "minted (remember_repo w st) = minted st" "file_state (remember_repo w st) = file_state st"
  by (simp_all add: remember_repo_def file_state_def fun_eq_iff split: GitRepoState.split)

lemma read_fields [simp]: "fst (read_baseline w p st) = remember_repo w st"
  by (simp add: read_baseline_def)

lemma take_baseline_state: "fst (take_baseline w p preloaded st) \<in> {st, remember_repo w st}"
  by (simp add: take_baseline_def split: option.split)

lemma sound_remember: "sound lib lost st (remember_repo w st)"
  by (rule sound_same) simp_all

lemma sound_track:
  assumes "file_hunks fs = []"
  shows "sound lib lost st (track_file p fs st)"
  using sound_put_empty [OF assms] by (simp add: track_file_def)

lemma sound_record_agent_write:
  assumes inj: "inj (\<lambda>n. fst (mint lib n))"
  shows "sound lib lost st (record_agent_write lib w p content turn prev st)"
proof (cases "file_state st p")
  case None
  have track: "sound lib lost st (track_file p (new_file_state base cur True) st')" if "st' = st \<or> st' = remember_repo w st" for base cur st'
    using that sound_track sound_trans [OF sound_remember sound_track] by (auto simp: new_file_state_def)
  show ?thesis
    using None sound_trans [OF track sound_recompute [OF inj]] track
    by (simp add: record_agent_write_def Let_def read_baseline_def split: option.split)
next
  case (Some fs)
  then show ?thesis
    using sound_trans [OF sound_put_same [OF Some] sound_recompute [OF inj]] sound_put_empty
    by (simp add: record_agent_write_def Let_def)
qed

lemma sound_untracked:
  assumes inj: "inj (\<lambda>n. fst (mint lib n))"
  shows "sound lib lost st (process_untracked lib w p preloaded cur st)"
proof -
  obtain st' base where taken: "(if \<not> is_diffable cur \<and> tracking_mode st \<noteq> AllDirty then (st, Missing) else take_baseline w p preloaded st) = (st', base)"
    by (meson surj_pair)
  then have st': "sound lib lost st st'"
    using take_baseline_state [of w p preloaded st] sound_remember [of lib lost st w] by (auto split: if_splits)
  have track: "sound lib lost st (track_file p (new_file_state base c False) st')" for c
    using sound_trans [OF st' sound_track] by (simp add: new_file_state_def)
  show ?thesis
    unfolding process_untracked_def taken
    using st' track sound_trans [OF track sound_recompute [OF inj]] by (simp add: Let_def)
qed

lemma sound_tracked:
  assumes inj: "inj (\<lambda>n. fst (mint lib n))"
  shows "sound lib lost st (process_tracked lib w p preloaded cur fs st)"
proof -
  obtain st' head where taken: "take_baseline w p preloaded st = (st', head)" by (cases "take_baseline w p preloaded st")
  have st': "sound lib lost st st'"
    using take_baseline_state [of w p preloaded st] sound_remember [of lib lost st w] taken by auto
  show ?thesis
    unfolding process_tracked_def taken
    using sound_trans [OF st' sound_put_empty] sound_trans [OF st' sound_recompute [OF inj]] sound_recompute [OF inj] by simp
qed

lemma sound_file_change:
  assumes inj: "inj (\<lambda>n. fst (mint lib n))"
  shows "sound lib lost st (process_file_change lib w p preloaded st)" "sound lib lost st (handle_file_change lib w p st)"
  by (simp_all add: handle_file_change_def process_file_change_def sound_untracked [OF inj] sound_tracked [OF inj] split: option.split)

lemma sound_changes:
  assumes inj: "inj (\<lambda>n. fst (mint lib n))"
  shows "sound lib lost st (handle_file_changes_batch lib w ps st)"
proof -
  have each: "sound lib lost st (change_each lib w ps baselines st)" for baselines st
    by (induction ps arbitrary: baselines st) (auto intro: sound_trans [OF sound_file_change(1) [OF inj]])
  then show ?thesis
    using sound_trans [OF sound_remember each] by (simp add: handle_file_changes_batch_def read_baselines_batch_def)
qed

lemma sound_file_deleted:
  assumes inj: "inj (\<lambda>n. fst (mint lib n))"
  shows "sound lib lost st (handle_file_deleted lib w p st)"
proof -
  have "sound lib lost st (track_file p (new_file_state base Missing False) (remember_repo w st))" for base
    using sound_trans [OF sound_remember sound_track] by (simp add: new_file_state_def)
  then show ?thesis
    using sound_trans [OF _ sound_recompute [OF inj]] sound_file_change(2) [OF inj] sound_recompute [OF inj] sound_remember
    by (simp add: handle_file_deleted_def read_baseline_def Let_def split: option.split)
qed

lemma sound_reset: "sound lib lost st (reset_baseline p st)"
  by (auto simp: reset_baseline_def intro!: sound_retired split: option.split)

lemma sound_dirty_cache:
  assumes inj: "inj (\<lambda>n. fst (mint lib n))"
  shows "sound lib lost st (refresh_git_dirty_cache lib w scope st)"
proof -
  have cache: "sound lib lost st ((remember_repo w st)\<lparr>git_dirty_cache := d, git_staged_cache := s\<rparr>)" for d s
    by (rule sound_same) simp_all
  have "sound lib lost st (fold (\<lambda>rel st. handle_file_change lib w (path_join (working_dir st) rel) st) rels
      ((remember_repo w st)\<lparr>git_dirty_cache := d, git_staged_cache := s\<rparr>))" for rels d s
    by (rule sound_trans [OF cache sound_fold [OF sound_file_change(2) [OF inj]]])
  with cache show ?thesis by (simp add: refresh_git_dirty_cache_def Let_def)
qed

lemma sound_refresh_file:
  assumes inj: "inj (\<lambda>n. fst (mint lib n))"
  shows "sound lib lost st (refresh_file lib w baselines p st)"
  using sound_put_recompute [OF inj, of st p] sound_retired
  by (auto simp: refresh_file_def Let_def split: option.split)

lemma sound_refresh_caches:
  assumes inj: "inj (\<lambda>n. fst (mint lib n))"
  shows "sound lib lost st (refresh_caches lib w st)"
  by (auto simp: refresh_caches_def Let_def sound_dirty_cache [OF inj] intro!: sound_same split: TrackingMode.split)

lemma sound_refresh_all:
  assumes inj: "inj (\<lambda>n. fst (mint lib n))"
  shows "sound lib lost st (refresh_all_baselines_except lib w skip st)"
proof -
  have sync: "sound lib lost st (case s of Some s \<Rightarrow> (remember_repo w st)\<lparr>repo_sync_state := s\<rparr> | None \<Rightarrow> remember_repo w st)" for s
    by (rule sound_same) (simp_all split: option.split)
  have all: "sound lib lost st' (fold (refresh_file lib w baselines) ps st')" for st' baselines ps
    by (rule sound_fold) (rule sound_refresh_file [OF inj])
  have files: "sound lib lost st' (let (st', baselines) = read_baselines_batch w ps st' in fold (refresh_file lib w baselines) ps st')" for st' ps
    using sound_trans [OF sound_remember all] all by (simp add: read_baselines_batch_def)
  have rest: "sound lib lost st (let st' = refresh_caches lib w (case s of Some s \<Rightarrow> (remember_repo w st)\<lparr>repo_sync_state := s\<rparr> | None \<Rightarrow> remember_repo w st);
      ps = filter (\<lambda>p. p \<notin> set skip) (map fst (file_states st')); (st', baselines) = read_baselines_batch w ps st'
      in fold (refresh_file lib w baselines) ps st')" for s
    using sound_trans [OF sound_trans [OF sync sound_refresh_caches [OF inj]] files] unfolding Let_def .
  show ?thesis
    unfolding refresh_all_baselines_except_def read_repo_sync_state_def Let_def prod.case
    using rest [of None] rest [of "Some (sync_now w)"] sound_remember
    by (cases "open_or_discover w st") (simp_all add: Let_def)
qed

lemma sound_drops:
  assumes "\<And>p fs. (p, fs) \<in> set files \<Longrightarrow> file_state st p = Some fs" "distinct (map fst files)"
  shows "sound lib lost st (fold (\<lambda>(p, fs) st. send_events [FileRemoved p] (retire_hunks p (file_hunks fs) (drop_file p st))) files st)"
  using assms
proof (induction files arbitrary: st)
  case (Cons f files)
  obtain p fs where f: "f = (p, fs)" by (cases f)
  let ?st = "send_events [FileRemoved p] (retire_hunks p (file_hunks fs) (drop_file p st))"
  have "file_state st p = Some fs" using Cons.prems(1) f by simp
  then have one: "sound lib lost st ?st" using sound_retired(1) by simp
  have "file_state ?st q = Some gs" if "(q, gs) \<in> set files" for q gs
  proof -
    have "q \<noteq> p" using that Cons.prems(2) f by force
    then show ?thesis using Cons.prems(1) [of q gs] that by (simp add: retire_hunks_def)
  qed
  with Cons.IH [of ?st] Cons.prems(2) show ?case using sound_trans [OF one] by (simp add: f)
qed simp

lemma sound_set_mode:
  assumes inj: "inj (\<lambda>n. fst (mint lib n))"
  shows "sound lib lost st (set_mode lib w mode st)"
proof -
  let ?st = "st\<lparr>tracking_mode := mode\<rparr>"
  have moded: "sound lib lost st ?st" by (rule sound_same) simp_all
  have "sound lib lost ?st (fold (\<lambda>(p, fs) st. send_events [FileRemoved p] (retire_hunks p (file_hunks fs) (drop_file p st)))
      (filter (\<lambda>(p, fs). \<not> is_agent_file fs) (file_states st)) ?st)" if ok: "tracker_ok lib lost ?st"
    using listed_file [OF ok] tracker_keys [OF ok] by (intro sound_drops) (auto simp: distinct_map_filter)
  then have "sound lib lost ?st (fold (\<lambda>(p, fs) st. send_events [FileRemoved p] (retire_hunks p (file_hunks fs) (drop_file p st)))
      (filter (\<lambda>(p, fs). \<not> is_agent_file fs) (file_states st)) ?st)" by (auto simp: sound_def)
  from sound_trans [OF moded this] show ?thesis
    using moded sound_trans [OF moded sound_dirty_cache [OF inj]] by (cases mode) (simp_all add: set_mode_def Let_def)
qed

section \<open>The actor\<close>

definition safe :: "hunk_lib \<Rightarrow> string set \<Rightarrow> HunkTrackerSnapshot set \<Rightarrow> tracker \<Rightarrow> bool" where
  "safe lib lost snaps st \<longleftrightarrow> tracker_ok lib lost st \<and> (\<forall>snap\<in>snaps. tracker_ok lib lost (restore_snapshot snap st))"

lemma tracker_later:
  assumes "tracker_ok lib lost st" "file_states st' = file_states st" "turn_index st' = turn_index st" "minted st \<le> minted st'"
  shows "tracker_ok lib lost st'"
proof -
  have "made_ids lib (minted st) \<subseteq> made_ids lib (minted st')" using assms(4) by (auto simp: made_ids_def)
  moreover have same: "file_state st' = file_state st" "keys_apart st' = keys_apart st" "has_hunk st' = has_hunk st"
    using assms(2) by (simp_all add: file_state_def keys_apart_def has_hunk_def fun_eq_iff)
  ultimately show ?thesis
    using assms(1) unfolding tracker_ok_def struct_ok_def ids_ok_def index_ok_def content_ok_def same assms(3) by blast
qed

lemma sound_safe: "sound lib lost st st' \<Longrightarrow> safe lib lost snaps st \<Longrightarrow> safe lib lost snaps st'"
  by (auto simp: safe_def sound_def restore_snapshot_def intro: tracker_later)

lemma command_safe:
  assumes inj: "inj (\<lambda>n. fst (mint lib n))" and rights: "rights_ok lost rights" and safe: "safe lib lost snaps st"
    and snaps: "\<And>snap. cmd = RestoreState snap \<Longrightarrow> snap \<in> snaps"
  shows "safe lib lost snaps (handle_hunk_command lib w rights cmd st)"
proof (cases "\<exists>snap. cmd = RestoreState snap")
  case True
  then obtain snap where cmd: "cmd = RestoreState snap" "snap \<in> snaps" using snaps by auto
  have "restore_snapshot other (restore_snapshot snap st) = restore_snapshot other st" for other by (simp add: restore_snapshot_def)
  then show ?thesis using safe cmd by (simp add: safe_def)
next
  case False
  have "sound lib lost st (st\<lparr>session_stats := no_stats\<rparr>)" by (rule sound_same) simp_all
  with False have "sound lib lost st (handle_hunk_command lib w rights cmd st)"
    by (cases cmd) (simp_all add: sound_record_agent_write sound_file_change sound_file_deleted sound_dirty_cache sound_reset sound_set_mode
        sound_hunk_action sound_file_action sound_all_action sound_refresh_all inj rights)
  from sound_safe [OF this safe] show ?thesis .
qed

lemma commands_safe:
  assumes "inj (\<lambda>n. fst (mint lib n))" "rights_ok lost rights" "\<And>snap. RestoreState snap \<in> set cmds \<Longrightarrow> snap \<in> snaps"
    and "safe lib lost snaps st"
  shows "safe lib lost snaps (fold (handle_hunk_command lib w rights) cmds st)"
  using assms(3,4)
proof (induction cmds arbitrary: st)
  case (Cons cmd cmds)
  have "safe lib lost snaps (handle_hunk_command lib w rights cmd st)"
    by (rule command_safe [OF assms(1,2) Cons.prems(2)]) (use Cons.prems(1) in simp)
  then show ?case using Cons.IH Cons.prems(1) by simp
qed simp

lemma sound_refresh_actions:
  assumes inj: "inj (\<lambda>n. fst (mint lib n))"
  shows "sound lib lost st (fst (fold (refresh_action lib w) actions (st, seen)))"
proof (induction actions arbitrary: st seen)
  case (Cons pa actions)
  obtain st' seen' where step: "refresh_action lib w pa (st, seen) = (st', seen')" by (cases "refresh_action lib w pa (st, seen)")
  then have "sound lib lost st st'"
    using sound_file_deleted [OF inj] sound_file_change(2) [OF inj] by (auto simp: refresh_action_def Let_def split: prod.splits if_splits)
  with Cons.IH show ?case by (auto simp: step intro: sound_trans)
qed simp

lemma batched_commands: "RestoreState snap \<in> set (other_commands (fold batch_add cmds b)) \<Longrightarrow> RestoreState snap \<in> set (other_commands b) \<union> set cmds"
proof (induction cmds arbitrary: b)
  case (Cons cmd cmds)
  have "set (other_commands (batch_add cmd b)) \<subseteq> insert cmd (set (other_commands b))" by (cases cmd) auto
  with Cons.IH [of "batch_add cmd b"] Cons.prems show ?case by auto
qed simp

lemma batch_safe:
  assumes inj: "inj (\<lambda>n. fst (mint lib n))" and rights: "rights_ok lost rights" and safe: "safe lib lost snaps st"
    and snaps: "\<And>snap. RestoreState snap \<in> set (other_commands b) \<Longrightarrow> snap \<in> snaps"
  shows "safe lib lost snaps (handle_coalesced_batch lib w rights b st)"
proof -
  define first where "first = (if refresh_dirty b \<and> \<not> refresh_all b then refresh_git_dirty_cache lib w None st else st)"
  have "sound lib lost st first" using sound_dirty_cache [OF inj] by (simp add: first_def)
  moreover have "sound lib lost first (refresh_all_baselines_except lib w seen st')" if "fold (refresh_action lib w) acts (first, []) = (st', seen)" for acts st' seen
    using sound_refresh_actions [OF inj, of lost first w acts "[]"] that sound_trans [OF _ sound_refresh_all [OF inj]] by simp
  moreover have "sound lib lost first (handle_file_changes_batch lib w changed (fold (handle_file_deleted lib w) gone first))" for changed gone
    by (rule sound_trans [OF sound_fold sound_changes [OF inj]]) (rule sound_file_deleted [OF inj])
  ultimately show ?thesis
    using commands_safe [OF inj rights snaps] sound_safe [OF _ safe] sound_trans
    unfolding handle_coalesced_batch_def first_def [symmetric] Let_def by (auto simp: split_def prod_eq_iff)
qed

end
