(* ===== verification/Hunk_Review.thy ===== *)
theory Hunk_Review
  imports Hunk_Reach
begin

text \<open>
  Runs of the hunk tracker, and what a review of hunks can rely on: unique identifiers, a true index by
  turn, and files that are settled by accepting or rejecting all that was changed in them.
\<close>

section \<open>Runs\<close>

text \<open>
  A run starts as the actor does and goes on in rounds over queued commands; in between the disk changes
  in any way and snapshots are taken, which are the ones that can be restored. Git may answer
  differently in each round. In a reliable run the disk lets the tracker write and remove.
\<close>

inductive reached :: "hunk_lib \<Rightarrow> bool \<Rightarrow> HunkTrackerSnapshot set \<Rightarrow> tracker \<Rightarrow> bool" for lib reliable where
  start: "reached lib reliable {} (actor_start lib w (tracker_new wd mode d))"
| round: "reached lib reliable snaps st \<Longrightarrow> (reliable \<longrightarrow> (\<forall>p. can_write rights p \<and> can_remove rights p)) \<Longrightarrow>
    (\<And>snap. RestoreState snap \<in> set queue \<Longrightarrow> snap \<in> snaps) \<Longrightarrow>
    reached lib reliable snaps (snd (actor_round lib w rights queue st))"
| snapshot: "reached lib reliable snaps st \<Longrightarrow> reached lib reliable (insert (take_snapshot st) snaps) st"
| disk_change: "reached lib reliable snaps st \<Longrightarrow> reached lib reliable snaps (st\<lparr>disk := d\<rparr>)"

definition missing_from_index :: "bool \<Rightarrow> string set" where
  "missing_from_index reliable = (if reliable then {} else UNIV)"

lemma new_tracker_ok: "tracker_ok lib lost (tracker_new wd mode d)"
  by (simp add: tracker_ok_def struct_ok_def keys_apart_def ids_ok_def index_ok_def has_hunk_def content_ok_def
      file_state_def indexed_def tracker_new_def)

lemma round_safe:
  assumes "inj (\<lambda>n. fst (mint lib n))" "rights_ok lost rights" "safe lib lost snaps st"
    and "\<And>snap. RestoreState snap \<in> set queue \<Longrightarrow> snap \<in> snaps"
  shows "safe lib lost snaps (snd (actor_round lib w rights queue st))"
proof (cases queue)
  case (Cons cmd rest)
  have "snap \<in> snaps" if "RestoreState snap \<in> set (other_commands (fold batch_add queue empty_batch))" for snap
    using batched_commands [OF that] assms(4) by (simp add: empty_batch_def)
  then have "safe lib lost snaps (handle_coalesced_batch lib w rights (fold batch_add queue empty_batch) st)"
    by (rule batch_safe [OF assms(1-3)])
  moreover have "safe lib lost snaps (handle_hunk_command lib w rights cmd st)"
    by (rule command_safe [OF assms(1-3)]) (use assms(4) Cons in simp)
  ultimately show ?thesis using Cons by simp
qed (use assms(3) in simp)

lemma reached_safe:
  assumes "reached lib reliable snaps st" "inj (\<lambda>n. fst (mint lib n))"
  shows "safe lib (missing_from_index reliable) snaps st"
  using assms(1)
proof (induction rule: reached.induct)
  case (start w wd mode d)
  have "sound lib lost (tracker_new wd mode d) (actor_start lib w (tracker_new wd mode d))" for lost
    by (simp add: actor_start_def sound_dirty_cache [OF assms(2)])
  then show ?case using new_tracker_ok by (auto simp: safe_def sound_def)
next
  case (round snaps st rights queue w)
  then show ?case by (intro round_safe [OF assms(2)]) (auto simp: rights_ok_def missing_from_index_def)
next
  case (snapshot snaps st)
  have "restore_snapshot (take_snapshot st) st = st" by (simp add: restore_snapshot_def take_snapshot_def)
  with snapshot.IH show ?case by (simp add: safe_def)
next
  case (disk_change snaps st d)
  have "sound lib lost st (st\<lparr>disk := d\<rparr>)" for lost by (rule sound_same) simp_all
  from sound_safe [OF this disk_change.IH] show ?case .
qed

section \<open>Hunks of a turn\<close>

lemma all_hunks_has: "tracker_ok lib lost st \<Longrightarrow> h \<in> set (get_all_hunks st) \<longleftrightarrow> (\<exists>p. has_hunk st p h)"
  using listed_file by (fastforce simp: get_all_hunks_def has_hunk_def file_state_def dest: map_of_SomeD)

lemma all_ids_distinct:
  assumes "tracker_ok lib lost st"
  shows "distinct (map hunk_id (get_all_hunks st))"
proof -
  have struct: "struct_ok lib lost st" using assms by (simp add: tracker_ok_def)
  have "distinct (map hunk_id (concat (map (\<lambda>(p, fs). file_hunks fs) files)))"
    if "set files \<subseteq> set (file_states st)" "distinct (map fst files)" for files
    using that
  proof (induction files)
    case (Cons f files)
    obtain p fs where f: "f = (p, fs)" by (cases f)
    have fs: "file_state st p = Some fs" using Cons.prems(1) f listed_file [OF assms] by simp
    have "hunk_id h \<noteq> hunk_id g" if here: "h \<in> set (file_hunks fs)" "(q, gs) \<in> set files" "g \<in> set (file_hunks gs)" for h q gs g
    proof -
      have "q \<noteq> p" using here(2) Cons.prems(2) f by force
      moreover have "file_state st q = Some gs" using here(2) Cons.prems(1) listed_file [OF assms] by auto
      ultimately show ?thesis using struct_hunks(4) [OF struct, of p h q g] here fs by (auto simp: has_hunk_def)
    qed
    then show ?case using Cons struct_distinct [OF struct fs] f by fastforce
  qed simp
  then show ?thesis using tracker_keys [OF assms] by (simp add: get_all_hunks_def)
qed

lemma get_hunk_iff:
  assumes "tracker_ok lib lost st"
  shows "get_hunk i st = Some h \<longleftrightarrow> h \<in> set (get_all_hunks st) \<and> hunk_id h = i"
proof
  assume "h \<in> set (get_all_hunks st) \<and> hunk_id h = i"
  moreover from this obtain g where "get_hunk i st = Some g"
    by (cases "get_hunk i st") (auto simp: get_hunk_def find_None_iff)
  moreover from this have "g \<in> set (get_all_hunks st)" "hunk_id g = i" by (auto simp: get_hunk_def find_Some_iff)
  ultimately show "get_hunk i st = Some h" using same_id [OF all_ids_distinct [OF assms]] by metis
qed (auto simp: get_hunk_def find_Some_iff)

lemma turn_hunks:
  assumes "tracker_ok lib lost st"
  shows "get_hunks_for_turn turn st \<subseteq> {h \<in> set (get_all_hunks st). prompt_index (hunk_source h) = Some turn}"
    and "lost = {} \<Longrightarrow> {h \<in> set (get_all_hunks st). prompt_index (hunk_source h) = Some turn} \<subseteq> get_hunks_for_turn turn st"
proof -
  have struct: "struct_ok lib lost st" using assms by (simp add: tracker_ok_def)
  have these: "h \<in> Option.these ((\<lambda>i. get_hunk i st) ` ids) \<longleftrightarrow> h \<in> set (get_all_hunks st) \<and> hunk_id h \<in> ids" for h ids
    using get_hunk_iff [OF assms, of _ h] by (auto simp: in_these_eq image_iff eq_commute [of "Some h"])
  have listed: "h \<in> get_hunks_for_turn turn st \<longleftrightarrow> h \<in> set (get_all_hunks st) \<and> indexed (turn_index st) turn (hunk_id h)" for h
    by (cases "turn_index st turn") (simp_all add: get_hunks_for_turn_def indexed_def these)
  show "get_hunks_for_turn turn st \<subseteq> {h \<in> set (get_all_hunks st). prompt_index (hunk_source h) = Some turn}"
    using listed struct_hunks(2) [OF struct] all_hunks_has [OF assms] by auto
  show "{h \<in> set (get_all_hunks st). prompt_index (hunk_source h) = Some turn} \<subseteq> get_hunks_for_turn turn st" if "lost = {}"
    using listed struct_hunks(3) [OF struct] all_hunks_has [OF assms] that by auto
qed

text \<open>
  C28. In every run of the hunk tracker no two hunks have the same identifier, and the hunks that a
  query gives for a turn are hunks the agent made in that turn. When the disk lets the tracker write,
  they are all of them. Identifiers are only assumed to be made differently each time.
\<close>

theorem hunks_of_turn:
  assumes "inj (\<lambda>n. fst (mint lib n))" "reached lib reliable snaps st"
  shows "distinct (map hunk_id (get_all_hunks st))
    \<and> get_hunks_for_turn turn st \<subseteq> {h \<in> set (get_all_hunks st). prompt_index (hunk_source h) = Some turn}
    \<and> (reliable \<longrightarrow> get_hunks_for_turn turn st = {h \<in> set (get_all_hunks st). prompt_index (hunk_source h) = Some turn})"
proof -
  have ok: "tracker_ok lib (missing_from_index reliable) st" using reached_safe [OF assms(2,1)] by (simp add: safe_def)
  have "get_hunks_for_turn turn st = {h \<in> set (get_all_hunks st). prompt_index (hunk_source h) = Some turn}" if reliable
    using turn_hunks [OF ok, of turn] that by (simp add: missing_from_index_def)
  with all_ids_distinct [OF ok] turn_hunks(1) [OF ok] show ?thesis by blast
qed

definition review_lib :: hunk_lib where
  "review_lib = \<lparr>mint = (\<lambda>n. (replicate n (CHR ''h''), n)), diff_lines = (\<lambda>a b. Some [(Delete, a), (Insert, b)])\<rparr>"

definition review_view :: git_view where
  "review_view = \<lparr>discover = None, head_entry = (\<lambda>p. None), canonical = Some, git_status = (\<lambda>ps. None),
     sync_now = \<lparr>head_oid = None, index_mtime = None\<rparr>, link_exists = (\<lambda>p. False), link_is_dir = (\<lambda>p. False)\<rparr>"

definition review_rights :: disk_rights where
  "review_rights = \<lparr>can_write = (\<lambda>p. True), can_remove = (\<lambda>p. True)\<rparr>"

definition review_file :: path where "review_file = [RootDir, Normal ''f'']"

definition review_run :: tracker where
  "review_run = snd (actor_round review_lib review_view review_rights [RecordAgentWrite review_file (''new'' @ [LF]) 3 (Some (''old'' @ [LF]))]
     (tracker_new [RootDir] AgentOnly Map.empty))"

lemma review_mint: "inj (\<lambda>n. fst (mint review_lib n))"
  by (rule injI) (auto simp: review_lib_def dest: arg_cong [of _ _ length])

lemma review_reached: "reached review_lib True {} review_run"
proof -
  have "reached review_lib True {} (tracker_new [RootDir] AgentOnly Map.empty)"
    using reached.start [of review_lib True review_view "[RootDir]" AgentOnly Map.empty] by (simp add: actor_start_def tracker_new_def)
  then show ?thesis unfolding review_run_def by (rule reached.round) (simp_all add: review_rights_def)
qed

lemma review_texts: "classify_string (''old'' @ [LF]) = Full (''old'' @ [LF])" "classify_string (''new'' @ [LF]) = Full (''new'' @ [LF])"
  by (simp_all add: classify_string_def MAX_TRACKED_TEXT_BYTES_def is_lfs_pointer_def LFS_POINTER_PREFIX_def is_binary_def)

lemma review_files:
  "file_states review_run = [(review_file, \<lparr>baseline = Full (''old'' @ [LF]), current_content = Full (''new'' @ [LF]),
     file_hunks = [\<lparr>hunk_id = [], hunk_path = review_file, line_info = \<lparr>old_start = 1, old_count = 1, new_start = 1, new_count = 1\<rparr>,
       hunk_source = AgentEdit 3, old_text = Some (''old'' @ [LF]), new_text = ''new'' @ [LF], hunk_patch = None, created_at = 0, hunk_selected = False\<rparr>],
     is_agent_file = True, baseline_accepted = False\<rparr>)]"
  using review_texts
  by (simp add: review_run_def record_agent_write_def read_baseline_def open_or_discover_def remember_repo_def review_view_def tracker_new_def
      is_diffable_def recompute_hunks_def Let_def file_state_def track_file_def put_file_def new_file_state_def send_events_def fresh_hunks_def
      compute_hunks_def MAX_DIFF_FILE_SIZE_def review_lib_def build_all_def builders_def diff_start_def close_hunk_def in_progress_def
      builder_new_def build_def builder_info_def make_hunk_def find_matching_old_hunk_def)

theorem hunks_of_turn_witness:
  "get_hunks_for_turn 3 review_run = {h \<in> set (get_all_hunks review_run). prompt_index (hunk_source h) = Some 3}
   \<and> map (\<lambda>h. (hunk_source h, old_text h, new_text h)) (get_all_hunks review_run) = [(AgentEdit 3, Some (''old'' @ [LF]), ''new'' @ [LF])]"
proof
  show "get_hunks_for_turn 3 review_run = {h \<in> set (get_all_hunks review_run). prompt_index (hunk_source h) = Some 3}"
    using hunks_of_turn [OF review_mint review_reached] by simp
  show "map (\<lambda>h. (hunk_source h, old_text h, new_text h)) (get_all_hunks review_run) = [(AgentEdit 3, Some (''old'' @ [LF]), ''new'' @ [LF])]"
    by (simp add: get_all_hunks_def review_files)
qed

section \<open>Settling a file\<close>

lemma recompute_settled:
  assumes "file_state st p = Some fs" "baseline fs = cur"
  shows "file_state (recompute_hunks lib p (Some cur) source st) p = Some (fs\<lparr>current_content := cur, file_hunks := []\<rparr>)"
  using assms by (auto simp: recompute_file_state fresh_hunks_def compute_hunks_def split: FileContentState.split)

lemma recompute_disk [simp]: "disk (recompute_hunks lib p c source st) = disk st"
  by (simp add: recompute_hunks_def Let_def send_events_def put_file_def split: option.split)

lemma file_patches:
  assumes "file_ok lib p fs" "file_hunks fs \<noteq> []" "baseline fs = Full b" "current_content fs = Full c" "clean_diff lib b c"
  shows "take_back_all (file_hunks fs) c = b" "take_over_all (file_hunks fs) b = c"
proof -
  obtain changes where changes: "diff_lines lib b c = Some changes" using assms(5) by (auto simp: clean_diff_def split: option.splits)
  have made: "map shape (file_hunks fs) = map shape (compute_hunks lib 0 p b c External)" "compute_hunks lib 0 p b c External \<noteq> []"
    using assms(1-4) by (auto simp: file_ok_def fresh_hunks_def)
  then have "b \<noteq> c" "compute_hunks lib 0 p b c External = build_all lib 0 p External (builders changes)"
    by (auto simp: compute_hunks_def changes split: if_splits)
  with made(1) batch_patches [OF assms(5) _ _ changes, of "file_hunks fs" p] show "take_back_all (file_hunks fs) c = b" "take_over_all (file_hunks fs) b = c"
    by (simp_all add: build_all_shape)
qed

lemma without_all [simp]: "without_hunks hs hs = []"
  by (auto simp: without_hunks_def filter_empty_conv)



section \<open>The summary of a session\<close>

abbreviation of_turn :: "nat \<Rightarrow> TrackedHunk \<Rightarrow> bool" where
  "of_turn i h \<equiv> prompt_index (hunk_source h) = Some i"

abbreviation by_agent :: "TrackedHunk \<Rightarrow> bool" where
  "by_agent h \<equiv> prompt_index (hunk_source h) \<noteq> None"

lemma add_to_turn_simps [simp]:
  "turn_of (add_to_turn p h t) = turn_of t" "turn_hunks (add_to_turn p h t) = turn_hunks t @ [h]"
  "turn_added (add_to_turn p h t) = turn_added t + new_count (line_info h)"
  "turn_removed (add_to_turn p h t) = turn_removed t + old_count (line_info h)"
  by (simp_all add: add_to_turn_def)

lemma add_pending_turns:
  "turn_of ` set (add_pending p h i ts) = insert i (turn_of ` set ts)"
  "distinct (map turn_of ts) \<Longrightarrow> distinct (map turn_of (add_pending p h i ts))"
proof -
  show turns: "turn_of ` set (add_pending p h i ts) = insert i (turn_of ` set ts)" for ts by (induction ts) auto
  show "distinct (map turn_of ts) \<Longrightarrow> distinct (map turn_of (add_pending p h i ts))"
    by (induction ts) (auto simp: turns)
qed

lemma add_pending_sums:
  "sum_list (map (\<lambda>t. length (turn_hunks t)) (add_pending p h i ts)) = sum_list (map (\<lambda>t. length (turn_hunks t)) ts) + 1"
  "sum_list (map turn_added (add_pending p h i ts)) = sum_list (map turn_added ts) + new_count (line_info h)"
  "sum_list (map turn_removed (add_pending p h i ts)) = sum_list (map turn_removed ts) + old_count (line_info h)"
  by (induction ts) auto

lemma add_pending_member:
  assumes "t \<in> set (add_pending p h i ts)" "distinct (map turn_of ts)"
  shows "turn_of t \<noteq> i \<and> t \<in> set ts \<or> turn_of t = i \<and> i \<notin> turn_of ` set ts \<and> turn_hunks t = [h]
    \<or> (\<exists>t'\<in>set ts. turn_of t = i \<and> turn_of t' = i \<and> turn_hunks t = turn_hunks t' @ [h])"
  using assms by (induction ts) (auto simp: image_iff split: if_splits)

definition summary_of :: "TrackedHunk list \<Rightarrow> TurnSummary list \<times> nat \<Rightarrow> bool" where
  "summary_of hs acc \<longleftrightarrow>
     distinct (map turn_of (fst acc)) \<and> turn_of ` set (fst acc) = {i. \<exists>h\<in>set hs. of_turn i h}
     \<and> (\<forall>t\<in>set (fst acc). turn_hunks t = filter (of_turn (turn_of t)) hs)
     \<and> sum_list (map (\<lambda>t. length (turn_hunks t)) (fst acc)) = length (filter by_agent hs)
     \<and> sum_list (map turn_added (fst acc)) = sum_list (map (\<lambda>h. new_count (line_info h)) (filter by_agent hs))
     \<and> sum_list (map turn_removed (fst acc)) = sum_list (map (\<lambda>h. old_count (line_info h)) (filter by_agent hs))
     \<and> snd acc + length (filter by_agent hs) = length hs"

lemma summary_step:
  assumes "summary_of hs acc"
  shows "summary_of (hs @ [h]) (summarize_hunk p h acc)"
proof (cases "prompt_index (hunk_source h)")
  case None
  then show ?thesis using assms by (simp add: summary_of_def summarize_hunk_def)
next
  case (Some i)
  have dist: "distinct (map turn_of (fst acc))" and turns: "turn_of ` set (fst acc) = {i. \<exists>h\<in>set hs. of_turn i h}"
    and own: "\<And>t. t \<in> set (fst acc) \<Longrightarrow> turn_hunks t = filter (of_turn (turn_of t)) hs"
    using assms by (auto simp: summary_of_def)
  have "turn_hunks t = filter (of_turn (turn_of t)) (hs @ [h])" if "t \<in> set (add_pending p h i (fst acc))" for t
    using add_pending_member [OF that dist]
  proof (elim disjE conjE bexE)
    assume "i \<notin> turn_of ` set (fst acc)" "turn_hunks t = [h]" "turn_of t = i"
    moreover from this(1) have "filter (of_turn i) hs = []" by (auto simp: turns filter_empty_conv)
    ultimately show ?thesis using Some by simp
  qed (use own Some in auto)
  moreover have "turn_of ` set (add_pending p h i (fst acc)) = {j. \<exists>g\<in>set (hs @ [h]). of_turn j g}"
    unfolding add_pending_turns(1) turns using Some by auto
  ultimately show ?thesis
    using assms Some add_pending_turns(2) [OF dist] by (simp add: summary_of_def summarize_hunk_def add_pending_sums)
qed

lemma summary_hunks: "summary_of hs acc \<Longrightarrow> summary_of (hs @ gs) (fold (summarize_hunk p) gs acc)"
proof (induction gs arbitrary: hs acc)
  case (Cons g gs)
  from Cons.IH [OF summary_step [OF Cons.prems, of g p]] show ?case by simp
qed simp

lemma summary_files:
  "summary_of hs acc \<Longrightarrow>
   summary_of (hs @ concat (map (\<lambda>(p, fs). file_hunks fs) files)) (fold (\<lambda>(p, fs). fold (summarize_hunk p) (file_hunks fs)) files acc)"
proof (induction files arbitrary: hs acc)
  case (Cons f files)
  obtain p fs where f: "f = (p, fs)" by (cases f)
  from Cons.IH [OF summary_hunks [OF Cons.prems, of "file_hunks fs" p]] show ?case by (simp add: f)
qed simp

text \<open>
  The summary of a session lists each turn with pending hunks once, in ascending order, with
  exactly the hunks of that turn; its totals are the numbers of hunks and lines of the agent in all
  files, and with the hunks of others they make up all hunks.
\<close>

theorem session_summary_exact:
  "sorted_wrt (<) (map turn_of (turns (compute_session_summary st)))
    \<and> turn_of ` set (turns (compute_session_summary st)) = {i. \<exists>h\<in>set (get_all_hunks st). of_turn i h}
    \<and> (\<forall>t\<in>set (turns (compute_session_summary st)). turn_hunks t = filter (of_turn (turn_of t)) (get_all_hunks st))
    \<and> pending_hunks (compute_session_summary st) = length (filter by_agent (get_all_hunks st))
    \<and> pending_lines_added (compute_session_summary st) = sum_list (map (\<lambda>h. new_count (line_info h)) (filter by_agent (get_all_hunks st)))
    \<and> pending_lines_removed (compute_session_summary st) = sum_list (map (\<lambda>h. old_count (line_info h)) (filter by_agent (get_all_hunks st)))
    \<and> pending_hunks (compute_session_summary st) + unattributed_pending (compute_session_summary st) = length (get_all_hunks st)"
proof -
  let ?acc = "fold (\<lambda>(p, fs). fold (summarize_hunk p) (file_hunks fs)) (file_states st) ([], 0)"
  have "summary_of [] ([], 0)" by (simp add: summary_of_def)
  from summary_files [OF this, of "file_states st"] have acc: "summary_of (get_all_hunks st) ?acc" by (simp add: get_all_hunks_def)
  have sums: "sum_list (map f (sort_key turn_of ts)) = sum_list (map f ts)" for f :: "TurnSummary \<Rightarrow> nat" and ts
    by (metis mset_map mset_sort sum_mset_sum_list)
  have "sorted_wrt (<) (map turn_of (sort_key turn_of (fst ?acc)))"
    using acc by (simp add: summary_of_def strict_sorted_iff distinct_map)
  with acc show ?thesis
    unfolding compute_session_summary_def Let_def split_def by (simp add: summary_of_def sums)
qed

theorem session_summary_exact_witness:
  "turn_of ` set (turns (compute_session_summary review_run)) = {3} \<and> pending_hunks (compute_session_summary review_run) = 1
   \<and> unattributed_pending (compute_session_summary review_run) = 0"
  using session_summary_exact [of review_run] by (auto simp: get_all_hunks_def review_files)

end
