(* ===== verification/Hunk_Loc.thy ===== *)
theory Hunk_Loc
  imports Hunk_Tracker
begin

text \<open>
  Attribution of lines to authors (\<^verbatim>\<open>xai-hunk-tracker/src/loc/mod.rs\<close>): the events of the hunk tracker become
  records, and what rejected or superseded hunks had contributed is taken back by a record with the
  negated sums. Sums of records per hunk are therefore what the hunk stands for.
\<close>

section \<open>Records\<close>

datatype AuthorType = Agent | Human

fun author_text :: "AuthorType \<Rightarrow> string" where
  "author_text Agent = ''agent''"
| "author_text Human = ''human''"

datatype SourceType = AgentEditSource | ExternalOnAgentSource | ExternalSource

fun source_text :: "SourceType \<Rightarrow> string" where
  "source_text AgentEditSource = ''agent_edit''"
| "source_text ExternalOnAgentSource = ''external_edit_on_agent_file''"
| "source_text ExternalSource = ''external''"

datatype EventType = Added | Updated | Removed

fun event_text :: "EventType \<Rightarrow> string" where
  "event_text Added = ''added''"
| "event_text Updated = ''updated''"
| "event_text Removed = ''removed''"

record HunkRecord =
  rec_hunk_id :: string
  file_path :: path
  hunk_start :: nat
  hunk_end :: nat
  lines_added :: int
  lines_removed :: int
  author_type :: "AuthorType option"
  author_id :: "string option"
  rec_agent_id :: string
  rec_session_id :: string
  timestamp :: nat
  rec_prompt_index :: "nat option"
  source_type :: "SourceType option"
  event_type :: EventType
  removal_reason :: "HunkRemovalReason option"

datatype LocAggregate = LinesChanged AuthorType int int path | LinesReverted int int

record LocSinkContext =
  session_id :: string
  agent_id :: string
  user_id :: "string option"
  has_aggregate_tx :: bool

fun attribution :: "LocSinkContext \<Rightarrow> HunkSource \<Rightarrow> AuthorType \<times> string option \<times> nat option \<times> SourceType" where
  "attribution ctx (AgentEdit i) = (Agent, Some (agent_id ctx), Some i, AgentEditSource)"
| "attribution ctx ExternalEditOnAgentFile = (Human, user_id ctx, None, ExternalOnAgentSource)"
| "attribution ctx External = (Human, user_id ctx, None, ExternalSource)"

definition from_hunk :: "TrackedHunk \<Rightarrow> LocSinkContext \<Rightarrow> EventType \<Rightarrow> HunkSource \<Rightarrow> HunkRecord" where
  "from_hunk h ctx ev source =
     (let (author, author_id, turn, source_type) = attribution ctx source;
          (start, count) = (if new_count (line_info h) = 0 then (old_start (line_info h), old_count (line_info h))
                            else (new_start (line_info h), new_count (line_info h)))
      in \<lparr>rec_hunk_id = hunk_id h, file_path = hunk_path h, hunk_start = start,
          hunk_end = (if count = 0 then start else start + count - 1),
          lines_added = int (new_count (line_info h)), lines_removed = int (old_count (line_info h)),
          author_type = Some author, author_id = author_id, rec_agent_id = agent_id ctx, rec_session_id = session_id ctx,
          timestamp = created_at h, rec_prompt_index = turn, source_type = Some source_type, event_type = ev,
          removal_reason = None\<rparr>)"

section \<open>The sink\<close>

text \<open>
  The sums kept per hunk, the records that were written and the aggregates that were sent. The clock and
  whether a write succeeds are functions of the number of records so far tried.
\<close>

record loc_env =
  clock :: "nat \<Rightarrow> nat"
  write_works :: "nat \<Rightarrow> bool"

record loc_sink =
  acc :: "string \<rightharpoonup> int \<times> int"
  tried :: nat
  written :: "HunkRecord list"
  aggregates :: "LocAggregate list"

definition loc_start :: loc_sink where
  "loc_start = \<lparr>acc = Map.empty, tried = 0, written = [], aggregates = []\<rparr>"

definition write_record :: "loc_env \<Rightarrow> HunkRecord \<Rightarrow> loc_sink \<Rightarrow> loc_sink" where
  "write_record env r s =
     s\<lparr>tried := Suc (tried s), written := (if write_works env (tried s) then written s @ [r] else written s)\<rparr>"

definition accumulate :: "HunkRecord \<Rightarrow> loc_sink \<Rightarrow> loc_sink" where
  "accumulate r s =
     (let (a, b) = (case acc s (rec_hunk_id r) of Some e \<Rightarrow> e | None \<Rightarrow> (0, 0))
      in s\<lparr>acc := (acc s)(rec_hunk_id r \<mapsto> (a + lines_added r, b + lines_removed r))\<rparr>)"

definition send_aggregate :: "LocSinkContext \<Rightarrow> LocAggregate \<Rightarrow> loc_sink \<Rightarrow> loc_sink" where
  "send_aggregate ctx g s = (if has_aggregate_tx ctx then s\<lparr>aggregates := aggregates s @ [g]\<rparr> else s)"

definition lines_changed :: "AuthorType \<Rightarrow> HunkRecord \<Rightarrow> LocAggregate" where
  "lines_changed otherwise r =
     LinesChanged (case author_type r of Some a \<Rightarrow> a | None \<Rightarrow> otherwise) (lines_added r) (lines_removed r) (file_path r)"

definition negating_record :: "LocSinkContext \<Rightarrow> nat \<Rightarrow> path \<Rightarrow> string \<Rightarrow> HunkRemovalReason \<Rightarrow> int \<Rightarrow> int \<Rightarrow> HunkRecord" where
  "negating_record ctx now p i reason total_added total_removed =
     \<lparr>rec_hunk_id = i, file_path = p, hunk_start = 0, hunk_end = 0, lines_added = - total_added,
      lines_removed = - total_removed, author_type = None, author_id = None, rec_agent_id = agent_id ctx,
      rec_session_id = session_id ctx, timestamp = now, rec_prompt_index = None, source_type = None, event_type = Removed,
      removal_reason = Some reason\<rparr>"

fun handle_event :: "loc_env \<Rightarrow> LocSinkContext \<Rightarrow> HunkEvent \<Rightarrow> loc_sink \<Rightarrow> loc_sink" where
  "handle_event env ctx (HunkAdded p h) s =
     (let r = from_hunk h ctx Added (hunk_source h)
      in write_record env r (send_aggregate ctx (lines_changed Agent r) (accumulate r s)))"
| "handle_event env ctx (HunkContentChanged p h trigger_source prev_added prev_removed) s =
     (let r = (from_hunk h ctx Updated trigger_source)
                \<lparr>lines_added := int (new_count (line_info h)) - int prev_added,
                 lines_removed := int (old_count (line_info h)) - int prev_removed\<rparr>
      in write_record env r (send_aggregate ctx (lines_changed Human r) (accumulate r s)))"
| "handle_event env ctx (HunkRemoved p i reason) s =
     (let cleared = s\<lparr>acc := (acc s)(i := None)\<rparr>
      in if reason = AcceptedHunk then cleared
         else
           (case acc s i of
              None \<Rightarrow> cleared
            | Some (total_added, total_removed) \<Rightarrow>
                (if total_added = 0 \<and> total_removed = 0 then cleared
                 else write_record env (negating_record ctx (clock env (tried s)) p i reason total_added total_removed)
                        (send_aggregate ctx (LinesReverted (max total_added 0) (max total_removed 0)) cleared))))"
| "handle_event env ctx (HunkMoved p i info) s = s"
| "handle_event env ctx (FileAdded p b) s = s"
| "handle_event env ctx (FileRemoved p) s = s"
| "handle_event env ctx (BaselineUpdated p) s = s"

definition run_loc_sink :: "loc_env \<Rightarrow> LocSinkContext \<Rightarrow> HunkEvent list \<Rightarrow> loc_sink" where
  "run_loc_sink env ctx es = fold (handle_event env ctx) es loc_start"

section \<open>Sums\<close>

definition total_lines :: "string \<Rightarrow> HunkRecord list \<Rightarrow> int \<times> int" where
  "total_lines i rs =
     (let own = filter (\<lambda>r. rec_hunk_id r = i) rs in (sum_list (map lines_added own), sum_list (map lines_removed own)))"

definition open_lines :: "string \<Rightarrow> loc_sink \<Rightarrow> int \<times> int" where
  "open_lines i s = (case acc s i of Some e \<Rightarrow> e | None \<Rightarrow> (0, 0))"

fun is_acceptance_of :: "string \<Rightarrow> HunkEvent \<Rightarrow> bool" where
  "is_acceptance_of i (HunkRemoved p j reason) = (i = j \<and> reason = AcceptedHunk)"
| "is_acceptance_of i _ = False"

lemma from_hunk_id [simp]: "rec_hunk_id (from_hunk h ctx ev source) = hunk_id h"
  by (simp add: from_hunk_def Let_def split: prod.split)

lemma write_record_sums:
  "\<forall>n. write_works env n \<Longrightarrow> total_lines i (written (write_record env r s)) =
     (if rec_hunk_id r = i then (fst (total_lines i (written s)) + lines_added r, snd (total_lines i (written s)) + lines_removed r)
      else total_lines i (written s))"
  "open_lines i (write_record env r s) = open_lines i s"
  by (simp_all add: total_lines_def open_lines_def write_record_def Let_def)

lemma accumulate_sums:
  "open_lines i (accumulate r s) =
     (if rec_hunk_id r = i then (fst (open_lines i s) + lines_added r, snd (open_lines i s) + lines_removed r) else open_lines i s)"
  "written (accumulate r s) = written s"
  by (auto simp: open_lines_def accumulate_def Let_def split: option.split prod.split)

lemma send_aggregate_sums [simp]: "open_lines i (send_aggregate ctx g s) = open_lines i s" "written (send_aggregate ctx g s) = written s"
  by (simp_all add: send_aggregate_def open_lines_def)

lemma event_sums:
  assumes "\<forall>n. write_works env n" "\<not> is_acceptance_of i e" "total_lines i (written s) = open_lines i s"
  shows "total_lines i (written (handle_event env ctx e s)) = open_lines i (handle_event env ctx e s)"
proof (cases e)
  case (HunkRemoved p j reason)
  then show ?thesis
    using assms by (auto simp: Let_def write_record_sums open_lines_def negating_record_def send_aggregate_def write_record_def total_lines_def split: option.splits)
qed (use assms in \<open>simp_all add: Let_def write_record_sums accumulate_sums\<close>)

lemma run_sums:
  assumes "\<forall>n. write_works env n" "\<not> list_ex (is_acceptance_of i) es"
  shows "total_lines i (written (run_loc_sink env ctx es)) = open_lines i (run_loc_sink env ctx es)"
proof -
  have "total_lines i (written (fold (handle_event env ctx) es s)) = open_lines i (fold (handle_event env ctx) es s)"
    if "total_lines i (written s) = open_lines i s" for s
    using that assms(2) by (induction es arbitrary: s) (auto intro: event_sums [OF assms(1)])
  then show ?thesis by (simp add: run_loc_sink_def loc_start_def total_lines_def open_lines_def)
qed


definition loc_demo_env :: loc_env where
  "loc_demo_env = \<lparr>clock = id, write_works = (\<lambda>n. True)\<rparr>"

definition loc_demo_ctx :: LocSinkContext where
  "loc_demo_ctx = \<lparr>session_id = ''s'', agent_id = ''a'', user_id = None, has_aggregate_tx = True\<rparr>"

definition loc_demo_hunk :: "string \<Rightarrow> nat \<Rightarrow> nat \<Rightarrow> string \<Rightarrow> TrackedHunk" where
  "loc_demo_hunk i start k new =
     \<lparr>hunk_id = i, hunk_path = [RootDir, Normal ''f''],
      line_info = \<lparr>old_start = start, old_count = k, new_start = start, new_count = k\<rparr>, hunk_source = AgentEdit 0,
      old_text = Some (replicate k (CHR ''o'')), new_text = new, hunk_patch = None, created_at = 0, hunk_selected = False\<rparr>"


text \<open>
  Two hunks that grow into one: the sink is told of the hunk that keeps its identifier only, so the
  lines of the other are counted although no hunk stands for them any more.
\<close>

lemma merged_hunk_counted_twice:
  defines "one \<equiv> loc_demo_hunk ''1'' 1 1 ''x''" and "two \<equiv> loc_demo_hunk ''2'' 3 1 ''y''" and "both \<equiv> loc_demo_hunk ''2'' 1 3 ''z''"
  defines "es \<equiv> emit_hunk_diff_events (hunk_path both) [one, two] [both] (AgentEdit 1)"
  shows "carry_over [one, two] {} [both\<lparr>hunk_id := ''3''\<rparr>] = [both]"
    and "es = [HunkContentChanged (hunk_path both) both (AgentEdit 1) 1 1]"
    and "sum_list (map lines_added (written (run_loc_sink loc_demo_env loc_demo_ctx ([HunkAdded [] one, HunkAdded [] two] @ es)))) = 4"
proof -
  show events: "es = [HunkContentChanged (hunk_path both) both (AgentEdit 1) 1 1]" unfolding assms by code_simp
  show "carry_over [one, two] {} [both\<lparr>hunk_id := ''3''\<rparr>] = [both]" unfolding assms by code_simp
  show "sum_list (map lines_added (written (run_loc_sink loc_demo_env loc_demo_ctx ([HunkAdded [] one, HunkAdded [] two] @ es)))) = 4"
    unfolding events unfolding assms by code_simp
qed

end
