(* ===== verification/Hook_Event.thy ===== *)
theory Hook_Event
  imports Json Truncate
begin

text \<open>
  Events of the hook system and the patterns that select them (\<^verbatim>\<open>xai-grok-hooks/src/event.rs\<close>,
  \<^verbatim>\<open>matcher.rs\<close>, and the table of tool names of other agents in
  \<^verbatim>\<open>xai-grok-tools/src/types/claude_alias.rs\<close>). A pattern of letters, digits, underscores and bars is a
  list of exact names; any other one is a regular expression of the \<^verbatim>\<open>regex\<close> crate, a parameter
  that compiles a pattern to the predicate it matches, or reports an error.
\<close>

section \<open>Events\<close>

datatype HookEventName =
    SessionStart | SessionEnd | Stop | StopFailure
  | PreToolUse | PostToolUse | PostToolUseFailure | PermissionDenied
  | UserPromptSubmit | Notification
  | SubagentStart | SubagentStop | SubagentEnd
  | PreCompact | PostCompact

text \<open>The spellings that \<^verbatim>\<open>Deserialize\<close> accepts; any other text is an error.\<close>

definition event_spellings :: "(HookEventName \<times> string list) list" where
  "event_spellings =
     [(SessionStart, [''SessionStart'', ''session_start'', ''sessionStart'']),
      (PreToolUse, [''PreToolUse'', ''pre_tool_use'', ''preToolUse'', ''beforeShellExecution'',
         ''beforeMCPExecution'', ''beforeReadFile'']),
      (PostToolUse, [''PostToolUse'', ''post_tool_use'', ''postToolUse'', ''afterShellExecution'',
         ''afterMCPExecution'', ''afterFileEdit'', ''afterAgentResponse'', ''afterAgentThought'']),
      (PostToolUseFailure, [''PostToolUseFailure'', ''post_tool_use_failure'', ''postToolUseFailure'']),
      (SessionEnd, [''SessionEnd'', ''session_end'', ''sessionEnd'']),
      (Stop, [''Stop'', ''stop'']),
      (StopFailure, [''StopFailure'', ''stop_failure'', ''stopFailure'']),
      (Notification, [''Notification'', ''notification'']),
      (UserPromptSubmit, [''UserPromptSubmit'', ''user_prompt_submit'', ''beforeSubmitPrompt'']),
      (PermissionDenied, [''PermissionDenied'', ''permission_denied'', ''permissionDenied'']),
      (SubagentStart, [''SubagentStart'', ''subagent_start'', ''subagentStart'']),
      (SubagentStop, [''SubagentStop'', ''subagent_stop'', ''subagentStop'']),
      (SubagentEnd, [''SubagentEnd'', ''subagent_end'', ''subagentEnd'']),
      (PreCompact, [''PreCompact'', ''pre_compact'', ''preCompact'']),
      (PostCompact, [''PostCompact'', ''post_compact'', ''postCompact''])]"

definition event_of_name :: "string \<Rightarrow> HookEventName option" where
  "event_of_name s = map_option fst (find (\<lambda>(e, names). s \<in> set names) event_spellings)"

fun event_display :: "HookEventName \<Rightarrow> string" where
  "event_display SessionStart = ''session_start''"
| "event_display PreToolUse = ''pre_tool_use''"
| "event_display PostToolUse = ''post_tool_use''"
| "event_display PostToolUseFailure = ''post_tool_use_failure''"
| "event_display SessionEnd = ''session_end''"
| "event_display Stop = ''stop''"
| "event_display StopFailure = ''stop_failure''"
| "event_display Notification = ''notification''"
| "event_display UserPromptSubmit = ''user_prompt_submit''"
| "event_display PermissionDenied = ''permission_denied''"
| "event_display SubagentStart = ''subagent_start''"
| "event_display SubagentStop = ''subagent_stop''"
| "event_display SubagentEnd = ''subagent_stop''"
| "event_display PreCompact = ''pre_compact''"
| "event_display PostCompact = ''post_compact''"

fun canonical_event :: "HookEventName \<Rightarrow> HookEventName" where
  "canonical_event SubagentEnd = SubagentStop"
| "canonical_event e = e"

definition is_blocking_event :: "HookEventName \<Rightarrow> bool" where
  "is_blocking_event e \<longleftrightarrow> e = PreToolUse"

definition is_lifecycle :: "HookEventName \<Rightarrow> bool" where
  "is_lifecycle e \<longleftrightarrow> e \<in> set [SessionStart, SessionEnd, Stop, UserPromptSubmit]"

text \<open>The event names sent to the hub; the blocking event stays local.\<close>

definition hub_hook_kind :: "HookEventName \<Rightarrow> string option" where
  "hub_hook_kind e = (if is_blocking_event e then None else Some (''hook.'' @ event_display e))"

datatype HookPayload =
    PSessionStart (ss_source: string) (model_id: "string option") (agent_type: "string option")
  | PSessionEnd (se_reason: string) (turn_count: "nat option") (tool_call_count: "nat option")
  | PStop (stop_reason: string)
  | PStopFailure (stop_error: string)
  | PPreToolUse (pre_tool_name: string) (pre_tool_use_id: string) (pre_tool_input: json)
      (pre_input_truncated: bool) (permission_mode: "string option") (pre_subagent: "string option")
  | PPostToolUse (post_tool_name: string) (post_tool_use_id: string) (post_tool_input: json)
      (post_tool_result: json) (post_input_truncated: bool) (post_result_truncated: bool)
      (post_duration: "nat option") (is_backgrounded: bool) (post_subagent: "string option")
  | PPostToolUseFailure (fail_tool_name: string) (fail_tool_use_id: string) (fail_tool_input: json)
      (fail_input_truncated: bool) (fail_error: string) (fail_subagent: "string option")
  | PPermissionDenied (den_tool_name: string) (den_tool_use_id: string) (den_tool_input: json)
      (den_input_truncated: bool)
  | PUserPromptSubmit (prompt: "string option")
  | PNotification (notification_type: string) (notif_message: "string option") (notif_title: "string option")
      (notif_level: "string option")
  | PSubagentStart (start_id: string) (start_type: string) (start_description: "string option")
  | PSubagentStop (stop_id: string) (stop_type: string) (stop_description: "string option")
      (exit_code: "int option") (stop_duration: "nat option")
  | PPreCompact (pre_source: string)
  | PPostCompact (post_source: string)

record HookEventEnvelope =
  hook_event_name :: HookEventName
  e_session_id :: string
  e_cwd :: string
  e_workspace_root :: string
  e_timestamp :: string
  e_transcript_path :: "string option"
  e_client_identifier :: "string option"
  e_prompt_id :: "string option"
  e_payload :: HookPayload

text \<open>What a pattern is tested against: the tool, or the kind of a notification.\<close>

fun extract_tool_name_of :: "HookPayload \<Rightarrow> string option" where
  "extract_tool_name_of (PPreToolUse n _ _ _ _ _) = Some n"
| "extract_tool_name_of (PPostToolUse n _ _ _ _ _ _ _ _) = Some n"
| "extract_tool_name_of (PPostToolUseFailure n _ _ _ _ _) = Some n"
| "extract_tool_name_of (PPermissionDenied n _ _ _) = Some n"
| "extract_tool_name_of (PNotification t _ _ _) = Some t"
| "extract_tool_name_of _ = None"

definition extract_tool_name :: "HookEventEnvelope \<Rightarrow> string option" where
  "extract_tool_name env = extract_tool_name_of (e_payload env)"

text \<open>
  A large tool input is replaced by a string of the beginning of its JSON text. Printing
  is \<^verbatim>\<open>serde_json\<close>'s, with the empty text in place of an error.
\<close>

definition MAX_PAYLOAD_SIZE :: nat where
  "MAX_PAYLOAD_SIZE = 128 * 1024"

definition truncate_payload :: "(json \<Rightarrow> string option) \<Rightarrow> json \<Rightarrow> json \<times> bool" where
  "truncate_payload to_str v =
     (let serialized = (case to_str v of Some s \<Rightarrow> s | None \<Rightarrow> [])
      in if length serialized \<le> MAX_PAYLOAD_SIZE then (v, False)
         else
           (let end = boundary_below serialized MAX_PAYLOAD_SIZE
            in (JString (take end serialized @ '' [truncated]''), True)))"

section \<open>Tool names of other agents\<close>

text \<open>The name and the tools it stands for; the tool kinds of the table are not used by hooks.\<close>

definition CLAUDE_TOOLS :: "(string \<times> string list) list" where
  "CLAUDE_TOOLS =
     [(''Read'', [''read_file'', ''hashline_read'']),
      (''Write'', [''write'', ''search_replace'', ''hashline_edit'']),
      (''Edit'', [''search_replace'', ''hashline_edit'']),
      (''MultiEdit'', [''search_replace'', ''hashline_edit'']),
      (''NotebookEdit'', [''search_replace'', ''hashline_edit'']),
      (''Bash'', [''run_terminal_command'']),
      (''PowerShell'', []),
      (''Grep'', [''grep'', ''hashline_grep'']),
      (''Glob'', [''list_dir'']),
      (''LS'', []),
      (''LSP'', [''lsp'']),
      (''WebSearch'', [''web_search'']),
      (''WebFetch'', [''web_fetch'']),
      (''DeployApp'', []),
      (''TodoWrite'', [''todo_write'']),
      (''AskUserQuestion'', [''ask_user_question'']),
      (''TaskOutput'', [''get_command_or_subagent_output'', ''get_terminal_command_output'']),
      (''BashOutput'', [''get_command_or_subagent_output'', ''get_terminal_command_output'']),
      (''BashOutputTool'', [''get_command_or_subagent_output'', ''get_terminal_command_output'']),
      (''AgentOutputTool'', [''get_command_or_subagent_output'', ''get_terminal_command_output'']),
      (''TaskStop'', [''kill_command_or_subagent'', ''kill_terminal_command'']),
      (''KillShell'', [''kill_command_or_subagent'', ''kill_terminal_command'']),
      (''KillBash'', [''kill_command_or_subagent'', ''kill_terminal_command'']),
      (''Skill'', [''skill'']),
      (''ToolSearch'', [''search_tool'']),
      (''Agent'', [''spawn_subagent'']),
      (''Task'', [''spawn_subagent'']),
      (''EnterPlanMode'', [''enter_plan_mode'']),
      (''ExitPlanMode'', [''exit_plan_mode'']),
      (''CronCreate'', [''scheduler_create'']),
      (''CronDelete'', [''scheduler_delete'']),
      (''CronList'', [''scheduler_list'']),
      (''ListMcpResourcesTool'', [''ListMcpResources''])]"

definition grok_names_for :: "string \<Rightarrow> string list" where
  "grok_names_for claude = (case find (\<lambda>t. fst t = claude) CLAUDE_TOOLS of Some t \<Rightarrow> snd t | None \<Rightarrow> [])"

definition claude_names_for :: "string \<Rightarrow> string list" where
  "claude_names_for grok_name = map fst (filter (\<lambda>t. grok_name \<in> set (snd t)) CLAUDE_TOOLS)"

section \<open>Matchers\<close>

type_synonym regex_engine = "string \<Rightarrow> string + (string \<Rightarrow> bool)"

datatype HookMatcher = MAll | MNever | MExact "string list" | MRegex "string \<Rightarrow> bool"

definition is_simple_form :: "string \<Rightarrow> bool" where
  "is_simple_form pat \<longleftrightarrow>
     pat \<noteq> [] \<and> list_all (\<lambda>b. is_ascii_alphanumeric b \<or> b = CHR ''_'' \<or> b = CHR ''|'') pat"

definition push_name :: "string \<Rightarrow> string list \<Rightarrow> string list" where
  "push_name name names = (if name \<noteq> [] \<and> name \<notin> set names then names @ [name] else names)"

definition exact_names :: "string \<Rightarrow> string list" where
  "exact_names pat =
     fold (\<lambda>term names. fold push_name (grok_names_for term) (push_name term names))
       (split_pred (\<lambda>c. c = CHR ''|'') pat) []"

definition matcher_new :: "regex_engine \<Rightarrow> string \<Rightarrow> string + HookMatcher" where
  "matcher_new rx pat =
     (if pat = [] \<or> pat = ''*'' then Inr MAll
      else if is_simple_form pat then Inr (MExact (exact_names pat))
      else (case rx pat of Inl e \<Rightarrow> Inl e | Inr re \<Rightarrow> Inr (MRegex re)))"

fun is_match :: "HookMatcher \<Rightarrow> string \<Rightarrow> bool" where
  "is_match MAll _ = True"
| "is_match MNever _ = False"
| "is_match (MExact names) tool = (tool \<in> set names)"
| "is_match (MRegex re) tool = (re tool \<or> list_ex re (claude_names_for tool))"

section \<open>What patterns select\<close>

lemma set_push_name: "set (push_name n names) = set names \<union> (if n = [] then {} else {n})"
  by (auto simp: push_name_def)

lemma set_push_names: "set (fold push_name ns names) = set names \<union> (set ns - {[]})"
  by (induction ns arbitrary: names) (auto simp: set_push_name)

lemma grok_names_nonempty: "n \<in> set (grok_names_for t) \<Longrightarrow> n \<noteq> []"
  by (auto simp: grok_names_for_def CLAUDE_TOOLS_def split: option.splits if_splits)

lemma set_exact_fold:
  "set (fold (\<lambda>t names. fold push_name (grok_names_for t) (push_name t names)) ts acc) =
     set acc \<union> (set ts - {[]}) \<union> (\<Union>t \<in> set ts. set (grok_names_for t))"
  by (induction ts arbitrary: acc) (auto simp: set_push_names set_push_name dest: grok_names_nonempty)

text \<open>A simple pattern selects exactly its terms and the tools they are other names of.\<close>

lemma simple_pattern_match:
  assumes "is_simple_form pat"
  shows "\<exists>m. matcher_new rx pat = Inr m \<and>
     (\<forall>tool. is_match m tool \<longleftrightarrow>
        (\<exists>t \<in> set (split_pred (\<lambda>c. c = CHR ''|'') pat). t \<noteq> [] \<and> tool = t \<or> tool \<in> set (grok_names_for t)))"
proof -
  have "pat \<noteq> []" "pat \<noteq> ''*''" using assms by (auto simp: is_simple_form_def is_ascii_alphanumeric_def char_class_defs)
  then have "matcher_new rx pat = Inr (MExact (exact_names pat))"
    using assms by (simp add: matcher_new_def)
  then show ?thesis by (auto simp: exact_names_def set_exact_fold)
qed

text \<open>Every displayed name is read back as the canonical event.\<close>

lemma event_display_read: "event_of_name (event_display e) = Some (canonical_event e)"
  by (cases e) (simp_all add: event_of_name_def event_spellings_def)

end
