(* ===== verification/Hook_Env.thy ===== *)
theory Hook_Env
  imports Hook_Event
begin

text \<open>
  Environment variables in hook settings (\<^verbatim>\<open>xai-grok-hooks/src/env_expand.rs\<close> and the pre-flight check of
  \<^verbatim>\<open>runner/command.rs\<close>). The scanner for references works on bytes; here it walks down the text and
  yields literal stretches and references, whose texts concatenate to the input. Substitution is
  done by the \<^verbatim>\<open>shellexpand\<close> crate, a parameter, and the random mask of one call is an argument.
\<close>

section \<open>References\<close>

definition ident_char :: "char \<Rightarrow> bool" where
  "ident_char c \<longleftrightarrow> is_ascii_alphanumeric c \<or> c = CHR ''_''"

definition ident_start :: "char \<Rightarrow> bool" where
  "ident_start c \<longleftrightarrow> is_ascii_alphabetic c \<or> c = CHR ''_''"

text \<open>
  \<open>Ref text name braced has_modifier\<close> is a reference with the text between its two offsets;
  \<open>Lit\<close> is text that no reference covers.
\<close>

datatype env_piece =
    Lit string
  | Ref (ref_text: string) (ref_name: string) (ref_braced: bool) (ref_modifier: bool)

fun piece_text :: "env_piece \<Rightarrow> string" where
  "piece_text (Lit s) = s"
| "piece_text (Ref s _ _ _) = s"

text \<open>
  One step of the iterator at a position: outside a dollar sign it moves on by a byte; a lone
  dollar sign at the end stops it; an unterminated brace costs one byte, a dollar sign before
  any other byte two.
\<close>

definition braced_ref :: "string \<Rightarrow> (env_piece \<times> string) option" where
  "braced_ref body =
     (let name = takeWhile ident_char body;
          rest = dropWhile ident_char body;
          inner = takeWhile (\<lambda>x. x \<noteq> CHR ''}'') rest;
          tail = dropWhile (\<lambda>x. x \<noteq> CHR ''}'') rest
      in if tail = [] then None
         else Some (Ref (''${'' @ name @ inner @ ''}'') name True (name \<noteq> [] \<and> inner \<noteq> []), tl tail))"

definition ref_step :: "string \<Rightarrow> env_piece \<times> string" where
  "ref_step s =
     (case s of
        [] \<Rightarrow> (Lit [], [])
      | c # after \<Rightarrow>
          if c \<noteq> CHR ''$'' then (Lit [c], after)
          else
            (case after of
               [] \<Rightarrow> (Lit s, [])
             | d # body \<Rightarrow>
                 if d = CHR ''{''
                 then (case braced_ref body of Some found \<Rightarrow> found | None \<Rightarrow> (Lit [c], after))
                 else if ident_start d
                 then (Ref (c # takeWhile ident_char after) (takeWhile ident_char after) False False,
                       dropWhile ident_char after)
                 else (Lit [c, d], body)))"

lemma braced_ref_parts:
  assumes "braced_ref body = Some (p, t)"
  shows "''${'' @ body = piece_text p @ t \<and> (\<exists>n m r. p = Ref (''${'' @ r) n True m)"
proof -
  let ?rest = "dropWhile ident_char body"
  let ?tail = "dropWhile (\<lambda>x. x \<noteq> CHR ''}'') ?rest"
  from assms have ne: "?tail \<noteq> []" and t: "t = tl ?tail"
    and p: "\<exists>n m. p = Ref (''${'' @ takeWhile ident_char body @ takeWhile (\<lambda>x. x \<noteq> CHR ''}'') ?rest @ ''}'') n True m"
    by (auto simp: braced_ref_def Let_def simp del: dropWhile_eq_Nil_conv split: if_split_asm)
  have "hd ?tail = CHR ''}''" using hd_dropWhile [OF ne] by blast
  then have "?tail = CHR ''}'' # t" using ne t by (cases ?tail) simp_all
  moreover have "body = takeWhile ident_char body @ takeWhile (\<lambda>x. x \<noteq> CHR ''}'') ?rest @ ?tail"
    by simp
  ultimately have "body = takeWhile ident_char body @ takeWhile (\<lambda>x. x \<noteq> CHR ''}'') ?rest @ ''}'' @ t"
    by (metis append_Cons append_Nil)
  with p show ?thesis by (metis append.assoc piece_text.simps(2))
qed

lemma ref_step_cases:
  assumes "ref_step s = (p, t)" "s \<noteq> []"
  obtains (literal) l where "p = Lit l" "l \<noteq> []" "s = l @ t"
    | (braced) r n m where "p = Ref (''${'' @ r) n True m" "s = piece_text p @ t"
    | (bare) d n where "p = Ref (CHR ''$'' # n) n False False" "s = piece_text p @ t"
proof -
  obtain c after where s: "s = c # after" using assms(2) by (cases s) auto
  show thesis
  proof (cases "c = CHR ''$''")
    case False
    then have "p = Lit [c]" "t = after" using assms(1) by (simp_all add: ref_step_def s)
    then show thesis using literal by (simp add: s)
  next
    case c: True
    show thesis
    proof (cases after)
      case Nil
      then have "p = Lit s" "t = []" using assms(1) by (simp_all add: ref_step_def s c)
      then show thesis using literal by (simp add: s)
    next
      case after: (Cons d body)
      consider (some) "d = CHR ''{''" "braced_ref body = Some (p, t)"
        | (none) "p = Lit [c]" "t = after"
        | (name) "p = Ref (c # takeWhile ident_char after) (takeWhile ident_char after) False False"
            "t = dropWhile ident_char after"
        | (special) "p = Lit [c, d]" "t = body"
      proof -
        have step: "ref_step s = (if d = CHR ''{''
             then (case braced_ref body of Some found \<Rightarrow> found | None \<Rightarrow> (Lit [c], after))
             else if ident_start d
             then (Ref (c # takeWhile ident_char after) (takeWhile ident_char after) False False,
                   dropWhile ident_char after)
             else (Lit [c, d], body))"
          unfolding ref_step_def s after c by (simp only: list.case if_False simp_thms)
        show thesis
        proof (cases "d = CHR ''{''")
          case True
          then show thesis using assms(1) step that(1,2) by (cases "braced_ref body") simp_all
        next
          case False
          then show thesis using assms(1) step that(3,4) by (cases "ident_start d") simp_all
        qed
      qed
      then show thesis
      proof cases
        case some
        from braced_ref_parts [OF this(2)] some(1) braced show thesis by (auto simp: s after c)
      next
        case name
        then show thesis using bare by (simp add: s c del: takeWhile.simps dropWhile.simps)
      qed (use literal s after in auto)
    qed
  qed
qed

lemma ref_step_parts: "ref_step s = (p, t) \<Longrightarrow> s = piece_text p @ t"
proof (cases "s = []")
  case False
  assume "ref_step s = (p, t)"
  from this False show ?thesis by (cases rule: ref_step_cases) auto
qed (auto simp: ref_step_def)

lemma ref_step_shrinks:
  assumes "ref_step s = (p, t)" "s \<noteq> []"
  shows "length t < length s"
  using assms by (cases rule: ref_step_cases [OF assms]) auto

function iter_env_var_references :: "string \<Rightarrow> env_piece list" where
  "iter_env_var_references s =
     (if s = [] then [] else (case ref_step s of (p, t) \<Rightarrow> p # iter_env_var_references t))"
  by pat_completeness auto
termination
  by (relation "measure length") (auto dest: ref_step_shrinks [OF sym])

declare iter_env_var_references.simps [simp del]

definition is_ref :: "env_piece \<Rightarrow> bool" where
  "is_ref p \<longleftrightarrow> (case p of Ref _ _ _ _ \<Rightarrow> True | Lit _ \<Rightarrow> False)"

definition env_refs :: "string \<Rightarrow> env_piece list" where
  "env_refs s = filter is_ref (iter_env_var_references s)"

section \<open>Expansion\<close>

fun mask_piece :: "string \<Rightarrow> env_piece \<Rightarrow> string" where
  "mask_piece sentinel (Lit s) = s"
| "mask_piece sentinel (Ref s name braced modif) =
     (if braced \<and> modif then sentinel @ drop 2 s else s)"

definition mask_modifier_forms :: "string \<Rightarrow> string \<Rightarrow> string" where
  "mask_modifier_forms input sentinel =
     concat (map (mask_piece sentinel) (iter_env_var_references input))"

text \<open>
  \<^verbatim>\<open>shellexpand::env_with_context_no_errors\<close> with its context. \<open>sentinel\<close> is \<^verbatim>\<open>U+F8FF\<close>, a fixed prefix, the
  thirty-two hexadecimal digits of the call and \<^verbatim>\<open>U+F8FF\<close> again; the assertion that it does
  not occur is for debug builds.
\<close>

type_synonym expander = "string \<Rightarrow> (string \<Rightarrow> string option) \<Rightarrow> string"
type_synonym env_map = "string \<rightharpoonup> string"

definition PUA :: string where
  "PUA = [CHR 0xEF, CHR 0xA3, CHR 0xBF]"

definition make_sentinel :: "string \<Rightarrow> string" where
  "make_sentinel hex = PUA @ ''__GROK_HOOKS_MASK_'' @ hex @ ''__'' @ PUA"

definition expand_env_vars_with_extra ::
    "expander \<Rightarrow> env_map \<Rightarrow> string \<Rightarrow> string \<Rightarrow> env_map \<Rightarrow> string" where
  "expand_env_vars_with_extra shellexpand process_env hex input extra =
     (let sentinel = make_sentinel hex;
          masked = mask_modifier_forms input sentinel;
          expanded = shellexpand masked (\<lambda>name. case extra name of Some v \<Rightarrow> Some v | None \<Rightarrow> process_env name)
      in if contains_str expanded sentinel then replace_str sentinel ''${'' expanded else expanded)"

section \<open>Variables a command assigns itself\<close>

text \<open>
  The scanner keeps what it has read, last byte first, and what is left. An identifier counts
  as assigned when it starts a statement and is followed by an equals sign, or follows \<^verbatim>\<open>read\<close>.
\<close>

definition is_statement_start :: "string \<Rightarrow> bool" where
  "is_statement_start before =
     (case dropWhile (\<lambda>c. c = CHR '' '' \<or> c = CHR 0x09) before of
        [] \<Rightarrow> True
      | c # _ \<Rightarrow> c \<in> set (LF # '';&|({''))"

definition shell_blank :: "char \<Rightarrow> bool" where
  "shell_blank c \<longleftrightarrow> c = CHR '' '' \<or> c = CHR 0x09"

text \<open>The names after \<^verbatim>\<open>read\<close>: the bytes that are consumed and the names they hold.\<close>

function read_names :: "string \<Rightarrow> string \<times> string list" where
  "read_names s =
     (case s of
        [] \<Rightarrow> ([], [])
      | c # t \<Rightarrow>
          if c \<in> set (LF # '';&|<>'') then ([], [])
          else if shell_blank c then (case read_names t of (used, ns) \<Rightarrow> (c # used, ns))
          else if c = CHR ''-'' then
            (case read_names (dropWhile (\<lambda>x. \<not> shell_blank x) t) of
               (used, ns) \<Rightarrow> (c # takeWhile (\<lambda>x. \<not> shell_blank x) t @ used, ns))
          else if \<not> ident_start c then ([], [])
          else
            (case read_names (dropWhile ident_char t) of
               (used, ns) \<Rightarrow> (c # takeWhile ident_char t @ used, (c # takeWhile ident_char t) # ns)))"
  by pat_completeness auto
termination
  by (relation "measure length") (auto simp: less_Suc_eq_le length_dropWhile_le)

declare read_names.simps [simp del]

lemma read_names_prefix: "read_names s = (used, ns) \<Longrightarrow> s = used @ drop (length used) s"
proof (induction s arbitrary: used ns rule: read_names.induct)
  case (1 s)
  show ?case
  proof (cases s)
    case (Cons c t)
    have split: "takeWhile P t @ dropWhile P t = t" for P by simp
    have *: "t = takeWhile P t @ u @ drop (length (takeWhile P t) + length u) t"
      if "dropWhile P t = u @ drop (length u) (dropWhile P t)" for P u
      using that split [of P] by (metis add.commute append.assoc append_eq_conv_conj drop_drop length_append)
    show ?thesis using 1 Cons *
      by (subst (asm) read_names.simps) (auto split: if_splits prod.splits)
  qed (use 1 in \<open>simp add: read_names.simps [of "[]"]\<close>)
qed

function local_assignments :: "string \<Rightarrow> string \<Rightarrow> string list" where
  "local_assignments before s =
     (case s of
        [] \<Rightarrow> []
      | c # t \<Rightarrow>
          if \<not> ident_start c then local_assignments (c # before) t
          else
            (let ident = c # takeWhile ident_char t;
                 rest = dropWhile ident_char t;
                 here = rev ident @ before
             in if rest \<noteq> [] \<and> hd rest = CHR ''='' \<and> is_statement_start before
                then ident # local_assignments here rest
                else if ident = ''read'' \<and> is_statement_start before
                then
                  (let used = fst (read_names rest)
                   in snd (read_names rest) @ local_assignments (rev used @ here) (drop (length used) rest))
                else local_assignments here rest))"
  by pat_completeness auto
termination
  by (relation "measure (\<lambda>(before, s). length s)")
     (auto simp: less_Suc_eq_le length_dropWhile_le intro: le_trans [OF diff_le_self])

declare local_assignments.simps [simp del]

definition find_local_shell_assignments :: "string \<Rightarrow> string list" where
  "find_local_shell_assignments command_str = local_assignments [] command_str"

section \<open>Variables a command needs\<close>

definition RUNNER_ALWAYS_SET_ENV :: "string list" where
  "RUNNER_ALWAYS_SET_ENV =
     [''GROK_HOOK_EVENT'', ''GROK_HOOK_NAME'', ''GROK_SESSION_ID'', ''GROK_WORKSPACE_ROOT'', ''CLAUDE_PROJECT_DIR'']"

definition byte_le :: "string \<Rightarrow> string \<Rightarrow> bool" where
  "byte_le s t \<longleftrightarrow> s = t \<or> (map of_char s, map of_char t :: nat list) \<in> lexord {(a, b). a < b}"

fun insert_sorted_str :: "string \<Rightarrow> string list \<Rightarrow> string list" where
  "insert_sorted_str x [] = [x]"
| "insert_sorted_str x (y # ys) = (if byte_le x y then x # y # ys else y # insert_sorted_str x ys)"

definition sort_strings :: "string list \<Rightarrow> string list" where
  "sort_strings xs = foldr insert_sorted_str xs []"

definition find_unresolved_env_vars :: "env_map \<Rightarrow> string \<Rightarrow> env_map \<Rightarrow> string list" where
  "find_unresolved_env_vars process_env command_str extra_env =
     remdups_adj (sort_strings
       (map ref_name
         (filter (\<lambda>r. ref_name r \<noteq> [] \<and> \<not> ref_modifier r
              \<and> ref_name r \<notin> set RUNNER_ALWAYS_SET_ENV
              \<and> extra_env (ref_name r) = None
              \<and> process_env (ref_name r) = None
              \<and> ref_name r \<notin> set (find_local_shell_assignments command_str))
            (env_refs command_str))))"

section \<open>Facts\<close>

lemma references_cover: "concat (map piece_text (iter_env_var_references s)) = s"
proof (induction s rule: iter_env_var_references.induct)
  case (1 s)
  show ?case
  proof (cases "s = []")
    case False
    obtain p t where st: "ref_step s = (p, t)" by fastforce
    with 1 [OF False st [symmetric]] ref_step_parts [OF st] False show ?thesis
      by (subst iter_env_var_references.simps) simp
  qed (simp add: iter_env_var_references.simps)
qed

text \<open>A reference with a modifier starts with a dollar sign and a brace.\<close>

lemma masked_ref_text:
  assumes "Ref s n True m \<in> set (iter_env_var_references input)"
  shows "\<exists>r. s = ''${'' @ r"
  using assms
proof (induction input rule: iter_env_var_references.induct)
  case (1 input)
  then have ne: "input \<noteq> []" by (auto simp: iter_env_var_references.simps)
  obtain p t where st: "ref_step input = (p, t)" by fastforce
  with 1(2) ne consider "p = Ref s n True m" | "Ref s n True m \<in> set (iter_env_var_references t)"
    by (auto simp: iter_env_var_references.simps [of input])
  then show ?case
  proof cases
    case 1
    with st ne show ?thesis by (cases rule: ref_step_cases) auto
  next
    case 2
    with 1(1) [OF ne st [symmetric]] show ?thesis by simp
  qed
qed

text \<open>
  Taking the mask off again gives the input back, so references that the expander leaves alone
  and all references with modifiers keep their text.
\<close>

lemma replace_str_skip:
  assumes "p \<noteq> []" "hd p \<notin> set s"
  shows "replace_str p r (s @ t) = s @ replace_str p r t"
  using assms(2)
proof (induction s)
  case (Cons c s)
  then have "strip_prefix (c # s @ t) p = None"
    using assms(1) by (cases p) auto
  then show ?case using Cons assms(1) by (simp add: replace_str.simps [of p r "c # s @ t"])
qed simp

lemma replace_str_hit:
  assumes "p \<noteq> []"
  shows "replace_str p r (p @ t) = r @ replace_str p r t"
proof -
  obtain c q where "p @ t = c # q" using assms by (cases p) auto
  moreover have "strip_prefix (p @ t) p = Some t" by (simp add: strip_prefix_Some)
  moreover have "drop (length p) (p @ t) = t" by simp
  ultimately show ?thesis using assms by (simp add: replace_str.simps [of p r "c # q"])
qed

lemma masked_round_trip:
  assumes "CHR 0xEF \<notin> set input"
  shows "replace_str (make_sentinel hex) ''${'' (mask_modifier_forms input (make_sentinel hex)) = input"
proof -
  let ?m = "make_sentinel hex"
  have m: "?m \<noteq> []" "hd ?m = CHR 0xEF" by (simp_all add: make_sentinel_def PUA_def)
  have "replace_str ?m ''${'' (concat (map (mask_piece ?m) ps)) = concat (map piece_text ps)"
    if "\<forall>p \<in> set ps. CHR 0xEF \<notin> set (piece_text p)"
      "\<forall>s n md. Ref s n True md \<in> set ps \<longrightarrow> (\<exists>r. s = ''${'' @ r)" for ps
    using that
  proof (induction ps)
    case Nil
    then show ?case by (simp add: replace_str.simps [of _ _ "[]"])
  next
    case (Cons p ps)
    then have IH: "replace_str ?m ''${'' (concat (map (mask_piece ?m) ps)) = concat (map piece_text ps)"
      by (metis list.set_intros(2))
    show ?case
    proof (cases "\<exists>s n. p = Ref s n True True")
      case True
      then obtain s n where p0: "p = Ref s n True True" by blast
      then obtain r where "s = ''${'' @ r" using Cons.prems(2) by (metis list.set_intros(1))
      note p = p0 this
      have "CHR 0xEF \<notin> set r" using Cons.prems(1) p by simp
      then show ?thesis using m IH p
        by (simp add: replace_str_hit replace_str_skip)
    next
      case False
      then have "mask_piece ?m p = piece_text p" by (cases p) auto
      then show ?thesis using m IH Cons.prems(1) by (simp add: replace_str_skip)
    qed
  qed
  moreover have "\<forall>p \<in> set (iter_env_var_references input). CHR 0xEF \<notin> set (piece_text p)"
    using assms references_cover [of input] by (metis UN_I set_concat set_map image_eqI)
  ultimately show ?thesis
    using masked_ref_text references_cover by (metis mask_modifier_forms_def)
qed

lemma unresolved_kept:
  assumes "CHR 0xEF \<notin> set input"
    and "\<And>ctx. shellexpand (mask_modifier_forms input (make_sentinel hex)) ctx = mask_modifier_forms input (make_sentinel hex)"
  shows "expand_env_vars_with_extra shellexpand process_env hex input extra = input"
  using masked_round_trip [OF assms(1), of hex]
    replace_str_absent [of "mask_modifier_forms input (make_sentinel hex)" "make_sentinel hex"]
  by (auto simp: expand_env_vars_with_extra_def Let_def assms(2))

lemma set_sort_strings [simp]: "set (sort_strings xs) = set xs"
proof -
  have "set (insert_sorted_str x ys) = insert x (set ys)" for x ys by (induction ys) auto
  then show ?thesis unfolding sort_strings_def by (induction xs) auto
qed

end
