(* ===== verification/Hook_Config.thy ===== *)
theory Hook_Config
  imports Hook_Env Shell_Paths "HOL-Library.Word"
begin

text \<open>
  Reading hook files (\<^verbatim>\<open>xai-grok-hooks/src/config.rs\<close>) and the hooks of plug-ins
  (\<^verbatim>\<open>xai-grok-agent/src/plugins/hooks_adapter.rs\<close>). JSON text is read and printed by \<^verbatim>\<open>serde_json\<close>, a
  parameter; the deserialisers derived for the two structs are written out, the texts of their error
  messages are not kept. A hash map is iterated in an order the program does not choose; the two orders
  are arguments, functions that permute the entries.
\<close>

section \<open>Data\<close>

record RawHandler =
  raw_type :: string
  raw_command :: "string option"
  raw_url :: "string option"
  raw_timeout :: "nat option"
  raw_env :: "env_map"

record MatcherGroup =
  g_matcher :: "string option"
  g_hooks :: "RawHandler list"

record HookSpec =
  h_name :: string
  h_event :: HookEventName
  h_handler_type :: string
  h_configured_matcher :: "string option"
  h_matcher :: "HookMatcher option"
  h_enabled :: bool
  h_command :: "string option"
  h_command_raw :: "string option"
  h_url :: "string option"
  h_url_raw :: "string option"
  h_timeout_ms :: "64 word"
  h_source_dir :: string
  h_extra_env :: "env_map"

datatype HookError =
    ReadFile path
  | ParseFile path string
  | InvalidMatcher string path string
  | LifecycleMatcherNotAllowed string path string
  | InvalidConfig string path string
  | UnsupportedHandlerType string path string

section \<open>Deserialisers\<close>

text \<open>A derived deserialiser reads an object by its field names or an array by position.\<close>

definition de_string :: "json \<Rightarrow> string option" where
  "de_string v = json_as_str v"

fun de_opt_string :: "json \<Rightarrow> string option option" where
  "de_opt_string JNull = Some None"
| "de_opt_string (JString s) = Some (Some s)"
| "de_opt_string _ = None"

fun de_opt_u64 :: "json \<Rightarrow> nat option option" where
  "de_opt_u64 JNull = Some None"
| "de_opt_u64 (JNumber n) = map_option Some (parse_unsigned 64 n)"
| "de_opt_u64 _ = None"

fun string_entries :: "(string \<times> json) list \<Rightarrow> (string \<times> string) list option" where
  "string_entries [] = Some []"
| "string_entries ((k, v) # kvs) =
     (case (de_string v, string_entries kvs) of (Some s, Some r) \<Rightarrow> Some ((k, s) # r) | _ \<Rightarrow> None)"

fun deserialize_optional_string_map :: "json \<Rightarrow> env_map option" where
  "deserialize_optional_string_map JNull = Some Map.empty"
| "deserialize_optional_string_map (JObject kvs) = map_option map_of (string_entries kvs)"
| "deserialize_optional_string_map _ = None"

definition de_field :: "string \<Rightarrow> (json \<Rightarrow> 'a option) \<Rightarrow> 'a option \<Rightarrow> (string \<times> json) list \<Rightarrow> 'a option" where
  "de_field k de absent kvs = (case map_of kvs k of Some v \<Rightarrow> de v | None \<Rightarrow> absent)"

definition raw_handler ::
    "string option \<Rightarrow> string option option \<Rightarrow> string option option \<Rightarrow> nat option option \<Rightarrow> env_map option
     \<Rightarrow> RawHandler option" where
  "raw_handler t c u s e =
     (case (t, c, u, s, e) of
        (Some t', Some c', Some u', Some s', Some e') \<Rightarrow>
          Some \<lparr>raw_type = t', raw_command = c', raw_url = u', raw_timeout = s', raw_env = e'\<rparr>
      | _ \<Rightarrow> None)"

fun de_handler :: "json \<Rightarrow> RawHandler option" where
  "de_handler (JObject kvs) =
     raw_handler (de_field ''type'' de_string None kvs) (de_field ''command'' de_opt_string (Some None) kvs)
       (de_field ''url'' de_opt_string (Some None) kvs) (de_field ''timeout'' de_opt_u64 (Some None) kvs)
       (de_field ''env'' deserialize_optional_string_map (Some Map.empty) kvs)"
| "de_handler (JArray [t, c, u, s]) =
     raw_handler (de_string t) (de_opt_string c) (de_opt_string u) (de_opt_u64 s) (Some Map.empty)"
| "de_handler (JArray [t, c, u, s, e]) =
     raw_handler (de_string t) (de_opt_string c) (de_opt_string u) (de_opt_u64 s)
       (deserialize_optional_string_map e)"
| "de_handler _ = None"

fun traverse_opt :: "('a \<Rightarrow> 'b option) \<Rightarrow> 'a list \<Rightarrow> 'b list option" where
  "traverse_opt f [] = Some []"
| "traverse_opt f (x # xs) = (case (f x, traverse_opt f xs) of (Some y, Some ys) \<Rightarrow> Some (y # ys) | _ \<Rightarrow> None)"

fun de_handlers :: "json \<Rightarrow> RawHandler list option" where
  "de_handlers (JArray vs) = traverse_opt de_handler vs"
| "de_handlers _ = None"

definition matcher_group :: "string option option \<Rightarrow> RawHandler list option \<Rightarrow> MatcherGroup option" where
  "matcher_group m hs =
     (case (m, hs) of (Some m', Some hs') \<Rightarrow> Some \<lparr>g_matcher = m', g_hooks = hs'\<rparr> | _ \<Rightarrow> None)"

fun de_group :: "json \<Rightarrow> MatcherGroup option" where
  "de_group (JObject kvs) =
     matcher_group (de_field ''matcher'' de_opt_string (Some None) kvs) (de_field ''hooks'' de_handlers None kvs)"
| "de_group (JArray [m, hs]) = matcher_group (de_opt_string m) (de_handlers hs)"
| "de_group _ = None"

fun de_groups :: "json \<Rightarrow> MatcherGroup list option" where
  "de_groups (JArray vs) = traverse_opt de_group vs"
| "de_groups _ = None"

section \<open>The events of a file\<close>

type_synonym event_groups = "(HookEventName \<times> MatcherGroup list) list"

text \<open>\<^verbatim>\<open>HashMap::insert\<close>: the last value for a key is kept.\<close>

definition insert_event :: "HookEventName \<Rightarrow> MatcherGroup list \<Rightarrow> event_groups \<Rightarrow> event_groups" where
  "insert_event e gs evs = (e, gs) # filter (\<lambda>p. fst p \<noteq> e) evs"

text \<open>The loop over the raw entries, in the order in which they come.\<close>

fun collect_events :: "(string \<times> json) list \<Rightarrow> event_groups \<Rightarrow> string list \<Rightarrow> (event_groups \<times> string list) res" where
  "collect_events [] evs skipped = Inr (evs, skipped)"
| "collect_events ((key, val) # raw) evs skipped =
     (case event_of_name key of
        None \<Rightarrow> collect_events raw evs (skipped @ [key])
      | Some e \<Rightarrow>
          (case de_groups val of
             None \<Rightarrow> Inl (''invalid matcher groups for event '' @ [CHR 0x27] @ key @ [CHR 0x27])
           | Some gs \<Rightarrow> collect_events raw (insert_event e gs evs) skipped))"

record hash_order =
  ord_raw :: "(string \<times> json) list \<Rightarrow> (string \<times> json) list"
  ord_events :: "event_groups \<Rightarrow> event_groups"

definition hooks_map_from_value :: "hash_order \<Rightarrow> json \<Rightarrow> (event_groups \<times> string list) res" where
  "hooks_map_from_value ho v =
     (case v of
        JObject kvs \<Rightarrow> collect_events (ord_raw ho kvs) [] []
      | _ \<Rightarrow> Inl ''invalid hooks structure'')"

section \<open>Specifications\<close>

definition DEFAULT_TIMEOUT_MS :: "64 word" where
  "DEFAULT_TIMEOUT_MS = 5 * 1000"

text \<open>Seconds become milliseconds by a multiplication of 64 bits, which wraps in release builds.\<close>

definition timeout_ms_of :: "nat option \<Rightarrow> 64 word" where
  "timeout_ms_of t = (case t of Some secs \<Rightarrow> word_of_nat secs * 1000 | None \<Rightarrow> DEFAULT_TIMEOUT_MS)"

definition strip_reserved_env_keys :: "env_map \<Rightarrow> env_map" where
  "strip_reserved_env_keys env = fold (\<lambda>k m. m(k := None)) RUNNER_ALWAYS_SET_ENV env"

text \<open>\<^verbatim>\<open>Path::file_stem\<close> and \<^verbatim>\<open>Path::extension\<close>: a leading dot does not start an extension.\<close>

definition stem_and_ext :: "string \<Rightarrow> string \<times> string option" where
  "stem_and_ext n =
     (case rfind_idx (\<lambda>c. c = CHR ''.'') n of
        None \<Rightarrow> (n, None)
      | Some i \<Rightarrow> if i = 0 then (n, None) else (take i n, Some (drop (Suc i) n)))"

definition file_stem_or_unknown :: "path \<Rightarrow> string" where
  "file_stem_or_unknown p =
     (case path_file_name p of Some (Normal n) \<Rightarrow> fst (stem_and_ext n) | _ \<Rightarrow> ''unknown'')"

definition source_dir_of :: "path \<Rightarrow> string" where
  "source_dir_of p = (case path_parent p of Some d \<Rightarrow> path_string d | None \<Rightarrow> ''.'')"

definition group_name :: "path \<Rightarrow> HookEventName \<Rightarrow> nat \<Rightarrow> string" where
  "group_name p e i = file_stem_or_unknown p @ '':'' @ event_display e @ ''['' @ show_decimal i @ '']''"

definition hook_name :: "path \<Rightarrow> HookEventName \<Rightarrow> nat \<Rightarrow> nat \<Rightarrow> string" where
  "hook_name p e i j = group_name p e i @ ''.hooks['' @ show_decimal j @ '']''"

text \<open>What reading a file uses besides the file: the parameters of one run.\<close>

record hook_host =
  host_from_str :: "string \<Rightarrow> json option"
  host_to_str :: "json \<Rightarrow> string option"
  host_regex :: regex_engine
  host_shellexpand :: expander
  host_env :: env_map
  host_mask :: string
  host_order :: hash_order

abbreviation expand_vars :: "('a) hook_host_scheme \<Rightarrow> string \<Rightarrow> env_map \<Rightarrow> string" where
  "expand_vars h \<equiv> expand_env_vars_with_extra (host_shellexpand h) (host_env h) (host_mask h)"

definition handler_spec ::
    "'a hook_host_scheme \<Rightarrow> path \<Rightarrow> HookEventName \<Rightarrow> string option \<Rightarrow> HookMatcher option \<Rightarrow> string \<Rightarrow> RawHandler
     \<Rightarrow> HookError + HookSpec" where
  "handler_spec h p e pat m name r =
     (let extra = strip_reserved_env_keys (raw_env r);
          spec = \<lparr>h_name = name, h_event = e, h_handler_type = raw_type r, h_configured_matcher = pat,
                  h_matcher = m, h_enabled = True, h_command = None, h_command_raw = None,
                  h_url = None, h_url_raw = None, h_timeout_ms = timeout_ms_of (raw_timeout r),
                  h_source_dir = source_dir_of p, h_extra_env = extra\<rparr>
      in if raw_type r = ''command'' then
           (case raw_command r of
              None \<Rightarrow> Inl (InvalidConfig name p (''command handler requires a '' @ [CHR 0x27] @ ''command'' @ [CHR 0x27] @ '' field''))
            | Some c \<Rightarrow> Inr (spec\<lparr>h_command := Some (expand_vars h c extra), h_command_raw := Some c\<rparr>))
         else if raw_type r = ''http'' then
           (case raw_url r of
              None \<Rightarrow> Inl (InvalidConfig name p (''http handler requires a '' @ [CHR 0x27] @ ''url'' @ [CHR 0x27] @ '' field''))
            | Some u \<Rightarrow> Inr (spec\<lparr>h_url := Some (expand_vars h u extra), h_url_raw := Some u\<rparr>))
         else Inl (UnsupportedHandlerType name p (raw_type r)))"

fun lefts :: "('a + 'b) list \<Rightarrow> 'a list" where
  "lefts [] = []"
| "lefts (Inl a # xs) = a # lefts xs"
| "lefts (Inr _ # xs) = lefts xs"

fun rights :: "('a + 'b) list \<Rightarrow> 'b list" where
  "rights [] = []"
| "rights (Inl _ # xs) = rights xs"
| "rights (Inr b # xs) = b # rights xs"

definition group_specs ::
    "'a hook_host_scheme \<Rightarrow> path \<Rightarrow> HookEventName \<Rightarrow> nat \<Rightarrow> MatcherGroup \<Rightarrow> (HookError + HookSpec) list" where
  "group_specs h p e i g =
     (let pat = (case g_matcher g of Some s \<Rightarrow> if s = [] then None else Some s | None \<Rightarrow> None);
          handlers = \<lambda>m. map (\<lambda>(j, r). handler_spec h p e pat m (hook_name p e i j) r) (enumerate 0 (g_hooks g))
      in if is_lifecycle e \<and> pat \<noteq> None
         then [Inl (LifecycleMatcherNotAllowed (group_name p e i) p (event_display e))]
         else (case pat of
                 None \<Rightarrow> handlers None
               | Some s \<Rightarrow>
                   (case matcher_new (host_regex h) s of
                      Inl err \<Rightarrow> [Inl (InvalidMatcher (group_name p e i) p err)]
                    | Inr m \<Rightarrow> handlers (Some m))))"

definition event_specs ::
    "'a hook_host_scheme \<Rightarrow> path \<Rightarrow> HookEventName \<times> MatcherGroup list \<Rightarrow> (HookError + HookSpec) list" where
  "event_specs h p eg = concat (map (\<lambda>(i, g). group_specs h p (fst eg) i g) (enumerate 0 (snd eg)))"

text \<open>The list of results is the interleaving of pushes to the two vectors of the source.\<close>

definition parse_hook_value :: "'a hook_host_scheme \<Rightarrow> json option \<Rightarrow> path \<Rightarrow> (HookError + HookSpec) list" where
  "parse_hook_value h parsed p =
     (case parsed of
        None \<Rightarrow> [Inl (ParseFile p ''invalid JSON'')]
      | Some top_level \<Rightarrow>
          (case json_get ''hooks'' top_level of
             None \<Rightarrow> []
           | Some v \<Rightarrow>
               (case hooks_map_from_value (host_order h) v of
                  Inl detail \<Rightarrow> [Inl (ParseFile p detail)]
                | Inr (evs, skipped) \<Rightarrow> concat (map (event_specs h p) (ord_events (host_order h) evs)))))"

definition parse_hook_file :: "'a hook_host_scheme \<Rightarrow> string \<Rightarrow> path \<Rightarrow> HookSpec list \<times> HookError list" where
  "parse_hook_file h content p =
     (let out = parse_hook_value h (host_from_str h content) p in (rights out, lefts out))"

text \<open>Hooks of an agent definition: printed, read again, and given the real directory.\<close>

definition parse_hooks_from_value_with_dir ::
    "'a hook_host_scheme \<Rightarrow> json \<Rightarrow> string \<Rightarrow> string \<Rightarrow> HookSpec list \<times> HookError list" where
  "parse_hooks_from_value_with_dir h hooks source_name source_dir =
     (let text = (case host_to_str h (JObject [(''hooks'', hooks)]) of Some s \<Rightarrow> s | None \<Rightarrow> []);
          (specs, errors) = parse_hook_file h text (components source_name)
      in (map (\<lambda>s. s\<lparr>h_source_dir := source_dir\<rparr>) specs, errors))"

definition parse_hooks_from_value :: "'a hook_host_scheme \<Rightarrow> json \<Rightarrow> string \<Rightarrow> HookSpec list \<times> HookError list" where
  "parse_hooks_from_value h hooks source_name = parse_hooks_from_value_with_dir h hooks source_name ''.''"

section \<open>Hooks of plug-ins\<close>

definition SUPPORTED_EVENTS :: "string list" where
  "SUPPORTED_EVENTS =
     [''SessionStart'', ''PreToolUse'', ''PostToolUse'', ''SessionEnd'',
      ''session_start'', ''pre_tool_use'', ''post_tool_use'', ''session_end'',
      ''Notification'', ''Stop'', ''UserPromptSubmit'', ''SubagentStart'', ''SubagentEnd'',
      ''notification'', ''stop'', ''user_prompt_submit'', ''subagent_start'', ''subagent_end'']"

definition set_hooks :: "json \<Rightarrow> (string \<times> json) list \<Rightarrow> json" where
  "set_hooks v kvs =
     (case v of JObject entries \<Rightarrow> JObject (map (\<lambda>(k, x). if k = ''hooks'' then (k, JObject kvs) else (k, x)) entries) | _ \<Rightarrow> v)"

definition prefilter_unsupported_events :: "'a hook_host_scheme \<Rightarrow> string \<Rightarrow> string \<times> string list" where
  "prefilter_unsupported_events h content =
     (case host_from_str h content of
        None \<Rightarrow> (content, [])
      | Some v \<Rightarrow>
          (let (v', skipped) =
             (case json_get ''hooks'' v of
                Some (JObject kvs) \<Rightarrow>
                  (set_hooks v (filter (\<lambda>kv. fst kv \<in> set SUPPORTED_EVENTS) kvs),
                   map fst (filter (\<lambda>kv. fst kv \<notin> set SUPPORTED_EVENTS) kvs))
              | _ \<Rightarrow> (v, []))
           in (case host_to_str h v' of Some s \<Rightarrow> s | None \<Rightarrow> content, skipped)))"

definition substitute_plugin_tokens :: "string \<Rightarrow> string \<Rightarrow> string \<Rightarrow> string" where
  "substitute_plugin_tokens s root data =
     replace_str ''${GROK_PLUGIN_DATA}'' data (replace_str ''${CLAUDE_PLUGIN_DATA}'' data
       (replace_str ''${GROK_PLUGIN_ROOT}'' root (replace_str ''${CLAUDE_PLUGIN_ROOT}'' root s)))"

definition expand_env_vars_in_string :: "'a hook_host_scheme \<Rightarrow> string \<Rightarrow> string" where
  "expand_env_vars_in_string h s = host_shellexpand h s (host_env h)"

definition plugin_spec :: "'a hook_host_scheme \<Rightarrow> string \<Rightarrow> string \<Rightarrow> string \<Rightarrow> HookSpec \<Rightarrow> HookSpec" where
  "plugin_spec h plugin root data s =
     s\<lparr>h_extra_env := (h_extra_env s)(''GROK_PLUGIN_ROOT'' \<mapsto> root, ''CLAUDE_PLUGIN_ROOT'' \<mapsto> root,
          ''GROK_PLUGIN_DATA'' \<mapsto> data, ''CLAUDE_PLUGIN_DATA'' \<mapsto> data),
       h_name := ''plugin/'' @ plugin @ ''/'' @ h_name s,
       h_command := map_option (\<lambda>c. expand_env_vars_in_string h (substitute_plugin_tokens c root data)) (h_command s)\<rparr>"

datatype plugin_warning = SkippedEvent string string | PluginHookError string HookError | PluginReadError string path

definition process_hooks_content ::
    "'a hook_host_scheme \<Rightarrow> string \<Rightarrow> path \<Rightarrow> string \<Rightarrow> string \<Rightarrow> string \<Rightarrow> HookSpec list \<times> plugin_warning list" where
  "process_hooks_content h content p plugin root data =
     (let (filtered, skipped) = prefilter_unsupported_events h content;
          (specs, errors) = parse_hook_file h filtered p
      in (map (plugin_spec h plugin root data) specs,
          map (SkippedEvent plugin) skipped @ map (PluginHookError plugin) errors))"

text \<open>\<open>content\<close> is what reading the file gave.\<close>

definition parse_plugin_hooks ::
    "'a hook_host_scheme \<Rightarrow> string option \<Rightarrow> path \<Rightarrow> string \<Rightarrow> string \<Rightarrow> string \<Rightarrow> HookSpec list \<times> plugin_warning list" where
  "parse_plugin_hooks h content p plugin root data =
     (case content of
        None \<Rightarrow> ([], [PluginReadError plugin p])
      | Some c \<Rightarrow> process_hooks_content h c p plugin root data)"

definition parse_plugin_hooks_from_value ::
    "'a hook_host_scheme \<Rightarrow> json \<Rightarrow> string \<Rightarrow> string \<Rightarrow> string \<Rightarrow> HookSpec list \<times> plugin_warning list" where
  "parse_plugin_hooks_from_value h v plugin root data =
     process_hooks_content h (case host_to_str h v of Some s \<Rightarrow> s | None \<Rightarrow> [])
       (path_join (components root) [Normal ''plugin.json'']) plugin root data"

section \<open>Facts\<close>

text \<open>No variable that a file sets reaches a name the runner reserves.\<close>

lemma reserved_keys_stripped:
  "strip_reserved_env_keys env k = (if k \<in> set RUNNER_ALWAYS_SET_ENV then None else env k)"
proof -
  have "fold (\<lambda>k m. m(k := None)) ks env k = (if k \<in> set ks then None else env k)" for ks :: "string list" and env :: env_map
    by (induction ks arbitrary: env) auto
  then show ?thesis by (simp add: strip_reserved_env_keys_def)
qed

text \<open>
  Two spellings of one event in a file: the groups of the one that the hash map gives first are
  lost, with the hooks in them.
\<close>

lemma spellings_overwrite:
  assumes "de_groups a = Some ga" "de_groups b = Some gb"
  shows "collect_events [(''PreToolUse'', a), (''beforeShellExecution'', b)] [] [] = Inr ([(PreToolUse, gb)], [])
    \<and> collect_events [(''beforeShellExecution'', b), (''PreToolUse'', a)] [] [] = Inr ([(PreToolUse, ga)], [])"
  using assms by (simp add: event_of_name_def event_spellings_def insert_event_def)

text \<open>A plug-in cannot move its root by variables of its own.\<close>

lemma plugin_vars_win:
  "h_extra_env (plugin_spec h plugin root data s) ''CLAUDE_PLUGIN_ROOT'' = Some root
   \<and> h_extra_env (plugin_spec h plugin root data s) ''GROK_PLUGIN_ROOT'' = Some root"
  by (simp add: plugin_spec_def)

end
