(* ===== verification/Hook_Registry.thy ===== *)
theory Hook_Registry
  imports Hook_Config
begin

text \<open>
  The registry of hooks, its discovery (\<^verbatim>\<open>xai-grok-hooks/src/discovery.rs\<close>) and the file of disabled hooks
  (\<^verbatim>\<open>trust.rs\<close>). The registry maps an event to its hooks in the order in which they run. Directories and
  files are read through the record \<open>hook_files\<close>.
\<close>

section \<open>Registry\<close>

type_synonym HookRegistry = "HookEventName \<Rightarrow> HookSpec list"

definition empty_registry :: HookRegistry where
  "empty_registry = (\<lambda>_. [])"

definition hooks_for :: "HookRegistry \<Rightarrow> HookEventName \<Rightarrow> HookSpec list" where
  "hooks_for r e = r e"

definition push_spec :: "HookSpec \<Rightarrow> HookRegistry \<Rightarrow> HookRegistry" where
  "push_spec s r = r(h_event s := r (h_event s) @ [s])"

definition append_specs :: "HookSpec list \<Rightarrow> HookRegistry \<Rightarrow> HookRegistry" where
  "append_specs specs r = fold push_spec specs r"

definition remove_by_prefix :: "string \<Rightarrow> HookRegistry \<Rightarrow> HookRegistry" where
  "remove_by_prefix pre r = (\<lambda>e. filter (\<lambda>s. \<not> starts_with (h_name s) pre) (r e))"

definition ALL_EVENTS :: "HookEventName list" where
  "ALL_EVENTS =
     [SessionStart, UserPromptSubmit, PreToolUse, PostToolUse, PostToolUseFailure, PermissionDenied, Stop,
      StopFailure, Notification, SubagentStart, SubagentStop, SubagentEnd, PreCompact, PostCompact, SessionEnd]"

definition all_hooks :: "HookRegistry \<Rightarrow> HookSpec list" where
  "all_hooks r = concat (map (hooks_for r) ALL_EVENTS)"

definition registry_len :: "HookRegistry \<Rightarrow> nat" where
  "registry_len r = sum_list (map (\<lambda>e. length (r e)) ALL_EVENTS)"

definition registry_is_empty :: "HookRegistry \<Rightarrow> bool" where
  "registry_is_empty r \<longleftrightarrow> list_all (\<lambda>e. r e = []) ALL_EVENTS"

definition recompile_spec :: "regex_engine \<Rightarrow> HookSpec \<Rightarrow> HookSpec" where
  "recompile_spec rx s =
     (case h_configured_matcher s of
        None \<Rightarrow> s
      | Some pat \<Rightarrow>
          (case matcher_new rx pat of
             Inr m \<Rightarrow> s\<lparr>h_matcher := Some m\<rparr>
           | Inl _ \<Rightarrow> s\<lparr>h_matcher := Some MNever\<rparr>))"

definition recompile_matchers :: "regex_engine \<Rightarrow> HookRegistry \<Rightarrow> HookRegistry" where
  "recompile_matchers rx r = (\<lambda>e. map (recompile_spec rx) (r e))"

section \<open>Discovery\<close>

datatype 'a io = IoOk 'a | IoNotFound | IoError

datatype HookSource = SettingsFile path | Directory path

text \<open>An entry of a directory is its path or an error; \<open>is_file\<close> follows links.\<close>

record hook_files = hook_host +
  hook_file_text :: "path \<Rightarrow> string io"
  read_dir :: "path \<Rightarrow> path option list io"
  is_file :: "path \<Rightarrow> bool"

definition load_hooks_from_settings_file :: "hook_files \<Rightarrow> path \<Rightarrow> HookSpec list \<times> HookError list" where
  "load_hooks_from_settings_file fs p =
     (case hook_file_text fs p of
        IoNotFound \<Rightarrow> ([], [])
      | IoError \<Rightarrow> ([], [ReadFile p])
      | IoOk c \<Rightarrow> parse_hook_file fs c p)"

definition is_valid_hook_file :: "hook_files \<Rightarrow> path \<Rightarrow> bool" where
  "is_valid_hook_file fs p =
     (case path_file_name p of
        Some (Normal n) \<Rightarrow>
          snd (stem_and_ext n) = Some ''json''
          \<and> \<not> starts_with n ''.''
          \<and> \<not> (ends_with n ''~'' \<or> ends_with n ''.swp'' \<or> ends_with n ''.swo'')
          \<and> is_file fs p
      | _ \<Rightarrow> False)"

text \<open>The files of one directory are ordered by their names.\<close>

definition last_name :: "path \<Rightarrow> string" where
  "last_name p = (case path_file_name p of Some (Normal n) \<Rightarrow> n | _ \<Rightarrow> [])"

fun insert_path :: "path \<Rightarrow> path list \<Rightarrow> path list" where
  "insert_path x [] = [x]"
| "insert_path x (y # ys) = (if byte_le (last_name x) (last_name y) then x # y # ys else y # insert_path x ys)"

definition sort_paths :: "path list \<Rightarrow> path list" where
  "sort_paths ps = foldr insert_path ps []"

definition load_one_file :: "hook_files \<Rightarrow> path \<Rightarrow> HookSpec list \<times> HookError list" where
  "load_one_file fs p =
     (case hook_file_text fs p of IoOk c \<Rightarrow> parse_hook_file fs c p | _ \<Rightarrow> ([], [ReadFile p]))"

definition load_hooks_from_directory :: "hook_files \<Rightarrow> path \<Rightarrow> HookSpec list \<times> HookError list" where
  "load_hooks_from_directory fs d =
     (case read_dir fs d of
        IoNotFound \<Rightarrow> ([], [])
      | IoError \<Rightarrow> ([], [ReadFile d])
      | IoOk entries \<Rightarrow>
          (let json_files = sort_paths (filter (is_valid_hook_file fs) (List.map_filter id entries));
               loaded = map (load_one_file fs) json_files
           in (concat (map fst loaded),
               map (\<lambda>_. ReadFile d) (filter (\<lambda>e. e = None) entries) @ concat (map snd loaded))))"

definition load_from_source :: "hook_files \<Rightarrow> HookSource \<Rightarrow> HookSpec list \<times> HookError list" where
  "load_from_source fs src =
     (case src of SettingsFile p \<Rightarrow> load_hooks_from_settings_file fs p | Directory d \<Rightarrow> load_hooks_from_directory fs d)"

definition scoped_specs :: "hook_files \<Rightarrow> string \<Rightarrow> HookSource list \<Rightarrow> HookSpec list" where
  "scoped_specs fs scope srcs =
     concat (map (\<lambda>src. map (\<lambda>s. s\<lparr>h_name := scope @ h_name s\<rparr>) (fst (load_from_source fs src))) srcs)"

text \<open>Hooks with the same event, source text and pattern are loaded once.\<close>

definition dedup_key :: "HookSpec \<Rightarrow> HookEventName \<times> string \<times> string \<times> string" where
  "dedup_key s =
     (h_event s, case_option [] id (h_command_raw s), case_option [] id (h_url_raw s),
      case_option [] id (h_configured_matcher s))"

fun dedup_push ::
    "HookSpec list \<Rightarrow> (HookEventName \<times> string \<times> string \<times> string) list \<Rightarrow> HookRegistry \<Rightarrow> HookRegistry" where
  "dedup_push [] seen r = r"
| "dedup_push (s # ss) seen r =
     (if dedup_key s \<in> set seen then dedup_push ss seen r
      else dedup_push ss (dedup_key s # seen) (push_spec s r))"

definition load_hooks_from_sources ::
    "hook_files \<Rightarrow> HookSource list \<Rightarrow> HookSource list \<Rightarrow> HookRegistry \<times> HookError list" where
  "load_hooks_from_sources fs global_sources project_sources =
     (dedup_push (scoped_specs fs ''global/'' global_sources @ scoped_specs fs ''project/'' project_sources) []
        empty_registry,
      concat (map (\<lambda>src. snd (load_from_source fs src)) (global_sources @ project_sources)))"

definition load_hooks :: "hook_files \<Rightarrow> path option \<Rightarrow> path option \<Rightarrow> HookRegistry \<times> HookError list" where
  "load_hooks fs global_dir project_dir =
     (let dirs = case_option [] (\<lambda>d. [Directory d])
      in load_hooks_from_sources fs (dirs global_dir) (dirs project_dir))"

section \<open>Disabled hooks\<close>

text \<open>The content of the file; no content when it cannot be read.\<close>

definition names_hook :: "string \<Rightarrow> string \<Rightarrow> bool" where
  "names_hook name line \<longleftrightarrow> trim line \<noteq> [] \<and> \<not> starts_with (trim line) ''#'' \<and> trim line = name"

definition is_hook_disabled :: "string io \<Rightarrow> string \<Rightarrow> bool" where
  "is_hook_disabled file name =
     (case file of IoOk c \<Rightarrow> list_ex (names_hook name) (str_lines c) | _ \<Rightarrow> False)"

text \<open>
  Appending creates a missing file. \<open>writable\<close> says whether it can be opened and written.
  The new content, or an error.
\<close>

definition disable_hook :: "bool \<Rightarrow> string io \<Rightarrow> string \<Rightarrow> string io res" where
  "disable_hook writable file name =
     (if is_hook_disabled file name then Inr file
      else if \<not> writable then Inl ''failed to open disabled-hooks file''
      else (case file of
              IoOk c \<Rightarrow> Inr (IoOk (c @ name @ [LF]))
            | IoNotFound \<Rightarrow> Inr (IoOk (name @ [LF]))
            | IoError \<Rightarrow> Inr IoError))"

definition enable_hook :: "bool \<Rightarrow> string io \<Rightarrow> string \<Rightarrow> (string io \<times> bool) res" where
  "enable_hook writable file name =
     (case file of
        IoNotFound \<Rightarrow> Inr (file, False)
      | IoError \<Rightarrow> Inl ''failed to read disabled-hooks file''
      | IoOk c \<Rightarrow>
          if \<not> list_ex (names_hook name) (str_lines c) then Inr (file, False)
          else if \<not> writable then Inl ''failed to open disabled-hooks file''
          else Inr (IoOk (unlines (filter (\<lambda>l. \<not> names_hook name l) (str_lines c))), True))"

definition list_trusted_projects :: "string io \<Rightarrow> string list option" where
  "list_trusted_projects file =
     (case file of
        IoNotFound \<Rightarrow> Some []
      | IoError \<Rightarrow> None
      | IoOk c \<Rightarrow> Some (filter (\<lambda>l. l \<noteq> [] \<and> \<not> starts_with l ''#'') (map trim (str_lines c))))"

section \<open>What is loaded\<close>

fun unseen :: "HookSpec list \<Rightarrow> (HookEventName \<times> string \<times> string \<times> string) list \<Rightarrow> HookSpec list" where
  "unseen [] seen = []"
| "unseen (s # ss) seen =
     (if dedup_key s \<in> set seen then unseen ss seen else s # unseen ss (dedup_key s # seen))"

lemma append_specs_at: "append_specs specs r e = r e @ filter (\<lambda>s. h_event s = e) specs"
  unfolding append_specs_def by (induction specs arbitrary: r) (auto simp: push_spec_def)

lemma dedup_push_unseen: "dedup_push ss seen r = append_specs (unseen ss seen) r"
  by (induction ss arbitrary: seen r) (auto simp: append_specs_def)

lemma unseen_distinct:
  "distinct (map dedup_key (unseen ss seen)) \<and> set (map dedup_key (unseen ss seen)) = dedup_key ` set ss - set seen"
  by (induction ss arbitrary: seen) auto

lemma dedup_key_event: "dedup_key s = dedup_key t \<Longrightarrow> h_event s = h_event t"
  by (simp add: dedup_key_def)

text \<open>
  For every event the registry holds one hook for each content that some source has, in the
  order of the sources, the global ones first.
\<close>

lemma loaded_hooks:
  fixes fs :: hook_files
  defines "specs \<equiv> \<lambda>gs ps. scoped_specs fs ''global/'' gs @ scoped_specs fs ''project/'' ps"
  shows "hooks_for (fst (load_hooks_from_sources fs gs ps)) e =
           filter (\<lambda>s. h_event s = e) (unseen (specs gs ps) [])
         \<and> distinct (map dedup_key (unseen (specs gs ps) []))
         \<and> dedup_key ` set (unseen (specs gs ps) []) = dedup_key ` set (specs gs ps)"
  using unseen_distinct [of "specs gs ps" "[]"]
  by (simp add: load_hooks_from_sources_def hooks_for_def dedup_push_unseen append_specs_at empty_registry_def
      specs_def)

text \<open>
  The directory of a file is not part of what is compared: of two files with the same relative
  command only the first one's program is run.
\<close>

lemma same_command_other_directory:
  "unseen [s, s\<lparr>h_name := n, h_source_dir := d\<rparr>] [] = [s]"
  by (simp add: dedup_key_def)

text \<open>The two names of one event are different keys: hooks for the one are not run for the other.\<close>

lemma subagent_end_separate:
  "list_all (\<lambda>s. h_event s = SubagentStop) specs \<Longrightarrow> hooks_for (append_specs specs empty_registry) SubagentEnd = []"
  by (auto simp: hooks_for_def append_specs_at empty_registry_def list_all_iff filter_empty_conv)

text \<open>Recompiling after a restart never widens a pattern.\<close>

lemma recompiled_pattern:
  "s \<in> set (hooks_for (recompile_matchers rx r) e) \<Longrightarrow> h_configured_matcher s = Some pat \<Longrightarrow>
     h_matcher s = Some (case matcher_new rx pat of Inr m \<Rightarrow> m | Inl _ \<Rightarrow> MNever)"
  by (auto simp: recompile_matchers_def hooks_for_def recompile_spec_def split: option.splits sum.splits)

section \<open>Disabling and enabling\<close>

text \<open>A name that a line of the file can hold.\<close>

definition line_name :: "string \<Rightarrow> bool" where
  "line_name n \<longleftrightarrow> n \<noteq> [] \<and> trim n = n \<and> \<not> starts_with n ''#'' \<and> LF \<notin> set n \<and> CR \<notin> set n"

lemma names_hook_self: "line_name n \<Longrightarrow> names_hook m n \<longleftrightarrow> m = n"
  by (auto simp: names_hook_def line_name_def)

text \<open>The lines of a terminated file, and of the file with one more line.\<close>

lemma str_lines_terminated:
  assumes "c = [] \<or> last c = LF"
  shows "str_lines (c @ n @ [LF]) = str_lines c @ str_lines (n @ [LF])"
proof (cases "c = []")
  case False
  then obtain d where c: "c = d @ [LF]" using assms by (metis append_butlast_last_id)
  have *: "split_pred (\<lambda>x. x = LF) (d @ LF # t) = split_pred (\<lambda>x. x = LF) d @ split_pred (\<lambda>x. x = LF) t" for d t
    using split_pred_append [of "\<lambda>x. x = LF" LF d t] by simp
  show ?thesis
    by (simp add: c split_lines_def Let_def * [of d] * [of d "[]", simplified] * [of n "[]", simplified]
        butlast_append split_pred_nonempty)
qed (simp add: split_lines_def)

lemma str_lines_one: "LF \<notin> set n \<Longrightarrow> CR \<notin> set n \<Longrightarrow> str_lines (n @ [LF]) = [n]"
proof -
  assume "LF \<notin> set n" "CR \<notin> set n"
  moreover from this have "n = [] \<or> last n \<noteq> CR" using last_in_set by metis
  ultimately show ?thesis using str_lines_unlines [of "[n]"] by (simp add: end_lines_def plain_for_def)
qed

lemma disable_hook_exact:
  assumes "line_name n" "c = [] \<or> last c = LF" "disable_hook True (IoOk c) n = Inr f"
  shows "is_hook_disabled f m \<longleftrightarrow> is_hook_disabled (IoOk c) m \<or> m = n"
proof (cases "is_hook_disabled (IoOk c) n")
  case False
  then have f: "f = IoOk (c @ n @ [LF])" using assms(3) by (simp add: disable_hook_def)
  have "str_lines (c @ n @ [LF]) = str_lines c @ [n]"
    using str_lines_terminated [OF assms(2)] assms(1) by (simp add: str_lines_one line_name_def)
  then show ?thesis using names_hook_self [OF assms(1)] by (simp add: is_hook_disabled_def f)
qed (use assms in \<open>auto simp: disable_hook_def\<close>)

lemma lines_without_lf: "l \<in> set (str_lines c) \<Longrightarrow> LF \<notin> set l"
  using split_pred_no_sep [of _ "\<lambda>c. c = LF" c]
  by (fastforce simp: split_lines_def Let_def strip_end_def dest: in_set_butlastD split: if_splits
      intro: last_in_set)

text \<open>A carriage return at the end of a line is white space, so reading it again changes no name.\<close>

lemma trim_strip_end: "trim (strip_end CR l) = trim l"
proof (cases "l \<noteq> [] \<and> last l = CR")
  case True
  then obtain k where "l = k @ [CR]" by (metis append_butlast_last_id)
  moreover have "is_whitespace CR" by (simp add: is_whitespace_def)
  ultimately show ?thesis
    by (cases "dropWhile is_whitespace k = []")
       (auto simp: strip_end_def trim_def trim_end_pred_def dropWhile_append dropWhile_eq_Nil_conv
          dest: set_dropWhileD)
qed (auto simp: strip_end_def)

lemma enabled_lines:
  assumes "list_all (\<lambda>l. LF \<notin> set l) ls"
  shows "list_ex (names_hook m) (str_lines (unlines ls)) \<longleftrightarrow> list_ex (names_hook m) ls"
proof -
  have "str_lines (unlines ls) = map (strip_end CR) ls"
    using split_end_lines [OF assms, of "[]"] by (simp add: split_lines_def Let_def)
  then show ?thesis by (simp add: list_ex_iff names_hook_def trim_strip_end)
qed

lemma enable_hook_exact:
  assumes "enable_hook w f n = Inr (f', found)"
  shows "(is_hook_disabled f' m \<longleftrightarrow> is_hook_disabled f m \<and> m \<noteq> n) \<and> (found \<longleftrightarrow> is_hook_disabled f n)"
proof (cases f)
  case (IoOk c)
  let ?keep = "filter (\<lambda>l. \<not> names_hook n l) (str_lines c)"
  have "list_all (\<lambda>l. LF \<notin> set l) ?keep" by (auto simp: list_all_iff dest: lines_without_lf)
  then have "list_ex (names_hook m) (str_lines (unlines ?keep)) \<longleftrightarrow> list_ex (names_hook m) ?keep"
    by (rule enabled_lines)
  moreover have "names_hook a l \<Longrightarrow> names_hook b l \<Longrightarrow> a = b" for a b l by (simp add: names_hook_def)
  ultimately have keep: "list_ex (names_hook m) (str_lines (unlines ?keep)) \<longleftrightarrow>
      list_ex (names_hook m) (str_lines c) \<and> m \<noteq> n"
    by (auto simp: list_ex_iff)
  show ?thesis
  proof (cases "list_ex (names_hook n) (str_lines c)")
    case True
    then have "f' = IoOk (unlines ?keep)" "found"
      using assms IoOk by (auto simp: enable_hook_def split: if_split_asm)
    then show ?thesis using keep True IoOk by (simp add: is_hook_disabled_def)
  next
    case False
    then have "f' = f" "\<not> found" using assms IoOk by (simp_all add: enable_hook_def)
    then show ?thesis using False IoOk by (auto simp: is_hook_disabled_def)
  qed
qed (use assms in \<open>auto simp: enable_hook_def is_hook_disabled_def\<close>)

text \<open>
  The file is appended to as it is: after a last line without a line feed the new name joins that
  line, so that neither hook is disabled.
\<close>

lemma disable_joins_lines:
  "is_hook_disabled (IoOk ''global/a'') ''global/a''
   \<and> disable_hook True (IoOk ''global/a'') ''global/b'' = Inr (IoOk (''global/aglobal/b'' @ [LF]))
   \<and> \<not> is_hook_disabled (IoOk (''global/aglobal/b'' @ [LF])) ''global/a''
   \<and> \<not> is_hook_disabled (IoOk (''global/aglobal/b'' @ [LF])) ''global/b''"
  by code_simp

end
