(* ===== verification/Hook_Run.thy ===== *)
theory Hook_Run
  imports Hook_Registry Net_Policy
begin

text \<open>
  Running one hook (\<^verbatim>\<open>xai-grok-hooks/src/runner\<close>): the command runner on Unix and the HTTP runner. What they
  use of the outside is the record \<open>hook_world\<close>: the printer of envelopes, the reader of a printed
  decision, the file system, processes, the resolver and the HTTP client. Nothing is assumed about
  them. Durations are left out.
\<close>

unbundle bit_operations_syntax

section \<open>Results\<close>

datatype HookDecision = HAllow | HDeny string string

datatype HookRunnerResult = RDecision HookDecision | RSuccess | RFailed string

record HttpInfo =
  i_url :: string
  i_raw_url :: "string option"
  i_status :: "nat option"
  i_preview :: "string option"

record RunContext =
  c_session_id :: string
  c_workspace_root :: string

section \<open>The outside\<close>

record hook_process =
  p_program :: string
  p_args :: "string list"
  p_cwd :: string
  p_env :: env_map
  p_stdin :: string
  p_timeout :: "64 word"

datatype process_outcome =
    SpawnFailed string
  | ProcTimeout
  | ExecFailed string
  | Exited "int option" string string

datatype http_outcome =
    SendTimeout
  | SendFailed string
  | Responded nat "string res"

text \<open>
  \<open>w_read_output\<close> is \<^verbatim>\<open>serde_json::from_str\<close> into the struct with the fields \<^verbatim>\<open>decision\<close> and \<^verbatim>\<open>reason\<close>;
  \<open>w_post\<close> gets the URL, the body and the timeout; \<open>w_disabled\<close> is the file of disabled hooks.
\<close>

record hook_world = hook_host +
  w_serialize :: "HookEventEnvelope \<Rightarrow> string res"
  w_read_output :: "string \<Rightarrow> (string \<times> string option) option"
  w_exists :: "string \<Rightarrow> bool"
  w_spawn :: "hook_process \<Rightarrow> process_outcome"
  w_net :: net
  w_post :: "string \<Rightarrow> string \<Rightarrow> 64 word \<Rightarrow> http_outcome"
  w_show_status :: "nat \<Rightarrow> string"
  w_disabled :: "string io"

section \<open>Output\<close>

text \<open>
  \<^verbatim>\<open>String::from_utf8_lossy\<close>: a character, or the longest beginning of one that the bytes do not
  continue, which becomes \<^verbatim>\<open>U+FFFD\<close>. The number of bytes, and whether they are a character.
\<close>

definition byte_in :: "nat \<Rightarrow> nat \<Rightarrow> string \<Rightarrow> nat \<Rightarrow> bool" where
  "byte_in lo hi s i \<longleftrightarrow> i < length s \<and> lo \<le> of_char (s ! i) \<and> of_char (s ! i) \<le> hi"

definition second_ok :: "string \<Rightarrow> bool" where
  "second_ok s \<longleftrightarrow>
     (if byte_in 0xE0 0xE0 s 0 then byte_in 0xA0 0xBF s 1
      else if byte_in 0xED 0xED s 0 then byte_in 0x80 0x9F s 1
      else if byte_in 0xF0 0xF0 s 0 then byte_in 0x90 0xBF s 1
      else if byte_in 0xF4 0xF4 s 0 then byte_in 0x80 0x8F s 1
      else byte_in 0x80 0xBF s 1)"

definition utf8_chunk :: "string \<Rightarrow> nat \<times> bool" where
  "utf8_chunk s =
     (if byte_in 0 0x7F s 0 then (1, True)
      else if byte_in 0xC2 0xDF s 0 then (if second_ok s then (2, True) else (1, False))
      else if byte_in 0xE0 0xEF s 0 then
        (if \<not> second_ok s then (1, False) else if byte_in 0x80 0xBF s 2 then (3, True) else (2, False))
      else if byte_in 0xF0 0xF4 s 0 then
        (if \<not> second_ok s then (1, False)
         else if \<not> byte_in 0x80 0xBF s 2 then (2, False)
         else if byte_in 0x80 0xBF s 3 then (4, True) else (3, False))
      else (1, False))"

lemma utf8_chunk_pos: "0 < fst (utf8_chunk s)"
  by (simp add: utf8_chunk_def)

function from_utf8_lossy :: "string \<Rightarrow> string" where
  "from_utf8_lossy s =
     (if s = [] then []
      else (case utf8_chunk s of
              (n, ok) \<Rightarrow> (if ok then take n s else [CHR 0xEF, CHR 0xBF, CHR 0xBD]) @ from_utf8_lossy (drop n s)))"
  by pat_completeness auto
termination
  by (relation "measure length") (use utf8_chunk_pos in \<open>auto simp: prod_eq_iff\<close>)

declare from_utf8_lossy.simps [simp del]

definition MAX_OUTPUT_BYTES :: nat where
  "MAX_OUTPUT_BYTES = 64 * 1024"

definition truncate_output :: "string \<Rightarrow> string" where
  "truncate_output bytes =
     (if length bytes \<le> MAX_OUTPUT_BYTES then from_utf8_lossy bytes
      else from_utf8_lossy (take MAX_OUTPUT_BYTES bytes) @ '' [truncated]'')"

definition in_quotes :: "string \<Rightarrow> string" where
  "in_quotes s = [CHR 0x27] @ s @ [CHR 0x27]"

text \<open>\<^verbatim>\<open>i32\<close> values are printed with a sign.\<close>

definition show_code :: "int \<Rightarrow> string" where
  "show_code n = (if n < 0 then ''-'' @ show_decimal (nat (- n)) else show_decimal (nat n))"

definition parse_blocking_result :: "hook_world \<Rightarrow> string \<Rightarrow> int \<Rightarrow> string \<Rightarrow> HookRunnerResult" where
  "parse_blocking_result w stdout code name =
     (case (if trim stdout \<noteq> [] then w_read_output w (trim stdout) else None) of
        Some (decision, reason) \<Rightarrow>
          if decision = ''deny'' then
            RDecision (HDeny (case reason of Some r \<Rightarrow> r | None \<Rightarrow> ''denied by hook '' @ in_quotes name) name)
          else if decision = ''allow'' then RDecision HAllow
          else RFailed (''unknown decision value '' @ in_quotes decision @ '' from hook '' @ in_quotes name)
      | None \<Rightarrow>
          if code = 0 then RDecision HAllow
          else if code = 2 then RDecision (HDeny (''denied by hook '' @ in_quotes name @ '' (exit code 2)'') name)
          else RFailed (''hook '' @ in_quotes name @ '' failed with exit code '' @ show_code code))"

section \<open>Command hooks\<close>

definition is_shell_command :: "string \<Rightarrow> bool" where
  "is_shell_command c \<longleftrightarrow> list_ex (\<lambda>x. x \<in> set c) '' |&;><$'' \<or> starts_with c ''~''"

text \<open>\<^verbatim>\<open>Path::join\<close> on text.\<close>

definition join_dir :: "string \<Rightarrow> string \<Rightarrow> string" where
  "join_dir d f =
     (if starts_with f ''/'' \<or> d = [] then f else if ends_with d ''/'' then d @ f else d @ ''/'' @ f)"

definition resolve_command_path :: "HookSpec \<Rightarrow> string option" where
  "resolve_command_path s =
     map_option (\<lambda>c. if starts_with c ''/'' then c else join_dir (h_source_dir s) c) (h_command s)"

text \<open>
  The environment on top of the inherited one: \<^verbatim>\<open>envs\<close> with the variables of the hook first,
  then one \<^verbatim>\<open>env\<close> for each variable of the runner.
\<close>

definition spawn_env :: "HookSpec \<Rightarrow> HookEventEnvelope \<Rightarrow> RunContext \<Rightarrow> env_map" where
  "spawn_env s env ctx =
     (h_extra_env s)
       (''GROK_HOOK_EVENT'' \<mapsto> event_display (hook_event_name env),
        ''GROK_HOOK_NAME'' \<mapsto> h_name s,
        ''GROK_SESSION_ID'' \<mapsto> c_session_id ctx,
        ''GROK_WORKSPACE_ROOT'' \<mapsto> c_workspace_root ctx,
        ''CLAUDE_PROJECT_DIR'' \<mapsto> c_workspace_root ctx)"

definition prepare_command ::
    "hook_world \<Rightarrow> HookSpec \<Rightarrow> HookEventEnvelope \<Rightarrow> RunContext \<Rightarrow> hook_process res" where
  "prepare_command w s env ctx =
     (case h_command s of
        None \<Rightarrow> Inl (''command hook has no '' @ in_quotes ''command'' @ '' field'')
      | Some command \<Rightarrow>
          (case w_serialize w env of
             Inl e \<Rightarrow> Inl (''failed to serialize envelope: '' @ e)
           | Inr stdin \<Rightarrow>
               (let process = \<lambda>program args. \<lparr>p_program = program, p_args = args,
                      p_cwd = c_workspace_root ctx, p_env = spawn_env s env ctx, p_stdin = stdin,
                      p_timeout = h_timeout_ms s\<rparr>
                in if is_shell_command command then
                     (let unresolved = find_unresolved_env_vars (host_env w) command (h_extra_env s)
                      in if unresolved \<noteq> []
                         then Inl (''hook not executed: required env var(s) not set: ''
                                @ join_with '', '' (map (\<lambda>v. ''${'' @ v @ ''}'') unresolved))
                         else Inr (process ''sh'' [''-c'', command]))
                   else
                     (let command_path = (if starts_with command ''/'' then command
                            else join_dir (h_source_dir s) command)
                      in if \<not> w_exists w command_path then Inl (''command not found: '' @ command_path)
                         else Inr (process command_path [])))))"

definition run_command_hook ::
    "hook_world \<Rightarrow> HookSpec \<Rightarrow> HookEventEnvelope \<Rightarrow> RunContext \<Rightarrow> bool \<Rightarrow> HookRunnerResult" where
  "run_command_hook w s env ctx is_blocking =
     (case prepare_command w s env ctx of
        Inl e \<Rightarrow> RFailed e
      | Inr p \<Rightarrow>
          (case w_spawn w p of
             SpawnFailed e \<Rightarrow> RFailed (''failed to spawn command: '' @ e)
           | ProcTimeout \<Rightarrow> RFailed (''timed out after '' @ show_decimal (unat (h_timeout_ms s)) @ ''ms'')
           | ExecFailed e \<Rightarrow> RFailed (''command execution failed: '' @ e)
           | Exited status out err \<Rightarrow>
               (let code = (case status of Some c \<Rightarrow> c | None \<Rightarrow> -1)
                in if \<not> is_blocking
                   then (if code = 0 then RSuccess else RFailed (''exit code '' @ show_code code))
                   else parse_blocking_result w (truncate_output out) code (h_name s))))"

section \<open>HTTP hooks\<close>

definition octet :: "32 word \<Rightarrow> nat \<Rightarrow> nat" where
  "octet ip i = unat ip div 2 ^ (24 - 8 * i) mod 256"

definition blocked_v4 :: "32 word \<Rightarrow> bool" where
  "blocked_v4 ip =
     (let a = octet ip 0; b = octet ip 1
      in if a = 127 then False
         else if a = 10 then True
         else if a = 172 \<and> 16 \<le> b \<and> b \<le> 31 then True
         else if a = 192 \<and> b = 168 then True
         else if a = 169 \<and> b = 254 then True
         else if a = 100 \<and> 64 \<le> b \<and> b \<le> 127 then True
         else ip = 0)"

fun is_blocked_ip :: "ip_addr \<Rightarrow> bool" where
  "is_blocked_ip (V4 v4) = blocked_v4 v4"
| "is_blocked_ip (V6 v6) =
     (if v6 = 1 then False
      else if v6 = 0 then True
      else (case to_ipv4_mapped v6 of
              Some v4 \<Rightarrow> blocked_v4 v4
            | None \<Rightarrow>
                (let segment = drop_bit 112 v6
                 in if (segment AND 0xffc0) = 0xfe80 then True
                    else (segment AND 0xfe00) = 0xfc00)))"

definition validate_hook_url :: "net \<Rightarrow> string \<Rightarrow> unit res" where
  "validate_hook_url nt url =
     (case n_url_parse nt url of
        Inl e \<Rightarrow> Inl (''invalid URL: '' @ e)
      | Inr parsed \<Rightarrow>
          if u_scheme parsed \<noteq> ''https''
          then Inl (''only https:// URLs are allowed for HTTP hooks, got '' @ u_scheme parsed @ ''://'')
          else
            (case u_host_str parsed of
               None \<Rightarrow> Inl ''URL has no host''
             | Some host \<Rightarrow>
                 (case n_parse_ip nt host of
                    Some ip \<Rightarrow>
                      if is_blocked_ip ip
                      then Inl (''URL resolves to blocked private/internal IP: '' @ n_show_ip nt ip)
                      else Inr ()
                  | None \<Rightarrow>
                      (let port = (case u_port parsed of Some p \<Rightarrow> p | None \<Rightarrow> 443)
                       in case n_lookup_host nt (host @ '':'' @ n_show_port nt port) of
                            Inl e \<Rightarrow> Inl (''DNS resolution failed for '' @ host @ '': '' @ e)
                          | Inr addrs \<Rightarrow>
                              if addrs = [] then Inl (''DNS resolved no addresses for '' @ host)
                              else (case find (\<lambda>a. is_blocked_ip (fst a)) addrs of
                                      Some a \<Rightarrow> Inl (''URL host '' @ host
                                        @ '' resolves to blocked private/internal IP: '' @ n_show_ip nt (fst a))
                                    | None \<Rightarrow> Inr ())))))"

definition RESPONSE_PREVIEW_MAX :: nat where
  "RESPONSE_PREVIEW_MAX = 200"

definition truncate_preview :: "string \<Rightarrow> string" where
  "truncate_preview s =
     (let trimmed = trim s
      in if length trimmed \<le> RESPONSE_PREVIEW_MAX then trimmed
         else
           (let starts = takeWhile (\<lambda>i. i \<le> RESPONSE_PREVIEW_MAX) (char_starts trimmed);
                boundary = (if starts = [] then 0 else last starts)
            in take boundary trimmed @ ''...''))"

definition is_success :: "nat \<Rightarrow> bool" where
  "is_success status \<longleftrightarrow> 200 \<le> status \<and> status < 300"

definition parse_http_blocking_result :: "hook_world \<Rightarrow> string \<Rightarrow> nat \<Rightarrow> string \<Rightarrow> HookRunnerResult" where
  "parse_http_blocking_result w response_text status name =
     (if trim response_text = [] then
        (if is_success status then RDecision HAllow
         else RFailed (''HTTP status '' @ w_show_status w status @ '' with empty body''))
      else
        (case w_read_output w response_text of
           Some (decision, reason) \<Rightarrow>
             if decision = ''deny'' then
               RDecision (HDeny (case reason of Some r \<Rightarrow> r | None \<Rightarrow> ''denied by hook '' @ in_quotes name) name)
             else if decision = ''allow'' then RDecision HAllow
             else RFailed (''unknown decision value '' @ in_quotes decision @ '' from hook '' @ in_quotes name)
         | None \<Rightarrow>
             if is_success status then RDecision HAllow
             else RFailed (''HTTP status '' @ w_show_status w status @ '' and failed to parse response'')))"

definition run_http_hook ::
    "hook_world \<Rightarrow> HookSpec \<Rightarrow> HookEventEnvelope \<Rightarrow> bool \<Rightarrow> HookRunnerResult \<times> HttpInfo option" where
  "run_http_hook w s env is_blocking =
     (case h_url s of
        None \<Rightarrow> (RFailed (''http hook has no '' @ in_quotes ''url'' @ '' field''), None)
      | Some configured \<Rightarrow>
          (let url = expand_vars w configured (h_extra_env s);
               log_url = (case h_url_raw s of Some r \<Rightarrow> r | None \<Rightarrow> url);
               info = \<lambda>status preview. Some \<lparr>i_url = url, i_raw_url = h_url_raw s, i_status = status, i_preview = preview\<rparr>
           in case validate_hook_url (w_net w) url of
                Inl reason \<Rightarrow> (RFailed (''blocked by SSRF protection: '' @ reason), info None None)
              | Inr _ \<Rightarrow>
                  (case w_serialize w env of
                     Inl e \<Rightarrow> (RFailed (''failed to serialize envelope: '' @ e), info None None)
                   | Inr body \<Rightarrow>
                       (case w_post w url body (h_timeout_ms s) of
                          SendTimeout \<Rightarrow>
                            (RFailed (''timed out after '' @ show_decimal (unat (h_timeout_ms s)) @ ''ms''), info None None)
                        | SendFailed e \<Rightarrow> (RFailed (''HTTP request failed for '' @ log_url @ '': '' @ e), info None None)
                        | Responded status text \<Rightarrow>
                            if \<not> is_blocking then
                              (if is_success status then RSuccess
                               else RFailed (''HTTP status '' @ w_show_status w status), info (Some status) None)
                            else
                              (case text of
                                 Inl e \<Rightarrow> (RFailed (''failed to read response body for '' @ log_url @ '': '' @ e),
                                          info (Some status) None)
                               | Inr t \<Rightarrow>
                                   (parse_http_blocking_result w t status (h_name s),
                                    info (Some status) (if trim t = [] then None else Some (truncate_preview t))))))))"

section \<open>Any hook\<close>

definition run_hook ::
    "hook_world \<Rightarrow> HookSpec \<Rightarrow> HookEventEnvelope \<Rightarrow> RunContext \<Rightarrow> bool \<Rightarrow> HookRunnerResult \<times> HttpInfo option" where
  "run_hook w s env ctx is_blocking =
     (if h_handler_type s = ''command'' then (run_command_hook w s env ctx is_blocking, None)
      else if h_handler_type s = ''http'' then run_http_hook w s env is_blocking
      else (RFailed (''unsupported handler type '' @ in_quotes (h_handler_type s)), None))"

section \<open>Facts\<close>

text \<open>What the runner says about itself cannot be replaced by the hook's own variables.\<close>

lemma prepared_process:
  "prepare_command w s env ctx = Inr p \<Longrightarrow>
     p_env p = spawn_env s env ctx \<and> p_timeout p = h_timeout_ms s \<and> w_serialize w env = Inr (p_stdin p)"
  by (auto simp: prepare_command_def Let_def split: option.splits sum.splits if_splits)

lemma spawn_env_reserved:
  "k \<in> set RUNNER_ALWAYS_SET_ENV \<Longrightarrow>
     spawn_env s env ctx k = spawn_env (s\<lparr>h_extra_env := m\<rparr>) env ctx k \<and> spawn_env s env ctx k \<noteq> None"
  unfolding RUNNER_ALWAYS_SET_ENV_def set_simps insert_iff empty_iff
  by (elim disjE) (simp_all add: spawn_env_def)

lemma runner_vars_win:
  "prepare_command w s env ctx = Inr p \<Longrightarrow> k \<in> set RUNNER_ALWAYS_SET_ENV \<Longrightarrow>
     p_env p k = spawn_env (s\<lparr>h_extra_env := m\<rparr>) env ctx k \<and> p_env p k \<noteq> None"
  using spawn_env_reserved prepared_process by metis

text \<open>A refused call names the hook that refused it.\<close>

lemma command_deny_name:
  "run_command_hook w s env ctx b = RDecision (HDeny r n) \<Longrightarrow> n = h_name s"
  by (auto simp: run_command_hook_def parse_blocking_result_def Let_def split: sum.splits process_outcome.splits option.splits if_splits)

lemma http_deny_name:
  "fst (run_http_hook w s env b) = RDecision (HDeny r n) \<Longrightarrow> n = h_name s"
  by (auto simp: run_http_hook_def parse_http_blocking_result_def Let_def
      split: sum.splits http_outcome.splits option.splits if_splits)

lemma run_hook_deny_name: "fst (run_hook w s env ctx b) = RDecision (HDeny r n) \<Longrightarrow> n = h_name s"
  by (auto simp: run_hook_def dest: command_deny_name http_deny_name split: if_splits)

text \<open>Without blocking no hook decides.\<close>

lemma non_blocking_no_decision: "fst (run_hook w s env ctx False) \<noteq> RDecision d"
  by (auto simp: run_hook_def run_command_hook_def run_http_hook_def Let_def
      split: sum.splits process_outcome.splits http_outcome.splits option.splits)

section \<open>Addresses HTTP hooks reach\<close>

text \<open>The blocked addresses in the terms of the policy for outgoing URLs.\<close>

lemma div_mod_window:
  fixes m :: nat
  assumes "hi < k"
  shows "m div k = a \<and> lo \<le> m mod k \<and> m mod k \<le> hi \<longleftrightarrow> a * k + lo \<le> m \<and> m \<le> a * k + hi"
proof
  assume "m div k = a \<and> lo \<le> m mod k \<and> m mod k \<le> hi"
  then show "a * k + lo \<le> m \<and> m \<le> a * k + hi" using div_mult_mod_eq [of m k] by auto
next
  assume *: "a * k + lo \<le> m \<and> m \<le> a * k + hi"
  then obtain r where m: "m = a * k + r" by (metis add_leD1 le_Suc_ex)
  with * assms show "m div k = a \<and> lo \<le> m mod k \<and> m mod k \<le> hi" by simp
qed

lemma div_window:
  fixes m :: nat
  assumes "0 < k"
  shows "m div k = q \<longleftrightarrow> q * k \<le> m \<and> m \<le> q * k + (k - 1)"
proof -
  have "m mod k < Suc (k - 1)" using assms by simp
  then have "m mod k \<le> k - 1" by (rule less_Suc_eq_le [THEN iffD1])
  then show ?thesis using div_mod_window [of "k - 1" k m q 0] assms by simp
qed

lemma octet_windows:
  fixes m :: nat
  shows "m div 256 = 172 \<and> 16 \<le> m mod 256 \<and> m mod 256 \<le> 31 \<longleftrightarrow> m div 16 = 172 * 16 + 1"
    and "m div 256 = 100 \<and> 64 \<le> m mod 256 \<and> m mod 256 \<le> 127 \<longleftrightarrow> m div 64 = 401"
    and "m div 256 = 192 \<and> m mod 256 = 168 \<longleftrightarrow> m = 192 * 256 + 168"
    and "m div 256 = 169 \<and> m mod 256 = 254 \<longleftrightarrow> m = 169 * 256 + 254"
proof -
  show "m div 256 = 172 \<and> 16 \<le> m mod 256 \<and> m mod 256 \<le> 31 \<longleftrightarrow> m div 16 = 172 * 16 + 1"
    by (subst div_mod_window, simp, subst div_window, simp) simp
  show "m div 256 = 100 \<and> 64 \<le> m mod 256 \<and> m mod 256 \<le> 127 \<longleftrightarrow> m div 64 = 401"
    by (subst div_mod_window, simp, subst div_window, simp) simp
  show "m div 256 = 192 \<and> m mod 256 = 168 \<longleftrightarrow> m = 192 * 256 + 168"
    using div_mod_window [of 168 256 m 192 168] by auto
  show "m div 256 = 169 \<and> m mod 256 = 254 \<longleftrightarrow> m = 169 * 256 + 254"
    using div_mod_window [of 254 256 m 169 254] by auto
qed

lemma blocked_v4_ranges:
  "blocked_v4 ip \<longleftrightarrow>
     v4_is_private ip \<or> v4_is_link_local ip \<or> unat ip div 2 ^ 22 = 401 \<or> ip = 0"
proof -
  have o: "octet ip 0 = unat ip div 2 ^ 24" "octet ip 1 = unat ip div 2 ^ 16 mod 256"
    using unat_less_32 [of ip] by (simp_all add: octet_def)
  define m where "m = unat ip div 2 ^ 16"
  have parts: "unat ip div 2 ^ 24 = m div 256" "unat ip div 2 ^ 20 = m div 16" "unat ip div 2 ^ 22 = m div 64"
    using div_mult2_eq [of "unat ip" "2 ^ 16"] by (simp_all add: m_def flip: div_mult2_eq)
  have zero: "ip \<noteq> 0" if "m div 256 = 127" using that by (auto simp: m_def)
  let ?a = "m div 256" let ?b = "m mod 256"
  have "blocked_v4 ip \<longleftrightarrow> ?a \<noteq> 127 \<and>
      (?a = 10 \<or> ?a = 172 \<and> 16 \<le> ?b \<and> ?b \<le> 31 \<or> ?a = 192 \<and> ?b = 168 \<or> ?a = 169 \<and> ?b = 254
       \<or> ?a = 100 \<and> 64 \<le> ?b \<and> ?b \<le> 127 \<or> ip = 0)"
    unfolding blocked_v4_def Let_def o parts m_def [symmetric] by argo
  also have "\<dots> \<longleftrightarrow> ?a = 10 \<or> ?a = 172 \<and> 16 \<le> ?b \<and> ?b \<le> 31 \<or> ?a = 192 \<and> ?b = 168 \<or> ?a = 169 \<and> ?b = 254
       \<or> ?a = 100 \<and> 64 \<le> ?b \<and> ?b \<le> 127 \<or> ip = 0"
  proof (cases "?a = 127")
    case True
    then show ?thesis using zero by (simp only: True) simp
  qed simp
  finally show ?thesis
    unfolding octet_windows v4_is_private_def v4_is_link_local_def parts m_def [symmetric] by blast
qed

text \<open>What the check of a URL finds out.\<close>

definition hook_target_ok :: "net \<Rightarrow> string \<Rightarrow> bool" where
  "hook_target_ok nt url \<longleftrightarrow>
     (\<exists>parsed host. n_url_parse nt url = Inr parsed \<and> u_scheme parsed = ''https'' \<and> u_host_str parsed = Some host
        \<and> (case n_parse_ip nt host of
              Some ip \<Rightarrow> \<not> is_blocked_ip ip
            | None \<Rightarrow>
                (\<exists>addrs. n_lookup_host nt (host @ '':'' @ n_show_port nt (case u_port parsed of Some p \<Rightarrow> p | None \<Rightarrow> 443)) = Inr addrs
                   \<and> addrs \<noteq> [] \<and> list_all (\<lambda>a. \<not> is_blocked_ip (fst a)) addrs)))"

lemma validate_hook_url_iff: "validate_hook_url nt url = Inr () \<longleftrightarrow> hook_target_ok nt url"
  by (auto simp: validate_hook_url_def hook_target_ok_def Let_def find_None_iff find_Some_iff list_all_iff
      split: sum.splits option.splits if_splits)

end
