(* ===== verification/Hook_Dispatch.thy ===== *)
theory Hook_Dispatch
  imports Hook_Run Guard_Eval "HOL-Library.Multiset"
begin

text \<open>
  Dispatching events to hooks (\<^verbatim>\<open>xai-grok-hooks/src/dispatcher.rs\<close>), the shell guard as a hook of the shipped
  plug-in (\<^verbatim>\<open>plugin/hooks/hooks.json\<close>), and the tool it is meant to stand in front of. Hooks run one after the
  other and may change the world for those behind them, so each step of the loop has a world of
  its own.
\<close>

section \<open>Dispatch\<close>

datatype HookRunResult =
    RanSuccess string "HttpInfo option"
  | RanSkipped string
  | RanFailed string string "HttpInfo option"

definition switched_off :: "hook_world \<Rightarrow> HookSpec \<Rightarrow> bool" where
  "switched_off w s \<longleftrightarrow> \<not> h_enabled s \<or> is_hook_disabled (w_disabled w) (h_name s)"

definition spec_matches :: "HookSpec \<Rightarrow> HookEventEnvelope \<Rightarrow> bool" where
  "spec_matches s env =
     (case (h_matcher s, extract_tool_name env) of
        (Some m, Some name) \<Rightarrow> is_match m name
      | _ \<Rightarrow> True)"

fun pre_tool_use_loop ::
    "(nat \<Rightarrow> hook_world) \<Rightarrow> nat \<Rightarrow> HookEventEnvelope \<Rightarrow> RunContext \<Rightarrow> HookSpec list \<Rightarrow> HookDecision \<times> HookRunResult list" where
  "pre_tool_use_loop ws i env ctx [] = (HAllow, [])"
| "pre_tool_use_loop ws i env ctx (s # specs) =
     (if switched_off (ws i) s then
        (case pre_tool_use_loop ws (Suc i) env ctx specs of (d, rs) \<Rightarrow> (d, RanSkipped (h_name s) # rs))
      else if \<not> spec_matches s env then pre_tool_use_loop ws (Suc i) env ctx specs
      else
        (case run_hook (ws i) s env ctx True of
           (RDecision (HDeny reason _), info) \<Rightarrow>
             (HDeny reason (h_name s), [RanFailed (h_name s) (''denied: '' @ reason) info])
         | (RFailed err, info) \<Rightarrow>
             (case pre_tool_use_loop ws (Suc i) env ctx specs of (d, rs) \<Rightarrow> (d, RanFailed (h_name s) err info # rs))
         | (_, info) \<Rightarrow>
             (case pre_tool_use_loop ws (Suc i) env ctx specs of (d, rs) \<Rightarrow> (d, RanSuccess (h_name s) info # rs))))"

definition dispatch_pre_tool_use ::
    "(nat \<Rightarrow> hook_world) \<Rightarrow> HookRegistry \<Rightarrow> HookEventEnvelope \<Rightarrow> RunContext \<Rightarrow> HookDecision \<times> HookRunResult list" where
  "dispatch_pre_tool_use ws r env ctx = pre_tool_use_loop ws 0 env ctx (hooks_for r PreToolUse)"

fun non_blocking_loop ::
    "(nat \<Rightarrow> hook_world) \<Rightarrow> nat \<Rightarrow> HookEventEnvelope \<Rightarrow> RunContext \<Rightarrow> HookSpec list \<Rightarrow> HookRunResult list" where
  "non_blocking_loop ws i env ctx [] = []"
| "non_blocking_loop ws i env ctx (s # specs) =
     (if switched_off (ws i) s then RanSkipped (h_name s) # non_blocking_loop ws (Suc i) env ctx specs
      else if \<not> spec_matches s env then non_blocking_loop ws (Suc i) env ctx specs
      else
        (case run_hook (ws i) s env ctx False of
           (RFailed err, info) \<Rightarrow> RanFailed (h_name s) err info # non_blocking_loop ws (Suc i) env ctx specs
         | (_, info) \<Rightarrow> RanSuccess (h_name s) info # non_blocking_loop ws (Suc i) env ctx specs))"

definition dispatch_non_blocking ::
    "(nat \<Rightarrow> hook_world) \<Rightarrow> HookRegistry \<Rightarrow> HookEventName \<Rightarrow> HookEventEnvelope \<Rightarrow> RunContext \<Rightarrow> HookRunResult list" where
  "dispatch_non_blocking ws r e env ctx = non_blocking_loop ws 0 env ctx (hooks_for r e)"

text \<open>The counts recorded for a dispatch: succeeded, failed, blocking and skipped.\<close>

fun count_result :: "HookRunResult \<Rightarrow> int \<times> int \<times> int \<Rightarrow> int \<times> int \<times> int" where
  "count_result (RanSuccess _ _) (s, f, k) = (s + 1, f, k)"
| "count_result (RanFailed _ _ _) (s, f, k) = (s, f + 1, k)"
| "count_result (RanSkipped _) (s, f, k) = (s, f, k + 1)"

definition record_dispatch_counts :: "HookRunResult list \<Rightarrow> int \<Rightarrow> int \<times> int \<times> int \<times> int" where
  "record_dispatch_counts results num_blocking =
     (case fold count_result results (0, 0, 0) of (s, f, k) \<Rightarrow> (s, f - num_blocking, num_blocking, k))"

section \<open>The shipped plug-in\<close>

text \<open>\<^verbatim>\<open>plugin/hooks/hooks.json\<close> and the name under which the shell tool is offered to the model.\<close>

definition shipped_hooks :: json where
  "shipped_hooks =
     JObject [(''hooks'', JObject [(''PreToolUse'', JArray [
       JObject [(''matcher'', JString ''run_terminal_cmd''),
                (''hooks'', JArray [
                  JObject [(''type'', JString ''command''),
                           (''command'', JString ''../bin/safe-shell-guard''),
                           (''timeout'', JNumber ''5'')]])]])])]"

definition bash_tool_name :: string where
  "bash_tool_name = ''run_terminal_command''"

section \<open>The first denial decides\<close>

text \<open>Whether the hook at a step runs and refuses, and with what reason.\<close>

definition refusal :: "hook_world \<Rightarrow> HookEventEnvelope \<Rightarrow> RunContext \<Rightarrow> HookSpec \<Rightarrow> string option" where
  "refusal w env ctx s =
     (if switched_off w s \<or> \<not> spec_matches s env then None
      else (case fst (run_hook w s env ctx True) of RDecision (HDeny reason _) \<Rightarrow> Some reason | _ \<Rightarrow> None))"

lemma loop_by_refusal:
  "fst (pre_tool_use_loop ws i env ctx (s # specs)) =
     (case refusal (ws i) env ctx s of
        Some reason \<Rightarrow> HDeny reason (h_name s)
      | None \<Rightarrow> fst (pre_tool_use_loop ws (Suc i) env ctx specs))"
  by (auto simp: refusal_def split: prod.splits HookRunnerResult.splits HookDecision.splits)

lemma loop_allows_iff:
  "fst (pre_tool_use_loop ws i env ctx specs) = HAllow \<longleftrightarrow>
     (\<forall>j < length specs. refusal (ws (i + j)) env ctx (specs ! j) = None)"
proof (induction specs arbitrary: i)
  case (Cons s specs)
  have "(\<forall>j < length (s # specs). refusal (ws (i + j)) env ctx ((s # specs) ! j) = None) \<longleftrightarrow>
      refusal (ws i) env ctx s = None \<and> (\<forall>j < length specs. refusal (ws (Suc i + j)) env ctx (specs ! j) = None)"
    by (simp add: All_less_Suc2)
  then show ?case using Cons [of "Suc i"] by (simp only: loop_by_refusal) (auto split: option.split)
qed simp

lemma loop_denies_iff:
  "fst (pre_tool_use_loop ws i env ctx specs) = HDeny reason name \<longleftrightarrow>
     (\<exists>j < length specs. refusal (ws (i + j)) env ctx (specs ! j) = Some reason \<and> name = h_name (specs ! j)
        \<and> (\<forall>k < j. refusal (ws (i + k)) env ctx (specs ! k) = None))"
proof (induction specs arbitrary: i)
  case (Cons s specs)
  show ?case
  proof (cases "refusal (ws i) env ctx s")
    case None
    have "(\<exists>j < length (s # specs). refusal (ws (i + j)) env ctx ((s # specs) ! j) = Some reason
            \<and> name = h_name ((s # specs) ! j) \<and> (\<forall>k < j. refusal (ws (i + k)) env ctx ((s # specs) ! k) = None))
       \<longleftrightarrow> (\<exists>j < length specs. refusal (ws (Suc i + j)) env ctx (specs ! j) = Some reason
            \<and> name = h_name (specs ! j) \<and> (\<forall>k < j. refusal (ws (Suc i + k)) env ctx (specs ! k) = None))"
      by (simp add: Ex_less_Suc2 All_less_Suc2 None)
    then show ?thesis using Cons [of "Suc i"] by (simp only: loop_by_refusal None option.case)
  next
    case (Some r)
    then show ?thesis
      by (simp only: loop_by_refusal option.case)
         (auto simp: Ex_less_Suc2 intro: exI [of _ 0] dest: spec [of _ 0])
  qed
qed simp

text \<open>A dispatch of an event that cannot block runs every selected hook.\<close>

lemma non_blocking_covers:
  "length (dispatch_non_blocking ws r e env ctx) =
     card {j. j < length (hooks_for r e) \<and> (switched_off (ws j) (hooks_for r e ! j) \<or> spec_matches (hooks_for r e ! j) env)}"
proof -
  have "length (non_blocking_loop ws i env ctx specs) =
      length (filter (\<lambda>j. switched_off (ws (i + j)) (specs ! j) \<or> spec_matches (specs ! j) env) [0..<length specs])"
    for i specs
  proof (induction specs arbitrary: i)
    case (Cons s specs)
    have "[0..<length (s # specs)] = 0 # map Suc [0..<length specs]" by (simp add: map_Suc_upt upt_conv_Cons del: upt_Suc)
    then show ?case
      by (simp add: filter_map Cons o_def del: upt_Suc split: prod.splits HookRunnerResult.splits)
  qed simp
  then show ?thesis
    by (simp add: dispatch_non_blocking_def distinct_length_filter) (rule arg_cong [where f = card], auto)
qed

section \<open>The guard as a hook\<close>

text \<open>What the guard prints, as the runner reads it.\<close>

definition guard_output :: "json \<Rightarrow> (string \<times> string option) option" where
  "guard_output j =
     map_option (\<lambda>d. (d, Option.bind (json_get ''reason'' j) json_as_str)) (Option.bind (json_get ''decision'' j) json_as_str)"

lemma guard_allow_command:
  assumes "guard_decision rd h (Some input) = Allow"
  shows "\<exists>payload ti cmd. rd input = Some payload \<and> json_get ''toolInput'' payload = Some ti
    \<and> json_get ''command'' ti = Some (JString cmd) \<and> evaluate h cmd = Allow"
proof -
  have empty: "evaluate h [] = Deny ''Empty command''"
    by (simp add: evaluate_def tokenize_def lex_finish_def lex_init_def flush_word_def
        evaluate_tokens.simps eval_round_def)
  show ?thesis using assms
    by (auto simp: guard_decision_def parse_command_def empty bind_eq_Some_conv
        split: option.splits json.splits bind_splits sum.splits)
qed

text \<open>Whether its text is read or only its exit code, a denial of the guard reaches the runner.\<close>

lemma guard_denial_read:
  assumes "guard_main rd h (Some input) = (j, code)" "guard_decision rd h (Some input) = Deny reason"
    and "w_read_output w (trim out) = None \<or> w_read_output w (trim out) = guard_output j"
  shows "\<exists>r. parse_blocking_result w out (int code) name = RDecision (HDeny r name)"
  using assms by (auto simp: guard_main_def guard_output_def parse_blocking_result_def split: option.splits)

text \<open>The one group of the shipped file, and that it is what is read.\<close>

definition shipped_group :: MatcherGroup where
  "shipped_group = \<lparr>g_matcher = Some ''run_terminal_cmd'',
     g_hooks = [\<lparr>raw_type = ''command'', raw_command = Some ''../bin/safe-shell-guard'', raw_url = None,
                 raw_timeout = Some 5, raw_env = Map.empty\<rparr>]\<rparr>"

lemma shipped_groups:
  "de_groups (JArray [JObject [(''matcher'', JString ''run_terminal_cmd''),
      (''hooks'', JArray [JObject [(''type'', JString ''command''), (''command'', JString ''../bin/safe-shell-guard''),
         (''timeout'', JNumber ''5'')]])]]) = Some [shipped_group]"
  by (simp add: shipped_group_def de_field_def raw_handler_def matcher_group_def de_string_def parse_unsigned_def
      digits_val_def digit_val_def char_class_defs)

lemma shipped_pattern: "matcher_new rx ''run_terminal_cmd'' = Inr (MExact [''run_terminal_cmd''])"
  by (simp add: matcher_new_def is_simple_form_def exact_names_def push_name_def grok_names_for_def
      CLAUDE_TOOLS_def char_class_defs)

section \<open>Properties\<close>

text \<open>
  C15. The decision of a dispatch before a tool call is that of the first hook in the order of the
  registry that is switched on, matches the tool and refuses; the call is allowed exactly when
  there is none. Hooks that fail, and hooks that are off or do not match, never decide.
\<close>

theorem first_refusal_decides:
  fixes r :: HookRegistry
  defines "hooks \<equiv> hooks_for r PreToolUse"
  shows "(fst (dispatch_pre_tool_use ws r env ctx) = HDeny reason name \<longleftrightarrow>
      (\<exists>j < length hooks. refusal (ws j) env ctx (hooks ! j) = Some reason \<and> name = h_name (hooks ! j)
         \<and> (\<forall>k < j. refusal (ws k) env ctx (hooks ! k) = None)))
   \<and> (fst (dispatch_pre_tool_use ws r env ctx) = HAllow \<longleftrightarrow>
      (\<forall>j < length hooks. refusal (ws j) env ctx (hooks ! j) = None))"
  unfolding dispatch_pre_tool_use_def hooks_def
  using loop_denies_iff [of ws 0] loop_allows_iff [of ws 0] by simp

text \<open>
  C13. The shell guard stands in front of the tools it is registered for: when it runs to its end, a call
  is refused unless its input holds a command text that the evaluator of the guard allows. That
  holds whatever the other hooks do, and whether the runner can read the printed decision or only
  the exit code, also when the output or the tool input was cut.
\<close>

theorem guard_hook_binding:
  assumes hook: "i < length (hooks_for r PreToolUse)" "hooks_for r PreToolUse ! i = s"
    and selected: "\<not> switched_off (ws i) s" "spec_matches s env" "h_handler_type s = ''command''"
    and started: "prepare_command (ws i) s env ctx = Inr p"
    and guard: "guard_main rd h (Some (p_stdin p)) = (j, code)" "w_spawn (ws i) p = Exited (Some (int code)) out err"
    and reader: "w_read_output (ws i) (trim (truncate_output out)) = None
      \<or> w_read_output (ws i) (trim (truncate_output out)) = guard_output j"
    and envelope: "\<And>payload. rd (p_stdin p) = Some payload \<Longrightarrow> json_get ''toolInput'' payload = Some input"
    and refused: "\<nexists>cmd. json_get ''command'' input = Some (JString cmd) \<and> evaluate h cmd = Allow"
  shows "\<exists>reason name. fst (dispatch_pre_tool_use ws r env ctx) = HDeny reason name"
proof -
  have "guard_decision rd h (Some (p_stdin p)) \<noteq> Allow"
    using guard_allow_command envelope refused by fastforce
  then obtain reason where "guard_decision rd h (Some (p_stdin p)) = Deny reason"
    by (cases "guard_decision rd h (Some (p_stdin p))") auto
  from guard_denial_read [OF guard(1) this reader] obtain r' where
    "run_command_hook (ws i) s env ctx True = RDecision (HDeny r' (h_name s))"
    using started guard(2) by (force simp: run_command_hook_def)
  then have "refusal (ws i) env ctx (hooks_for r PreToolUse ! i) = Some r'"
    using selected hook by (simp add: refusal_def run_hook_def)
  then have "fst (pre_tool_use_loop ws 0 env ctx (hooks_for r PreToolUse)) \<noteq> HAllow"
    using loop_allows_iff [of ws 0 env ctx "hooks_for r PreToolUse"] hook(1) by auto
  then show ?thesis by (cases "fst (dispatch_pre_tool_use ws r env ctx)") (auto simp: dispatch_pre_tool_use_def)
qed

text \<open>
  C14. The shipped plug-in registers the guard for the tool named \<^verbatim>\<open>run_terminal_cmd\<close> and, since that is a
  plain name, for no other. The agent offers its shell tool as \<^verbatim>\<open>run_terminal_command\<close>: for calls of that tool the
  dispatch allows, whatever the guard would say, because the guard is not run.
\<close>

theorem shipped_guard_unreached:
  assumes content: "host_from_str h content = Some shipped_hooks"
    and printed: "\<And>t. host_to_str h shipped_hooks = Some t \<Longrightarrow> host_from_str h t = Some shipped_hooks"
    and orders: "\<And>kvs. mset (ord_raw (host_order h) kvs) = mset kvs" "\<And>evs. mset (ord_events (host_order h) evs) = mset evs"
    and specs: "specs = fst (parse_plugin_hooks h (Some content) p plugin root data)"
    and tool: "extract_tool_name env = Some tool"
  shows "\<exists>s. specs = [s] \<and> h_event s = PreToolUse
    \<and> (spec_matches s env \<longleftrightarrow> tool = ''run_terminal_cmd'')
    \<and> (tool = bash_tool_name \<longrightarrow>
         fst (dispatch_pre_tool_use ws (append_specs specs empty_registry) env ctx) = HAllow)"
proof -
  have ord: "ord_raw (host_order h) [x] = [x]" "ord_events (host_order h) [y] = [y]" for x y
    using orders(1) [of "[x]"] orders(2) [of "[y]"] by simp_all
  have filtered: "host_from_str h (fst (prefilter_unsupported_events h content)) = Some shipped_hooks"
    using content printed
    by (auto simp: prefilter_unsupported_events_def shipped_hooks_def set_hooks_def SUPPORTED_EVENTS_def split: option.split)
  have "hooks_map_from_value (host_order h) (the (json_get ''hooks'' shipped_hooks)) = Inr ([(PreToolUse, [shipped_group])], [])"
    using shipped_groups
    by (simp add: hooks_map_from_value_def ord shipped_hooks_def insert_event_def event_of_name_def event_spellings_def)
  then have parsed: "parse_hook_value h (Some shipped_hooks) p = group_specs h p PreToolUse 0 shipped_group"
    by (simp add: parse_hook_value_def ord shipped_hooks_def event_specs_def)
  obtain s where s: "parse_hook_value h (Some shipped_hooks) p = [Inr s]" "h_event s = PreToolUse"
    "h_matcher s = Some (MExact [''run_terminal_cmd''])"
    unfolding parsed by (simp add: group_specs_def shipped_group_def is_lifecycle_def shipped_pattern handler_spec_def Let_def)
  let ?t = "plugin_spec h plugin root data s"
  have t: "specs = [?t]" "h_event ?t = PreToolUse" "h_matcher ?t = Some (MExact [''run_terminal_cmd''])"
    using s filtered unfolding specs
    by (auto simp: parse_plugin_hooks_def process_hooks_content_def parse_hook_file_def Let_def case_prod_beta)
       (simp_all add: plugin_spec_def)
  have match: "spec_matches ?t env \<longleftrightarrow> tool = ''run_terminal_cmd''"
    using t tool by (simp add: spec_matches_def)
  have "refusal w env ctx ?t = None" if "tool = bash_tool_name" for w
    using match that by (simp add: refusal_def bash_tool_name_def)
  then have "fst (dispatch_pre_tool_use ws (append_specs specs empty_registry) env ctx) = HAllow"
    if "tool = bash_tool_name" using that t
    by (simp add: dispatch_pre_tool_use_def hooks_for_def append_specs_at empty_registry_def loop_by_refusal
        del: pre_tool_use_loop.simps(2))
  with t match show ?thesis by blast
qed


section \<open>Witnesses\<close>

definition plugin_demo :: hook_host where
  "plugin_demo = \<lparr>host_from_str = (\<lambda>t. if t = ''hooks.json'' then Some shipped_hooks else None), host_to_str = (\<lambda>_. None),
     host_regex = (\<lambda>_. Inl ''unsupported''), host_shellexpand = (\<lambda>s ctx. s), host_env = Map.empty, host_mask = ''0'',
     host_order = \<lparr>ord_raw = (\<lambda>x. x), ord_events = (\<lambda>x. x)\<rparr>\<rparr>"

definition demo_input :: json where
  "demo_input = JObject [(''command'', JString ''rm -rf /'')]"

definition demo_envelope :: "string \<Rightarrow> HookEventEnvelope" where
  "demo_envelope tool = \<lparr>hook_event_name = PreToolUse, e_session_id = ''s'', e_cwd = ''/w'', e_workspace_root = ''/w'',
     e_timestamp = ''t'', e_transcript_path = None, e_client_identifier = None, e_prompt_id = None,
     e_payload = PPreToolUse tool ''id'' demo_input False None None\<rparr>"

definition demo_ctx :: RunContext where
  "demo_ctx = \<lparr>c_session_id = ''s'', c_workspace_root = ''/w''\<rparr>"

lemma demo_tool: "extract_tool_name (demo_envelope t) = Some t"
  by (simp add: extract_tool_name_def demo_envelope_def)

definition demo_guard_text :: string where
  "demo_guard_text = ''payload''"

definition demo_reader :: "string \<Rightarrow> json option" where
  "demo_reader t = (if t = demo_guard_text then Some (JObject [(''toolInput'', demo_input)]) else None)"

text \<open>A world in which the guard runs, prints nothing and leaves an exit code.\<close>

definition hook_demo_world :: hook_world where
  "hook_demo_world = \<lparr>host_from_str = (\<lambda>_. None), host_to_str = (\<lambda>_. None), host_regex = (\<lambda>_. Inl ''unsupported''),
     host_shellexpand = (\<lambda>s ctx. s), host_env = Map.empty, host_mask = ''0'',
     host_order = \<lparr>ord_raw = (\<lambda>x. x), ord_events = (\<lambda>x. x)\<rparr>,
     w_serialize = (\<lambda>_. Inr demo_guard_text), w_read_output = (\<lambda>_. None), w_exists = (\<lambda>_. True),
     w_spawn = (\<lambda>p. Exited (Some (int (snd (guard_main demo_reader demo_host (Some (p_stdin p)))))) [] []),
     w_net = \<lparr>n_url_parse = (\<lambda>_. Inl []), n_lookup_host = (\<lambda>_. Inl []), n_gethostname = [],
       n_parse_ip = (\<lambda>_. None), n_show_ip = (\<lambda>_. []), n_show_port = (\<lambda>_. [])\<rparr>,
     w_post = (\<lambda>_ _ _. SendTimeout), w_show_status = (\<lambda>_. []), w_disabled = IoNotFound\<rparr>"

theorem shipped_guard_unreached_witness:
  "fst (dispatch_pre_tool_use (\<lambda>_. hook_demo_world)
     (append_specs (fst (parse_plugin_hooks plugin_demo (Some ''hooks.json'') [RootDir, Normal ''hooks.json''] ''omgb'' ''/p'' ''/d''))
        empty_registry) (demo_envelope bash_tool_name) demo_ctx) = HAllow"
  using shipped_guard_unreached [OF _ _ _ _ refl demo_tool [of bash_tool_name], where h = plugin_demo and content = "''hooks.json''"
      and ws = "\<lambda>_. hook_demo_world" and ctx = demo_ctx and p = "[RootDir, Normal ''hooks.json'']" and plugin = "''omgb''"
      and root = "''/p''" and data = "''/d''"]
  by (auto simp: plugin_demo_def)

definition demo_spec :: HookSpec where
  "demo_spec = \<lparr>h_name = ''guard'', h_event = PreToolUse, h_handler_type = ''command'', h_configured_matcher = Some ''Bash'',
     h_matcher = Some (MExact [''Bash'', ''run_terminal_command'']), h_enabled = True,
     h_command = Some ''/p/guard'', h_command_raw = Some ''/p/guard'', h_url = None, h_url_raw = None,
     h_timeout_ms = 5000, h_source_dir = ''/p'', h_extra_env = Map.empty\<rparr>"

definition demo_process :: hook_process where
  "demo_process = \<lparr>p_program = ''/p/guard'', p_args = [], p_cwd = ''/w'',
     p_env = spawn_env demo_spec (demo_envelope bash_tool_name) demo_ctx, p_stdin = demo_guard_text, p_timeout = 5000\<rparr>"

lemma demo_refused: "evaluate demo_host ''rm -rf /'' \<noteq> Allow"
  by code_simp

theorem guard_hook_binding_witness:
  "\<exists>reason name. fst (dispatch_pre_tool_use (\<lambda>_. hook_demo_world) (append_specs [demo_spec] empty_registry)
     (demo_envelope bash_tool_name) demo_ctx) = HDeny reason name"
proof (rule guard_hook_binding [where i = 0 and s = demo_spec and p = demo_process and rd = demo_reader
    and h = demo_host and j = "fst (guard_main demo_reader demo_host (Some demo_guard_text))"
    and code = "snd (guard_main demo_reader demo_host (Some demo_guard_text))" and input = demo_input])
  show "spec_matches demo_spec (demo_envelope bash_tool_name)"
    by (simp add: spec_matches_def demo_tool demo_spec_def bash_tool_name_def)
  show "prepare_command hook_demo_world demo_spec (demo_envelope bash_tool_name) demo_ctx = Inr demo_process"
    by (simp add: prepare_command_def demo_spec_def hook_demo_world_def demo_process_def demo_ctx_def is_shell_command_def Let_def)
  show "\<nexists>cmd. json_get ''command'' demo_input = Some (JString cmd) \<and> evaluate demo_host cmd = Allow"
    using demo_refused by (simp add: demo_input_def)
  show "json_get ''toolInput'' payload = Some demo_input"
    if "demo_reader (p_stdin demo_process) = Some payload" for payload
    using that by (auto simp: demo_reader_def demo_process_def)
qed (simp_all add: hooks_for_def append_specs_at empty_registry_def demo_spec_def switched_off_def hook_demo_world_def
    is_hook_disabled_def demo_process_def)

definition hook_demo_net :: net where
  "hook_demo_net = \<lparr>n_url_parse = (\<lambda>_. Inr \<lparr>u_scheme = ''https'', u_username = [], u_password = None,
       u_host_str = Some ''10.0.0.1'', u_port = None\<rparr>),
     n_lookup_host = (\<lambda>_. Inl ''unreachable''), n_gethostname = ''box'', n_parse_ip = (\<lambda>_. Some (V4 (ipv4 10 0 0 1))),
     n_show_ip = (\<lambda>_. ''10.0.0.1''), n_show_port = show_decimal\<rparr>"

lemma demo_address_blocked: "blocked_v4 (ipv4 10 0 0 1)"
  by (simp add: blocked_v4_ranges v4_is_private_def ipv4_unat dotted_def)


theorem first_refusal_decides_witness:
  "fst (dispatch_pre_tool_use (\<lambda>_. hook_demo_world) (append_specs [demo_spec] empty_registry)
     (demo_envelope ''read_file'') demo_ctx) = HAllow"
proof -
  have hooks: "hooks_for (append_specs [demo_spec] empty_registry) PreToolUse = [demo_spec]"
    by (simp add: hooks_for_def append_specs_at empty_registry_def demo_spec_def)
  have "\<not> spec_matches demo_spec (demo_envelope ''read_file'')"
    by (simp add: spec_matches_def demo_tool demo_spec_def)
  then show ?thesis
    using first_refusal_decides [of "\<lambda>_. hook_demo_world" "append_specs [demo_spec] empty_registry"
        "demo_envelope ''read_file''" demo_ctx]
    by (simp add: hooks refusal_def)
qed

end
