(* ===== verification/Spec2Isabelle.thy ===== *)
theory Spec2Isabelle
  imports Guard_Eval Breaker_Race Breaker_Registry Net_Policy Hashline Prompt_Guard Token_Estimation Scheduler Approvals Patch_Tool Perm_Rules Perm_System Perm_Resolve Hunk_Review Hunk_Loc Hook_Dispatch
begin

text \<open>
  The safety core of oh-my-grok-build, modelled and verified.

  \<^bold>\<open>The program.\<close> A coding agent runs tools that a language model asks for: shell scripts, edits, patches,
  fetches, tools of MCP servers. What stands between a request of the model and its effect is modelled
  here. Every request becomes an access (\<^verbatim>\<open>permission/types.rs\<close>) and is answered by the permission manager
  (\<^verbatim>\<open>permission/manager.rs\<close>), an actor behind handles that share flags with it. The actor first asks the
  rules of the policy (\<^verbatim>\<open>policy.rs\<close>), for scripts also about every command
  (\<^verbatim>\<open>bash_command_splitting.rs\<close>) and every file they touch (\<^verbatim>\<open>shell_access.rs\<close>), then its modes, what the user
  granted or refused before (\<^verbatim>\<open>state.rs\<close>), the classifier of auto mode (\<^verbatim>\<open>auto_mode.rs\<close>), the sandbox, and
  at last the user (\<^verbatim>\<open>prompter.rs\<close>, \<^verbatim>\<open>hub_permission.rs\<close>). In front of the shell stands a second, independent
  check, the hook \<^verbatim>\<open>safe_shell_guard.rs\<close>, a program of its own that sees the text of a command and is run by
  the hook system (\<^verbatim>\<open>xai-grok-hooks\<close>) before a tool call. Edits that
  are let through are carried out by the patch tool (\<^verbatim>\<open>apply_patch\<close>) and by hashline patches; the hunk
  tracker (\<^verbatim>\<open>xai-hunk-tracker\<close>), an actor too, keeps what was changed since the baseline of a file, so that
  the user can accept or reject it, and who changed it. The rules come from layers of settings files of
  the administrator, the user and the project (\<^verbatim>\<open>resolution.rs\<close>, \<^verbatim>\<open>claude_settings.rs\<close>). The program
  \<^verbatim>\<open>omgb\<close> around it keeps approvals and scheduled jobs in files, sanitises text that goes into prompts and
  checks outgoing URLs. Calls of services go through a circuit breaker.

  \<^bold>\<open>Text.\<close> A string of the program is the list of its UTF-8 bytes; only the patch tool, which compares
  characters, works on code points (\<open>Unicode_Text\<close>). White space and letter case are those of ASCII.

  \<^bold>\<open>Shared theories.\<close> \<open>Rust_Prelude\<close> has the string operations of the standard library, results, integer
  parsing; \<open>Float64\<close> the rounding of doubles; \<open>Json\<close>, \<open>Jsonl\<close> values and line files; \<open>Keyed_Table\<close> the
  contract of a table with unique keys that the stores implement.

  \<^bold>\<open>The shell guard\<close> (\<^verbatim>\<open>oh-my-grok-build/src/bin/safe_shell_guard.rs\<close>). \<open>Guard_Lexer\<close>: tokens, and that the
  tokenizer accepts exactly the commands without active characters. \<open>Guard_Names\<close>: command names,
  assignments. \<open>Guard_Git\<close>: the git policy against a grammar. \<open>Guard_Targets\<close>: operands of rm, dd, systemctl
  and others. \<open>Guard_Paths\<close>: trusted folders. \<open>Guard_Prefix\<close>: the twenty wrapper commands behind the locale
  \<open>prefix_parser\<close>, which promises that a wrapper moves forward. \<open>Guard_Eval\<close>: the evaluator, the depth of its
  recursion (the length of the command plus two rounds are enough) and the exit code of the hook.

  \<^bold>\<open>Permissions\<close> (\<^verbatim>\<open>xai-grok-workspace/src/permission\<close>). \<open>Perm_Types\<close>: accesses, decisions and their ranking;
  the locales \<open>rule_gate\<close> and \<open>escalating_gate\<close> state what the manager relies on of a check by rules: it
  answers with a decision of rules, and one for scripts never allows. \<open>Perm_Rules\<close>: rule strings and their
  round trip. \<open>Bash_Split\<close>: from the syntax tree of a script to its plain commands and what stands behind
  wrappers. \<open>Perm_Policy\<close>: compiled rules, precedence, scripts in nested shells. \<open>Shell_Paths\<close>, \<open>Shell_Access\<close>:
  names of files through links, protected files, what a script reads and writes. \<open>Model_Path\<close>, \<open>Truncate\<close>:
  path arguments of the model and cutting text. \<open>Auto_Mode\<close>: fast paths, heuristic and model classifier.
  \<open>Perm_State\<close>: remembered answers and their files, MCP names, domain list. \<open>Perm_Bash\<close>: a script against
  grants, lists and floors. \<open>Perm_Prompt\<close>: options and answers. \<open>Perm_Manager\<close>: the request handler, whose
  gates are interpretations of the two locales. \<open>Perm_System\<close>: handles, queue and actor as a step relation.
  \<open>Perm_Settings\<close>: vendor settings files, where they are looked for and the variables they set.
  \<open>Mcp_Policy\<close>: the servers and marketplaces that managed settings allow and deny. \<open>Perm_Resolve\<close>: the
  layers of rules with their sources, default modes and the pin of always-approve.
  Shown: a command or file that a rule denies is stopped in every mode; an ask of the gates is binding;
  writes, unsafe variables and protected edits are confirmed; what runs unasked is harmless or granted;
  what is remembered comes from the user's answer about that access; the modes stay consistent; a deny
  rule in any file that is read reaches the manager, and a denied host blocks its servers however the
  URL is spelled.

  \<^bold>\<open>Edits.\<close> \<open>Patch_Seek\<close>, \<open>Patch_Apply\<close>, \<open>Patch_Parser\<close>, \<open>Patch_Tool\<close>
  (\<^verbatim>\<open>xai-grok-tools/src/implementations/codex/apply_patch\<close>): fuzzy search, replacement of chunks, the parser and
  its round trip, the run over a set of files. \<open>Hashline\<close> (\<^verbatim>\<open>hashline.rs\<close>): anchored blocks.

  \<^bold>\<open>Hunk tracker\<close> (\<^verbatim>\<open>xai-hunk-tracker/src\<close>). \<open>Hunk_Diff\<close> (\<^verbatim>\<open>types.rs\<close>, \<^verbatim>\<open>diff.rs\<close>): from the changes of a line
  diff to hunks, patching by line numbers, and that undoing the hunks from the last to the first gives
  the old text. \<open>Hunk_Tracker\<close> (\<^verbatim>\<open>state.rs\<close>, \<^verbatim>\<open>file_utils.rs\<close>, \<^verbatim>\<open>hunks.rs\<close>, \<^verbatim>\<open>events.rs\<close>): contents, the state, hunks
  computed anew. \<open>Hunk_Actions\<close> (\<^verbatim>\<open>actions.rs\<close>): accepting and rejecting. \<open>Hunk_Actor\<close> (\<^verbatim>\<open>mutations.rs\<close>, \<^verbatim>\<open>git.rs\<close>,
  \<^verbatim>\<open>queries.rs\<close>, \<^verbatim>\<open>mod.rs\<close>, \<^verbatim>\<open>commands.rs\<close>): everything the actor does. \<open>Hunk_Invariant\<close>, \<open>Hunk_Reach\<close>: identifiers,
  index and contents fit together, and every operation keeps it so. \<open>Hunk_Review\<close>: runs of the actor with
  any changes of the disk in between; hunks of a turn, settling a file, the summary of a session.
  \<open>Hunk_Loc\<close> (\<^verbatim>\<open>loc/mod.rs\<close>): lines per author, and that rejected lines cancel.

  \<^bold>\<open>Hooks\<close> (\<^verbatim>\<open>xai-grok-hooks/src\<close>). \<open>Hook_Event\<close> (\<^verbatim>\<open>event.rs\<close>, \<^verbatim>\<open>matcher.rs\<close>): events and the patterns that select
  tools. \<open>Hook_Env\<close> (\<^verbatim>\<open>env_expand.rs\<close>): references to variables, and that masking them is undone exactly.
  \<open>Hook_Config\<close> (\<^verbatim>\<open>config.rs\<close>, \<^verbatim>\<open>hooks_adapter.rs\<close>): hook files and plug-ins. \<open>Hook_Registry\<close> (\<^verbatim>\<open>discovery.rs\<close>,
  \<^verbatim>\<open>trust.rs\<close>): the registry, what is loaded, and that disabling and enabling change one hook only.
  \<open>Hook_Run\<close> (\<^verbatim>\<open>runner\<close>): command and HTTP hooks; the variables of the runner win, blocked addresses are not
  reached. \<open>Hook_Dispatch\<close> (\<^verbatim>\<open>dispatcher.rs\<close>): the first refusal decides; the guard as a hook, which refuses
  every command it does not allow when it is run, and the name of the tool for which it is run.

  \<^bold>\<open>Circuit breaker\<close> (\<^verbatim>\<open>xai-circuit-breaker\<close>). \<open>Breaker_Window\<close> (locale \<open>sample_window\<close>), \<open>Breaker_Config\<close>,
  \<open>Breaker\<close>: the state machine, its invariant and progress. \<open>Breaker_Race\<close>: the atomic accesses of
  interleaved threads. \<open>Breaker_Registry\<close> (locale \<open>handle_table\<close>): breakers by name.

  \<^bold>\<open>Stores and text of omgb.\<close> \<open>Sched_Interval\<close>, \<open>Scheduler\<close>, \<open>Approvals\<close>: files of jobs and approvals as
  refinements of tables. \<open>Net_Policy\<close>: addresses and URLs. \<open>Prompt_Guard\<close>: sanitised text.
  \<open>Token_Estimation\<close>: estimates of tokens.

  \<^bold>\<open>Bounds.\<close> The limits are those of the source: eight wrappers, eight levels of nested shells, forty steps
  through links, a window of 10,000 samples, twelve recorded decisions, 400 bytes of a recorded call and
  1,024 characters of the arguments of an MCP call, 64 KB of the output of a hook and 128 KB of its input. Fuel is used only where the source counts too (nested
  shells, wrappers, links) and in the evaluator of the guard, where the theorem on its depth shows that
  the fuel it is given is enough. Doubles are exact below \<open>2 ^ 53\<close>; counters of the breaker are 64-bit words.

  \<^bold>\<open>Parameters.\<close> Code outside the repository is an argument: the tree of the bash grammar, globs, URLs, TOML
  and JSON text, regular expressions, the expansion of variables, processes, HTTP, tilde expansion, dates and cron expressions, name resolution, hashes, the file system
  (results of its calls as functions), the line diff and the answers of git, the side query to the model,
  the sandbox and the answers of the user. What a theorem needs of one is a hypothesis of it, such as that a codec reads back what it wrote.

  \<^bold>\<open>Not modelled.\<close> The terminal interface, sessions, sampling, the hub, telemetry, voice, updates: input and
  output, rendering and asynchronous glue. Of the modelled crates: Windows forms of paths, soft line
  breaks for display, log and telemetry records, metrics, and the unified patch of a whole file, which
  the diff library prints. Chat state and compaction, worktrees, the code graph and the other commands
  of omgb are logic that could be modelled in the same way and is not.
\<close>

end
